(* ===== verification/Gateway_Prelude.thy ===== *)
theory Gateway_Prelude
  imports Main "HOL-Library.Word" "HOL-Library.Monad_Syntax"
begin

text \<open>
  Shared vocabulary of the development.

  \<^item> Machine integers: \<open>u8\<close>, \<open>u16\<close>, \<open>u32\<close> are the unsigned C types of the sources,
    \<open>s32\<close> reads a 32-bit value as a C \<open>int32_t\<close>.
  \<^item> Undefined behaviour: a C function that can touch memory returns \<open>'a exec\<close>, an
    \<open>option\<close>; \<^term>\<open>None\<close> means that the run reads or writes outside an object, uses a
    freed cell or dereferences \<open>NULL\<close>. A function that returns normally, its error
    codes and \<open>NULL\<close> results included, is \<open>Some\<close>. The do-notation of
    \<open>Monad_Syntax\<close> sequences such steps.
  \<^item> Byte buffers: \<open>rd8\<close>, \<open>rd16\<close>, \<open>wr8\<close>, \<open>wr16\<close> are the loads and stores of the
    sources on a byte array; the 16-bit ones include the \<open>ntohs\<close> / \<open>htons\<close> that always
    accompanies them, so they are big-endian.
  \<^item> \<open>'a cptr\<close> is a C pointer result: \<open>NULL\<close> or a pointer to a fresh object.
\<close>

unbundle bit_operations_syntax

subsection \<open>Machine integers and undefined behaviour\<close>

type_synonym u8 = "8 word"
type_synonym u16 = "16 word"
type_synonym u32 = "32 word"
type_synonym bytes = "u8 list"
type_synonym 'a exec = "'a option"

datatype 'a cptr = NULL | Ptr 'a

named_theorems byte_simps \<open>loads and stores on byte buffers\<close>
named_theorems frame_simps \<open>evaluation of loads and stores on explicit lists of bytes\<close>
named_theorems plugin_simps \<open>unfolding rules of the plugin helper functions\<close>
named_theorems heap_simps \<open>rules for linked structures in an explicit heap\<close>

definition rd8 :: "bytes \<Rightarrow> nat \<Rightarrow> u8 exec" where
  "rd8 buf i = (if i < length buf then Some (buf ! i) else None)"

definition rd16 :: "bytes \<Rightarrow> nat \<Rightarrow> u16 exec" where
  "rd16 buf i = do {
     h \<leftarrow> rd8 buf i;
     l \<leftarrow> rd8 buf (Suc i);
     Some (push_bit 8 (ucast h) OR ucast l) }"

definition wr8 :: "bytes \<Rightarrow> nat \<Rightarrow> u8 \<Rightarrow> bytes exec" where
  "wr8 buf i b = (if i < length buf then Some (buf[i := b]) else None)"

definition wr16 :: "bytes \<Rightarrow> nat \<Rightarrow> u16 \<Rightarrow> bytes exec" where
  "wr16 buf i w = do {
     buf1 \<leftarrow> wr8 buf i (ucast (drop_bit 8 w));
     wr8 buf1 (Suc i) (ucast w) }"

text \<open>
  The result of signed arithmetic in C: undefined when it leaves the range of \<open>int\<close>.
\<close>

definition c_int :: "int \<Rightarrow> int exec" where
  "c_int x = (if - (2 ^ 31) \<le> x \<and> x < 2 ^ 31 then Some x else None)"

text \<open>Row and column access of a static two-dimensional array.\<close>

definition rd_tab :: "'a list list \<Rightarrow> nat \<Rightarrow> nat \<Rightarrow> 'a exec" where
  "rd_tab t i j = (if i < length t \<and> j < length (t ! i) then Some (t ! i ! j) else None)"

definition wr_tab :: "'a list list \<Rightarrow> nat \<Rightarrow> nat \<Rightarrow> 'a \<Rightarrow> 'a list list exec" where
  "wr_tab t i j v =
     (if i < length t \<and> j < length (t ! i) then Some (t[i := (t ! i)[j := v]]) else None)"

text \<open>
  Partial correctness of a step: every result it returns satisfies \<open>P\<close>. The rules push
  \<open>post\<close> through a sequence of loads and stores.
\<close>

definition post :: "'a exec \<Rightarrow> ('a \<Rightarrow> bool) \<Rightarrow> bool" where
  "post e P \<longleftrightarrow> (\<forall>x. e = Some x \<longrightarrow> P x)"

named_theorems post_simps \<open>partial correctness of sequenced steps\<close>

subsection \<open>Laws of the accessors\<close>

lemma rd8_Some [byte_simps]: "i < length buf \<Longrightarrow> rd8 buf i = Some (buf ! i)"
  by (simp add: rd8_def)

lemma rd8_eq_Some_iff: "rd8 buf i = Some b \<longleftrightarrow> i < length buf \<and> b = buf ! i"
  by (auto simp: rd8_def)

lemma rd8_eq_None_iff: "rd8 buf i = None \<longleftrightarrow> length buf \<le> i"
  by (auto simp: rd8_def)

lemma wr8_Some [byte_simps]: "i < length buf \<Longrightarrow> wr8 buf i b = Some (buf[i := b])"
  by (simp add: wr8_def)

lemma wr16_Some [byte_simps]:
  "Suc i < length buf \<Longrightarrow>
   wr16 buf i w = Some (buf[i := ucast (drop_bit 8 w), Suc i := ucast w])"
  by (simp add: wr16_def byte_simps)

lemma rd16_Some [byte_simps]:
  "Suc i < length buf \<Longrightarrow>
   rd16 buf i = Some (push_bit 8 (ucast (buf ! i)) OR ucast (buf ! Suc i))"
  by (simp add: rd16_def byte_simps)

lemma length_wr8: "wr8 buf i b = Some buf' \<Longrightarrow> length buf' = length buf"
  by (auto simp: wr8_def split: if_splits)

lemma rd8_Cons [frame_simps]:
  "rd8 (x # xs) 0 = Some x"
  "rd8 (x # xs) (Suc i) = rd8 xs i"
  "rd8 (x # xs) 1 = rd8 xs 0"
  "rd8 (x # xs) (numeral k) = rd8 xs (pred_numeral k)"
  by (simp_all add: rd8_def numeral_eq_Suc)

lemma wr8_Cons [frame_simps]:
  "wr8 (x # xs) 0 b = Some (b # xs)"
  "wr8 (x # xs) (Suc i) b = map_option ((#) x) (wr8 xs i b)"
  "wr8 (x # xs) 1 b = map_option ((#) x) (wr8 xs 0 b)"
  "wr8 (x # xs) (numeral k) b = map_option ((#) x) (wr8 xs (pred_numeral k) b)"
  by (simp_all add: wr8_def numeral_eq_Suc)

lemma rd8_wr8_Nil [frame_simps]: "rd8 [] i = None" "wr8 [] i b = None"
  by (simp_all add: rd8_def wr8_def)

lemmas [frame_simps] = rd16_def wr16_def

lemma replicate_frame [frame_simps]:
  "replicate (numeral k) x = x # replicate (pred_numeral k) x"
  by (simp add: numeral_eq_Suc)

lemma rd_tab_Some [byte_simps]:
  "i < length t \<Longrightarrow> j < length (t ! i) \<Longrightarrow> rd_tab t i j = Some (t ! i ! j)"
  by (simp add: rd_tab_def)

lemma wr_tab_Some [byte_simps]:
  "i < length t \<Longrightarrow> j < length (t ! i) \<Longrightarrow> wr_tab t i j v = Some (t[i := (t ! i)[j := v]])"
  by (simp add: wr_tab_def)

lemma rd_tab_eq_None_iff: "rd_tab t i j = None \<longleftrightarrow> \<not> (i < length t \<and> j < length (t ! i))"
  by (simp add: rd_tab_def)

text \<open>A static array of \<open>r\<close> rows and \<open>c\<close> columns; stores keep its shape.\<close>

definition is_tab :: "nat \<Rightarrow> nat \<Rightarrow> 'a list list \<Rightarrow> bool" where
  "is_tab r c t \<longleftrightarrow> length t = r \<and> list_all (\<lambda>row. length row = c) t"

lemma rd_tab_ok: "is_tab r c t \<Longrightarrow> i < r \<Longrightarrow> j < c \<Longrightarrow> rd_tab t i j = Some (t ! i ! j)"
  by (simp add: is_tab_def rd_tab_def list_all_length)

lemma wr_tab_ok:
  "is_tab r c t \<Longrightarrow> i < r \<Longrightarrow> j < c \<Longrightarrow> wr_tab t i j v = Some (t[i := (t ! i)[j := v]])"
  by (simp add: is_tab_def wr_tab_def list_all_length)

lemma is_tab_update: "is_tab r c t \<Longrightarrow> is_tab r c (t[i := (t ! i)[j := v]])"
  by (cases "i < length t") (auto simp: is_tab_def list_all_length nth_list_update)

lemma split_u16 [simp]:
  fixes w :: u16
  shows "push_bit 8 (ucast ((ucast (drop_bit 8 w)) :: u8)) OR ucast ((ucast w) :: u8) = w"
  by (rule bit_word_eqI)
    (auto simp: bit_or_iff bit_push_bit_iff bit_unsigned_iff bit_drop_bit_eq)

lemma post_Some [post_simps]: "post (Some x) P \<longleftrightarrow> P x" "post None P \<longleftrightarrow> True"
  by (simp_all add: post_def)

lemma post_bind: "post (e \<bind> f) P \<longleftrightarrow> (\<forall>x. e = Some x \<longrightarrow> post (f x) P)"
  by (auto simp: post_def bind_eq_Some_conv)

lemma post_map [post_simps]: "post (map_option g e) P \<longleftrightarrow> post e (\<lambda>x. P (g x))"
  by (auto simp: post_def)

lemma post_wr8 [post_simps]:
  "post (wr8 b i v \<bind> f) P \<longleftrightarrow> (i < length b \<longrightarrow> post (f (b[i := v])) P)"
  "post (wr8 b i v) Q \<longleftrightarrow> (i < length b \<longrightarrow> Q (b[i := v]))"
  by (auto simp: post_def wr8_def)

lemma post_wr16 [post_simps]:
  "post (wr16 b i w \<bind> f) P \<longleftrightarrow>
     (Suc i < length b \<longrightarrow> post (f (b[i := ucast (drop_bit 8 w), Suc i := ucast w])) P)"
  "post (wr16 b i w) Q \<longleftrightarrow> (Suc i < length b \<longrightarrow> Q (b[i := ucast (drop_bit 8 w), Suc i := ucast w]))"
  by (auto simp: post_def wr16_def wr8_def)

lemma post_rd_tab [post_simps]:
  "post (rd_tab t i j \<bind> f) P \<longleftrightarrow>
     (i < length t \<and> j < length (t ! i) \<longrightarrow> post (f (t ! i ! j)) P)"
  "post (wr_tab t i j v \<bind> g) P \<longleftrightarrow>
     (i < length t \<and> j < length (t ! i) \<longrightarrow> post (g (t[i := (t ! i)[j := v]])) P)"
  by (auto simp: post_def rd_tab_def wr_tab_def)

lemma post_rd [post_simps]:
  "post (rd8 b i \<bind> f) P \<longleftrightarrow> (i < length b \<longrightarrow> post (f (b ! i)) P)"
  "post (c_int x \<bind> g) P \<longleftrightarrow> (- (2 ^ 31) \<le> x \<and> x < 2 ^ 31 \<longrightarrow> post (g x) P)"
  by (auto simp: post_def rd8_def c_int_def)

lemmas [post_simps] = Option.bind_assoc

text \<open>Total correctness of a step: it is defined and its result satisfies \<open>P\<close>.\<close>

definition safe :: "'a exec \<Rightarrow> ('a \<Rightarrow> bool) \<Rightarrow> bool" where
  "safe e P \<longleftrightarrow> (\<exists>x. e = Some x \<and> P x)"

named_theorems safe_intros \<open>introduction rules for total correctness\<close>

lemma safeD: "safe e P \<Longrightarrow> \<exists>x. e = Some x \<and> P x"
  by (simp add: safe_def)

lemma safe_Some [safe_intros]: "P x \<Longrightarrow> safe (Some x) P"
  by (simp add: safe_def)

lemma safe_bindI: "safe e Q \<Longrightarrow> (\<And>x. Q x \<Longrightarrow> safe (f x) P) \<Longrightarrow> safe (e \<bind> f) P"
  by (auto simp: safe_def)

lemma safe_if [safe_intros]:
  "(c \<Longrightarrow> safe e P) \<Longrightarrow> (\<not> c \<Longrightarrow> safe e' P) \<Longrightarrow> safe (if c then e else e') P"
  by simp

lemma safe_rd8 [safe_intros]: "i < length b \<Longrightarrow> safe (f (b ! i)) P \<Longrightarrow> safe (rd8 b i \<bind> f) P"
  by (simp add: rd8_def)

lemma safe_wr_tab [safe_intros]:
  "is_tab r c t \<Longrightarrow> i < r \<Longrightarrow> j < c \<Longrightarrow> (\<And>t'. is_tab r c t' \<Longrightarrow> safe (f t') P)
   \<Longrightarrow> safe (wr_tab t i j v \<bind> f) P"
  by (simp add: wr_tab_ok is_tab_update)

lemma safe_rd_tab [safe_intros]:
  "is_tab r c t \<Longrightarrow> i < r \<Longrightarrow> j < c \<Longrightarrow> safe (f (t ! i ! j)) P
   \<Longrightarrow> safe (rd_tab t i j \<bind> f) P"
  by (simp add: rd_tab_ok)

lemma safe_rd16 [safe_intros]:
  "Suc i < length b \<Longrightarrow> (\<And>w. rd16 b i = Some w \<Longrightarrow> safe (f w) P) \<Longrightarrow> safe (rd16 b i \<bind> f) P"
  by (simp add: rd16_Some)

lemma safe_wr8 [safe_intros]:
  "i < length b \<Longrightarrow> safe (f (b[i := v])) P \<Longrightarrow> safe (wr8 b i v \<bind> f) P"
  by (simp add: wr8_Some)

lemma safe_wr16 [safe_intros]:
  "Suc i < length b \<Longrightarrow> safe (f (b[i := ucast (drop_bit 8 w), Suc i := ucast w])) P
   \<Longrightarrow> safe (wr16 b i w \<bind> f) P"
  by (simp add: wr16_Some)

lemma ucast_low_byte:
  fixes w :: u32
  shows "ucast (ucast w :: u8) = take_bit 8 w"
  by (rule bit_word_eqI) (auto simp: bit_unsigned_iff bit_take_bit_iff)

lemma unat_ucast_u16 [simp]: "unat (ucast (w :: u16) :: u32) = unat w"
proof -
  have "unat w < 2 ^ 16"
    using unsigned_less [of w] by simp
  then show ?thesis
    by (simp add: unsigned_ucast_eq take_bit_nat_eq_self)
qed

lemma ucast_u8_u16_u8 [simp]: "(ucast (ucast (b :: u8) :: u16) :: u8) = b"
  by (rule bit_word_eqI) (auto simp: bit_unsigned_iff)

lemma ucast_u8_u32_u8 [simp]: "(ucast (ucast (b :: u8) :: u32) :: u8) = b"
  by (rule bit_word_eqI) (auto simp: bit_unsigned_iff)

lemma ucast_drop_u8 [simp]: "drop_bit 8 (ucast (b :: u8) :: u16) = 0"
  by (rule bit_word_eqI) (auto simp: bit_unsigned_iff bit_drop_bit_eq dest: bit_imp_le_length)

lemma sint_u32_eq_iff:
  fixes w :: u32
  shows "sint w = 0 \<longleftrightarrow> w = 0" "sint w = 1 \<longleftrightarrow> w = 1" "sint w = 2 \<longleftrightarrow> w = 2"
proof -
  have w: "w = word_of_int k" if "sint w = k" for k
    by (simp flip: that)
  show "sint w = 0 \<longleftrightarrow> w = 0" "sint w = 1 \<longleftrightarrow> w = 1" "sint w = 2 \<longleftrightarrow> w = 2"
    using w [of 0] w [of 1] w [of 2] by auto
qed

lemma ucast_u32_u16_u8: "(ucast (ucast (w :: u32) :: u16) :: u8) = ucast w"
  by (rule bit_word_eqI) (auto simp: bit_unsigned_iff)

lemma scast_u8 [simp]:
  fixes w :: u32
  shows "(scast w :: u8) = ucast w"
  by (rule bit_word_eqI) (auto simp: bit_signed_iff bit_unsigned_iff min_def)

lemma rd16_wr16:
  assumes "wr16 buf i w = Some buf'"
  shows "rd16 buf' i = Some w"
proof -
  from assms have "Suc i < length buf"
    by (auto simp: wr16_def wr8_def bind_eq_Some_conv split: if_splits)
  with assms show ?thesis
    by (auto simp: byte_simps)
qed

end
