(* ===== verification/Checksum.thy ===== *)
theory Checksum
  imports Gateway_Prelude
begin

text \<open>
  The frame checksums of \<open>source/crc16.c\<close>: the two lookup tables, the table-driven
  \<open>crc16\<close>, the additive checksum \<open>cs\<close> and the exclusive-or checksum \<open>BCC8\<close>. The
  loops are translated with their index and bounds, so that a table or buffer access
  outside its object would be \<^term>\<open>None\<close>. The lemmas show that \<open>crc16\<close> never leaves its
  tables and computes the CRC of the Modbus protocol (polynomial 0xA001, reflected,
  initial value 0xFFFF) with the two bytes exchanged, so that the \<open>htons\<close> of the callers
  puts the low byte first on the wire.
\<close>

subsection \<open>The code\<close>

definition tableHigh :: bytes where
  "tableHigh = [
    0x00, 0xc1, 0x81, 0x40, 0x01, 0xc0, 0x80, 0x41, 0x01, 0xc0,
    0x80, 0x41, 0x00, 0xc1, 0x81, 0x40, 0x01, 0xc0, 0x80, 0x41,
    0x00, 0xc1, 0x81, 0x40, 0x00, 0xc1, 0x81, 0x40, 0x01, 0xc0,
    0x80, 0x41, 0x01, 0xc0, 0x80, 0x41, 0x00, 0xc1, 0x81, 0x40,
    0x00, 0xc1, 0x81, 0x40, 0x01, 0xc0, 0x80, 0x41, 0x00, 0xc1,
    0x81, 0x40, 0x01, 0xc0, 0x80, 0x41, 0x01, 0xc0, 0x80, 0x41,
    0x00, 0xc1, 0x81, 0x40, 0x01, 0xc0, 0x80, 0x41, 0x00, 0xc1,
    0x81, 0x40, 0x00, 0xc1, 0x81, 0x40, 0x01, 0xc0, 0x80, 0x41,
    0x00, 0xc1, 0x81, 0x40, 0x01, 0xc0, 0x80, 0x41, 0x01, 0xc0,
    0x80, 0x41, 0x00, 0xc1, 0x81, 0x40, 0x00, 0xc1, 0x81, 0x40,
    0x01, 0xc0, 0x80, 0x41, 0x01, 0xc0, 0x80, 0x41, 0x00, 0xc1,
    0x81, 0x40, 0x01, 0xc0, 0x80, 0x41, 0x00, 0xc1, 0x81, 0x40,
    0x00, 0xc1, 0x81, 0x40, 0x01, 0xc0, 0x80, 0x41, 0x01, 0xc0,
    0x80, 0x41, 0x00, 0xc1, 0x81, 0x40, 0x00, 0xc1, 0x81, 0x40,
    0x01, 0xc0, 0x80, 0x41, 0x00, 0xc1, 0x81, 0x40, 0x01, 0xc0,
    0x80, 0x41, 0x01, 0xc0, 0x80, 0x41, 0x00, 0xc1, 0x81, 0x40,
    0x00, 0xc1, 0x81, 0x40, 0x01, 0xc0, 0x80, 0x41, 0x01, 0xc0,
    0x80, 0x41, 0x00, 0xc1, 0x81, 0x40, 0x01, 0xc0, 0x80, 0x41,
    0x00, 0xc1, 0x81, 0x40, 0x00, 0xc1, 0x81, 0x40, 0x01, 0xc0,
    0x80, 0x41, 0x00, 0xc1, 0x81, 0x40, 0x01, 0xc0, 0x80, 0x41,
    0x01, 0xc0, 0x80, 0x41, 0x00, 0xc1, 0x81, 0x40, 0x01, 0xc0,
    0x80, 0x41, 0x00, 0xc1, 0x81, 0x40, 0x00, 0xc1, 0x81, 0x40,
    0x01, 0xc0, 0x80, 0x41, 0x01, 0xc0, 0x80, 0x41, 0x00, 0xc1,
    0x81, 0x40, 0x00, 0xc1, 0x81, 0x40, 0x01, 0xc0, 0x80, 0x41,
    0x00, 0xc1, 0x81, 0x40, 0x01, 0xc0, 0x80, 0x41, 0x01, 0xc0,
    0x80, 0x41, 0x00, 0xc1, 0x81, 0x40]"

definition tableLow :: bytes where
  "tableLow = [
    0x00, 0xc0, 0xc1, 0x01, 0xc3, 0x03, 0x02, 0xc2, 0xc6, 0x06,
    0x07, 0xc7, 0x05, 0xc5, 0xc4, 0x04, 0xcc, 0x0c, 0x0d, 0xcd,
    0x0f, 0xcf, 0xce, 0x0e, 0x0a, 0xca, 0xcb, 0x0b, 0xc9, 0x09,
    0x08, 0xc8, 0xd8, 0x18, 0x19, 0xd9, 0x1b, 0xdb, 0xda, 0x1a,
    0x1e, 0xde, 0xdf, 0x1f, 0xdd, 0x1d, 0x1c, 0xdc, 0x14, 0xd4,
    0xd5, 0x15, 0xd7, 0x17, 0x16, 0xd6, 0xd2, 0x12, 0x13, 0xd3,
    0x11, 0xd1, 0xd0, 0x10, 0xf0, 0x30, 0x31, 0xf1, 0x33, 0xf3,
    0xf2, 0x32, 0x36, 0xf6, 0xf7, 0x37, 0xf5, 0x35, 0x34, 0xf4,
    0x3c, 0xfc, 0xfd, 0x3d, 0xff, 0x3f, 0x3e, 0xfe, 0xfa, 0x3a,
    0x3b, 0xfb, 0x39, 0xf9, 0xf8, 0x38, 0x28, 0xe8, 0xe9, 0x29,
    0xeb, 0x2b, 0x2a, 0xea, 0xee, 0x2e, 0x2f, 0xef, 0x2d, 0xed,
    0xec, 0x2c, 0xe4, 0x24, 0x25, 0xe5, 0x27, 0xe7, 0xe6, 0x26,
    0x22, 0xe2, 0xe3, 0x23, 0xe1, 0x21, 0x20, 0xe0, 0xa0, 0x60,
    0x61, 0xa1, 0x63, 0xa3, 0xa2, 0x62, 0x66, 0xa6, 0xa7, 0x67,
    0xa5, 0x65, 0x64, 0xa4, 0x6c, 0xac, 0xad, 0x6d, 0xaf, 0x6f,
    0x6e, 0xae, 0xaa, 0x6a, 0x6b, 0xab, 0x69, 0xa9, 0xa8, 0x68,
    0x78, 0xb8, 0xb9, 0x79, 0xbb, 0x7b, 0x7a, 0xba, 0xbe, 0x7e,
    0x7f, 0xbf, 0x7d, 0xbd, 0xbc, 0x7c, 0xb4, 0x74, 0x75, 0xb5,
    0x77, 0xb7, 0xb6, 0x76, 0x72, 0xb2, 0xb3, 0x73, 0xb1, 0x71,
    0x70, 0xb0, 0x50, 0x90, 0x91, 0x51, 0x93, 0x53, 0x52, 0x92,
    0x96, 0x56, 0x57, 0x97, 0x55, 0x95, 0x94, 0x54, 0x9c, 0x5c,
    0x5d, 0x9d, 0x5f, 0x9f, 0x9e, 0x5e, 0x5a, 0x9a, 0x9b, 0x5b,
    0x99, 0x59, 0x58, 0x98, 0x88, 0x48, 0x49, 0x89, 0x4b, 0x8b,
    0x8a, 0x4a, 0x4e, 0x8e, 0x8f, 0x4f, 0x8d, 0x4d, 0x4c, 0x8c,
    0x44, 0x84, 0x85, 0x45, 0x87, 0x47, 0x46, 0x86, 0x82, 0x42,
    0x43, 0x83, 0x41, 0x81, 0x80, 0x40]"

function crc16_loop :: "bytes \<Rightarrow> nat \<Rightarrow> int \<Rightarrow> u32 \<Rightarrow> u32 \<Rightarrow> (u32 \<times> u32) exec" where
  "crc16_loop pBuf i len crcH crcL =
     (if len = 0 then Some (crcH, crcL)
      else case rd8 pBuf i of None \<Rightarrow> None
        | Some b \<Rightarrow>
            let idx = unat (crcH XOR ucast b) in
            (case rd8 tableHigh idx of None \<Rightarrow> None
             | Some hi \<Rightarrow>
               (case rd8 tableLow idx of None \<Rightarrow> None
                | Some lo \<Rightarrow>
                    crc16_loop pBuf (Suc i) (len - 1) (crcL XOR ucast hi) (ucast lo))))"
  by pat_completeness auto
termination
  by (relation "measure (\<lambda>(pBuf, i, len, crcH, crcL). length pBuf - i)")
    (auto simp: rd8_eq_Some_iff)

definition crc16 :: "bytes \<Rightarrow> int \<Rightarrow> u16 exec" where
  "crc16 pBuf len = do {
     (crcH, crcL) \<leftarrow> crc16_loop pBuf 0 len 0xFF 0xFF;
     Some (ucast (push_bit 8 crcH OR crcL)) }"

fun cs_loop :: "bytes \<Rightarrow> nat \<Rightarrow> nat \<Rightarrow> u8 \<Rightarrow> u8 exec" where
  "cs_loop pData i 0 ret = Some ret"
| "cs_loop pData i (Suc n) ret = do {
     b \<leftarrow> rd8 pData i;
     cs_loop pData (Suc i) n (ret + b) }"

definition cs :: "bytes \<Rightarrow> u8 \<Rightarrow> u8 exec" where
  "cs pData sz = cs_loop pData 0 (unat sz) 0"

fun BCC8_loop :: "bytes \<Rightarrow> nat \<Rightarrow> nat \<Rightarrow> u8 \<Rightarrow> u8 exec" where
  "BCC8_loop data i 0 ret = Some ret"
| "BCC8_loop data i (Suc n) ret = do {
     b \<leftarrow> rd8 data i;
     BCC8_loop data (Suc i) n (ret XOR b) }"

definition BCC8 :: "bytes \<Rightarrow> u8 \<Rightarrow> u8 exec" where
  "BCC8 data sz = BCC8_loop data 0 (unat sz) 0"

subsection \<open>The reference: bitwise CRC-16 of the Modbus protocol\<close>

definition crc_shift :: "u16 \<Rightarrow> u16" where
  "crc_shift c = (if bit c 0 then drop_bit 1 c XOR 0xA001 else drop_bit 1 c)"

definition crc_byte :: "u16 \<Rightarrow> u8 \<Rightarrow> u16" where
  "crc_byte c b = (crc_shift ^^ 8) (c XOR ucast b)"

definition modbus_crc :: "bytes \<Rightarrow> u16" where
  "modbus_crc bs = fold (\<lambda>b c. crc_byte c b) bs 0xFFFF"

definition swap16 :: "u16 \<Rightarrow> u16" where
  "swap16 w = push_bit 8 w OR drop_bit 8 w"

subsection \<open>The tables hold the reference\<close>

declare crc16_loop.simps [simp del]

lemma length_tables [simp]: "length tableHigh = 256" "length tableLow = 256"
  by (simp_all add: tableHigh_def tableLow_def)

lemma funpow_8: "(f ^^ 8) x = f (f (f (f (f (f (f (f x)))))))"
  by (simp add: eval_nat_numeral)

lemma upt_256:
  "[0..<256::nat] = [
    0, 1, 2, 3, 4, 5, 6, 7, 8, 9, 10, 11, 12, 13, 14, 15, 16, 17, 18, 19,
    20, 21, 22, 23, 24, 25, 26, 27, 28, 29, 30, 31, 32, 33, 34, 35, 36, 37, 38, 39,
    40, 41, 42, 43, 44, 45, 46, 47, 48, 49, 50, 51, 52, 53, 54, 55, 56, 57, 58, 59,
    60, 61, 62, 63, 64, 65, 66, 67, 68, 69, 70, 71, 72, 73, 74, 75, 76, 77, 78, 79,
    80, 81, 82, 83, 84, 85, 86, 87, 88, 89, 90, 91, 92, 93, 94, 95, 96, 97, 98, 99,
    100, 101, 102, 103, 104, 105, 106, 107, 108, 109, 110, 111, 112, 113, 114, 115, 116, 117, 118, 119,
    120, 121, 122, 123, 124, 125, 126, 127, 128, 129, 130, 131, 132, 133, 134, 135, 136, 137, 138, 139,
    140, 141, 142, 143, 144, 145, 146, 147, 148, 149, 150, 151, 152, 153, 154, 155, 156, 157, 158, 159,
    160, 161, 162, 163, 164, 165, 166, 167, 168, 169, 170, 171, 172, 173, 174, 175, 176, 177, 178, 179,
    180, 181, 182, 183, 184, 185, 186, 187, 188, 189, 190, 191, 192, 193, 194, 195, 196, 197, 198, 199,
    200, 201, 202, 203, 204, 205, 206, 207, 208, 209, 210, 211, 212, 213, 214, 215, 216, 217, 218, 219,
    220, 221, 222, 223, 224, 225, 226, 227, 228, 229, 230, 231, 232, 233, 234, 235, 236, 237, 238, 239,
    240, 241, 242, 243, 244, 245, 246, 247, 248, 249, 250, 251, 252, 253, 254, 255]"
  by (simp add: upt_conv_Cons)

lemma tables_reference:
  "map (\<lambda>n. (crc_shift ^^ 8) (of_nat n)) [0..<256]
   = map2 (\<lambda>h l. push_bit 8 (ucast l) OR ucast h) tableHigh tableLow"
proof -
  have "map (\<lambda>n. (crc_shift ^^ 8) (of_nat n)) [0..<256]
    = map (crc_shift ^^ 8) (map of_nat [0..<256])"
    by simp
  also have "\<dots> = map2 (\<lambda>h l. push_bit 8 (ucast l) OR ucast h) tableHigh tableLow"
    unfolding upt_256
    by (simp add: tableHigh_def tableLow_def funpow_8 crc_shift_def)
  finally show ?thesis .
qed

lemma table_entry:
  "(crc_shift ^^ 8) (ucast (b :: u8))
   = push_bit 8 (ucast (tableLow ! unat b)) OR ucast (tableHigh ! unat b)"
proof -
  have lt: "unat b < 256"
    using unsigned_less [of b] by simp
  have "map (\<lambda>n. (crc_shift ^^ 8) (of_nat n)) [0..<256] ! unat b
    = map2 (\<lambda>h l. push_bit 8 (ucast l) OR ucast h) tableHigh tableLow ! unat b"
    by (simp only: tables_reference)
  with lt show ?thesis
    by (simp add: of_nat_unat)
qed

subsection \<open>Linearity of the reference step\<close>

lemma crc_shift_xor: "crc_shift (x XOR y) = crc_shift x XOR crc_shift y"
  by (rule bit_word_eqI) (auto simp: crc_shift_def bit_xor_iff bit_drop_bit_eq)

lemma crc_shift_pow_xor: "(crc_shift ^^ n) (x XOR y) = (crc_shift ^^ n) x XOR (crc_shift ^^ n) y"
  by (induction n) (simp_all add: crc_shift_xor)

lemma crc_shift_high:
  "n \<le> 8 \<Longrightarrow> (crc_shift ^^ n) (push_bit 8 (ucast (h :: u8))) = push_bit (8 - n) (ucast h)"
proof (induction n)
  case 0
  then show ?case by simp
next
  case (Suc n)
  then have "(crc_shift ^^ Suc n) (push_bit 8 (ucast h)) = crc_shift (push_bit (8 - n) (ucast h))"
    by simp
  also have "\<dots> = push_bit (8 - Suc n) (ucast h)"
    using Suc.prems
    by (intro bit_word_eqI)
      (auto simp: crc_shift_def bit_push_bit_iff bit_drop_bit_eq bit_unsigned_iff Suc_diff_le
        dest: bit_imp_le_length)
  finally show ?case .
qed

text \<open>The state of the table-driven loop, as one register of the reference.\<close>

definition crc_state :: "u8 \<Rightarrow> u8 \<Rightarrow> u16" where
  "crc_state h l = push_bit 8 (ucast l) OR ucast h"

lemma crc_state_xor:
  "crc_state h l XOR ucast (b :: u8) = push_bit 8 (ucast l) XOR ucast (h XOR b)"
  by (rule bit_word_eqI)
    (auto simp: crc_state_def bit_or_iff bit_xor_iff bit_push_bit_iff bit_unsigned_iff
      dest: bit_imp_le_length)

lemma crc_byte_state:
  "crc_byte (crc_state h l) b
   = crc_state (l XOR tableHigh ! unat (h XOR b)) (tableLow ! unat (h XOR b))"
proof -
  have "crc_byte (crc_state h l) b
    = (crc_shift ^^ 8) (push_bit 8 (ucast l)) XOR (crc_shift ^^ 8) (ucast (h XOR b))"
    by (simp add: crc_byte_def crc_state_xor crc_shift_pow_xor)
  also have "\<dots> = ucast l XOR (push_bit 8 (ucast (tableLow ! unat (h XOR b)))
      OR ucast (tableHigh ! unat (h XOR b)))"
    using crc_shift_high [of 8 l] by (simp add: table_entry)
  also have "\<dots> = crc_state (l XOR tableHigh ! unat (h XOR b)) (tableLow ! unat (h XOR b))"
    by (rule bit_word_eqI)
      (auto simp: crc_state_def bit_or_iff bit_xor_iff bit_push_bit_iff bit_unsigned_iff
        dest: bit_imp_le_length)
  finally show ?thesis .
qed

lemma ucast_xor_u8: "ucast (a :: u8) XOR ucast b = (ucast (a XOR b) :: u32)"
  by (rule bit_word_eqI) (auto simp: bit_xor_iff bit_unsigned_iff)

lemma unat_u8_less [simp]: "unat (b :: u8) < 256"
  using unsigned_less [of b] by simp

lemma unat_ucast_u8 [simp]: "unat (ucast (b :: u8) :: u32) = unat b"
proof -
  have "unat b < 2 ^ 32"
    by (rule less_trans [OF unat_u8_less]) simp
  then show ?thesis
    by (simp add: unsigned_ucast_eq take_bit_nat_eq_self)
qed

subsection \<open>The loop computes the reference\<close>

lemma crc16_loop_step:
  assumes "i < length pBuf" and "len \<noteq> 0"
  shows "crc16_loop pBuf i len (ucast (h :: u8)) (ucast (l :: u8))
    = crc16_loop pBuf (Suc i) (len - 1)
        (ucast (l XOR tableHigh ! unat (h XOR pBuf ! i))) (ucast (tableLow ! unat (h XOR pBuf ! i)))"
  using assms
  by (subst crc16_loop.simps) (simp add: rd8_Some ucast_xor_u8 Let_def)

lemma crc16_loop_correct:
  "i + n \<le> length pBuf \<Longrightarrow>
   \<exists>h' l'. crc16_loop pBuf i (int n) (ucast (h :: u8)) (ucast (l :: u8)) = Some (ucast h', ucast l')
     \<and> crc_state h' l' = fold (\<lambda>b c. crc_byte c b) (take n (drop i pBuf)) (crc_state h l)"
proof (induction n arbitrary: i h l)
  case 0
  then show ?case
    by (subst crc16_loop.simps) auto
next
  case (Suc n)
  let ?k = "unat (h XOR pBuf ! i)"
  from Suc.prems have i: "i < length pBuf" by simp
  then have loop: "crc16_loop pBuf i (int (Suc n)) (ucast h) (ucast l)
    = crc16_loop pBuf (Suc i) (int n) (ucast (l XOR tableHigh ! ?k)) (ucast (tableLow ! ?k))"
    by (subst crc16_loop_step) simp_all
  have rest: "take (Suc n) (drop i pBuf) = pBuf ! i # take n (drop (Suc i) pBuf)"
    using i by (simp flip: Cons_nth_drop_Suc)
  from Suc.prems have "Suc i + n \<le> length pBuf" by simp
  from Suc.IH [OF this] show ?case
    by (simp only: loop rest fold_simps(2) crc_byte_state)
qed

lemma crc16_loop_short:
  "len < 0 \<or> int (length pBuf) < int i + len \<Longrightarrow> i \<le> length pBuf \<Longrightarrow>
   crc16_loop pBuf i len (ucast (h :: u8)) (ucast (l :: u8)) = None"
proof (induction "length pBuf - i" arbitrary: i len h l)
  case 0
  then show ?case
    by (subst crc16_loop.simps) (auto simp: rd8_def)
next
  case (Suc n)
  then have "i < length pBuf" and "len \<noteq> 0" by auto
  moreover from Suc have "len - 1 < 0 \<or> int (length pBuf) < int (Suc i) + (len - 1)"
    and "n = length pBuf - Suc i" and "Suc i \<le> length pBuf" by auto
  ultimately show ?case
    using Suc.hyps(1) by (simp add: crc16_loop_step)
qed

lemma crc_state_result:
  "ucast (push_bit 8 (ucast (h :: u8)) OR ucast (l :: u8) :: u32) = swap16 (crc_state h l)"
  by (rule bit_word_eqI)
    (auto simp: crc_state_def swap16_def bit_or_iff bit_push_bit_iff bit_unsigned_iff
      bit_drop_bit_eq dest: bit_imp_le_length)

lemma crc_init: "crc_state 0xFF 0xFF = 0xFFFF"
  by (simp add: crc_state_def)

lemma crc16_Some: "n \<le> length pBuf \<Longrightarrow> crc16 pBuf (int n) = Some (swap16 (modbus_crc (take n pBuf)))"
proof -
  assume "n \<le> length pBuf"
  then obtain h l where
    "crc16_loop pBuf 0 (int n) (ucast (0xFF :: u8)) (ucast (0xFF :: u8)) = Some (ucast h, ucast l)"
    and "crc_state h l = modbus_crc (take n pBuf)"
    using crc16_loop_correct [of 0 n pBuf "0xFF" "0xFF"]
    by (auto simp: modbus_crc_def crc_init)
  then show ?thesis
    by (simp add: crc16_def crc_state_result)
qed

lemma crc16_None: "len < 0 \<or> int (length pBuf) < len \<Longrightarrow> crc16 pBuf len = None"
  using crc16_loop_short [of len pBuf 0 "0xFF" "0xFF"] by (simp add: crc16_def)

lemma cs_loop_Some:
  "i + n \<le> length pData \<Longrightarrow> cs_loop pData i n ret = Some (ret + sum_list (take n (drop i pData)))"
proof (induction n arbitrary: i ret)
  case 0
  then show ?case by simp
next
  case (Suc n)
  then have "take (Suc n) (drop i pData) = pData ! i # take n (drop (Suc i) pData)"
    by (simp flip: Cons_nth_drop_Suc)
  with Suc show ?case
    by (simp add: rd8_Some add.assoc)
qed

lemma BCC8_loop_Some:
  "i + n \<le> length pData \<Longrightarrow>
   BCC8_loop pData i n ret = Some (fold (\<lambda>b r. r XOR b) (take n (drop i pData)) ret)"
proof (induction n arbitrary: i ret)
  case 0
  then show ?case by simp
next
  case (Suc n)
  then have "take (Suc n) (drop i pData) = pData ! i # take n (drop (Suc i) pData)"
    by (simp flip: Cons_nth_drop_Suc)
  with Suc show ?case
    by (simp add: rd8_Some)
qed

lemma cs_Some: "unat n \<le> length pData \<Longrightarrow> cs pData n = Some (sum_list (take (unat n) pData))"
  by (simp add: cs_def cs_loop_Some)

lemma BCC8_Some:
  "unat n \<le> length pData \<Longrightarrow>
   BCC8 pData n = Some (fold (\<lambda>b r. r XOR b) (take (unat n) pData) 0)"
  by (simp add: BCC8_def BCC8_loop_Some)

lemma fold_xor_init: "fold (\<lambda>b r. r XOR b) bs (x XOR y) = x XOR fold (\<lambda>b r. r XOR b) bs y"
  for x y :: u8
  by (induction bs arbitrary: y) (simp_all add: xor.assoc)

lemma foldr_fold_rev_xor: "fold (\<lambda>b r. r XOR b) bs x = foldr (XOR) bs x" for x :: u8
proof (induction bs arbitrary: x)
  case (Cons b bs)
  then show ?case
    using fold_xor_init [of bs b x] by (simp add: xor.commute)
qed simp

subsection \<open>Error detection\<close>

text \<open>
  A step of the reference is injective in the register (bit 15 of the result is the bit
  that was shifted out), so two registers that differ stay different while the same bytes
  are fed to both.
\<close>

lemma xor_right_cancel: "(x :: 'a :: len word) XOR z = y XOR z \<longleftrightarrow> x = y"
  by (metis xor.assoc xor_self_eq xor.right_neutral)

lemma crc_shift_msb: "bit (crc_shift c) 15 = bit c 0"
  by (auto simp: crc_shift_def bit_xor_iff bit_drop_bit_eq dest: bit_imp_le_length)

lemma crc_shift_inj: "crc_shift c = crc_shift d \<Longrightarrow> c = d"
proof (rule bit_word_eqI)
  fix n
  assume eq: "crc_shift c = crc_shift d" and n: "n < LENGTH(16)"
  have b0: "bit c 0 = bit d 0"
    using eq by (metis crc_shift_msb)
  show "bit c n = bit d n"
  proof (cases n)
    case 0
    with b0 show ?thesis by simp
  next
    case (Suc m)
    from eq b0 have "drop_bit 1 c = drop_bit 1 d"
      by (auto simp: crc_shift_def xor_right_cancel split: if_splits)
    then have "bit (drop_bit 1 c) m = bit (drop_bit 1 d) m" by simp
    with Suc show ?thesis by (simp add: bit_drop_bit_eq)
  qed
qed

lemma crc_shift_pow_inj: "(crc_shift ^^ n) c = (crc_shift ^^ n) d \<Longrightarrow> c = d"
  by (induction n) (auto dest: crc_shift_inj)

lemma crc_byte_inj: "crc_byte c b = crc_byte d b \<longleftrightarrow> c = d"
  by (auto simp: crc_byte_def xor_right_cancel dest: crc_shift_pow_inj)

lemma ucast_u8_u16_inj: "(ucast (a :: u8) :: u16) = ucast b \<longleftrightarrow> a = b"
proof
  assume eq: "(ucast a :: u16) = ucast b"
  show "a = b"
  proof (rule bit_word_eqI)
    fix n
    assume "n < LENGTH(8)"
    then show "bit a n = bit b n"
      using arg_cong [OF eq, of "\<lambda>w. bit w n"] by (simp add: bit_unsigned_iff)
  qed
qed simp

lemma crc_byte_inj_byte: "crc_byte c a = crc_byte c b \<longleftrightarrow> a = b"
  by (auto simp: crc_byte_def xor.commute [of c] xor_right_cancel ucast_u8_u16_inj
      dest: crc_shift_pow_inj)

lemma crc_fold_inj:
  "fold (\<lambda>b c. crc_byte c b) bs c = fold (\<lambda>b c. crc_byte c b) bs d \<longleftrightarrow> c = d"
  by (induction bs arbitrary: c d) (simp_all add: crc_byte_inj)

lemma modbus_crc_single_byte:
  "modbus_crc (xs @ a # ys) = modbus_crc (xs @ b # ys) \<longleftrightarrow> a = b"
  by (simp add: modbus_crc_def crc_fold_inj crc_byte_inj_byte)

lemma swap16_inj: "swap16 v = swap16 w \<longleftrightarrow> v = w"
proof
  assume eq: "swap16 v = swap16 w"
  have "swap16 (swap16 x) = x" for x
    by (rule bit_word_eqI)
      (auto simp: swap16_def bit_or_iff bit_push_bit_iff bit_drop_bit_eq dest: bit_imp_le_length)
  with eq show "v = w" by metis
qed simp

subsection \<open>Properties\<close>

text \<open>
  Claim C35. \<open>crc16\<close> computes the Modbus CRC of the first \<open>n\<close> bytes of its buffer,
  with the two bytes exchanged; both table lookups always stay inside the 256-entry
  tables, and the only undefined run is one whose length exceeds the buffer.
\<close>

theorem crc16_is_modbus_crc:
  "crc16 pBuf (int n)
   = (if n \<le> length pBuf then Some (swap16 (modbus_crc (take n pBuf))) else None)"
  by (simp add: crc16_Some crc16_None)

text \<open>
  Every corruption of a single byte of a frame changes its \<open>crc16\<close>: two
  frames that agree except for one byte have the same checksum only if that byte agrees.
\<close>

lemma crc16_detects_byte_error:
  "crc16 (xs @ a # ys) (int (length xs + Suc (length ys)))
     = crc16 (xs @ b # ys) (int (length xs + Suc (length ys))) \<longleftrightarrow> a = b"
proof -
  have "crc16 (xs @ z # ys) (int (length xs + Suc (length ys)))
    = Some (swap16 (modbus_crc (xs @ z # ys)))" for z
    by (subst crc16_Some) simp_all
  then show ?thesis
    by (simp add: swap16_inj modbus_crc_single_byte)
qed

text \<open>
  \<open>cs\<close> is the sum modulo 256 and \<open>BCC8\<close> the exclusive or of the bytes they
  cover, without a read outside the buffer, whenever the buffer holds that many bytes.
\<close>

lemma cs_BCC8_correct:
  assumes "unat n \<le> length pData"
  shows "cs pData n = Some (sum_list (take (unat n) pData))
    \<and> BCC8 pData n = Some (foldr (XOR) (take (unat n) pData) 0)"
proof -
  have "fold (\<lambda>b r. r XOR b) bs x = foldr (XOR) bs x" for bs and x :: u8
    by (simp add: foldr_fold_rev_xor)
  with assms show ?thesis
    by (simp add: cs_Some BCC8_Some)
qed

lemma cs_BCC8_correct_example:
  "cs [1, 2, 250, 9] 3 = Some 253 \<and> BCC8 [1, 2, 250, 9] 3 = Some 249"
  using cs_BCC8_correct [of 3 "[1, 2, 250, 9]"] by simp

end
