(* ===== verification/Device_Points.thy ===== *)
theory Device_Points
  imports Main
begin

text \<open>
  The two enumerations of the data-point model: \<open>PointFeature_u\<close> of
  \<open>source/point.h\<close> and \<open>DeviceType_u\<close> of \<open>source/device.h\<close>, with the integer value
  the C compiler gives each enumerator and the name tables of \<open>source/enum2str.c\<close>.
  Equality and the order of the C code (which compares enumerators as integers) are
  provided through instances of \<open>equal\<close> and \<open>linorder\<close> on those values. The sources also
  store plain integers in fields of these types and do arithmetic on enumerators, so the
  records of the model hold the integer value, written \<open>feature_code\<close> of the enumerator.
\<close>

subsection \<open>Data points\<close>

datatype (plugins only: size) PointFeature =
  FEATURE_UNKNOWN | FEATURE_SCENE | FREATURE_FAULT | FEATURE_POS | FEATURE_MODE | PANEL_SWITCH
  | PANEL_SWITCH_STATUS | DIMMING_BRIGHTNESS | DIMMING_BRIGHTNESS_STATUS | ACD_SWITCH
  | ACD_SWITCH_STATUS | ACD_TEMP | ACD_TEMP_STATUS | ACD_MODE | ACD_MODE_STATUS | ACD_SPEED
  | ACD_SPEED_STATUS | ACD_WIND_DIR | ACD_WIND_DIR_STATUS | ACD_MODE_OUTDOOR
  | ACD_MODE_OUTDOOR_STATUS | ACD_ENV_TEMP | ACD_ERROR_CODE | HEAT_SWITCH | HEAT_SWITCH_STATUS
  | HEAT_TEMP | HEAT_TEMP_STATUS | HEAT_ENV_TEMP | HEAT_VALVE_STATUS | HEAT_ERROR_CODE
  | VENT_SWITCH | VENT_SWITCH_STATUS | VENT_SPEED | VENT_SPEED_STATUS | VENT_WIND_DIR
  | VENT_WIND_DIR_STATUS | VENT_MODE | VENT_MODE_STATUS | VENT_VALVE | VENT_VALVE_STATUS
  | VENT_HUMI | VENT_HUMI_STATUS | VENT_ENV_TEMP | VENT_ENV_HUMI | VENT_ERROR_CODE
  | CURTAIN_SWITCH | CURTAIN_SWITCH_STATUS | CURTAIN_OPEN_CLOSE | CURTAIN_OPEN | CURTAIN_CLOSE
  | CURTAIN_STOP_CONTINUOUS | CURTAIN_STOP | CURTAIN_CONTINUOUS | CURTAIN_PERCENT
  | CURTAIN_DIRECTION | AQI_TEMP | AQI_HUMI | AQI_PM25 | AQI_CO2 | HUMIDIFIER_SWITCH
  | HUMIDIFIER_HUMIDITY_SET | PURIFIER_SWITCH | PURIFIER_FLOW | PURIFIER_TDS
  | PURIFIER_PP_FILTER_TIME | PURIFIER_RESET

primrec feature_code :: "PointFeature \<Rightarrow> nat" where
  "feature_code FEATURE_UNKNOWN = 0"
| "feature_code FEATURE_SCENE = 1"
| "feature_code FREATURE_FAULT = 2"
| "feature_code FEATURE_POS = 3"
| "feature_code FEATURE_MODE = 4"
| "feature_code PANEL_SWITCH = 100"
| "feature_code PANEL_SWITCH_STATUS = 101"
| "feature_code DIMMING_BRIGHTNESS = 102"
| "feature_code DIMMING_BRIGHTNESS_STATUS = 103"
| "feature_code ACD_SWITCH = 200"
| "feature_code ACD_SWITCH_STATUS = 201"
| "feature_code ACD_TEMP = 202"
| "feature_code ACD_TEMP_STATUS = 203"
| "feature_code ACD_MODE = 204"
| "feature_code ACD_MODE_STATUS = 205"
| "feature_code ACD_SPEED = 206"
| "feature_code ACD_SPEED_STATUS = 207"
| "feature_code ACD_WIND_DIR = 208"
| "feature_code ACD_WIND_DIR_STATUS = 209"
| "feature_code ACD_MODE_OUTDOOR = 210"
| "feature_code ACD_MODE_OUTDOOR_STATUS = 211"
| "feature_code ACD_ENV_TEMP = 212"
| "feature_code ACD_ERROR_CODE = 213"
| "feature_code HEAT_SWITCH = 300"
| "feature_code HEAT_SWITCH_STATUS = 301"
| "feature_code HEAT_TEMP = 302"
| "feature_code HEAT_TEMP_STATUS = 303"
| "feature_code HEAT_ENV_TEMP = 304"
| "feature_code HEAT_VALVE_STATUS = 305"
| "feature_code HEAT_ERROR_CODE = 306"
| "feature_code VENT_SWITCH = 400"
| "feature_code VENT_SWITCH_STATUS = 401"
| "feature_code VENT_SPEED = 402"
| "feature_code VENT_SPEED_STATUS = 403"
| "feature_code VENT_WIND_DIR = 404"
| "feature_code VENT_WIND_DIR_STATUS = 405"
| "feature_code VENT_MODE = 406"
| "feature_code VENT_MODE_STATUS = 407"
| "feature_code VENT_VALVE = 408"
| "feature_code VENT_VALVE_STATUS = 409"
| "feature_code VENT_HUMI = 410"
| "feature_code VENT_HUMI_STATUS = 411"
| "feature_code VENT_ENV_TEMP = 412"
| "feature_code VENT_ENV_HUMI = 413"
| "feature_code VENT_ERROR_CODE = 414"
| "feature_code CURTAIN_SWITCH = 500"
| "feature_code CURTAIN_SWITCH_STATUS = 501"
| "feature_code CURTAIN_OPEN_CLOSE = 502"
| "feature_code CURTAIN_OPEN = 503"
| "feature_code CURTAIN_CLOSE = 504"
| "feature_code CURTAIN_STOP_CONTINUOUS = 505"
| "feature_code CURTAIN_STOP = 506"
| "feature_code CURTAIN_CONTINUOUS = 507"
| "feature_code CURTAIN_PERCENT = 508"
| "feature_code CURTAIN_DIRECTION = 509"
| "feature_code AQI_TEMP = 600"
| "feature_code AQI_HUMI = 601"
| "feature_code AQI_PM25 = 602"
| "feature_code AQI_CO2 = 603"
| "feature_code HUMIDIFIER_SWITCH = 700"
| "feature_code HUMIDIFIER_HUMIDITY_SET = 701"
| "feature_code PURIFIER_SWITCH = 800"
| "feature_code PURIFIER_FLOW = 801"
| "feature_code PURIFIER_TDS = 802"
| "feature_code PURIFIER_PP_FILTER_TIME = 803"
| "feature_code PURIFIER_RESET = 804"

definition feature_of_code :: "nat \<Rightarrow> PointFeature" where
  "feature_of_code n =
    (if n = 0 then FEATURE_UNKNOWN
     else if n = 1 then FEATURE_SCENE
     else if n = 2 then FREATURE_FAULT
     else if n = 3 then FEATURE_POS
     else if n = 4 then FEATURE_MODE
     else if n = 100 then PANEL_SWITCH
     else if n = 101 then PANEL_SWITCH_STATUS
     else if n = 102 then DIMMING_BRIGHTNESS
     else if n = 103 then DIMMING_BRIGHTNESS_STATUS
     else if n = 200 then ACD_SWITCH
     else if n = 201 then ACD_SWITCH_STATUS
     else if n = 202 then ACD_TEMP
     else if n = 203 then ACD_TEMP_STATUS
     else if n = 204 then ACD_MODE
     else if n = 205 then ACD_MODE_STATUS
     else if n = 206 then ACD_SPEED
     else if n = 207 then ACD_SPEED_STATUS
     else if n = 208 then ACD_WIND_DIR
     else if n = 209 then ACD_WIND_DIR_STATUS
     else if n = 210 then ACD_MODE_OUTDOOR
     else if n = 211 then ACD_MODE_OUTDOOR_STATUS
     else if n = 212 then ACD_ENV_TEMP
     else if n = 213 then ACD_ERROR_CODE
     else if n = 300 then HEAT_SWITCH
     else if n = 301 then HEAT_SWITCH_STATUS
     else if n = 302 then HEAT_TEMP
     else if n = 303 then HEAT_TEMP_STATUS
     else if n = 304 then HEAT_ENV_TEMP
     else if n = 305 then HEAT_VALVE_STATUS
     else if n = 306 then HEAT_ERROR_CODE
     else if n = 400 then VENT_SWITCH
     else if n = 401 then VENT_SWITCH_STATUS
     else if n = 402 then VENT_SPEED
     else if n = 403 then VENT_SPEED_STATUS
     else if n = 404 then VENT_WIND_DIR
     else if n = 405 then VENT_WIND_DIR_STATUS
     else if n = 406 then VENT_MODE
     else if n = 407 then VENT_MODE_STATUS
     else if n = 408 then VENT_VALVE
     else if n = 409 then VENT_VALVE_STATUS
     else if n = 410 then VENT_HUMI
     else if n = 411 then VENT_HUMI_STATUS
     else if n = 412 then VENT_ENV_TEMP
     else if n = 413 then VENT_ENV_HUMI
     else if n = 414 then VENT_ERROR_CODE
     else if n = 500 then CURTAIN_SWITCH
     else if n = 501 then CURTAIN_SWITCH_STATUS
     else if n = 502 then CURTAIN_OPEN_CLOSE
     else if n = 503 then CURTAIN_OPEN
     else if n = 504 then CURTAIN_CLOSE
     else if n = 505 then CURTAIN_STOP_CONTINUOUS
     else if n = 506 then CURTAIN_STOP
     else if n = 507 then CURTAIN_CONTINUOUS
     else if n = 508 then CURTAIN_PERCENT
     else if n = 509 then CURTAIN_DIRECTION
     else if n = 600 then AQI_TEMP
     else if n = 601 then AQI_HUMI
     else if n = 602 then AQI_PM25
     else if n = 603 then AQI_CO2
     else if n = 700 then HUMIDIFIER_SWITCH
     else if n = 701 then HUMIDIFIER_HUMIDITY_SET
     else if n = 800 then PURIFIER_SWITCH
     else if n = 801 then PURIFIER_FLOW
     else if n = 802 then PURIFIER_TDS
     else if n = 803 then PURIFIER_PP_FILTER_TIME
     else if n = 804 then PURIFIER_RESET
     else FEATURE_UNKNOWN)"

lemma feature_of_code_inverse [simp]: "feature_of_code (feature_code f) = f"
  by (cases f) (simp_all add: feature_of_code_def)

lemma feature_code_inject: "feature_code f = feature_code g \<longleftrightarrow> f = g"
  by (metis feature_of_code_inverse)

instantiation PointFeature :: equal
begin

definition equal_PointFeature :: "PointFeature \<Rightarrow> PointFeature \<Rightarrow> bool" where
  "equal_PointFeature f g \<longleftrightarrow> feature_code f = feature_code g"

instance
  by standard (simp add: equal_PointFeature_def feature_code_inject)

end

subsection \<open>Device types\<close>

datatype (plugins only: size) DeviceType =
  Z3_PANEL_ONE_KEY | Z3_PANEL_TWO_KEY | Z3_PANEL_THREE_KEY | Z3_PANEL_FOUR_KEY
  | Z3_PANEL_FIVE_KEY | Z3_PANEL_SIX_KEY | Z3_PANEL_SEVEN_KEY | Z3_PANEL_EIGHT_KEY
  | KNX_PANEL_ONE_KEY | KNX_PANEL_TWO_KEY | KNX_PANEL_THREE_KEY | KNX_PANEL_FOUR_KEY
  | KNX_PANEL_FIVE_KEY | KNX_PANEL_SIX_KEY | KNX_PANEL_SEVEN_KEY | KNX_PANEL_EIGHT_KEY
  | MODBUS_PANEL_ONE_KEY | MODBUS_PANEL_TWO_KEY | MODBUS_PANEL_THREE_KEY | MODBUS_PANEL_FOUR_KEY
  | MODBUS_PANEL_FIVE_KEY | MODBUS_PANEL_SIX_KEY | MODBUS_PANEL_SEVEN_KEY
  | MODBUS_PANEL_EIGHT_KEY | Z3_DEVICE_AIRCONDITION | Z3_DEVICE_VENTILATION
  | Z3_DEVICE_FLOORHEATING | KNX_DEVICE_AIRCONDITION | KNX_DEVICE_VENTILATION
  | KNX_DEVICE_FLOORHEATING | KNX_DEVICE_CURTAIN | MODBUS_DEVICE_AIRCONDITION
  | MODBUS_DEVICE_VENTILATION | MODBUS_DEVICE_FLOORHEATING | MODBUS_DEVICE_CURTAIN
  | MODBUS_DEVICE_AQI | MODBUS_DEVICE_PANNEL | MODBUS_DEVICE_HUMIDIFIER | MODBUS_DEVICE_PURIFIER
  | KNX_DIMMER_ONE_KEY | KNX_DIMMER_TWO_KEY | KNX_DIMMER_THREE_KEY | KNX_DIMMER_FOUR_KEY
  | KNX_MISC_PANEL_ONE_KEY | KNX_MISC_PANEL_TWO_KEY | KNX_MISC_PANEL_THREE_KEY
  | KNX_MISC_PANEL_FOUR_KEY

primrec device_code :: "DeviceType \<Rightarrow> nat" where
  "device_code Z3_PANEL_ONE_KEY = 0"
| "device_code Z3_PANEL_TWO_KEY = 1"
| "device_code Z3_PANEL_THREE_KEY = 2"
| "device_code Z3_PANEL_FOUR_KEY = 3"
| "device_code Z3_PANEL_FIVE_KEY = 4"
| "device_code Z3_PANEL_SIX_KEY = 5"
| "device_code Z3_PANEL_SEVEN_KEY = 6"
| "device_code Z3_PANEL_EIGHT_KEY = 7"
| "device_code KNX_PANEL_ONE_KEY = 8"
| "device_code KNX_PANEL_TWO_KEY = 9"
| "device_code KNX_PANEL_THREE_KEY = 10"
| "device_code KNX_PANEL_FOUR_KEY = 11"
| "device_code KNX_PANEL_FIVE_KEY = 12"
| "device_code KNX_PANEL_SIX_KEY = 13"
| "device_code KNX_PANEL_SEVEN_KEY = 14"
| "device_code KNX_PANEL_EIGHT_KEY = 15"
| "device_code MODBUS_PANEL_ONE_KEY = 16"
| "device_code MODBUS_PANEL_TWO_KEY = 17"
| "device_code MODBUS_PANEL_THREE_KEY = 18"
| "device_code MODBUS_PANEL_FOUR_KEY = 19"
| "device_code MODBUS_PANEL_FIVE_KEY = 20"
| "device_code MODBUS_PANEL_SIX_KEY = 21"
| "device_code MODBUS_PANEL_SEVEN_KEY = 22"
| "device_code MODBUS_PANEL_EIGHT_KEY = 23"
| "device_code Z3_DEVICE_AIRCONDITION = 24"
| "device_code Z3_DEVICE_VENTILATION = 25"
| "device_code Z3_DEVICE_FLOORHEATING = 26"
| "device_code KNX_DEVICE_AIRCONDITION = 27"
| "device_code KNX_DEVICE_VENTILATION = 28"
| "device_code KNX_DEVICE_FLOORHEATING = 29"
| "device_code KNX_DEVICE_CURTAIN = 30"
| "device_code MODBUS_DEVICE_AIRCONDITION = 31"
| "device_code MODBUS_DEVICE_VENTILATION = 32"
| "device_code MODBUS_DEVICE_FLOORHEATING = 33"
| "device_code MODBUS_DEVICE_CURTAIN = 34"
| "device_code MODBUS_DEVICE_AQI = 35"
| "device_code MODBUS_DEVICE_PANNEL = 36"
| "device_code MODBUS_DEVICE_HUMIDIFIER = 37"
| "device_code MODBUS_DEVICE_PURIFIER = 38"
| "device_code KNX_DIMMER_ONE_KEY = 39"
| "device_code KNX_DIMMER_TWO_KEY = 40"
| "device_code KNX_DIMMER_THREE_KEY = 41"
| "device_code KNX_DIMMER_FOUR_KEY = 42"
| "device_code KNX_MISC_PANEL_ONE_KEY = 43"
| "device_code KNX_MISC_PANEL_TWO_KEY = 44"
| "device_code KNX_MISC_PANEL_THREE_KEY = 45"
| "device_code KNX_MISC_PANEL_FOUR_KEY = 46"

definition device_of_code :: "nat \<Rightarrow> DeviceType" where
  "device_of_code n =
    (if n = 0 then Z3_PANEL_ONE_KEY
     else if n = 1 then Z3_PANEL_TWO_KEY
     else if n = 2 then Z3_PANEL_THREE_KEY
     else if n = 3 then Z3_PANEL_FOUR_KEY
     else if n = 4 then Z3_PANEL_FIVE_KEY
     else if n = 5 then Z3_PANEL_SIX_KEY
     else if n = 6 then Z3_PANEL_SEVEN_KEY
     else if n = 7 then Z3_PANEL_EIGHT_KEY
     else if n = 8 then KNX_PANEL_ONE_KEY
     else if n = 9 then KNX_PANEL_TWO_KEY
     else if n = 10 then KNX_PANEL_THREE_KEY
     else if n = 11 then KNX_PANEL_FOUR_KEY
     else if n = 12 then KNX_PANEL_FIVE_KEY
     else if n = 13 then KNX_PANEL_SIX_KEY
     else if n = 14 then KNX_PANEL_SEVEN_KEY
     else if n = 15 then KNX_PANEL_EIGHT_KEY
     else if n = 16 then MODBUS_PANEL_ONE_KEY
     else if n = 17 then MODBUS_PANEL_TWO_KEY
     else if n = 18 then MODBUS_PANEL_THREE_KEY
     else if n = 19 then MODBUS_PANEL_FOUR_KEY
     else if n = 20 then MODBUS_PANEL_FIVE_KEY
     else if n = 21 then MODBUS_PANEL_SIX_KEY
     else if n = 22 then MODBUS_PANEL_SEVEN_KEY
     else if n = 23 then MODBUS_PANEL_EIGHT_KEY
     else if n = 24 then Z3_DEVICE_AIRCONDITION
     else if n = 25 then Z3_DEVICE_VENTILATION
     else if n = 26 then Z3_DEVICE_FLOORHEATING
     else if n = 27 then KNX_DEVICE_AIRCONDITION
     else if n = 28 then KNX_DEVICE_VENTILATION
     else if n = 29 then KNX_DEVICE_FLOORHEATING
     else if n = 30 then KNX_DEVICE_CURTAIN
     else if n = 31 then MODBUS_DEVICE_AIRCONDITION
     else if n = 32 then MODBUS_DEVICE_VENTILATION
     else if n = 33 then MODBUS_DEVICE_FLOORHEATING
     else if n = 34 then MODBUS_DEVICE_CURTAIN
     else if n = 35 then MODBUS_DEVICE_AQI
     else if n = 36 then MODBUS_DEVICE_PANNEL
     else if n = 37 then MODBUS_DEVICE_HUMIDIFIER
     else if n = 38 then MODBUS_DEVICE_PURIFIER
     else if n = 39 then KNX_DIMMER_ONE_KEY
     else if n = 40 then KNX_DIMMER_TWO_KEY
     else if n = 41 then KNX_DIMMER_THREE_KEY
     else if n = 42 then KNX_DIMMER_FOUR_KEY
     else if n = 43 then KNX_MISC_PANEL_ONE_KEY
     else if n = 44 then KNX_MISC_PANEL_TWO_KEY
     else if n = 45 then KNX_MISC_PANEL_THREE_KEY
     else if n = 46 then KNX_MISC_PANEL_FOUR_KEY
     else Z3_PANEL_ONE_KEY)"

lemma device_of_code_inverse [simp]: "device_of_code (device_code d) = d"
  by (cases d) (simp_all add: device_of_code_def)

lemma device_code_inject: "device_code d = device_code e \<longleftrightarrow> d = e"
  by (metis device_of_code_inverse)

instantiation DeviceType :: "{equal, linorder}"
begin

definition equal_DeviceType :: "DeviceType \<Rightarrow> DeviceType \<Rightarrow> bool" where
  "equal_DeviceType d e \<longleftrightarrow> device_code d = device_code e"

definition less_eq_DeviceType :: "DeviceType \<Rightarrow> DeviceType \<Rightarrow> bool" where
  "less_eq_DeviceType d e \<longleftrightarrow> device_code d \<le> device_code e"

definition less_DeviceType :: "DeviceType \<Rightarrow> DeviceType \<Rightarrow> bool" where
  "less_DeviceType d e \<longleftrightarrow> device_code d < device_code e"

instance
  by standard
    (auto simp: equal_DeviceType_def less_eq_DeviceType_def less_DeviceType_def
      device_code_inject)

end

subsection \<open>The name tables of \<open>enum2str.c\<close>\<close>

primrec GetDeviceType :: "DeviceType \<Rightarrow> string" where
  "GetDeviceType Z3_PANEL_ONE_KEY = ''Z3_PANEL_ONE_KEY''"
| "GetDeviceType Z3_PANEL_TWO_KEY = ''Z3_PANEL_TWO_KEY''"
| "GetDeviceType Z3_PANEL_THREE_KEY = ''Z3_PANEL_THREE_KEY''"
| "GetDeviceType Z3_PANEL_FOUR_KEY = ''Z3_PANEL_FOUR_KEY''"
| "GetDeviceType Z3_PANEL_FIVE_KEY = ''Z3_PANEL_FIVE_KEY''"
| "GetDeviceType Z3_PANEL_SIX_KEY = ''Z3_PANEL_SIX_KEY''"
| "GetDeviceType Z3_PANEL_SEVEN_KEY = ''Z3_PANEL_SEVEN_KEY''"
| "GetDeviceType Z3_PANEL_EIGHT_KEY = ''Z3_PANEL_EIGHT_KEY''"
| "GetDeviceType KNX_PANEL_ONE_KEY = ''KNX_PANEL_ONE_KEY''"
| "GetDeviceType KNX_PANEL_TWO_KEY = ''KNX_PANEL_TWO_KEY''"
| "GetDeviceType KNX_PANEL_THREE_KEY = ''KNX_PANEL_THREE_KEY''"
| "GetDeviceType KNX_PANEL_FOUR_KEY = ''KNX_PANEL_FOUR_KEY''"
| "GetDeviceType KNX_PANEL_FIVE_KEY = ''KNX_PANEL_FIVE_KEY''"
| "GetDeviceType KNX_PANEL_SIX_KEY = ''KNX_PANEL_SIX_KEY''"
| "GetDeviceType KNX_PANEL_SEVEN_KEY = ''KNX_PANEL_SEVEN_KEY''"
| "GetDeviceType KNX_PANEL_EIGHT_KEY = ''KNX_PANEL_EIGHT_KEY''"
| "GetDeviceType MODBUS_PANEL_ONE_KEY = ''MODBUS_PANEL_ONE_KEY''"
| "GetDeviceType MODBUS_PANEL_TWO_KEY = ''MODBUS_PANEL_TWO_KEY''"
| "GetDeviceType MODBUS_PANEL_THREE_KEY = ''MODBUS_PANEL_THREE_KEY''"
| "GetDeviceType MODBUS_PANEL_FOUR_KEY = ''MODBUS_PANEL_FOUR_KEY''"
| "GetDeviceType MODBUS_PANEL_FIVE_KEY = ''MODBUS_PANEL_FIVE_KEY''"
| "GetDeviceType MODBUS_PANEL_SIX_KEY = ''MODBUS_PANEL_SIX_KEY''"
| "GetDeviceType MODBUS_PANEL_SEVEN_KEY = ''MODBUS_PANEL_SEVEN_KEY''"
| "GetDeviceType MODBUS_PANEL_EIGHT_KEY = ''MODBUS_PANEL_EIGHT_KEY''"
| "GetDeviceType Z3_DEVICE_AIRCONDITION = ''Z3_DEVICE_AIRCONDITION''"
| "GetDeviceType Z3_DEVICE_VENTILATION = ''Z3_DEVICE_VENTILATION''"
| "GetDeviceType Z3_DEVICE_FLOORHEATING = ''Z3_DEVICE_FLOORHEATING''"
| "GetDeviceType KNX_DEVICE_AIRCONDITION = ''KNX_DEVICE_AIRCONDITION''"
| "GetDeviceType KNX_DEVICE_VENTILATION = ''KNX_DEVICE_VENTILATION''"
| "GetDeviceType KNX_DEVICE_FLOORHEATING = ''KNX_DEVICE_FLOORHEATING''"
| "GetDeviceType KNX_DEVICE_CURTAIN = ''KNX_DEVICE_CURTAIN''"
| "GetDeviceType MODBUS_DEVICE_AIRCONDITION = ''MODBUS_DEVICE_AIRCONDITION''"
| "GetDeviceType MODBUS_DEVICE_VENTILATION = ''MODBUS_DEVICE_VENTILATION''"
| "GetDeviceType MODBUS_DEVICE_FLOORHEATING = ''MODBUS_DEVICE_FLOORHEATING''"
| "GetDeviceType MODBUS_DEVICE_CURTAIN = ''MODBUS_DEVICE_CURTAIN''"
| "GetDeviceType MODBUS_DEVICE_AQI = ''MODBUS_DEVICE_AQI''"
| "GetDeviceType MODBUS_DEVICE_PANNEL = ''MODBUS_DEVICE_PANNEL''"
| "GetDeviceType MODBUS_DEVICE_HUMIDIFIER = ''MODBUS_DEVICE_HUMIDIFIER''"
| "GetDeviceType MODBUS_DEVICE_PURIFIER = ''MODBUS_DEVICE_PURIFIER''"
| "GetDeviceType KNX_DIMMER_ONE_KEY = ''KNX_DIMMER_ONE_KEY''"
| "GetDeviceType KNX_DIMMER_TWO_KEY = ''KNX_DIMMER_TWO_KEY''"
| "GetDeviceType KNX_DIMMER_THREE_KEY = ''KNX_DIMMER_THREE_KEY''"
| "GetDeviceType KNX_DIMMER_FOUR_KEY = ''KNX_DIMMER_FOUR_KEY''"
| "GetDeviceType KNX_MISC_PANEL_ONE_KEY = ''KNX_MISC_PANEL_ONE_KEY''"
| "GetDeviceType KNX_MISC_PANEL_TWO_KEY = ''KNX_MISC_PANEL_TWO_KEY''"
| "GetDeviceType KNX_MISC_PANEL_THREE_KEY = ''KNX_MISC_PANEL_THREE_KEY''"
| "GetDeviceType KNX_MISC_PANEL_FOUR_KEY = ''KNX_MISC_PANEL_FOUR_KEY''"

definition GetPointFeature :: "nat \<Rightarrow> string" where
  "GetPointFeature feature =
    (if feature = feature_code FEATURE_UNKNOWN then ''FEATURE_UNKNOWN''
     else if feature = feature_code FEATURE_SCENE then ''FEATURE_SCENE''
     else if feature = feature_code FREATURE_FAULT then ''FREATURE_FAULT''
     else if feature = feature_code FEATURE_POS then ''FEATURE_POS''
     else if feature = feature_code FEATURE_MODE then ''FEATURE_MODE''
     else if feature = feature_code PANEL_SWITCH then ''PANEL_SWITCH''
     else if feature = feature_code PANEL_SWITCH_STATUS then ''PANEL_SWITCH_STATUS''
     else if feature = feature_code ACD_SWITCH then ''ACD_SWITCH''
     else if feature = feature_code ACD_SWITCH_STATUS then ''ACD_SWITCH_STATUS''
     else if feature = feature_code ACD_TEMP then ''ACD_TEMP''
     else if feature = feature_code ACD_TEMP_STATUS then ''ACD_TEMP_STATUS''
     else if feature = feature_code ACD_MODE then ''ACD_MODE''
     else if feature = feature_code ACD_MODE_STATUS then ''ACD_MODE_STATUS''
     else if feature = feature_code ACD_SPEED then ''ACD_SPEED''
     else if feature = feature_code ACD_SPEED_STATUS then ''ACD_SPEED_STATUS''
     else if feature = feature_code ACD_WIND_DIR then ''ACD_WIND_DIR''
     else if feature = feature_code ACD_WIND_DIR_STATUS then ''ACD_WIND_DIR_STATUS''
     else if feature = feature_code ACD_MODE_OUTDOOR then ''ACD_MODE_OUTDOOR''
     else if feature = feature_code ACD_MODE_OUTDOOR_STATUS then ''ACD_MODE_OUTDOOR_STATUS''
     else if feature = feature_code ACD_ENV_TEMP then ''ACD_ENV_TEMP''
     else if feature = feature_code ACD_ERROR_CODE then ''ACD_ERROR_CODE''
     else if feature = feature_code HEAT_SWITCH then ''HEAT_SWITCH''
     else if feature = feature_code HEAT_SWITCH_STATUS then ''HEAT_SWITCH_STATUS''
     else if feature = feature_code HEAT_TEMP then ''HEAT_TEMP''
     else if feature = feature_code HEAT_TEMP_STATUS then ''HEAT_TEMP_STATUS''
     else if feature = feature_code HEAT_ENV_TEMP then ''HEAT_ENV_TEMP''
     else if feature = feature_code HEAT_VALVE_STATUS then ''HEAT_VALVE_STATUS''
     else if feature = feature_code HEAT_ERROR_CODE then ''HEAT_ERROR_CODE''
     else if feature = feature_code VENT_SWITCH then ''VENT_SWITCH''
     else if feature = feature_code VENT_SWITCH_STATUS then ''VENT_SWITCH_STATUS''
     else if feature = feature_code VENT_SPEED then ''VENT_SPEED''
     else if feature = feature_code VENT_SPEED_STATUS then ''VENT_SPEED_STATUS''
     else if feature = feature_code VENT_WIND_DIR then ''VENT_WIND_DIR''
     else if feature = feature_code VENT_WIND_DIR_STATUS then ''VENT_WIND_DIR_STATUS''
     else if feature = feature_code VENT_ENV_TEMP then ''VENT_ENV_TEMP''
     else if feature = feature_code VENT_ERROR_CODE then ''VENT_ERROR_CODE''
     else if feature = feature_code CURTAIN_SWITCH then ''CURTAIN_SWITCH''
     else if feature = feature_code CURTAIN_SWITCH_STATUS then ''CURTAIN_SWITCH_STATUS''
     else if feature = feature_code CURTAIN_OPEN_CLOSE then ''CURTAIN_OPEN_CLOSE''
     else if feature = feature_code CURTAIN_OPEN then ''CURTAIN_OPEN''
     else if feature = feature_code CURTAIN_CLOSE then ''CURTAIN_CLOSE''
     else if feature = feature_code CURTAIN_STOP_CONTINUOUS then ''CURTAIN_STOP_CONTINUOUS''
     else if feature = feature_code CURTAIN_STOP then ''CURTAIN_STOP''
     else if feature = feature_code CURTAIN_CONTINUOUS then ''CURTAIN_CONTINUOUS''
     else if feature = feature_code CURTAIN_PERCENT then ''CURTAIN_PERCENT''
     else if feature = feature_code AQI_TEMP then ''AQI_TEMP''
     else if feature = feature_code AQI_HUMI then ''AQI_HUMI''
     else if feature = feature_code AQI_PM25 then ''AQI_PM25''
     else if feature = feature_code AQI_CO2 then ''AQI_CO2''
     else if feature = feature_code DIMMING_BRIGHTNESS then ''DIMMING_BRIGHTNESS''
     else if feature = feature_code DIMMING_BRIGHTNESS_STATUS then ''DIMMING_BRIGHTNESS_STATUS''
     else ''Unsupported Point Feature!'')"

end
