(* ===== verification/Plugin_Api.thy ===== *)
theory Plugin_Api
  imports Checksum Device_Points
begin

text \<open>
  The interface between the gateway and its device plugins: the cloud data point
  \<open>ty_obj_dp_s\<close>, the request message \<open>Msg_t\<close> and the parsed device data \<open>MbusObj_t\<close> of
  \<open>source/common.h\<close> and \<open>source/misc_dev_plugins.h\<close>, and the two helper functions of
  \<open>plugin/utils.c\<close>. Every Modbus plugin implements \<open>build\<close> (data point to request
  frame) and \<open>parse\<close> (response frame to device data) on these types.

  Conventions of the plugin models:
  \<^item> \<open>al k\<close> says whether the \<open>k\<close>-th allocation of the call succeeds, so that every
    out-of-memory return is a branch of the model;
  \<^item> the member \<open>value\<close> of a data point is a C union of 32 bits: \<open>dp_value\<close>, \<open>dp_enum\<close>
    and \<open>dp_bool\<close> read the same word as a signed integer, an unsigned integer and the
    byte a C \<open>bool\<close> occupies;
  \<^item> \<open>parse\<close> returns the objects of the NULL-terminated array it allocates;
  \<^item> the fields of \<open>Msg_t\<close> and \<open>MbusObj_t\<close> that no plugin reads or writes are left out,
    and logging has no counterpart.
\<close>

subsection \<open>Data\<close>

record ty_obj_dp =
  dpid :: u8
  dp_type :: u8
  dp_raw :: u32

definition dp_value :: "ty_obj_dp \<Rightarrow> int" where
  "dp_value obj = sint (dp_raw obj)"

definition dp_enum :: "ty_obj_dp \<Rightarrow> u32" where
  "dp_enum obj = dp_raw obj"

definition dp_bool :: "ty_obj_dp \<Rightarrow> u8" where
  "dp_bool obj = ucast (dp_raw obj)"

record Msg =
  msg_pBuf :: bytes
  msg_len :: nat

record MbusObj =
  mo_localPoint :: nat
  mo_rcvValue :: u32
  mo_sndValue :: u32
  mo_value :: u32

definition zero_obj :: MbusObj where
  "zero_obj = \<lparr>mo_localPoint = 0, mo_rcvValue = 0, mo_sndValue = 0, mo_value = 0\<rparr>"

abbreviation mk_obj :: "nat \<Rightarrow> u32 \<Rightarrow> MbusObj" where
  "mk_obj p v \<equiv> zero_obj\<lparr>mo_localPoint := p, mo_value := v\<rparr>"

abbreviation obj :: "PointFeature \<Rightarrow> u32 \<Rightarrow> MbusObj" where
  "obj f v \<equiv> mk_obj (feature_code f) v"

type_synonym parsed = "MbusObj list cptr exec"
type_synonym built = "Msg cptr exec"
type_synonym request = "u8 \<times> u16 \<times> u16 \<times> ty_obj_dp cptr"
type_synonym request16 = "u16 \<times> u16 \<times> u16 \<times> ty_obj_dp cptr"

subsection \<open>The helpers of \<open>plugin/utils.c\<close>\<close>

definition NewMbusObjs :: "(nat \<Rightarrow> bool) \<Rightarrow> nat \<Rightarrow> MbusObj list cptr" where
  "NewMbusObjs al n =
     (if \<not> al 0 then NULL
      else if list_all (\<lambda>i. al (Suc i)) [0..<n] then Ptr (replicate n zero_obj)
      else NULL)"

text \<open>
  Allocate \<open>n\<close> objects, then fill them; the objects come zeroed, so that \<open>obj f v\<close> is
  one whose \<open>localPoint\<close> and \<open>value\<close> have been assigned.
\<close>

definition with_objs :: "(nat \<Rightarrow> bool) \<Rightarrow> nat \<Rightarrow> parsed \<Rightarrow> parsed" where
  "with_objs al n k = (case NewMbusObjs al n of NULL \<Rightarrow> Some NULL | Ptr objs \<Rightarrow> k)"

abbreviation ret_objs :: "MbusObj list \<Rightarrow> parsed" where
  "ret_objs os \<equiv> Some (Ptr os)"

fun memmatch_loop :: "bytes \<Rightarrow> u16 \<Rightarrow> nat \<Rightarrow> nat \<Rightarrow> nat cptr exec" where
  "memmatch_loop pSrc dst i 0 = Some NULL"
| "memmatch_loop pSrc dst i (Suc n) = do {
     w \<leftarrow> rd16 pSrc i;
     if dst = w then Some (Ptr i) else memmatch_loop pSrc dst (Suc i) n }"

definition memmatch :: "bytes \<Rightarrow> u16 \<Rightarrow> nat \<Rightarrow> nat cptr exec" where
  "memmatch pSrc dst len =
     (if len = 0 then Some NULL else memmatch_loop pSrc dst 0 (nat (int len - 2)))"

text \<open>
  The key search that the plugins repeat: the position of a key, accepted only if at
  least \<open>m\<close> bytes of the message follow it (\<open>len + pBuf - pos < m\<close> rejects), and the
  search for several keys in turn, each with its own \<open>m\<close>. The guard \<open>!pSrc\<close> of \<open>memmatch\<close>
  never fires, as every caller has already rejected a \<open>NULL\<close> buffer.
\<close>

definition match_key :: "bytes \<Rightarrow> u16 \<Rightarrow> nat \<Rightarrow> nat \<Rightarrow> nat cptr exec" where
  "match_key pBuf key len m = do {
     p \<leftarrow> memmatch pBuf key len;
     (case p of NULL \<Rightarrow> Some NULL
      | Ptr pos \<Rightarrow> if int len - int pos < int m then Some NULL else Some (Ptr pos)) }"

fun match_keys :: "bytes \<Rightarrow> nat \<Rightarrow> (u16 \<times> nat) list \<Rightarrow> nat cptr exec" where
  "match_keys pBuf len [] = Some NULL"
| "match_keys pBuf len ((key, m) # ks) = do {
     p \<leftarrow> match_key pBuf key len m;
     (case p of NULL \<Rightarrow> match_keys pBuf len ks | Ptr pos \<Rightarrow> Some (Ptr pos)) }"

definition devkey :: "u8 \<Rightarrow> u8 \<Rightarrow> u16" where
  "devkey devId code = ucast devId * 256 + ucast code"

text \<open>
  The skeleton of every \<open>parse\<close>: reject a \<open>NULL\<close> buffer and a length below the minimum,
  search the keys, and go on with the position found and the function code after it.
\<close>

definition on_match ::
  "bytes cptr \<Rightarrow> nat \<Rightarrow> nat \<Rightarrow> (u16 \<times> nat) list \<Rightarrow> 'r \<Rightarrow> (bytes \<Rightarrow> nat \<Rightarrow> u8 \<Rightarrow> 'r exec) \<Rightarrow> 'r exec" where
  "on_match buf len minlen keys none body =
     (case buf of NULL \<Rightarrow> Some none
      | Ptr pBuf \<Rightarrow>
        if len < minlen then Some none
        else do {
          q \<leftarrow> match_keys pBuf len keys;
          (case q of NULL \<Rightarrow> Some none
           | Ptr pos \<Rightarrow> do {
               cmd \<leftarrow> rd8 pBuf (pos + 1);
               body pBuf pos cmd }) })"

declare match_keys.simps [simp del, frame_simps]

subsection \<open>Frames that end in their CRC\<close>

text \<open>
  The last two bytes are the CRC of the bytes before them, low byte first, as the
  Modbus serial-line protocol prescribes.
\<close>

definition crc_framed :: "bytes \<Rightarrow> bool" where
  "crc_framed bs \<longleftrightarrow>
     2 \<le> length bs \<and>
     rd16 bs (length bs - 2) = crc16 bs (int (length bs) - 2)"

text \<open>The end of every \<open>build\<close>: compute the CRC of the first \<open>n\<close> bytes and store it.\<close>

definition append_crc :: "bytes \<Rightarrow> nat \<Rightarrow> bytes exec" where
  "append_crc buf n = do {
     tmp \<leftarrow> crc16 buf (int n);
     wr16 buf n tmp }"

subsection \<open>Allocation and key search\<close>

lemma NewMbusObjs_ok [simp]:
  "(\<forall>k. al k) \<Longrightarrow> NewMbusObjs al n = Ptr (replicate n zero_obj)"
  by (simp add: NewMbusObjs_def list_all_iff)

lemma NewMbusObjs_cases:
  "NewMbusObjs al n = NULL \<or> NewMbusObjs al n = Ptr (replicate n zero_obj)"
  by (simp add: NewMbusObjs_def)

lemma with_objs_ok [simp]: "(\<forall>k. al k) \<Longrightarrow> with_objs al n k = k"
  by (simp add: with_objs_def)

lemma with_objs_defined: "(\<exists>r. k = Some r) \<Longrightarrow> \<exists>r. with_objs al n k = Some r"
  by (auto simp: with_objs_def split: cptr.split)

lemma memmatch_loop_spec:
  "i + n < length pSrc \<or> n = 0 \<Longrightarrow>
   \<exists>p. memmatch_loop pSrc dst i n = Some p \<and>
     (case p of
        NULL \<Rightarrow> \<forall>j. i \<le> j \<and> j < i + n \<longrightarrow> rd16 pSrc j \<noteq> Some dst
      | Ptr k \<Rightarrow> i \<le> k \<and> k < i + n \<and> rd16 pSrc k = Some dst
          \<and> (\<forall>j. i \<le> j \<and> j < k \<longrightarrow> rd16 pSrc j \<noteq> Some dst))"
proof (induction n arbitrary: i)
  case 0
  then show ?case by auto
next
  case (Suc n)
  then obtain w where w: "rd16 pSrc i = Some w"
    by (auto simp: rd16_Some)
  show ?case
  proof (cases "dst = w")
    case True
    with w show ?thesis by auto
  next
    case False
    have "Suc i + n < length pSrc \<or> n = 0"
      using Suc.prems by auto
    from Suc.IH [OF this] obtain p where p: "memmatch_loop pSrc dst (Suc i) n = Some p"
      and spec: "case p of
        NULL \<Rightarrow> \<forall>j. Suc i \<le> j \<and> j < Suc i + n \<longrightarrow> rd16 pSrc j \<noteq> Some dst
      | Ptr k \<Rightarrow> Suc i \<le> k \<and> k < Suc i + n \<and> rd16 pSrc k = Some dst
          \<and> (\<forall>j. Suc i \<le> j \<and> j < k \<longrightarrow> rd16 pSrc j \<noteq> Some dst)"
      by blast
    have step: "i \<noteq> j" if "rd16 pSrc j = Some dst" for j
      using w False that by auto
    have "memmatch_loop pSrc dst i (Suc n) = Some p"
      using w False p by simp
    moreover have "case p of
        NULL \<Rightarrow> \<forall>j. i \<le> j \<and> j < i + Suc n \<longrightarrow> rd16 pSrc j \<noteq> Some dst
      | Ptr k \<Rightarrow> i \<le> k \<and> k < i + Suc n \<and> rd16 pSrc k = Some dst
          \<and> (\<forall>j. i \<le> j \<and> j < k \<longrightarrow> rd16 pSrc j \<noteq> Some dst)"
      using spec by (cases p) (auto dest: step simp: Suc_le_eq order.strict_iff_order)
    ultimately show ?thesis by blast
  qed
qed

text \<open>The first position below \<open>len - 2\<close> that holds the key, or \<open>NULL\<close>.\<close>

lemma memmatch_spec:
  assumes "len \<le> length pSrc"
  obtains p where "memmatch pSrc dst len = Some p"
    and "p = NULL \<Longrightarrow> \<forall>j. j + 2 < len \<longrightarrow> rd16 pSrc j \<noteq> Some dst"
    and "\<And>k. p = Ptr k \<Longrightarrow> k + 2 < len \<and> rd16 pSrc k = Some dst
           \<and> (\<forall>j<k. rd16 pSrc j \<noteq> Some dst)"
proof -
  have "0 + nat (int len - 2) < length pSrc \<or> nat (int len - 2) = 0"
    using assms by linarith
  from memmatch_loop_spec [OF this, of dst] obtain p where
    p: "memmatch_loop pSrc dst 0 (nat (int len - 2)) = Some p"
    and spec: "case p of
        NULL \<Rightarrow> \<forall>j. 0 \<le> j \<and> j < 0 + nat (int len - 2) \<longrightarrow> rd16 pSrc j \<noteq> Some dst
      | Ptr k \<Rightarrow> 0 \<le> k \<and> k < 0 + nat (int len - 2) \<and> rd16 pSrc k = Some dst
          \<and> (\<forall>j. 0 \<le> j \<and> j < k \<longrightarrow> rd16 pSrc j \<noteq> Some dst)"
    by blast
  show thesis
  proof (rule that [of p])
    show "memmatch pSrc dst len = Some p"
      using p by (auto simp: memmatch_def)
  qed (use spec in auto)
qed

lemma match_key_safe:
  assumes "len \<le> length pBuf"
  obtains p where "match_key pBuf key len m = Some p"
    and "\<And>pos. p = Ptr pos \<Longrightarrow> pos + m \<le> len \<and> pos + 2 < len \<and> rd16 pBuf pos = Some key"
proof -
  from memmatch_spec [OF assms, of key] obtain q where
    q: "memmatch pBuf key len = Some q"
    and pos: "\<And>k. q = Ptr k \<Longrightarrow> k + 2 < len \<and> rd16 pBuf k = Some key"
    by metis
  show thesis
  proof (cases q)
    case NULL
    with q show ?thesis by (intro that [of NULL]) (simp_all add: match_key_def)
  next
    case (Ptr k)
    show ?thesis
    proof (cases "k + m \<le> len")
      case True
      with q Ptr pos show ?thesis by (intro that [of "Ptr k"]) (auto simp: match_key_def)
    next
      case False
      with q Ptr show ?thesis by (intro that [of NULL]) (auto simp: match_key_def)
    qed
  qed
qed

lemma match_key_first:
  assumes "rd16 pBuf 0 = Some key" and "3 \<le> len" and "m \<le> len" and "len \<le> length pBuf"
  shows "match_key pBuf key len m = Some (Ptr 0)"
proof -
  from memmatch_spec [OF assms(4), of key] obtain p where
    p: "memmatch pBuf key len = Some p"
    and none: "p = NULL \<Longrightarrow> \<forall>j. j + 2 < len \<longrightarrow> rd16 pBuf j \<noteq> Some key"
    and first: "\<And>k. p = Ptr k \<Longrightarrow> \<forall>j<k. rd16 pBuf j \<noteq> Some key"
    by metis
  have "p = Ptr 0"
  proof (cases p)
    case NULL
    with none have "rd16 pBuf 0 \<noteq> Some key"
      using assms(2) by simp
    with assms(1) show ?thesis by simp
  next
    case (Ptr k)
    with first assms(1) show ?thesis by (cases k) auto
  qed
  with p assms show ?thesis by (simp add: match_key_def)
qed

lemma match_key_absent:
  assumes "len \<le> length pBuf"
    and "\<And>i. i + m \<le> len \<Longrightarrow> i + 2 < len \<Longrightarrow> rd16 pBuf i \<noteq> Some key"
  shows "match_key pBuf key len m = Some NULL"
proof -
  from match_key_safe [OF assms(1), of key m] obtain p where
    p: "match_key pBuf key len m = Some p"
    and pos: "\<And>k. p = Ptr k \<Longrightarrow> k + m \<le> len \<and> k + 2 < len \<and> rd16 pBuf k = Some key"
    by metis
  show ?thesis
  proof (cases p)
    case NULL
    with p show ?thesis by simp
  next
    case (Ptr k)
    with pos [OF Ptr] assms(2) [of k] show ?thesis by simp
  qed
qed

lemma push_or_inj:
  fixes a b c d :: u8
  assumes "(push_bit 8 (ucast a) OR ucast b :: u16) = push_bit 8 (ucast c) OR ucast d"
  shows "a = c \<and> b = d"
proof
  have hi: "ucast (drop_bit 8 (push_bit 8 (ucast x) OR ucast y :: u16)) = x" for x y :: u8
    by (rule bit_word_eqI)
      (auto simp: bit_or_iff bit_push_bit_iff bit_unsigned_iff bit_drop_bit_eq dest: bit_imp_le_length)
  have lo: "ucast (push_bit 8 (ucast x) OR ucast y :: u16) = y" for x y :: u8
    by (rule bit_word_eqI)
      (auto simp: bit_or_iff bit_push_bit_iff bit_unsigned_iff dest: bit_imp_le_length)
  show "a = c" using hi [of a b] hi [of c d] assms by simp
  show "b = d" using lo [of a b] lo [of c d] assms by simp
qed

lemma rd16_key [frame_simps]: "push_bit 8 (ucast d) OR ucast c = devkey d c"
proof -
  have "bit (push_bit 8 (ucast d) :: u16) n \<Longrightarrow> \<not> bit (ucast c :: u16) n" for n
    by (auto simp: bit_push_bit_iff bit_unsigned_iff dest: bit_imp_le_length)
  then have "push_bit 8 (ucast d) + ucast c = (push_bit 8 (ucast d) OR ucast c :: u16)"
    by (intro disjunctive_add) blast
  then show ?thesis by (simp add: devkey_def push_bit_eq_mult)
qed

lemma devkey_eq_iff [frame_simps]: "devkey d c = devkey d' c' \<longleftrightarrow> d = d' \<and> c = c'"
  using push_or_inj [of d c d' c'] by (auto simp: rd16_key)

lemma devkey_split [frame_simps]: "devkey (ucast (drop_bit 8 w)) (ucast w) = w"
  by (simp flip: rd16_key)

lemma devkey_eq_split: "devkey h l = w \<longleftrightarrow> h = ucast (drop_bit 8 w) \<and> l = ucast w"
  using devkey_eq_iff [of h l "ucast (drop_bit 8 w)" "ucast w"] by (simp add: devkey_split)

lemma devkey_eq_numeral [frame_simps]:
  "devkey h l = numeral n \<longleftrightarrow> h = ucast (drop_bit 8 (numeral n :: u16)) \<and> l = ucast (numeral n :: u16)"
  "devkey h l = 1 \<longleftrightarrow> h = 0 \<and> l = 1"
  "devkey h l = 0 \<longleftrightarrow> h = 0 \<and> l = 0"
  by (simp_all add: devkey_eq_split)

lemma low_bytes16:
  fixes w :: u32
  shows "ucast (devkey (ucast (drop_bit 8 w)) (ucast w)) = take_bit 16 w"
proof -
  have "devkey (ucast (drop_bit 8 w)) (ucast w) = ucast w"
    by (rule bit_word_eqI)
      (auto simp: bit_or_iff bit_push_bit_iff bit_unsigned_iff bit_drop_bit_eq simp flip: rd16_key)
  then show ?thesis
    by (intro bit_word_eqI) (auto simp: bit_unsigned_iff bit_take_bit_iff)
qed

lemma rd16_Cons_iff:
  "rd16 (x # y # ys) i = Some k \<longleftrightarrow>
     i = 0 \<and> k = devkey x y \<or> (\<exists>j. i = Suc j \<and> rd16 (y # ys) j = Some k)"
  "rd16 [x] i = Some k \<longleftrightarrow> False"
  by (cases i; auto simp: frame_simps rd8_def bind_eq_Some_conv)+

lemma match_key_exact:
  assumes "length pBuf = n" and "3 \<le> n"
  shows "match_key pBuf key n n = Some (if rd16 pBuf 0 = Some key then Ptr 0 else NULL)"
proof (cases "rd16 pBuf 0 = Some key")
  case True
  with assms show ?thesis by (simp add: match_key_first)
next
  case False
  have "match_key pBuf key n n = Some NULL"
    by (rule match_key_absent) (use assms False in auto)
  with False show ?thesis by simp
qed

lemma match_keys_safe:
  assumes "len \<le> length pBuf"
  obtains p where "match_keys pBuf len ks = Some p"
    and "\<And>pos. p = Ptr pos \<Longrightarrow> pos + 2 < len \<and>
           (\<exists>(key, m) \<in> set ks. rd16 pBuf pos = Some key \<and> pos + m \<le> len)"
proof -
  have "\<exists>p. match_keys pBuf len ks = Some p \<and> (\<forall>pos. p = Ptr pos \<longrightarrow> pos + 2 < len \<and>
           (\<exists>(key, m) \<in> set ks. rd16 pBuf pos = Some key \<and> pos + m \<le> len))"
  proof (induction ks)
    case (Cons k ks)
    obtain key m where k: "k = (key, m)" by (cases k)
    from match_key_safe [OF assms, of key m] obtain q where
      q: "match_key pBuf key len m = Some q"
      and pos: "\<And>i. q = Ptr i \<Longrightarrow> i + m \<le> len \<and> i + 2 < len \<and> rd16 pBuf i = Some key"
      by metis
    show ?case
      using Cons pos by (cases q) (auto simp: k q match_keys.simps)
  qed (simp add: match_keys.simps)
  with that show thesis by blast
qed

text \<open>
  Where a parser can fail: only inside the branch of a key it found, with the bytes the
  length check guarantees. On a frame of exactly the required length, the key decides.
\<close>

lemma on_match_None:
  assumes "on_match (Ptr pBuf) len minlen keys none body = None" and "len \<le> length pBuf"
  obtains pos d key m where "(key, m) \<in> set keys" and "rd16 pBuf pos = Some key"
    and "key = devkey d (pBuf ! (pos + 1))" and "pos + m \<le> len" and "pos + 2 < len"
    and "body pBuf pos (pBuf ! (pos + 1)) = None"
proof -
  obtain p where p: "match_keys pBuf len keys = Some p"
    and key: "\<And>pos. p = Ptr pos \<Longrightarrow> pos + 2 < len \<and>
      (\<exists>(key, m) \<in> set keys. rd16 pBuf pos = Some key \<and> pos + m \<le> len)"
    using match_keys_safe [OF assms(2), of keys] by blast
  from assms(1) p obtain pos where pos: "p = Ptr pos"
    by (cases p) (auto simp: on_match_def split: if_splits)
  with key assms(2) have "pos + 2 < len" and "rd8 pBuf (pos + 1) = Some (pBuf ! (pos + 1))"
    by (auto simp: rd8_Some)
  with assms p pos have "body pBuf pos (pBuf ! (pos + 1)) = None"
    by (auto simp: on_match_def split: if_splits)
  moreover have "rd16 pBuf pos = Some (devkey (pBuf ! pos) (pBuf ! (pos + 1)))"
    using \<open>pos + 2 < len\<close> assms(2) by (simp add: rd16_Some rd16_key)
  ultimately show thesis
    using key [OF pos] by (fastforce intro: that)
qed

lemma on_match_safe:
  assumes "len \<le> length pBuf"
    and "\<And>pos key m d. (key, m) \<in> set keys \<Longrightarrow> rd16 pBuf pos = Some key \<Longrightarrow>
      key = devkey d (pBuf ! (pos + 1)) \<Longrightarrow> pos + m \<le> len \<Longrightarrow>
      safe (body pBuf pos (pBuf ! (pos + 1))) P"
    and "P none"
  shows "safe (on_match (Ptr pBuf) len minlen keys none body) P"
proof -
  obtain p where p: "match_keys pBuf len keys = Some p"
    and key: "\<And>pos. p = Ptr pos \<Longrightarrow> pos + 2 < len \<and>
      (\<exists>(key, m) \<in> set keys. rd16 pBuf pos = Some key \<and> pos + m \<le> len)"
    using match_keys_safe [OF assms(1), of keys] by blast
  show ?thesis
  proof (cases p)
    case NULL
    with p assms(3) show ?thesis by (simp add: on_match_def safe_def)
  next
    case (Ptr pos)
    then have "pos + 2 < len" using key by blast
    then have "rd16 pBuf pos = Some (devkey (pBuf ! pos) (pBuf ! (pos + 1)))"
      and "rd8 pBuf (pos + 1) = Some (pBuf ! (pos + 1))"
      using assms(1) by (simp_all add: rd16_Some rd16_key rd8_Some)
    with key [OF Ptr] p Ptr assms(2,3) show ?thesis
      by (fastforce simp: on_match_def safe_def)
  qed
qed

lemma on_match_exact:
  assumes "length pBuf = n" and "len = n" and "3 \<le> n" and "minlen \<le> n"
    and "list_all (\<lambda>(k, m). m = n) keys"
  shows "on_match (Ptr pBuf) len minlen keys none body =
    (if list_ex (\<lambda>(k, m). rd16 pBuf 0 = Some k) keys then body pBuf 0 (pBuf ! 1) else Some none)"
proof -
  have "match_keys pBuf n keys
    = Some (if list_ex (\<lambda>(k, m). rd16 pBuf 0 = Some k) keys then Ptr 0 else NULL)"
    using assms(1,3,5)
    by (induction keys) (auto simp: match_keys.simps match_key_exact)
  with assms show ?thesis
    by (simp add: on_match_def rd8_Some)
qed

lemma on_match_front:
  assumes "length pBuf = n" and "len = n" and "3 \<le> n" and "minlen \<le> n"
    and "\<And>k m. (k, m) \<in> set keys \<Longrightarrow> m \<le> n"
    and "\<And>k m i. (k, m) \<in> set keys \<Longrightarrow> 0 < i \<Longrightarrow> i + m \<le> n \<Longrightarrow> rd16 pBuf i \<noteq> Some k"
  shows "on_match (Ptr pBuf) len minlen keys none body =
    (if list_ex (\<lambda>(k, m). rd16 pBuf 0 = Some k) keys then body pBuf 0 (pBuf ! 1) else Some none)"
proof -
  have key: "match_key pBuf k n m = Some (if rd16 pBuf 0 = Some k then Ptr 0 else NULL)"
    if "(k, m) \<in> set keys" for k m
  proof (cases "rd16 pBuf 0 = Some k")
    case True
    with that assms show ?thesis by (simp add: match_key_first)
  next
    case False
    have "match_key pBuf k n m = Some NULL"
    proof (rule match_key_absent)
      show "n \<le> length pBuf" using assms(1) by simp
      show "rd16 pBuf i \<noteq> Some k" if "i + m \<le> n" for i
        using False assms(6) [OF \<open>(k, m) \<in> set keys\<close>, of i] that by (cases "i = 0") auto
    qed
    with False show ?thesis by simp
  qed
  have "match_keys pBuf n keys
    = Some (if list_ex (\<lambda>(k, m). rd16 pBuf 0 = Some k) keys then Ptr 0 else NULL)"
    using key by (induction keys) (auto simp: match_keys.simps)
  with assms(1-4) show ?thesis
    by (simp add: on_match_def rd8_Some)
qed

lemma on_match_at:
  assumes "length pBuf = n" and "len = n" and "minlen \<le> n"
    and "rd16 pBuf p = Some key" and "p + m \<le> n" and "p + 2 < n"
    and "\<And>j. j < p \<Longrightarrow> rd16 pBuf j \<noteq> Some key"
  shows "on_match (Ptr pBuf) len minlen [(key, m)] none body = body pBuf p (pBuf ! (p + 1))"
proof -
  have "n \<le> length pBuf" using assms(1) by simp
  from memmatch_spec [OF this, of key] obtain q where
    q: "memmatch pBuf key n = Some q"
    and none: "q = NULL \<Longrightarrow> \<forall>j. j + 2 < n \<longrightarrow> rd16 pBuf j \<noteq> Some key"
    and first: "\<And>k. q = Ptr k \<Longrightarrow> rd16 pBuf k = Some key \<and> (\<forall>j<k. rd16 pBuf j \<noteq> Some key)"
    by metis
  have "q = Ptr p"
  proof (cases q)
    case NULL
    with none assms(4,6) show ?thesis by blast
  next
    case (Ptr k)
    with first assms(4,7) show ?thesis by (metis linorder_neqE_nat)
  qed
  with q assms(1,2,3,5,6) show ?thesis
    by (simp add: on_match_def match_keys.simps match_key_def rd8_Some)
qed

lemma on_match_nowhere:
  assumes "length pBuf = n" and "len = n"
    and "\<And>j. j + m \<le> n \<Longrightarrow> rd16 pBuf j \<noteq> Some key"
  shows "on_match (Ptr pBuf) len minlen [(key, m)] none body = Some none"
proof -
  have "match_key pBuf key n m = Some NULL"
    using assms by (intro match_key_absent) auto
  with assms show ?thesis
    by (simp add: on_match_def match_keys.simps)
qed

subsection \<open>Building a checked frame\<close>

text \<open>
  The two allocations every \<open>build\<close> starts with: the message and its zeroed buffer of
  \<open>n\<close> bytes.
\<close>

definition new_msg :: "(nat \<Rightarrow> bool) \<Rightarrow> nat \<Rightarrow> bytes cptr" where
  "new_msg al n = (if \<not> al 0 then NULL else if \<not> al 1 then NULL else Ptr (replicate n 0))"

definition ret_msg :: "bytes \<Rightarrow> built" where
  "ret_msg buf = Some (Ptr \<lparr>msg_pBuf = buf, msg_len = length buf\<rparr>)"

definition crc_msg :: "bytes \<Rightarrow> nat \<Rightarrow> built" where
  "crc_msg buf n = do { buf \<leftarrow> append_crc buf n; ret_msg buf }"

lemma new_msg_cases: "new_msg al n = NULL \<or> new_msg al n = Ptr (replicate n 0)"
  by (simp add: new_msg_def)

lemma new_msg_ok [simp]: "(\<forall>k. al k) \<Longrightarrow> new_msg al n = Ptr (replicate n 0)"
  by (simp add: new_msg_def)

lemma append_crc_Some:
  assumes "length buf = n + 2"
  shows "append_crc buf n
    = Some (take n buf @ [ucast (drop_bit 8 (swap16 (modbus_crc (take n buf)))),
                          ucast (swap16 (modbus_crc (take n buf)))])"
proof -
  let ?c = "swap16 (modbus_crc (take n buf))"
  have "buf[n := x, Suc n := y] = take n buf @ [x, y]" for x y
    using assms by (intro nth_equalityI) (auto simp: nth_append nth_list_update less_Suc_eq)
  with assms show ?thesis
    by (simp add: append_crc_def crc16_Some wr16_Some)
qed

text \<open>A frame is its payload and the checksum of the payload, high table byte first.\<close>

definition crc_bytes :: "bytes \<Rightarrow> bytes" where
  "crc_bytes p = [ucast (drop_bit 8 (swap16 (modbus_crc p))), ucast (swap16 (modbus_crc p))]"

lemma length_crc_bytes [simp]: "length (crc_bytes p) = 2"
  by (simp add: crc_bytes_def)

lemma rd16_append_pair [simp]:
  "rd16 (p @ [x, y]) (length p) = Some (push_bit 8 (ucast x) OR ucast y)"
  by (simp add: rd16_Some nth_append)

lemma crc_framed_iff: "crc_framed bs \<longleftrightarrow> (\<exists>p. bs = p @ crc_bytes p)"
proof
  assume fr: "crc_framed bs"
  define p where "p = take (length bs - 2) bs"
  from fr have len: "2 \<le> length bs" by (simp add: crc_framed_def)
  obtain x y where bs: "bs = p @ [x, y]"
  proof -
    from len have "length (drop (length bs - 2) bs) = 2" by simp
    then obtain x y where "drop (length bs - 2) bs = [x, y]"
      by (metis (no_types) Suc_1 One_nat_def length_0_conv length_Suc_conv)
    then have "bs = p @ [x, y]"
      unfolding p_def by (metis append_take_drop_id)
    then show thesis by (rule that)
  qed
  have "crc16 bs (int (length p)) = Some (swap16 (modbus_crc p))"
    by (simp add: bs crc16_Some)
  moreover have "int (length bs) - 2 = int (length p)" and "length bs - 2 = length p"
    by (simp_all add: bs)
  ultimately have "push_bit 8 (ucast x) OR ucast y = swap16 (modbus_crc p)"
    using fr by (simp add: crc_framed_def bs)
  then have "push_bit 8 (ucast x) OR ucast y
    = (push_bit 8 (ucast ((ucast (drop_bit 8 (swap16 (modbus_crc p)))) :: u8))
       OR ucast ((ucast (swap16 (modbus_crc p))) :: u8) :: u16)"
    by simp
  then have "[x, y] = crc_bytes p"
    unfolding crc_bytes_def using push_or_inj by blast
  with bs show "\<exists>p. bs = p @ crc_bytes p" by blast
next
  assume "\<exists>p. bs = p @ crc_bytes p"
  then obtain p where bs: "bs = p @ crc_bytes p" by blast
  have "crc16 bs (int (length p)) = Some (swap16 (modbus_crc p))"
    by (simp add: bs crc16_Some)
  then show "crc_framed bs"
    by (simp add: crc_framed_def bs crc_bytes_def)
qed

definition crc_frame :: "bytes \<Rightarrow> bytes" where
  "crc_frame p = p @ crc_bytes p"

lemma crc_framed_crc_frame [simp]: "crc_framed (crc_frame p)"
  unfolding crc_framed_iff crc_frame_def by blast

lemma length_crc_frame [simp]: "length (crc_frame p) = length p + 2"
  by (simp add: crc_frame_def)

lemma nth_crc_frame [simp]: "i < length p \<Longrightarrow> crc_frame p ! i = p ! i"
  by (simp add: crc_frame_def nth_append)

lemma rd8_crc_frame: "i < length p \<Longrightarrow> rd8 (crc_frame p) i = rd8 p i"
  by (simp add: rd8_Some)

lemma rd16_crc_frame: "Suc i < length p \<Longrightarrow> rd16 (crc_frame p) i = rd16 p i"
  by (simp add: rd16_Some)

lemma crc_msg_Some [plugin_simps]:
  assumes "length buf = n + 2"
  shows "crc_msg buf n
    = Some (Ptr \<lparr>msg_pBuf = crc_frame (take n buf), msg_len = n + 2\<rparr>)"
  using append_crc_Some [OF assms]
  using assms by (simp add: crc_msg_def ret_msg_def crc_frame_def crc_bytes_def)

text \<open>The bytes of a message that go out on the line.\<close>

definition sent :: "Msg \<Rightarrow> bytes" where
  "sent m = take (msg_len m) (msg_pBuf m)"

definition framed_msg :: "Msg \<Rightarrow> bool" where
  "framed_msg m \<longleftrightarrow> msg_len m \<le> length (msg_pBuf m) \<and> crc_framed (sent m)"

lemma sent_crc_frame [simp]:
  "length p + 2 \<le> n \<Longrightarrow> sent \<lparr>msg_pBuf = crc_frame p, msg_len = n\<rparr> = crc_frame p"
  by (simp add: sent_def)

lemma post_crc_msg [post_simps]:
  assumes "length buf = n + 2"
  shows "post (crc_msg buf n) (\<lambda>r. case r of NULL \<Rightarrow> True | Ptr m \<Rightarrow> framed_msg m)"
    and "post (crc_msg buf n \<bind> f) P \<longleftrightarrow> post (f (Ptr
      \<lparr>msg_pBuf = crc_frame (take n buf), msg_len = n + 2\<rparr>)) P"
  using assms by (simp_all add: crc_msg_Some post_Some framed_msg_def)

lemma crc_framed_corrupt:
  assumes "crc_framed bs" and "i < length bs" and "b \<noteq> bs ! i"
  shows "\<not> crc_framed (bs[i := b])"
proof
  assume "crc_framed (bs[i := b])"
  then obtain q where q: "bs[i := b] = q @ crc_bytes q"
    unfolding crc_framed_iff by blast
  from assms(1) obtain p where p: "bs = p @ crc_bytes p"
    unfolding crc_framed_iff by blast
  have lenpq: "length q = length p"
    using arg_cong [OF q, of length] by (simp add: p)
  show False
  proof (cases "i < length p")
    case True
    then have "q = p[i := b]" and eq: "crc_bytes q = crc_bytes p"
      using q lenpq by (auto simp: p list_update_append)
    then have "q = take i p @ b # drop (Suc i) p"
      using True by (simp add: upd_conv_take_nth_drop)
    moreover have "p = take i p @ p ! i # drop (Suc i) p"
      using True by (rule id_take_nth_drop)
    moreover from eq have "swap16 (modbus_crc q) = swap16 (modbus_crc p)"
      unfolding crc_bytes_def by (metis list.inject split_u16)
    ultimately have "b = p ! i"
      by (metis swap16_inj modbus_crc_single_byte)
    with assms(3) True show False by (simp add: p nth_append)
  next
    case False
    then have "q = p" and "crc_bytes q = (crc_bytes p)[i - length p := b]"
      using q lenpq by (auto simp: p list_update_append)
    then have "crc_bytes p ! (i - length p) = b"
      using False assms(2) by (metis length_append nth_list_update_eq add_diff_inverse_nat
          nat_add_left_cancel_less p length_list_update)
    with assms(3) False show False by (simp add: p nth_append)
  qed
qed

subsection \<open>Interface of the plugins that send CRC frames\<close>

text \<open>
  What the gateway relies on in a \<open>build\<close> function, for all arguments \<open>x\<close>: the message
  length stays inside the buffer and the bytes sent end in the CRC of the rest. The lemma
  for clients: a device that checks the CRC of what it receives rejects every request in
  which the line changed one byte. A builder that never runs into undefined behaviour
  satisfies the stronger contract, and then either reports failure or yields a frame.
\<close>

locale crc_builder =
  fixes bld :: "(nat \<Rightarrow> bool) \<Rightarrow> 'x \<Rightarrow> built"
  assumes bld_post: "post (bld al x) (\<lambda>r. case r of NULL \<Rightarrow> True | Ptr m \<Rightarrow> framed_msg m)"
begin

lemma bld_framed: "bld al x = Some (Ptr m) \<Longrightarrow> crc_framed (sent m) \<and> msg_len m = length (sent m)"
  using bld_post [of al x] by (auto simp: post_def framed_msg_def sent_def)

lemma corruption_detected:
  assumes "bld al x = Some (Ptr m)" and "i < msg_len m" and "b \<noteq> sent m ! i"
  shows "\<not> crc_framed ((sent m)[i := b])"
  using assms bld_framed [OF assms(1)] crc_framed_corrupt by auto

end

locale total_crc_builder = crc_builder +
  assumes bld_defined: "\<exists>r. bld al x = Some r"
begin

lemma bld_cases:
  obtains (oom) "bld al x = Some NULL"
  | (frame) m where "bld al x = Some (Ptr m)" and "crc_framed (sent m)"
      and "msg_len m = length (sent m)"
proof -
  obtain r where "bld al x = Some r" using bld_defined by blast
  then show thesis
    by (cases r) (auto dest: bld_framed intro: oom frame)
qed

lemma frame_or_failure:
  "bld al x = Some NULL \<or> (\<exists>m. bld al x = Some (Ptr m) \<and> crc_framed (sent m)
     \<and> msg_len m = length (sent m))"
  by (rule bld_cases) auto

end

subsection \<open>Interface of the parsers that check the CRC\<close>

text \<open>
  A parser that answers \<open>NULL\<close> to every buffer that is not a CRC frame also answers
  \<open>NULL\<close> to every frame in which the line changed one byte.
\<close>

locale crc_parser =
  fixes prs :: "(nat \<Rightarrow> bool) \<Rightarrow> 'x \<Rightarrow> bytes \<Rightarrow> parsed"
  assumes prs_unframed: "length pBuf < 256 \<Longrightarrow> \<not> crc_framed pBuf \<Longrightarrow> prs al x pBuf = Some NULL"
begin

lemma rejects_corruption:
  assumes "crc_framed pBuf" and "length pBuf < 256" and "i < length pBuf" and "b \<noteq> pBuf ! i"
  shows "prs al x (pBuf[i := b]) = Some NULL"
  using assms crc_framed_corrupt by (intro prs_unframed) auto

end

end
