(* ===== verification/Mbus_Acd.thy ===== *)
theory Mbus_Acd
  imports Plugin_Api
begin

text \<open>
  Air-conditioner plugins: \<open>plugin/compile/Mbus_Acd_ZhongHong.c\<close> (a private protocol
  closed by a sum byte), \<open>Mbus_Acd_Daikin_DTA116A621.c\<close> and \<open>Mbus_Acd_TG_A21MC.c\<close>
  (Modbus frames closed by a CRC, each with a static cache of the last values received).
  A cache is an explicit argument and result; for Daikin only the member \<open>rcvValue\<close> of
  its elements is ever used, so the cache holds these words.
\<close>

subsection \<open>ZhongHong\<close>

definition ZhongHong_fill :: "bytes \<Rightarrow> u16 \<Rightarrow> ty_obj_dp \<Rightarrow> bytes exec" where
  "ZhongHong_fill b regAddr pObj =
     (if dpid pObj = 1 then do {
        b \<leftarrow> wr8 b 1 0x31;
        b \<leftarrow> wr8 b 2 (dp_bool pObj);
        b \<leftarrow> wr8 b 3 1;
        wr16 b 4 regAddr }
      else if dpid pObj = 2 then do {
        b \<leftarrow> wr8 b 1 0x32;
        b \<leftarrow> wr8 b 2 (word_of_int (dp_value pObj));
        b \<leftarrow> wr8 b 3 1;
        wr16 b 4 regAddr }
      else if dpid pObj = 4 then do {
        b \<leftarrow> wr8 b 1 0x33;
        b \<leftarrow> wr8 b 3 1;
        b \<leftarrow> wr16 b 4 regAddr;
        if dp_enum pObj = 0 then wr8 b 2 1
        else if dp_enum pObj = 1 then wr8 b 2 8
        else if dp_enum pObj = 2 then wr8 b 2 2
        else if dp_enum pObj = 3 then wr8 b 2 4
        else Some b }
      else if dpid pObj = 5 then do {
        b \<leftarrow> wr8 b 1 0x34;
        b \<leftarrow> wr8 b 3 1;
        b \<leftarrow> wr16 b 4 regAddr;
        if dp_enum pObj = 0 then wr8 b 2 0
        else if dp_enum pObj = 1 then wr8 b 2 4
        else if dp_enum pObj = 2 then wr8 b 2 2
        else if dp_enum pObj = 3 then wr8 b 2 1
        else Some b }
      else Some b)"

definition ZhongHong_build :: "(nat \<Rightarrow> bool) \<Rightarrow> u8 \<Rightarrow> u16 \<Rightarrow> ty_obj_dp cptr \<Rightarrow> built" where
  "ZhongHong_build al devId regAddr pObj =
     (case new_msg al 7 of NULL \<Rightarrow> Some NULL
      | Ptr b \<Rightarrow> do {
          b \<leftarrow> wr8 b 0 devId;
          b \<leftarrow> (case pObj of
                 NULL \<Rightarrow> do {
                   b \<leftarrow> wr8 b 1 0x50;
                   b \<leftarrow> wr8 b 2 1;
                   b \<leftarrow> wr8 b 3 1;
                   wr16 b 4 regAddr }
               | Ptr dp \<Rightarrow> ZhongHong_fill b regAddr dp);
          c \<leftarrow> cs b 6;
          b \<leftarrow> wr8 b 6 c;
          ret_msg b })"

definition ZhongHong_mode :: "u8 \<Rightarrow> u32" where
  "ZhongHong_mode m = (if m = 1 then 0 else if m = 2 then 2 else if m = 4 then 3
     else if m = 8 then 1 else 0)"

definition ZhongHong_speed :: "u8 \<Rightarrow> u32" where
  "ZhongHong_speed s = (if s = 4 then 1 else if s = 2 then 2 else if s = 1 then 3 else 0)"

definition ZhongHong_speed_ack :: "u8 \<Rightarrow> u32" where
  "ZhongHong_speed_ack s = (if s = 4 then 3 else if s = 2 then 2 else if s = 1 then 1 else 0)"

definition ZhongHong_parse :: "(nat \<Rightarrow> bool) \<Rightarrow> u8 \<Rightarrow> bytes cptr \<Rightarrow> nat \<Rightarrow> parsed" where
  "ZhongHong_parse al devId buf len =
     on_match buf len 7
       [(devkey devId 0x31, 7), (devkey devId 0x34, 7), (devkey devId 0x32, 7),
        (devkey devId 0x33, 7), (devkey devId 0x50, 7)] NULL
       (\<lambda>pBuf pos cmd.
         if cmd = 0x50 then with_objs al 5 (do {
           sw \<leftarrow> rd8 pBuf (pos + 6);
           tmp \<leftarrow> rd8 pBuf (pos + 7);
           env \<leftarrow> rd8 pBuf (pos + 10);
           md \<leftarrow> rd8 pBuf (pos + 8);
           sp \<leftarrow> rd8 pBuf (pos + 9);
           ret_objs [obj ACD_SWITCH (ucast sw), obj ACD_TEMP (ucast tmp),
             obj ACD_MODE (ZhongHong_mode md), obj ACD_SPEED (ZhongHong_speed sp),
             obj ACD_ENV_TEMP (ucast env * 10)] })
         else if cmd = 0x31 then with_objs al 1 (do {
           v \<leftarrow> rd8 pBuf (pos + 2);
           ret_objs [obj ACD_SWITCH (ucast v)] })
         else if cmd = 0x32 then with_objs al 1 (do {
           v \<leftarrow> rd8 pBuf (pos + 2);
           ret_objs [obj ACD_TEMP (ucast v)] })
         else if cmd = 0x33 then with_objs al 1 (do {
           v \<leftarrow> rd8 pBuf (pos + 2);
           ret_objs [obj ACD_MODE (ZhongHong_mode v)] })
         else if cmd = 0x34 then with_objs al 1 (do {
           v \<leftarrow> rd8 pBuf (pos + 2);
           ret_objs [obj ACD_SPEED (ZhongHong_speed_ack v)] })
         else Some NULL)"

subsection \<open>Daikin\<close>

type_synonym daikin_cache = "u32 list list"

abbreviation (input) D_SWITCH :: nat where "D_SWITCH \<equiv> 0"
abbreviation (input) D_TEMP :: nat where "D_TEMP \<equiv> 1"
abbreviation (input) D_MODE :: nat where "D_MODE \<equiv> 2"
abbreviation (input) D_SPEED :: nat where "D_SPEED \<equiv> 3"
abbreviation (input) D_ENV_TEMP :: nat where "D_ENV_TEMP \<equiv> 4"
abbreviation (input) D_ERROR_CODE :: nat where "D_ERROR_CODE \<equiv> 5"
abbreviation (input) D_DIR :: nat where "D_DIR \<equiv> 6"
abbreviation (input) D_MODE_OUTDOOR :: nat where "D_MODE_OUTDOOR \<equiv> 7"
abbreviation (input) D_AUTHORITY :: nat where "D_AUTHORITY \<equiv> 8"

definition Daikin_cache0 :: daikin_cache where
  "Daikin_cache0 = replicate 16 (replicate 9 0)"

definition fault2 :: bytes where
  "fault2 = map of_char ''0ACEHFJLPU987654321GKMNRTVWXYZ* ''"

definition fault1 :: bytes where
  "fault1 = map of_char ''0123456789ABCDEF''"

definition Daikin_mode :: "daikin_cache \<Rightarrow> bytes \<Rightarrow> nat \<Rightarrow> ty_obj_dp \<Rightarrow> bytes cptr exec" where
  "Daikin_mode st b regAddr dp = do {
     out \<leftarrow> rd_tab st regAddr D_MODE_OUTDOOR;
     auth \<leftarrow> rd_tab st regAddr D_AUTHORITY;
     b \<leftarrow> wr8 b 4 (ucast out);
     if dp_enum dp = 1 then do {
       b \<leftarrow> wr8 b 4 2;
       b \<leftarrow> wr8 b 5 2;
       if auth \<noteq> 2 \<and> out \<noteq> 2 then Some NULL else Some (Ptr b) }
     else if dp_enum dp = 3 then do { b \<leftarrow> wr8 b 5 7; Some (Ptr b) }
     else if dp_enum dp = 4 then do { b \<leftarrow> wr8 b 4 0; b \<leftarrow> wr8 b 5 0; Some (Ptr b) }
     else if dp_enum dp = 2 then do {
       b \<leftarrow> wr8 b 4 1;
       b \<leftarrow> wr8 b 5 1;
       if auth \<noteq> 2 \<and> out \<noteq> 1 then Some NULL else Some (Ptr b) }
     else if dp_enum dp = 0 then do { b \<leftarrow> wr8 b 5 3; Some (Ptr b) }
     else Some (Ptr b) }"

definition Daikin_fill ::
  "daikin_cache \<Rightarrow> bytes \<Rightarrow> u16 \<Rightarrow> u16 \<Rightarrow> ty_obj_dp \<Rightarrow> (bytes cptr \<times> daikin_cache) exec" where
  "Daikin_fill st b regAddr groupAddr dp =
     (if dpid dp = 1 then do {
        b \<leftarrow> wr16 b 2 (0x07D0 + 3 * regAddr + 0);
        sp \<leftarrow> rd_tab st (unat groupAddr) D_SPEED;
        dir \<leftarrow> rd_tab st (unat groupAddr) D_DIR;
        b \<leftarrow> wr8 b 4 (ucast (push_bit 4 (sp AND 0x0F)) + ucast (dir AND 0x0F));
        b \<leftarrow> wr8 b 5 ((if dp_bool dp \<noteq> 0 then 1 else 0) + 96);
        Some (Ptr b, st) }
      else if dpid dp = 2 then do {
        b \<leftarrow> wr16 b 2 (0x07D0 + 3 * regAddr + 2);
        v \<leftarrow> c_int (dp_value dp * 10);
        b \<leftarrow> wr16 b 4 (word_of_int v);
        Some (Ptr b, st) }
      else if dpid dp = 4 then do {
        b \<leftarrow> wr16 b 2 (0x07D0 + 3 * regAddr + 1);
        r \<leftarrow> Daikin_mode st b (unat regAddr) dp;
        Some (r, st) }
      else if dpid dp = 5 then do {
        b \<leftarrow> wr16 b 2 (0x07D0 + 3 * regAddr + 0);
        dir \<leftarrow> rd_tab st (unat groupAddr) D_DIR;
        b \<leftarrow> wr8 b 4 (ucast (push_bit 4 (dp_enum dp)) + ucast dir);
        st \<leftarrow> wr_tab st (unat groupAddr) D_SWITCH 1;
        b \<leftarrow> wr8 b 5 (1 + 96);
        Some (Ptr b, st) }
      else Some (Ptr b, st))"

definition Daikin_build ::
  "(nat \<Rightarrow> bool) \<Rightarrow> daikin_cache \<Rightarrow> u8 \<Rightarrow> u16 \<Rightarrow> u16 \<Rightarrow> ty_obj_dp cptr
   \<Rightarrow> (Msg cptr \<times> daikin_cache) exec" where
  "Daikin_build al st devId regAddr groupAddr pObj =
     (case new_msg al 8 of NULL \<Rightarrow> Some (NULL, st)
      | Ptr b \<Rightarrow> do {
          b \<leftarrow> wr8 b 0 devId;
          (r, st) \<leftarrow> (case pObj of
                 NULL \<Rightarrow> do {
                   b \<leftarrow> wr8 b 1 0x4;
                   b \<leftarrow> wr16 b 2 (0x07D0 + 6 * regAddr);
                   b \<leftarrow> wr8 b 4 0x0;
                   b \<leftarrow> wr8 b 5 0x5;
                   Some (Ptr b, st) }
               | Ptr dp \<Rightarrow> do { b \<leftarrow> wr8 b 1 0x6; Daikin_fill st b regAddr groupAddr dp });
          (case r of NULL \<Rightarrow> Some (NULL, st)
           | Ptr b \<Rightarrow> do {
               m \<leftarrow> crc_msg b 6;
               Some (m, st) }) })"

definition Daikin_mode_of :: "u32 \<Rightarrow> u32" where
  "Daikin_mode_of m = (if m = 0 then 4 else if m = 1 then 2 else if m = 2 then 1
     else if m = 7 then 3 else 0)"

definition Daikin_read ::
  "(nat \<Rightarrow> bool) \<Rightarrow> daikin_cache \<Rightarrow> nat \<Rightarrow> bytes \<Rightarrow> nat \<Rightarrow> (MbusObj list cptr \<times> daikin_cache) exec" where
  "Daikin_read al st regAddr pBuf pos =
     (case NewMbusObjs al 7 of NULL \<Rightarrow> Some (NULL, st)
      | Ptr objs \<Rightarrow> do {
          p4 \<leftarrow> rd8 pBuf (pos + 4);
          st \<leftarrow> wr_tab st regAddr D_SWITCH (ucast (p4 AND 1));
          p3 \<leftarrow> rd8 pBuf (pos + 3);
          st \<leftarrow> wr_tab st regAddr D_DIR (ucast (p3 AND 0xF));
          st \<leftarrow> wr_tab st regAddr D_SPEED (ucast (drop_bit 4 p3 AND 0x7));
          p6 \<leftarrow> rd8 pBuf (pos + 6);
          st \<leftarrow> wr_tab st regAddr D_MODE (ucast (p6 AND 0xF));
          p5 \<leftarrow> rd8 pBuf (pos + 5);
          st \<leftarrow> wr_tab st regAddr D_MODE_OUTDOOR (ucast (p5 AND 0x3));
          st \<leftarrow> wr_tab st regAddr D_AUTHORITY (ucast (drop_bit 6 p5 AND 0x3));
          p7 \<leftarrow> rd8 pBuf (pos + 7);
          p8 \<leftarrow> rd8 pBuf (pos + 8);
          st \<leftarrow> wr_tab st regAddr D_TEMP (push_bit 8 (ucast p7) + ucast p8);
          p11 \<leftarrow> rd8 pBuf (pos + 11);
          p12 \<leftarrow> rd8 pBuf (pos + 12);
          st \<leftarrow> wr_tab st regAddr D_ENV_TEMP (push_bit 8 (ucast p11) + ucast p12);
          p10 \<leftarrow> rd8 pBuf (pos + 10);
          st \<leftarrow> wr_tab st regAddr D_ERROR_CODE (ucast p10);
          f2 \<leftarrow> rd8 fault2 (unat (drop_bit 4 p10));
          f1 \<leftarrow> rd8 fault1 (unat (p10 AND 0x0F));
          Some (Ptr [obj ACD_SWITCH (ucast (p4 AND 1)),
            obj ACD_TEMP ((push_bit 8 (ucast p7) + ucast p8) div 10),
            obj ACD_MODE (Daikin_mode_of (ucast (p6 AND 0xF))),
            obj ACD_SPEED (ucast (drop_bit 4 p3 AND 0x7)),
            obj ACD_ENV_TEMP ((push_bit 8 (ucast p11) + ucast p12) div 10),
            obj ACD_ERROR_CODE (push_bit 8 (ucast f2) + ucast f1),
            zero_obj], st) })"

definition Daikin_ack ::
  "(nat \<Rightarrow> bool) \<Rightarrow> daikin_cache \<Rightarrow> bytes \<Rightarrow> nat \<Rightarrow> (MbusObj list cptr \<times> daikin_cache) exec" where
  "Daikin_ack al st pBuf pos = do {
     r \<leftarrow> rd16 pBuf (pos + 2);
     (let reg = unat (r - 0x07D0); air = reg div 3; idx = reg mod 3 in
      case NewMbusObjs al 2 of NULL \<Rightarrow> Some (NULL, st)
      | Ptr objs \<Rightarrow>
        if idx = 0 then do {
          p5 \<leftarrow> rd8 pBuf (pos + 5);
          st \<leftarrow> wr_tab st air D_SWITCH (ucast (p5 AND 0x1));
          p4 \<leftarrow> rd8 pBuf (pos + 4);
          st \<leftarrow> wr_tab st air D_SPEED (ucast (drop_bit 4 p4 AND 0x7));
          Some (Ptr [obj ACD_SWITCH (ucast (p5 AND 0x1)),
                     obj ACD_SPEED (ucast (drop_bit 4 p4 AND 0x7))], st) }
        else if idx = 1 then do {
          p5 \<leftarrow> rd8 pBuf (pos + 5);
          st \<leftarrow> wr_tab st air D_MODE (ucast (p5 AND 0xF));
          p4 \<leftarrow> rd8 pBuf (pos + 4);
          st \<leftarrow> wr_tab st air D_MODE_OUTDOOR (ucast (p4 AND 0x3));
          Some (Ptr [obj ACD_MODE (Daikin_mode_of (ucast (p5 AND 0xF)))], st) }
        else do {
          t \<leftarrow> rd16 pBuf (pos + 4);
          st \<leftarrow> wr_tab st air D_TEMP (ucast t);
          Some (Ptr [obj ACD_TEMP (ucast t div 10)], st) }) }"

definition Daikin_parse ::
  "(nat \<Rightarrow> bool) \<Rightarrow> daikin_cache \<Rightarrow> u8 \<Rightarrow> u16 \<Rightarrow> bytes cptr \<Rightarrow> nat
   \<Rightarrow> (MbusObj list cptr \<times> daikin_cache) exec" where
  "Daikin_parse al st devId regAddr buf len =
     on_match buf len 8 [(devkey devId 0x4, 8), (devkey devId 0x6, 8)] (NULL, st)
       (\<lambda>pBuf pos cmd.
         if cmd = 0x4 then Daikin_read al st (unat regAddr) pBuf pos
         else if cmd = 0x6 then Daikin_ack al st pBuf pos
         else Some (NULL, st))"

subsection \<open>Trane TG-A21MC\<close>

type_synonym tg_cache = "u8 list list"

definition TG_cache0 :: tg_cache where
  "TG_cache0 = replicate 64 (replicate 2 0)"

definition TG_fill :: "bytes \<Rightarrow> u8 \<Rightarrow> u8 \<Rightarrow> ty_obj_dp \<Rightarrow> bytes exec" where
  "TG_fill b c4 c5 dp =
     (if dpid dp = 1 then
        wr8 b 4 ((c4 AND 0x3F) + push_bit 14 (if dp_bool dp > 0 then 2 else 1))
      else if dpid dp = 2 then do {
        v \<leftarrow> c_int (dp_value dp + 15);
        w \<leftarrow> c_int (uint (c5 AND 0xE0) + v);
        wr8 b 5 (word_of_int w) }
      else if dpid dp = 4 then
        (let c = c4 AND 0xC1 in
         if dp_enum dp = 1 then wr8 b 4 (c + push_bit 1 1)
         else if dp_enum dp = 3 then wr8 b 4 (c + push_bit 1 2)
         else if dp_enum dp = 4 then wr8 b 4 (c + push_bit 1 4)
         else if dp_enum dp = 2 then wr8 b 4 (c + push_bit 1 8)
         else if dp_enum dp = 0 then wr8 b 4 (c + push_bit 1 16)
         else wr8 b 4 c)
      else if dpid dp = 5 then do {
        b \<leftarrow> wr8 b 4 (c4 AND 0xFE);
        (let c = c5 AND 0x1F in
         if dp_enum dp = 1 then wr8 b 5 (c + push_bit 5 1)
         else if dp_enum dp = 3 then wr8 b 5 (c + push_bit 5 4)
         else if dp_enum dp = 2 then wr8 b 5 (c + push_bit 5 2)
         else if dp_enum dp = 0 then wr8 b 5 (c + push_bit 5 8)
         else wr8 b 5 c) }
      else Some b)"

definition TG_build ::
  "(nat \<Rightarrow> bool) \<Rightarrow> tg_cache \<Rightarrow> u8 \<Rightarrow> u16 \<Rightarrow> u16 \<Rightarrow> ty_obj_dp cptr \<Rightarrow> built" where
  "TG_build al st devId regAddr groupAddr pObj =
     (case new_msg al 8 of NULL \<Rightarrow> Some NULL
      | Ptr b \<Rightarrow> do {
          b \<leftarrow> wr8 b 0 devId;
          b \<leftarrow> (case pObj of
                 NULL \<Rightarrow> do {
                   b \<leftarrow> wr8 b 1 0x3;
                   b \<leftarrow> wr16 b 2 (0x64 + 2 * regAddr);
                   b \<leftarrow> wr8 b 4 0x0;
                   wr8 b 5 0x1 }
               | Ptr dp \<Rightarrow> do {
                   b \<leftarrow> wr8 b 1 0x6;
                   b \<leftarrow> wr16 b 2 (0x64 + 2 * regAddr);
                   c4 \<leftarrow> rd_tab st (unat groupAddr) 0;
                   b \<leftarrow> wr8 b 4 c4;
                   c5 \<leftarrow> rd_tab st (unat groupAddr) 1;
                   b \<leftarrow> wr8 b 5 c5;
                   TG_fill b c4 c5 dp });
          crc_msg b 6 })"

definition TG_switch_of :: "u8 \<Rightarrow> u32" where
  "TG_switch_of c0 = (let v = ucast (drop_bit 14 c0) in
     if v = 1 then 0 else if v = 2 then 1 else v)"

definition TG_speed_of :: "u8 \<Rightarrow> u8 \<Rightarrow> u32" where
  "TG_speed_of c0 c1 = (let v = push_bit 4 (ucast (c0 AND 1)) + ucast (drop_bit 5 c1) in
     if v = 8 then 0 else if v = 1 then 1 else if v = 2 then 2 else if v = 3 then 4 else v)"

definition TG_mode_of :: "u8 \<Rightarrow> u32" where
  "TG_mode_of c0 = (let v = ucast (drop_bit 1 (c0 AND 0x3E)) in
     if v = 4 then 4 else if v = 8 then 2 else if v = 1 then 1 else if v = 2 then 3
     else if v = 16 then 0 else v)"

definition TG_objs :: "u8 \<Rightarrow> u8 \<Rightarrow> MbusObj list" where
  "TG_objs c0 c1 =
     [obj ACD_SWITCH (TG_switch_of c0), obj ACD_TEMP (ucast (c1 AND 0x1F) - 15),
      obj ACD_MODE (TG_mode_of c0), obj ACD_SPEED (TG_speed_of c0 c1)]"

definition TG_parse ::
  "(nat \<Rightarrow> bool) \<Rightarrow> tg_cache \<Rightarrow> u8 \<Rightarrow> u16 \<Rightarrow> bytes cptr \<Rightarrow> nat
   \<Rightarrow> (MbusObj list cptr \<times> tg_cache) exec" where
  "TG_parse al st devId regAddr buf len =
     on_match buf len 8 [(devkey devId 0x3, 8), (devkey devId 0x6, 8)] (NULL, st)
       (\<lambda>pBuf pos cmd.
         if cmd = 0x3 then
           (case NewMbusObjs al 4 of NULL \<Rightarrow> Some (NULL, st)
            | Ptr objs \<Rightarrow> do {
                p3 \<leftarrow> rd8 pBuf (pos + 3);
                st \<leftarrow> wr_tab st (unat regAddr) 0 p3;
                p4 \<leftarrow> rd8 pBuf (pos + 4);
                st \<leftarrow> wr_tab st (unat regAddr) 1 p4;
                Some (Ptr (TG_objs p3 p4), st) })
         else if cmd = 0x6 then do {
           r \<leftarrow> rd16 pBuf (pos + 2);
           (case NewMbusObjs al 4 of NULL \<Rightarrow> Some (NULL, st)
            | Ptr objs \<Rightarrow> do {
                p4 \<leftarrow> rd8 pBuf (pos + 4);
                p5 \<leftarrow> rd8 pBuf (pos + 5);
                Some (Ptr (TG_objs p4 p5), st) }) }
         else Some (NULL, st))"


subsection \<open>Frames and keys\<close>

lemma ZhongHong_fill_shape:
  assumes "length b = 7"
  obtains b' where "ZhongHong_fill b r dp = Some b'" and "length b' = 7" and "b' ! 0 = b ! 0"
proof -
  from assms obtain b0 b1 b2 b3 b4 b5 b6 where "b = [b0, b1, b2, b3, b4, b5, b6]"
    by (auto simp: length_Suc_conv eval_nat_numeral)
  then have "\<exists>b'. ZhongHong_fill b r dp = Some b' \<and> length b' = 7 \<and> b' ! 0 = b ! 0"
    by (simp add: ZhongHong_fill_def frame_simps)
  with that show thesis by blast
qed

text \<open>
  Every ZhongHong request the plugin builds is a 7-byte frame that starts
  with the gateway address and ends in the sum of its first six bytes; the only other
  outcome is \<open>NULL\<close> when an allocation fails.
\<close>

lemma ZhongHong_build_checked:
  "ZhongHong_build al devId regAddr pObj = Some NULL \<and> \<not> (al 0 \<and> al 1)
   \<or> (\<exists>body. length body = 6 \<and> body ! 0 = devId
        \<and> ZhongHong_build al devId regAddr pObj = ret_msg (body @ [sum_list body]))"
proof (cases "al 0 \<and> al 1")
  case False
  then show ?thesis by (auto simp: ZhongHong_build_def new_msg_def)
next
  case True
  obtain b where b: "length b = 7" "b ! 0 = devId" and
    build: "ZhongHong_build al devId regAddr pObj = do {
      c \<leftarrow> cs b 6; b \<leftarrow> wr8 b 6 c; ret_msg b }"
  proof (cases pObj)
    case NULL
    with True show thesis
      by (intro that [of "[devId, 0x50, 1, 1, ucast (drop_bit 8 regAddr), ucast regAddr, 0]"])
        (simp_all add: ZhongHong_build_def new_msg_def frame_simps)
  next
    case (Ptr dp)
    obtain b' where "ZhongHong_fill [devId, 0, 0, 0, 0, 0, 0] regAddr dp = Some b'"
      and "length b' = 7" and "b' ! 0 = devId"
      using ZhongHong_fill_shape [of "[devId, 0, 0, 0, 0, 0, 0]" regAddr dp] by auto
    with True Ptr show thesis
      by (intro that [of b']) (simp_all add: ZhongHong_build_def new_msg_def frame_simps)
  qed
  have "b[6 := x] = take 6 b @ [x]" for x
    using b by (simp add: list_update_append upd_conv_take_nth_drop)
  then have "ZhongHong_build al devId regAddr pObj = ret_msg (take 6 b @ [sum_list (take 6 b)])"
    using b by (simp add: build cs_Some wr8_Some)
  then show ?thesis
    using b by (intro disjI2 exI [of _ "take 6 b"]) simp
qed

text \<open>
  What the gateway learns when the unit echoes a write, as a function of the request.
  The echo of a fan speed exchanges \<open>low\<close> and \<open>high\<close>: the request maps 1 to 4 and 3 to 1,
  the acknowledgement maps 4 to 3 and 1 to 1.
\<close>

definition ZhongHong_echoed :: "ty_obj_dp \<Rightarrow> MbusObj" where
  "ZhongHong_echoed dp =
     (if dpid dp = 1 then obj ACD_SWITCH (ucast (dp_bool dp))
      else if dpid dp = 2 then obj ACD_TEMP (take_bit 8 (dp_raw dp))
      else if dpid dp = 4 then obj ACD_MODE (dp_enum dp)
      else obj ACD_SPEED
        (if dp_enum dp = 1 then 3 else if dp_enum dp = 3 then 1 else dp_enum dp))"

definition ZhongHong_writable :: "ty_obj_dp \<Rightarrow> bool" where
  "ZhongHong_writable dp \<longleftrightarrow> dpid dp = 1 \<or> dpid dp = 2
     \<or> (dpid dp = 4 \<or> dpid dp = 5) \<and> dp_enum dp \<in> {0, 1, 2, 3}"

text \<open>The object a write acknowledgement with command \<open>c\<close> and value \<open>v\<close> stands for.\<close>

definition ZhongHong_acked :: "u8 \<Rightarrow> u8 \<Rightarrow> MbusObj option" where
  "ZhongHong_acked c v =
     (if c = 0x31 then Some (obj ACD_SWITCH (ucast v))
      else if c = 0x32 then Some (obj ACD_TEMP (ucast v))
      else if c = 0x33 then Some (obj ACD_MODE (ZhongHong_mode v))
      else if c = 0x34 then Some (obj ACD_SPEED (ZhongHong_speed_ack v)) else None)"

lemma ZhongHong_parse_ack:
  assumes "\<forall>k. al k" and "ZhongHong_acked c v = Some x" and "len = 7"
  shows "ZhongHong_parse al d (Ptr [d, c, v, b3, b4, b5, b6]) len = ret_objs [x]"
  using assms
  by (auto simp: ZhongHong_parse_def ZhongHong_acked_def on_match_exact frame_simps
      split: if_splits)

text \<open>
  Round trip of a ZhongHong write: parsing the echo of a built write frame
  yields exactly one object, for the data point of the request, and its value is the
  requested switch, temperature byte or mode; for the speed \<open>auto\<close> and \<open>middle\<close> survive but
  \<open>low\<close> comes back as \<open>high\<close> and \<open>high\<close> as \<open>low\<close>.
\<close>

lemma ZhongHong_echo:
  assumes "\<forall>k. al k" and "ZhongHong_writable dp"
  shows "\<exists>m. ZhongHong_build al devId regAddr (Ptr dp) = Some (Ptr m)
    \<and> ZhongHong_parse al devId (Ptr (msg_pBuf m)) (msg_len m) = ret_objs [ZhongHong_echoed dp]"
proof -
  obtain c v where frame: "ZhongHong_fill [devId, 0, 0, 0, 0, 0, 0] regAddr dp
      = Some [devId, c, v, 1, ucast (drop_bit 8 regAddr), ucast regAddr, 0]"
    and ack: "ZhongHong_acked c v = Some (ZhongHong_echoed dp)"
    using assms(2)
    by (auto simp: ZhongHong_writable_def ZhongHong_fill_def ZhongHong_echoed_def
        ZhongHong_acked_def ZhongHong_mode_def ZhongHong_speed_ack_def frame_simps
        dp_bool_def dp_value_def ucast_low_byte)
  show ?thesis
    using assms(1) frame ack
    by (simp add: ZhongHong_build_def frame_simps ret_msg_def cs_Some ZhongHong_parse_ack)
qed


lemma ZhongHong_echo_example:
  "\<exists>m. ZhongHong_build (\<lambda>_. True) 1 0x0108 (Ptr \<lparr>dpid = 5, dp_type = 3, dp_raw = 1\<rparr>) = Some (Ptr m)
    \<and> ZhongHong_parse (\<lambda>_. True) 1 (Ptr (msg_pBuf m)) (msg_len m) = ret_objs [obj ACD_SPEED 3]"
  using ZhongHong_echo [where al = "\<lambda>_. True" and dp = "\<lparr>dpid = 5, dp_type = 3, dp_raw = 1\<rparr>"
      and devId = 1 and regAddr = "0x0108"]
  by (simp add: ZhongHong_writable_def ZhongHong_echoed_def dp_enum_def)

text \<open>
  The only frames on which the ZhongHong parser reads outside its buffer are
  status frames cut short: for every buffer, a run is undefined only if the status key is
  found at a position with fewer than eleven bytes left. The request the plugin itself
  sends to poll a unit is such a frame, so a unit that echoes the request makes the
  parser read past the end.
\<close>

lemma ZhongHong_parse_faults:
  "(ZhongHong_parse al devId (Ptr pBuf) (length pBuf) = None \<longrightarrow>
     (\<exists>pos. rd16 pBuf pos = Some (devkey devId 0x50) \<and> length pBuf < pos + 11))
   \<and> ZhongHong_parse (\<lambda>_. True) devId
      (Ptr [devId, 0x50, 1, 1, ucast (drop_bit 8 (r :: u16)), ucast r, s]) 7 = None"
proof (intro conjI impI)
  assume fault: "ZhongHong_parse al devId (Ptr pBuf) (length pBuf) = None"
  show "\<exists>pos. rd16 pBuf pos = Some (devkey devId 0x50) \<and> length pBuf < pos + 11"
    by (rule on_match_None [OF fault [unfolded ZhongHong_parse_def]])
      (auto simp: with_objs_def rd8_def devkey_eq_iff split: if_splits cptr.splits)
qed (simp add: ZhongHong_parse_def on_match_exact frame_simps)

lemma ZhongHong_parse_faults_example:
  "\<exists>pos. rd16 [1, 0x50, 1, 1, 0, 5, 0x58] pos = Some (devkey 1 0x50)
     \<and> length [1, 0x50, 1, 1, 0, 5, 0x58 :: u8] < pos + 11"
proof -
  have "length [1, 0x50, 1, 1, 0, 5, 0x58 :: u8] = 7"
    by simp
  then have "ZhongHong_parse (\<lambda>_. True) 1 (Ptr [1, 0x50, 1, 1, 0, 5, 0x58])
      (length [1, 0x50, 1, 1, 0, 5, 0x58 :: u8]) = None"
    using ZhongHong_parse_faults [where devId = 1 and r = 5 and s = "0x58"]
    by (simp only:) simp
  then show ?thesis
    using ZhongHong_parse_faults [where devId = 1 and pBuf = "[1, 0x50, 1, 1, 0, 5, 0x58]"
      and al = "\<lambda>_. True"] by blast
qed

subsection \<open>Daikin and Trane frames\<close>


definition daikin_builder :: "daikin_cache \<Rightarrow> (nat \<Rightarrow> bool) \<Rightarrow> request \<Rightarrow> built" where
  "daikin_builder st al x = (case x of (devId, regAddr, groupAddr, pObj) \<Rightarrow>
     map_option fst (Daikin_build al st devId regAddr groupAddr pObj))"

definition tg_builder :: "tg_cache \<Rightarrow> (nat \<Rightarrow> bool) \<Rightarrow> request \<Rightarrow> built" where
  "tg_builder st al x = (case x of (devId, regAddr, groupAddr, pObj) \<Rightarrow>
     TG_build al st devId regAddr groupAddr pObj)"

interpretation daikin: crc_builder "daikin_builder st"
proof
  fix al x
  show "post (daikin_builder st al x) (\<lambda>r. case r of NULL \<Rightarrow> True | Ptr m \<Rightarrow> framed_msg m)"
    by (cases x; cases "snd (snd (snd x))")
      (auto simp: daikin_builder_def Daikin_build_def Daikin_fill_def Daikin_mode_def
        new_msg_def framed_msg_def post_simps split: cptr.split)
qed

interpretation tg: crc_builder "tg_builder st"
proof
  fix al x
  show "post (tg_builder st al x) (\<lambda>r. case r of NULL \<Rightarrow> True | Ptr m \<Rightarrow> framed_msg m)"
    by (cases x; cases "snd (snd (snd x))")
      (auto simp: tg_builder_def TG_build_def TG_fill_def Let_def
        new_msg_def framed_msg_def post_simps split: cptr.split)
qed

subsection \<open>The Daikin cache\<close>

lemma Daikin_cache0_tab: "is_tab 16 9 Daikin_cache0"
  by (simp add: is_tab_def Daikin_cache0_def list_all_iff)

lemma fault_index: "unat (drop_bit 4 (b :: u8)) < 16" "unat (b AND 0xF) < 16"
proof -
  have "unat (drop_bit 4 b) = unat b div 16"
    by (simp only: unsigned_drop_bit_eq) (simp add: drop_bit_eq_div take_bit_nat_eq_self)
  then show "unat (drop_bit 4 b) < 16"
    using unat_u8_less [of b] by linarith
  have "unat (b AND 0xF) = unat (take_bit 4 b)"
    by (simp add: take_bit_eq_mask mask_eq_exp_minus_1)
  also have "\<dots> = unat b mod 16"
    by (simp only: unsigned_take_bit_eq) (simp add: take_bit_eq_mod)
  finally show "unat (b AND 0xF) < 16" by simp
qed

lemma length_faults [simp]: "length fault2 = 32" "length fault1 = 16"
  by (simp_all add: fault2_def fault1_def)

lemma Daikin_read_safe:
  assumes "is_tab 16 9 st" and "regAddr < 16" and "pos + 13 \<le> length pBuf"
  shows "safe (Daikin_read al st regAddr pBuf pos) (\<lambda>(r, st'). is_tab 16 9 st')"
proof (cases "NewMbusObjs al 7")
  case NULL
  with assms show ?thesis by (simp add: Daikin_read_def safe_def)
next
  case (Ptr objs)
  have "unat (drop_bit 4 b) < length fault2" "unat (b AND 0xF) < length fault1" for b :: u8
    using fault_index [of b] by simp_all
  with assms show ?thesis
    unfolding Daikin_read_def Ptr cptr.case
    by (intro safe_intros) simp_all
qed

lemma Daikin_ack_safe:
  assumes "is_tab 16 9 st" and "pos + 8 \<le> length pBuf"
    and "\<And>reg. rd16 pBuf (pos + 2) = Some reg \<Longrightarrow> unat (reg - 0x07D0) < 48"
  shows "safe (Daikin_ack al st pBuf pos) (\<lambda>(r, st'). is_tab 16 9 st')"
proof (cases "NewMbusObjs al 2")
  case NULL
  with assms show ?thesis by (simp add: Daikin_ack_def safe_def rd16_Some)
next
  case (Ptr objs)
  have "unat (reg - 0x07D0) div 3 < 16" if "rd16 pBuf (pos + 2) = Some reg" for reg
    using assms(3) [OF that] by linarith
  with assms(1,2) show ?thesis
    unfolding Daikin_ack_def Ptr cptr.case Let_def
    by (intro safe_intros) simp_all
qed

text \<open>
  The Daikin parser keeps its cache a table of 16 units with 9 values and never
  leaves a buffer or the cache, provided the polled unit is one of the 16, every
  status reply has its 13 bytes, and every write acknowledgement names a register of one
  of the 16 units.
\<close>

lemma Daikin_parse_safe:
  assumes tab: "is_tab 16 9 st" and reg: "unat regAddr < 16" and len: "len \<le> length pBuf"
    and status: "\<And>pos. rd16 pBuf pos = Some (devkey devId 4) \<Longrightarrow> pos + 13 \<le> length pBuf"
    and ack: "\<And>pos r. rd16 pBuf pos = Some (devkey devId 6) \<Longrightarrow> rd16 pBuf (pos + 2) = Some r
      \<Longrightarrow> unat (r - 0x07D0) < 48"
  shows "\<exists>r st'. Daikin_parse al st devId regAddr (Ptr pBuf) len = Some (r, st') \<and> is_tab 16 9 st'"
proof -
  let ?body = "\<lambda>pBuf pos cmd. if cmd = 0x4 then Daikin_read al st (unat regAddr) pBuf pos
      else if cmd = 0x6 then Daikin_ack al st pBuf pos else Some (NULL, st)"
  have "safe (on_match (Ptr pBuf) len 8 [(devkey devId 4, 8), (devkey devId 6, 8)] (NULL, st) ?body)
    (\<lambda>(r, st'). is_tab 16 9 st')"
  proof (rule on_match_safe [OF len])
    fix pos key m d
    assume key: "(key, m) \<in> set [(devkey devId 4, 8), (devkey devId 6, 8)]" "rd16 pBuf pos = Some key"
      "key = devkey d (pBuf ! (pos + 1))" "pos + m \<le> len"
    then consider "pBuf ! (pos + 1) = 4" "key = devkey devId 4" | "pBuf ! (pos + 1) = 6" "key = devkey devId 6"
      by (auto simp: devkey_eq_iff)
    then show "safe (?body pBuf pos (pBuf ! (pos + 1))) (\<lambda>(r, st'). is_tab 16 9 st')"
    proof cases
      case 1
      with key status [of pos] tab reg show ?thesis by (simp add: Daikin_read_safe)
    next
      case 2
      have "safe (Daikin_ack al st pBuf pos) (\<lambda>(r, st'). is_tab 16 9 st')"
      proof (rule Daikin_ack_safe [OF tab])
        show "pos + 8 \<le> length pBuf" using key(1,4) len by auto
        show "unat (r - 0x07D0) < 48" if "rd16 pBuf (pos + 2) = Some r" for r
          using ack [OF _ that] key(2) 2 by simp
      qed
      with 2 show ?thesis by simp
    qed
  qed (use tab in simp)
  then show ?thesis
    by (auto simp: Daikin_parse_def safe_def)
qed

lemma Daikin_parse_safe_example:
  "\<exists>r st'. Daikin_parse (\<lambda>_. True) Daikin_cache0 1 3
     (Ptr [1, 4, 10, 0x31, 0xa9, 0x42, 2, 0, 0xaa, 0, 0, 1, 14, 0, 0]) 15 = Some (r, st') \<and> is_tab 16 9 st'"
proof (rule Daikin_parse_safe [OF Daikin_cache0_tab])
  fix pos r
  let ?b = "[1, 4, 10, 0x31, 0xa9, 0x42, 2, 0, 0xaa, 0, 0, 1, 14, 0, 0] :: u8 list"
  show "pos + 13 \<le> length ?b" if "rd16 ?b pos = Some (devkey 1 4)"
    using that by (auto simp: rd16_Cons_iff devkey_eq_iff)
  show "unat (r - 0x07D0) < 48" if "rd16 ?b pos = Some (devkey 1 6)"
    using that by (auto simp: rd16_Cons_iff devkey_eq_iff)
qed simp_all

subsection \<open>Daikin mode requests\<close>

lemma daikin_reg:
  assumes "unat (r :: u16) < 16"
  shows "unat (1 + 3 * r) = 1 + 3 * unat r"
  using assms by (simp add: unat_word_ariths)

text \<open>
  A mode request to a Daikin unit is refused exactly when it asks for cooling or
  heating while the unit has no right to choose (\<open>AUTHORITY\<close> is not 2) and the outdoor unit
  is not already in that mode; otherwise the request is sent, and the acknowledgement of the
  unit is parsed as the requested mode, with the cache still well formed.
\<close>

lemma Daikin_mode_roundtrip:
  assumes "is_tab 16 9 st" and "\<forall>k. al k" and "unat regAddr < 16"
    and "dpid dp = 4" and "dp_enum dp \<in> {0, 1, 2, 3, 4}"
  shows "if dp_enum dp = 1 \<and> st ! unat regAddr ! 8 \<noteq> 2 \<and> st ! unat regAddr ! 7 \<noteq> 2
      \<or> dp_enum dp = 2 \<and> st ! unat regAddr ! 8 \<noteq> 2 \<and> st ! unat regAddr ! 7 \<noteq> 1
    then Daikin_build al st devId regAddr groupAddr (Ptr dp) = Some (NULL, st)
    else \<exists>m st'. Daikin_build al st devId regAddr groupAddr (Ptr dp) = Some (Ptr m, st)
      \<and> Daikin_parse al st devId regAddr (Ptr (msg_pBuf m)) (msg_len m)
        = Some (Ptr [obj ACD_MODE (dp_enum dp)], st') \<and> is_tab 16 9 st'"
proof -
  have rd: "rd_tab st (unat regAddr) j = Some (st ! unat regAddr ! j)" if "j < 9" for j
    using assms that by (simp add: rd_tab_ok)
  let ?w = "0x07D0 + 3 * regAddr + 1"
  have ack: "\<exists>st'. Daikin_parse al st devId regAddr
      (Ptr (crc_frame [devId, 6, ucast (drop_bit 8 ?w), ucast ?w, x, y])) 8
      = Some (Ptr [obj ACD_MODE (Daikin_mode_of (ucast (y AND 0xF)))], st') \<and> is_tab 16 9 st'" for x y
    using assms(1-3)
    by (simp add: Daikin_parse_def on_match_exact frame_simps crc_frame_def Daikin_ack_def Let_def
        daikin_reg wr_tab_ok [where r = 16 and c = 9] is_tab_update)
      (simp add: is_tab_def list_all_length nth_list_update)
  show ?thesis
    using assms(2,4,5) ack [of _ 0] ack [of _ 1] ack [of _ 2] ack [of _ 3] ack [of _ 7]
    by (auto simp: Daikin_build_def Daikin_fill_def Daikin_mode_def frame_simps rd crc_msg_Some
        Daikin_mode_of_def)
qed

lemma Daikin_mode_roundtrip_example:
  "Daikin_build (\<lambda>_. True) Daikin_cache0 1 3 3 (Ptr \<lparr>dpid = 4, dp_type = 3, dp_raw = 1\<rparr>)
    = Some (NULL, Daikin_cache0)"
proof -
  have "Daikin_cache0 ! 3 ! 8 = 0" "Daikin_cache0 ! 3 ! 7 = 0"
    by (simp_all add: Daikin_cache0_def)
  then show ?thesis
    using Daikin_mode_roundtrip [OF Daikin_cache0_tab, where al = "\<lambda>_. True" and regAddr = 3
        and dp = "\<lparr>dpid = 4, dp_type = 3, dp_raw = 1\<rparr>" and devId = 1 and groupAddr = 3]
    by (simp add: dp_enum_def)
qed

subsection \<open>Trane mode and switch requests\<close>

lemma tg_field:
  fixes c k :: u8
  assumes "k AND 0xC1 = 0"
  shows "((c AND 0xC1) + k) AND 0x3E = k AND 0x3E"
proof -
  have disj: "bit (c AND 0xC1) n \<Longrightarrow> \<not> bit k n" for n
    using arg_cong [OF assms, of "\<lambda>w. bit w n"] by (simp add: bit_and_iff)
  then have "(c AND 0xC1) + k = (c AND 0xC1) OR k"
    by (intro disjunctive_add) blast
  moreover have "(c AND 0xC1) AND 0x3E = c AND (0xC1 AND 0x3E)"
    by (simp only: and.assoc)
  ultimately show ?thesis
    by (simp add: bit.conj_disj_distrib2)
qed

lemma TG_mode_of_set:
  "TG_mode_of ((c AND 0xC1) + 2) = 1" "TG_mode_of ((c AND 0xC1) + 4) = 3"
  "TG_mode_of ((c AND 0xC1) + 8) = 4" "TG_mode_of ((c AND 0xC1) + 16) = 2"
  "TG_mode_of ((c AND 0xC1) + 32) = 0"
  by (simp_all add: TG_mode_of_def tg_field)

lemma TG_parse_ack:
  assumes "\<forall>k. al k" and "len = 8"
  shows "TG_parse al st d r (Ptr (crc_frame [d, 6, r1, r0, c0, c1])) len = Some (Ptr (TG_objs c0 c1), st)"
  using assms by (simp add: TG_parse_def on_match_exact frame_simps crc_frame_def)

text \<open>
  A mode request to a Trane unit survives the round trip: the acknowledged frame
  is parsed with the requested mode as its third object and leaves the cache alone. The
  switch does not: the two values of a switch request produce the same frame, because
  the switch field is shifted by 14 in a byte, and every parsed frame reports the unit as
  off.
\<close>

lemma TG_mode_kept_switch_lost:
  assumes "is_tab 64 2 st" and "\<forall>k. al k" and "unat groupAddr < 64"
  shows "(dpid dp = 4 \<and> dp_enum dp \<in> {0, 1, 2, 3, 4} \<longrightarrow>
      (\<exists>m os. TG_build al st devId regAddr groupAddr (Ptr dp) = Some (Ptr m)
        \<and> TG_parse al st devId regAddr (Ptr (msg_pBuf m)) (msg_len m) = Some (Ptr os, st)
        \<and> os ! 2 = obj ACD_MODE (dp_enum dp) \<and> os ! 0 = obj ACD_SWITCH 0))
    \<and> (dpid dp = 1 \<and> dpid dp' = 1 \<longrightarrow>
      TG_build al st devId regAddr groupAddr (Ptr dp) = TG_build al st devId regAddr groupAddr (Ptr dp'))"
proof -
  have rd: "rd_tab st (unat groupAddr) j = Some (st ! unat groupAddr ! j)" if "j < 2" for j
    using assms that by (simp add: rd_tab_ok)
  have sw: "TG_switch_of c = 0" for c
    by (simp add: TG_switch_of_def)
  show ?thesis
    using assms(2)
    by (auto simp: TG_build_def TG_fill_def frame_simps rd crc_msg_Some Let_def TG_parse_ack
        TG_objs_def TG_mode_of_set sw)
qed

lemma TG_mode_kept_switch_lost_example:
  "TG_build (\<lambda>_. True) TG_cache0 1 5 5 (Ptr \<lparr>dpid = 1, dp_type = 0, dp_raw = 1\<rparr>)
   = TG_build (\<lambda>_. True) TG_cache0 1 5 5 (Ptr \<lparr>dpid = 1, dp_type = 0, dp_raw = 0\<rparr>)"
proof -
  have "is_tab 64 2 TG_cache0"
    by (simp add: is_tab_def TG_cache0_def list_all_iff)
  then show ?thesis
    using TG_mode_kept_switch_lost [where st = TG_cache0 and al = "\<lambda>_. True" and groupAddr = 5
        and dp = "\<lparr>dpid = 1, dp_type = 0, dp_raw = 1\<rparr>" and dp' = "\<lparr>dpid = 1, dp_type = 0, dp_raw = 0\<rparr>"
        and devId = 1 and regAddr = 5]
    by simp
qed

end
