(* ===== verification/Mbus_Curtain.thy ===== *)
theory Mbus_Curtain
  imports Plugin_Api
begin

text \<open>
  Curtain plugins: \<open>plugin/compile/Mbus_Curtain_AOK.c\<close>, \<open>Mbus_Curtain_Changming.c\<close>,
  \<open>Mbus_Curtain_HeChuang.c\<close>, \<open>Mbus_Curtain_Dooya.c\<close> and \<open>Mbus_Curtain_BinThen.c\<close>. The first
  four implement \<open>buildExt\<close> / \<open>parseExt\<close> with a 16-bit device address. \<open>Changming\<close> and
  \<open>HeChuang\<close> are the same code with a different frame header, which is a parameter here.
  \<open>BinThen\<close> packs a C structure into 22 bytes; its unpacking starts from an uninitialised
  structure, an explicit argument of the model.
\<close>

subsection \<open>AOK\<close>

definition AOK_build :: "(nat \<Rightarrow> bool) \<Rightarrow> u16 \<Rightarrow> ty_obj_dp cptr \<Rightarrow> built" where
  "AOK_build al devId pObj =
     (case new_msg al 7 of NULL \<Rightarrow> Some NULL
      | Ptr b \<Rightarrow> do {
          b \<leftarrow> wr8 b 0 0x9A;
          b \<leftarrow> wr8 b 1 (ucast devId);
          b \<leftarrow> wr8 b 2 0x80;
          b \<leftarrow> wr8 b 3 0x00;
          b \<leftarrow> (case pObj of
                 NULL \<Rightarrow> do {
                   b \<leftarrow> wr8 b 4 0xCC;
                   wr8 b 5 0x00 }
               | Ptr dp \<Rightarrow>
                   if dpid dp = 1 then do {
                     b \<leftarrow> wr8 b 4 0x0A;
                     if dp_value dp = 0 then wr8 b 5 0xDD
                     else if dp_value dp = 1 then wr8 b 5 0xCC
                     else if dp_value dp = 2 then wr8 b 5 0xEE
                     else Some b }
                   else if dpid dp = 2 then do {
                     b \<leftarrow> wr8 b 4 0x0A;
                     wr8 b 5 0x02 }
                   else Some b);
          c \<leftarrow> BCC8 (drop 1 b) 5;
          b \<leftarrow> wr8 b 6 c;
          ret_msg b })"

definition AOK_parse :: "(nat \<Rightarrow> bool) \<Rightarrow> u16 \<Rightarrow> bytes cptr \<Rightarrow> nat \<Rightarrow> parsed" where
  "AOK_parse al devId buf len =
     on_match buf len 10 [(0xD800 + devId, 9)] NULL
       (\<lambda>pBuf pos c. with_objs al 1 (do {
          p6 \<leftarrow> rd8 pBuf (pos + 6);
          ret_objs [obj CURTAIN_SWITCH (if p6 = 0 then 0 else if p6 = 100 then 2 else 0)] }))"

subsection \<open>Changming and HeChuang\<close>

text \<open>
  The buffer always has 8 bytes; a control request sets the length to 7 and puts the CRC
  two bytes before that length.
\<close>

definition CM_build :: "u8 \<Rightarrow> (nat \<Rightarrow> bool) \<Rightarrow> u16 \<Rightarrow> ty_obj_dp cptr \<Rightarrow> built" where
  "CM_build hdr al devId pObj =
     (case new_msg al 8 of NULL \<Rightarrow> Some NULL
      | Ptr b \<Rightarrow> do {
          b \<leftarrow> wr8 b 0 hdr;
          b \<leftarrow> wr8 b 1 (ucast devId);
          b \<leftarrow> wr8 b 2 (ucast devId);
          (b, len) \<leftarrow> (case pObj of
                 NULL \<Rightarrow> do {
                   b \<leftarrow> wr8 b 3 0x1;
                   b \<leftarrow> wr8 b 4 0x2;
                   b \<leftarrow> wr8 b 5 0x1;
                   Some (b, 8) }
               | Ptr dp \<Rightarrow>
                   if dpid dp = 1 then do {
                     b \<leftarrow> wr8 b 3 0x3;
                     b \<leftarrow> (if dp_value dp = 0 then wr8 b 4 1
                          else if dp_value dp = 1 then wr8 b 4 3
                          else if dp_value dp = 2 then wr8 b 4 2
                          else Some b);
                     Some (b, 7) }
                   else if dpid dp = 101 then do {
                     b \<leftarrow> wr8 b 3 0x1;
                     b \<leftarrow> wr8 b 4 0x3;
                     b \<leftarrow> wr8 b 5 0x1;
                     Some (b, 8) }
                   else Some (b, 8));
          b \<leftarrow> append_crc b (len - 2);
          Some (Ptr \<lparr>msg_pBuf = b, msg_len = len\<rparr>) })"

definition CM_parse :: "(nat \<Rightarrow> bool) \<Rightarrow> u16 \<Rightarrow> bytes cptr \<Rightarrow> nat \<Rightarrow> parsed" where
  "CM_parse al devId buf len =
     on_match buf len 7 [(push_bit 8 devId OR devId, 6)] NULL
       (\<lambda>pBuf pos c. with_objs al 2 (do {
          p2 \<leftarrow> rd8 pBuf (pos + 2);
          if p2 = 1 then do {
            p4 \<leftarrow> rd8 pBuf (pos + 4);
            ret_objs [obj CURTAIN_SWITCH (if p4 = 0 then 2 else if p4 = 100 then 0 else 0)] }
          else if p2 = 3 then do {
            p3 \<leftarrow> rd8 pBuf (pos + 3);
            ret_objs [obj CURTAIN_SWITCH
              (if p3 = 1 then 0 else if p3 = 2 then 2 else if p3 = 3 then 1 else ucast p3)] }
          else ret_objs [zero_obj] }))"

definition Changming_buildExt :: "(nat \<Rightarrow> bool) \<Rightarrow> u16 \<Rightarrow> ty_obj_dp cptr \<Rightarrow> built" where
  "Changming_buildExt = CM_build 0xAA"

definition HeChuang_buildExt :: "(nat \<Rightarrow> bool) \<Rightarrow> u16 \<Rightarrow> ty_obj_dp cptr \<Rightarrow> built" where
  "HeChuang_buildExt = CM_build 0x55"

definition Changming_parseExt :: "(nat \<Rightarrow> bool) \<Rightarrow> u16 \<Rightarrow> bytes cptr \<Rightarrow> nat \<Rightarrow> parsed" where
  "Changming_parseExt = CM_parse"

definition HeChuang_parseExt :: "(nat \<Rightarrow> bool) \<Rightarrow> u16 \<Rightarrow> bytes cptr \<Rightarrow> nat \<Rightarrow> parsed" where
  "HeChuang_parseExt = CM_parse"

subsection \<open>Dooya\<close>

definition Dooya_buildExt :: "(nat \<Rightarrow> bool) \<Rightarrow> u16 \<Rightarrow> ty_obj_dp cptr \<Rightarrow> built" where
  "Dooya_buildExt al devId pObj =
     (case pObj of
        NULL \<Rightarrow>
          (case new_msg al 8 of NULL \<Rightarrow> Some NULL
           | Ptr b \<Rightarrow> do {
               b \<leftarrow> wr8 b 0 0x55;
               b \<leftarrow> wr16 b 1 devId;
               b \<leftarrow> wr8 b 3 0x1;
               b \<leftarrow> wr8 b 4 0x5;
               b \<leftarrow> wr8 b 5 0x1;
               crc_msg b 6 })
      | Ptr dp \<Rightarrow>
          (case new_msg al 7 of NULL \<Rightarrow> Some NULL
           | Ptr b \<Rightarrow> do {
               b \<leftarrow> wr8 b 0 0x55;
               b \<leftarrow> wr16 b 1 devId;
               b \<leftarrow> wr8 b 3 0x3;
               b \<leftarrow> (if dpid dp = 1 then
                      (if dp_value dp = 0 then wr8 b 4 1
                       else if dp_value dp = 1 then wr8 b 4 3
                       else if dp_value dp = 2 then wr8 b 4 2
                       else Some b)
                    else Some b);
               crc_msg b 5 }))"

definition Dooya_parseExt :: "(nat \<Rightarrow> bool) \<Rightarrow> u16 \<Rightarrow> bytes cptr \<Rightarrow> nat \<Rightarrow> parsed" where
  "Dooya_parseExt al devId buf len =
     on_match buf len 7 [(devId, 7)] NULL
       (\<lambda>pBuf pos c. with_objs al 2 (do {
          p2 \<leftarrow> rd8 pBuf (pos + 2);
          if p2 = 1 then do {
            p4 \<leftarrow> rd8 pBuf (pos + 4);
            ret_objs [obj CURTAIN_SWITCH (ucast p4)] }
          else if p2 = 3 then do {
            p3 \<leftarrow> rd8 pBuf (pos + 3);
            ret_objs [obj CURTAIN_SWITCH (ucast p3)] }
          else ret_objs [zero_obj] }))"

subsection \<open>BinThen\<close>

record BinThen_UARTPackage =
  bt_header :: u32
  bt_crc :: u16
  bt_cmdType :: u16
  bt_dataLength :: u16
  bt_protocolVersion :: u16
  bt_deviceType :: u8
  bt_action :: u8
  bt_locationPercentage :: u8
  bt_SN :: bytes
  bt_undefined :: bytes

text \<open>The loops that store the bytes of a word, low byte first, and the bytes of an array.\<close>

fun put_le :: "bytes \<Rightarrow> nat \<Rightarrow> nat \<Rightarrow> 'a :: len word \<Rightarrow> bytes exec" where
  "put_le b at 0 w = Some b"
| "put_le b at (Suc n) w = do {
     b \<leftarrow> wr8 b at (ucast w);
     put_le b (Suc at) n (drop_bit 8 w) }"

fun put_bytes :: "bytes \<Rightarrow> nat \<Rightarrow> bytes \<Rightarrow> bytes exec" where
  "put_bytes b at [] = Some b"
| "put_bytes b at (x # xs) = do {
     b \<leftarrow> wr8 b at x;
     put_bytes b (Suc at) xs }"

definition generatePackage :: "(nat \<Rightarrow> bool) \<Rightarrow> BinThen_UARTPackage \<Rightarrow> built" where
  "generatePackage al p =
     (case new_msg al 22 of NULL \<Rightarrow> Some NULL
      | Ptr b \<Rightarrow> do {
          b \<leftarrow> put_le b 0 4 (bt_header p);
          b \<leftarrow> put_le b 4 2 (bt_crc p);
          b \<leftarrow> put_le b 6 2 (bt_cmdType p);
          b \<leftarrow> put_le b 8 2 (bt_dataLength p);
          b \<leftarrow> put_le b 10 2 (bt_protocolVersion p);
          b \<leftarrow> wr8 b 12 (bt_deviceType p);
          b \<leftarrow> wr8 b 13 (bt_action p);
          b \<leftarrow> wr8 b 14 (bt_locationPercentage p);
          b \<leftarrow> put_bytes b 15 (bt_SN p);
          b \<leftarrow> put_bytes b 18 (bt_undefined p);
          (let crc = foldl (\<lambda>c x. c + ucast x) (bt_crc p) b + 0x2017 in do {
            b \<leftarrow> put_le b 4 2 crc;
            ret_msg b }) })"

definition BinThen_UART_PackageFactory :: "(nat \<Rightarrow> bool) \<Rightarrow> u16 \<Rightarrow> u8 \<Rightarrow> u8 \<Rightarrow> built" where
  "BinThen_UART_PackageFactory al cmdType act SN3 =
     generatePackage al
       \<lparr>bt_header = 0x55AAAA55, bt_crc = 0, bt_cmdType = cmdType, bt_dataLength = 0x000A,
        bt_protocolVersion = 0, bt_deviceType = 0x01, bt_action = act, bt_locationPercentage = 0,
        bt_SN = [0x01, 0x01, SN3], bt_undefined = [0, 0, 0, 0]\<rparr>"

definition BinThen_control :: "(nat \<Rightarrow> bool) \<Rightarrow> u8 \<Rightarrow> ty_obj_dp cptr \<Rightarrow> built" where
  "BinThen_control al modbusId pCloudObj =
     (case pCloudObj of
        NULL \<Rightarrow> BinThen_UART_PackageFactory al 0x0A01 0x01 modbusId
      | Ptr dp \<Rightarrow>
          (let act = (if dp_enum dp = 0 then 0x01 else if dp_enum dp = 1 then 0x02
                      else if dp_enum dp = 2 then 0x00 else 0) in
           BinThen_UART_PackageFactory al 0x0A02 act modbusId))"

definition or_le16 :: "u16 \<Rightarrow> bytes \<Rightarrow> nat \<Rightarrow> u16 exec" where
  "or_le16 w b i = do {
     l \<leftarrow> rd8 b i;
     h \<leftarrow> rd8 b (Suc i);
     Some (w OR ucast l OR push_bit 8 (ucast h)) }"

definition or_le32 :: "u32 \<Rightarrow> bytes \<Rightarrow> nat \<Rightarrow> u32 exec" where
  "or_le32 w b i = do {
     b0 \<leftarrow> rd8 b i;
     b1 \<leftarrow> rd8 b (i + 1);
     b2 \<leftarrow> rd8 b (i + 2);
     b3 \<leftarrow> rd8 b (i + 3);
     Some (w OR ucast b0 OR push_bit 8 (ucast b1) OR push_bit 16 (ucast b2) OR push_bit 24 (ucast b3)) }"

fun get_bytes :: "bytes \<Rightarrow> nat \<Rightarrow> nat \<Rightarrow> bytes exec" where
  "get_bytes b i 0 = Some []"
| "get_bytes b i (Suc n) = do {
     x \<leftarrow> rd8 b i;
     xs \<leftarrow> get_bytes b (Suc i) n;
     Some (x # xs) }"

definition BinThen_UnpackPackage :: "BinThen_UARTPackage \<Rightarrow> bytes \<Rightarrow> BinThen_UARTPackage exec" where
  "BinThen_UnpackPackage res pBuf = do {
     header \<leftarrow> or_le32 (bt_header res) pBuf 0;
     crc \<leftarrow> or_le16 (bt_crc res) pBuf 4;
     cmdType \<leftarrow> or_le16 (bt_cmdType res) pBuf 6;
     dataLength \<leftarrow> or_le16 (bt_dataLength res) pBuf 8;
     protocolVersion \<leftarrow> or_le16 (bt_protocolVersion res) pBuf 10;
     deviceType \<leftarrow> rd8 pBuf 12;
     act \<leftarrow> rd8 pBuf 13;
     loc \<leftarrow> rd8 pBuf 14;
     SN \<leftarrow> get_bytes pBuf 15 3;
     undef \<leftarrow> get_bytes pBuf 18 4;
     Some \<lparr>bt_header = header, bt_crc = crc, bt_cmdType = cmdType, bt_dataLength = dataLength,
       bt_protocolVersion = protocolVersion, bt_deviceType = deviceType, bt_action = act,
       bt_locationPercentage = loc, bt_SN = SN, bt_undefined = undef\<rparr> }"

definition BinThen_report ::
  "(nat \<Rightarrow> bool) \<Rightarrow> BinThen_UARTPackage \<Rightarrow> bytes cptr \<Rightarrow> nat \<Rightarrow> parsed" where
  "BinThen_report al garbage buf len =
     (case buf of NULL \<Rightarrow> Some NULL
      | Ptr pBuf \<Rightarrow>
        if len < 22 then Some NULL
        else do {
          res \<leftarrow> BinThen_UnpackPackage garbage pBuf;
          with_objs al 2
            (if bt_action res = 0x01 then ret_objs [(obj CURTAIN_SWITCH 0)\<lparr>mo_rcvValue := 0\<rparr>]
             else if bt_action res = 0x02 then ret_objs [(obj CURTAIN_SWITCH 1)\<lparr>mo_rcvValue := 1\<rparr>]
             else if bt_action res = 0x00 then ret_objs [(obj CURTAIN_SWITCH 2)\<lparr>mo_rcvValue := 2\<rparr>]
             else Some NULL) })"


subsection \<open>The builders meet the CRC contract\<close>

definition cm_builder :: "u8 \<Rightarrow> (nat \<Rightarrow> bool) \<Rightarrow> request16 \<Rightarrow> built" where
  "cm_builder hdr al x = (case x of (devId, regAddr, groupAddr, pObj) \<Rightarrow> CM_build hdr al devId pObj)"

definition dooya_builder :: "(nat \<Rightarrow> bool) \<Rightarrow> request16 \<Rightarrow> built" where
  "dooya_builder al x = (case x of (devId, regAddr, groupAddr, pObj) \<Rightarrow> Dooya_buildExt al devId pObj)"

text \<open>The CRC of a 7-byte frame in the 8-byte buffer.\<close>

lemma append_crc_7of8:
  "append_crc [a, b, c, d, e, f, g, h] 5 = Some (crc_frame [a, b, c, d, e] @ [h])"
  using crc16_Some [of 5 "[a, b, c, d, e, f, g, h]"]
  by (simp add: append_crc_def frame_simps crc_frame_def crc_bytes_def)

lemma append_crc_8:
  "append_crc [a, b, c, d, e, f, g, h] 6 = Some (crc_frame [a, b, c, d, e, f])"
  using append_crc_Some [of "[a, b, c, d, e, f, g, h]" 6] by (simp add: crc_frame_def crc_bytes_def)

lemma framed_7of8 [simp]:
  "framed_msg \<lparr>msg_pBuf = crc_frame [a, b, c, d, e] @ [h], msg_len = 7\<rparr>"
  "sent \<lparr>msg_pBuf = crc_frame [a, b, c, d, e] @ [h], msg_len = 7\<rparr> = crc_frame [a, b, c, d, e]"
  by (simp_all add: framed_msg_def sent_def)

interpretation cm: total_crc_builder "cm_builder hdr"
proof
  fix al x
  show "post (cm_builder hdr al x) (\<lambda>r. case r of NULL \<Rightarrow> True | Ptr m \<Rightarrow> framed_msg m)"
    and "\<exists>r. cm_builder hdr al x = Some r"
    by (cases x; cases "snd (snd (snd x))";
      simp add: cm_builder_def CM_build_def new_msg_def frame_simps append_crc_7of8 append_crc_8
        post_Some; simp add: framed_msg_def)+
qed

interpretation dooya: total_crc_builder dooya_builder
proof
  fix al x
  show "post (dooya_builder al x) (\<lambda>r. case r of NULL \<Rightarrow> True | Ptr m \<Rightarrow> framed_msg m)"
    and "\<exists>r. dooya_builder al x = Some r"
    by (cases x; cases "snd (snd (snd x))";
      simp add: dooya_builder_def Dooya_buildExt_def new_msg_def frame_simps crc_msg_Some
        post_Some framed_msg_def)+
qed

text \<open>
  Every AOK request is the frame \<open>9A id 80 00 x y bcc\<close> whose last byte is the
  exclusive or of the five bytes before it without the header; the only other outcome is
  \<open>NULL\<close> when an allocation fails.
\<close>

lemma AOK_build_checked:
  "AOK_build al devId pObj = Some NULL \<and> \<not> (al 0 \<and> al 1)
   \<or> (\<exists>x y. AOK_build al devId pObj
        = ret_msg [0x9A, ucast devId, 0x80, 0, x, y, ucast devId XOR 0x80 XOR x XOR y])"
  by (cases pObj) (simp_all add: AOK_build_def new_msg_def frame_simps BCC8_Some ret_msg_def xor.assoc)

subsection \<open>Acknowledgements\<close>

lemma key_id_id:
  "unat (d :: u16) < 256 \<Longrightarrow> push_bit 8 d OR d = devkey (ucast d) (ucast d)"
proof -
  assume "unat d < 256"
  then have "unat (ucast (ucast d :: u8) :: u16) = unat d"
    by (simp add: unsigned_ucast_eq unsigned_take_bit_eq take_bit_nat_eq_self)
  then have d: "(ucast (ucast d :: u8) :: u16) = d"
    by (simp only: word_unat_eq_iff)
  show ?thesis
    by (simp add: d flip: rd16_key)
qed

lemma CM_parse_ack:
  fixes id :: u16
  assumes "\<forall>k. al k" and "unat id < 256"
  shows "ucast id \<noteq> hdr \<Longrightarrow> CM_parse al id (Ptr (crc_frame [hdr, ucast id, ucast id, 3, c])) 7
      = ret_objs [obj CURTAIN_SWITCH
          (if c = 1 then 0 else if c = 2 then 2 else if c = 3 then 1 else ucast c)]"
    and "ucast id = hdr \<Longrightarrow> hdr \<noteq> 1 \<Longrightarrow> hdr \<noteq> 3 \<Longrightarrow>
      CM_parse al id (Ptr (crc_frame [hdr, ucast id, ucast id, 3, c])) 7 = ret_objs [zero_obj]"
proof -
  let ?f = "crc_frame [hdr, ucast id, ucast id, 3, c]"
  have r0: "rd16 ?f 0 = Some (devkey hdr (ucast id))" and r1: "rd16 ?f 1 = Some (devkey (ucast id) (ucast id))"
    by (simp_all add: rd8_crc_frame frame_simps)
  show "CM_parse al id (Ptr ?f) 7 = ret_objs [obj CURTAIN_SWITCH
      (if c = 1 then 0 else if c = 2 then 2 else if c = 3 then 1 else ucast c)]"
    if "ucast id \<noteq> hdr"
    unfolding CM_parse_def key_id_id [OF assms(2)]
    by (subst on_match_at [where p = 1 and n = 7])
      (use that assms r0 r1 in \<open>auto simp: devkey_eq_iff rd8_crc_frame frame_simps\<close>)
  show "CM_parse al id (Ptr ?f) 7 = ret_objs [zero_obj]" if "ucast id = hdr" "hdr \<noteq> 1" "hdr \<noteq> 3"
    unfolding CM_parse_def key_id_id [OF assms(2)]
    by (subst on_match_at [where p = 0 and n = 7])
      (use that assms r0 in \<open>auto simp: rd8_crc_frame frame_simps\<close>)
qed

text \<open>
  Changming and HeChuang curtains with an 8-bit address: the acknowledged frame
  of an open, stop or close request is parsed as that request, except for the one address
  that equals the frame header (0xAA or 0x55), for which the search for the repeated
  address stops at the header and the parser reports an object of no data point.
\<close>

lemma curtain_ack:
  assumes "\<forall>k. al k" and "unat devId < 256" and "dpid dp = 1" and "dp_value dp \<in> {0, 1, 2}"
  shows "(\<exists>m. Changming_buildExt al devId (Ptr dp) = Some (Ptr m) \<and>
      Changming_parseExt al devId (Ptr (sent m)) (msg_len m)
        = ret_objs [if devId = 0xAA then zero_obj else obj CURTAIN_SWITCH (dp_enum dp)])
    \<and> (\<exists>m. HeChuang_buildExt al devId (Ptr dp) = Some (Ptr m) \<and>
      HeChuang_parseExt al devId (Ptr (sent m)) (msg_len m)
        = ret_objs [if devId = 0x55 then zero_obj else obj CURTAIN_SWITCH (dp_enum dp)])"
proof -
  have id: "ucast devId = (0xAA :: u8) \<longleftrightarrow> devId = 0xAA" "ucast devId = (0x55 :: u8) \<longleftrightarrow> devId = 0x55"
    using assms(2) by (simp_all add: word_unat_eq_iff unsigned_ucast_eq take_bit_nat_eq_self)
  have val: "dp_value dp = 0 \<longleftrightarrow> dp_enum dp = 0" "dp_value dp = 1 \<longleftrightarrow> dp_enum dp = 1"
    "dp_value dp = 2 \<longleftrightarrow> dp_enum dp = 2"
    by (simp_all add: dp_value_def dp_enum_def sint_u32_eq_iff)
  define c :: u8 where "c = (if dp_value dp = 0 then 1 else if dp_value dp = 1 then 3 else 2)"
  have c: "(if c = 1 then 0 else if c = 2 then 2 else if c = 3 then 1 else ucast c) = dp_enum dp"
    using assms(4) val by (auto simp: c_def)
  have build: "CM_build hdr al devId (Ptr dp) = Some (Ptr \<lparr>msg_pBuf =
      crc_frame [hdr, ucast devId, ucast devId, 3, c] @ [0], msg_len = 7\<rparr>)" for hdr
    using assms(1,3,4) by (auto simp: CM_build_def frame_simps append_crc_7of8 c_def)
  have "CM_parse al devId (Ptr (crc_frame [hdr, ucast devId, ucast devId, 3, c])) 7
      = ret_objs [if ucast devId = hdr then zero_obj else obj CURTAIN_SWITCH (dp_enum dp)]"
    if "hdr = 0xAA \<or> hdr = 0x55" for hdr
    using CM_parse_ack [OF assms(1,2), of hdr c] c that by auto
  from this [of "0xAA"] this [of "0x55"] show ?thesis
    by (simp add: Changming_buildExt_def HeChuang_buildExt_def Changming_parseExt_def
        HeChuang_parseExt_def build id)
qed

lemma curtain_ack_example:
  "\<exists>m. Changming_buildExt (\<lambda>_. True) 5 (Ptr \<lparr>dpid = 1, dp_type = 3, dp_raw = 2\<rparr>) = Some (Ptr m) \<and>
      Changming_parseExt (\<lambda>_. True) 5 (Ptr (sent m)) (msg_len m) = ret_objs [obj CURTAIN_SWITCH 2]"
  using curtain_ack [where al = "\<lambda>_. True" and devId = 5 and dp = "\<lparr>dpid = 1, dp_type = 3, dp_raw = 2\<rparr>"]
  by (simp add: dp_value_def dp_enum_def)

text \<open>
  The Dooya parser demands seven bytes after the device address, one more than
  the seven-byte frame has there, so the acknowledgement of every control request is
  rejected, for all addresses but 0x5555.
\<close>

lemma Dooya_ack_rejected:
  assumes "\<forall>k. al k" and "devId \<noteq> 0x5555"
  shows "\<exists>m. Dooya_buildExt al devId (Ptr dp) = Some (Ptr m)
    \<and> Dooya_parseExt al devId (Ptr (sent m)) (msg_len m) = Some NULL"
proof -
  have "Dooya_parseExt al devId
      (Ptr (crc_frame [0x55, ucast (drop_bit 8 devId), ucast devId, 3, c])) 7 = Some NULL" for c
    unfolding Dooya_parseExt_def
  proof (rule on_match_nowhere [where n = 7])
    fix j :: nat
    assume "j + 7 \<le> 7"
    then have "j = 0" by simp
    moreover have "devkey 0x55 (ucast (drop_bit 8 devId)) \<noteq> devId"
    proof
      assume "devkey 0x55 (ucast (drop_bit 8 devId)) = devId"
      then have "devId = devkey 0x55 0x55"
        by (metis devkey_eq_split)
      with assms(2) show False by (simp add: devkey_def)
    qed
    ultimately show "rd16 (crc_frame [0x55, ucast (drop_bit 8 devId), ucast devId, 3, c]) j \<noteq> Some devId"
      by (simp add: rd8_crc_frame frame_simps)
  qed simp_all
  with assms(1) show ?thesis
    by (simp add: Dooya_buildExt_def frame_simps crc_msg_Some)
qed

lemma Dooya_ack_rejected_example:
  "\<exists>m. Dooya_buildExt (\<lambda>_. True) 0x0102 (Ptr \<lparr>dpid = 1, dp_type = 3, dp_raw = 0\<rparr>) = Some (Ptr m)
    \<and> Dooya_parseExt (\<lambda>_. True) 0x0102 (Ptr (sent m)) (msg_len m) = Some NULL"
  by (rule Dooya_ack_rejected) simp_all

subsection \<open>BinThen packages\<close>

lemma put_get_numeral [frame_simps]:
  "put_le b i (numeral k) w = do { b \<leftarrow> wr8 b i (ucast w); put_le b (Suc i) (pred_numeral k) (drop_bit 8 w) }"
  "get_bytes b i (numeral k) = do { x \<leftarrow> rd8 b i; xs \<leftarrow> get_bytes b (Suc i) (pred_numeral k); Some (x # xs) }"
  by (simp_all add: numeral_eq_Suc)

definition BinThen_payload :: "u16 \<Rightarrow> u8 \<Rightarrow> u8 \<Rightarrow> bytes" where
  "BinThen_payload cmd act sn =
     [ucast cmd, ucast (drop_bit 8 cmd), 0x0A, 0, 0, 0, 1, act, 0, 1, 1, sn, 0, 0, 0, 0]"

definition BinThen_sum :: "bytes \<Rightarrow> u16" where
  "BinThen_sum bs = 0x2017 + sum_list (map ucast bs)"

lemma foldl_sum_bytes: "foldl (\<lambda>c x. c + ucast x) z bs = z + sum_list (map ucast bs)"
  for z :: u16 and bs :: bytes
  by (induction bs arbitrary: z) (simp_all add: add.assoc)

lemma BinThen_frame:
  assumes "\<forall>k. al k"
  shows "BinThen_UART_PackageFactory al cmd act sn =
    (let crc = BinThen_sum ([0x55, 0xAA, 0xAA, 0x55] @ BinThen_payload cmd act sn) in
     ret_msg ([0x55, 0xAA, 0xAA, 0x55, ucast crc, ucast (drop_bit 8 crc)] @ BinThen_payload cmd act sn))"
  using assms
  by (simp add: BinThen_UART_PackageFactory_def generatePackage_def frame_simps foldl_sum_bytes
      del: foldl_Cons foldl.simps)
    (simp add: BinThen_sum_def BinThen_payload_def Let_def ret_msg_def)

lemma join_le16: "0 OR ucast (ucast (w :: u16) :: u8) OR push_bit 8 (ucast (ucast (drop_bit 8 w) :: u8)) = w"
  using split_u16 [of w] by (simp add: or.commute)

lemma BinThen_report_payload:
  assumes "\<forall>k. al k" and "n = 22"
  shows "BinThen_report al g (Ptr ([a, b, c, d, e, f] @ BinThen_payload cmd act sn)) n =
    (if act = 1 then ret_objs [(obj CURTAIN_SWITCH 0)\<lparr>mo_rcvValue := 0\<rparr>]
     else if act = 2 then ret_objs [(obj CURTAIN_SWITCH 1)\<lparr>mo_rcvValue := 1\<rparr>]
     else if act = 0 then ret_objs [(obj CURTAIN_SWITCH 2)\<lparr>mo_rcvValue := 2\<rparr>] else Some NULL)"
  using assms
  by (simp add: BinThen_report_def BinThen_UnpackPackage_def BinThen_payload_def frame_simps
      or_le32_def or_le16_def)

text \<open>
  A BinThen control package has 22 bytes, its checksum field is \<open>0x2017\<close> plus
  all bytes outside the field, as the protocol comment prescribes, and reporting the
  package gives back the requested action, a request outside open, stop and close
  counting as close. The report does not depend on the uninitialised structure the
  unpacking starts from.
\<close>

lemma BinThen_roundtrip:
  assumes "\<forall>k. al k"
  shows "\<exists>m v. BinThen_control al modbusId (Ptr dp) = Some (Ptr m) \<and> msg_len m = 22
    \<and> v = (if dp_enum dp = 0 \<or> dp_enum dp = 1 then dp_enum dp else 2)
    \<and> or_le16 0 (msg_pBuf m) 4 = Some (BinThen_sum (take 4 (msg_pBuf m) @ drop 6 (msg_pBuf m)))
    \<and> BinThen_report al garbage (Ptr (msg_pBuf m)) (msg_len m)
      = ret_objs [(obj CURTAIN_SWITCH v)\<lparr>mo_rcvValue := v\<rparr>]"
proof -
  define act :: u8 where "act = (if dp_enum dp = 0 then 1 else if dp_enum dp = 1 then 2 else 0)"
  let ?p = "BinThen_payload 0x0A02 act modbusId"
  let ?crc = "BinThen_sum ([0x55, 0xAA, 0xAA, 0x55] @ ?p)"
  let ?f = "[0x55, 0xAA, 0xAA, 0x55, ucast ?crc, ucast (drop_bit 8 ?crc)] @ ?p"
  have len: "length ?f = 22"
    by (simp add: BinThen_payload_def)
  have "BinThen_control al modbusId (Ptr dp) = Some (Ptr \<lparr>msg_pBuf = ?f, msg_len = 22\<rparr>)"
    using BinThen_frame [OF assms, of "0x0A02" act modbusId] len
    by (auto simp: BinThen_control_def act_def Let_def ret_msg_def)
  moreover have "or_le16 0 ?f 4 = Some (BinThen_sum (take 4 ?f @ drop 6 ?f))"
    using join_le16 [of ?crc] by (simp add: or_le16_def frame_simps)
  moreover have "BinThen_report al garbage (Ptr ?f) 22 = ret_objs [(obj CURTAIN_SWITCH
      (if dp_enum dp = 0 \<or> dp_enum dp = 1 then dp_enum dp else 2))\<lparr>mo_rcvValue :=
      (if dp_enum dp = 0 \<or> dp_enum dp = 1 then dp_enum dp else 2)\<rparr>]"
    using BinThen_report_payload [OF assms refl, of garbage] by (auto simp: act_def)
  ultimately show ?thesis by simp
qed

lemma BinThen_roundtrip_example:
  "\<exists>m. BinThen_control (\<lambda>_. True) 9 (Ptr \<lparr>dpid = 1, dp_type = 3, dp_raw = 1\<rparr>) = Some (Ptr m) \<and> msg_len m = 22"
  using BinThen_roundtrip [where al = "\<lambda>_. True" and modbusId = 9
      and dp = "\<lparr>dpid = 1, dp_type = 3, dp_raw = 1\<rparr>"] by blast

end
