(* ===== verification/Knx_Plugins.thy ===== *)
theory Knx_Plugins
  imports Plugin_Api "HOL-Library.Log_Nat"
begin

text \<open>
  KNX plugins: air conditioners (\<open>plugin/compile/KNX_Aircondition_STEC.c\<close>,
  \<open>KNX_Acd_General.c\<close>, \<open>knx_acd_panel.c\<close>, \<open>KNX_Aircondition_Sdk_H8C09.c\<close>,
  \<open>KNX_Aircondition_Water.c\<close>), floor heating (\<open>KNX_FloorHeating_Sdk_H8C09.c\<close>,
  \<open>knx_heat_panel.c\<close>) and ventilation (\<open>KNX_Ventilation_STEC.c\<close>,
  \<open>KNX_Ventilation_Sdk_H8C09.c\<close>, \<open>knx_vent_panel.c\<close>). Each translates a cloud data point
  into the value of a group object (\<open>control\<close>) and back (\<open>report\<close>). The plugins of a kind
  differ only in the tables that translate modes and speeds; a table answers
  \<^term>\<open>None\<close> where the code assigns nothing.

  Temperatures travel as KNX 2-byte floats. The conversions use \<open>float\<close> and \<open>double\<close>.
  Their operands are whole degrees below \<open>2 ^ 24\<close>, a power of two and the constant 0.01,
  whose relative error in \<open>double\<close> is less than a quarter of a unit in the last place, so
  that the quotient \<open>temp / 2 ^ e / 0.01\<close> is the exact number \<open>100 * temp / 2 ^ e\<close>, and the
  conversion to \<open>short\<close> truncates it; out of the range of \<open>short\<close> it is undefined. In the
  other direction the product is rounded once, to the 24 bits of a \<open>float\<close>, and truncated.
\<close>

subsection \<open>Group objects\<close>

record KnxObj =
  ko_localPoint :: nat
  ko_value :: u16

definition PROP_BOOL :: u8 where "PROP_BOOL = 0"
definition PROP_VALUE :: u8 where "PROP_VALUE = 1"
definition PROP_ENUM :: u8 where "PROP_ENUM = 3"

definition set_bool :: "ty_obj_dp \<Rightarrow> u16 \<Rightarrow> ty_obj_dp" where
  "set_bool dp v = dp\<lparr>dp_raw := (dp_raw dp AND NOT 0xFF) OR (if v \<noteq> 0 then 1 else 0), dp_type := PROP_BOOL\<rparr>"

definition set_value :: "ty_obj_dp \<Rightarrow> u32 \<Rightarrow> u8 \<Rightarrow> ty_obj_dp" where
  "set_value dp v t = dp\<lparr>dp_raw := v, dp_type := t\<rparr>"

definition set_enum :: "ty_obj_dp \<Rightarrow> u32 option \<Rightarrow> ty_obj_dp" where
  "set_enum dp v = (case v of None \<Rightarrow> dp\<lparr>dp_type := PROP_ENUM\<rparr> | Some e \<Rightarrow> set_value dp e PROP_ENUM)"

definition put_value :: "KnxObj \<Rightarrow> u16 option \<Rightarrow> KnxObj" where
  "put_value k v = (case v of None \<Rightarrow> k | Some w \<Rightarrow> k\<lparr>ko_value := w\<rparr>)"

subsection \<open>Temperatures\<close>

text \<open>Division of C integers truncates towards zero.\<close>

definition c_div :: "int \<Rightarrow> int \<Rightarrow> int" where
  "c_div a b = (if a < 0 then - ((- a) div b) else a div b)"

fun ConvetTemp2Uint16_loop :: "int \<Rightarrow> nat \<Rightarrow> nat \<Rightarrow> u16 exec" where
  "ConvetTemp2Uint16_loop temp e 0 = Some 0xffff"
| "ConvetTemp2Uint16_loop temp e (Suc n) =
     (let m = c_div (100 * temp) (2 ^ e) in
      if m < - 32768 \<or> 32767 < m then None
      else if - 2048 < m \<and> m \<le> 2047 then
        (if 0 \<le> m then Some (word_of_int m OR push_bit 11 (of_nat e))
         else Some ((word_of_int m AND 0x87ff) OR push_bit 11 (of_nat e)))
      else ConvetTemp2Uint16_loop temp (Suc e) n)"

definition ConvetTemp2Uint16 :: "int \<Rightarrow> u16 exec" where
  "ConvetTemp2Uint16 temp = ConvetTemp2Uint16_loop temp 0 16"

text \<open>
  The whole part of \<open>n / 100\<close> after rounding to a \<open>float\<close>, half to even.
\<close>

definition float_trunc :: "nat \<Rightarrow> nat" where
  "float_trunc n =
     (let s = 24 - floorlog 2 (n div 100); x = n * 2 ^ s; q = x div 100; r = x mod 100 in
      (if 2 * r < 100 \<or> 2 * r = 100 \<and> even q then q else q + 1) div 2 ^ s)"

definition ConvetUint162Temp :: "u16 \<Rightarrow> int" where
  "ConvetUint162Temp v =
     (let e = unat (drop_bit 11 (v AND 0x7800)); m = unat (v AND 0x07ff) in
      int (float_trunc (m * 2 ^ e)))"

subsection \<open>Air conditioners\<close>

definition acd_control ::
  "(u32 \<Rightarrow> u16 option) \<Rightarrow> (u32 \<Rightarrow> u16 option) \<Rightarrow> ty_obj_dp cptr \<Rightarrow> KnxObj cptr \<Rightarrow> (int \<times> KnxObj cptr) exec" where
  "acd_control mode speed pObj pCtrl =
     (case (pObj, pCtrl) of
        (Ptr dp, Ptr k) \<Rightarrow>
          if ko_localPoint k = feature_code ACD_SWITCH then
            Some (0, Ptr (k\<lparr>ko_value := ucast (dp_bool dp)\<rparr>))
          else if ko_localPoint k = feature_code ACD_TEMP then do {
            v \<leftarrow> ConvetTemp2Uint16 (dp_value dp);
            Some (0, Ptr (k\<lparr>ko_value := v\<rparr>)) }
          else if ko_localPoint k = feature_code ACD_MODE then
            Some (0, Ptr (put_value k (mode (dp_enum dp))))
          else if ko_localPoint k = feature_code ACD_SPEED then
            Some (0, Ptr (put_value k (speed (dp_enum dp))))
          else Some (0, Ptr k)
      | _ \<Rightarrow> Some (- 1, pCtrl))"

definition acd_report ::
  "(u16 \<Rightarrow> u32 option) \<Rightarrow> (u16 \<Rightarrow> u32 option) \<Rightarrow> KnxObj cptr \<Rightarrow> ty_obj_dp cptr \<Rightarrow> int \<times> ty_obj_dp cptr" where
  "acd_report mode_of speed_of pStatus pObj =
     (case (pStatus, pObj) of
        (Ptr k, Ptr dp) \<Rightarrow>
          if ko_localPoint k = feature_code ACD_SWITCH_STATUS then
            (0, Ptr (set_bool dp (ko_value k)))
          else if ko_localPoint k = feature_code ACD_TEMP_STATUS then
            (0, Ptr (set_value dp (word_of_int (ConvetUint162Temp (ko_value k))) PROP_VALUE))
          else if ko_localPoint k = feature_code ACD_MODE_STATUS then
            (0, Ptr (set_enum dp (mode_of (ko_value k))))
          else if ko_localPoint k = feature_code ACD_SPEED_STATUS then
            (0, Ptr (set_enum dp (speed_of (ko_value k))))
          else if ko_localPoint k = feature_code ACD_ENV_TEMP then
            (0, Ptr (set_value dp (word_of_int (ConvetUint162Temp (ko_value k))) PROP_VALUE))
          else (0, Ptr dp)
      | _ \<Rightarrow> (- 1, pObj))"

definition STEC_mode :: "u32 \<Rightarrow> u16 option" where
  "STEC_mode e = (if e = 0 then Some 1 else if e = 1 then Some 2 else if e = 2 then Some 4
     else if e = 3 then Some 3 else None)"

definition STEC_speed :: "u32 \<Rightarrow> u16 option" where
  "STEC_speed e = (if e = 1 then Some 3 else if e = 3 then Some 1 else Some (ucast e))"

definition STEC_mode_of :: "u16 \<Rightarrow> u32 option" where
  "STEC_mode_of v = (if v = 1 then Some 0 else if v = 2 then Some 1 else if v = 3 then Some 3
     else if v = 4 then Some 2 else None)"

definition STEC_speed_of :: "u16 \<Rightarrow> u32 option" where
  "STEC_speed_of v = (if v = 1 then Some 3 else if v = 3 then Some 1 else Some (ucast v))"

definition Panel_mode :: "u32 \<Rightarrow> u16 option" where
  "Panel_mode e = (if e = 0 then Some 1 else if e = 1 then Some 2 else if e = 2 then Some 4
     else if e = 3 then Some 8 else None)"

definition Panel_speed :: "u32 \<Rightarrow> u16 option" where
  "Panel_speed e = (if e = 0 then Some 0 else if e = 1 then Some 1 else if e = 2 then Some 2
     else if e = 3 then Some 4 else None)"

definition Panel_mode_of :: "u16 \<Rightarrow> u32 option" where
  "Panel_mode_of v = (if v = 1 then Some 0 else if v = 2 then Some 1 else if v = 4 then Some 2
     else if v = 8 then Some 3 else None)"

definition Panel_speed_of :: "u16 \<Rightarrow> u32 option" where
  "Panel_speed_of v = (if v = 0 then Some 0 else if v = 1 then Some 1 else if v = 2 then Some 2
     else if v = 4 then Some 3 else None)"

definition Sdk_mode :: "u32 \<Rightarrow> u16 option" where
  "Sdk_mode e = (if e = 0 then Some 0 else if e = 1 then Some 1 else if e = 2 then Some 3
     else if e = 3 then Some 2 else None)"

definition Sdk_mode_of :: "u16 \<Rightarrow> u32 option" where
  "Sdk_mode_of v = (if v = 0 then Some 0 else if v = 1 then Some 1 else if v = 2 then Some 3
     else if v = 3 then Some 2 else None)"

definition Sdk_speed :: "u32 \<Rightarrow> u16 option" where
  "Sdk_speed e = Some (ucast e)"

definition Sdk_speed_of :: "u16 \<Rightarrow> u32 option" where
  "Sdk_speed_of v = Some (ucast v)"

definition Water_mode :: "u32 \<Rightarrow> u16 option" where
  "Water_mode e = (if e = 0 then Some 1 else if e = 1 then Some 2 else None)"

definition Water_mode_of :: "u16 \<Rightarrow> u32 option" where
  "Water_mode_of v = (if v = 1 then Some 0 else if v = 2 then Some 1 else None)"

definition Water_speed :: "u32 \<Rightarrow> u16 option" where
  "Water_speed e = Some (ucast (e + 1))"

definition Water_speed_of :: "u16 \<Rightarrow> u32 option" where
  "Water_speed_of v = (if v = 1 then Some 0 else if v = 2 then Some 1 else if v = 3 then Some 2 else None)"

definition STEC_control :: "ty_obj_dp cptr \<Rightarrow> KnxObj cptr \<Rightarrow> (int \<times> KnxObj cptr) exec" where
  "STEC_control = acd_control STEC_mode STEC_speed"
definition STEC_report :: "KnxObj cptr \<Rightarrow> ty_obj_dp cptr \<Rightarrow> int \<times> ty_obj_dp cptr" where
  "STEC_report = acd_report STEC_mode_of STEC_speed_of"
definition General_control :: "ty_obj_dp cptr \<Rightarrow> KnxObj cptr \<Rightarrow> (int \<times> KnxObj cptr) exec" where
  "General_control = acd_control Panel_mode Panel_speed"
definition General_report :: "KnxObj cptr \<Rightarrow> ty_obj_dp cptr \<Rightarrow> int \<times> ty_obj_dp cptr" where
  "General_report = acd_report Panel_mode_of Panel_speed_of"
definition acd_panel_control :: "ty_obj_dp cptr \<Rightarrow> KnxObj cptr \<Rightarrow> (int \<times> KnxObj cptr) exec" where
  "acd_panel_control = acd_control Panel_mode Panel_speed"
definition acd_panel_report :: "KnxObj cptr \<Rightarrow> ty_obj_dp cptr \<Rightarrow> int \<times> ty_obj_dp cptr" where
  "acd_panel_report = acd_report Panel_mode_of Panel_speed_of"
definition Sdk_control :: "ty_obj_dp cptr \<Rightarrow> KnxObj cptr \<Rightarrow> (int \<times> KnxObj cptr) exec" where
  "Sdk_control = acd_control Sdk_mode Sdk_speed"
definition Sdk_report :: "KnxObj cptr \<Rightarrow> ty_obj_dp cptr \<Rightarrow> int \<times> ty_obj_dp cptr" where
  "Sdk_report = acd_report Sdk_mode_of Sdk_speed_of"
definition Water_control :: "ty_obj_dp cptr \<Rightarrow> KnxObj cptr \<Rightarrow> (int \<times> KnxObj cptr) exec" where
  "Water_control = acd_control Water_mode Water_speed"
definition Water_report :: "KnxObj cptr \<Rightarrow> ty_obj_dp cptr \<Rightarrow> int \<times> ty_obj_dp cptr" where
  "Water_report = acd_report Water_mode_of Water_speed_of"

subsection \<open>Floor heating and ventilation\<close>

text \<open>\<open>KNX_FloorHeating_Sdk_H8C09.c\<close> and \<open>knx_heat_panel.c\<close> are the same code.\<close>

definition heat_control :: "ty_obj_dp cptr \<Rightarrow> KnxObj cptr \<Rightarrow> (int \<times> KnxObj cptr) exec" where
  "heat_control pObj pCtrl =
     (case (pObj, pCtrl) of
        (Ptr dp, Ptr k) \<Rightarrow>
          if ko_localPoint k = feature_code HEAT_SWITCH then
            Some (0, Ptr (k\<lparr>ko_value := ucast (dp_bool dp)\<rparr>))
          else if ko_localPoint k = feature_code HEAT_TEMP then do {
            v \<leftarrow> ConvetTemp2Uint16 (dp_value dp);
            Some (0, Ptr (k\<lparr>ko_value := v\<rparr>)) }
          else Some (0, Ptr k)
      | _ \<Rightarrow> Some (- 1, pCtrl))"

definition heat_report :: "KnxObj cptr \<Rightarrow> ty_obj_dp cptr \<Rightarrow> int \<times> ty_obj_dp cptr" where
  "heat_report pStatus pObj =
     (case (pStatus, pObj) of
        (Ptr k, Ptr dp) \<Rightarrow>
          if ko_localPoint k = feature_code HEAT_SWITCH_STATUS then
            (0, Ptr (set_bool dp (ko_value k)))
          else if ko_localPoint k = feature_code HEAT_TEMP_STATUS then
            (0, Ptr (set_value dp (word_of_int (ConvetUint162Temp (ko_value k))) PROP_VALUE))
          else if ko_localPoint k = feature_code HEAT_ENV_TEMP then
            (0, Ptr (set_value dp (word_of_int (ConvetUint162Temp (ko_value k))) PROP_VALUE))
          else if ko_localPoint k = feature_code HEAT_VALVE_STATUS then
            (0, Ptr (set_bool dp (ko_value k)))
          else (0, Ptr dp)
      | _ \<Rightarrow> (- 1, pObj))"

definition heat_panel_control :: "ty_obj_dp cptr \<Rightarrow> KnxObj cptr \<Rightarrow> (int \<times> KnxObj cptr) exec" where
  "heat_panel_control = heat_control"
definition heat_panel_report :: "KnxObj cptr \<Rightarrow> ty_obj_dp cptr \<Rightarrow> int \<times> ty_obj_dp cptr" where
  "heat_panel_report = heat_report"

definition vent_control :: "(u32 \<Rightarrow> u16) \<Rightarrow> ty_obj_dp cptr \<Rightarrow> KnxObj cptr \<Rightarrow> int \<times> KnxObj cptr" where
  "vent_control speed pObj pCtrl =
     (case (pObj, pCtrl) of
        (Ptr dp, Ptr k) \<Rightarrow>
          if ko_localPoint k = feature_code VENT_SWITCH then
            (0, Ptr (k\<lparr>ko_value := ucast (dp_bool dp)\<rparr>))
          else if ko_localPoint k = feature_code VENT_SPEED then
            (0, Ptr (k\<lparr>ko_value := speed (dp_enum dp)\<rparr>))
          else (0, Ptr k)
      | _ \<Rightarrow> (- 1, pCtrl))"

definition vent_report ::
  "(u16 \<Rightarrow> u32 option) \<Rightarrow> bool \<Rightarrow> KnxObj cptr \<Rightarrow> ty_obj_dp cptr \<Rightarrow> int \<times> ty_obj_dp cptr" where
  "vent_report speed_of env pStatus pObj =
     (case (pStatus, pObj) of
        (Ptr k, Ptr dp) \<Rightarrow>
          if ko_localPoint k = feature_code VENT_SWITCH_STATUS then
            (0, Ptr (set_bool dp (ko_value k)))
          else if ko_localPoint k = feature_code VENT_SPEED_STATUS then
            (0, Ptr (set_enum dp (speed_of (ko_value k))))
          else if env \<and> ko_localPoint k = feature_code VENT_ENV_TEMP then
            (0, Ptr (set_value dp (word_of_int (ConvetUint162Temp (ko_value k))) PROP_VALUE))
          else (0, Ptr dp)
      | _ \<Rightarrow> (- 1, pObj))"

definition vent_sdk_speed :: "u32 \<Rightarrow> u16" where
  "vent_sdk_speed e = (if e = 0 then 1 else if e = 1 then 2 else ucast e)"

definition vent_sdk_speed_of :: "u16 \<Rightarrow> u32 option" where
  "vent_sdk_speed_of v = (if v = 1 then Some 0 else if v = 2 then Some 1 else None)"

definition vent_STEC_control :: "ty_obj_dp cptr \<Rightarrow> KnxObj cptr \<Rightarrow> int \<times> KnxObj cptr" where
  "vent_STEC_control = vent_control ucast"
definition vent_STEC_report :: "KnxObj cptr \<Rightarrow> ty_obj_dp cptr \<Rightarrow> int \<times> ty_obj_dp cptr" where
  "vent_STEC_report = vent_report (\<lambda>v. Some (ucast v)) True"
definition vent_Sdk_control :: "ty_obj_dp cptr \<Rightarrow> KnxObj cptr \<Rightarrow> int \<times> KnxObj cptr" where
  "vent_Sdk_control = vent_control vent_sdk_speed"
definition vent_Sdk_report :: "KnxObj cptr \<Rightarrow> ty_obj_dp cptr \<Rightarrow> int \<times> ty_obj_dp cptr" where
  "vent_Sdk_report = vent_report vent_sdk_speed_of False"
definition vent_panel_control :: "ty_obj_dp cptr \<Rightarrow> KnxObj cptr \<Rightarrow> int \<times> KnxObj cptr" where
  "vent_panel_control = vent_control ucast"
definition vent_panel_report :: "KnxObj cptr \<Rightarrow> ty_obj_dp cptr \<Rightarrow> int \<times> ty_obj_dp cptr" where
  "vent_panel_report = vent_report (\<lambda>v. Some (ucast v)) False"

subsection \<open>Translation tables as codecs\<close>

text \<open>
  What a pair of tables owes to the cloud: every value of its range survives the trip to
  the bus and back. Lemma for clients: a control request followed by the report of the
  status object that carries the same value restores the data point.
\<close>

locale knx_codec =
  fixes enc :: "u32 \<Rightarrow> u16 option" and dec :: "u16 \<Rightarrow> u32 option" and range :: "u32 list"
  assumes codec: "list_all (\<lambda>v. (enc v \<bind> dec) = Some v) range"
begin

lemma enc_dec: "v \<in> set range \<Longrightarrow> \<exists>w. enc v = Some w \<and> dec w = Some v"
  using codec by (auto simp: list_all_iff bind_eq_Some_conv)

lemma enum_restored:
  assumes "dp_enum dp \<in> set range"
  shows "set_enum d (dec (ko_value (put_value k (enc (dp_enum dp))))) = set_value d (dp_enum dp) PROP_ENUM"
proof -
  from enc_dec [OF assms] obtain w where "enc (dp_enum dp) = Some w" and "dec w = Some (dp_enum dp)"
    by blast
  then show ?thesis by (simp add: set_enum_def put_value_def)
qed

end

interpretation stec_mode: knx_codec STEC_mode STEC_mode_of "[0, 1, 2, 3]"
  by unfold_locales (simp add: STEC_mode_def STEC_mode_of_def)
interpretation stec_speed: knx_codec STEC_speed STEC_speed_of "[0, 1, 2, 3]"
  by unfold_locales (simp add: STEC_speed_def STEC_speed_of_def)
interpretation panel_mode: knx_codec Panel_mode Panel_mode_of "[0, 1, 2, 3]"
  by unfold_locales (simp add: Panel_mode_def Panel_mode_of_def)
interpretation panel_speed: knx_codec Panel_speed Panel_speed_of "[0, 1, 2, 3]"
  by unfold_locales (simp add: Panel_speed_def Panel_speed_of_def)
interpretation sdk_mode: knx_codec Sdk_mode Sdk_mode_of "[0, 1, 2, 3]"
  by unfold_locales (simp add: Sdk_mode_def Sdk_mode_of_def)
interpretation sdk_speed: knx_codec Sdk_speed Sdk_speed_of "[0, 1, 2, 3, 4, 5]"
  by unfold_locales (simp add: Sdk_speed_def Sdk_speed_of_def)
interpretation water_mode: knx_codec Water_mode Water_mode_of "[0, 1]"
  by unfold_locales (simp add: Water_mode_def Water_mode_of_def)
interpretation water_speed: knx_codec Water_speed Water_speed_of "[0, 1, 2]"
  by unfold_locales (simp add: Water_speed_def Water_speed_of_def)


subsection \<open>Round trips of modes and speeds\<close>

definition acd_plugins ::
  "((ty_obj_dp cptr \<Rightarrow> KnxObj cptr \<Rightarrow> (int \<times> KnxObj cptr) exec)
    \<times> (KnxObj cptr \<Rightarrow> ty_obj_dp cptr \<Rightarrow> int \<times> ty_obj_dp cptr) \<times> u32 list \<times> u32 list) list" where
  "acd_plugins =
     [(STEC_control, STEC_report, [0, 1, 2, 3], [0, 1, 2, 3]),
      (General_control, General_report, [0, 1, 2, 3], [0, 1, 2, 3]),
      (acd_panel_control, acd_panel_report, [0, 1, 2, 3], [0, 1, 2, 3]),
      (Sdk_control, Sdk_report, [0, 1, 2, 3], [0, 1, 2, 3, 4, 5]),
      (Water_control, Water_report, [0, 1], [0, 1, 2])]"

lemma acd_codecs:
  assumes "knx_codec mode mode_of ms" and "knx_codec speed speed_of ss"
  shows "dp_enum dp \<in> set ms \<Longrightarrow> \<exists>k.
      acd_control mode speed (Ptr dp) (Ptr \<lparr>ko_localPoint = feature_code ACD_MODE, ko_value = old\<rparr>) = Some (0, Ptr k)
      \<and> acd_report mode_of speed_of (Ptr (k\<lparr>ko_localPoint := feature_code ACD_MODE_STATUS\<rparr>)) (Ptr d)
        = (0, Ptr (set_value d (dp_enum dp) PROP_ENUM))"
    and "dp_enum dp \<in> set ss \<Longrightarrow> \<exists>k.
      acd_control mode speed (Ptr dp) (Ptr \<lparr>ko_localPoint = feature_code ACD_SPEED, ko_value = old\<rparr>) = Some (0, Ptr k)
      \<and> acd_report mode_of speed_of (Ptr (k\<lparr>ko_localPoint := feature_code ACD_SPEED_STATUS\<rparr>)) (Ptr d)
        = (0, Ptr (set_value d (dp_enum dp) PROP_ENUM))"
  using knx_codec.enum_restored [OF assms(1)] knx_codec.enum_restored [OF assms(2)]
  by (simp_all add: acd_control_def acd_report_def)

text \<open>
  For each of the five air-conditioner plugins, every mode and every fan speed of
  the cloud's range that is sent to the bus comes back unchanged when the status object
  reports the value that was sent, whatever the group object and the data point held
  before.
\<close>

lemma acd_modes_and_speeds_restored:
  assumes "(ctl, rep, ms, ss) \<in> set acd_plugins"
  shows "(dp_enum dp \<in> set ms \<longrightarrow> (\<exists>k.
      ctl (Ptr dp) (Ptr \<lparr>ko_localPoint = feature_code ACD_MODE, ko_value = old\<rparr>) = Some (0, Ptr k)
      \<and> rep (Ptr (k\<lparr>ko_localPoint := feature_code ACD_MODE_STATUS\<rparr>)) (Ptr d)
        = (0, Ptr (set_value d (dp_enum dp) PROP_ENUM))))
    \<and> (dp_enum dp \<in> set ss \<longrightarrow> (\<exists>k.
      ctl (Ptr dp) (Ptr \<lparr>ko_localPoint = feature_code ACD_SPEED, ko_value = old\<rparr>) = Some (0, Ptr k)
      \<and> rep (Ptr (k\<lparr>ko_localPoint := feature_code ACD_SPEED_STATUS\<rparr>)) (Ptr d)
        = (0, Ptr (set_value d (dp_enum dp) PROP_ENUM))))"
proof -
  obtain mode mode_of speed speed_of where "ctl = acd_control mode speed" "rep = acd_report mode_of speed_of"
    and "knx_codec mode mode_of ms" and "knx_codec speed speed_of ss"
    using assms stec_mode.knx_codec_axioms stec_speed.knx_codec_axioms panel_mode.knx_codec_axioms
      panel_speed.knx_codec_axioms sdk_mode.knx_codec_axioms sdk_speed.knx_codec_axioms
      water_mode.knx_codec_axioms water_speed.knx_codec_axioms
    unfolding acd_plugins_def STEC_control_def STEC_report_def General_control_def General_report_def
      acd_panel_control_def acd_panel_report_def Sdk_control_def Sdk_report_def Water_control_def
      Water_report_def
    by auto
  then show ?thesis
    using acd_codecs by blast
qed

lemma acd_modes_and_speeds_restored_example:
  "\<exists>k. Sdk_control (Ptr \<lparr>dpid = 4, dp_type = 3, dp_raw = 3\<rparr>)
       (Ptr \<lparr>ko_localPoint = feature_code ACD_MODE, ko_value = 7\<rparr>) = Some (0, Ptr k)
     \<and> Sdk_report (Ptr (k\<lparr>ko_localPoint := feature_code ACD_MODE_STATUS\<rparr>)) (Ptr \<lparr>dpid = 4, dp_type = 0, dp_raw = 0\<rparr>)
       = (0, Ptr \<lparr>dpid = 4, dp_type = 3, dp_raw = 3\<rparr>)"
  using acd_modes_and_speeds_restored [of Sdk_control Sdk_report "[0, 1, 2, 3]" "[0, 1, 2, 3, 4, 5]"
      "\<lparr>dpid = 4, dp_type = 3, dp_raw = 3\<rparr>" 7 "\<lparr>dpid = 4, dp_type = 0, dp_raw = 0\<rparr>"]
  by (simp add: acd_plugins_def dp_enum_def set_value_def PROP_ENUM_def)

subsection \<open>Round trips of temperatures\<close>

lemma float_trunc_whole: "float_trunc (100 * n) = n"
  by (simp add: float_trunc_def Let_def mult.assoc)

lemma dpt9_fields:
  fixes m e :: nat
  assumes "m < 2048" and "e < 16" and "v = of_nat m OR push_bit 11 (of_nat e :: u16)"
  shows "unat (v AND 0x07ff) = m" "unat (drop_bit 11 (v AND 0x7800)) = e"
proof -
  let ?k = "m OR push_bit 11 e"
  have small: "take_bit 11 m = m" "drop_bit 11 m = 0" "take_bit 4 e = e" "take_bit 5 e = e" "take_bit 16 m = m"
    using assms(1,2) by (simp_all add: take_bit_nat_eq_self drop_bit_eq_div)
  have shift: "drop_bit 11 (push_bit 11 e) = e"
    by (simp add: drop_bit_eq_div push_bit_eq_mult)
  have "v = of_nat ?k"
    by (simp only: assms(3) of_nat_or_eq push_bit_of_nat)
  then have v: "unat v = ?k"
    using small by (simp only: unsigned_of_nat take_bit_or) (simp add: take_bit_push_bit)
  have "v AND 0x07ff = take_bit 11 v"
    by (simp add: take_bit_eq_mask mask_eq_exp_minus_1)
  then have "unat (v AND 0x07ff) = take_bit 11 ?k"
    by (simp only: unsigned_take_bit_eq v)
  also have "\<dots> = m"
    using small by (simp add: take_bit_or take_bit_push_bit)
  finally show "unat (v AND 0x07ff) = m" .
  have "drop_bit 11 (v AND 0x7800) = take_bit 4 (drop_bit 11 v)"
    by (simp add: drop_bit_and take_bit_eq_mask mask_eq_exp_minus_1)
  then have "unat (drop_bit 11 (v AND 0x7800)) = take_bit 4 (drop_bit 11 ?k)"
    using small by (simp only: unsigned_take_bit_eq unsigned_drop_bit_eq v)
      (simp add: take_bit_push_bit)
  also have "\<dots> = e"
    using small shift by (simp add: drop_bit_or)
  finally show "unat (drop_bit 11 (v AND 0x7800)) = e" .
qed

lemma temp_loop_step:
  assumes "c_div (100 * temp) (2 ^ e) = m" and "- 32768 \<le> m" and "m \<le> 32767"
    and "m \<le> - 2048 \<or> 2047 < m"
  shows "ConvetTemp2Uint16_loop temp e (Suc n) = ConvetTemp2Uint16_loop temp (Suc e) n"
  using assms by (auto simp: Let_def)

lemma temp_loop_hit:
  assumes "c_div (100 * temp) (2 ^ e) = int m" and "m \<le> 2047"
  shows "ConvetTemp2Uint16_loop temp e (Suc n) = Some (of_nat m OR push_bit 11 (of_nat e))"
  using assms by (simp add: Let_def)

lemma ConvetTemp2Uint16_small:
  fixes n :: nat
  assumes "n \<le> 81"
  shows "\<exists>m e. m < 2048 \<and> e < 16 \<and> m * 2 ^ e = 100 * n
    \<and> ConvetTemp2Uint16 (int n) = Some (of_nat m OR push_bit 11 (of_nat e))"
proof -
  have div: "c_div (100 * int n) (2 ^ k) = int (100 * n div 2 ^ k)" for k
    by (simp add: c_div_def zdiv_int)
  have fuel: "(16 :: nat) = Suc (Suc (Suc 13))" by simp
  have hit: "ConvetTemp2Uint16_loop (int n) k (Suc l) = Some (of_nat m OR push_bit 11 (of_nat k))"
    if "100 * n div 2 ^ k = m" "m \<le> 2047" for k l m
    using that by (intro temp_loop_hit) (simp_all add: div)
  have step: "ConvetTemp2Uint16_loop (int n) k (Suc l) = ConvetTemp2Uint16_loop (int n) (Suc k) l"
    if "2048 \<le> 100 * n div 2 ^ k" "100 * n div 2 ^ k \<le> 32767" for k l
    using that by (intro temp_loop_step [OF div]) linarith+
  consider "n \<le> 20" | "20 < n" "n \<le> 40" | "40 < n" using assms by linarith
  then show ?thesis
  proof cases
    case 1
    then have "ConvetTemp2Uint16_loop (int n) 0 (Suc (Suc (Suc 13))) = Some (of_nat (100 * n) OR push_bit 11 (of_nat 0))"
      by (intro hit) simp_all
    with 1 show ?thesis
      unfolding ConvetTemp2Uint16_def fuel by (intro exI [of _ "100 * n"] exI [of _ 0]) (simp only:, simp)
  next
    case 2
    then have "ConvetTemp2Uint16_loop (int n) (Suc 0) (Suc (Suc 13)) = Some (of_nat (50 * n) OR push_bit 11 (of_nat (Suc 0)))"
      by (intro hit) simp_all
    moreover have "ConvetTemp2Uint16_loop (int n) 0 (Suc (Suc (Suc 13))) = ConvetTemp2Uint16_loop (int n) (Suc 0) (Suc (Suc 13))"
      using 2 by (intro step) simp_all
    ultimately show ?thesis
      using 2 unfolding ConvetTemp2Uint16_def fuel
      by (intro exI [of _ "50 * n"] exI [of _ "Suc 0"]) (simp only:, simp)
  next
    case 3
    then have "2048 \<le> 100 * n div 2" "100 * n div 4 = 25 * n" by simp_all
    have "ConvetTemp2Uint16_loop (int n) (Suc (Suc 0)) (Suc 13) = Some (of_nat (25 * n) OR push_bit 11 (of_nat (Suc (Suc 0))))"
      using assms by (intro hit) simp_all
    moreover have "ConvetTemp2Uint16_loop (int n) (Suc 0) (Suc (Suc 13)) = ConvetTemp2Uint16_loop (int n) (Suc (Suc 0)) (Suc 13)"
      using 3 assms by (intro step) simp_all
    moreover have "ConvetTemp2Uint16_loop (int n) 0 (Suc (Suc (Suc 13))) = ConvetTemp2Uint16_loop (int n) (Suc 0) (Suc (Suc 13))"
      using 3 assms by (intro step) simp_all
    ultimately show ?thesis
      using assms unfolding ConvetTemp2Uint16_def fuel
      by (intro exI [of _ "25 * n"] exI [of _ "Suc (Suc 0)"]) (simp only:, simp)
  qed
qed

text \<open>
  A whole temperature from 0 to 81 degrees that is sent to a KNX device and
  reported back unchanged is restored exactly.
\<close>

lemma temperature_restored:
  assumes "0 \<le> t" and "t \<le> 81"
  shows "\<exists>v. ConvetTemp2Uint16 t = Some v \<and> ConvetUint162Temp v = t"
proof -
  obtain n where n: "t = int n" using assms(1) by (metis nonneg_int_cases)
  with assms(2) obtain m e where "m < 2048" "e < 16" "m * 2 ^ e = 100 * n"
    and v: "ConvetTemp2Uint16 t = Some (of_nat m OR push_bit 11 (of_nat e))"
    using ConvetTemp2Uint16_small [of n] by auto
  then show ?thesis
    using dpt9_fields [of m e] by (simp add: ConvetUint162Temp_def Let_def float_trunc_whole n)
qed

lemma temperature_restored_example:
  "\<exists>v. ConvetTemp2Uint16 26 = Some v \<and> ConvetUint162Temp v = 26"
  by (rule temperature_restored) simp_all

lemma float_trunc_small:
  assumes "n < 100 * 2 ^ 16"
  shows "float_trunc n = n div 100"
proof -
  define a b s where "a = n div 100" and "b = n mod 100" and "s = 24 - floorlog 2 a"
  have n: "n = 100 * a + b" and b: "b \<le> 99"
    by (simp_all add: a_def b_def)
  have "floorlog 2 a \<le> 16"
    using assms by (intro floorlog_leI) (simp_all add: a_def)
  then have "8 \<le> s" by (simp add: s_def)
  then have s: "(2 :: nat) ^ 8 \<le> 2 ^ s" by (intro power_increasing) simp_all
  define q where "q = n * 2 ^ s div 100"
  have q: "q = a * 2 ^ s + b * 2 ^ s div 100"
    by (simp add: q_def n algebra_simps)
  have "b * 2 ^ s div 100 \<le> 99 * 2 ^ s div 100"
    using b by (intro div_le_mono mult_right_mono) simp_all
  also have "\<dots> < 2 ^ s - 1"
    using s by simp
  finally have r: "b * 2 ^ s div 100 + 1 < 2 ^ s" by simp
  have "q div 2 ^ s = a" "(q + 1) div 2 ^ s = a"
    using r by (simp_all add: q div_nat_eqI algebra_simps)
  then show ?thesis
    by (simp add: float_trunc_def Let_def flip: a_def s_def q_def)
qed

text \<open>
  Reporting ignores the sign of a KNX temperature: a temperature of -20 to -1
  degrees that is sent and reported back appears as a temperature that is not negative.
\<close>

lemma negative_temperature_lost:
  assumes "- 20 \<le> t" and "t < 0"
  shows "\<exists>v. ConvetTemp2Uint16 t = Some v \<and> ConvetUint162Temp v = (2048 + 100 * t) div 100
    \<and> 0 \<le> ConvetUint162Temp v"
proof -
  define v :: u16 where "v = word_of_int (100 * t) AND 0x87ff"
  have "c_div (100 * t) (2 ^ 0) = 100 * t"
    using assms by (simp add: c_div_def)
  then have enc: "ConvetTemp2Uint16 t = Some v"
    using assms unfolding ConvetTemp2Uint16_def v_def numeral_eq_Suc
    by (subst ConvetTemp2Uint16_loop.simps) (simp add: Let_def)
  have e: "v AND 0x7800 = 0"
    by (simp add: v_def and.assoc)
  have "v AND 0x07ff = take_bit 11 (word_of_int (100 * t))"
    by (simp add: v_def and.assoc take_bit_eq_mask mask_eq_exp_minus_1)
  then have "uint (v AND 0x07ff) = take_bit 11 (100 * t)"
    by (simp only: unsigned_take_bit_eq uint_word_of_int_eq) (simp add: take_bit_take_bit)
  also have "\<dots> = 2048 + 100 * t"
    using assms mod_pos_pos_trivial [of "2048 + 100 * t" 2048] mod_add_self1 [of 2048 "100 * t"]
    by (simp add: take_bit_eq_mod)
  finally have m: "int (unat (v AND 0x07ff)) = 2048 + 100 * t"
    by simp
  have "unat (v AND 0x07ff) < 2048"
    using m assms by linarith
  then have "unat (v AND 0x07ff) < 100 * 2 ^ 16"
    by simp
  then have "ConvetUint162Temp v = int (unat (v AND 0x07ff) div 100)"
    by (simp add: ConvetUint162Temp_def Let_def e float_trunc_small)
  then have "ConvetUint162Temp v = (2048 + 100 * t) div 100"
    by (simp only: zdiv_int m) simp
  moreover have "0 \<le> (2048 + 100 * t) div 100"
    using assms by (simp add: pos_imp_zdiv_nonneg_iff)
  ultimately show ?thesis
    using enc by simp
qed

lemma negative_temperature_lost_example:
  "\<exists>v. ConvetTemp2Uint16 (- 5) = Some v \<and> ConvetUint162Temp v = 15"
  using negative_temperature_lost [of "- 5"] by auto

end
