(* ===== verification/Knx_Float.thy ===== *)
theory Knx_Float
  imports Knx_Plugins
begin

text \<open>
  The plugin \<open>plugin/compile/KNX_FloorHeating_STEC.c\<close>, whose cloud values are tenths of a degree, so
  that its conversions are inexact in \<open>float\<close> and \<open>double\<close>.

  \<^item> A floating-point number is a pair \<open>(m, x)\<close> for \<open>m * 2 ^ x\<close>. An operation of C rounds its exact
    result to 24 bits (\<open>float\<close>) or to 53 bits (\<open>double\<close>), half to even. Every number of this plugin lies
    between \<open>2 ^ - 22\<close> and \<open>2 ^ 39\<close> in size or is zero, so that no operation overflows or is
    subnormal, and only the precision of a format matters.
  \<^item> Each operation is evaluated in the type that C gives it: \<open>dp_value / 10.0\<close> in \<open>double\<close>, then
    rounded to the \<open>float\<close> parameter; \<open>temp / (1 << e)\<close> in \<open>float\<close>; \<open>... / 0.01\<close> and \<open>0.01 * m * (1 << e)\<close> in
    \<open>double\<close>; \<open>... * 10\<close> in \<open>float\<close>.
  \<^item> A conversion to an integer type truncates; out of the range of the type it is undefined.
\<close>

subsection \<open>Rounded arithmetic\<close>

type_synonym flt = "int \<times> int"

definition half_up :: "int \<Rightarrow> int \<Rightarrow> int \<Rightarrow> int" where
  "half_up q r d = (if 2 * r < d \<or> 2 * r = d \<and> even q then q else q + 1)"

definition half_even :: "int \<Rightarrow> int \<Rightarrow> int" where
  "half_even n d = half_up (n div d) (n mod d) d"

function bit_len :: "int \<Rightarrow> nat" where
  "bit_len n = (if n \<le> 0 then 0 else Suc (bit_len (n div 2)))"
  by auto
termination by (relation "measure nat") auto

text \<open>The fraction \<open>a / d * 2 ^ k\<close>, and the number \<open>n / d * 2 ^ x\<close> with \<open>p\<close> bits.\<close>

definition scaled :: "int \<Rightarrow> int \<Rightarrow> int \<Rightarrow> int \<times> int" where
  "scaled a d k = (if 0 \<le> k then (a * 2 ^ nat k, d) else (a, d * 2 ^ nat (- k)))"

definition fit_exp :: "nat \<Rightarrow> int \<Rightarrow> int \<Rightarrow> int \<Rightarrow> int" where
  "fit_exp p a d k = (case scaled a d k of (u, v) \<Rightarrow> if v * 2 ^ p \<le> u then k - 1 else k)"

definition round_exp :: "nat \<Rightarrow> int \<Rightarrow> int \<Rightarrow> int" where
  "round_exp p a d = fit_exp p a d (int p + int (bit_len d) - int (bit_len a))"

definition round_at :: "int \<Rightarrow> int \<Rightarrow> int \<Rightarrow> int \<Rightarrow> flt" where
  "round_at n d x k = (case scaled \<bar>n\<bar> d k of (u, v) \<Rightarrow> (sgn n * half_even u v, x - k))"

definition round_frac :: "nat \<Rightarrow> int \<Rightarrow> int \<Rightarrow> int \<Rightarrow> flt" where
  "round_frac p n d x = (if n = 0 then (0, 0) else round_at n d x (round_exp p \<bar>n\<bar> d))"

definition FLOAT :: nat where "FLOAT = 24"
definition DOUBLE :: nat where "DOUBLE = 53"

definition of_int_flt :: "int \<Rightarrow> flt" where "of_int_flt n = (n, 0)"

definition fl_round :: "nat \<Rightarrow> flt \<Rightarrow> flt" where
  "fl_round p a = (case a of (m, x) \<Rightarrow> round_frac p m 1 x)"

definition fl_mult :: "nat \<Rightarrow> flt \<Rightarrow> flt \<Rightarrow> flt" where
  "fl_mult p a b = (case (a, b) of ((m, x), (n, y)) \<Rightarrow> round_frac p (m * n) 1 (x + y))"

definition fl_div :: "nat \<Rightarrow> flt \<Rightarrow> flt \<Rightarrow> flt" where
  "fl_div p a b = (case (a, b) of ((m, x), (n, y)) \<Rightarrow> round_frac p (sgn n * m) \<bar>n\<bar> (x - y))"

definition fl_trunc :: "flt \<Rightarrow> int" where
  "fl_trunc a = (case a of (m, x) \<Rightarrow> if 0 \<le> x then m * 2 ^ nat x else c_div m (2 ^ nat (- x)))"

text \<open>The constant 0.01 of type \<open>double\<close>.\<close>

definition hundredth :: flt where "hundredth = round_frac DOUBLE 1 100 0"

subsection \<open>The plugin\<close>

text \<open>One round of the loop: \<^term>\<open>None\<close> goes on, and a value is what the function returns.\<close>

definition STEC_encode :: "nat \<Rightarrow> int \<Rightarrow> u16 exec option" where
  "STEC_encode e m =
     (if m < - 32768 \<or> 32767 < m then Some None
      else if - 2048 < m \<and> m \<le> 2047 then
        Some (Some (if 0 \<le> m then word_of_int m OR push_bit 11 (of_nat e)
                    else (word_of_int m AND 0x87ff) OR push_bit 11 (of_nat e)))
      else None)"

fun STEC_encode_loop :: "flt \<Rightarrow> nat \<Rightarrow> nat \<Rightarrow> u16 exec" where
  "STEC_encode_loop temp e 0 = Some 0xffff"
| "STEC_encode_loop temp e (Suc n) =
     (case STEC_encode e (fl_trunc (fl_div DOUBLE (fl_div FLOAT temp (of_int_flt (2 ^ e))) hundredth)) of
        Some r \<Rightarrow> r
      | None \<Rightarrow> STEC_encode_loop temp (Suc e) n)"

definition STEC_ConvetTemp2Uint16 :: "flt \<Rightarrow> u16 exec" where
  "STEC_ConvetTemp2Uint16 temp = STEC_encode_loop temp 0 16"

definition STEC_ConvetUint162Temp :: "u16 \<Rightarrow> flt" where
  "STEC_ConvetUint162Temp v =
     (let e = unat (drop_bit 11 (v AND 0x7800)); m = uint (v AND 0x07ff) in
      fl_round FLOAT (fl_mult DOUBLE (fl_mult DOUBLE hundredth (of_int_flt m)) (of_int_flt (2 ^ e))))"

definition tenths_to_temp :: "int \<Rightarrow> flt" where
  "tenths_to_temp n = fl_round FLOAT (fl_div DOUBLE (of_int_flt n) (of_int_flt 10))"

definition temp_to_tenths :: "flt \<Rightarrow> int" where
  "temp_to_tenths t = fl_trunc (fl_mult FLOAT t (of_int_flt 10))"

definition heat_STEC_control :: "ty_obj_dp cptr \<Rightarrow> KnxObj cptr \<Rightarrow> (int \<times> KnxObj cptr) exec" where
  "heat_STEC_control pObj pCtrl =
     (case (pObj, pCtrl) of
        (Ptr dp, Ptr k) \<Rightarrow>
          if ko_localPoint k = feature_code HEAT_SWITCH then
            Some (0, Ptr (k\<lparr>ko_value := ucast (dp_bool dp)\<rparr>))
          else if ko_localPoint k = feature_code HEAT_TEMP then do {
            v \<leftarrow> STEC_ConvetTemp2Uint16 (tenths_to_temp (dp_value dp));
            Some (0, Ptr (k\<lparr>ko_value := v\<rparr>)) }
          else Some (0, Ptr k)
      | _ \<Rightarrow> Some (- 1, pCtrl))"

definition heat_STEC_report :: "KnxObj cptr \<Rightarrow> ty_obj_dp cptr \<Rightarrow> int \<times> ty_obj_dp cptr" where
  "heat_STEC_report pStatus pObj =
     (case (pStatus, pObj) of
        (Ptr k, Ptr dp) \<Rightarrow>
          if ko_localPoint k = feature_code HEAT_SWITCH_STATUS then
            (0, Ptr (set_bool dp (ko_value k)))
          else if ko_localPoint k = feature_code HEAT_TEMP_STATUS then
            (0, Ptr (set_value dp (word_of_int (temp_to_tenths (STEC_ConvetUint162Temp (ko_value k)))) PROP_VALUE))
          else if ko_localPoint k = feature_code HEAT_ENV_TEMP then
            (0, Ptr (set_value dp (word_of_int (fl_trunc (STEC_ConvetUint162Temp (ko_value k)))) PROP_VALUE))
          else if ko_localPoint k = feature_code HEAT_VALVE_STATUS then
            (0, Ptr (set_bool dp (ko_value k)))
          else (0, Ptr dp)
      | _ \<Rightarrow> (- 1, pObj))"

subsection \<open>Rounding\<close>

text \<open>
  The result of an operation has the precision of its format and is a nearest number of it: its
  distance from the exact fraction is at most half a unit in the last place.
\<close>

lemma half_even_nearest: "0 < d \<Longrightarrow> 2 * \<bar>half_even n d * d - n\<bar> \<le> d"
proof -
  assume "0 < d"
  have n: "n = n div d * d + n mod d" by simp
  have r: "0 \<le> n mod d" "n mod d < d" using \<open>0 < d\<close> by simp_all
  show ?thesis
  proof (cases "2 * (n mod d) < d \<or> 2 * (n mod d) = d \<and> even (n div d)")
    case True
    then have "half_even n d = n div d" by (simp add: half_even_def half_up_def)
    then have "half_even n d * d - n = - (n mod d)" by (simp flip: minus_mod_eq_div_mult)
    then show ?thesis using True r by auto
  next
    case False
    then have "half_even n d = n div d + 1" by (auto simp: half_even_def half_up_def)
    then have "half_even n d * d - n = d - n mod d" using n by (simp add: algebra_simps)
    then show ?thesis using False r by auto
  qed
qed

lemma half_even_bounds:
  assumes "0 < d" and "d * l \<le> n" and "n < d * u"
  shows "l \<le> half_even n d \<and> half_even n d \<le> u"
proof -
  have "l \<le> n div d" using assms(1,2) zdiv_mono1 [of "d * l" n d] by simp
  moreover have "n div d < u"
  proof (rule ccontr)
    assume "\<not> ?thesis"
    then have "d * u \<le> d * (n div d)" using assms(1) by simp
    also have "\<dots> \<le> n" using assms(1) by (metis minus_mod_eq_mult_div pos_mod_sign diff_le_eq le_add_same_cancel1)
    finally show False using assms(3) by simp
  qed
  ultimately show ?thesis by (auto simp: half_even_def half_up_def)
qed

declare bit_len.simps [simp del]

lemma bit_len_bounds: "0 < a \<Longrightarrow> 2 ^ (bit_len a - 1) \<le> a \<and> a < 2 ^ bit_len a \<and> 0 < bit_len a"
proof (induction a rule: bit_len.induct)
  case (1 n)
  have b: "bit_len n = Suc (bit_len (n div 2))" using 1(2) by (subst bit_len.simps) simp
  show ?case
  proof (cases "n = 1")
    case True
    then have "bit_len n = 1" unfolding b by (simp add: bit_len.simps)
    with True show ?thesis by simp
  next
    case False
    then have "0 < n div 2" using 1(2) by simp
    with 1 have ih: "2 ^ (bit_len (n div 2) - 1) \<le> n div 2 \<and> n div 2 < 2 ^ bit_len (n div 2) \<and> 0 < bit_len (n div 2)" by simp
    then obtain m where m: "bit_len (n div 2) = Suc m" by (metis Suc_pred')
    have "2 ^ m \<le> n div 2" "n div 2 < 2 * 2 ^ m" using ih m by simp_all
    moreover have "n = 2 * (n div 2) + n mod 2" "0 \<le> n mod 2" "n mod 2 < 2" by simp_all
    ultimately have "2 * 2 ^ m \<le> n" "n < 4 * 2 ^ m" by linarith+
    then show ?thesis by (simp add: b m)
  qed
qed

lemma scaled_bounds:
  assumes "0 < a" and "0 < d" and "0 < p" and "scaled a d (int p + int (bit_len d) - int (bit_len a)) = (u, v)"
  shows "0 < v \<and> v * 2 ^ (p - 1) < u \<and> u < v * 2 ^ (p + 1)"
proof -
  define x y where xy: "x = bit_len a" "y = bit_len d"
  have a: "2 ^ (x - 1) \<le> a" "a < 2 ^ x" "0 < x" and d: "2 ^ (y - 1) \<le> d" "d < 2 ^ y" "0 < y"
    using bit_len_bounds [OF assms(1)] bit_len_bounds [OF assms(2)] by (simp_all add: xy)
  have lo: "d * 2 ^ (x - 1) < a * 2 ^ y"
  proof -
    have "d * 2 ^ (x - 1) < 2 ^ y * 2 ^ (x - 1)" using d(2) by simp
    also have "\<dots> \<le> 2 ^ y * a" using a(1) by simp
    finally show ?thesis by (simp add: mult.commute)
  qed
  have hi: "a * 2 ^ (y - 1) < d * 2 ^ x"
  proof -
    have "a * 2 ^ (y - 1) < 2 ^ x * 2 ^ (y - 1)" using a(2) by simp
    also have "\<dots> \<le> 2 ^ x * d" using d(1) by simp
    finally show ?thesis by (simp add: mult.commute)
  qed
  obtain x' y' p' where s: "x = Suc x'" "y = Suc y'" "p = Suc p'" using a(3) d(3) assms(3) by (metis Suc_pred')
  show ?thesis
  proof (cases "x \<le> p + y")
    case True
    then have k: "int p + int (bit_len d) - int (bit_len a) = int (p + y - x)" by (simp add: xy)
    have u: "u = a * 2 ^ (p + y - x)" "v = d" using assms(4) unfolding k by (simp_all add: scaled_def)
    have pw: "(2::int) ^ (p + y - x) * 2 ^ x = 2 ^ p * 2 ^ y" using True by (simp flip: power_add)
    have "(d * 2 ^ p') * 2 ^ x < (a * 2 ^ (p + y - x)) * 2 ^ x"
      using mult_strict_right_mono [OF lo, of "2 ^ p"] unfolding mult.assoc pw by (simp add: s mult_ac)
    moreover have "(a * 2 ^ (p + y - x)) * 2 ^ x < (d * 2 ^ (p + 1)) * 2 ^ x"
      using mult_strict_right_mono [OF hi, of "2 ^ (p + 1)"] unfolding mult.assoc pw by (simp add: s mult_ac)
    ultimately show ?thesis using assms(2) by (simp add: u s)
  next
    case False
    then have k: "int p + int (bit_len d) - int (bit_len a) = - int (x - (p + y))" "x - (p + y) \<noteq> 0" by (simp_all add: xy)
    have u: "u = a" "v = d * 2 ^ (x - (p + y))" using assms(4) k(2) unfolding k(1) by (auto simp: scaled_def)
    have pw: "(2::int) ^ (x - (p + y)) * (2 ^ p * 2 ^ y) = 2 ^ x" using False by (simp flip: power_add)
    have "(d * 2 ^ (x - (p + y)) * 2 ^ p) * 2 ^ y < (a * 2) * 2 ^ y"
      using lo pw by (simp add: s mult_ac)
    moreover have "a * 2 ^ y < (d * 2 ^ (x - (p + y)) * 2 ^ (p + 1)) * 2 ^ y"
      using hi pw by (simp add: s mult_ac)
    ultimately show ?thesis using assms(2) by (simp add: u s mult_ac)
  qed
qed

lemma scaled_down:
  assumes "scaled a d k = (u, v)" and "scaled a d (k - 1) = (u', v')"
  shows "u * v' = 2 * (u' * v)"
proof -
  consider "nat k = Suc (nat (k - 1))" "1 \<le> k" | "k = 0" | "nat (- (k - 1)) = Suc (nat (- k))" "k < 0" by linarith
  then show ?thesis using assms by cases (auto simp: scaled_def)
qed

lemma scaled_pos: "0 < d \<Longrightarrow> scaled a d k = (u, v) \<Longrightarrow> 0 < v"
  by (auto simp: scaled_def split: if_splits)

lemma round_exp_bounds:
  assumes "0 < a" and "0 < d" and "0 < p" and "scaled a d (round_exp p a d) = (u, v)"
  shows "0 < v \<and> v * 2 ^ (p - 1) \<le> u \<and> u < v * 2 ^ p"
proof -
  let ?k = "int p + int (bit_len d) - int (bit_len a)"
  obtain w z where wz: "scaled a d ?k = (w, z)" by fastforce
  note b = scaled_bounds [OF assms(1-3) wz]
  show ?thesis
  proof (cases "z * 2 ^ p \<le> w")
    case True
    then have "round_exp p a d = ?k - 1" by (simp add: round_exp_def fit_exp_def wz)
    then have s: "scaled a d (?k - 1) = (u, v)" using assms(4) by simp
    note e = scaled_down [OF wz s]
    have v: "0 < v" using assms(2) s by (rule scaled_pos)
    have p: "(2::int) ^ p = 2 * 2 ^ (p - 1)" using assms(3) by (simp flip: power_Suc)
    have "z * 2 ^ p * v \<le> w * v" using True v by simp
    then have "z * (v * 2 ^ (p - 1)) \<le> z * u" unfolding e p by (simp add: mult_ac)
    moreover have "w * v < z * 2 ^ (p + 1) * v" using b v by simp
    then have "z * u < z * (v * 2 ^ p)" unfolding e by (simp add: mult_ac)
    ultimately show ?thesis using v b by simp
  next
    case False
    then have "round_exp p a d = ?k" by (simp add: round_exp_def fit_exp_def wz)
    then show ?thesis using b wz assms(4) False by auto
  qed
qed

lemma round_frac_nearest:
  assumes "n \<noteq> 0" and "0 < d" and "0 < p" and "round_frac p n d x = (m, y)"
  shows "2 ^ (p - 1) \<le> \<bar>m\<bar> \<and> \<bar>m\<bar> \<le> 2 ^ p \<and> sgn m = sgn n
    \<and> (\<exists>u v. scaled \<bar>n\<bar> d (x - y) = (u, v) \<and> 2 * \<bar>\<bar>m\<bar> * v - u\<bar> \<le> v)"
proof -
  obtain u v where uv: "scaled \<bar>n\<bar> d (round_exp p \<bar>n\<bar> d) = (u, v)" by fastforce
  have b: "0 < v \<and> v * 2 ^ (p - 1) \<le> u \<and> u < v * 2 ^ p" using round_exp_bounds [OF _ assms(2,3) uv] assms(1) by simp
  have m: "m = sgn n * half_even u v" "x - y = round_exp p \<bar>n\<bar> d"
    using assms(1,4) by (auto simp: round_frac_def round_at_def uv)
  have h: "2 ^ (p - 1) \<le> half_even u v \<and> half_even u v \<le> 2 ^ p" using b half_even_bounds by blast
  then have "0 < half_even u v" using zero_less_power [of "2::int" "p - 1"] by linarith
  then have "2 ^ (p - 1) \<le> \<bar>m\<bar> \<and> \<bar>m\<bar> \<le> 2 ^ p \<and> sgn m = sgn n" "\<bar>m\<bar> = half_even u v"
    using h assms(1) by (auto simp: m(1) abs_mult sgn_mult sgn_if)
  then show ?thesis using half_even_nearest [of v u] b uv m(2) by auto
qed

subsection \<open>Tenths of a degree\<close>

lemma hundredth_value [code]: "hundredth = (5764607523034235, - 59)"
  by code_simp

fun num_len :: "num \<Rightarrow> nat" where
  "num_len num.One = 1"
| "num_len (num.Bit0 n) = Suc (num_len n)"
| "num_len (num.Bit1 n) = Suc (num_len n)"

lemma bit_len_num: "bit_len (numeral n) = num_len n"
proof (induction n)
  case One
  then show ?case by (simp add: bit_len.simps)
next
  case (Bit0 n)
  have "bit_len (numeral (num.Bit0 n)) = Suc (bit_len (numeral (num.Bit0 n) div 2))" by (subst bit_len.simps) simp
  also have "numeral (num.Bit0 n) div 2 = (numeral n :: int)" by simp
  finally show ?case using Bit0 by simp
next
  case (Bit1 n)
  have "bit_len (numeral (num.Bit1 n)) = Suc (bit_len (numeral (num.Bit1 n) div 2))" by (subst bit_len.simps) simp
  also have "numeral (num.Bit1 n) div 2 = (numeral n :: int)" by simp
  finally show ?case using Bit1 by simp
qed

lemma bit_len_code [code]: "bit_len 0 = 0" "bit_len (Int.Pos n) = num_len n" "bit_len (Int.Neg n) = 0"
proof -
  show "bit_len 0 = 0" "bit_len (Int.Neg n) = 0" by (subst bit_len.simps, simp)+
  show "bit_len (Int.Pos n) = num_len n" by (simp add: bit_len_num)
qed

definition decoded :: "u16 \<Rightarrow> int" where
  "decoded v = temp_to_tenths (STEC_ConvetUint162Temp v)"

definition restored :: "int \<Rightarrow> int exec" where
  "restored n = map_option decoded (STEC_ConvetTemp2Uint16 (tenths_to_temp n))"

definition half_ok :: "int \<Rightarrow> bool" where
  "half_ok k \<longleftrightarrow> restored (5 * k) = Some (5 * k)"

lemma halves_1: "list_all half_ok [10..25]"
  by code_simp

lemma halves_2: "list_all half_ok [26..40]"
  by code_simp

lemma halves_3: "list_all half_ok [41..55]"
  by code_simp

lemma halves_4: "list_all half_ok [56..70]"
  by code_simp

lemma halves_restored:
  assumes "50 \<le> n" and "n \<le> 350" and "5 dvd n"
  shows "restored n = Some n"
proof -
  obtain k where k: "n = 5 * k" using assms(3) by blast
  then consider "k \<in> {10..25}" | "k \<in> {26..40}" | "k \<in> {41..55}" | "k \<in> {56..70}" using assms(1,2) by fastforce
  then show ?thesis using halves_1 halves_2 halves_3 halves_4 unfolding k list_all_iff set_upto half_ok_def by cases blast+
qed

text \<open>
  Other values come back one tenth too small, negative ones lose their sign, and the conversion to
  \<open>short\<close> is undefined from 327.7 degrees on.
\<close>

lemma tenths_lost: "restored 57 = Some 56" "restored 201 = Some 201" "restored 348 = Some 347"
  by code_simp+

lemma negative_tenths_lost: "restored (- 30) = Some 174" "restored (- 1) = Some 203"
  by code_simp+

lemma large_tenths_undefined: "restored 3277 = None"
  by code_simp

subsection \<open>Properties\<close>

text \<open>
  Claim C22. A set temperature in the documented range, 5.0 to 35.0 degrees in steps of half a degree,
  survives the way to the bus and back: the value that the control function puts into the
  group object, reported by the status object, is the value of the request. The rounding of
  all operations to \<open>float\<close> and \<open>double\<close> is taken into account.
\<close>

theorem half_degrees_restored:
  assumes "50 \<le> dp_value dp" and "dp_value dp \<le> 350" and "5 dvd dp_value dp"
    and "ko_localPoint k = feature_code HEAT_TEMP" and "ko_localPoint s = feature_code HEAT_TEMP_STATUS"
  shows "\<exists>v. heat_STEC_control (Ptr dp) (Ptr k) = Some (0, Ptr (k\<lparr>ko_value := v\<rparr>))
    \<and> heat_STEC_report (Ptr (s\<lparr>ko_value := v\<rparr>)) (Ptr d) = (0, Ptr (set_value d (word_of_int (dp_value dp)) PROP_VALUE))"
proof -
  obtain v where v: "STEC_ConvetTemp2Uint16 (tenths_to_temp (dp_value dp)) = Some v"
      "temp_to_tenths (STEC_ConvetUint162Temp v) = dp_value dp"
    using halves_restored [OF assms(1-3)] by (auto simp: restored_def decoded_def)
  show ?thesis
    using assms(4,5) v by (intro exI [of _ v]) (simp add: heat_STEC_control_def heat_STEC_report_def)
qed

theorem half_degrees_restored_witness:
  "\<exists>v. heat_STEC_control (Ptr \<lparr>dpid = 2, dp_type = PROP_VALUE, dp_raw = 215\<rparr>) (Ptr \<lparr>ko_localPoint = 302, ko_value = 0\<rparr>)
      = Some (0, Ptr \<lparr>ko_localPoint = 302, ko_value = v\<rparr>)
    \<and> heat_STEC_report (Ptr \<lparr>ko_localPoint = 303, ko_value = v\<rparr>) (Ptr \<lparr>dpid = 2, dp_type = 0, dp_raw = 0\<rparr>)
      = (0, Ptr \<lparr>dpid = 2, dp_type = PROP_VALUE, dp_raw = 215\<rparr>)"
  using half_degrees_restored [of "\<lparr>dpid = 2, dp_type = PROP_VALUE, dp_raw = 215\<rparr>" "\<lparr>ko_localPoint = 302, ko_value = 0\<rparr>"
      "\<lparr>ko_localPoint = 303, ko_value = 0\<rparr>" "\<lparr>dpid = 2, dp_type = 0, dp_raw = 0\<rparr>"]
  by (simp add: dp_value_def set_value_def)

end
