(* ===== verification/Linked_Heap.thy ===== *)
theory Linked_Heap
  imports Gateway_Prelude
begin

text \<open>
  Singly linked cells in an explicit heap, shared by the message queue
  (\<open>source/queue_internal.c\<close>) and the job queue of the thread pool (\<open>source/thpool.c\<close>):
  cells, loads and stores that are undefined on \<open>NULL\<close> and on freed cells, the segment
  predicate that reads a chain of cells as a list, and the contract of a first-in
  first-out queue with the lemmas its clients rely on.
\<close>

text \<open>The result of a call that may have to wait for another thread.\<close>

datatype 'a outcome = Blocked | Returns 'a

subsection \<open>Cells\<close>

record 'd cell =
  c_data :: 'd
  c_next :: "nat cptr"

type_synonym 'd heap = "nat \<rightharpoonup> 'd cell"

abbreviation mk_cell :: "'d \<Rightarrow> nat cptr \<Rightarrow> 'd cell" where
  "mk_cell d n \<equiv> \<lparr>c_data = d, c_next = n\<rparr>"

definition deref :: "'d heap \<Rightarrow> nat cptr \<Rightarrow> 'd cell exec" where
  "deref h p = (case p of NULL \<Rightarrow> None | Ptr a \<Rightarrow> h a)"

definition set_next :: "'d heap \<Rightarrow> nat cptr \<Rightarrow> nat cptr \<Rightarrow> 'd heap exec" where
  "set_next h p n =
     (case p of NULL \<Rightarrow> None
      | Ptr a \<Rightarrow> map_option (\<lambda>c. h(a \<mapsto> c\<lparr>c_next := n\<rparr>)) (h a))"

definition free_cell :: "'d heap \<Rightarrow> nat cptr \<Rightarrow> 'd heap exec" where
  "free_cell h p =
     (case p of NULL \<Rightarrow> Some h
      | Ptr a \<Rightarrow> if h a = None then None else Some (h(a := None)))"

lemmas [heap_simps] = deref_def set_next_def free_cell_def

subsection \<open>Segments\<close>

text \<open>
  \<open>seg h p cs r\<close>: from \<open>p\<close> the cells \<open>cs\<close>, given with their addresses, lead to \<open>r\<close>.
\<close>

fun seg :: "'d heap \<Rightarrow> nat cptr \<Rightarrow> (nat \<times> 'd) list \<Rightarrow> nat cptr \<Rightarrow> bool" where
  "seg h p [] r \<longleftrightarrow> p = r"
| "seg h p ((a, d) # cs) r \<longleftrightarrow>
     p = Ptr a \<and> (\<exists>n. h a = Some (mk_cell d n) \<and> seg h n cs r)"

abbreviation addrs :: "(nat \<times> 'd) list \<Rightarrow> nat list" where
  "addrs cs \<equiv> map fst cs"

abbreviation datas :: "(nat \<times> 'd) list \<Rightarrow> 'd list" where
  "datas cs \<equiv> map snd cs"

lemma seg_append [simp]: "seg h p (cs @ ds) r \<longleftrightarrow> (\<exists>m. seg h p cs m \<and> seg h m ds r)"
  by (induction h p cs r rule: seg.induct) auto

lemma seg_frame [simp]: "a \<notin> set (addrs cs) \<Longrightarrow> seg (h(a := c)) p cs r = seg h p cs r"
  by (induction h p cs r rule: seg.induct) auto

lemma seg_None_frame:
  "h a = None \<Longrightarrow> seg h p cs r \<Longrightarrow> a \<notin> set (addrs cs) \<and> seg (h(a := c)) p cs r"
  by (induction h p cs r rule: seg.induct) auto

lemma seg_NULL [simp]: "seg h NULL cs r \<longleftrightarrow> cs = [] \<and> r = NULL"
  by (cases "(h, NULL :: nat cptr, cs, r)" rule: seg.cases) auto

lemma seg_to_NULL_cases:
  assumes "seg h p cs NULL"
  obtains (nil) "p = NULL" and "cs = []"
  | (cons) a d n cs' where "p = Ptr a" and "cs = (a, d) # cs'" and "h a = Some (mk_cell d n)"
      and "seg h n cs' NULL"
  using assms by (cases "(h, p, cs, NULL :: nat cptr)" rule: seg.cases) auto

lemma seg_in_heap: "seg h p cs r \<Longrightarrow> set (addrs cs) \<subseteq> dom h"
  by (induction h p cs r rule: seg.induct) auto

text \<open>Linking a new cell behind the cell \<open>s\<close>, and taking a cell out.\<close>

lemma seg_insert:
  assumes "seg h p (pre @ (s, d) # rest) NULL" and "distinct (addrs (pre @ (s, d) # rest))"
    and "a \<notin> set (addrs (pre @ (s, d) # rest))" and "h s = Some (mk_cell d t)"
  shows "seg (h(a \<mapsto> mk_cell el t, s \<mapsto> mk_cell d (Ptr a))) p (pre @ (s, d) # (a, el) # rest) NULL"
  using assms by auto

lemma seg_remove:
  assumes "seg h p (pre @ (s, d) # (a, el) # rest) NULL"
    and "distinct (addrs (pre @ (s, d) # (a, el) # rest))" and "h a = Some (mk_cell el t)"
  shows "seg (h(s \<mapsto> mk_cell d t, a := None)) p (pre @ (s, d) # rest) NULL"
  using assms by auto

subsection \<open>Contract of a first-in first-out queue\<close>

text \<open>
  \<open>rep s xs\<close> reads the state as the list of its elements. \<open>put\<close> takes the address that
  the allocator returns, which is fresh for the state; \<open>cap\<close> is how many elements fit.
  The clients' lemma: any interleaving of writers and readers, as long as the elements fit
  and the reader finds one, is the same interleaving on the list; in particular elements
  come out in the order in which they went in.
\<close>

datatype 'd qop = Put nat 'd | Get

fun list_run :: "'d qop list \<Rightarrow> 'd list \<Rightarrow> 'd list \<Rightarrow> 'd list \<times> 'd list" where
  "list_run [] xs out = (xs, out)"
| "list_run (Put a d # ops) xs out = list_run ops (xs @ [d]) out"
| "list_run (Get # ops) xs out =
     (case xs of [] \<Rightarrow> list_run ops [] out | x # xs' \<Rightarrow> list_run ops xs' (out @ [x]))"

fun impl_run ::
  "(nat \<Rightarrow> 'd \<Rightarrow> 's \<Rightarrow> 's exec) \<Rightarrow> ('s \<Rightarrow> ('d cptr \<times> 's) exec) \<Rightarrow> 'd qop list \<Rightarrow> 's \<Rightarrow> 'd list
   \<Rightarrow> ('s \<times> 'd list) exec" where
  "impl_run put get [] s out = Some (s, out)"
| "impl_run put get (Put a d # ops) s out = do { s \<leftarrow> put a d s; impl_run put get ops s out }"
| "impl_run put get (Get # ops) s out = do {
     (e, s) \<leftarrow> get s;
     impl_run put get ops s (case e of NULL \<Rightarrow> out | Ptr d \<Rightarrow> out @ [d]) }"

text \<open>
  The addresses of a script come from an allocator: an address is not returned again while
  its cell is in use. \<open>fits\<close> says that of the list of cells in use and that the queue does
  not overflow.
\<close>

fun fits :: "nat \<Rightarrow> 'd qop list \<Rightarrow> nat list \<Rightarrow> bool" where
  "fits cap [] as \<longleftrightarrow> True"
| "fits cap (Put a d # ops) as \<longleftrightarrow> length as < cap \<and> a \<notin> set as \<and> fits cap ops (as @ [a])"
| "fits cap (Get # ops) as \<longleftrightarrow> fits cap ops (List.tl as)"

locale fifo =
  fixes rep :: "'s \<Rightarrow> (nat \<times> 'd) list \<Rightarrow> bool"
    and cap :: "'s \<Rightarrow> nat"
    and put :: "nat \<Rightarrow> 'd \<Rightarrow> 's \<Rightarrow> 's exec"
    and get :: "'s \<Rightarrow> ('d cptr \<times> 's) exec"
  assumes put_law: "rep s cs \<Longrightarrow> length cs < cap s \<Longrightarrow> a \<notin> set (addrs cs) \<Longrightarrow>
      safe (put a d s) (\<lambda>s'. rep s' (cs @ [(a, d)]) \<and> cap s' = cap s)"
    and get_law: "rep s ((a, d) # cs) \<Longrightarrow>
      safe (get s) (\<lambda>(e, s'). e = Ptr d \<and> rep s' cs \<and> cap s' = cap s)"
    and get_empty_law: "rep s [] \<Longrightarrow>
      safe (get s) (\<lambda>(e, s'). e = NULL \<and> rep s' [] \<and> cap s' = cap s)"
begin

lemma run_refines:
  assumes "rep s cs" and "fits (cap s) ops (addrs cs)"
  shows "\<exists>s' cs'. impl_run put get ops s out = Some (s', snd (list_run ops (datas cs) out))
    \<and> rep s' cs' \<and> datas cs' = fst (list_run ops (datas cs) out)"
  using assms
proof (induction ops arbitrary: s cs out)
  case Nil
  then show ?case by auto
next
  case (Cons op ops)
  show ?case
  proof (cases op)
    case (Put a d)
    with Cons.prems obtain s1 where s1: "put a d s = Some s1" "rep s1 (cs @ [(a, d)])" "cap s1 = cap s"
      using put_law [of s cs a d] by (auto simp: safe_def)
    with Cons.IH [of s1 "cs @ [(a, d)]" out] Cons.prems show ?thesis
      by (simp add: Put)
  next
    case Get
    show ?thesis
    proof (cases cs)
      case Nil
      with Cons.prems obtain s1 where "get s = Some (NULL, s1)" "rep s1 []" "cap s1 = cap s"
        using get_empty_law [of s] by (auto simp: safe_def)
      with Cons.IH [of s1 "[]" out] Cons.prems show ?thesis
        by (simp add: Get Nil)
    next
      case (Cons c cs')
      obtain a d where c: "c = (a, d)" by (cases c)
      with Cons \<open>rep s cs\<close> obtain s1 where "get s = Some (Ptr d, s1)" "rep s1 cs'" "cap s1 = cap s"
        using get_law [of s a d cs'] by (auto simp: safe_def)
      with Cons.IH [of s1 cs' "out @ [d]"] Cons.prems Cons c show ?thesis
        by (simp add: Get)
    qed
  qed
qed

end

end
