(* ===== verification/Dl_List.thy ===== *)
theory Dl_List
  imports Linked_Heap
begin

text \<open>
  The doubly linked list \<open>source/list.c\<close>, in which the gateway keeps its devices. The nodes
  of all lists live in one explicit heap, so that every load and store through \<open>prev\<close> and
  \<open>next\<close> is one of the model and a use of a freed node is undefined.

  \<^item> \<open>malloc\<close> of a node is an argument (\<open>NULL\<close> or an address).
  \<^item> \<open>dup\<close> and \<open>match\<close> are \<open>NULL\<close> or functions on values; of \<open>free\<close> it matters whether it is
    set, and the values it is called with are the log \<open>d_freed\<close>.
  \<^item> A function that returns the list it was given returns it updated; \<open>NULL\<close> is the report
    of failure, after which the caller still has the list it passed.
  \<^item> \<open>len\<close> has the 32 bits of \<open>unsigned long\<close> on the gateway's processor.
\<close>

subsection \<open>Data\<close>

record 'v listNode =
  n_prev :: "nat cptr"
  n_next :: "nat cptr"
  n_value :: 'v

abbreviation mk_node :: "nat cptr \<Rightarrow> nat cptr \<Rightarrow> 'v \<Rightarrow> 'v listNode" where
  "mk_node p n v \<equiv> \<lparr>n_prev = p, n_next = n, n_value = v\<rparr>"

record 'v dmem =
  d_heap :: "nat \<rightharpoonup> 'v listNode"
  d_freed :: "'v list"

record 'v dlist =
  l_head :: "nat cptr"
  l_tail :: "nat cptr"
  l_dup :: "('v \<Rightarrow> 'v cptr) cptr"
  l_free :: bool
  l_match :: "('v \<Rightarrow> 'v \<Rightarrow> bool) cptr"
  l_len :: u32

record listIter =
  it_next :: "nat cptr"
  it_from_head :: bool

text \<open>Loads and stores.\<close>

definition node_at :: "nat cptr \<Rightarrow> 'v dmem \<Rightarrow> 'v listNode exec" where
  "node_at p m = (case p of NULL \<Rightarrow> None | Ptr a \<Rightarrow> d_heap m a)"

definition upd_node :: "nat cptr \<Rightarrow> ('v listNode \<Rightarrow> 'v listNode) \<Rightarrow> 'v dmem \<Rightarrow> 'v dmem exec" where
  "upd_node p f m =
     (case p of NULL \<Rightarrow> None
      | Ptr a \<Rightarrow> map_option (\<lambda>n. m\<lparr>d_heap := (d_heap m)(a \<mapsto> f n)\<rparr>) (d_heap m a))"

abbreviation set_prev :: "nat cptr \<Rightarrow> nat cptr \<Rightarrow> 'v dmem \<Rightarrow> 'v dmem exec" where
  "set_prev p x \<equiv> upd_node p (\<lambda>n. n\<lparr>n_prev := x\<rparr>)"

abbreviation set_nxt :: "nat cptr \<Rightarrow> nat cptr \<Rightarrow> 'v dmem \<Rightarrow> 'v dmem exec" where
  "set_nxt p x \<equiv> upd_node p (\<lambda>n. n\<lparr>n_next := x\<rparr>)"

definition free_node :: "nat cptr \<Rightarrow> 'v dmem \<Rightarrow> 'v dmem exec" where
  "free_node p m =
     (case p of NULL \<Rightarrow> Some m
      | Ptr a \<Rightarrow> if d_heap m a = None then None else Some (m\<lparr>d_heap := (d_heap m)(a := None)\<rparr>))"

definition free_value :: "bool \<Rightarrow> 'v \<Rightarrow> 'v dmem \<Rightarrow> 'v dmem" where
  "free_value fr v m = (if fr then m\<lparr>d_freed := d_freed m @ [v]\<rparr> else m)"

named_theorems dl_simps \<open>evaluation of loads and stores on list nodes\<close>

lemmas [dl_simps] = node_at_def upd_node_def free_node_def

subsection \<open>Operations\<close>

definition listCreate :: "bool \<Rightarrow> 'v dlist cptr" where
  "listCreate al =
     (if \<not> al then NULL
      else Ptr \<lparr>l_head = NULL, l_tail = NULL, l_dup = NULL, l_free = False, l_match = NULL, l_len = 0\<rparr>)"

fun empty_loop :: "nat \<Rightarrow> bool \<Rightarrow> nat cptr \<Rightarrow> 'v dmem \<Rightarrow> 'v dmem exec" where
  "empty_loop 0 fr current m = Some m"
| "empty_loop (Suc len) fr current m = do {
     n \<leftarrow> node_at current m;
     m \<leftarrow> free_node current (free_value fr (n_value n) m);
     empty_loop len fr (n_next n) m }"

definition listEmpty :: "'v dlist \<Rightarrow> 'v dmem \<Rightarrow> ('v dlist \<times> 'v dmem) exec" where
  "listEmpty l m = do {
     m \<leftarrow> empty_loop (unat (l_len l)) (l_free l) (l_head l) m;
     Some (l\<lparr>l_head := NULL, l_tail := NULL, l_len := 0\<rparr>, m) }"

definition listRelease :: "'v dlist \<Rightarrow> 'v dmem \<Rightarrow> 'v dmem exec" where
  "listRelease l m = map_option snd (listEmpty l m)"

definition new_node :: "nat \<Rightarrow> 'v listNode \<Rightarrow> 'v dmem \<Rightarrow> 'v dmem" where
  "new_node a n m = m\<lparr>d_heap := (d_heap m)(a \<mapsto> n)\<rparr>"

definition listAddNodeHead :: "nat cptr \<Rightarrow> 'v \<Rightarrow> 'v dlist \<Rightarrow> 'v dmem \<Rightarrow> ('v dlist cptr \<times> 'v dmem) exec" where
  "listAddNodeHead mal value l m =
     (case mal of
        NULL \<Rightarrow> Some (NULL, m)
      | Ptr a \<Rightarrow>
          if l_len l = 0 then
            Some (Ptr (l\<lparr>l_head := Ptr a, l_tail := Ptr a, l_len := l_len l + 1\<rparr>),
              new_node a (mk_node NULL NULL value) m)
          else do {
            m \<leftarrow> set_prev (l_head l) (Ptr a) (new_node a (mk_node NULL (l_head l) value) m);
            Some (Ptr (l\<lparr>l_head := Ptr a, l_len := l_len l + 1\<rparr>), m) })"

definition listAddNodeTail :: "nat cptr \<Rightarrow> 'v \<Rightarrow> 'v dlist \<Rightarrow> 'v dmem \<Rightarrow> ('v dlist cptr \<times> 'v dmem) exec" where
  "listAddNodeTail mal value l m =
     (case mal of
        NULL \<Rightarrow> Some (NULL, m)
      | Ptr a \<Rightarrow>
          if l_len l = 0 then
            Some (Ptr (l\<lparr>l_head := Ptr a, l_tail := Ptr a, l_len := l_len l + 1\<rparr>),
              new_node a (mk_node NULL NULL value) m)
          else do {
            m \<leftarrow> set_nxt (l_tail l) (Ptr a) (new_node a (mk_node (l_tail l) NULL value) m);
            Some (Ptr (l\<lparr>l_tail := Ptr a, l_len := l_len l + 1\<rparr>), m) })"

definition listInsertNode ::
  "nat cptr \<Rightarrow> nat cptr \<Rightarrow> 'v \<Rightarrow> bool \<Rightarrow> 'v dlist \<Rightarrow> 'v dmem \<Rightarrow> ('v dlist cptr \<times> 'v dmem) exec" where
  "listInsertNode mal old_node value after l m =
     (case mal of
        NULL \<Rightarrow> Some (NULL, m)
      | Ptr a \<Rightarrow> do {
          old \<leftarrow> node_at old_node m;
          let (pv, nx) = (if after then (old_node, n_next old) else (n_prev old, old_node));
          let l = (if after then (if l_tail l = old_node then l\<lparr>l_tail := Ptr a\<rparr> else l)
                   else (if l_head l = old_node then l\<lparr>l_head := Ptr a\<rparr> else l));
          let m = new_node a (mk_node pv nx value) m;
          m \<leftarrow> (if pv \<noteq> NULL then set_nxt pv (Ptr a) m else Some m);
          m \<leftarrow> (if nx \<noteq> NULL then set_prev nx (Ptr a) m else Some m);
          Some (Ptr (l\<lparr>l_len := l_len l + 1\<rparr>), m) })"

definition listDelNode :: "nat cptr \<Rightarrow> 'v dlist \<Rightarrow> 'v dmem \<Rightarrow> ('v dlist \<times> 'v dmem) exec" where
  "listDelNode node l m = do {
     n \<leftarrow> node_at node m;
     m \<leftarrow> (if n_prev n \<noteq> NULL then set_nxt (n_prev n) (n_next n) m else Some m);
     let l = (if n_prev n \<noteq> NULL then l else l\<lparr>l_head := n_next n\<rparr>);
     n \<leftarrow> node_at node m;
     m \<leftarrow> (if n_next n \<noteq> NULL then set_prev (n_next n) (n_prev n) m else Some m);
     let l = (if n_next n \<noteq> NULL then l else l\<lparr>l_tail := n_prev n\<rparr>);
     m \<leftarrow> free_node node (free_value (l_free l) (n_value n) m);
     Some (l\<lparr>l_len := l_len l - 1\<rparr>, m) }"

definition listRewind :: "'v dlist \<Rightarrow> listIter" where
  "listRewind l = \<lparr>it_next = l_head l, it_from_head = True\<rparr>"

definition listRewindTail :: "'v dlist \<Rightarrow> listIter" where
  "listRewindTail l = \<lparr>it_next = l_tail l, it_from_head = False\<rparr>"

definition listGetIterator :: "bool \<Rightarrow> 'v dlist \<Rightarrow> bool \<Rightarrow> listIter cptr" where
  "listGetIterator al l from_head =
     (if \<not> al then NULL
      else Ptr \<lparr>it_next = (if from_head then l_head l else l_tail l), it_from_head = from_head\<rparr>)"

definition listNext :: "listIter \<Rightarrow> 'v dmem \<Rightarrow> (nat cptr \<times> listIter) exec" where
  "listNext iter m =
     (case it_next iter of
        NULL \<Rightarrow> Some (NULL, iter)
      | Ptr a \<Rightarrow> do {
          n \<leftarrow> node_at (Ptr a) m;
          Some (Ptr a, iter\<lparr>it_next := (if it_from_head iter then n_next n else n_prev n)\<rparr>) })"

text \<open>
  The loops over an iterator end only when \<open>listNext\<close> returns \<open>NULL\<close>, which a damaged list may
  never do: they are partial functions, and that they return is part of what is proved.
\<close>

definition dup_value :: "'v dlist \<Rightarrow> 'v \<Rightarrow> 'v cptr" where
  "dup_value l v = (case l_dup l of NULL \<Rightarrow> Ptr v | Ptr dup \<Rightarrow> dup v)"

partial_function (option) dup_loop ::
  "(nat \<Rightarrow> nat cptr) \<Rightarrow> nat \<Rightarrow> listIter \<Rightarrow> 'v dlist \<Rightarrow> 'v dmem \<Rightarrow> ('v dlist cptr \<times> 'v dmem) exec" where
  "dup_loop mal k iter copy m = do {
     (node, iter) \<leftarrow> listNext iter m;
     if node = NULL then Some (Ptr copy, m)
     else do {
       n \<leftarrow> node_at node m;
       (case dup_value copy (n_value n) of
          NULL \<Rightarrow> do { m \<leftarrow> listRelease copy m; Some (NULL, m) }
        | Ptr value \<Rightarrow> do {
            (r, m) \<leftarrow> listAddNodeTail (mal k) value copy m;
            (case r of
               NULL \<Rightarrow> do {
                 m \<leftarrow> listRelease copy (free_value (l_free copy) value m);
                 Some (NULL, m) }
             | Ptr copy \<Rightarrow> dup_loop mal (Suc k) iter copy m) }) } }"

definition listDup ::
  "bool \<Rightarrow> (nat \<Rightarrow> nat cptr) \<Rightarrow> 'v dlist \<Rightarrow> 'v dmem \<Rightarrow> ('v dlist cptr \<times> 'v dmem) exec" where
  "listDup al mal orig m =
     (case listCreate al of
        NULL \<Rightarrow> Some (NULL, m)
      | Ptr copy \<Rightarrow>
          dup_loop mal 0 (listRewind orig)
            (copy\<lparr>l_dup := l_dup orig, l_free := l_free orig, l_match := l_match orig\<rparr>) m)"

partial_function (option) search_loop ::
  "('v \<Rightarrow> bool) \<Rightarrow> listIter \<Rightarrow> 'v dmem \<Rightarrow> nat cptr exec" where
  "search_loop hit iter m = do {
     (node, iter) \<leftarrow> listNext iter m;
     if node = NULL then Some NULL
     else do {
       n \<leftarrow> node_at node m;
       if hit (n_value n) then Some node else search_loop hit iter m } }"

definition listSearchKey :: "'v dlist \<Rightarrow> 'v \<Rightarrow> 'v dmem \<Rightarrow> nat cptr exec" where
  "listSearchKey l key m =
     search_loop (case l_match l of NULL \<Rightarrow> (\<lambda>v. key = v) | Ptr match \<Rightarrow> (\<lambda>v. match v key))
       (listRewind l) m"

fun index_loop :: "bool \<Rightarrow> nat \<Rightarrow> nat cptr \<Rightarrow> 'v dmem \<Rightarrow> nat cptr exec" where
  "index_loop fwd 0 n m = Some n"
| "index_loop fwd (Suc index) n m =
     (if n = NULL then Some NULL
      else do {
        nd \<leftarrow> node_at n m;
        index_loop fwd index (if fwd then n_next nd else n_prev nd) m })"

definition listIndex :: "'v dlist \<Rightarrow> int \<Rightarrow> 'v dmem \<Rightarrow> nat cptr exec" where
  "listIndex l index m =
     (if index < 0 then do {
        i \<leftarrow> c_int (- index);
        index_loop False (nat (i - 1)) (l_tail l) m }
      else index_loop True (nat index) (l_head l) m)"

definition listRotateTailToHead :: "'v dlist \<Rightarrow> 'v dmem \<Rightarrow> ('v dlist \<times> 'v dmem) exec" where
  "listRotateTailToHead l m =
     (if l_len l \<le> 1 then Some (l, m)
      else do {
        let tail = l_tail l;
        t \<leftarrow> node_at tail m;
        let l = l\<lparr>l_tail := n_prev t\<rparr>;
        m \<leftarrow> set_nxt (l_tail l) NULL m;
        m \<leftarrow> set_prev (l_head l) tail m;
        m \<leftarrow> set_prev tail NULL m;
        m \<leftarrow> set_nxt tail (l_head l) m;
        Some (l\<lparr>l_head := tail\<rparr>, m) })"

definition listRotateHeadToTail :: "'v dlist \<Rightarrow> 'v dmem \<Rightarrow> ('v dlist \<times> 'v dmem) exec" where
  "listRotateHeadToTail l m =
     (if l_len l \<le> 1 then Some (l, m)
      else do {
        let head = l_head l;
        h \<leftarrow> node_at head m;
        let l = l\<lparr>l_head := n_next h\<rparr>;
        m \<leftarrow> set_prev (l_head l) NULL m;
        m \<leftarrow> set_nxt (l_tail l) head m;
        m \<leftarrow> set_nxt head NULL m;
        m \<leftarrow> set_prev head (l_tail l) m;
        Some (l\<lparr>l_tail := head\<rparr>, m) })"

definition listJoin :: "'v dlist \<Rightarrow> 'v dlist \<Rightarrow> 'v dmem \<Rightarrow> ('v dlist \<times> 'v dlist \<times> 'v dmem) exec" where
  "listJoin l ot m =
     (if l_len ot = 0 then Some (l, ot, m)
      else do {
        m \<leftarrow> set_prev (l_head ot) (l_tail l) m;
        m \<leftarrow> (if l_tail l \<noteq> NULL then set_nxt (l_tail l) (l_head ot) m else Some m);
        let l = (if l_tail l \<noteq> NULL then l else l\<lparr>l_head := l_head ot\<rparr>);
        Some (l\<lparr>l_tail := l_tail ot, l_len := l_len l + l_len ot\<rparr>,
          ot\<lparr>l_head := NULL, l_tail := NULL, l_len := 0\<rparr>, m) })"

subsection \<open>Reading the heap as a list\<close>

text \<open>
  \<open>dseg h p cs n\<close>: the cells \<open>cs\<close>, given with their addresses, are linked in both directions;
  the first one points back to \<open>p\<close> and the last one on to \<open>n\<close>.
\<close>

fun first_of :: "(nat \<times> 'v) list \<Rightarrow> nat cptr \<Rightarrow> nat cptr" where
  "first_of [] n = n"
| "first_of ((a, v) # cs) n = Ptr a"

fun last_of :: "nat cptr \<Rightarrow> (nat \<times> 'v) list \<Rightarrow> nat cptr" where
  "last_of p [] = p"
| "last_of p ((a, v) # cs) = last_of (Ptr a) cs"

fun dseg :: "(nat \<rightharpoonup> 'v listNode) \<Rightarrow> nat cptr \<Rightarrow> (nat \<times> 'v) list \<Rightarrow> nat cptr \<Rightarrow> bool" where
  "dseg h p [] n \<longleftrightarrow> True"
| "dseg h p ((a, v) # cs) n \<longleftrightarrow> h a = Some (mk_node p (first_of cs n) v) \<and> dseg h (Ptr a) cs n"

definition list_rep :: "'v dlist \<Rightarrow> 'v dmem \<Rightarrow> (nat \<times> 'v) list \<Rightarrow> bool" where
  "list_rep l m cs \<longleftrightarrow> distinct (addrs cs) \<and> dseg (d_heap m) NULL cs NULL
     \<and> l_head l = first_of cs NULL \<and> l_tail l = last_of NULL cs
     \<and> length cs < 2 ^ 32 \<and> l_len l = of_nat (length cs)"

lemma first_of_append [simp]: "first_of (xs @ ys) n = first_of xs (first_of ys n)"
  by (cases xs) auto

lemma last_of_append [simp]: "last_of p (xs @ ys) = last_of (last_of p xs) ys"
  by (induction p xs rule: last_of.induct) auto

lemma dseg_append [simp]:
  "dseg h p (xs @ ys) n \<longleftrightarrow> dseg h p xs (first_of ys n) \<and> dseg h (last_of p xs) ys n"
  by (induction h p xs n rule: dseg.induct) auto

lemma dseg_frame [simp]: "a \<notin> set (addrs cs) \<Longrightarrow> dseg (h(a := c)) p cs n = dseg h p cs n"
  by (induction h p cs n rule: dseg.induct) auto

lemma dseg_None_frame: "h a = None \<Longrightarrow> dseg h p cs n \<Longrightarrow> a \<notin> set (addrs cs)"
  by (induction h p cs n rule: dseg.induct) auto

lemma first_of_NULL_iff [simp]: "first_of cs NULL = NULL \<longleftrightarrow> cs = []"
  by (cases cs) auto

lemma last_of_NULL_iff [simp]: "last_of NULL cs = NULL \<longleftrightarrow> cs = []"
  by (cases cs rule: rev_cases) auto

lemma list_rep_len:
  assumes "list_rep l m cs"
  shows "l_len l = 0 \<longleftrightarrow> cs = []" "unat (l_len l) = length cs" "l_len l \<le> 1 \<longleftrightarrow> length cs \<le> 1"
proof -
  show *: "unat (l_len l) = length cs"
    using assms by (simp add: list_rep_def unat_of_nat)
  show "l_len l = 0 \<longleftrightarrow> cs = []"
    using * by (metis length_0_conv unat_eq_zero)
  show "l_len l \<le> 1 \<longleftrightarrow> length cs \<le> 1"
    using * by (simp add: word_le_nat_alt)
qed

text \<open>What an operation leaves alone: the nodes outside \<open>as\<close> and the methods of the list.\<close>

definition only_nodes :: "nat set \<Rightarrow> 'v dmem \<Rightarrow> 'v dmem \<Rightarrow> bool" where
  "only_nodes as m m' \<longleftrightarrow> (\<forall>b. b \<notin> as \<longrightarrow> d_heap m' b = d_heap m b)"

definition same_methods :: "'v dlist \<Rightarrow> 'v dlist \<Rightarrow> bool" where
  "same_methods l l' \<longleftrightarrow> l_dup l' = l_dup l \<and> l_free l' = l_free l \<and> l_match l' = l_match l"

lemma dseg_only_nodes:
  "only_nodes as m m' \<Longrightarrow> set (addrs cs) \<inter> as = {} \<Longrightarrow> dseg (d_heap m') p cs n = dseg (d_heap m) p cs n"
  by (induction "d_heap m" p cs n rule: dseg.induct) (auto simp: only_nodes_def)

lemma list_rep_other:
  "list_rep l m cs \<Longrightarrow> only_nodes as m m' \<Longrightarrow> set (addrs cs) \<inter> as = {} \<Longrightarrow> list_rep l m' cs"
  by (simp add: list_rep_def dseg_only_nodes)

lemmas dl_unfold = list_rep_def only_nodes_def same_methods_def new_node_def free_value_def

lemma add_head_rep:
  assumes "list_rep l m cs" and "a \<notin> set (addrs cs)" and "Suc (length cs) < 2 ^ 32"
  shows "\<exists>l' m'. listAddNodeHead (Ptr a) v l m = Some (Ptr l', m') \<and> list_rep l' m' ((a, v) # cs)
    \<and> only_nodes (insert a (set (addrs cs))) m m' \<and> same_methods l l' \<and> d_freed m' = d_freed m"
proof (cases cs)
  case Nil
  with assms list_rep_len(1) [OF assms(1)] show ?thesis
    by (simp add: listAddNodeHead_def dl_unfold)
next
  case (Cons c cs')
  obtain b w where "c = (b, w)" by (cases c)
  with assms Cons list_rep_len(1) [OF assms(1)] show ?thesis
    by (auto simp: listAddNodeHead_def dl_unfold dl_simps)
qed

lemma add_tail_rep:
  assumes "list_rep l m cs" and "a \<notin> set (addrs cs)" and "Suc (length cs) < 2 ^ 32"
  shows "\<exists>l' m'. listAddNodeTail (Ptr a) v l m = Some (Ptr l', m') \<and> list_rep l' m' (cs @ [(a, v)])
    \<and> only_nodes (insert a (set (addrs cs))) m m' \<and> same_methods l l' \<and> d_freed m' = d_freed m"
proof (cases cs rule: rev_cases)
  case Nil
  with assms list_rep_len(1) [OF assms(1)] show ?thesis
    by (simp add: listAddNodeTail_def dl_unfold)
next
  case (snoc cs' c)
  obtain b w where "c = (b, w)" by (cases c)
  with assms snoc list_rep_len(1) [OF assms(1)] show ?thesis
    by (auto simp: listAddNodeTail_def dl_unfold dl_simps)
qed

lemma del_rep:
  assumes "list_rep l m (xs @ (a, v) # ys)"
  shows "\<exists>l' m'. listDelNode (Ptr a) l m = Some (l', m') \<and> list_rep l' m' (xs @ ys)
    \<and> only_nodes (set (addrs (xs @ (a, v) # ys))) m m' \<and> d_heap m' a = None \<and> same_methods l l'
    \<and> d_freed m' = d_freed m @ (if l_free l then [v] else [])"
proof (cases xs rule: rev_cases)
  case Nil
  with assms show ?thesis
    by (cases ys) (auto simp: listDelNode_def dl_unfold dl_simps)
next
  case (snoc xs' x)
  obtain b w where "x = (b, w)" by (cases x)
  with assms snoc show ?thesis
    by (cases ys) (auto simp: listDelNode_def dl_unfold dl_simps)
qed

lemma insert_after_rep:
  assumes "list_rep l m (xs @ (b, w) # ys)" and "a \<notin> set (addrs (xs @ (b, w) # ys))"
    and "Suc (length (xs @ (b, w) # ys)) < 2 ^ 32"
  shows "\<exists>l' m'. listInsertNode (Ptr a) (Ptr b) v True l m = Some (Ptr l', m')
    \<and> list_rep l' m' (xs @ (b, w) # (a, v) # ys)
    \<and> only_nodes (insert a (set (addrs (xs @ (b, w) # ys)))) m m' \<and> same_methods l l' \<and> d_freed m' = d_freed m"
proof (cases ys)
  case Nil
  with assms show ?thesis
    by (auto simp: listInsertNode_def dl_unfold dl_simps)
next
  case (Cons y ys')
  obtain c u where y: "y = (c, u)" by (cases y)
  have "last_of (Ptr c) ys' \<noteq> Ptr b"
    using assms(1) unfolding Cons y list_rep_def by (cases ys' rule: rev_cases) auto
  with assms Cons y show ?thesis
    by (auto simp: listInsertNode_def dl_unfold dl_simps)
qed

lemma insert_before_rep:
  assumes "list_rep l m (xs @ (b, w) # ys)" and "a \<notin> set (addrs (xs @ (b, w) # ys))"
    and "Suc (length (xs @ (b, w) # ys)) < 2 ^ 32"
  shows "\<exists>l' m'. listInsertNode (Ptr a) (Ptr b) v False l m = Some (Ptr l', m')
    \<and> list_rep l' m' (xs @ (a, v) # (b, w) # ys)
    \<and> only_nodes (insert a (set (addrs (xs @ (b, w) # ys)))) m m' \<and> same_methods l l' \<and> d_freed m' = d_freed m"
proof (cases xs rule: rev_cases)
  case Nil
  with assms show ?thesis
    by (auto simp: listInsertNode_def dl_unfold dl_simps)
next
  case (snoc xs' x)
  obtain c u where x: "x = (c, u)" by (cases x)
  have "first_of xs' (Ptr c) \<noteq> Ptr b"
    using assms(1) unfolding snoc x list_rep_def by (cases xs') auto
  with assms snoc x show ?thesis
    by (auto simp: listInsertNode_def dl_unfold dl_simps)
qed

lemma rotate_tail_rep:
  assumes "list_rep l m (xs @ [c])"
  shows "\<exists>l' m'. listRotateTailToHead l m = Some (l', m') \<and> list_rep l' m' (c # xs)
    \<and> only_nodes (set (addrs (xs @ [c]))) m m' \<and> same_methods l l' \<and> d_freed m' = d_freed m"
proof (cases xs rule: rev_cases)
  case Nil
  with assms list_rep_len(3) [OF assms] show ?thesis
    by (cases c) (auto simp: listRotateTailToHead_def dl_unfold)
next
  case (snoc xs' x)
  obtain a v b w where "c = (a, v)" "x = (b, w)" by (cases c; cases x)
  with assms snoc list_rep_len(3) [OF assms] show ?thesis
    by (cases xs') (auto simp: listRotateTailToHead_def Let_def dl_unfold dl_simps)
qed

lemma rotate_head_rep:
  assumes "list_rep l m (c # xs)"
  shows "\<exists>l' m'. listRotateHeadToTail l m = Some (l', m') \<and> list_rep l' m' (xs @ [c])
    \<and> only_nodes (set (addrs (c # xs))) m m' \<and> same_methods l l' \<and> d_freed m' = d_freed m"
proof (cases xs)
  case Nil
  with assms list_rep_len(3) [OF assms] show ?thesis
    by (cases c) (auto simp: listRotateHeadToTail_def dl_unfold)
next
  case (Cons x xs')
  obtain a v b w where "c = (a, v)" "x = (b, w)" by (cases c; cases x)
  with assms Cons list_rep_len(3) [OF assms] show ?thesis
    by (cases xs' rule: rev_cases) (auto simp: listRotateHeadToTail_def Let_def dl_unfold dl_simps)
qed

lemma rotate_empty:
  assumes "list_rep l m []"
  shows "listRotateTailToHead l m = Some (l, m)" "listRotateHeadToTail l m = Some (l, m)"
  using list_rep_len(3) [OF assms] by (simp_all add: listRotateTailToHead_def listRotateHeadToTail_def)

subsection \<open>Scripts of edits\<close>

text \<open>
  An edit of a list, as its callers make them: the addresses in \<open>AddHead\<close>, \<open>AddTail\<close> and
  \<open>Insert\<close> are what \<open>malloc\<close> returns, \<open>Insert\<close> and \<open>Del\<close> also take the node they work at.
  A caller that gets \<open>NULL\<close> back goes on with the list it had.
\<close>

datatype 'v ledit = AddHead "nat cptr" 'v | AddTail "nat cptr" 'v | Insert bool nat "nat cptr" 'v
  | Del nat | RotateTail | RotateHead

definition keep_list :: "'v dlist \<Rightarrow> 'v dlist cptr \<times> 'v dmem \<Rightarrow> 'v dlist \<times> 'v dmem" where
  "keep_list l r = (case fst r of NULL \<Rightarrow> l | Ptr l' \<Rightarrow> l', snd r)"

fun edit_impl :: "'v ledit \<Rightarrow> 'v dlist \<times> 'v dmem \<Rightarrow> ('v dlist \<times> 'v dmem) exec" where
  "edit_impl (AddHead p v) (l, m) = map_option (keep_list l) (listAddNodeHead p v l m)"
| "edit_impl (AddTail p v) (l, m) = map_option (keep_list l) (listAddNodeTail p v l m)"
| "edit_impl (Insert after b p v) (l, m) = map_option (keep_list l) (listInsertNode p (Ptr b) v after l m)"
| "edit_impl (Del b) (l, m) = listDelNode (Ptr b) l m"
| "edit_impl RotateTail (l, m) = listRotateTailToHead l m"
| "edit_impl RotateHead (l, m) = listRotateHeadToTail l m"

fun new_cell :: "nat cptr \<Rightarrow> 'v \<Rightarrow> (nat \<times> 'v) list" where
  "new_cell NULL v = []"
| "new_cell (Ptr a) v = [(a, v)]"

fun edit_spec :: "'v ledit \<Rightarrow> (nat \<times> 'v) list \<Rightarrow> (nat \<times> 'v) list" where
  "edit_spec (AddHead p v) cs = new_cell p v @ cs"
| "edit_spec (AddTail p v) cs = cs @ new_cell p v"
| "edit_spec (Insert after b p v) cs =
     takeWhile (\<lambda>c. fst c \<noteq> b) cs @
     (case dropWhile (\<lambda>c. fst c \<noteq> b) cs of
        [] \<Rightarrow> []
      | c # cs' \<Rightarrow> (if after then c # new_cell p v else new_cell p v @ [c]) @ cs')"
| "edit_spec (Del b) cs = filter (\<lambda>c. fst c \<noteq> b) cs"
| "edit_spec RotateTail cs = (if cs = [] then [] else last cs # butlast cs)"
| "edit_spec RotateHead cs = rotate1 cs"

fun fresh_for :: "nat cptr \<Rightarrow> (nat \<times> 'v) list \<Rightarrow> bool" where
  "fresh_for NULL cs \<longleftrightarrow> True"
| "fresh_for (Ptr a) cs \<longleftrightarrow> a \<notin> set (addrs cs) \<and> Suc (length cs) < 2 ^ 32"

fun edit_ok :: "'v ledit \<Rightarrow> (nat \<times> 'v) list \<Rightarrow> bool" where
  "edit_ok (AddHead p v) cs \<longleftrightarrow> fresh_for p cs"
| "edit_ok (AddTail p v) cs \<longleftrightarrow> fresh_for p cs"
| "edit_ok (Insert after b p v) cs \<longleftrightarrow> fresh_for p cs \<and> b \<in> set (addrs cs)"
| "edit_ok (Del b) cs \<longleftrightarrow> b \<in> set (addrs cs)"
| "edit_ok RotateTail cs \<longleftrightarrow> True"
| "edit_ok RotateHead cs \<longleftrightarrow> True"

text \<open>
  A simulation of a list of steps: \<open>R\<close> relates the state of the code to its reading, and each
  step allowed on the reading succeeds and keeps them related.
\<close>

fun run_steps :: "('o \<Rightarrow> 's \<Rightarrow> 's exec) \<Rightarrow> 'o list \<Rightarrow> 's \<Rightarrow> 's exec" where
  "run_steps step [] s = Some s"
| "run_steps step (x # xs) s = do { s \<leftarrow> step x s; run_steps step xs s }"

fun steps_ok :: "('o \<Rightarrow> 'a \<Rightarrow> bool) \<Rightarrow> ('o \<Rightarrow> 'a \<Rightarrow> 'a) \<Rightarrow> 'o list \<Rightarrow> 'a \<Rightarrow> bool" where
  "steps_ok ok astep [] t \<longleftrightarrow> True"
| "steps_ok ok astep (x # xs) t \<longleftrightarrow> ok x t \<and> steps_ok ok astep xs (astep x t)"

locale simulation =
  fixes R :: "'s \<Rightarrow> 'a \<Rightarrow> bool"
    and ok :: "'o \<Rightarrow> 'a \<Rightarrow> bool"
    and step :: "'o \<Rightarrow> 's \<Rightarrow> 's exec"
    and astep :: "'o \<Rightarrow> 'a \<Rightarrow> 'a"
  assumes step_law: "R s t \<Longrightarrow> ok x t \<Longrightarrow> \<exists>s'. step x s = Some s' \<and> R s' (astep x t)"
begin

lemma runs:
  assumes "R s t" and "steps_ok ok astep xs t"
  shows "\<exists>s'. run_steps step xs s = Some s' \<and> R s' (fold astep xs t)"
  using assms
proof (induction xs arbitrary: s t)
  case (Cons x xs)
  then obtain s1 where "step x s = Some s1" "R s1 (astep x t)"
    using step_law [of s t x] by auto
  with Cons show ?case by auto
qed auto

end

lemma keep_list_simps [simp]: "keep_list l (NULL, m) = (l, m)" "keep_list l (Ptr l', m) = (l', m)"
  by (simp_all add: keep_list_def)

lemma in_addrs_split:
  assumes "b \<in> set (addrs cs)" and "distinct (addrs cs)"
  obtains xs w ys where "cs = xs @ (b, w) # ys" "b \<notin> set (addrs xs)" "b \<notin> set (addrs ys)"
    "takeWhile (\<lambda>c. fst c \<noteq> b) cs = xs" "dropWhile (\<lambda>c. fst c \<noteq> b) cs = (b, w) # ys"
    "filter (\<lambda>c. fst c \<noteq> b) cs = xs @ ys"
proof -
  from assms(1) obtain w where "(b, w) \<in> set cs" by auto
  then obtain xs ys where cs: "cs = xs @ (b, w) # ys" by (auto simp: in_set_conv_decomp)
  with assms have ne: "b \<notin> set (addrs xs)" "b \<notin> set (addrs ys)" by auto
  then have "\<forall>c \<in> set xs. fst c \<noteq> b" "\<forall>c \<in> set ys. fst c \<noteq> b" by auto
  then have "filter (\<lambda>c. fst c \<noteq> b) cs = xs @ ys" "takeWhile (\<lambda>c. fst c \<noteq> b) cs = xs"
    "dropWhile (\<lambda>c. fst c \<noteq> b) cs = (b, w) # ys"
    by (auto simp: cs filter_id_conv takeWhile_append2 dropWhile_append2)
  with that cs ne show thesis by blast
qed

definition edit_rel :: "'v dlist \<times> 'v dmem \<Rightarrow> (nat \<times> 'v) list \<Rightarrow> bool" where
  "edit_rel s cs \<longleftrightarrow> list_rep (fst s) (snd s) cs"

lemma edit_step:
  assumes "list_rep l m cs" and "edit_ok x cs"
  shows "\<exists>s'. edit_impl x (l, m) = Some s' \<and> edit_rel s' (edit_spec x cs)"
proof (cases x)
  case (AddHead p v)
  with assms add_head_rep [of l m cs] show ?thesis
    by (cases p) (fastforce simp: edit_rel_def listAddNodeHead_def)+
next
  case (AddTail p v)
  with assms add_tail_rep [of l m cs] show ?thesis
    by (cases p) (fastforce simp: edit_rel_def listAddNodeTail_def)+
next
  case (Insert after b p v)
  with assms have "b \<in> set (addrs cs)" "distinct (addrs cs)" by (simp_all add: list_rep_def)
  then obtain xs w ys where "cs = xs @ (b, w) # ys"
    "takeWhile (\<lambda>c. fst c \<noteq> b) cs = xs" "dropWhile (\<lambda>c. fst c \<noteq> b) cs = (b, w) # ys"
    by (rule in_addrs_split)
  note cs = this
  show ?thesis
  proof (cases p)
    case NULL
    with assms cs Insert show ?thesis
      by (simp add: edit_rel_def listInsertNode_def)
  next
    case (Ptr a)
    with assms Insert have fr: "a \<notin> set (addrs cs)" "Suc (length cs) < 2 ^ 32" by simp_all
    have "\<exists>l' m'. listInsertNode (Ptr a) (Ptr b) v after l m = Some (Ptr l', m')
        \<and> list_rep l' m' (xs @ (if after then [(b, w), (a, v)] else [(a, v), (b, w)]) @ ys)"
      using insert_after_rep [of l m xs b w ys a v] insert_before_rep [of l m xs b w ys a v]
        assms(1) fr unfolding cs(1) by (cases after) fastforce+
    then show ?thesis
      using cs Insert Ptr by (cases after) (auto simp: edit_rel_def)
  qed
next
  case (Del b)
  with assms have "b \<in> set (addrs cs)" "distinct (addrs cs)" by (simp_all add: list_rep_def)
  then obtain xs w ys where "cs = xs @ (b, w) # ys" "filter (\<lambda>c. fst c \<noteq> b) cs = xs @ ys"
    by (rule in_addrs_split)
  with assms Del del_rep [of l m xs b w ys] show ?thesis
    by (fastforce simp: edit_rel_def)
next
  case RotateTail
  with assms rotate_tail_rep [of l m "butlast cs" "last cs"] rotate_empty(1) [of l m] show ?thesis
    by (cases "cs = []") (fastforce simp: edit_rel_def)+
next
  case RotateHead
  with assms rotate_head_rep [of l m] rotate_empty(2) [of l m] show ?thesis
    by (cases cs) (fastforce simp: edit_rel_def)+
qed

interpretation le: simulation edit_rel edit_ok edit_impl edit_spec
  by unfold_locales (metis edit_rel_def edit_step surjective_pairing)

subsection \<open>Iteration\<close>

lemma listNext_NULL [simp]: "it_next iter = NULL \<Longrightarrow> listNext iter m = Some (NULL, iter)"
  by (simp add: listNext_def)

lemma listNext_fwd:
  "dseg (d_heap m) p ((a, v) # cs) NULL \<Longrightarrow>
   listNext \<lparr>it_next = Ptr a, it_from_head = True\<rparr> m
     = Some (Ptr a, \<lparr>it_next = first_of cs NULL, it_from_head = True\<rparr>)"
  by (simp add: listNext_def node_at_def)

lemma search_loop_fwd:
  "dseg (d_heap m) p cs NULL \<Longrightarrow>
   search_loop hit \<lparr>it_next = first_of cs NULL, it_from_head = True\<rparr> m
     = Some (case find (\<lambda>c. hit (snd c)) cs of None \<Rightarrow> NULL | Some c \<Rightarrow> Ptr (fst c))"
proof (induction cs arbitrary: p)
  case Nil
  then show ?case by (subst search_loop.simps) simp
next
  case (Cons c cs)
  obtain a v where c: "c = (a, v)" by (cases c)
  with Cons listNext_fwd [of m p a v cs] show ?case
    by (subst search_loop.simps) (auto simp: node_at_def)
qed

text \<open>
  The loop of the documented usage pattern, whose body may delete the node it was given: nodes
  whose value satisfies \<open>gone\<close> are deleted, in either direction.
\<close>

partial_function (option) sweep_loop ::
  "('v \<Rightarrow> bool) \<Rightarrow> listIter \<Rightarrow> 'v dlist \<Rightarrow> 'v dmem \<Rightarrow> ('v dlist \<times> 'v dmem) exec" where
  "sweep_loop gone iter l m = do {
     (node, iter) \<leftarrow> listNext iter m;
     if node = NULL then Some (l, m)
     else do {
       n \<leftarrow> node_at node m;
       (l, m) \<leftarrow> (if gone (n_value n) then listDelNode node l m else Some (l, m));
       sweep_loop gone iter l m } }"

lemma node_mid:
  "list_rep l m (xs @ (a, v) # ys) \<Longrightarrow>
   d_heap m a = Some (mk_node (last_of NULL xs) (first_of ys NULL) v)"
  by (simp add: list_rep_def)

lemma sweep_step:
  assumes "list_rep l m (xs @ (a, v) # ys)"
  shows "\<exists>l' m'. (if gone v then listDelNode (Ptr a) l m else Some (l, m)) = Some (l', m')
    \<and> list_rep l' m' (xs @ (if gone v then [] else [(a, v)]) @ ys)
    \<and> l_free l' = l_free l \<and> d_freed m' = d_freed m @ (if l_free l \<and> gone v then [v] else [])"
  using del_rep [OF assms] assms by (auto simp: same_methods_def)

lemma sweep_fwd:
  "list_rep l m (xs @ ys) \<Longrightarrow>
   \<exists>l' m'. sweep_loop gone \<lparr>it_next = first_of ys NULL, it_from_head = True\<rparr> l m = Some (l', m')
     \<and> list_rep l' m' (xs @ filter (\<lambda>c. \<not> gone (snd c)) ys)
     \<and> d_freed m' = d_freed m @ (if l_free l then filter gone (datas ys) else [])"
proof (induction ys arbitrary: xs l m)
  case Nil
  then show ?case by (subst sweep_loop.simps) auto
next
  case (Cons c ys)
  obtain a v where c: "c = (a, v)" by (cases c)
  let ?keep = "xs @ (if gone v then [] else [(a, v)])"
  obtain l1 m1 where s: "list_rep l1 m1 (?keep @ ys)" "l_free l1 = l_free l"
    "(if gone v then listDelNode (Ptr a) l m else Some (l, m)) = Some (l1, m1)"
    "d_freed m1 = d_freed m @ (if l_free l \<and> gone v then [v] else [])"
    using sweep_step [of l m xs a v ys gone] Cons.prems unfolding c append_assoc append_Cons append_Nil
    by blast
  have "sweep_loop gone \<lparr>it_next = Ptr a, it_from_head = True\<rparr> l m
      = sweep_loop gone \<lparr>it_next = first_of ys NULL, it_from_head = True\<rparr> l1 m1"
    using node_mid [of l m xs a v ys] Cons.prems
    by (subst sweep_loop.simps) (simp add: c s(3) listNext_def node_at_def)
  with Cons.IH [OF s(1)] s(2,4) show ?case
    by (cases "gone v"; cases "l_free l") (simp_all add: c)
qed

lemma sweep_bwd:
  "list_rep l m (xs @ ys) \<Longrightarrow>
   \<exists>l' m'. sweep_loop gone \<lparr>it_next = last_of NULL xs, it_from_head = False\<rparr> l m = Some (l', m')
     \<and> list_rep l' m' (filter (\<lambda>c. \<not> gone (snd c)) xs @ ys)
     \<and> d_freed m' = d_freed m @ (if l_free l then filter gone (rev (datas xs)) else [])"
proof (induction xs arbitrary: ys l m rule: rev_induct)
  case Nil
  then show ?case by (subst sweep_loop.simps) auto
next
  case (snoc c xs)
  obtain a v where c: "c = (a, v)" by (cases c)
  let ?keep = "(if gone v then [] else [(a, v)]) @ ys"
  obtain l1 m1 where s: "list_rep l1 m1 (xs @ ?keep)" "l_free l1 = l_free l"
    "(if gone v then listDelNode (Ptr a) l m else Some (l, m)) = Some (l1, m1)"
    "d_freed m1 = d_freed m @ (if l_free l \<and> gone v then [v] else [])"
    using sweep_step [of l m xs a v ys gone] snoc.prems unfolding c append_assoc append_Cons append_Nil
    by blast
  have "sweep_loop gone \<lparr>it_next = Ptr a, it_from_head = False\<rparr> l m
      = sweep_loop gone \<lparr>it_next = last_of NULL xs, it_from_head = False\<rparr> l1 m1"
    using node_mid [of l m xs a v ys] snoc.prems
    by (subst sweep_loop.simps) (simp add: c s(3) listNext_def node_at_def)
  with snoc.IH [OF s(1)] s(2,4) show ?case
    by (cases "gone v"; cases "l_free l") (simp_all add: c)
qed

lemma index_fwd:
  "dseg (d_heap m) p cs NULL \<Longrightarrow>
   index_loop True i (first_of cs NULL) m = Some (if i < length cs then Ptr (fst (cs ! i)) else NULL)"
proof (induction cs arbitrary: p i)
  case Nil
  then show ?case by (cases i) auto
next
  case (Cons c cs)
  then show ?case by (cases c; cases i) (auto simp: node_at_def)
qed

lemma index_bwd:
  "dseg (d_heap m) NULL cs n \<Longrightarrow>
   index_loop False i (last_of NULL cs) m = Some (if i < length cs then Ptr (fst (rev cs ! i)) else NULL)"
proof (induction cs arbitrary: n i rule: rev_induct)
  case Nil
  then show ?case by (cases i) auto
next
  case (snoc c cs)
  then show ?case by (cases c; cases i) (auto simp: node_at_def)
qed

subsection \<open>Release, duplication and concatenation\<close>

lemma empty_loop_rep:
  "dseg (d_heap m) p cs n \<Longrightarrow> distinct (addrs cs) \<Longrightarrow>
   empty_loop (length cs) fr (first_of cs n) m =
     Some (m\<lparr>d_heap := d_heap m |` (- set (addrs cs)), d_freed := d_freed m @ (if fr then datas cs else [])\<rparr>)"
proof (induction cs arbitrary: p m)
  case (Cons c cs)
  obtain a v where c: "c = (a, v)" by (cases c)
  let ?m = "(free_value fr v m)\<lparr>d_heap := (d_heap m)(a := None)\<rparr>"
  have "dseg (d_heap ?m) (Ptr a) cs n" using Cons.prems by (simp add: c)
  from Cons.IH [OF this] Cons.prems show ?case
    by (auto simp: c dl_simps free_value_def restrict_map_def fun_eq_iff)
qed (simp add: restrict_map_def)

lemma empty_rep:
  assumes "list_rep l m cs"
  shows "listEmpty l m = Some (l\<lparr>l_head := NULL, l_tail := NULL, l_len := 0\<rparr>,
      m\<lparr>d_heap := d_heap m |` (- set (addrs cs)), d_freed := d_freed m @ (if l_free l then datas cs else [])\<rparr>)"
  using assms empty_loop_rep [of m NULL cs NULL "l_free l"] list_rep_len(2) [OF assms]
  by (simp add: listEmpty_def list_rep_def)

text \<open>
  What \<open>listDup\<close> copies before it stops: the cells of the copy, the value that was duplicated
  but not stored, and whether it reached the end.
\<close>

fun dup_spec :: "('v \<Rightarrow> 'v cptr) \<Rightarrow> (nat \<Rightarrow> nat cptr) \<Rightarrow> nat \<Rightarrow> 'v list \<Rightarrow> (nat \<times> 'v) list \<times> 'v list \<times> bool" where
  "dup_spec dv mal k [] = ([], [], True)"
| "dup_spec dv mal k (v # vs) =
     (case dv v of
        NULL \<Rightarrow> ([], [], False)
      | Ptr w \<Rightarrow>
          (case mal k of
             NULL \<Rightarrow> ([], [w], False)
           | Ptr b \<Rightarrow> (let (cs, pend, fin) = dup_spec dv mal (Suc k) vs in ((b, w) # cs, pend, fin))))"

text \<open>The answers of \<open>malloc\<close> are free cells, and no cell is given out twice.\<close>

definition fresh_cells :: "(nat \<Rightarrow> nat cptr) \<Rightarrow> 'v dmem \<Rightarrow> bool" where
  "fresh_cells mal m \<longleftrightarrow>
     (\<forall>i a. mal i = Ptr a \<longrightarrow> d_heap m a = None \<and> (\<forall>j. j \<noteq> i \<longrightarrow> mal j \<noteq> Ptr a))"

lemma dseg_restrict: "dseg (h |` A) p cs n \<Longrightarrow> dseg h p cs n"
  by (induction "h |` A" p cs n rule: dseg.induct) (auto simp: restrict_map_def split: if_splits)

lemma dup_loop_node:
  assumes "dseg (d_heap m) p ((a, v) # ys) NULL"
  shows "dup_loop mal k \<lparr>it_next = Ptr a, it_from_head = True\<rparr> copy m =
    (case dup_value copy v of
       NULL \<Rightarrow> do { m \<leftarrow> listRelease copy m; Some (NULL, m) }
     | Ptr value \<Rightarrow> do {
         (r, m) \<leftarrow> listAddNodeTail (mal k) value copy m;
         (case r of
            NULL \<Rightarrow> do { m \<leftarrow> listRelease copy (free_value (l_free copy) value m); Some (NULL, m) }
          | Ptr copy \<Rightarrow>
              dup_loop mal (Suc k) \<lparr>it_next = first_of ys NULL, it_from_head = True\<rparr> copy m) })"
  using assms by (subst dup_loop.simps) (simp add: listNext_def node_at_def)

lemma release_copy:
  assumes "list_rep copy m cp" and "d_heap m0 = d_heap m |` (- set (addrs cp))"
  shows "listRelease copy (free_value b w m) = Some (m\<lparr>d_heap := d_heap m0,
      d_freed := d_freed m @ (if b then [w] else []) @ (if l_free copy then datas cp else [])\<rparr>)"
    and "listRelease copy m = Some (m\<lparr>d_heap := d_heap m0,
      d_freed := d_freed m @ (if l_free copy then datas cp else [])\<rparr>)"
  using empty_rep [of copy "free_value b w m" cp] empty_rep [OF assms(1)] assms
  by (simp_all add: listRelease_def free_value_def list_rep_def)

lemma dup_fresh_step:
  assumes "\<forall>i\<ge>k. \<forall>a. mal i = Ptr a \<longrightarrow> a \<notin> set (addrs cp)" and "\<forall>j. j \<noteq> k \<longrightarrow> mal j \<noteq> Ptr b"
  shows "\<forall>i\<ge>Suc k. \<forall>a. mal i = Ptr a \<longrightarrow> a \<notin> set (addrs (cp @ [(b, w)]))"
proof (intro allI impI)
  fix i c
  assume "Suc k \<le> i" "mal i = Ptr c"
  then have "c \<notin> set (addrs cp)" "c \<noteq> b"
    using assms(1) [rule_format, of i c] assms(2) [rule_format, of i] by auto
  then show "c \<notin> set (addrs (cp @ [(b, w)]))" by simp
qed

lemma dup_loop_rep:
  assumes "dseg (d_heap m0) p ys NULL" and "list_rep copy m cp"
    and "d_heap m0 = d_heap m |` (- set (addrs cp))"
    and "\<forall>i\<ge>k. \<forall>a. mal i = Ptr a \<longrightarrow> a \<notin> set (addrs cp)" and "fresh_cells mal m0"
    and "length cp + length ys < 2 ^ 32"
    and "dup_spec (dup_value copy) mal k (datas ys) = (cs, pend, fin)"
  shows "\<exists>copy' m'. dup_loop mal k \<lparr>it_next = first_of ys NULL, it_from_head = True\<rparr> copy m
      = Some (if fin then Ptr copy' else NULL, m')
    \<and> (fin \<longrightarrow> list_rep copy' m' (cp @ cs) \<and> same_methods copy copy' \<and> d_freed m' = d_freed m
              \<and> d_heap m0 = d_heap m' |` (- set (addrs (cp @ cs))))
    \<and> (\<not> fin \<longrightarrow> d_heap m' = d_heap m0
              \<and> d_freed m' = d_freed m @ (if l_free copy then pend @ datas (cp @ cs) else []))"
  using assms
proof (induction ys arbitrary: p copy m cp k cs pend fin)
  case Nil
  then show ?case by (subst dup_loop.simps) (auto simp: same_methods_def)
next
  case (Cons y ys)
  obtain a v where y: "y = (a, v)" by (cases y)
  have "dseg (d_heap m) p ((a, v) # ys) NULL"
    using Cons.prems(1,3) dseg_restrict unfolding y by metis
  note node = dup_loop_node [OF this, of mal k copy]
  note rel = release_copy [OF Cons.prems(2,3)]
  show ?case
  proof (cases "dup_value copy v")
    case NULL
    with Cons.prems(7) node rel(2) show ?thesis by (auto simp: y)
  next
    case (Ptr w)
    note dv = this
    show ?thesis
    proof (cases "mal k")
      case NULL
      with Cons.prems(7) node dv rel(1) [of "l_free copy" w] show ?thesis
        by (auto simp: y listAddNodeTail_def)
    next
      case (Ptr b)
      then have b: "b \<notin> set (addrs cp)" "d_heap m0 b = None" "\<forall>j. j \<noteq> k \<longrightarrow> mal j \<noteq> Ptr b"
        using Cons.prems(4,5) by (auto simp: fresh_cells_def)
      with add_tail_rep [OF Cons.prems(2), of b w] Cons.prems(6) obtain copy1 m1 where
        add: "listAddNodeTail (Ptr b) w copy m = Some (Ptr copy1, m1)"
        "list_rep copy1 m1 (cp @ [(b, w)])" "only_nodes (insert b (set (addrs cp))) m m1"
        "same_methods copy copy1" "d_freed m1 = d_freed m" by auto
      have dv1: "dup_value copy1 = dup_value copy"
        using add(4) by (auto simp: same_methods_def dup_value_def fun_eq_iff)
      have heap: "d_heap m0 = d_heap m1 |` (- set (addrs (cp @ [(b, w)])))"
        using add(3) b Cons.prems(3) by (auto simp: only_nodes_def restrict_map_def fun_eq_iff)
      obtain cs1 where cs1: "dup_spec (dup_value copy1) mal (Suc k) (datas ys) = (cs1, pend, fin)"
        "cs = (b, w) # cs1"
        using Cons.prems(7) dv Ptr by (auto simp: y dv1 split: prod.splits)
      have loop: "dup_loop mal k \<lparr>it_next = Ptr a, it_from_head = True\<rparr> copy m
          = dup_loop mal (Suc k) \<lparr>it_next = first_of ys NULL, it_from_head = True\<rparr> copy1 m1"
        using node dv Ptr add(1) by simp
      have seg1: "dseg (d_heap m0) (Ptr a) ys NULL" and len1: "length (cp @ [(b, w)]) + length ys < 2 ^ 32"
        using Cons.prems(1,6) by (simp_all add: y)
      have meth: "l_free copy1 = l_free copy" "same_methods copy1 c \<longleftrightarrow> same_methods copy c" for c
        using add(4) by (simp_all add: same_methods_def)
      show ?thesis
        using Cons.IH [OF seg1 add(2) heap dup_fresh_step [OF Cons.prems(4) b(3)] Cons.prems(5) len1 cs1(1)]
        unfolding y cs1(2) first_of.simps loop add(5) meth append_assoc append_Cons append_Nil .
    qed
  qed
qed

lemma dup_spec_complete:
  "dup_spec dv mal k vs = (cp, pend, True) \<Longrightarrow> map Ptr (datas cp) = map dv vs"
  by (induction vs arbitrary: k cp) (auto split: cptr.splits prod.splits)

lemma listDup_rep:
  assumes "list_rep orig m cs" and "fresh_cells mal m"
    and "dup_spec (dup_value orig) mal 0 (datas cs) = (cp, pend, fin)"
  shows "\<exists>copy m'. listDup al mal orig m = Some (if al \<and> fin then Ptr copy else NULL, m')
    \<and> list_rep orig m' cs
    \<and> (al \<and> fin \<longrightarrow> list_rep copy m' cp \<and> same_methods orig copy \<and> d_freed m' = d_freed m)
    \<and> (al \<and> \<not> fin \<longrightarrow> d_heap m' = d_heap m
          \<and> d_freed m' = d_freed m @ (if l_free orig then pend @ datas cp else []))
    \<and> (\<not> al \<longrightarrow> m' = m)"
proof (cases al)
  case False
  then show ?thesis using assms by (simp add: listDup_def listCreate_def)
next
  case True
  let ?c = "\<lparr>l_head = NULL, l_tail = NULL, l_dup = l_dup orig, l_free = l_free orig,
    l_match = l_match orig, l_len = 0\<rparr>"
  have dv: "dup_value ?c = dup_value orig" by (simp add: dup_value_def fun_eq_iff)
  have seg: "dseg (d_heap m) NULL cs NULL" and c: "list_rep ?c m []" and len: "length ([] :: (nat \<times> 'a) list) + length cs < 2 ^ 32"
    using assms(1) by (simp_all add: list_rep_def)
  have heap: "d_heap m = d_heap m |` (- set (addrs ([] :: (nat \<times> 'a) list)))"
    by (simp add: restrict_map_def)
  have none: "\<forall>i\<ge>0. \<forall>a. mal i = Ptr a \<longrightarrow> a \<notin> set (addrs ([] :: (nat \<times> 'a) list))"
    and spec: "dup_spec (dup_value ?c) mal 0 (datas cs) = (cp, pend, fin)"
    using assms(3) dv by simp_all
  have loop: "listDup al mal orig m = dup_loop mal 0 \<lparr>it_next = first_of cs NULL, it_from_head = True\<rparr> ?c m"
    using True assms(1) by (simp add: listDup_def listCreate_def listRewind_def list_rep_def)
  obtain copy m' where r: "listDup al mal orig m = Some (if fin then Ptr copy else NULL, m')"
      "fin \<longrightarrow> list_rep copy m' cp \<and> same_methods ?c copy \<and> d_freed m' = d_freed m
        \<and> d_heap m = d_heap m' |` (- set (addrs cp))"
      "\<not> fin \<longrightarrow> d_heap m' = d_heap m \<and> d_freed m' = d_freed m @ (if l_free orig then pend @ datas cp else [])"
    using dup_loop_rep [OF seg c heap none assms(2) len spec] unfolding loop append_Nil
    by (simp only: dlist.simps) blast
  have "dseg (d_heap m') NULL cs NULL"
    using seg r(2,3) dseg_restrict [of "d_heap m'" "- set (addrs cp)" NULL cs NULL] by (cases fin) simp_all
  then have "list_rep orig m' cs" using assms(1) by (simp add: list_rep_def)
  with r True show ?thesis by (auto simp: same_methods_def)
qed

lemma join_rep:
  assumes "list_rep l m xs" and "list_rep ot m ys" and "set (addrs xs) \<inter> set (addrs ys) = {}"
    and "length xs + length ys < 2 ^ 32"
  shows "\<exists>l' ot' m'. listJoin l ot m = Some (l', ot', m') \<and> list_rep l' m' (xs @ ys)
    \<and> list_rep ot' m' [] \<and> same_methods l l' \<and> same_methods ot ot' \<and> d_freed m' = d_freed m"
proof (cases ys)
  case Nil
  with assms list_rep_len(1) [OF assms(2)] show ?thesis
    by (auto simp: listJoin_def same_methods_def)
next
  case (Cons y ys')
  obtain b w where y: "y = (b, w)" by (cases y)
  with Cons list_rep_len(1) [OF assms(2)] assms show ?thesis
  proof (cases xs rule: rev_cases)
    case (snoc xs' x)
    obtain a v where "x = (a, v)" by (cases x)
    with snoc y Cons list_rep_len(1) [OF assms(2)] assms show ?thesis
      by (auto simp: listJoin_def dl_unfold dl_simps)
  qed (auto simp: listJoin_def dl_unfold dl_simps)
qed

subsection \<open>Properties\<close>

text \<open>A list of three values, to evaluate the properties at.\<close>

definition three :: "bool \<Rightarrow> nat dlist" where
  "three fr = \<lparr>l_head = Ptr 1, l_tail = Ptr 3, l_dup = NULL, l_free = fr, l_match = NULL, l_len = 3\<rparr>"

definition three_mem :: "nat dmem" where
  "three_mem = \<lparr>d_heap = [1 \<mapsto> mk_node NULL (Ptr 2) 10, 2 \<mapsto> mk_node (Ptr 1) (Ptr 3) 20,
     3 \<mapsto> mk_node (Ptr 2) NULL 30], d_freed = []\<rparr>"

lemma three_rep: "list_rep (three fr) three_mem [(1, 10), (2, 20), (3, 30)]"
  by (simp add: list_rep_def three_def three_mem_def)

text \<open>
  Claim C4. Any sequence of additions at either end, insertions before or after a node,
  deletions and rotations, with allocations that may fail, runs without undefined behaviour on
  a well-formed list and leaves a well-formed list that holds exactly what the same edits make
  of the sequence of its cells; a failed allocation leaves the list as it was.
\<close>

theorem list_edits_refine:
  assumes "list_rep l m cs" and "steps_ok edit_ok edit_spec xs cs"
  shows "\<exists>l' m'. run_steps edit_impl xs (l, m) = Some (l', m') \<and> list_rep l' m' (fold edit_spec xs cs)"
  using le.runs [of "(l, m)" cs xs] assms by (auto simp: edit_rel_def)

theorem list_edits_refine_witness:
  "\<exists>l' m'. run_steps edit_impl
      [Insert True 2 (Ptr 7) 25, Del 1, RotateHead, AddHead NULL 1, AddTail (Ptr 1) 40] (three True, three_mem)
      = Some (l', m') \<and> list_rep l' m' [(7, 25), (3, 30), (2, 20), (1, 40)]"
  using list_edits_refine [OF three_rep,
    of "[Insert True 2 (Ptr 7) 25, Del 1, RotateHead, AddHead NULL 1, AddTail (Ptr 1) 40]"]
  by simp

lemma rewind_rep:
  assumes "list_rep l m cs"
  shows "listRewind l = \<lparr>it_next = first_of cs NULL, it_from_head = True\<rparr>"
    and "listRewindTail l = \<lparr>it_next = last_of NULL cs, it_from_head = False\<rparr>"
  using assms by (simp_all add: list_rep_def listRewind_def listRewindTail_def)

text \<open>
  Claim C37. The documented use of an iterator: a loop over the list that deletes the nodes it
  is given as it likes ends, in both directions, visits every node once, never touches a freed
  node, and leaves exactly the nodes it did not delete, in their order; the free method gets
  the deleted values in the order of the visit.
\<close>

theorem iteration_with_deletion:
  assumes "list_rep l m cs"
  shows "\<exists>l' m'. sweep_loop gone (if fwd then listRewind l else listRewindTail l) l m = Some (l', m')
    \<and> list_rep l' m' (filter (\<lambda>c. \<not> gone (snd c)) cs)
    \<and> d_freed m' = d_freed m @
        (if l_free l then filter gone (if fwd then datas cs else rev (datas cs)) else [])"
  using sweep_fwd [of l m "[]" cs gone] sweep_bwd [of l m cs "[]" gone] assms rewind_rep [OF assms]
  by (cases fwd; cases "l_free l") simp_all

theorem iteration_with_deletion_witness:
  "\<exists>l' m'. sweep_loop (\<lambda>v. v \<noteq> 20) (listRewindTail (three True)) (three True) three_mem = Some (l', m')
    \<and> list_rep l' m' [(2, 20)] \<and> d_freed m' = [30, 10]"
  using iteration_with_deletion [OF three_rep [of True], of "\<lambda>v. v \<noteq> 20" False]
  by (simp add: three_def three_mem_def)

text \<open>
  \<open>listIndex\<close> returns the node at a zero-based index from the head, for a negative
  index from the tail with \<open>-1\<close> the last one, and \<open>NULL\<close> exactly when the index is out of
  range; for every index of type \<open>long\<close> but the smallest, whose negation overflows.
\<close>

lemma listIndex_correct:
  assumes "list_rep l m cs" and "- (2 ^ 31) \<le> i" and "i < 2 ^ 31"
  shows "listIndex l i m =
    (if i = - (2 ^ 31) then None
     else if 0 \<le> i \<and> nat i < length cs then Some (Ptr (fst (cs ! nat i)))
     else if i < 0 \<and> nat (- i) \<le> length cs then Some (Ptr (fst (cs ! (length cs - nat (- i)))))
     else Some NULL)"
proof -
  have "nat (- i - 1) < length cs \<longleftrightarrow> nat (- i) \<le> length cs" if "i < 0" using that by linarith
  moreover have "rev cs ! nat (- i - 1) = cs ! (length cs - nat (- i))"
    if "i < 0" "nat (- i) \<le> length cs"
  proof -
    have "length cs - Suc (nat (- i - 1)) = length cs - nat (- i)" using that by linarith
    with that show ?thesis by (subst rev_nth) auto
  qed
  ultimately show ?thesis
    using assms index_fwd [of m NULL cs "nat i"] index_bwd [of m cs NULL "nat (- i - 1)"]
    by (auto simp: listIndex_def list_rep_def c_int_def)
qed

lemma listIndex_correct_example:
  "listIndex (three True) 1 three_mem = Some (Ptr 2) \<and> listIndex (three True) 3 three_mem = Some NULL
   \<and> listIndex (three True) (- 1) three_mem = Some (Ptr 3) \<and> listIndex (three True) (- 4) three_mem = Some NULL"
  using listIndex_correct [OF three_rep [of True], of 1] listIndex_correct [OF three_rep [of True], of 3]
    listIndex_correct [OF three_rep [of True], of "- 1"] listIndex_correct [OF three_rep [of True], of "- 4"]
  by simp

text \<open>
  \<open>listSearchKey\<close> on a well-formed list always returns: the first node whose value
  the match method accepts, or whose value is the key where no method is set, and \<open>NULL\<close>
  if there is none.
\<close>

lemma listSearchKey_correct:
  assumes "list_rep l m cs"
  shows "listSearchKey l key m =
    Some (case find (\<lambda>c. case l_match l of NULL \<Rightarrow> snd c = key | Ptr match \<Rightarrow> match (snd c) key) cs of
            None \<Rightarrow> NULL | Some c \<Rightarrow> Ptr (fst c))"
  using search_loop_fwd [of m NULL cs "case l_match l of NULL \<Rightarrow> (\<lambda>v. key = v) | Ptr match \<Rightarrow> (\<lambda>v. match v key)"]
    assms
  by (cases "l_match l") (simp_all add: listSearchKey_def listRewind_def list_rep_def eq_commute [of key])

lemma listSearchKey_correct_example:
  "listSearchKey (three True) 30 three_mem = Some (Ptr 3) \<and> listSearchKey (three True) 40 three_mem = Some NULL"
  using listSearchKey_correct [OF three_rep [of True], of 30] listSearchKey_correct [OF three_rep [of True], of 40]
  by (simp add: three_def)

text \<open>
  \<open>listDup\<close> is all or nothing: it returns a list of the duplicated values in the
  same order with the same methods, or it returns \<open>NULL\<close> and has released every node it
  allocated; the nodes of the original are untouched either way. On failure it calls the free
  method on every value already in the copy: without a dup method these are the values the
  original still holds.
\<close>

lemma listDup_all_or_nothing:
  assumes "list_rep orig m cs" and "fresh_cells mal m"
    and "dup_spec (dup_value orig) mal 0 (datas cs) = (cp, pend, fin)"
  shows "\<exists>copy m'. listDup True mal orig m = Some (if fin then Ptr copy else NULL, m')
    \<and> list_rep orig m' cs
    \<and> (if fin then list_rep copy m' cp \<and> map Ptr (datas cp) = map (dup_value orig) (datas cs)
           \<and> same_methods orig copy \<and> d_freed m' = d_freed m
       else d_heap m' = d_heap m \<and> d_freed m' = d_freed m @ (if l_free orig then pend @ datas cp else []))"
  using listDup_rep [OF assms, of True] dup_spec_complete [of "dup_value orig" mal 0 "datas cs" cp pend] assms(3)
  by (cases fin) simp_all

lemma listDup_all_or_nothing_example:
  "\<exists>m'. listDup True (\<lambda>k. if k = 0 then Ptr 8 else NULL) (three True) three_mem = Some (NULL, m')
    \<and> list_rep (three True) m' [(1, 10), (2, 20), (3, 30)] \<and> d_freed m' = [20, 10]"
proof -
  let ?mal = "\<lambda>k. if k = 0 then Ptr 8 else NULL"
  have "fresh_cells ?mal three_mem" by (simp add: fresh_cells_def three_mem_def)
  moreover have dv: "dup_value (three True) = Ptr"
    by (simp add: dup_value_def three_def fun_eq_iff)
  moreover have "l_free (three True)" "d_freed three_mem = []"
    by (simp_all add: three_def three_mem_def)
  ultimately show ?thesis
    using listDup_all_or_nothing [OF three_rep [of True], of ?mal "[(8, 10)]" "[20]" False] by auto
qed

end
