(* ===== verification/Msg_Queue.thy ===== *)
theory Msg_Queue
  imports Linked_Heap "HOL-Library.Multiset"
begin

text \<open>
  The message queue between the gateway's threads: \<open>source/queue.c\<close> and
  \<open>source/queue_internal.c\<close>. A queue is the record of \<open>queue_t\<close> together with the heap of
  its cells, so that every load and store of the code through \<open>first_el\<close>, \<open>last_el\<close> and
  \<open>next\<close> is one of the model, and a use of a freed cell is undefined.

  \<^item> \<open>malloc\<close> of a cell is an argument (\<open>NULL\<close> or an address); creation asks an oracle
    \<open>al\<close> about its four allocations.
  \<^item> \<open>pthread_mutex_lock\<close> and \<open>pthread_mutex_unlock\<close> succeed or fail as the pair \<open>lk\<close> says.
  \<^item> \<open>pthread_cond_wait\<close> gives up the mutex: what the other threads do before the wake-up
    is a function on the queue; the argument \<open>wakes\<close> lists these functions. A caller that
    still waits after the last of them is \<open>Blocked\<close>.
  \<^item> Signals, broadcasts and the data handed to \<open>free\<close> or to the caller's free function are
    the log \<open>q_log\<close>.
  \<^item> The \<open>*_internal\<close> functions repeat the \<open>NULL\<close> check of their only callers, which here
    is made once, by \<open>on_queue\<close>.
\<close>

subsection \<open>Data\<close>

datatype 'd qevent = SignalGet | SignalPut | BroadcastGet | BroadcastPut | Released 'd

record 'd queue =
  q_heap :: "'d heap"
  first_el :: "nat cptr"
  last_el :: "nat cptr"
  num_els :: u16
  max_els :: u16
  new_data :: u8
  q_sort :: u8
  asc_order :: u8
  cmp_el :: "('d \<Rightarrow> 'd \<Rightarrow> int) cptr"
  q_log :: "'d qevent list"

definition Q_OK :: int where "Q_OK = 0"
definition Q_ERR_INVALID :: int where "Q_ERR_INVALID = - 1"
definition Q_ERR_LOCK :: int where "Q_ERR_LOCK = - 2"
definition Q_ERR_MEM :: int where "Q_ERR_MEM = - 3"
definition Q_ERR_NONEWDATA :: int where "Q_ERR_NONEWDATA = - 4"
definition Q_ERR_INVALID_ELEMENT :: int where "Q_ERR_INVALID_ELEMENT = - 5"
definition Q_ERR_NUM_ELEMENTS :: int where "Q_ERR_NUM_ELEMENTS = - 7"

named_theorems q_codes \<open>the numbers behind the error codes\<close>

lemmas [q_codes] = Q_OK_def Q_ERR_INVALID_def Q_ERR_LOCK_def Q_ERR_MEM_def Q_ERR_NONEWDATA_def
  Q_ERR_INVALID_ELEMENT_def Q_ERR_NUM_ELEMENTS_def

subsection \<open>Creation\<close>

text \<open>Four allocations: the queue, the mutex and the two condition variables.\<close>

definition queue_create :: "(nat \<Rightarrow> bool) \<Rightarrow> 'd queue cptr" where
  "queue_create al =
     (if \<not> al 0 then NULL
      else if \<not> al 1 then NULL
      else if \<not> al 2 then NULL
      else if \<not> al 3 then NULL
      else Ptr \<lparr>q_heap = Map.empty, first_el = NULL, last_el = NULL, num_els = 0, max_els = 0,
             new_data = 1, q_sort = 0, asc_order = 1, cmp_el = NULL, q_log = []\<rparr>)"

definition queue_create_limited :: "(nat \<Rightarrow> bool) \<Rightarrow> u16 \<Rightarrow> 'd queue cptr" where
  "queue_create_limited al max_elements =
     (case queue_create al of NULL \<Rightarrow> NULL | Ptr q \<Rightarrow> Ptr (q\<lparr>max_els := max_elements\<rparr>))"

definition queue_create_sorted ::
  "(nat \<Rightarrow> bool) \<Rightarrow> u8 \<Rightarrow> ('d \<Rightarrow> 'd \<Rightarrow> int) cptr \<Rightarrow> 'd queue cptr" where
  "queue_create_sorted al asc cmp =
     (if cmp = NULL then NULL
      else case queue_create al of NULL \<Rightarrow> NULL
      | Ptr q \<Rightarrow> Ptr (q\<lparr>q_sort := 1, asc_order := asc, cmp_el := cmp\<rparr>))"

definition queue_create_limited_sorted ::
  "(nat \<Rightarrow> bool) \<Rightarrow> u16 \<Rightarrow> u8 \<Rightarrow> ('d \<Rightarrow> 'd \<Rightarrow> int) cptr \<Rightarrow> 'd queue cptr" where
  "queue_create_limited_sorted al max_elements asc cmp =
     (if cmp = NULL then NULL
      else case queue_create al of NULL \<Rightarrow> NULL
      | Ptr q \<Rightarrow> Ptr (q\<lparr>max_els := max_elements, q_sort := 1, asc_order := asc, cmp_el := cmp\<rparr>))"

subsection \<open>Operations under the lock\<close>

definition log_event :: "'d qevent \<Rightarrow> 'd queue \<Rightarrow> 'd queue" where
  "log_event ev q = q\<lparr>q_log := q_log q @ [ev]\<rparr>"

definition queue_is_full :: "'d queue \<Rightarrow> bool" where
  "queue_is_full q \<longleftrightarrow> num_els q = 65534 \<or> (max_els q \<noteq> 0 \<and> num_els q = max_els q)"

text \<open>The waiting loops: sleep as long as the condition holds.\<close>

fun cond_wait :: "('d queue \<Rightarrow> bool) \<Rightarrow> ('d queue \<Rightarrow> 'd queue) list \<Rightarrow> 'd queue \<Rightarrow> 'd queue outcome" where
  "cond_wait busy wakes q =
     (if \<not> busy q then Returns q
      else case wakes of [] \<Rightarrow> Blocked | w # ws \<Rightarrow> cond_wait busy ws (w q))"

declare cond_wait.simps [simp del]

lemma cond_wait_simps [simp]:
  "cond_wait busy [] q = (if busy q then Blocked else Returns q)"
  "cond_wait busy (w # ws) q = (if busy q then cond_wait busy ws (w q) else Returns q)"
  by (simp_all add: cond_wait.simps)

lemma cond_wait_free [simp]: "\<not> busy q \<Longrightarrow> cond_wait busy wakes q = Returns q"
  by (simp add: cond_wait.simps)

text \<open>\<open>fd\<close> says whether the data is released, too.\<close>

partial_function (option) flush_loop :: "bool \<Rightarrow> nat cptr \<Rightarrow> 'd queue \<Rightarrow> 'd queue option" where
  "flush_loop fd qe q =
     (case qe of
        NULL \<Rightarrow> Some q
      | Ptr a \<Rightarrow> do {
          c \<leftarrow> deref (q_heap q) qe;
          let q = (if fd then log_event (Released (c_data c)) q else q);
          h \<leftarrow> free_cell (q_heap q) qe;
          flush_loop fd (c_next c) (q\<lparr>q_heap := h\<rparr>) })"

definition queue_flush_internal :: "bool \<Rightarrow> 'd queue \<Rightarrow> (int \<times> 'd queue) exec" where
  "queue_flush_internal fd q = do {
     q \<leftarrow> flush_loop fd (first_el q) q;
     Some (Q_OK, q\<lparr>first_el := NULL, last_el := NULL, num_els := 0\<rparr>) }"

text \<open>The search of a sorted insertion: \<open>s\<close> is a cell, \<open>t\<close> its successor.\<close>

partial_function (option) sort_search ::
  "'d heap \<Rightarrow> bool \<Rightarrow> ('d \<Rightarrow> 'd \<Rightarrow> int) \<Rightarrow> 'd \<Rightarrow> nat cptr \<Rightarrow> nat cptr \<Rightarrow> (nat cptr \<times> nat cptr) option" where
  "sort_search h asc cmp el s t =
     (if s = NULL \<or> t = NULL then Some (s, t)
      else do {
        cs \<leftarrow> deref h s;
        ct \<leftarrow> deref h t;
        if asc \<and> cmp (c_data cs) el \<le> 0 \<and> cmp el (c_data ct) \<le> 0 then Some (s, t)
        else if \<not> asc \<and> cmp (c_data cs) el \<ge> 0 \<and> cmp el (c_data ct) \<ge> 0 then Some (s, t)
        else sort_search h asc cmp el t (c_next ct) })"

definition queue_link :: "nat \<Rightarrow> 'd \<Rightarrow> 'd queue \<Rightarrow> 'd queue exec" where
  "queue_link new_el el q =
     (let h = (q_heap q)(new_el \<mapsto> mk_cell el NULL) in
      if q_sort q = 0 \<or> first_el q = NULL then
        (if last_el q = NULL then
           Some (q\<lparr>q_heap := h, first_el := Ptr new_el, last_el := Ptr new_el\<rparr>)
         else do {
           h \<leftarrow> set_next h (last_el q) (Ptr new_el);
           Some (q\<lparr>q_heap := h, last_el := Ptr new_el\<rparr>) })
      else do {
        s \<leftarrow> deref h (first_el q);
        cmp \<leftarrow> (case cmp_el q of NULL \<Rightarrow> None | Ptr f \<Rightarrow> Some f);
        let asc_first_el = (asc_order q \<noteq> 0 \<and> cmp (c_data s) el \<ge> 0);
        let desc_first_el = (asc_order q = 0 \<and> cmp (c_data s) el \<le> 0);
        if \<not> asc_first_el \<and> \<not> desc_first_el then do {
          (s, t) \<leftarrow> sort_search h (asc_order q \<noteq> 0) cmp el (first_el q) (c_next s);
          h \<leftarrow> set_next h s (Ptr new_el);
          h \<leftarrow> set_next h (Ptr new_el) t;
          Some (q\<lparr>q_heap := h, last_el := (if t = NULL then Ptr new_el else last_el q)\<rparr>) }
        else do {
          h \<leftarrow> set_next h (Ptr new_el) (first_el q);
          Some (q\<lparr>q_heap := h, first_el := Ptr new_el\<rparr>) } })"

text \<open>
  \<open>action\<close> is \<^term>\<open>None\<close> for a null pointer and the wake-ups for \<open>pthread_cond_wait\<close>.
\<close>

definition queue_put_internal ::
  "nat cptr \<Rightarrow> 'd \<Rightarrow> ('d queue \<Rightarrow> 'd queue) list option \<Rightarrow> 'd queue \<Rightarrow> (int \<times> 'd queue) outcome exec" where
  "queue_put_internal mal el action q =
     (if new_data q = 0 then Some (Returns (Q_ERR_NONEWDATA, q))
      else if queue_is_full q \<and> action = None then Some (Returns (Q_ERR_NUM_ELEMENTS, q))
      else case cond_wait (\<lambda>q. queue_is_full q \<and> new_data q \<noteq> 0)
                  (case action of None \<Rightarrow> [] | Some wakes \<Rightarrow> wakes) q of
        Blocked \<Rightarrow> Some Blocked
      | Returns q \<Rightarrow>
          if new_data q = 0 then Some (Returns (Q_ERR_NONEWDATA, q))
          else case mal of
            NULL \<Rightarrow> Some (Returns (Q_ERR_MEM, q))
          | Ptr new_el \<Rightarrow> do {
              q \<leftarrow> queue_link new_el el q;
              Some (Returns (Q_OK, log_event SignalGet (q\<lparr>num_els := num_els q + 1\<rparr>))) })"

text \<open>
  The filter of \<open>queue_get_filtered\<close> is called with the cell, not with its data. The loop
  returns the cell before the match and the match.
\<close>

partial_function (option) filter_loop ::
  "'d heap \<Rightarrow> (nat \<Rightarrow> 'd cell \<Rightarrow> int) \<Rightarrow> nat cptr \<Rightarrow> nat cptr \<Rightarrow> (nat cptr \<times> nat cptr) option" where
  "filter_loop h cmp el_prev el =
     (case el of
        NULL \<Rightarrow> Some (el_prev, el)
      | Ptr a \<Rightarrow> do {
          c \<leftarrow> deref h el;
          if cmp a c \<noteq> 0 then filter_loop h cmp el (c_next c) else Some (el_prev, el) })"

definition queue_unlink ::
  "nat cptr \<Rightarrow> nat cptr \<Rightarrow> 'd queue \<Rightarrow> (int \<times> 'd cptr \<times> 'd queue) exec" where
  "queue_unlink el_prev el q =
     (case el of
        NULL \<Rightarrow> Some (Q_ERR_INVALID_ELEMENT, NULL, q)
      | Ptr _ \<Rightarrow> do {
          c \<leftarrow> deref (q_heap q) el;
          q \<leftarrow>
            (if el_prev = NULL then
               Some (q\<lparr>first_el := c_next c,
                       last_el := (if c_next c = NULL then NULL else last_el q)\<rparr>)
             else do {
               h \<leftarrow> set_next (q_heap q) el_prev (c_next c);
               Some (q\<lparr>q_heap := h\<rparr>) });
          h \<leftarrow> free_cell (q_heap q) el;
          Some (Q_OK, Ptr (c_data c),
            log_event SignalPut (q\<lparr>q_heap := h, num_els := num_els q - 1\<rparr>)) })"

definition queue_get_internal ::
  "('d queue \<Rightarrow> 'd queue) list option \<Rightarrow> (nat \<Rightarrow> 'd cell \<Rightarrow> int) cptr \<Rightarrow> 'd queue
   \<Rightarrow> (int \<times> 'd cptr \<times> 'd queue) outcome exec" where
  "queue_get_internal action cmp q =
     (if num_els q = 0 \<and> action = None then Some (Returns (Q_ERR_NUM_ELEMENTS, NULL, q))
      else case cond_wait (\<lambda>q. num_els q = 0 \<and> new_data q \<noteq> 0)
                  (case action of None \<Rightarrow> [] | Some wakes \<Rightarrow> wakes) q of
        Blocked \<Rightarrow> Some Blocked
      | Returns q \<Rightarrow>
          if num_els q = 0 \<and> new_data q = 0 then Some (Returns (Q_ERR_NONEWDATA, NULL, q))
          else do {
            (el_prev, el) \<leftarrow>
              (case cmp of NULL \<Rightarrow> Some (NULL, first_el q)
               | Ptr f \<Rightarrow> filter_loop (q_heap q) f NULL (first_el q));
            r \<leftarrow> queue_unlink el_prev el q;
            Some (Returns r) })"

subsection \<open>The interface\<close>

text \<open>
  Every entry point refuses a null queue, takes the mutex, works and gives the mutex back;
  \<open>wrap\<close> builds the result of an early return.
\<close>

definition on_queue ::
  "bool \<times> bool \<Rightarrow> ('d queue cptr \<Rightarrow> 'r) \<Rightarrow> 'd queue cptr \<Rightarrow> ('d queue \<Rightarrow> (int \<times> 'r) outcome exec)
   \<Rightarrow> (int \<times> 'r) outcome exec" where
  "on_queue lk wrap p body =
     (case p of
        NULL \<Rightarrow> Some (Returns (Q_ERR_INVALID, wrap NULL))
      | Ptr q \<Rightarrow>
          if \<not> fst lk then Some (Returns (Q_ERR_LOCK, wrap (Ptr q)))
          else do {
            res \<leftarrow> body q;
            Some (case res of
                Blocked \<Rightarrow> Blocked
              | Returns (r, s) \<Rightarrow> Returns (if snd lk then r else Q_ERR_LOCK, s)) })"

definition ret_q :: "(int \<times> 'd queue) exec \<Rightarrow> (int \<times> 'd queue cptr) outcome exec" where
  "ret_q e = map_option (\<lambda>(r, q). Returns (r, Ptr q)) e"

definition put_q :: "(int \<times> 'd queue) outcome exec \<Rightarrow> (int \<times> 'd queue cptr) outcome exec" where
  "put_q e = map_option (\<lambda>res. case res of Blocked \<Rightarrow> Blocked | Returns (r, q) \<Rightarrow> Returns (r, Ptr q)) e"

definition get_q ::
  "(int \<times> 'd cptr \<times> 'd queue) outcome exec \<Rightarrow> (int \<times> 'd cptr \<times> 'd queue cptr) outcome exec" where
  "get_q e = map_option (\<lambda>res. case res of Blocked \<Rightarrow> Blocked
     | Returns (r, x, q) \<Rightarrow> Returns (r, x, Ptr q)) e"

definition queue_flush :: "bool \<times> bool \<Rightarrow> 'd queue cptr \<Rightarrow> (int \<times> 'd queue cptr) outcome exec" where
  "queue_flush lk p = on_queue lk id p (\<lambda>q. ret_q (queue_flush_internal False q))"

definition queue_flush_complete :: "bool \<times> bool \<Rightarrow> 'd queue cptr \<Rightarrow> (int \<times> 'd queue cptr) outcome exec" where
  "queue_flush_complete lk p = on_queue lk id p (\<lambda>q. ret_q (queue_flush_internal True q))"

definition queue_elements :: "bool \<times> bool \<Rightarrow> 'd queue cptr \<Rightarrow> u16" where
  "queue_elements lk p =
     (case p of NULL \<Rightarrow> 65535
      | Ptr q \<Rightarrow> if \<not> fst lk then 65535
               else if \<not> snd lk then word_of_int Q_ERR_LOCK else num_els q)"

definition queue_empty :: "bool \<times> bool \<Rightarrow> 'd queue cptr \<Rightarrow> int" where
  "queue_empty lk p =
     (case p of NULL \<Rightarrow> Q_ERR_INVALID
      | Ptr q \<Rightarrow> if \<not> fst lk then Q_ERR_LOCK
               else if \<not> snd lk then Q_ERR_LOCK
               else if first_el q = NULL \<or> last_el q = NULL then 1 else 0)"

definition queue_set_new_data :: "bool \<times> bool \<Rightarrow> u8 \<Rightarrow> 'd queue cptr \<Rightarrow> int \<times> 'd queue cptr" where
  "queue_set_new_data lk v p =
     (case p of NULL \<Rightarrow> (Q_ERR_INVALID, NULL)
      | Ptr q \<Rightarrow>
          if \<not> fst lk then (Q_ERR_LOCK, Ptr q)
          else let q = q\<lparr>new_data := v\<rparr> in
            if \<not> snd lk then (Q_ERR_LOCK, Ptr q)
            else if new_data q = 0 then
              (Q_OK, Ptr (log_event BroadcastPut (log_event BroadcastGet q)))
            else (Q_OK, Ptr q))"

definition queue_get_new_data :: "bool \<times> bool \<Rightarrow> 'd queue cptr \<Rightarrow> u8" where
  "queue_get_new_data lk p =
     (case p of NULL \<Rightarrow> 0
      | Ptr q \<Rightarrow> if \<not> fst lk then 0 else if \<not> snd lk then 0 else new_data q)"

definition queue_put ::
  "bool \<times> bool \<Rightarrow> nat cptr \<Rightarrow> 'd \<Rightarrow> 'd queue cptr \<Rightarrow> (int \<times> 'd queue cptr) outcome exec" where
  "queue_put lk mal el p = on_queue lk id p (\<lambda>q. put_q (queue_put_internal mal el None q))"

definition queue_put_wait ::
  "bool \<times> bool \<Rightarrow> ('d queue \<Rightarrow> 'd queue) list \<Rightarrow> nat cptr \<Rightarrow> 'd \<Rightarrow> 'd queue cptr
   \<Rightarrow> (int \<times> 'd queue cptr) outcome exec" where
  "queue_put_wait lk wakes mal el p =
     on_queue lk id p (\<lambda>q. put_q (queue_put_internal mal el (Some wakes) q))"

definition queue_get ::
  "bool \<times> bool \<Rightarrow> 'd queue cptr \<Rightarrow> (int \<times> 'd cptr \<times> 'd queue cptr) outcome exec" where
  "queue_get lk p = on_queue lk (Pair NULL) p (\<lambda>q. get_q (queue_get_internal None NULL q))"

definition queue_get_wait ::
  "bool \<times> bool \<Rightarrow> ('d queue \<Rightarrow> 'd queue) list \<Rightarrow> 'd queue cptr
   \<Rightarrow> (int \<times> 'd cptr \<times> 'd queue cptr) outcome exec" where
  "queue_get_wait lk wakes p =
     on_queue lk (Pair NULL) p (\<lambda>q. get_q (queue_get_internal (Some wakes) NULL q))"

definition queue_get_filtered ::
  "bool \<times> bool \<Rightarrow> (nat \<Rightarrow> 'd cell \<Rightarrow> int) cptr \<Rightarrow> 'd queue cptr
   \<Rightarrow> (int \<times> 'd cptr \<times> 'd queue cptr) outcome exec" where
  "queue_get_filtered lk cmp p =
     on_queue lk (Pair NULL) p (\<lambda>q. get_q (queue_get_internal None cmp q))"

definition queue_flush_put ::
  "bool \<times> bool \<Rightarrow> nat cptr \<Rightarrow> 'd \<Rightarrow> 'd queue cptr \<Rightarrow> (int \<times> 'd queue cptr) outcome exec" where
  "queue_flush_put lk mal el p = on_queue lk id p (\<lambda>q. do {
     (_, q) \<leftarrow> queue_flush_internal False q;
     put_q (queue_put_internal mal el None q) })"

definition queue_flush_complete_put ::
  "bool \<times> bool \<Rightarrow> nat cptr \<Rightarrow> 'd \<Rightarrow> 'd queue cptr \<Rightarrow> (int \<times> 'd queue cptr) outcome exec" where
  "queue_flush_complete_put lk mal el p = on_queue lk id p (\<lambda>q. do {
     (_, q) \<leftarrow> queue_flush_internal True q;
     put_q (queue_put_internal mal el None q) })"

text \<open>
  Destruction retries as long as the mutex is busy: \<open>mds\<close> are the results of the calls of
  \<open>pthread_mutex_destroy\<close>. The result is the last of them, with the cells that are left
  and the log. The lock that guards the flush may fail; the code goes on.
\<close>

fun destroy_mutex :: "int list \<Rightarrow> int outcome" where
  "destroy_mutex [] = Blocked"
| "destroy_mutex (e # es) = (if e = 16 then destroy_mutex es else Returns e)"

definition queue_destroy_internal ::
  "bool \<times> bool \<Rightarrow> bool \<Rightarrow> int list \<Rightarrow> 'd queue \<Rightarrow> (int \<times> 'd heap \<times> 'd qevent list) outcome exec" where
  "queue_destroy_internal lk fd mds q =
     (case snd (queue_set_new_data lk 0 (Ptr q)) of
        NULL \<Rightarrow> None
      | Ptr q \<Rightarrow> do {
          (_, q) \<leftarrow> queue_flush_internal fd q;
          Some (case destroy_mutex mds of
              Blocked \<Rightarrow> Blocked
            | Returns e \<Rightarrow> Returns (e, q_heap q, q_log q)) })"

definition queue_destroy ::
  "bool \<times> bool \<Rightarrow> int list \<Rightarrow> 'd queue cptr \<Rightarrow> (int \<times> 'd heap \<times> 'd qevent list) outcome exec" where
  "queue_destroy lk mds p =
     (case p of NULL \<Rightarrow> Some (Returns (Q_ERR_INVALID, Map.empty, []))
      | Ptr q \<Rightarrow> queue_destroy_internal lk False mds q)"

definition queue_destroy_complete ::
  "bool \<times> bool \<Rightarrow> int list \<Rightarrow> 'd queue cptr \<Rightarrow> (int \<times> 'd heap \<times> 'd qevent list) outcome exec" where
  "queue_destroy_complete lk mds p =
     (case p of NULL \<Rightarrow> Some (Returns (Q_ERR_INVALID, Map.empty, []))
      | Ptr q \<Rightarrow> queue_destroy_internal lk True mds q)"

subsection \<open>The queue as a list\<close>

text \<open>
  \<open>queue_rep q cs\<close>: the cells of the heap are exactly \<open>cs\<close>, linked in this order from
  \<open>first_el\<close> to \<open>last_el\<close>, \<open>num_els\<close> counts them, and their number respects the limit.
\<close>

definition queue_rep :: "'d queue \<Rightarrow> (nat \<times> 'd) list \<Rightarrow> bool" where
  "queue_rep q cs \<longleftrightarrow>
     seg (q_heap q) (first_el q) cs NULL \<and> distinct (addrs cs)
     \<and> dom (q_heap q) = set (addrs cs)
     \<and> last_el q = (if cs = [] then NULL else Ptr (fst (last cs)))
     \<and> unat (num_els q) = length cs \<and> length cs \<le> 65534
     \<and> (max_els q \<noteq> 0 \<longrightarrow> length cs \<le> unat (max_els q))"

definition queue_cap :: "'d queue \<Rightarrow> nat" where
  "queue_cap q = (if max_els q = 0 then 65534 else min 65534 (unat (max_els q)))"

text \<open>Where a sorted queue puts a new element.\<close>

fun sorted_tail :: "bool \<Rightarrow> ('d \<Rightarrow> 'd \<Rightarrow> int) \<Rightarrow> nat \<times> 'd \<Rightarrow> (nat \<times> 'd) list \<Rightarrow> (nat \<times> 'd) list" where
  "sorted_tail asc cmp c (s # t # cs) =
     (if asc \<and> cmp (snd s) (snd c) \<le> 0 \<and> cmp (snd c) (snd t) \<le> 0 then s # c # t # cs
      else if \<not> asc \<and> cmp (snd s) (snd c) \<ge> 0 \<and> cmp (snd c) (snd t) \<ge> 0 then s # c # t # cs
      else s # sorted_tail asc cmp c (t # cs))"
| "sorted_tail asc cmp c [s] = [s, c]"
| "sorted_tail asc cmp c [] = [c]"

definition sorted_put :: "bool \<Rightarrow> ('d \<Rightarrow> 'd \<Rightarrow> int) \<Rightarrow> nat \<times> 'd \<Rightarrow> (nat \<times> 'd) list \<Rightarrow> (nat \<times> 'd) list" where
  "sorted_put asc cmp c cs =
     (case cs of [] \<Rightarrow> [c]
      | s # _ \<Rightarrow> if (asc \<and> cmp (snd s) (snd c) \<ge> 0) \<or> (\<not> asc \<and> cmp (snd s) (snd c) \<le> 0)
                then c # cs else sorted_tail asc cmp c cs)"

subsection \<open>Insertion\<close>

definition q_params :: "'d queue \<Rightarrow> u16 \<times> u8 \<times> u8 \<times> u8 \<times> ('d \<Rightarrow> 'd \<Rightarrow> int) cptr" where
  "q_params q = (max_els q, new_data q, q_sort q, asc_order q, cmp_el q)"

lemma q_params_simps [simp]:
  "q_params (q\<lparr>q_heap := h\<rparr>) = q_params q" "q_params (q\<lparr>first_el := p\<rparr>) = q_params q"
  "q_params (q\<lparr>last_el := p\<rparr>) = q_params q" "q_params (q\<lparr>num_els := n\<rparr>) = q_params q"
  "q_params (log_event ev q) = q_params q"
  by (simp_all add: q_params_def log_event_def)

lemma q_log_simps [simp]:
  "q_log (log_event ev q) = q_log q @ [ev]" "q_heap (log_event ev q) = q_heap q"
  by (simp_all add: log_event_def)

lemma queue_rep_log [simp]: "queue_rep (log_event ev q) cs = queue_rep q cs"
  by (simp add: queue_rep_def log_event_def)

lemma q_paramsD:
  "q_params q' = q_params q \<Longrightarrow> new_data q' = new_data q \<and> q_sort q' = q_sort q
     \<and> asc_order q' = asc_order q \<and> cmp_el q' = cmp_el q \<and> queue_cap q' = queue_cap q"
  by (simp add: q_params_def queue_cap_def)

lemma num_els_succ:
  fixes n :: u16
  assumes "unat n < 65534"
  shows "unat (n + 1) = Suc (unat n)"
  using assms by (simp add: unat_word_ariths)

lemma num_els_pred:
  fixes n :: u16
  assumes "unat n = Suc k"
  shows "unat (n - 1) = k"
proof -
  have "n \<noteq> 0" using assms by auto
  then show ?thesis using assms by (simp add: unat_minus_one)
qed

lemma not_full_iff: "queue_rep q cs \<Longrightarrow> \<not> queue_is_full q \<longleftrightarrow> length cs < queue_cap q"
  by (auto simp: queue_rep_def queue_is_full_def queue_cap_def word_unat_eq_iff min_def)

definition queue_insert :: "'d queue \<Rightarrow> nat \<times> 'd \<Rightarrow> (nat \<times> 'd) list \<Rightarrow> (nat \<times> 'd) list" where
  "queue_insert q c cs =
     (case cmp_el q of
        NULL \<Rightarrow> cs @ [c]
      | Ptr cmp \<Rightarrow> if q_sort q = 0 then cs @ [c] else sorted_put (asc_order q \<noteq> 0) cmp c cs)"

lemma sort_search_split:
  assumes "h s = Some (mk_cell d n)" and "seg h n cs NULL"
  shows "\<exists>pre s' d' rest t. (s, d) # cs = pre @ (s', d') # rest
     \<and> sort_search h asc cmp el (Ptr s) n = Some (Ptr s', t)
     \<and> h s' = Some (mk_cell d' t) \<and> (t = NULL \<longleftrightarrow> rest = [])
     \<and> sorted_tail asc cmp (a, el) ((s, d) # cs) = pre @ (s', d') # (a, el) # rest"
  using assms
proof (induction cs arbitrary: s d n)
  case Nil
  then show ?case
    by (subst sort_search.simps) (auto intro: exI [of _ "[]"])
next
  case (Cons c cs)
  obtain t d1 where c: "c = (t, d1)" by (cases c)
  with Cons.prems obtain n1 where n: "n = Ptr t" "h t = Some (mk_cell d1 n1)" "seg h n1 cs NULL"
    by auto
  show ?case
  proof (cases "(asc \<and> cmp d el \<le> 0 \<and> cmp el d1 \<le> 0) \<or> (\<not> asc \<and> cmp d el \<ge> 0 \<and> cmp el d1 \<ge> 0)")
    case True
    with n Cons.prems have "sort_search h asc cmp el (Ptr s) n = Some (Ptr s, n)"
      by (subst sort_search.simps) (auto simp: deref_def)
    moreover from True c
    have "sorted_tail asc cmp (a, el) ((s, d) # c # cs) = [] @ (s, d) # (a, el) # c # cs"
      by auto
    ultimately show ?thesis
      using Cons.prems n by (metis append_Nil cptr.distinct(1) list.distinct(1))
  next
    case False
    with n Cons.prems
    have step: "sort_search h asc cmp el (Ptr s) n = sort_search h asc cmp el (Ptr t) n1"
      by (subst sort_search.simps) (auto simp: deref_def)
    from Cons.IH [OF n(2,3)] obtain pre s' d' rest t' where
      "(t, d1) # cs = pre @ (s', d') # rest"
      "sort_search h asc cmp el (Ptr t) n1 = Some (Ptr s', t')"
      "h s' = Some (mk_cell d' t')" "(t' = NULL) = (rest = [])"
      "sorted_tail asc cmp (a, el) ((t, d1) # cs) = pre @ (s', d') # (a, el) # rest"
      by blast
    moreover from False c
    have "sorted_tail asc cmp (a, el) ((s, d) # c # cs) = (s, d) # sorted_tail asc cmp (a, el) ((t, d1) # cs)"
      by auto
    ultimately show ?thesis
      using c step by (metis append_Cons)
  qed
qed

text \<open>
  Linking a cell in: at the end, between two cells or in front. The count is raised by the
  caller.
\<close>

lemma queue_link_behind:
  assumes rep: "queue_rep q (pre @ (s, d) # rest)" and room: "length (pre @ (s, d) # rest) < queue_cap q"
    and a: "a \<notin> set (addrs (pre @ (s, d) # rest))" and s: "q_heap q s = Some (mk_cell d t)"
    and t: "t = NULL \<longleftrightarrow> rest = []"
  shows "queue_rep (q\<lparr>q_heap := (q_heap q)(a \<mapsto> mk_cell el t, s \<mapsto> mk_cell d (Ptr a)),
            last_el := (if t = NULL then Ptr a else last_el q), num_els := num_els q + 1\<rparr>)
          (pre @ (s, d) # (a, el) # rest)"
proof -
  have "unat (num_els q) < 65534"
    using rep room by (auto simp: queue_rep_def queue_cap_def split: if_splits)
  then show ?thesis
    using assms seg_insert [of "q_heap q" "first_el q" pre s d rest a t el]
    by (auto simp: queue_rep_def num_els_succ queue_cap_def min_def split: if_splits)
qed

lemma queue_link_front:
  assumes rep: "queue_rep q cs" and "length cs < queue_cap q" and "a \<notin> set (addrs cs)"
  shows "queue_rep (q\<lparr>q_heap := (q_heap q)(a \<mapsto> mk_cell el (first_el q)), first_el := Ptr a,
            last_el := (if cs = [] then Ptr a else last_el q), num_els := num_els q + 1\<rparr>)
          ((a, el) # cs)"
proof -
  have "unat (num_els q) < 65534"
    using assms by (auto simp: queue_rep_def queue_cap_def split: if_splits)
  then show ?thesis
    using assms by (auto simp: queue_rep_def num_els_succ queue_cap_def min_def split: if_splits)
qed

lemma queue_link_append:
  assumes rep: "queue_rep q cs" and room: "length cs < queue_cap q" and a: "a \<notin> set (addrs cs)"
    and sort: "q_sort q = 0 \<or> cs = []"
  shows "safe (queue_link a el q) (\<lambda>q'. queue_rep (q'\<lparr>num_els := num_els q' + 1\<rparr>) (cs @ [(a, el)])
    \<and> q_params q' = q_params q \<and> q_log q' = q_log q)"
proof (cases cs rule: rev_cases)
  case Nil
  with rep have "first_el q = NULL" "last_el q = NULL" by (auto simp: queue_rep_def)
  with queue_link_front [OF rep room a, of el] Nil show ?thesis
    by (simp add: queue_link_def safe_def)
next
  case (snoc ds c)
  obtain s d where c: "c = (s, d)" by (cases c)
  with rep snoc have s: "q_heap q s = Some (mk_cell d NULL)" "last_el q = Ptr s" and "a \<noteq> s"
    using a by (auto simp: queue_rep_def)
  with queue_link_behind [of q ds s d "[]" a NULL el] rep room a snoc c sort show ?thesis
    by (simp add: queue_link_def heap_simps safe_def)
qed

lemma queue_link_sorted:
  assumes rep: "queue_rep q (c # cs)" and room: "length (c # cs) < queue_cap q"
    and a: "a \<notin> set (addrs (c # cs))" and sort: "q_sort q \<noteq> 0" "cmp_el q = Ptr cmp"
  shows "safe (queue_link a el q) (\<lambda>q'. queue_rep (q'\<lparr>num_els := num_els q' + 1\<rparr>)
      (sorted_put (asc_order q \<noteq> 0) cmp (a, el) (c # cs))
    \<and> q_params q' = q_params q \<and> q_log q' = q_log q)"
proof -
  define h where "h = (q_heap q)(a \<mapsto> mk_cell el NULL)"
  let ?asc = "asc_order q \<noteq> 0"
  obtain s d where c: "c = (s, d)" by (cases c)
  with rep obtain n where n: "first_el q = Ptr s" "q_heap q s = Some (mk_cell d n)" "seg (q_heap q) n cs NULL"
    by (auto simp: queue_rep_def)
  with a c have hn: "h s = Some (mk_cell d n)" "seg h n cs NULL" by (auto simp: h_def)
  show ?thesis
  proof (cases "(?asc \<and> cmp d el \<ge> 0) \<or> (\<not> ?asc \<and> cmp d el \<le> 0)")
    case True
    with queue_link_front [OF rep room a, of el] sort n hn c show ?thesis
      by (auto simp: queue_link_def heap_simps sorted_put_def safe_def simp flip: h_def)
        (simp_all add: h_def)
  next
    case False
    from sort_search_split [OF hn, of ?asc cmp el a] obtain pre s' d' rest t where
      split: "c # cs = pre @ (s', d') # rest" and
      srch: "sort_search h ?asc cmp el (Ptr s) n = Some (Ptr s', t)" and
      s': "h s' = Some (mk_cell d' t)" and t: "(t = NULL) = (rest = [])" and
      tail: "sorted_tail ?asc cmp (a, el) (c # cs) = pre @ (s', d') # (a, el) # rest"
      unfolding c by blast
    from a split have as: "a \<noteq> s'" by auto
    with s' have "q_heap q s' = Some (mk_cell d' t)" by (simp add: h_def)
    with queue_link_behind [of q pre s' d' rest a t el] rep room a split t
    have *: "queue_rep (q\<lparr>q_heap := (q_heap q)(a \<mapsto> mk_cell el t, s' \<mapsto> mk_cell d' (Ptr a)),
            last_el := (if t = NULL then Ptr a else last_el q), num_els := num_els q + 1\<rparr>)
          (pre @ (s', d') # (a, el) # rest)" by simp
    have "queue_link a el q = Some (q\<lparr>q_heap := (q_heap q)(a \<mapsto> mk_cell el t, s' \<mapsto> mk_cell d' (Ptr a)),
            last_el := (if t = NULL then Ptr a else last_el q)\<rparr>)"
      using False sort n(1) hn(1) srch s' as
      by (auto simp: queue_link_def heap_simps Let_def fun_upd_twist simp flip: h_def)
        (simp_all add: h_def fun_upd_twist)
    moreover have "sorted_put ?asc cmp (a, el) (c # cs) = pre @ (s', d') # (a, el) # rest"
      using False c tail by (auto simp: sorted_put_def)
    ultimately show ?thesis
      using * by (simp add: safe_def)
  qed
qed

lemma queue_link_refines:
  assumes rep: "queue_rep q cs" and "length cs < queue_cap q" and "a \<notin> set (addrs cs)"
    and "q_sort q \<noteq> 0 \<longrightarrow> cmp_el q \<noteq> NULL"
  shows "safe (queue_link a el q) (\<lambda>q'. queue_rep (q'\<lparr>num_els := num_els q' + 1\<rparr>) (queue_insert q (a, el) cs)
    \<and> q_params q' = q_params q \<and> q_log q' = q_log q)"
proof (cases "q_sort q = 0 \<or> cs = []")
  case True
  then have "queue_insert q (a, el) cs = cs @ [(a, el)]"
    by (auto simp: queue_insert_def sorted_put_def split: cptr.split)
  with queue_link_append [OF assms(1-3) True] show ?thesis by simp
next
  case False
  with assms(4) obtain cmp c ds where "cmp_el q = Ptr cmp" "cs = c # ds"
    by (cases "cmp_el q"; cases cs) auto
  with queue_link_sorted [of q c ds a cmp] assms False show ?thesis
    by (simp add: queue_insert_def)
qed

text \<open>A queue of three elements, for the concrete instances below.\<close>

definition sample_queue :: "u8 \<Rightarrow> int queue" where
  "sample_queue srt = \<lparr>q_heap = [1 \<mapsto> mk_cell 10 (Ptr 2), 2 \<mapsto> mk_cell 20 (Ptr 3), 3 \<mapsto> mk_cell 30 NULL],
     first_el = Ptr 1, last_el = Ptr 3, num_els = 3, max_els = 5, new_data = 1, q_sort = srt,
     asc_order = 1, cmp_el = Ptr (-), q_log = []\<rparr>"

lemma sample_queue_rep: "queue_rep (sample_queue srt) [(1, 10), (2, 20), (3, 30)]"
  by (auto simp: queue_rep_def sample_queue_def)

lemma sample_queue_simps [simp]:
  "new_data (sample_queue srt) = 1" "q_sort (sample_queue srt) = srt"
  "cmp_el (sample_queue srt) = Ptr (-)" "asc_order (sample_queue srt) = 1"
  "queue_cap (sample_queue srt) = 5" "q_log (sample_queue srt) = []"
  by (simp_all add: sample_queue_def queue_cap_def)

lemma queue_put_room:
  assumes "queue_rep q cs" and "length cs < queue_cap q" and "a \<notin> set (addrs cs)"
    and "q_sort q \<noteq> 0 \<longrightarrow> cmp_el q \<noteq> NULL" and "new_data q \<noteq> 0"
  shows "\<exists>q'. queue_put_internal (Ptr a) el action q = Some (Returns (Q_OK, q'))
    \<and> queue_rep q' (queue_insert q (a, el) cs) \<and> q_params q' = q_params q
    \<and> q_log q' = q_log q @ [SignalGet]"
proof -
  from queue_link_refines [OF assms(1-4), of el] obtain q1 where
    "queue_link a el q = Some q1" "queue_rep (q1\<lparr>num_els := num_els q1 + 1\<rparr>) (queue_insert q (a, el) cs)"
    "q_params q1 = q_params q" "q_log q1 = q_log q"
    by (auto simp: safe_def)
  moreover have "\<not> queue_is_full q" using assms not_full_iff by blast
  ultimately show ?thesis
    using assms(5) by (simp add: queue_put_internal_def)
qed

text \<open>
  \<open>queue_put\<close> on a well-formed queue: it refuses the element when no new data is
  accepted, when the queue holds as many elements as it may and when there is no memory,
  each time leaving the queue as it was; otherwise the queue then holds its elements and
  the new one, at the end or at the place the comparison function gives, and one reader is
  woken. In particular the 16-bit count never wraps.
\<close>

lemma queue_put_correct:
  assumes "queue_rep q cs" and "q_sort q \<noteq> 0 \<longrightarrow> cmp_el q \<noteq> NULL" and "a \<notin> set (addrs cs)"
  shows "(new_data q = 0 \<longrightarrow> queue_put (True, True) mal el (Ptr q) = Some (Returns (- 4, Ptr q)))
    \<and> (new_data q \<noteq> 0 \<and> length cs = queue_cap q \<longrightarrow>
        queue_put (True, True) mal el (Ptr q) = Some (Returns (- 7, Ptr q)))
    \<and> (new_data q \<noteq> 0 \<and> length cs < queue_cap q \<longrightarrow>
        queue_put (True, True) NULL el (Ptr q) = Some (Returns (- 3, Ptr q)))
    \<and> (new_data q \<noteq> 0 \<and> length cs < queue_cap q \<longrightarrow>
        (\<exists>q'. queue_put (True, True) (Ptr a) el (Ptr q) = Some (Returns (0, Ptr q'))
          \<and> queue_rep q' (queue_insert q (a, el) cs) \<and> q_params q' = q_params q
          \<and> q_log q' = q_log q @ [SignalGet]))"
proof -
  have full: "queue_is_full q \<longleftrightarrow> \<not> length cs < queue_cap q"
    using not_full_iff [OF assms(1)] by blast
  have err: "new_data q = 0 \<longrightarrow> queue_put (True, True) mal el (Ptr q) = Some (Returns (- 4, Ptr q))"
    "new_data q \<noteq> 0 \<and> length cs = queue_cap q \<longrightarrow>
        queue_put (True, True) mal el (Ptr q) = Some (Returns (- 7, Ptr q))"
    "new_data q \<noteq> 0 \<and> length cs < queue_cap q \<longrightarrow>
        queue_put (True, True) NULL el (Ptr q) = Some (Returns (- 3, Ptr q))"
    using full
    by (simp_all add: queue_put_def on_queue_def put_q_def queue_put_internal_def q_codes)
  show ?thesis
    using err queue_put_room [OF assms(1) _ assms(3,2), of el None]
    by (auto simp: queue_put_def on_queue_def put_q_def Q_OK_def)
qed


lemma queue_put_correct_example:
  "\<exists>q'. queue_put (True, True) (Ptr 4) 40 (Ptr (sample_queue 0)) = Some (Returns (0, Ptr q'))
     \<and> queue_rep q' [(1, 10), (2, 20), (3, 30), (4, 40)] \<and> q_log q' = [SignalGet]"
  using queue_put_correct [OF sample_queue_rep [of 0], of 4 NULL 40]
  by (auto simp: queue_insert_def)

subsection \<open>Removal\<close>

lemma queue_unlink_first:
  assumes rep: "queue_rep q ((a, d) # cs)"
  shows "\<exists>q'. queue_unlink NULL (first_el q) q = Some (Q_OK, Ptr d, q') \<and> queue_rep q' cs
    \<and> q_params q' = q_params q \<and> q_log q' = q_log q @ [SignalPut]"
proof -
  from rep obtain n where n: "first_el q = Ptr a" "q_heap q a = Some (mk_cell d n)" "seg (q_heap q) n cs NULL"
    by (auto simp: queue_rep_def)
  define q1 where "q1 = q\<lparr>first_el := n, last_el := (if n = NULL then NULL else last_el q),
    q_heap := (q_heap q)(a := None), num_els := num_els q - 1\<rparr>"
  have "n = NULL \<longleftrightarrow> cs = []"
    using n(3) by (cases rule: seg_to_NULL_cases) auto
  with rep n num_els_pred [of "num_els q" "length cs"] have "queue_rep q1 cs"
    by (auto simp: queue_rep_def q1_def)
  moreover have "queue_unlink NULL (first_el q) q = Some (Q_OK, Ptr d, log_event SignalPut q1)"
    using n by (simp add: queue_unlink_def heap_simps q1_def)
  moreover have "q_params q1 = q_params q" "q_log q1 = q_log q"
    by (simp_all add: q1_def)
  ultimately show ?thesis by simp
qed

lemma queue_unlink_behind:
  assumes rep: "queue_rep q (pre @ (s, d) # (a, x) # rest)"
  shows "\<exists>q'. queue_unlink (Ptr s) (Ptr a) q = Some (Q_OK, Ptr x, q')
    \<and> queue_rep (if rest = [] then q'\<lparr>last_el := Ptr s\<rparr> else q') (pre @ (s, d) # rest)
    \<and> last_el q' = last_el q \<and> q_params q' = q_params q \<and> q_log q' = q_log q @ [SignalPut]"
proof -
  from rep obtain t where t: "q_heap q a = Some (mk_cell x t)" "q_heap q s = Some (mk_cell d (Ptr a))" "a \<noteq> s"
    by (auto simp: queue_rep_def)
  define q1 where "q1 = q\<lparr>q_heap := (q_heap q)(s \<mapsto> mk_cell d t, a := None), num_els := num_els q - 1\<rparr>"
  have "seg (q_heap q1) (first_el q1) (pre @ (s, d) # rest) NULL"
    using rep seg_remove [of "q_heap q" "first_el q" pre s d a x rest t] t(1)
    by (simp add: queue_rep_def q1_def)
  with rep t num_els_pred [of "num_els q" "Suc (length pre + length rest)"]
  have "queue_rep (if rest = [] then q1\<lparr>last_el := Ptr s\<rparr> else q1) (pre @ (s, d) # rest)"
    by (auto simp: queue_rep_def q1_def)
  moreover have "queue_unlink (Ptr s) (Ptr a) q = Some (Q_OK, Ptr x, log_event SignalPut q1)"
    using t by (simp add: queue_unlink_def heap_simps q1_def)
  moreover have "q_params q1 = q_params q" "q_log q1 = q_log q" "last_el q1 = last_el q"
    by (simp_all add: q1_def)
  ultimately show ?thesis
    by (auto simp: log_event_def queue_rep_def q_params_def)
qed

lemma num_els_0_iff: "queue_rep q cs \<Longrightarrow> num_els q = 0 \<longleftrightarrow> cs = []"
  by (auto simp: queue_rep_def unat_eq_0)

lemma queue_get_nonempty:
  assumes "queue_rep q ((a, d) # cs)"
  shows "\<exists>q'. queue_get_internal action NULL q = Some (Returns (Q_OK, Ptr d, q'))
    \<and> queue_rep q' cs \<and> q_params q' = q_params q \<and> q_log q' = q_log q @ [SignalPut]"
  using num_els_0_iff [OF assms] queue_unlink_first [OF assms]
  by (auto simp: queue_get_internal_def)

lemma queue_get_empty:
  "queue_rep q [] \<Longrightarrow> queue_get_internal None cmp q = Some (Returns (Q_ERR_NUM_ELEMENTS, NULL, q))"
  using num_els_0_iff [of q "[]"] by (simp add: queue_get_internal_def)

text \<open>
  \<open>queue_get\<close> on a well-formed queue: it reports an empty queue and leaves it as
  it was; otherwise it returns the first element, frees exactly its cell, wakes one writer
  and leaves the rest of the queue in order.
\<close>

lemma queue_get_correct:
  assumes "queue_rep q cs"
  shows "(cs = [] \<longrightarrow> queue_get (True, True) (Ptr q) = Some (Returns (- 7, NULL, Ptr q)))
    \<and> (\<forall>a d cs'. cs = (a, d) # cs' \<longrightarrow>
        (\<exists>q'. queue_get (True, True) (Ptr q) = Some (Returns (0, Ptr d, Ptr q'))
          \<and> queue_rep q' cs' \<and> q_params q' = q_params q \<and> q_log q' = q_log q @ [SignalPut]))"
  using assms queue_get_empty [of q NULL] queue_get_nonempty [of q _ _ _ None]
  by (fastforce simp: queue_get_def on_queue_def get_q_def q_codes)

lemma queue_get_correct_example:
  "\<exists>q'. queue_get (True, True) (Ptr (sample_queue 0)) = Some (Returns (0, Ptr 10, Ptr q'))
     \<and> queue_rep q' [(2, 20), (3, 30)]"
  using queue_get_correct [OF sample_queue_rep [of 0]] by auto

subsection \<open>First in, first out\<close>

definition queue_accepts :: "'d queue \<Rightarrow> (nat \<times> 'd) list \<Rightarrow> bool" where
  "queue_accepts q cs \<longleftrightarrow> queue_rep q cs \<and> q_sort q = 0 \<and> new_data q \<noteq> 0"

text \<open>A call that succeeds, seen as a step on the queue.\<close>

definition put_step :: "nat \<Rightarrow> 'd \<Rightarrow> 'd queue \<Rightarrow> 'd queue exec" where
  "put_step a el q =
     (case queue_put (True, True) (Ptr a) el (Ptr q) of
        Some (Returns (r, Ptr q')) \<Rightarrow> if r = Q_OK then Some q' else None
      | _ \<Rightarrow> None)"

definition get_step :: "'d queue \<Rightarrow> ('d cptr \<times> 'd queue) exec" where
  "get_step q =
     (case queue_get (True, True) (Ptr q) of
        Some (Returns (r, e, Ptr q')) \<Rightarrow> Some (e, q')
      | _ \<Rightarrow> None)"

interpretation mq: fifo queue_accepts queue_cap put_step get_step
proof
  fix s :: "'d queue" and cs a d
  assume *: "queue_accepts s cs" "length cs < queue_cap s" "a \<notin> set (addrs cs)"
  then have "queue_insert s (a, d) cs = cs @ [(a, d)]"
    by (simp add: queue_accepts_def queue_insert_def split: cptr.split)
  with * queue_put_room [of s cs a d None]
  show "safe (put_step a d s) (\<lambda>s'. queue_accepts s' (cs @ [(a, d)]) \<and> queue_cap s' = queue_cap s)"
    by (auto simp: queue_accepts_def safe_def put_step_def queue_put_def on_queue_def put_q_def
        dest!: q_paramsD)
next
  fix s :: "'d queue" and a d cs
  assume "queue_accepts s ((a, d) # cs)"
  with queue_get_nonempty [of s a d cs None]
  show "safe (get_step s) (\<lambda>(e, s'). e = Ptr d \<and> queue_accepts s' cs \<and> queue_cap s' = queue_cap s)"
    by (auto simp: queue_accepts_def safe_def get_step_def queue_get_def on_queue_def get_q_def
        dest!: q_paramsD)
next
  fix s :: "'d queue"
  assume "queue_accepts s []"
  with queue_get_empty [of s NULL]
  show "safe (get_step s) (\<lambda>(e, s'). e = NULL \<and> queue_accepts s' [] \<and> queue_cap s' = queue_cap s)"
    by (auto simp: queue_accepts_def safe_def get_step_def queue_get_def on_queue_def get_q_def)
qed



subsection \<open>Sorted queues\<close>

definition ordered :: "bool \<Rightarrow> ('d \<Rightarrow> 'k :: linorder) \<Rightarrow> 'd list \<Rightarrow> bool" where
  "ordered asc key xs \<longleftrightarrow> sorted_wrt (\<lambda>x y. if asc then key x \<le> key y else key y \<le> key x) xs"

text \<open>The comparison function compares by a key.\<close>

definition compares :: "('d \<Rightarrow> 'k :: linorder) \<Rightarrow> ('d \<Rightarrow> 'd \<Rightarrow> int) \<Rightarrow> bool" where
  "compares key cmp \<longleftrightarrow> (\<forall>x y. (cmp x y \<le> 0 \<longleftrightarrow> key x \<le> key y) \<and> (cmp x y \<ge> 0 \<longleftrightarrow> key y \<le> key x))"

lemma sorted_tail_mset: "mset (sorted_tail asc cmp c cs) = add_mset c (mset cs)"
  by (induction asc cmp c cs rule: sorted_tail.induct) auto

lemma set_sorted_tail: "set (sorted_tail asc cmp c cs) = insert c (set cs)"
  using arg_cong [OF sorted_tail_mset, of set_mset asc cmp c cs] by simp

lemma sorted_tail_ordered:
  assumes "compares key cmp" and "ordered asc key (datas (s # cs))"
    and "if asc then key (snd s) \<le> key (snd c) else key (snd c) \<le> key (snd s)"
  shows "ordered asc key (datas (sorted_tail asc cmp c (s # cs)))"
  using assms
proof (induction cs arbitrary: s)
  case Nil
  then show ?case by (simp add: ordered_def)
next
  case (Cons t cs)
  show ?case
  proof (cases "if asc then key (snd c) \<le> key (snd t) else key (snd t) \<le> key (snd c)")
    case True
    with Cons.prems show ?thesis
      by (auto simp: ordered_def compares_def split: if_splits intro: order_trans)
  next
    case False
    with Cons.prems Cons.IH [of t] show ?thesis
      by (auto simp: ordered_def compares_def set_sorted_tail split: if_splits)
  qed
qed

lemma sorted_put_ordered:
  assumes "compares key cmp" and "ordered asc key (datas cs)"
  shows "ordered asc key (datas (sorted_put asc cmp c cs))"
proof (cases cs)
  case Nil
  then show ?thesis by (simp add: sorted_put_def ordered_def)
next
  case (Cons s cs')
  show ?thesis
  proof (cases "if asc then key (snd c) \<le> key (snd s) else key (snd s) \<le> key (snd c)")
    case True
    with assms Cons show ?thesis
      by (auto simp: sorted_put_def ordered_def compares_def split: if_splits intro: order_trans)
  next
    case False
    with assms Cons sorted_tail_ordered [of key cmp asc s cs' c] show ?thesis
      by (auto simp: sorted_put_def compares_def split: if_splits)
  qed
qed

text \<open>
  A sorted queue stays sorted: when the comparison function compares by a key
  and the queue is in order, ascending or descending as chosen at creation, then a
  successful \<open>queue_put\<close> keeps it in order and adds exactly the new element.
\<close>

lemma queue_put_sorted:
  assumes "queue_rep q cs" and "q_sort q \<noteq> 0" and "cmp_el q = Ptr cmp" and "compares key cmp"
    and "ordered (asc_order q \<noteq> 0) key (datas cs)" and "new_data q \<noteq> 0"
    and "length cs < queue_cap q" and "a \<notin> set (addrs cs)"
  shows "\<exists>q' cs'. queue_put (True, True) (Ptr a) el (Ptr q) = Some (Returns (0, Ptr q'))
    \<and> queue_rep q' cs' \<and> ordered (asc_order q' \<noteq> 0) key (datas cs') \<and> mset cs' = add_mset (a, el) (mset cs)"
proof -
  let ?cs = "queue_insert q (a, el) cs"
  obtain q' where "queue_put_internal (Ptr a) el None q = Some (Returns (Q_OK, q'))"
    "queue_rep q' ?cs" "q_params q' = q_params q"
    using queue_put_room [of q cs a el None] assms by auto
  moreover have "?cs = sorted_put (asc_order q \<noteq> 0) cmp (a, el) cs"
    using assms(2,3) by (simp add: queue_insert_def)
  moreover have "mset (sorted_put (asc_order q \<noteq> 0) cmp (a, el) cs) = add_mset (a, el) (mset cs)"
    by (auto simp: sorted_put_def sorted_tail_mset split: list.split)
  ultimately show ?thesis
    using sorted_put_ordered [OF assms(4,5), of "(a, el)"]
    by (auto simp: queue_put_def on_queue_def put_q_def Q_OK_def q_params_def)
qed

lemma queue_put_sorted_example:
  "\<exists>q' cs'. queue_put (True, True) (Ptr 4) 25 (Ptr (sample_queue 1)) = Some (Returns (0, Ptr q'))
     \<and> queue_rep q' cs' \<and> ordered True id (datas cs')
     \<and> mset cs' = {#(4, 25), (1, 10), (2, 20), (3, 30)#}"
proof -
  have "compares id ((-) :: int \<Rightarrow> int \<Rightarrow> int)" "ordered True id [10, 20, 30 :: int]"
    by (auto simp: compares_def ordered_def)
  then obtain q' cs' where q': "queue_put (True, True) (Ptr 4) 25 (Ptr (sample_queue 1)) = Some (Returns (0, Ptr q'))"
    "queue_rep q' cs'" "ordered (asc_order q' \<noteq> 0) id (datas cs')"
    "mset cs' = {#(4, 25), (1, 10), (2, 20), (3, 30)#}"
    using queue_put_sorted [OF sample_queue_rep [of 1], of "(-)" id 4 25] by auto
  moreover have "asc_order q' \<noteq> 0"
    using q'(1) queue_put_room [OF sample_queue_rep [of 1], of 4 25 None]
    by (auto simp: queue_put_def on_queue_def put_q_def dest!: q_paramsD)
  ultimately show ?thesis by auto
qed

subsection \<open>Filtered removal\<close>

lemma filter_loop_skip:
  assumes "seg h p (cs @ (a, x) # rest) NULL"
    and "\<And>b d n. (b, d) \<in> set cs \<Longrightarrow> f b (mk_cell d n) \<noteq> 0" and "\<And>n. f a (mk_cell x n) = 0"
  shows "filter_loop h f prev p = Some (if cs = [] then prev else Ptr (fst (last cs)), Ptr a)"
  using assms
proof (induction cs arbitrary: p prev)
  case Nil
  then show ?case
    by (subst filter_loop.simps) (auto simp: deref_def)
next
  case (Cons c cs)
  obtain b d where c: "c = (b, d)" by (cases c)
  with Cons.prems obtain n where n: "p = Ptr b" "h b = Some (mk_cell d n)" "seg h n (cs @ (a, x) # rest) NULL"
    by auto
  moreover have "f b (mk_cell d n) \<noteq> 0" using Cons.prems(2) c by simp
  ultimately have "filter_loop h f prev p = filter_loop h f (Ptr b) n"
    by (subst filter_loop.simps) (auto simp: deref_def)
  with Cons.IH [OF n(3)] Cons.prems(2,3) c show ?case by simp
qed

text \<open>
  \<open>f\<close> rejects the cells \<open>pre\<close> and accepts the cell \<open>(a, x)\<close>, whatever their successors.
\<close>

definition first_match ::
  "(nat \<Rightarrow> 'd cell \<Rightarrow> int) \<Rightarrow> (nat \<times> 'd) list \<Rightarrow> nat \<times> 'd \<Rightarrow> bool" where
  "first_match f pre c \<longleftrightarrow> (\<forall>(b, d) \<in> set pre. \<forall>n. f b (mk_cell d n) \<noteq> 0)
     \<and> (\<forall>n. f (fst c) (mk_cell (snd c) n) = 0)"

lemma queue_get_match:
  assumes "queue_rep q (pre @ (a, x) # rest)" and "first_match f pre (a, x)"
  shows "queue_get_internal None (Ptr f) q = map_option Returns
    (queue_unlink (if pre = [] then NULL else Ptr (fst (last pre))) (Ptr a) q)"
proof -
  have "filter_loop (q_heap q) f NULL (first_el q)
      = Some (if pre = [] then NULL else Ptr (fst (last pre)), Ptr a)"
    using assms by (intro filter_loop_skip [where x = x and rest = rest])
      (auto simp: queue_rep_def first_match_def)
  moreover have "num_els q \<noteq> 0" using num_els_0_iff [OF assms(1)] by simp
  ultimately show ?thesis
    by (auto simp: queue_get_internal_def map_option_case split: option.split)
qed

text \<open>
  \<open>queue_get_filtered\<close> takes out the first element that the filter accepts and
  keeps the others in order, when that element is the first of the queue or not the last.
\<close>

lemma queue_get_filtered_correct:
  assumes rep: "queue_rep q (pre @ (a, x) # rest)" and "first_match f pre (a, x)"
    and "pre = [] \<or> rest \<noteq> []"
  shows "\<exists>q'. queue_get_filtered (True, True) (Ptr f) (Ptr q) = Some (Returns (0, Ptr x, Ptr q'))
    \<and> queue_rep q' (pre @ rest) \<and> q_params q' = q_params q"
proof (cases pre rule: rev_cases)
  case Nil
  moreover have "first_el q = Ptr a" using rep Nil by (simp add: queue_rep_def)
  ultimately show ?thesis
    using assms queue_get_match [OF assms(1,2)] queue_unlink_first [of q a x rest]
    by (auto simp: queue_get_filtered_def on_queue_def get_q_def Q_OK_def)
next
  case (snoc ds c)
  with assms queue_get_match [OF assms(1,2)] queue_unlink_behind [of q ds "fst c" "snd c" a x rest]
  show ?thesis
    by (auto simp: queue_get_filtered_def on_queue_def get_q_def Q_OK_def)
qed

lemma queue_get_filtered_correct_example:
  "\<exists>q'. queue_get_filtered (True, True) (Ptr (\<lambda>_ c. c_data c - 20)) (Ptr (sample_queue 0))
       = Some (Returns (0, Ptr 20, Ptr q')) \<and> queue_rep q' [(1, 10), (3, 30)]"
  using queue_get_filtered_correct [of "sample_queue 0" "[(1, 10)]" 2 20 "[(3, 30)]" "\<lambda>_ c. c_data c - 20"]
    sample_queue_rep [of 0]
  by (auto simp: first_match_def)

text \<open>
  Taking out the last element of a longer queue with \<open>queue_get_filtered\<close> leaves
  \<open>last_el\<close> pointing to the freed cell. The element is returned and the others stay linked,
  but the next \<open>queue_put\<close> writes through the dangling pointer: undefined behaviour, or, when
  the allocator hands out the freed cell again, a success report for an element that no
  reader can ever reach although it is counted.
\<close>

lemma queue_get_filtered_dangles:
  assumes rep: "queue_rep q (pre @ [(s, d), (a, x)])" and match: "first_match f (pre @ [(s, d)]) (a, x)"
    and "q_sort q = 0" and "new_data q \<noteq> 0"
  shows "\<exists>q'. queue_get_filtered (True, True) (Ptr f) (Ptr q) = Some (Returns (0, Ptr x, Ptr q'))
    \<and> seg (q_heap q') (first_el q') (pre @ [(s, d)]) NULL
    \<and> last_el q' = Ptr a \<and> q_heap q' a = None
    \<and> (\<forall>b el. b \<noteq> a \<longrightarrow> queue_put (True, True) (Ptr b) el (Ptr q') = None)
    \<and> (\<forall>el. \<exists>q''. queue_put (True, True) (Ptr a) el (Ptr q') = Some (Returns (0, Ptr q''))
        \<and> seg (q_heap q'') (first_el q'') (pre @ [(s, d)]) NULL
        \<and> unat (num_els q'') = length pre + 2)"
proof -
  from queue_unlink_behind [of q pre s d a x "[]"] rep obtain q' where
    q': "queue_unlink (Ptr s) (Ptr a) q = Some (Q_OK, Ptr x, q')"
      "queue_rep (q'\<lparr>last_el := Ptr s\<rparr>) (pre @ [(s, d)])" "last_el q' = last_el q"
      "q_params q' = q_params q"
    by auto
  have la: "last_el q' = Ptr a" and an: "a \<notin> set (addrs (pre @ [(s, d)]))"
    and room: "length (pre @ [(s, d)]) < queue_cap q"
    using rep q'(3) by (auto simp: queue_rep_def queue_cap_def)
  with q'(2) have ha: "q_heap q' a = None" and n: "unat (num_els q') = length pre + 1"
    and sg: "seg (q_heap q') (first_el q') (pre @ [(s, d)]) NULL"
    by (auto simp: queue_rep_def)
  have "queue_cap (q'\<lparr>last_el := Ptr s\<rparr>) = queue_cap q'"
    and "queue_is_full (q'\<lparr>last_el := Ptr s\<rparr>) = queue_is_full q'"
    by (simp_all add: queue_cap_def queue_is_full_def)
  then have full: "\<not> queue_is_full q'"
    using not_full_iff [OF q'(2)] room q_paramsD [OF q'(4)] by simp
  have put: "queue_put (True, True) (Ptr b) el (Ptr q') =
      (do { q1 \<leftarrow> queue_link b el q';
            Some (Returns (0, Ptr (log_event SignalGet (q1\<lparr>num_els := num_els q1 + 1\<rparr>)))) })" for b el
    using full q_paramsD [OF q'(4)] assms(4)
    by (cases "queue_link b el q'")
      (simp_all add: queue_put_def on_queue_def put_q_def queue_put_internal_def Q_OK_def)
  have "queue_put (True, True) (Ptr b) el (Ptr q') = None" if "b \<noteq> a" for b el
    using that la ha q_paramsD [OF q'(4)] assms(3)
    by (simp add: put queue_link_def heap_simps)
  moreover have "\<exists>q''. queue_put (True, True) (Ptr a) el (Ptr q') = Some (Returns (0, Ptr q''))
        \<and> seg (q_heap q'') (first_el q'') (pre @ [(s, d)]) NULL
        \<and> unat (num_els q'') = length pre + 2" for el
    using la sg an q_paramsD [OF q'(4)] assms(3) n rep num_els_succ [of "num_els q'"]
    by (auto simp: put queue_link_def heap_simps log_event_def queue_rep_def)
  moreover have "queue_get_filtered (True, True) (Ptr f) (Ptr q) = Some (Returns (0, Ptr x, Ptr q'))"
    using queue_get_match [of q "pre @ [(s, d)]" a x "[]" f] rep match q'(1)
    by (simp add: queue_get_filtered_def on_queue_def get_q_def Q_OK_def)
  ultimately show ?thesis
    using sg la ha by blast
qed

lemma queue_get_filtered_dangles_example:
  "\<exists>q'. queue_get_filtered (True, True) (Ptr (\<lambda>_ c. c_data c - 30)) (Ptr (sample_queue 0))
       = Some (Returns (0, Ptr 30, Ptr q')) \<and> last_el q' = Ptr 3 \<and> q_heap q' 3 = None
     \<and> queue_put (True, True) (Ptr 4) 40 (Ptr q') = None"
  using queue_get_filtered_dangles [of "sample_queue 0" "[(1, 10)]" 2 20 3 30 "\<lambda>_ c. c_data c - 30"]
    sample_queue_rep [of 0]
  by (auto simp: first_match_def)

subsection \<open>Flushing and destruction\<close>

lemma flush_loop_all:
  assumes "seg (q_heap q) p cs NULL" and "distinct (addrs cs)" and "dom (q_heap q) = set (addrs cs)"
  shows "flush_loop fd p q = Some (q\<lparr>q_heap := Map.empty,
    q_log := q_log q @ (if fd then map Released (datas cs) else [])\<rparr>)"
  using assms
proof (induction cs arbitrary: p q)
  case Nil
  then show ?case
    by (subst flush_loop.simps) simp
next
  case (Cons c cs)
  obtain a d where c: "c = (a, d)" by (cases c)
  with Cons.prems obtain n where n: "p = Ptr a" "q_heap q a = Some (mk_cell d n)" "seg (q_heap q) n cs NULL"
    by auto
  define q1 where "q1 = (if fd then log_event (Released d) q else q)\<lparr>q_heap := (q_heap q)(a := None)\<rparr>"
  have "flush_loop fd p q = flush_loop fd n q1"
    using n by (subst flush_loop.simps) (simp add: heap_simps q1_def)
  moreover have "seg (q_heap q1) n cs NULL" "dom (q_heap q1) = set (addrs cs)"
    using Cons.prems n c by (auto simp: q1_def)
  ultimately have "flush_loop fd p q = Some (q1\<lparr>q_heap := Map.empty,
      q_log := q_log q1 @ (if fd then map Released (datas cs) else [])\<rparr>)"
    using Cons.IH [of q1 n] Cons.prems c by simp
  then show ?case
    by (cases fd) (simp_all add: q1_def c log_event_def)
qed

lemma queue_flush_all:
  assumes "queue_rep q cs"
  shows "\<exists>q'. queue_flush_internal fd q = Some (Q_OK, q') \<and> queue_rep q' []
    \<and> q_heap q' = Map.empty \<and> q_params q' = q_params q
    \<and> q_log q' = q_log q @ (if fd then map Released (datas cs) else [])"
proof -
  have "flush_loop fd (first_el q) q = Some (q\<lparr>q_heap := Map.empty,
    q_log := q_log q @ (if fd then map Released (datas cs) else [])\<rparr>)"
    using assms by (intro flush_loop_all) (auto simp: queue_rep_def)
  then show ?thesis
    by (simp add: queue_flush_internal_def queue_rep_def q_params_def)
qed

text \<open>
  Flushing and destroying a well-formed queue free every cell exactly once, and
  release the data of each element exactly once, in order, when asked to. A flushed queue
  is empty and well formed; destroying ends as soon as the mutex is no longer busy.
\<close>

lemma queue_flush_destroy_release_all:
  assumes "queue_rep q cs"
  shows "(\<exists>q'. queue_flush (True, True) (Ptr q) = Some (Returns (0, Ptr q')) \<and> queue_rep q' []
        \<and> q_heap q' = Map.empty \<and> q_log q' = q_log q)
    \<and> (\<exists>q'. queue_flush_complete (True, True) (Ptr q) = Some (Returns (0, Ptr q')) \<and> queue_rep q' []
        \<and> q_heap q' = Map.empty \<and> q_log q' = q_log q @ map Released (datas cs))
    \<and> queue_destroy_complete (True, True) (replicate k 16 @ [0]) (Ptr q)
        = Some (Returns (0, Map.empty,
            q_log q @ [BroadcastGet, BroadcastPut] @ map Released (datas cs)))
    \<and> queue_destroy_complete (True, True) (replicate k 16) (Ptr q) = Some Blocked"
proof -
  have busy: "destroy_mutex (replicate k 16 @ es) = destroy_mutex es" for es
    by (induction k) simp_all
  have closed: "queue_rep (log_event BroadcastPut (log_event BroadcastGet (q\<lparr>new_data := 0\<rparr>))) cs"
    using assms by (simp add: queue_rep_def log_event_def)
  show ?thesis
    using queue_flush_all [OF assms, of False] queue_flush_all [OF assms, of True]
      queue_flush_all [OF closed, of True] busy [of "[]"] busy [of "[0]"]
    by (auto simp: queue_flush_def queue_flush_complete_def on_queue_def ret_q_def Q_OK_def
        queue_destroy_complete_def queue_destroy_internal_def queue_set_new_data_def)
qed

lemma queue_flush_destroy_release_all_example:
  "queue_destroy_complete (True, True) [16, 16, 0] (Ptr (sample_queue 0))
     = Some (Returns (0, Map.empty,
         [BroadcastGet, BroadcastPut, Released 10, Released 20, Released 30]))"
  using queue_flush_destroy_release_all [OF sample_queue_rep [of 0], of "Suc (Suc 0)"] by auto

subsection \<open>Waiting\<close>

lemma cond_wait_spurious:
  "busy q \<Longrightarrow> cond_wait busy (replicate k id @ ws) q = cond_wait busy ws q"
  by (induction k) simp_all

text \<open>
  A reader that waits on an empty queue survives any number of spurious
  wake-ups, blocks as long as nothing happens, receives the element of the first writer,
  and returns with an error when the queue is closed to new data.
\<close>

lemma queue_get_wait_wakes:
  assumes "queue_rep q []" and "new_data q \<noteq> 0"
  shows "queue_get_wait (True, True) (replicate k id) (Ptr q) = Some Blocked
    \<and> (queue_put (True, True) (Ptr a) el (Ptr q) = Some (Returns (0, Ptr qp)) \<and> q_sort q = 0 \<longrightarrow>
        (\<exists>q'. queue_get_wait (True, True) (replicate k id @ [\<lambda>_. qp]) (Ptr q)
           = Some (Returns (0, Ptr el, Ptr q')) \<and> queue_rep q' []))
    \<and> (queue_set_new_data (True, True) 0 (Ptr q) = (0, Ptr qc) \<longrightarrow>
        queue_get_wait (True, True) (replicate k id @ [\<lambda>_. qc]) (Ptr q)
           = Some (Returns (- 4, NULL, Ptr qc)))"
proof -
  let ?busy = "\<lambda>q. num_els q = 0 \<and> new_data q \<noteq> 0"
  have n: "num_els q = 0" using num_els_0_iff [OF assms(1)] by simp
  have wait: "queue_get_internal (Some (replicate k id @ ws)) NULL q =
      (case cond_wait ?busy ws q of Blocked \<Rightarrow> Some Blocked
       | Returns q1 \<Rightarrow> queue_get_internal (Some []) NULL q1)" for ws
  proof -
    have free: "\<not> ?busy q1" if "cond_wait ?busy ws q = Returns q1" for q1
      using that by (induction ws arbitrary: q) (auto split: if_splits)
    have spur: "cond_wait ?busy (replicate k id @ ws) q = cond_wait ?busy ws q"
      using n assms(2) by (intro cond_wait_spurious) simp
    show ?thesis
    proof (cases "cond_wait ?busy ws q")
      case Blocked
      then show ?thesis
        using n by (simp add: queue_get_internal_def spur)
    next
      case (Returns q1)
      then show ?thesis
        using n free [OF Returns] by (simp add: queue_get_internal_def spur)
    qed
  qed
  have "queue_get_wait (True, True) (replicate k id) (Ptr q) = Some Blocked"
    using wait [of "[]"] n assms(2)
    by (simp add: queue_get_wait_def on_queue_def get_q_def)
  moreover have "\<exists>q'. queue_get_wait (True, True) (replicate k id @ [\<lambda>_. qp]) (Ptr q)
           = Some (Returns (0, Ptr el, Ptr q')) \<and> queue_rep q' []"
    if "queue_put (True, True) (Ptr a) el (Ptr q) = Some (Returns (0, Ptr qp))" "q_sort q = 0"
  proof -
    have "0 < queue_cap q"
      by (auto simp: queue_cap_def unat_gt_0)
    with that queue_put_room [of q "[]" a el None] assms
    have rep: "queue_rep qp [(a, el)]"
      by (auto simp: queue_put_def on_queue_def put_q_def queue_insert_def split: cptr.splits)
    then have "num_els qp \<noteq> 0" using num_els_0_iff by blast
    with wait [of "[\<lambda>_. qp]"] queue_get_nonempty [OF rep, of "Some []"] n assms(2) show ?thesis
      by (auto simp: queue_get_wait_def on_queue_def get_q_def Q_OK_def)
  qed
  moreover have "queue_get_wait (True, True) (replicate k id @ [\<lambda>_. qc]) (Ptr q)
           = Some (Returns (- 4, NULL, Ptr qc))"
    if "queue_set_new_data (True, True) 0 (Ptr q) = (0, Ptr qc)"
    using that wait [of "[\<lambda>_. qc]"] n assms(2)
    by (auto simp: queue_get_wait_def on_queue_def get_q_def queue_set_new_data_def
        queue_get_internal_def log_event_def q_codes)
  ultimately show ?thesis by blast
qed

lemma queue_get_wait_wakes_example:
  "\<exists>q qc. queue_create (\<lambda>_. True) = Ptr q \<and> queue_set_new_data (True, True) 0 (Ptr q) = (0, Ptr qc)
     \<and> queue_get_wait (True, True) [id, id] (Ptr q) = Some Blocked
     \<and> queue_get_wait (True, True) [id, id, \<lambda>_. qc] (Ptr q) = Some (Returns (- 4, NULL :: int cptr, Ptr qc))"
proof -
  obtain q :: "int queue" where q: "queue_create (\<lambda>_. True) = Ptr q" by (simp add: queue_create_def)
  then have "queue_rep q []" "new_data q \<noteq> 0" by (auto simp: queue_create_def queue_rep_def)
  moreover obtain qc where "queue_set_new_data (True, True) 0 (Ptr q) = (0, Ptr qc)"
    by (simp add: queue_set_new_data_def Q_OK_def)
  ultimately show ?thesis
    using q queue_get_wait_wakes [of q "Suc (Suc 0)" undefined undefined undefined qc] by auto
qed

end
