(* ===== verification/Knx_Debounce.thy ===== *)
theory Knx_Debounce
  imports Msg_Queue
begin

text \<open>
  Debouncing of KNX telegrams: the key-value table of \<open>source/point.c\<close> with its periodic
  task \<open>KNX_DevDebounce\<close>, and the part of \<open>KNX_BusMonitorEntry\<close> in \<open>source/knxHandle.c\<close> that
  decides for a telegram whether it is debounced or goes to the monitor queue at once.

  \<^item> The hash table of the macros \<open>HASH_FIND_STR\<close>, \<open>HASH_ADD_KEYPTR\<close>, \<open>HASH_DEL\<close> and \<open>HASH_ITER\<close>
    is the list of its items in the order of insertion, which is the order in which the
    macros iterate.
  \<^item> A time is a number of milliseconds of the monotonic clock, an argument of every
    operation that reads it. Character arrays are the strings they hold.
  \<^item> \<open>al k\<close> says whether the \<open>k\<close>-th allocation of a call succeeds. The code does not test all
    of them; the use of a null pointer is undefined.
  \<^item> The telegrams that are handed to \<open>queue_put\<close> are results, in their order, and
    \<open>put_all\<close> hands them to the queue. The code ignores what \<open>queue_put\<close> returns here.
\<close>

type_synonym u64 = "64 word"

record KnxData =
  kd_hwAddr :: string
  kd_groupAddr :: string
  kd_phy :: u16
  kd_bRejected :: bool
  kd_value :: u16
  kd_cmd :: string
  kd_timestamp :: u64

definition zero_data :: KnxData where
  "zero_data = \<lparr>kd_hwAddr = '''', kd_groupAddr = '''', kd_phy = 0, kd_bRejected = False,
     kd_value = 0, kd_cmd = '''', kd_timestamp = 0\<rparr>"

record kv_item =
  kv_pGrp :: string
  kv_pValue :: "KnxData cptr"
  kv_timestamp :: u64
  kv_expire :: u32
  kv_bDone :: bool

type_synonym kv_table = "kv_item list"

definition HASH_FIND_STR :: "kv_table \<Rightarrow> string \<Rightarrow> kv_item option" where
  "HASH_FIND_STR t grp = List.find (\<lambda>it. kv_pGrp it = grp) t"

definition on_key :: "string \<Rightarrow> (kv_item \<Rightarrow> kv_item) \<Rightarrow> kv_table \<Rightarrow> kv_table" where
  "on_key grp f t = map (\<lambda>it. if kv_pGrp it = grp then f it else it) t"

subsection \<open>Operations of the table\<close>

text \<open>The argument \<open>pValue\<close> of \<open>kv_set\<close> is never used.\<close>

definition kv_set :: "(nat \<Rightarrow> bool) \<Rightarrow> u64 \<Rightarrow> string \<Rightarrow> u32 \<Rightarrow> kv_table \<Rightarrow> (int \<times> kv_table) exec" where
  "kv_set al now grp expire_ms t =
     (case HASH_FIND_STR t grp of
        Some _ \<Rightarrow>
          Some (0, on_key grp (\<lambda>it. it\<lparr>kv_timestamp := now, kv_expire := expire_ms\<rparr>) t)
      | None \<Rightarrow>
          if \<not> al 0 then Some (- 1, t)
          else if \<not> al 1 then None
          else Some (0, t @ [\<lparr>kv_pGrp = grp, kv_pValue = (if al 2 then Ptr zero_data else NULL),
                 kv_timestamp = now, kv_expire = expire_ms, kv_bDone = False\<rparr>]))"

definition kv_update :: "u64 \<Rightarrow> string \<Rightarrow> KnxData \<Rightarrow> kv_table \<Rightarrow> (int \<times> kv_table) exec" where
  "kv_update now grp d t =
     (case HASH_FIND_STR t grp of
        None \<Rightarrow> Some (- 1, t)
      | Some it \<Rightarrow>
          (case kv_pValue it of
             NULL \<Rightarrow> None
           | Ptr _ \<Rightarrow> Some (0, on_key grp
               (\<lambda>it. it\<lparr>kv_pValue := Ptr d, kv_timestamp := now, kv_bDone := False\<rparr>) t)))"

definition kv_overdue :: "u64 \<Rightarrow> kv_item \<Rightarrow> bool" where
  "kv_overdue now it \<longleftrightarrow> kv_timestamp it + ucast (kv_expire it) < now"

definition kv_get :: "(nat \<Rightarrow> bool) \<Rightarrow> u64 \<Rightarrow> string \<Rightarrow> kv_table \<Rightarrow> KnxData cptr exec" where
  "kv_get al now grp t =
     (case HASH_FIND_STR t grp of
        None \<Rightarrow> Some NULL
      | Some it \<Rightarrow>
          if 0 < kv_expire it \<and> kv_overdue now it
          then (case kv_pValue it of NULL \<Rightarrow> None | Ptr d \<Rightarrow> if al 0 then Some (Ptr d) else None)
          else Some NULL)"

definition kv_find :: "string \<Rightarrow> kv_table \<Rightarrow> bool" where
  "kv_find grp t = (case HASH_FIND_STR t grp of None \<Rightarrow> False | Some _ \<Rightarrow> True)"

definition kv_del :: "string \<Rightarrow> kv_table \<Rightarrow> int \<times> kv_table" where
  "kv_del grp t =
     (case HASH_FIND_STR t grp of None \<Rightarrow> (- 1, t)
      | Some it \<Rightarrow> (0, filter (\<lambda>it. kv_pGrp it \<noteq> grp) t))"

definition kv_clear :: "kv_table \<Rightarrow> kv_table" where
  "kv_clear t = []"

subsection \<open>The debouncing task and the bus monitor\<close>

text \<open>One round of \<open>KNX_DevDebounce\<close> over the items, with the telegrams it hands on.\<close>

definition debounce_item :: "(nat \<Rightarrow> bool) \<Rightarrow> u64 \<Rightarrow> kv_item \<Rightarrow> (kv_item \<times> KnxData list) exec" where
  "debounce_item al now cur =
     (if \<not> kv_bDone cur \<and> kv_overdue now cur then
        (case kv_pValue cur of
           NULL \<Rightarrow> None
         | Ptr d \<Rightarrow>
             if kd_groupAddr d \<noteq> '''' then
               (if al 0 then Some (cur\<lparr>kv_bDone := True\<rparr>, [d]) else None)
             else Some (cur\<lparr>kv_bDone := True\<rparr>, []))
      else Some (cur, []))"

fun KNX_DevDebounce_round :: "(nat \<Rightarrow> bool) \<Rightarrow> u64 \<Rightarrow> kv_table \<Rightarrow> (kv_table \<times> KnxData list) exec" where
  "KNX_DevDebounce_round al now [] = Some ([], [])"
| "KNX_DevDebounce_round al now (cur # t) = do {
     (cur, out) \<leftarrow> debounce_item al now cur;
     (t, outs) \<leftarrow> KNX_DevDebounce_round (\<lambda>k. al (k + length out)) now t;
     Some (cur # t, out @ outs) }"

text \<open>
  \<open>KNX_BusMonitorEntry\<close> with a telegram that \<open>KNX_ParsePacket\<close> has accepted, at the time \<open>now\<close>
  of the update.
\<close>

definition KNX_BusMonitor_packet :: "u64 \<Rightarrow> KnxData \<Rightarrow> kv_table \<Rightarrow> (kv_table \<times> KnxData list) exec" where
  "KNX_BusMonitor_packet now d t =
     (if kv_find (kd_groupAddr d) t then do {
        (_, t) \<leftarrow> kv_update now (kd_groupAddr d) d t;
        Some (t, []) }
      else Some (t, [d]))"

fun put_all :: "nat list \<Rightarrow> KnxData list \<Rightarrow> KnxData queue \<Rightarrow> KnxData queue exec" where
  "put_all as [] q = Some q"
| "put_all [] (d # ds) q = None"
| "put_all (a # as) (d # ds) q =
     (case queue_put (True, True) (Ptr a) d (Ptr q) of
        Some (Returns (_, Ptr q')) \<Rightarrow> put_all as ds q'
      | _ \<Rightarrow> None)"

datatype knx_event = Telegram u64 KnxData | Round u64

fun knx_run :: "knx_event list \<Rightarrow> kv_table \<Rightarrow> (kv_table \<times> KnxData list) exec" where
  "knx_run [] t = Some (t, [])"
| "knx_run (ev # evs) t = do {
     (t, out) \<leftarrow> (case ev of
         Telegram now d \<Rightarrow> KNX_BusMonitor_packet now d t
       | Round now \<Rightarrow> KNX_DevDebounce_round (\<lambda>_. True) now t);
     (t, outs) \<leftarrow> knx_run evs t;
     Some (t, out @ outs) }"

subsection \<open>The table as a map\<close>

text \<open>
  Well-formed tables: keys are distinct, every item has its value, and that value is still
  empty or carries the item's own group address.
\<close>

definition kv_ok_item :: "kv_item \<Rightarrow> bool" where
  "kv_ok_item it = (case kv_pValue it of NULL \<Rightarrow> False
     | Ptr d \<Rightarrow> kd_groupAddr d = '''' \<or> kd_groupAddr d = kv_pGrp it)"

definition kv_ok :: "kv_table \<Rightarrow> bool" where
  "kv_ok t \<longleftrightarrow> distinct (map kv_pGrp t) \<and> list_all kv_ok_item t"

lemma HASH_FIND_STR_simps [simp]:
  "HASH_FIND_STR [] g = None"
  "HASH_FIND_STR (it # t) g = (if kv_pGrp it = g then Some it else HASH_FIND_STR t g)"
  by (simp_all add: HASH_FIND_STR_def)

lemma HASH_FIND_STR_append:
  "HASH_FIND_STR (t @ t') g = (case HASH_FIND_STR t g of None \<Rightarrow> HASH_FIND_STR t' g | Some it \<Rightarrow> Some it)"
  by (induction t) simp_all

lemma HASH_FIND_STR_SomeD: "HASH_FIND_STR t g = Some it \<Longrightarrow> it \<in> set t \<and> kv_pGrp it = g"
  by (induction t) (auto split: if_splits)

lemma HASH_FIND_STR_None_iff: "HASH_FIND_STR t g = None \<longleftrightarrow> g \<notin> kv_pGrp ` set t"
  by (induction t) auto

lemma HASH_FIND_STR_filter:
  "HASH_FIND_STR (filter (\<lambda>it. kv_pGrp it \<noteq> g) t) g' = (if g' = g then None else HASH_FIND_STR t g')"
  by (induction t) auto

lemma HASH_FIND_STR_on_key:
  assumes "\<And>it. kv_pGrp (f it) = kv_pGrp it"
  shows "HASH_FIND_STR (on_key g f t) g' = (if g' = g then map_option f (HASH_FIND_STR t g) else HASH_FIND_STR t g')"
  using assms by (induction t) (auto simp: on_key_def)

lemma kv_find_iff: "kv_find g t \<longleftrightarrow> g \<in> kv_pGrp ` set t"
  using HASH_FIND_STR_None_iff [of t g] by (auto simp: kv_find_def split: option.splits)

text \<open>
  What the bus monitor relies on: registering a group makes exactly that group known,
  deleting makes exactly it unknown, and a telegram for a known group changes neither. The
  clients' lemma: after the configuration has registered a list of groups, a telegram is
  held back if and only if its group is one of them.
\<close>

locale group_table =
  fixes ok :: "'t \<Rightarrow> bool"
    and has :: "string \<Rightarrow> 't \<Rightarrow> bool"
    and reg :: "u64 \<Rightarrow> string \<Rightarrow> u32 \<Rightarrow> 't \<Rightarrow> 't exec"
    and del :: "string \<Rightarrow> 't \<Rightarrow> 't"
    and pkt :: "u64 \<Rightarrow> KnxData \<Rightarrow> 't \<Rightarrow> ('t \<times> KnxData list) exec"
  assumes reg_law: "ok t \<Longrightarrow> safe (reg now g e t) (\<lambda>t'. ok t' \<and> (\<forall>g'. has g' t' \<longleftrightarrow> g' = g \<or> has g' t))"
    and del_law: "ok t \<Longrightarrow> ok (del g t) \<and> (\<forall>g'. has g' (del g t) \<longleftrightarrow> g' \<noteq> g \<and> has g' t)"
    and pkt_law: "ok t \<Longrightarrow> safe (pkt now d t) (\<lambda>(t', out). ok t' \<and> (\<forall>g'. has g' t' \<longleftrightarrow> has g' t)
      \<and> out = (if has (kd_groupAddr d) t then [] else [d]))"
begin

fun reg_all :: "(u64 \<times> string \<times> u32) list \<Rightarrow> 't \<Rightarrow> 't exec" where
  "reg_all [] t = Some t"
| "reg_all ((now, g, e) # gs) t = do { t \<leftarrow> reg now g e t; reg_all gs t }"

lemma reg_all_has:
  "ok t \<Longrightarrow> safe (reg_all gs t) (\<lambda>t'. ok t' \<and> (\<forall>g'. has g' t' \<longleftrightarrow> g' \<in> (fst \<circ> snd) ` set gs \<or> has g' t))"
proof (induction gs arbitrary: t)
  case (Cons x gs)
  obtain now g e where x: "x = (now, g, e)" by (cases x)
  obtain t1 where "reg now g e t = Some t1" "ok t1" "\<forall>g'. has g' t1 \<longleftrightarrow> g' = g \<or> has g' t"
    using reg_law [OF Cons.prems, of now g e] by (auto simp: safe_def)
  with Cons.IH [of t1] x show ?case by (auto simp: safe_def)
qed (simp add: safe_def)

lemma held_back_iff:
  assumes "ok t" and "\<forall>g. \<not> has g t" and "reg_all gs t = Some t'" and "pkt now d t' = Some (t'', out)"
  shows "out = [] \<longleftrightarrow> kd_groupAddr d \<in> (fst \<circ> snd) ` set gs"
proof -
  have "ok t'" "\<forall>g'. has g' t' \<longleftrightarrow> g' \<in> (fst \<circ> snd) ` set gs"
    using reg_all_has [OF assms(1), of gs] assms(2,3) by (auto simp: safe_def)
  with pkt_law [of t' now d] assms(4) show ?thesis
    by (auto simp: safe_def split: if_splits)
qed

end

lemma keys_on_key: "(\<And>it. kv_pGrp (f it) = kv_pGrp it) \<Longrightarrow> map kv_pGrp (on_key g f t) = map kv_pGrp t"
  by (simp add: on_key_def)

lemma kv_ok_on_key:
  assumes "kv_ok t" and "\<And>it. kv_pGrp (f it) = kv_pGrp it"
    and "\<And>it. kv_ok_item it \<Longrightarrow> kv_pGrp it = g \<Longrightarrow> kv_ok_item (f it)"
  shows "kv_ok (on_key g f t)"
proof -
  have "distinct (map kv_pGrp (on_key g f t))"
    using assms(1,2) by (simp only: keys_on_key kv_ok_def)
  moreover have "list_all kv_ok_item (on_key g f t)"
    using assms(1,3) by (auto simp: kv_ok_def list_all_iff on_key_def)
  ultimately show ?thesis by (simp add: kv_ok_def)
qed

lemma kv_find_on_key:
  "(\<And>it. kv_pGrp (f it) = kv_pGrp it) \<Longrightarrow> kv_find g' (on_key g f t) = kv_find g' t"
  using keys_on_key [of f g t] by (simp only: kv_find_iff flip: set_map)

definition kv_register :: "u64 \<Rightarrow> string \<Rightarrow> u32 \<Rightarrow> kv_table \<Rightarrow> kv_table exec" where
  "kv_register now g e t = map_option snd (kv_set (\<lambda>_. True) now g e t)"

definition kv_remove :: "string \<Rightarrow> kv_table \<Rightarrow> kv_table" where
  "kv_remove g t = snd (kv_del g t)"

lemma kv_register_ok:
  assumes "kv_ok t"
  shows "\<exists>t'. kv_register now g e t = Some t' \<and> kv_ok t' \<and> (\<forall>g'. kv_find g' t' \<longleftrightarrow> g' = g \<or> kv_find g' t)"
proof (cases "HASH_FIND_STR t g")
  case None
  then have "g \<notin> kv_pGrp ` set t" using HASH_FIND_STR_None_iff by metis
  with None assms show ?thesis
    by (auto simp: kv_register_def kv_set_def kv_ok_def kv_ok_item_def zero_data_def kv_find_iff)
next
  case (Some it)
  let ?f = "\<lambda>it. it\<lparr>kv_timestamp := now, kv_expire := e\<rparr>"
  have "kv_ok (on_key g ?f t)"
    using assms by (intro kv_ok_on_key) (auto simp: kv_ok_item_def split: cptr.splits)
  moreover have "kv_find g t" using Some by (simp add: kv_find_def)
  ultimately show ?thesis
    using Some kv_find_on_key [of ?f _ g t] by (auto simp: kv_register_def kv_set_def)
qed

lemma kv_packet_known:
  assumes "kv_ok t" and "kv_find (kd_groupAddr d) t"
  shows "KNX_BusMonitor_packet now d t = Some (on_key (kd_groupAddr d)
      (\<lambda>it. it\<lparr>kv_pValue := Ptr d, kv_timestamp := now, kv_bDone := False\<rparr>) t, [])
    \<and> kv_ok (on_key (kd_groupAddr d)
      (\<lambda>it. it\<lparr>kv_pValue := Ptr d, kv_timestamp := now, kv_bDone := False\<rparr>) t)"
proof -
  let ?f = "\<lambda>it. it\<lparr>kv_pValue := Ptr d, kv_timestamp := now, kv_bDone := False\<rparr>"
  from assms(2) obtain it where it: "HASH_FIND_STR t (kd_groupAddr d) = Some it"
    by (auto simp: kv_find_def split: option.splits)
  with assms(1) HASH_FIND_STR_SomeD [OF it] obtain v where "kv_pValue it = Ptr v"
    by (cases "kv_pValue it") (auto simp: kv_ok_def list_all_iff kv_ok_item_def)
  moreover have "kv_ok (on_key (kd_groupAddr d) ?f t)"
    using assms(1) by (intro kv_ok_on_key) (auto simp: kv_ok_item_def)
  ultimately show ?thesis
    using assms(2) it by (simp add: KNX_BusMonitor_packet_def kv_update_def)
qed

interpretation kv: group_table kv_ok kv_find kv_register kv_remove KNX_BusMonitor_packet
proof
  fix t now g e
  assume "kv_ok t"
  from kv_register_ok [OF this]
  show "safe (kv_register now g e t) (\<lambda>t'. kv_ok t' \<and> (\<forall>g'. kv_find g' t' \<longleftrightarrow> g' = g \<or> kv_find g' t))"
    by (simp add: safe_def)
next
  fix t g
  assume "kv_ok t"
  then show "kv_ok (kv_remove g t) \<and> (\<forall>g'. kv_find g' (kv_remove g t) \<longleftrightarrow> g' \<noteq> g \<and> kv_find g' t)"
    using HASH_FIND_STR_None_iff [of t g]
    by (auto simp: kv_remove_def kv_del_def kv_find_iff kv_ok_def list_all_iff distinct_map_filter
        split: option.splits)
next
  fix t now d
  assume ok: "kv_ok t"
  show "safe (KNX_BusMonitor_packet now d t) (\<lambda>(t', out). kv_ok t' \<and> (\<forall>g'. kv_find g' t' \<longleftrightarrow> kv_find g' t)
      \<and> out = (if kv_find (kd_groupAddr d) t then [] else [d]))"
  proof (cases "kv_find (kd_groupAddr d) t")
    case True
    with kv_packet_known [OF ok True, of now] show ?thesis
      by (simp add: safe_def kv_find_on_key)
  next
    case False
    with ok show ?thesis by (simp add: safe_def KNX_BusMonitor_packet_def)
  qed
qed

subsection \<open>One group in a run\<close>

text \<open>A round never fails on a well-formed table and treats its items one by one.\<close>

definition round_item :: "u64 \<Rightarrow> kv_item \<Rightarrow> kv_item" where
  "round_item now it = (if \<not> kv_bDone it \<and> kv_overdue now it then it\<lparr>kv_bDone := True\<rparr> else it)"

definition round_out :: "u64 \<Rightarrow> kv_item \<Rightarrow> KnxData list" where
  "round_out now it =
     (case kv_pValue it of NULL \<Rightarrow> []
      | Ptr d \<Rightarrow> if \<not> kv_bDone it \<and> kv_overdue now it \<and> kd_groupAddr d \<noteq> [] then [d] else [])"

lemma round_item_simps [simp]:
  "kv_pGrp (round_item now it) = kv_pGrp it" "kv_pValue (round_item now it) = kv_pValue it"
  "kv_timestamp (round_item now it) = kv_timestamp it" "kv_expire (round_item now it) = kv_expire it"
  by (simp_all add: round_item_def)

lemma round_items:
  assumes "list_all kv_ok_item t"
  shows "KNX_DevDebounce_round (\<lambda>_. True) now t = Some (map (round_item now) t, concat (map (round_out now) t))"
  using assms
proof (induction t)
  case (Cons it t)
  then obtain d where "kv_pValue it = Ptr d"
    by (cases "kv_pValue it") (auto simp: kv_ok_item_def)
  with Cons show ?case
    by (simp add: debounce_item_def round_item_def round_out_def)
qed simp

lemma round_item_ok [simp]: "kv_ok_item (round_item now it) = kv_ok_item it"
  by (cases "kv_pValue it") (simp_all add: kv_ok_item_def)

lemma round_ok: "kv_ok t \<Longrightarrow> kv_ok (map (round_item now) t)"
  by (simp add: kv_ok_def list_all_iff comp_def)

lemma round_find:
  "HASH_FIND_STR (map (round_item now) t) g = map_option (round_item now) (HASH_FIND_STR t g)"
  by (induction t) auto

abbreviation of_group :: "string \<Rightarrow> KnxData list \<Rightarrow> KnxData list" where
  "of_group g \<equiv> filter (\<lambda>d. kd_groupAddr d = g)"

lemma round_out_group:
  "kv_ok_item it \<Longrightarrow> g \<noteq> [] \<Longrightarrow> of_group g (round_out now it) = (if kv_pGrp it = g then round_out now it else [])"
  by (auto simp: round_out_def kv_ok_item_def split: cptr.splits)

lemma round_of_group:
  assumes "kv_ok t" and "HASH_FIND_STR t g = Some it" and "g \<noteq> []"
  shows "of_group g (concat (map (round_out now) t)) = round_out now it"
proof -
  have none: "of_group g (concat (map (round_out now) t)) = []" if "list_all kv_ok_item t" "g \<notin> kv_pGrp ` set t" for t
    using that assms(3) by (induction t) (auto simp: round_out_group)
  show ?thesis
    using assms
  proof (induction t)
    case (Cons x t)
    then show ?case
      using none [of t] by (auto simp: kv_ok_def round_out_group split: if_splits)
  qed simp
qed

text \<open>
  The life of the item of group \<open>g\<close> in a run of telegrams and rounds: a telegram of the
  group replaces it, a round may emit it.
\<close>

fun item_run :: "string \<Rightarrow> knx_event list \<Rightarrow> kv_item \<Rightarrow> kv_item \<times> KnxData list" where
  "item_run g [] it = (it, [])"
| "item_run g (Telegram now d # evs) it =
     item_run g evs (if kd_groupAddr d = g
       then it\<lparr>kv_pValue := Ptr d, kv_timestamp := now, kv_bDone := False\<rparr> else it)"
| "item_run g (Round now # evs) it =
     (let (it', out) = item_run g evs (round_item now it) in (it', round_out now it @ out))"

lemma knx_run_group:
  assumes "kv_ok t" and "HASH_FIND_STR t g = Some it" and "g \<noteq> []"
  shows "\<exists>t' out. knx_run evs t = Some (t', out) \<and> kv_ok t'
    \<and> HASH_FIND_STR t' g = Some (fst (item_run g evs it)) \<and> of_group g out = snd (item_run g evs it)"
  using assms
proof (induction evs arbitrary: t it)
  case (Cons ev evs)
  show ?case
  proof (cases ev)
    case (Round now)
    have "list_all kv_ok_item t" using Cons.prems by (simp add: kv_ok_def)
    with Cons.IH [of "map (round_item now) t" "round_item now it"] Cons.prems
    show ?thesis
      by (auto simp: Round round_items round_ok round_find round_of_group split: prod.split)
  next
    case (Telegram now d)
    let ?f = "\<lambda>it. it\<lparr>kv_pValue := Ptr d, kv_timestamp := now, kv_bDone := False\<rparr>"
    show ?thesis
    proof (cases "kv_find (kd_groupAddr d) t")
      case True
      let ?t = "on_key (kd_groupAddr d) ?f t"
      have "HASH_FIND_STR ?t g = Some (if kd_groupAddr d = g then ?f it else it)"
        using Cons.prems(2) by (subst HASH_FIND_STR_on_key) auto
      with Cons.IH [of ?t] kv_packet_known [OF Cons.prems(1) True, of now] Cons.prems(3)
      show ?thesis by (auto simp: Telegram)
    next
      case False
      then have "kd_groupAddr d \<noteq> g"
        using Cons.prems(2) by (auto simp: kv_find_def)
      with False Cons.IH [OF Cons.prems] show ?thesis
        by (auto simp: Telegram KNX_BusMonitor_packet_def)
    qed
  qed
qed simp

subsection \<open>Debouncing\<close>

text \<open>
  \<open>burst g e last evs\<close>: every round of \<open>evs\<close> comes before the waiting time \<open>e\<close> after the
  latest telegram of the group is over. \<open>latest\<close> is that telegram with its time.
\<close>

fun burst :: "string \<Rightarrow> u32 \<Rightarrow> u64 \<Rightarrow> knx_event list \<Rightarrow> bool" where
  "burst g e lst [] = True"
| "burst g e lst (Telegram now d # evs) = burst g e (if kd_groupAddr d = g then now else lst) evs"
| "burst g e lst (Round now # evs) = (\<not> lst + ucast e < now \<and> burst g e lst evs)"

fun latest :: "string \<Rightarrow> knx_event list \<Rightarrow> u64 \<times> KnxData \<Rightarrow> u64 \<times> KnxData" where
  "latest g [] l = l"
| "latest g (Telegram now d # evs) l = latest g evs (if kd_groupAddr d = g then (now, d) else l)"
| "latest g (Round now # evs) l = latest g evs l"

lemma item_run_append:
  "item_run g (evs @ evs') it =
     (let (it1, out1) = item_run g evs it; (it2, out2) = item_run g evs' it1 in (it2, out1 @ out2))"
  by (induction g evs it rule: item_run.induct) (auto simp: Let_def split: prod.splits)

lemma item_run_burst:
  assumes "kv_pValue it = Ptr (snd l)" and "kv_timestamp it = fst l" and "\<not> kv_bDone it"
    and "burst g (kv_expire it) (fst l) evs"
  shows "item_run g evs it = (it\<lparr>kv_pValue := Ptr (snd (latest g evs l)),
    kv_timestamp := fst (latest g evs l)\<rparr>, [])"
  using assms
proof (induction g evs l arbitrary: it rule: latest.induct)
  case (3 g now evs l)
  then have "\<not> kv_overdue now it" by (simp add: kv_overdue_def)
  with 3 show ?case
    by (simp add: round_item_def round_out_def)
qed (auto split: if_splits)

lemma item_run_done:
  "kv_bDone it \<Longrightarrow> item_run g (map Round rs) it = (it, [])"
  by (induction rs) (simp_all add: round_item_def round_out_def split: cptr.split)

lemma latest_group: "kd_groupAddr (snd l) = g \<Longrightarrow> kd_groupAddr (snd (latest g evs l)) = g"
  by (induction g evs l rule: latest.induct) auto

text \<open>
  Claim C33. Debouncing: for a registered group, a burst of telegrams that keep coming
  before the waiting time of the group is over, interleaved in any way with rounds of the
  debouncing task and telegrams of other groups, makes the gateway hand on exactly one
  telegram of the group, the last of the burst, in the first round after the waiting time;
  later rounds hand on nothing more of the group.
\<close>

theorem debounce_hands_on_last:
  assumes "kv_ok t" and "HASH_FIND_STR t g = Some it" and "g \<noteq> []" and "kd_groupAddr d = g"
    and "burst g (kv_expire it) now evs" and "latest g evs (now, d) = (t1, d1)"
    and "t1 + ucast (kv_expire it) < r"
  shows "\<exists>t' out. knx_run (Telegram now d # evs @ Round r # map Round rs) t = Some (t', out)
    \<and> of_group g out = [d1] \<and> kv_ok t'"
proof -
  let ?it = "it\<lparr>kv_pValue := Ptr d, kv_timestamp := now, kv_bDone := False\<rparr>"
  let ?it1 = "?it\<lparr>kv_pValue := Ptr d1, kv_timestamp := t1\<rparr>"
  have 1: "item_run g evs ?it = (?it1, [])"
    using item_run_burst [of ?it "(now, d)" g evs] assms(5,6) by simp
  have "kd_groupAddr d1 = g"
    using latest_group [of "(now, d)" g evs] assms(4,6) by simp
  then have 2: "item_run g (Round r # map Round rs) ?it1 = (round_item r ?it1, [d1])"
    using assms(3,7) item_run_done [of "round_item r ?it1" g rs]
    by (simp add: round_item_def round_out_def kv_overdue_def)
  have "item_run g (Telegram now d # evs @ Round r # map Round rs) it = (round_item r ?it1, [d1])"
    using 1 2 assms(4) by (simp add: item_run_append del: item_run.simps(3))
  with knx_run_group [OF assms(1-3), of "Telegram now d # evs @ Round r # map Round rs"] show ?thesis
    by auto
qed

theorem debounce_hands_on_last_witness:
  "let g = ''1/2/3''; d = (\<lambda>v. zero_data\<lparr>kd_groupAddr := g, kd_value := v\<rparr>) in
   \<exists>t t' out. kv_register 0 g 300 [] = Some t
     \<and> knx_run [Telegram 1000 (d 1), Round 1200, Telegram 1250 (d 2), Round 1500, Round 1600, Round 1700] t
        = Some (t', out) \<and> of_group g out = [d 2]"
proof -
  let ?g = "''1/2/3''" and ?d = "\<lambda>v. zero_data\<lparr>kd_groupAddr := ''1/2/3'', kd_value := v\<rparr>"
  let ?it = "\<lparr>kv_pGrp = ?g, kv_pValue = Ptr zero_data, kv_timestamp = 0, kv_expire = 300, kv_bDone = False\<rparr>"
  have t: "kv_register 0 ?g 300 [] = Some [?it]" "kv_ok [?it]"
    by (simp_all add: kv_register_def kv_set_def kv_ok_def kv_ok_item_def zero_data_def)
  have "latest ?g [Round 1200, Telegram 1250 (?d 2), Round 1500] (1000, ?d 1) = (1250, ?d 2)"
    by simp
  from debounce_hands_on_last [OF t(2) _ _ _ _ this, where r = 1600 and rs = "[1700]"] t(1)
  show ?thesis by (auto simp: Let_def simp del: knx_run.simps)
qed

text \<open>
  What happens to the telegrams handed on: as long as there is room the queue receives them
  in order; when it is full they are lost, because the code does not look at the result of
  \<open>queue_put\<close>, while the item counts as handed on.
\<close>

lemma put_step_eq:
  "put_step a d q = Some q' \<Longrightarrow> put_all (a # as) (d # ds) q = put_all as ds q'"
  by (auto simp: put_step_def split: option.splits outcome.splits prod.splits cptr.splits if_splits)

lemma put_all_room:
  assumes "queue_accepts q cs" and "length cs + length ds \<le> queue_cap q" and "length as = length ds"
    and "distinct as" and "set as \<inter> set (addrs cs) = {}"
  shows "\<exists>q'. put_all as ds q = Some q' \<and> queue_accepts q' (cs @ zip as ds)"
  using assms
proof (induction ds arbitrary: as q cs)
  case (Cons d ds)
  then obtain a as' where as: "as = a # as'" by (cases as) auto
  obtain q1 where q1: "put_step a d q = Some q1" "queue_accepts q1 (cs @ [(a, d)])" "queue_cap q1 = queue_cap q"
    using mq.put_law [of q cs a d] Cons.prems as by (auto simp: safe_def)
  with Cons.IH [of q1 "cs @ [(a, d)]" as'] Cons.prems as show ?case
    by (auto simp: put_step_eq [OF q1(1)] simp del: put_all.simps)
qed simp

lemma put_all_full:
  assumes "queue_rep q cs" and "length cs = queue_cap q" and "new_data q \<noteq> 0" and "length as = length ds"
  shows "put_all as ds q = Some q"
  using assms(4)
proof (induction as ds rule: list_induct2)
  case (Cons a as d ds)
  have "queue_is_full q" using not_full_iff [OF assms(1)] assms(2) by simp
  with Cons assms(3) show ?case
    by (simp add: queue_put_def on_queue_def put_q_def queue_put_internal_def)
qed simp

end
