(* ===== verification/Knx_Telegram.thy ===== *)
theory Knx_Telegram
  imports Knx_Debounce
begin

text \<open>
  KNX addresses and the text lines of the bus monitor: the parsing functions at the head of
  \<open>source/knxHandle.c\<close> and \<open>KNX_ParsePacket\<close>, which turns a line of the monitor into a telegram.

  \<^item> A C string is the list of its characters without the terminator. A character array that
    was zeroed when it was allocated is the string it holds: \<open>memcpy_str\<close> copies into such an
    array and is undefined beyond its size.
  \<^item> \<open>sscanf\<close> is modelled as the C standard defines the directives that the sources use: white
    space, ordinary characters and integer conversions with an optional width. It returns the
    count, \<open>-1\<close> for the end of the input before the first conversion, and the assigned values
    as 32-bit patterns; a number that does not fit its object is undefined.
  \<^item> \<open>strstr\<close> returns the position of the first match.
\<close>

subsection \<open>C library functions on strings\<close>

fun strstr :: "string \<Rightarrow> string \<Rightarrow> nat option" where
  "strstr key [] = (if key = [] then Some 0 else None)"
| "strstr key (c # s) =
     (if take (length key) (c # s) = key then Some 0 else map_option Suc (strstr key s))"

definition is_space :: "char \<Rightarrow> bool" where
  "is_space c \<longleftrightarrow> (let n = (of_char c :: nat) in n = 32 \<or> 9 \<le> n \<and> n \<le> 13)"

text \<open>The value of a digit; 16 for a character that is none.\<close>

definition dig :: "char \<Rightarrow> nat" where
  "dig c = (let n = of_char c in
     if 48 \<le> n \<and> n \<le> 57 then n - 48
     else if 97 \<le> n \<and> n \<le> 102 then n - 87
     else if 65 \<le> n \<and> n \<le> 70 then n - 55 else 16)"

definition num_val :: "nat \<Rightarrow> string \<Rightarrow> nat" where
  "num_val base ds = foldl (\<lambda>a c. a * base + dig c) 0 ds"

datatype sdir = Ws | Ch char | Num nat bool "nat option"

text \<open>
  The longest number at the start of a string: an optional sign, for base 16 an optional
  prefix \<open>0x\<close>, and digits; its value and how many characters it takes.
\<close>

definition scan_num :: "nat \<Rightarrow> string \<Rightarrow> (int \<times> nat) option" where
  "scan_num base s =
     (let sign = (if s \<noteq> [] \<and> (hd s = CHR ''-'' \<or> hd s = CHR ''+'') then 1 else 0);
          s1 = drop sign s;
          pre = (if base = 16 \<and> (take 2 s1 = ''0x'' \<or> take 2 s1 = ''0X'') then 2 else 0);
          ds = takeWhile (\<lambda>c. dig c < base) (drop pre s1)
      in if ds = [] then None
         else Some ((if sign = 1 \<and> hd s = CHR ''-'' then - int (num_val base ds) else int (num_val base ds)),
                sign + pre + length ds))"

definition fits_object :: "bool \<Rightarrow> int \<Rightarrow> bool" where
  "fits_object sg v \<longleftrightarrow> (if sg then - (2 ^ 31) \<le> v \<and> v < 2 ^ 31 else \<bar>v\<bar> < 2 ^ 32)"

fun scan :: "sdir list \<Rightarrow> string \<Rightarrow> u32 list \<Rightarrow> (int \<times> u32 list) exec" where
  "scan [] s vs = Some (int (length vs), vs)"
| "scan (Ws # ds) s vs = scan ds (dropWhile is_space s) vs"
| "scan (Ch c # ds) s vs =
     (case s of
        [] \<Rightarrow> Some (if vs = [] then - 1 else int (length vs), vs)
      | x # xs \<Rightarrow> if x = c then scan ds xs vs else Some (int (length vs), vs))"
| "scan (Num base sg width # ds) s vs =
     (let s1 = dropWhile is_space s in
      if s1 = [] then Some (if vs = [] then - 1 else int (length vs), vs)
      else
        (case scan_num base (case width of None \<Rightarrow> s1 | Some w \<Rightarrow> take w s1) of
           None \<Rightarrow> Some (int (length vs), vs)
         | Some (v, k) \<Rightarrow>
             if fits_object sg v then scan ds (drop k s1) (vs @ [of_int v]) else None))"

definition sscanf :: "string \<Rightarrow> sdir list \<Rightarrow> (int \<times> u32 list) exec" where
  "sscanf s ds = scan ds s []"

text \<open>\<open>memcpy\<close> of \<open>n\<close> characters into a zeroed array of \<open>sz\<close> characters that holds \<open>old\<close>.\<close>

definition memcpy_str :: "nat \<Rightarrow> int \<Rightarrow> string \<Rightarrow> string \<Rightarrow> string exec" where
  "memcpy_str sz n src old =
     (if 0 \<le> n \<and> n \<le> int sz then Some (take (nat n) src @ drop (nat n) old) else None)"

text \<open>Reading an array as a string: undefined when no terminator is left in it.\<close>

definition c_str :: "nat \<Rightarrow> string \<Rightarrow> string exec" where
  "c_str sz s = (if length s < sz then Some s else None)"

text \<open>A left shift of an \<open>int\<close>, undefined for a negative operand and on overflow.\<close>

definition c_shl :: "int \<Rightarrow> nat \<Rightarrow> int exec" where
  "c_shl x k = (if x < 0 then None else c_int (x * 2 ^ k))"

subsection \<open>Addresses\<close>

definition fmt_group :: "sdir list" where
  "fmt_group = [Num 10 False None, Ch CHR ''/'', Num 10 False None, Ch CHR ''/'', Num 10 False None]"

definition fmt_is_group :: "sdir list" where
  "fmt_is_group = [Num 10 True (Some 2), Ch CHR ''/'', Num 10 True (Some 1), Ch CHR ''/'', Num 10 True (Some 3)]"

definition fmt_hw :: "sdir list" where
  "fmt_hw = [Num 10 True (Some 2), Ch CHR ''.'', Num 10 True (Some 2), Ch CHR ''.'', Num 10 True (Some 3)]"

definition readgaddr :: "string \<Rightarrow> u16 exec" where
  "readgaddr addr = do {
     (res, vs) \<leftarrow> sscanf addr fmt_group;
     if res = 3 \<and> vs ! 0 \<le> 0x1F \<and> vs ! 1 \<le> 0x07 \<and> vs ! 2 \<le> 0xFF then
       Some (ucast (push_bit 11 (vs ! 0) OR push_bit 8 (vs ! 1) OR vs ! 2))
     else if res = 2 \<and> vs ! 0 \<le> 0x1F \<and> vs ! 1 \<le> 0x7FF then
       Some (ucast (push_bit 11 (vs ! 0) OR (vs ! 1 AND 0x7FF)))
     else do {
       (res, vs) \<leftarrow> sscanf addr [Num 16 False None];
       if res = 1 \<and> vs ! 0 \<le> 0xFFFF then Some (ucast (vs ! 0)) else Some (- 1) } }"

text \<open>The same with \<open>int\<close> variables behind \<open>%u\<close>: comparisons and shifts are signed.\<close>

definition KnxGrpAddr :: "string \<Rightarrow> u16 exec" where
  "KnxGrpAddr addr = do {
     (res, vs) \<leftarrow> sscanf addr fmt_group;
     let a = sint (vs ! 0);
     let b = sint (vs ! 1);
     let c = sint (vs ! 2);
     if res = 3 \<and> a \<le> 0x1F \<and> b \<le> 0x07 \<and> c \<le> 0xFF then do {
       a \<leftarrow> c_shl a 11;
       b \<leftarrow> c_shl b 8;
       Some (of_int (a OR b OR c)) }
     else if res = 2 \<and> a \<le> 0x1F \<and> b \<le> 0x7FF then do {
       a \<leftarrow> c_shl a 11;
       Some (of_int (a OR (b AND 0x7FF))) }
     else do {
       (res, vs) \<leftarrow> sscanf addr [Num 16 False None];
       if res = 1 \<and> sint (vs ! 0) \<le> 0xFFFF then Some (ucast (vs ! 0)) else Some (- 1) } }"

definition readBlock :: "u16 \<Rightarrow> int \<times> bytes" where
  "readBlock value =
     (if value div 256 \<noteq> 0 then (2, [ucast (value div 256), ucast (value mod 256)])
      else (1, [ucast (value mod 256)]))"

definition readHex :: "string \<Rightarrow> int exec" where
  "readHex addr = do {
     (res, vs) \<leftarrow> sscanf addr [Num 16 False None];
     Some (if res = 1 then sint (vs ! 0) else - 1) }"

definition isKnxGroupAddr :: "string cptr \<Rightarrow> int exec" where
  "isKnxGroupAddr p =
     (case p of NULL \<Rightarrow> Some (- 1)
      | Ptr s \<Rightarrow> do {
          (ret, vs) \<leftarrow> sscanf s fmt_is_group;
          Some (if ret \<noteq> 3 then ret
                else if sint (vs ! 0) > 31 \<or> sint (vs ! 1) > 7 \<or> sint (vs ! 2) > 255 then - 1
                else 0) })"

definition KnxHwAddr :: "string cptr \<Rightarrow> u16 exec" where
  "KnxHwAddr p =
     (case p of NULL \<Rightarrow> Some (- 1)
      | Ptr s \<Rightarrow> do {
          (ret, vs) \<leftarrow> sscanf s fmt_hw;
          if ret \<noteq> 3 then Some (- 1)
          else if sint (vs ! 0) > 15 \<or> sint (vs ! 1) > 15 \<or> sint (vs ! 2) > 255 then Some (- 1)
          else do {
            p \<leftarrow> c_shl (sint (vs ! 0)) 12;
            m \<leftarrow> c_shl (sint (vs ! 1)) 8;
            Some (of_int p + of_int m + of_int (sint (vs ! 2))) } })"

definition Knx_ComparePhy :: "string cptr \<Rightarrow> string cptr \<Rightarrow> int exec" where
  "Knx_ComparePhy pA pB =
     (if pA = NULL \<or> pB = NULL then Some (- 1)
      else do {
        a \<leftarrow> KnxHwAddr pA;
        b \<leftarrow> KnxHwAddr pB;
        Some (if a \<noteq> b then - 1 else 0) })"

definition Knx_CompareGroup :: "string cptr \<Rightarrow> string cptr \<Rightarrow> int exec" where
  "Knx_CompareGroup pA pB =
     (case (pA, pB) of
        (Ptr sA, Ptr sB) \<Rightarrow> do {
          a \<leftarrow> readgaddr sA;
          b \<leftarrow> readgaddr sB;
          Some (if a \<noteq> b then - 1 else 0) }
      | _ \<Rightarrow> Some (- 1))"

subsection \<open>Telegrams\<close>

definition EIB_ADDR :: nat where "EIB_ADDR = 9"
definition PREFIX_SIZE :: nat where "PREFIX_SIZE = 1"

definition fmt_byte :: "sdir list" where "fmt_byte = [Num 16 False (Some 2)]"

definition fmt_two :: "sdir list" where
  "fmt_two = [Num 16 False (Some 2), Ws, Num 16 False (Some 2)]"

text \<open>The value of a telegram with one byte, and with one or two bytes.\<close>

definition small_value :: "string \<Rightarrow> u16 option exec" where
  "small_value s = do {
     (ret, vs) \<leftarrow> sscanf s fmt_byte;
     Some (if ret = 1 then Some (ucast (vs ! 0)) else None) }"

definition long_value :: "string \<Rightarrow> u16 option exec" where
  "long_value s = do {
     (ret, vs) \<leftarrow> sscanf s fmt_two;
     Some (if ret = 2 then Some (ucast (vs ! 0 * 256 + vs ! 1))
           else if ret = 1 then Some (ucast (vs ! 0)) else None) }"

text \<open>The telegram that \<open>KNX_FakePacket\<close> hands to the monitor queue, if any.\<close>

definition KNX_FakePacket :: "bool \<Rightarrow> string \<Rightarrow> string \<Rightarrow> KnxData option exec" where
  "KNX_FakePacket al pGrp pValue =
     (if \<not> al then Some None
      else do {
        let d = zero_data\<lparr>kd_groupAddr := take (EIB_ADDR - 1) pGrp\<rparr>;
        v \<leftarrow> long_value pValue;
        Some (case v of None \<Rightarrow> None | Some v \<Rightarrow> Some (d\<lparr>kd_value := v, kd_cmd := ''Write''\<rparr>)) })"

definition KNX_HW_ADDRESS_MIN :: u16 where "KNX_HW_ADDRESS_MIN = 0x1001"
definition KNX_HW_ADDRESS_MAX :: u16 where "KNX_HW_ADDRESS_MAX = 0x1008"

text \<open>
  A service with its value: the first of the two keys that occurs decides how the value is
  read. The result is \<open>None\<close> when the value cannot be read.
\<close>

definition service_value ::
  "string \<Rightarrow> string \<Rightarrow> string \<Rightarrow> string \<Rightarrow> KnxData \<Rightarrow> KnxData option exec" where
  "service_value smallKey longKey cmd buf d =
     (case strstr smallKey buf of
        Some i \<Rightarrow> do {
          v \<leftarrow> small_value (drop (i + length smallKey) buf);
          Some (map_option (\<lambda>v. d\<lparr>kd_value := v, kd_cmd := cmd\<rparr>) v) }
      | None \<Rightarrow>
          (case strstr longKey buf of
             Some i \<Rightarrow> do {
               v \<leftarrow> long_value (drop (i + length longKey) buf);
               Some (map_option (\<lambda>v. d\<lparr>kd_value := v, kd_cmd := cmd\<rparr>) v) }
           | None \<Rightarrow> Some (Some d)))"

definition parse_addrs :: "string \<Rightarrow> KnxData \<Rightarrow> KnxData exec" where
  "parse_addrs buf d = do {
     ret1 \<leftarrow> strstr ''from '' buf;
     ret2 \<leftarrow> strstr '' to '' buf;
     ret3 \<leftarrow> strstr '' hops'' buf;
     hw \<leftarrow> memcpy_str (EIB_ADDR + PREFIX_SIZE) (int ret2 - int ret1 - 5) (drop (ret1 + 5) buf) (kd_hwAddr d);
     grp \<leftarrow> memcpy_str (EIB_ADDR + PREFIX_SIZE) (int ret3 - int ret2 - 4) (drop (ret2 + 4) buf) (kd_groupAddr d);
     Some (d\<lparr>kd_cmd := [], kd_hwAddr := hw, kd_groupAddr := grp\<rparr>) }"

definition KNX_ParsePacket :: "string cptr \<Rightarrow> KnxData \<Rightarrow> (int \<times> KnxData) exec" where
  "KNX_ParsePacket p d =
     (case p of NULL \<Rightarrow> Some (- 1, d)
      | Ptr buf \<Rightarrow> do {
          d \<leftarrow> parse_addrs buf d;
          r \<leftarrow> service_value ''A_GroupValue_Write (small) '' ''A_GroupValue_Write '' ''Write'' buf d;
          (case r of
             None \<Rightarrow> Some (- 1, d)
           | Some d \<Rightarrow>
               if strstr ''A_GroupValue_Read'' buf \<noteq> None then Some (- 2, d\<lparr>kd_cmd := ''Read''\<rparr>)
               else if strstr ''repeated'' buf \<noteq> None then Some (- 3, d\<lparr>kd_cmd := ''Repeated''\<rparr>)
               else do {
                 r \<leftarrow> service_value ''A_GroupValue_Response (small) '' ''A_GroupValue_Response '' ''Response'' buf d;
                 (case r of
                    None \<Rightarrow> Some (- 1, d)
                  | Some d \<Rightarrow> do {
                      s \<leftarrow> c_str (EIB_ADDR + PREFIX_SIZE) (kd_hwAddr d);
                      phy \<leftarrow> KnxHwAddr (Ptr s);
                      let d = d\<lparr>kd_phy := phy\<rparr>;
                      Some (if KNX_HW_ADDRESS_MIN \<le> phy \<and> phy \<le> KNX_HW_ADDRESS_MAX then - 4 else 0, d) }) }) })"

subsection \<open>Printed addresses\<close>

text \<open>Decimal and two-digit hexadecimal numbers, as addresses and values are written.\<close>

definition dig_char :: "nat \<Rightarrow> char" where
  "dig_char d = char_of (if d < 10 then 48 + d else 55 + d)"

fun dec :: "nat \<Rightarrow> string" where
  "dec n = (if n < 10 then [dig_char n] else dec (n div 10) @ [dig_char (n mod 10)])"

definition hex2 :: "u8 \<Rightarrow> string" where
  "hex2 b = [dig_char (unat b div 16), dig_char (unat b mod 16)]"

definition group_str :: "nat \<Rightarrow> nat \<Rightarrow> nat \<Rightarrow> string" where
  "group_str a b c = dec a @ ''/'' @ dec b @ ''/'' @ dec c"

definition hw_str :: "nat \<Rightarrow> nat \<Rightarrow> nat \<Rightarrow> string" where
  "hw_str a b c = dec a @ ''.'' @ dec b @ ''.'' @ dec c"

declare dec.simps [simp del]

lemma of_dig_char: "d < 16 \<Longrightarrow> of_char (dig_char d) = (if d < 10 then 48 + d else 55 + d)"
  by (simp add: dig_char_def)

lemma dig_dig_char [simp]: "d < 16 \<Longrightarrow> dig (dig_char d) = d"
  by (simp add: dig_def of_dig_char Let_def)

lemma not_space_dig_char [simp]: "d < 16 \<Longrightarrow> \<not> is_space (dig_char d)"
  by (auto simp: is_space_def of_dig_char Let_def)

lemma dec_digits: "set (dec n) \<subseteq> dig_char ` {..<10}"
  by (induction n rule: dec.induct) (subst dec.simps, auto)

lemma dec_not_Nil [simp]: "dec n \<noteq> []"
  by (subst dec.simps) auto

lemma num_val_snoc: "num_val b (ds @ [c]) = num_val b ds * b + dig c"
  by (simp add: num_val_def)

lemma num_val_dec [simp]: "num_val 10 (dec n) = n"
proof (induction n rule: dec.induct)
  case (1 n)
  then show ?case
    by (subst dec.simps) (auto simp: num_val_snoc num_val_def [of _ "[c]" for c])
qed

lemma length_dec: "n < 10 ^ Suc k \<Longrightarrow> length (dec n) \<le> Suc k"
proof (induction k arbitrary: n)
  case 0
  then show ?case by (subst dec.simps) auto
next
  case (Suc k)
  then have "n div 10 < 10 ^ Suc k" by (simp add: less_mult_imp_div_less)
  with Suc.IH [of "n div 10"] show ?case by (subst dec.simps) auto
qed

text \<open>A string that does not continue a decimal number.\<close>

fun no_digit :: "string \<Rightarrow> bool" where
  "no_digit [] \<longleftrightarrow> True"
| "no_digit (c # s) \<longleftrightarrow> \<not> dig c < 10"

lemma no_digit_take [simp]: "no_digit s \<Longrightarrow> no_digit (take k s)"
  by (cases s; cases k) auto

lemma sign_not_digit [simp]: "d < 16 \<Longrightarrow> dig_char d \<noteq> CHR ''-''" "d < 16 \<Longrightarrow> dig_char d \<noteq> CHR ''+''"
proof -
  have "(of_char (CHR ''-'') :: nat) = 45" "(of_char (CHR ''+'') :: nat) = 43" by simp_all
  then show "d < 16 \<Longrightarrow> dig_char d \<noteq> CHR ''-''" "d < 16 \<Longrightarrow> dig_char d \<noteq> CHR ''+''"
    using of_dig_char [of d] by (auto split: if_splits)
qed

lemma takeWhile_dec: "no_digit s \<Longrightarrow> takeWhile (\<lambda>c. dig c < 10) (dec n @ s) = dec n"
proof -
  assume s: "no_digit s"
  have "\<forall>c \<in> set (dec n). dig c < 10" using dec_digits [of n] by auto
  moreover have "takeWhile (\<lambda>c. dig c < 10) s = []" using s by (cases s) auto
  ultimately show ?thesis by (simp add: takeWhile_append)
qed

lemma dec_head:
  obtains d ds where "dec n = dig_char d # ds" "d < 10"
proof (cases "dec n")
  case (Cons c ds)
  with dec_digits [of n] obtain d where "c = dig_char d" "d < 10" by auto
  with Cons that show thesis by blast
qed simp

lemma scan_num_dec: "no_digit s \<Longrightarrow> scan_num 10 (dec n @ s) = Some (int n, length (dec n))"
proof -
  assume s: "no_digit s"
  obtain d ds where d: "dec n = dig_char d # ds" "d < 10" by (rule dec_head)
  then have "hd (dec n @ s) \<noteq> CHR ''-''" "hd (dec n @ s) \<noteq> CHR ''+''" by simp_all
  then show ?thesis using takeWhile_dec [OF s, of n] by (simp add: scan_num_def Let_def)
qed

lemma skip_space_dec [simp]: "dropWhile is_space (dec n @ s) = dec n @ s"
proof -
  obtain d ds where "dec n = dig_char d # ds" "d < 10" by (rule dec_head)
  then show ?thesis by simp
qed

lemma scan_dec:
  assumes "no_digit s" and "n < 2 ^ 31" and "case w of None \<Rightarrow> True | Some k \<Rightarrow> length (dec n) \<le> k"
  shows "scan (Num 10 sg w # ds) (dec n @ s) vs = scan ds s (vs @ [of_nat n])"
  using assms scan_num_dec [of s n] scan_num_dec [of "take (k - length (dec n)) s" n for k]
  by (cases w) (auto simp: fits_object_def)

lemma sint_of_small: "n < 2 ^ 31 \<Longrightarrow> sint (of_nat n :: u32) = int n"
  by (simp add: signed_of_nat signed_take_bit_int_eq_self)

lemma bit_small:
  fixes x :: u32
  assumes "x < 2 ^ k" and "bit x n"
  shows "n < k"
proof -
  have "bit (x AND mask k) n" using assms less_mask_eq [of x k] by simp
  then show ?thesis by (simp add: bit_simps)
qed

text \<open>The 16-bit group address packs the three levels; the log lines of the sources unpack it this way.\<close>

lemma group_pack:
  fixes x y z :: u32
  assumes "x \<le> 0x1F" and "y \<le> 0x07" and "z \<le> 0xFF"
  defines "w \<equiv> ucast (push_bit 11 x OR push_bit 8 y OR z) :: u16"
  shows "drop_bit 11 w = ucast x" "drop_bit 8 w AND 7 = ucast y" "w AND 0xFF = ucast z"
proof -
  have "x < 2 ^ 5" "y < 2 ^ 3" "z < 2 ^ 8" using assms by (simp_all add: word_le_nat_alt word_less_nat_alt)
  note b = this [THEN bit_small]
  have m: "(7 :: u16) = mask 3" "(0xFF :: u16) = mask 8" by (simp_all add: mask_eq_exp_minus_1)
  show "drop_bit 11 w = ucast x"
    by (rule bit_eqI) (auto simp: w_def bit_simps dest: b)
  show "drop_bit 8 w AND 7 = ucast y"
    unfolding m by (rule bit_eqI) (auto simp: w_def bit_simps dest: b)
  show "w AND 0xFF = ucast z"
    unfolding m by (rule bit_eqI) (auto simp: w_def bit_simps dest: b)
qed

lemma scan_group_str:
  assumes "a < 2 ^ 31" "b < 2 ^ 31" "c < 2 ^ 31"
  shows "sscanf (group_str a b c) fmt_group = Some (3, [of_nat a, of_nat b, of_nat c])"
proof -
  have nd: "\<not> dig CHR ''/'' < 10" by (simp add: dig_def)
  have "scan [Num 10 False None] (dec c) vs = scan [] [] (vs @ [of_nat c])" for vs
    using scan_dec [of "[]" c None False "[]" vs] assms by simp
  then show ?thesis
    using assms nd by (simp add: sscanf_def fmt_group_def group_str_def scan_dec del: scan.simps(4))
qed

definition group_word :: "nat \<Rightarrow> nat \<Rightarrow> nat \<Rightarrow> u16" where
  "group_word a b c = ucast (push_bit 11 (of_nat a) OR push_bit 8 (of_nat b) OR (of_nat c) :: u32)"

lemma of_nat_le_u32: "n < 2 ^ 32 \<Longrightarrow> k < 2 ^ 32 \<Longrightarrow> (of_nat n :: u32) \<le> of_nat k \<longleftrightarrow> n \<le> k"
  by (simp add: word_le_nat_alt unat_of_nat)

lemma group_limits:
  assumes "a < 2 ^ 31" "b < 2 ^ 31" "c < 2 ^ 31"
  shows "(of_nat a :: u32) \<le> 0x1F \<longleftrightarrow> a \<le> 31" "(of_nat b :: u32) \<le> 0x07 \<longleftrightarrow> b \<le> 7"
    "(of_nat c :: u32) \<le> 0xFF \<longleftrightarrow> c \<le> 255"
  using assms of_nat_le_u32 [of a 31] of_nat_le_u32 [of b 7] of_nat_le_u32 [of c 255] by simp_all

lemma readgaddr_group:
  assumes "a \<le> 31" "b \<le> 7" "c \<le> 255"
  shows "readgaddr (group_str a b c) = Some (group_word a b c)"
  using assms group_limits [of a b c]
  by (simp add: readgaddr_def scan_group_str group_word_def)

lemma group_word_parts:
  assumes "a \<le> 31" "b \<le> 7" "c \<le> 255"
  shows "unat (drop_bit 11 (group_word a b c)) = a" "unat (drop_bit 8 (group_word a b c) AND 7) = b"
    "unat (group_word a b c AND 0xFF) = c"
  using assms group_limits [of a b c] group_pack [of "of_nat a" "of_nat b" "of_nat c"]
  by (simp_all add: group_word_def unsigned_ucast_eq unat_of_nat take_bit_nat_eq_self)

lemma KnxGrpAddr_group:
  assumes "a \<le> 31" "b \<le> 7" "c \<le> 255"
  shows "KnxGrpAddr (group_str a b c) = Some (group_word a b c)"
proof -
  have "of_int (int a * 2 ^ 11 OR int b * 2 ^ 8 OR int c) = group_word a b c"
    unfolding group_word_def push_bit_eq_mult [symmetric]
    by (rule bit_eqI) (auto simp: bit_simps bit_of_nat_iff_bit)
  with assms sint_of_small [of a] sint_of_small [of b] sint_of_small [of c] show ?thesis
    by (simp add: KnxGrpAddr_def scan_group_str c_shl_def c_int_def Let_def)
qed

lemma scan_group_width:
  assumes "a < 100" "b < 10" "c < 1000"
  shows "sscanf (group_str a b c) fmt_is_group = Some (3, [of_nat a, of_nat b, of_nat c])"
proof -
  have nd: "\<not> dig CHR ''/'' < 10" by (simp add: dig_def)
  have len: "length (dec a) \<le> 2" "length (dec b) \<le> 1" "length (dec c) \<le> 3"
    using assms length_dec [of a 1] length_dec [of b 0] length_dec [of c 2] by (simp_all add: eval_nat_numeral)
  have "scan [Num 10 True (Some 3)] (dec c) vs = scan [] [] (vs @ [of_nat c])" for vs
    using scan_dec [of "[]" c "Some 3" True "[]" vs] assms len by simp
  then show ?thesis
    using assms nd len by (simp add: sscanf_def fmt_is_group_def group_str_def scan_dec del: scan.simps(4))
qed

lemma scan_hw_width:
  assumes "a < 100" "b < 100" "c < 1000"
  shows "sscanf (hw_str a b c) fmt_hw = Some (3, [of_nat a, of_nat b, of_nat c])"
proof -
  have nd: "\<not> dig CHR ''.'' < 10" by (simp add: dig_def)
  have len: "length (dec a) \<le> 2" "length (dec b) \<le> 2" "length (dec c) \<le> 3"
    using assms length_dec [of a 1] length_dec [of b 1] length_dec [of c 2] by (simp_all add: eval_nat_numeral)
  have "scan [Num 10 True (Some 3)] (dec c) vs = scan [] [] (vs @ [of_nat c])" for vs
    using scan_dec [of "[]" c "Some 3" True "[]" vs] assms len by simp
  then show ?thesis
    using assms nd len by (simp add: sscanf_def fmt_hw_def hw_str_def scan_dec del: scan.simps(4))
qed

lemma isKnxGroupAddr_group:
  assumes "a < 100" "b < 10" "c < 1000"
  shows "isKnxGroupAddr (Ptr (group_str a b c)) = Some (if a \<le> 31 \<and> b \<le> 7 \<and> c \<le> 255 then 0 else - 1)"
  using assms sint_of_small [of a] sint_of_small [of b] sint_of_small [of c]
  by (auto simp: isKnxGroupAddr_def scan_group_width)

definition hw_word :: "nat \<Rightarrow> nat \<Rightarrow> nat \<Rightarrow> u16" where
  "hw_word a b c = of_nat (a * 4096 + b * 256 + c)"

lemma KnxHwAddr_hw:
  assumes "a \<le> 15" "b \<le> 15" "c \<le> 255"
  shows "KnxHwAddr (Ptr (hw_str a b c)) = Some (hw_word a b c)"
  using assms sint_of_small [of a] sint_of_small [of b] sint_of_small [of c]
  by (simp add: KnxHwAddr_def scan_hw_width c_shl_def c_int_def hw_word_def ac_simps)

lemma hw_word_inj:
  assumes "a \<le> 15" "b \<le> 15" "c \<le> 255" "a' \<le> 15" "b' \<le> 15" "c' \<le> 255"
  shows "hw_word a b c = hw_word a' b' c' \<longleftrightarrow> a = a' \<and> b = b' \<and> c = c'"
proof -
  have "hw_word a b c = hw_word a' b' c' \<longleftrightarrow> a * 4096 + b * 256 + c = a' * 4096 + b' * 256 + c'"
    using assms unfolding hw_word_def word_unat_eq_iff unat_of_nat by simp
  moreover have "a = a' \<and> b = b' \<and> c = c'" if "a * 4096 + b * 256 + c = a' * 4096 + b' * 256 + c'"
  proof -
    have "\<not> a < a'" "\<not> a' < a" using that assms by linarith+
    then have a: "a = a'" by simp
    have "\<not> b < b'" "\<not> b' < b" using that assms unfolding a by linarith+
    with that a show ?thesis by simp
  qed
  ultimately show ?thesis by blast
qed

subsection \<open>Lines of the bus monitor\<close>

text \<open>
  A group telegram as the monitor prints it. A value of up to six bits is printed as
  \<open>Small\<close>; longer ones are printed byte by byte.
\<close>

datatype payload = Small u8 | One u8 | Two u8 u8

fun payload_str :: "payload \<Rightarrow> string" where
  "payload_str (Small b) = '' (small) '' @ hex2 b"
| "payload_str (One b) = '' '' @ hex2 b"
| "payload_str (Two h l) = '' '' @ hex2 h @ '' '' @ hex2 l"

fun payload_value :: "payload \<Rightarrow> u16" where
  "payload_value (Small b) = ucast b"
| "payload_value (One b) = ucast b"
| "payload_value (Two h l) = of_nat (unat h * 256 + unat l)"

definition monitor_line :: "string \<Rightarrow> string \<Rightarrow> string \<Rightarrow> payload \<Rightarrow> string" where
  "monitor_line hw grp svc v =
     ''L_Data low from '' @ hw @ '' to '' @ grp @ '' hops: 06 T_Data_Group A_GroupValue_'' @ svc @ payload_str v"

lemma strstr_skip:
  "key \<noteq> [] \<Longrightarrow> hd key \<notin> set pre \<Longrightarrow> strstr key (pre @ s) = map_option ((+) (length pre)) (strstr key s)"
proof (induction pre)
  case Nil
  then show ?case by (simp add: option.map_ident)
next
  case (Cons c pre)
  then have "take (length key) (c # pre @ s) \<noteq> key" by (cases key) auto
  with Cons show ?case by (simp add: option.map_comp o_def)
qed

lemma strstr_short [simp]: "length s < length key \<Longrightarrow> strstr key s = None"
  by (induction s) (auto dest: arg_cong [of _ _ length])

lemma dig_char_neq: "d < 16 \<Longrightarrow> \<not> dig c < 16 \<Longrightarrow> dig_char d \<noteq> c"
  by auto

lemma dig_x: "dig CHR ''x'' = 16" "dig CHR ''X'' = 16"
  by (simp_all add: dig_def)

lemma length_hex2 [simp]: "length (hex2 b) = 2"
  by (simp add: hex2_def)

lemma hex2_nibbles: "unat (b :: u8) div 16 < 16" "unat b mod 16 < 16"
proof -
  have "unat b < 2 ^ LENGTH(8)" by (rule unsigned_less)
  then have "unat b < 256" by simp
  then show "unat b div 16 < 16" "unat b mod 16 < 16" by (simp_all add: less_mult_imp_div_less)
qed

lemma scan_hex2:
  "scan (Num 16 False (Some 2) # ds) (hex2 b @ s) vs = scan ds s (vs @ [ucast b])"
proof -
  obtain x y where xy: "x < 16" "y < 16" "hex2 b = [dig_char x, dig_char y]" "x * 16 + y = unat b"
    using hex2_nibbles [of b] unfolding hex2_def by (metis div_mult_mod_eq)
  moreover have "dig_char y \<noteq> CHR ''x''" "dig_char y \<noteq> CHR ''X''"
    using xy dig_char_neq [of y] by (simp_all add: dig_x)
  moreover have "(word_of_int (int x * 16 + int y) :: u32) = ucast b"
  proof -
    have "int x * 16 + int y = int (unat b)" using xy(4) by linarith
    then show ?thesis by simp
  qed
  moreover have "uint b < 2 ^ 32" using uint_bounded [of b] by simp
  ultimately show ?thesis
    by (simp add: scan_num_def num_val_def fits_object_def Let_def ac_simps)
qed

lemma ucast_ucast_u8: "(ucast (ucast (b :: u8) :: u32) :: u16) = ucast b"
  by (rule bit_eqI) (auto simp: bit_simps)

lemma small_value_hex2 [simp]: "small_value (hex2 b) = Some (Some (ucast b))"
  using scan_hex2 [of "[]" b "[]" "[]"]
  by (simp add: small_value_def sscanf_def fmt_byte_def ucast_ucast_u8 del: scan.simps(4))

lemma ucast_of_nat_u16: "(ucast (of_nat n :: u32) :: u16) = of_nat n"
  by (simp add: word_unat_eq_iff unsigned_ucast_eq unsigned_of_nat)

lemma two_bytes_u16:
  "(ucast (ucast (h :: u8) * 256 + ucast (l :: u8) :: u32) :: u16) = of_nat (unat h * 256 + unat l)"
proof -
  have "(ucast h * 256 + ucast l :: u32) = of_nat (unat h * 256 + unat l)" by simp
  then show ?thesis by (simp only: ucast_of_nat_u16)
qed

lemma long_value_one [simp]: "long_value (hex2 b) = Some (Some (ucast b))"
  using scan_hex2 [of "[Ws, Num 16 False (Some 2)]" b "[]" "[]"]
  by (simp add: long_value_def sscanf_def fmt_two_def ucast_ucast_u8)

lemma skip_space_hex2 [simp]: "dropWhile is_space (hex2 b) = hex2 b"
  using hex2_nibbles [of b] by (simp add: hex2_def)

lemma is_space_simps [simp]: "is_space CHR '' ''"
  by (simp add: is_space_def)

lemma long_value_two [simp]:
  "long_value (hex2 h @ CHR '' '' # hex2 l) = Some (Some (of_nat (unat h * 256 + unat l)))"
proof -
  have "scan fmt_two (hex2 h @ CHR '' '' # hex2 l) [] = scan [Num 16 False (Some 2)] (hex2 l) [ucast h]"
    unfolding fmt_two_def scan_hex2 by simp
  also have "\<dots> = Some (2, [ucast h, ucast l])"
    using scan_hex2 [of "[]" l "[]" "[ucast h]"] by simp
  finally show ?thesis
    using two_bytes_u16 [of h l] by (simp add: long_value_def sscanf_def)
qed

text \<open>What the parser relies on of the addresses in a line: no blank, no letter.\<close>

definition addr_text :: "string \<Rightarrow> bool" where
  "addr_text s \<longleftrightarrow> s \<noteq> [] \<and> length s < EIB_ADDR + PREFIX_SIZE \<and>
     (\<forall>c \<in> set s. c \<notin> {CHR '' '', CHR ''A'', CHR ''f'', CHR ''h'', CHR ''r'', CHR ''t''})"

lemma line_positions:
  assumes "addr_text hw" and "addr_text grp"
  shows "strstr ''from '' (monitor_line hw grp svc v) = Some 11"
    and "strstr '' to '' (monitor_line hw grp svc v) = Some (16 + length hw)"
    and "strstr '' hops'' (monitor_line hw grp svc v) = Some (20 + length hw + length grp)"
proof -
  obtain x xs y ys where s: "hw = x # xs" "grp = y # ys"
    using assms by (cases hw; cases grp) (auto simp: addr_text_def)
  have ne: "x \<noteq> CHR '' ''" "x \<noteq> CHR ''t''" "x \<noteq> CHR ''h''" "y \<noteq> CHR '' ''" "y \<noteq> CHR ''t''" "y \<noteq> CHR ''h''"
    "CHR '' '' \<notin> set xs" "CHR '' '' \<notin> set ys"
    using assms by (auto simp: addr_text_def s)
  note skip = strstr_skip [of "'' to ''" xs] strstr_skip [of "'' hops''" xs] strstr_skip [of "'' hops''" ys]
  show "strstr ''from '' (monitor_line hw grp svc v) = Some 11"
    by (simp add: monitor_line_def)
  show "strstr '' to '' (monitor_line hw grp svc v) = Some (16 + length hw)"
    using ne skip by (simp add: monitor_line_def s)
  show "strstr '' hops'' (monitor_line hw grp svc v) = Some (20 + length hw + length grp)"
    using ne skip by (simp add: monitor_line_def s)
qed

lemma hex2_not_small [simp]: "hex2 b \<noteq> CHR ''('' # s" "hex2 b @ r \<noteq> CHR ''('' # s"
  using hex2_nibbles [of b] dig_char_neq [of "unat b div 16" "CHR ''(''"] by (simp_all add: hex2_def dig_def)

definition line_head :: "string \<Rightarrow> string \<Rightarrow> string" where
  "line_head hw grp = ''L_Data low from '' @ hw @ '' to '' @ grp @ '' hops: 06 T_Data_Group ''"

lemma line_split: "monitor_line hw grp svc v = line_head hw grp @ ''A_GroupValue_'' @ svc @ payload_str v"
  by (simp add: monitor_line_def line_head_def)

lemma line_key:
  assumes "addr_text hw" and "addr_text grp"
  shows "strstr (CHR ''A'' # key) (monitor_line hw grp svc v) =
    map_option ((+) (length (line_head hw grp))) (strstr (CHR ''A'' # key) (''A_GroupValue_'' @ svc @ payload_str v))"
  unfolding line_split by (rule strstr_skip) (use assms in \<open>auto simp: line_head_def addr_text_def\<close>)

lemma no_repeated:
  assumes "addr_text hw" and "addr_text grp" and "svc = ''Write'' \<or> svc = ''Response''"
  shows "strstr ''repeated'' (monitor_line hw grp svc v) = None"
proof -
  have "CHR ''r'' \<notin> set hw" "CHR ''r'' \<notin> set grp" using assms by (auto simp: addr_text_def)
  then have "strstr ''repeated'' (hw @ s) = map_option ((+) (length hw)) (strstr ''repeated'' s)"
    "strstr ''repeated'' (grp @ s) = map_option ((+) (length grp)) (strstr ''repeated'' s)" for s
    by (auto intro!: strstr_skip)
  with assms(3) show ?thesis by (cases v) (auto simp: monitor_line_def)
qed

lemma no_read:
  assumes "addr_text hw" and "addr_text grp" and "svc = ''Write'' \<or> svc = ''Response''"
  shows "strstr ''A_GroupValue_Read'' (monitor_line hw grp svc v) = None"
  using assms(3) by (cases v) (auto simp: line_key [OF assms(1,2)])

lemma service_own:
  assumes "addr_text hw" and "addr_text grp"
  shows "service_value ''A_GroupValue_Write (small) '' ''A_GroupValue_Write '' cmd (monitor_line hw grp ''Write'' v) d
      = Some (Some (d\<lparr>kd_value := payload_value v, kd_cmd := cmd\<rparr>))"
    and "service_value ''A_GroupValue_Response (small) '' ''A_GroupValue_Response '' cmd (monitor_line hw grp ''Response'' v) d
      = Some (Some (d\<lparr>kd_value := payload_value v, kd_cmd := cmd\<rparr>))"
  by (cases v; simp add: service_value_def line_key [OF assms]; simp add: line_split)+

lemma service_other:
  assumes "addr_text hw" and "addr_text grp"
  shows "service_value ''A_GroupValue_Write (small) '' ''A_GroupValue_Write '' cmd (monitor_line hw grp ''Response'' v) d
      = Some (Some d)"
    and "service_value ''A_GroupValue_Response (small) '' ''A_GroupValue_Response '' cmd (monitor_line hw grp ''Write'' v) d
      = Some (Some d)"
  by (cases v; simp add: service_value_def line_key [OF assms])+

lemma parse_addrs_line:
  assumes "addr_text hw" and "addr_text grp"
  shows "parse_addrs (monitor_line hw grp svc v) zero_data
    = Some (zero_data\<lparr>kd_hwAddr := hw, kd_groupAddr := grp\<rparr>)"
proof -
  obtain rest where line: "monitor_line hw grp svc v = ''L_Data low from '' @ hw @ '' to '' @ grp @ rest"
    by (simp add: monitor_line_def)
  have "drop 16 (monitor_line hw grp svc v) = hw @ '' to '' @ grp @ rest"
    unfolding line by simp
  moreover have "drop (20 + length hw) (monitor_line hw grp svc v) = grp @ rest"
  proof -
    have "monitor_line hw grp svc v = (''L_Data low from '' @ hw @ '' to '') @ grp @ rest"
      by (simp add: line)
    moreover have "length (''L_Data low from '' @ hw @ '' to '') = 20 + length hw" by simp
    ultimately show ?thesis by (metis append_eq_conv_conj)
  qed
  ultimately show ?thesis
    using assms line_positions [OF assms, of svc v]
    by (simp add: parse_addrs_def memcpy_str_def addr_text_def zero_data_def)
qed

lemma dec_chars: "c \<in> set (dec n) \<Longrightarrow> dig c < 10"
  using dec_digits [of n] by auto

lemma addr_chars:
  assumes "\<forall>c \<in> set s. dig c < 10 \<or> c = CHR ''.'' \<or> c = CHR ''/''"
  shows "\<forall>c \<in> set s. c \<notin> {CHR '' '', CHR ''A'', CHR ''f'', CHR ''h'', CHR ''r'', CHR ''t''}"
proof
  fix c
  assume "c \<in> set s"
  with assms have "dig c < 10 \<or> c = CHR ''.'' \<or> c = CHR ''/''" by blast
  then show "c \<notin> {CHR '' '', CHR ''A'', CHR ''f'', CHR ''h'', CHR ''r'', CHR ''t''}"
    by (auto simp: dig_def)
qed

lemma addr_text_hw: "a \<le> 15 \<Longrightarrow> b \<le> 15 \<Longrightarrow> c \<le> 255 \<Longrightarrow> addr_text (hw_str a b c)"
proof -
  assume ab: "a \<le> 15" "b \<le> 15" "c \<le> 255"
  have "length (dec a) \<le> 2" "length (dec b) \<le> 2" "length (dec c) \<le> 3"
    using ab length_dec [of a 1] length_dec [of b 1] length_dec [of c 2] by (simp_all add: eval_nat_numeral)
  moreover have "\<forall>x \<in> set (hw_str a b c). dig x < 10 \<or> x = CHR ''.'' \<or> x = CHR ''/''"
    by (auto simp: hw_str_def dest: dec_chars)
  ultimately show ?thesis
    unfolding addr_text_def by (intro conjI addr_chars) (simp_all add: hw_str_def EIB_ADDR_def PREFIX_SIZE_def)
qed

lemma addr_text_group: "a \<le> 31 \<Longrightarrow> b \<le> 7 \<Longrightarrow> c \<le> 255 \<Longrightarrow> addr_text (group_str a b c)"
proof -
  assume ab: "a \<le> 31" "b \<le> 7" "c \<le> 255"
  have "length (dec a) \<le> 2" "length (dec b) \<le> 1" "length (dec c) \<le> 3"
    using ab length_dec [of a 1] length_dec [of b 0] length_dec [of c 2] by (simp_all add: eval_nat_numeral)
  moreover have "\<forall>x \<in> set (group_str a b c). dig x < 10 \<or> x = CHR ''.'' \<or> x = CHR ''/''"
    by (auto simp: group_str_def dest: dec_chars)
  ultimately show ?thesis
    unfolding addr_text_def by (intro conjI addr_chars) (simp_all add: group_str_def EIB_ADDR_def PREFIX_SIZE_def)
qed

lemma parse_line:
  assumes "addr_text hw" and "addr_text grp" and "KnxHwAddr (Ptr hw) = Some phy"
    and "svc = ''Write'' \<or> svc = ''Response''"
  shows "KNX_ParsePacket (Ptr (monitor_line hw grp svc v)) zero_data =
    Some (if KNX_HW_ADDRESS_MIN \<le> phy \<and> phy \<le> KNX_HW_ADDRESS_MAX then - 4 else 0,
      zero_data\<lparr>kd_hwAddr := hw, kd_groupAddr := grp, kd_phy := phy, kd_value := payload_value v, kd_cmd := svc\<rparr>)"
proof -
  have len: "c_str (EIB_ADDR + PREFIX_SIZE) hw = Some hw" using assms(1) by (simp add: addr_text_def c_str_def)
  note parts = parse_addrs_line [OF assms(1,2)] service_own [OF assms(1,2)] service_other [OF assms(1,2)] len assms(3)
  from assms(4) no_read [OF assms(1,2,4), of v] no_repeated [OF assms(1,2,4), of v] show ?thesis
    by (elim disjE; simp only: KNX_ParsePacket_def cptr.case parts bind.bind_lunit simp_thms if_False option.case)
      (simp_all add: len assms(3) zero_data_def)
qed

lemma own_range:
  assumes "a \<le> 15" "b \<le> 15" "c \<le> 255"
  shows "KNX_HW_ADDRESS_MIN \<le> hw_word a b c \<and> hw_word a b c \<le> KNX_HW_ADDRESS_MAX
    \<longleftrightarrow> a = 1 \<and> b = 0 \<and> 1 \<le> c \<and> c \<le> 8"
proof -
  have w: "unat (hw_word a b c) = a * 4096 + b * 256 + c"
    using assms by (simp add: hw_word_def unat_of_nat del: of_nat_add of_nat_mult)
  have "a = 1 \<and> b = 0 \<and> 1 \<le> c \<and> c \<le> 8"
    if r: "4097 \<le> a * 4096 + b * 256 + c" "a * 4096 + b * 256 + c \<le> 4104"
  proof -
    have a: "a = 1" using r assms by linarith
    have b: "b = 0" using r unfolding a by linarith
    show ?thesis using r unfolding a b by simp
  qed
  then show ?thesis
    by (auto simp: w KNX_HW_ADDRESS_MIN_def KNX_HW_ADDRESS_MAX_def word_le_nat_alt)
qed

subsection \<open>Properties\<close>

text \<open>
  Claim C34. A monitor line for a group telegram, from any device to any group, with a value of
  up to six bits, of one byte or of two bytes, parses to the telegram it was printed from:
  sender, group, service and value. It is accepted, unless the sender is one of the gateway's
  own addresses.
\<close>

theorem monitor_line_parsed:
  assumes "a \<le> 15" and "b \<le> 15" and "c \<le> 255" and "x \<le> 31" and "y \<le> 7" and "z \<le> 255"
    and "svc = ''Write'' \<or> svc = ''Response''"
  shows "KNX_ParsePacket (Ptr (monitor_line (hw_str a b c) (group_str x y z) svc v)) zero_data =
    Some (if a = 1 \<and> b = 0 \<and> 1 \<le> c \<and> c \<le> 8 then - 4 else 0,
      zero_data\<lparr>kd_hwAddr := hw_str a b c, kd_groupAddr := group_str x y z, kd_phy := hw_word a b c,
        kd_value := payload_value v, kd_cmd := svc\<rparr>)"
  using parse_line [OF addr_text_hw addr_text_group KnxHwAddr_hw assms(7)] own_range assms(1-6) by simp

theorem monitor_line_parsed_witness:
  "KNX_ParsePacket (Ptr (monitor_line (hw_str 1 1 27) (group_str 3 0 112) ''Write'' (Two 0x0C 0x1A))) zero_data =
    Some (0, zero_data\<lparr>kd_hwAddr := hw_str 1 1 27, kd_groupAddr := group_str 3 0 112, kd_phy := hw_word 1 1 27,
        kd_value := 0x0C1A, kd_cmd := ''Write''\<rparr>)"
  using monitor_line_parsed [of 1 1 27 3 0 112 "''Write''" "Two 0x0C 0x1A"] by simp

text \<open>
  Group addresses: the text of every address of three levels is accepted by the
  check of the configuration parser, both parsing functions pack it into the same 16 bits, and
  shifting and masking, as the log lines do, gives the three levels back.
\<close>

lemma group_address_roundtrip:
  assumes "a \<le> 31" and "b \<le> 7" and "c \<le> 255"
  shows "\<exists>w. readgaddr (group_str a b c) = Some w \<and> KnxGrpAddr (group_str a b c) = Some w
    \<and> isKnxGroupAddr (Ptr (group_str a b c)) = Some 0
    \<and> unat (drop_bit 11 w) = a \<and> unat (drop_bit 8 w AND 7) = b \<and> unat (w AND 0xFF) = c"
  using readgaddr_group [OF assms] KnxGrpAddr_group [OF assms] group_word_parts [OF assms]
    isKnxGroupAddr_group [of a b c] assms by simp

lemma group_address_roundtrip_example:
  "\<exists>w. readgaddr (group_str 31 7 255) = Some w \<and> KnxGrpAddr (group_str 31 7 255) = Some w
    \<and> isKnxGroupAddr (Ptr (group_str 31 7 255)) = Some 0
    \<and> unat (drop_bit 11 w) = 31 \<and> unat (drop_bit 8 w AND 7) = 7 \<and> unat (w AND 0xFF) = 255"
  using group_address_roundtrip [of 31 7 255] by simp

text \<open>
  Two checks that do not reject. A group address that does not begin with a number
  passes \<open>isKnxGroupAddr\<close>, whose count of zero conversions reads as success. And
  \<open>readgaddr\<close> takes an address whose main group is out of range, from 32 to 99, for a
  hexadecimal number and returns the group with that number instead of an error.
\<close>

lemma bad_groups_accepted:
  assumes "10 \<le> dig x" and "\<not> is_space x" and "x \<noteq> CHR ''-''" and "x \<noteq> CHR ''+''"
    and "32 \<le> a" and "a \<le> 99" and "b < 2 ^ 31" and "c < 2 ^ 31"
  shows "isKnxGroupAddr (Ptr (x # s)) = Some 0
    \<and> readgaddr (group_str a b c) = Some (of_nat (a div 10 * 16 + a mod 10))"
proof
  show "isKnxGroupAddr (Ptr (x # s)) = Some 0"
    using assms(1-4) by (simp add: isKnxGroupAddr_def sscanf_def fmt_is_group_def scan_num_def Let_def)
  have d: "dec a = [dig_char (a div 10), dig_char (a mod 10)]" and lim: "a div 10 < 16" "a mod 10 < 16"
    using assms(5,6) by (simp_all add: dec.simps [of a] dec.simps [of "a div 10"] div_less_iff_less_mult)
  have x: "dig_char (a mod 10) \<noteq> CHR ''x''" "dig_char (a mod 10) \<noteq> CHR ''X''"
    using dig_char_neq [OF lim(2)] dig_x by simp_all
  have "\<not> dig CHR ''/'' < 16" by (simp add: dig_def)
  then have "sscanf (group_str a b c) [Num 16 False None] = Some (1, [of_nat (a div 10 * 16 + a mod 10)])"
    using lim x by (simp add: sscanf_def group_str_def d scan_num_def num_val_def fits_object_def Let_def)
  moreover have "(of_nat (a div 10 * 16 + a mod 10) :: u32) \<le> 0xFFFF"
    using of_nat_le_u32 [of "a div 10 * 16 + a mod 10" "0xFFFF"] lim by simp
  ultimately show "readgaddr (group_str a b c) = Some (of_nat (a div 10 * 16 + a mod 10))"
    using assms(5-8) group_limits [of a b c]
    by (simp add: readgaddr_def scan_group_str ucast_of_nat_u16 del: of_nat_add of_nat_mult)
qed

lemma bad_groups_accepted_example:
  "isKnxGroupAddr (Ptr ''x1/2/3'') = Some 0 \<and> readgaddr (group_str 32 0 1) = Some 0x32"
  using bad_groups_accepted [where x = "CHR ''x''" and a = 32 and b = 0 and c = 1 and s = "''1/2/3''"] by (simp add: dig_x is_space_def)

text \<open>
  \<open>KNX_ParsePacket\<close> trusts the line: when one of its three key words is missing, when
  they come in another order or when an address between them is longer than the ten
  characters of its array, the copy leaves its object.
\<close>

lemma parse_packet_faults:
  assumes "strstr ''from '' buf = None \<or> strstr '' to '' buf = None \<or> strstr '' hops'' buf = None
    \<or> (\<exists>i j k. strstr ''from '' buf = Some i \<and> strstr '' to '' buf = Some j \<and> strstr '' hops'' buf = Some k
        \<and> (j < i + 5 \<or> i + 15 < j \<or> k < j + 4 \<or> j + 14 < k))"
  shows "KNX_ParsePacket (Ptr buf) d = None"
  using assms
  by (auto simp: KNX_ParsePacket_def parse_addrs_def memcpy_str_def EIB_ADDR_def PREFIX_SIZE_def)

lemma parse_packet_faults_example:
  "KNX_ParsePacket (Ptr ''L_Data low from 1.1.100.200 to 1/2/3 hops: 06'') zero_data = None
   \<and> KNX_ParsePacket (Ptr ''L_Busmon'') zero_data = None"
  using parse_packet_faults [of "''L_Data low from 1.1.100.200 to 1/2/3 hops: 06''" zero_data]
    parse_packet_faults [of "''L_Busmon''" zero_data] by simp

text \<open>
  A line of another service than read, write and response is accepted with the value zero and
  an empty command, and the reports that follow do not look at the command.
\<close>

lemma unknown_service_accepted:
  assumes "parse_addrs buf zero_data = Some d" and "length (kd_hwAddr d) \<le> EIB_ADDR"
    and "KnxHwAddr (Ptr (kd_hwAddr d)) = Some phy"
    and "\<not> (KNX_HW_ADDRESS_MIN \<le> phy \<and> phy \<le> KNX_HW_ADDRESS_MAX)"
    and "\<forall>key \<in> {''A_GroupValue_Write (small) '', ''A_GroupValue_Write '', ''A_GroupValue_Read'', ''repeated'',
      ''A_GroupValue_Response (small) '', ''A_GroupValue_Response ''}. strstr key buf = None"
  shows "KNX_ParsePacket (Ptr buf) zero_data = Some (0, d\<lparr>kd_phy := phy\<rparr>) \<and> kd_value d = 0 \<and> kd_cmd d = []"
proof -
  have "kd_value d = 0" "kd_cmd d = []"
    using assms(1) by (auto simp: parse_addrs_def zero_data_def split: bind_splits)
  with assms show ?thesis
    by (auto simp: KNX_ParsePacket_def service_value_def c_str_def PREFIX_SIZE_def)
qed

text \<open>
  \<open>readBlock\<close> writes the value big-endian in one byte, or in two when it does not fit one.
\<close>

lemma readBlock_value:
  "fst (readBlock v) = int (length (snd (readBlock v)))"
  "foldl (\<lambda>n b. n * 256 + unat b) 0 (snd (readBlock v)) = unat v"
proof -
  show "fst (readBlock v) = int (length (snd (readBlock v)))" by (simp add: readBlock_def)
  have "unat (v div 256) < 256"
  proof -
    have "unat v < 2 ^ LENGTH(16)" by (rule unsigned_less)
    then show ?thesis by (simp add: unat_div less_mult_imp_div_less)
  qed
  then have b: "unat (ucast (v div 256) :: u8) = unat v div 256" "unat (ucast (v mod 256) :: u8) = unat v mod 256"
    by (simp_all add: unat_mod unat_div unsigned_ucast_eq take_bit_nat_eq_self)
  have "unat v div 256 = 0" if "v div 256 = 0"
    using that unat_div [of v 256] by simp
  then show "foldl (\<lambda>n b. n * 256 + unat b) 0 (snd (readBlock v)) = unat v"
    using div_mult_mod_eq [of "unat v" 256] by (auto simp: readBlock_def b)
qed

end
