(* ===== verification/Knx_Devices.thy ===== *)
theory Knx_Devices
  imports Knx_Telegram Knx_Plugins
begin

text \<open>
  The KNX devices of the gateway and the handlers that control them: \<open>Knx_AirconditionCtrl\<close> to
  \<open>Knx_CurtainCtrl\<close> of \<open>source/knxHandle.c\<close>, which the thread \<open>KNX_DevWriteEntry\<close> calls for
  every request of the cloud or of a Modbus device.

  \<^item> \<open>pKnxDevList\<close> is the list of its devices; a handler returns it updated. Which structure
    a device has is a constructor of \<open>knx_body\<close>: reading it as another one is undefined.
  \<^item> Every call of a handler to the bus daemon, the cloud or the Modbus side is an \<open>effect\<close>,
    appended to a log in the order of the calls; the effects of the Modbus side are part of
    the same type. What such a call answers is a function of
    the log up to and including it, collected in \<open>env\<close>, so that any sequence of answers is
    possible.
  \<^item> \<open>point.value\<close> is a union of which the handlers use the low 32 bits.
  \<^item> A group object and a point have the fields that the handlers use. Log messages have no
    counterpart.
\<close>

subsection \<open>Data\<close>

record KnxIf =
  if_control :: "(ty_obj_dp cptr \<Rightarrow> KnxObj cptr \<Rightarrow> (int \<times> KnxObj cptr) exec) cptr"
  if_report :: "(KnxObj cptr \<Rightarrow> ty_obj_dp cptr \<Rightarrow> (int \<times> ty_obj_dp cptr) exec) cptr"

record DeviceElement =
  el_szName :: string
  el_pPrimaryKey :: string
  el_devId :: u32
  el_pProductId :: string
  el_pForeignKey :: "string cptr"
  el_primaryType :: nat
  el_pvForeignKey :: "string cptr"
  el_bMaster :: bool
  el_attri :: nat

record KnxBase =
  kb_pIf :: "KnxIf cptr"
  kb_element :: DeviceElement
  kb_bOnlineCheck :: bool
  kb_hbIgnore :: int

text \<open>\<open>KnxObj_t\<close>: what the plugins work on, with its data point, group address and time.\<close>

record grp_obj =
  go_obj :: KnxObj
  go_cloudPoint :: int
  go_addr :: string
  go_timestamp :: u64

datatype slot = pSwitch | pSwitchStatus | pSpeed | pSpeedStatus | pMode | pModeStatus
  | pTemp | pTempStatus | pEnvTemp | pValve | pErrorCode

record KnxPoints =
  kp_id :: u16
  kp_mode :: nat
  kp_max :: u16
  kp_value :: u32
  kp_timestamp :: u64
  kp_pCtrl :: "string cptr"
  kp_pFeedback :: "string cptr"

record KnxSmartPanelPoint =
  sp_key :: KnxPoints
  sp_scene :: KnxPoints
  sp_mode :: KnxPoints

record KnxDimmerPoint =
  dm_key :: KnxPoints
  dm_bright :: KnxPoints

record KnxCurtain =
  cu_pOpen :: "KnxPoints cptr"
  cu_pClose :: "KnxPoints cptr"
  cu_pStop :: "KnxPoints cptr"

datatype knx_body =
    Objects "slot \<Rightarrow> grp_obj cptr"
  | Panel "KnxPoints list"
  | SmartPanel "KnxSmartPanelPoint list"
  | Dimmer "KnxDimmerPoint list"
  | Curtain KnxCurtain

record knx_dev =
  kd_base :: KnxBase
  kd_body :: knx_body

abbreviation kd_element :: "knx_dev \<Rightarrow> DeviceElement" where
  "kd_element d \<equiv> kb_element (kd_base d)"

definition DEVICE_ATTRI_CONTROLLER :: nat where "DEVICE_ATTRI_CONTROLLER = 3"
definition DEVICE_ATTRI_ACTUATOR :: nat where "DEVICE_ATTRI_ACTUATOR = 4"
definition POINT_ATTR_WRITE_ONLY :: nat where "POINT_ATTR_WRITE_ONLY = 2"

text \<open>Reads and writes of the members of \<open>point.value\<close>.\<close>

definition pv_u8 :: "KnxPoints \<Rightarrow> u8" where "pv_u8 p = ucast (kp_value p)"

definition set_pv_u8 :: "u8 \<Rightarrow> KnxPoints \<Rightarrow> KnxPoints" where
  "set_pv_u8 v p = p\<lparr>kp_value := (kp_value p AND NOT 0xFF) OR ucast v\<rparr>"

definition set_pv_b1 :: "bool \<Rightarrow> KnxPoints \<Rightarrow> KnxPoints" where
  "set_pv_b1 b p = set_pv_u8 (if b then 1 else 0) p"

definition set_pv_u16 :: "u16 \<Rightarrow> KnxPoints \<Rightarrow> KnxPoints" where
  "set_pv_u16 v p = p\<lparr>kp_value := (kp_value p AND NOT 0xFFFF) OR ucast v\<rparr>"

definition set_pv_i32 :: "u32 \<Rightarrow> KnxPoints \<Rightarrow> KnxPoints" where
  "set_pv_i32 v p = p\<lparr>kp_value := v\<rparr>"

record KnxWrite =
  kw_pPrimaryKey :: string
  kw_devId :: u32
  kw_obj :: ty_obj_dp

subsection \<open>Effects\<close>

text \<open>The kinds of device the cloud distinguishes, and the calls that reach the outside.\<close>

datatype dev_tp = DEV_TP_ZIGBEE | DEV_TP_433 | DEV_TP_485 | DEV_TP_KNX | DEV_TP_USR1 | DEV_TP_OTHER

datatype effect =
    CloudReport string ty_obj_dp
  | HbFresh string
  | EibSocket
  | EibOpen u16
  | EibSend bytes
  | EibClose
  | MbusWrite string ty_obj_dp
  | UpdateMode int nat string
  | Exit
  | CloudStr string u8 bytes
  | KnxSync string ty_obj_dp
  | KnxSyncStr string u8 bytes
  | SerOpen nat
  | SerSend nat bytes
  | SerRecv nat
  | SerClose nat
  | CloudBind dev_tp string string
  | CloudUnbind string
  | HbCfg string nat nat
  | GwReset
  | GwReboot
  | ZigDel string
  | PosReport "string cptr" string
  | AddJob string "string cptr"
  | StatusLed bool
  | BindPos string
  | ZigSend string

type_synonym elog = "effect list"

record env =
  ev_active :: bool
  ev_registered :: "string \<Rightarrow> bool"
  ev_now :: u64
  ev_cloud :: "elog \<Rightarrow> int"
  ev_hb :: "elog \<Rightarrow> int"
  ev_socket :: "elog \<Rightarrow> bool"
  ev_open :: "elog \<Rightarrow> int"
  ev_send :: "elog \<Rightarrow> int"
  ev_mbus :: "elog \<Rightarrow> int"
  ev_seropen :: "elog \<Rightarrow> int"
  ev_bind :: "elog \<Rightarrow> int"

definition cloud_report :: "env \<Rightarrow> string \<Rightarrow> ty_obj_dp \<Rightarrow> elog \<Rightarrow> int \<times> elog" where
  "cloud_report ev key dp lg = (let lg = lg @ [CloudReport key dp] in (ev_cloud ev lg, lg))"

definition hb_fresh :: "env \<Rightarrow> string \<Rightarrow> elog \<Rightarrow> int \<times> elog" where
  "hb_fresh ev key lg = (let lg = lg @ [HbFresh key] in (ev_hb ev lg, lg))"

definition mbus_write :: "env \<Rightarrow> string \<Rightarrow> ty_obj_dp \<Rightarrow> elog \<Rightarrow> int \<times> elog" where
  "mbus_write ev key dp lg = (let lg = lg @ [MbusWrite key dp] in (ev_mbus ev lg, lg))"

text \<open>
  Connect to the bus daemon, open the group, send and close. \<open>None\<close> stands for a failure
  before \<open>EIBSendAPDU\<close>, after which the caller leaves \<open>ret\<close> as it is.
\<close>

definition group_send :: "env \<Rightarrow> u16 \<Rightarrow> bytes \<Rightarrow> elog \<Rightarrow> int option \<times> elog" where
  "group_send ev g buf lg =
     (let lg1 = lg @ [EibSocket]; lg2 = lg1 @ [EibOpen g]; lg3 = lg2 @ [EibSend buf] in
      if \<not> ev_socket ev lg1 then (None, lg1)
      else if ev_open ev lg2 = - 1 then (None, lg2 @ [EibClose])
      else (Some (ev_send ev lg3), lg3 @ [EibClose]))"

text \<open>Report to the cloud and refresh the heartbeat; the result is \<open>0\<close> or \<open>-1\<close>.\<close>

definition report_fresh :: "env \<Rightarrow> string \<Rightarrow> ty_obj_dp \<Rightarrow> elog \<Rightarrow> int \<times> elog" where
  "report_fresh ev key dp lg =
     (let (r, lg) = cloud_report ev key dp lg in
      (if r \<noteq> 0 then - 1 else 0, snd (hb_fresh ev key lg)))"

text \<open>
  A loop over \<open>pKnxDevList\<close>. Its body gets a device, \<open>ret\<close> and the log, and says whether the
  loop goes on; entries without a value are skipped.
\<close>

datatype flow = Continue | Break

type_synonym dev_list = "knx_dev cptr list"
type_synonym handled = "(dev_list \<times> int \<times> elog) exec"

fun dev_loop ::
  "(knx_dev \<Rightarrow> int \<Rightarrow> elog \<Rightarrow> (flow \<times> knx_dev \<times> int \<times> elog) exec) \<Rightarrow> dev_list \<Rightarrow> int \<Rightarrow> elog \<Rightarrow> handled" where
  "dev_loop body [] ret lg = Some ([], ret, lg)"
| "dev_loop body (NULL # ds) ret lg = do {
     (ds, ret, lg) \<leftarrow> dev_loop body ds ret lg;
     Some (NULL # ds, ret, lg) }"
| "dev_loop body (Ptr d # ds) ret lg = do {
     (fl, d, ret, lg) \<leftarrow> body d ret lg;
     if fl = Break then Some (Ptr d # ds, ret, lg)
     else do {
       (ds, ret, lg) \<leftarrow> dev_loop body ds ret lg;
       Some (Ptr d # ds, ret, lg) } }"

definition call_control :: "KnxIf \<Rightarrow> ty_obj_dp \<Rightarrow> KnxObj \<Rightarrow> KnxObj exec" where
  "call_control pif dp k =
     (case if_control pif of NULL \<Rightarrow> None
      | Ptr f \<Rightarrow> do {
          (_, r) \<leftarrow> f (Ptr dp) (Ptr k);
          (case r of NULL \<Rightarrow> None | Ptr k \<Rightarrow> Some k) })"

definition call_report :: "KnxIf \<Rightarrow> KnxObj \<Rightarrow> ty_obj_dp \<Rightarrow> ty_obj_dp exec" where
  "call_report pif k dp =
     (case if_report pif of NULL \<Rightarrow> None
      | Ptr f \<Rightarrow> do {
          (_, r) \<leftarrow> f (Ptr k) (Ptr dp);
          (case r of NULL \<Rightarrow> None | Ptr dp \<Rightarrow> Some dp) })"

fun as_objects :: "knx_body \<Rightarrow> (slot \<Rightarrow> grp_obj cptr) exec" where
  "as_objects (Objects f) = Some f" | "as_objects _ = None"

fun as_panel :: "knx_body \<Rightarrow> KnxPoints list exec" where
  "as_panel (Panel ps) = Some ps" | "as_panel _ = None"

fun as_smart :: "knx_body \<Rightarrow> KnxSmartPanelPoint list exec" where
  "as_smart (SmartPanel ps) = Some ps" | "as_smart _ = None"

fun as_dimmer :: "knx_body \<Rightarrow> KnxDimmerPoint list exec" where
  "as_dimmer (Dimmer ps) = Some ps" | "as_dimmer _ = None"

fun as_curtain :: "knx_body \<Rightarrow> KnxCurtain exec" where
  "as_curtain (Curtain c) = Some c" | "as_curtain _ = None"

subsection \<open>Air conditioners, ventilation and floor heating\<close>

text \<open>
  The first slot whose object exists and has the data point; the handlers try the slots in
  a fixed order. The slot \<open>pSwitch\<close> is sent in the six bits of the APDU, the others in bytes
  behind it.
\<close>

definition slot_of_dp :: "(slot \<Rightarrow> grp_obj cptr) \<Rightarrow> u8 \<Rightarrow> slot list \<Rightarrow> slot option" where
  "slot_of_dp objs dp sls =
     List.find (\<lambda>s. case objs s of NULL \<Rightarrow> False | Ptr g \<Rightarrow> go_cloudPoint g = int (unat dp)) sls"

definition apdu :: "slot \<Rightarrow> u16 \<Rightarrow> bytes" where
  "apdu s v = (if s = pSwitch then [0, 0x80 OR (ucast v AND 0x3f)] else [0, 0x80] @ snd (readBlock v))"

definition objects_ctrl ::
  "nat \<Rightarrow> slot list \<Rightarrow> env \<Rightarrow> KnxWrite \<Rightarrow> knx_dev \<Rightarrow> int \<Rightarrow> elog \<Rightarrow> (flow \<times> knx_dev \<times> int \<times> elog) exec" where
  "objects_ctrl ty sls ev kw d ret lg =
     (if el_primaryType (kd_element d) \<noteq> ty then Some (Continue, d, ret, lg)
      else if kw_devId kw \<noteq> el_devId (kd_element d) then Some (Continue, d, ret, lg)
      else do {
        objs \<leftarrow> as_objects (kd_body d);
        (case kb_pIf (kd_base d) of
           NULL \<Rightarrow> Some (Continue, d, ret, lg)
         | Ptr pif \<Rightarrow>
             if if_control pif = NULL then Some (Continue, d, ret, lg)
             else
               (case slot_of_dp objs (dpid (kw_obj kw)) sls of
                  None \<Rightarrow> Some (Continue, d, ret, lg)
                | Some s \<Rightarrow>
                    (case objs s of
                       NULL \<Rightarrow> None
                     | Ptr g \<Rightarrow> do {
                         k \<leftarrow> call_control pif (kw_obj kw) (go_obj g);
                         let d = d\<lparr>kd_body := Objects (objs(s := Ptr (g\<lparr>go_obj := k\<rparr>)))\<rparr>;
                         gAddr \<leftarrow> readgaddr (go_addr g);
                         if gAddr = 0xff then Some (Continue, d, ret, lg)
                         else do {
                           let (ret, lg) =
                             (if ev_active ev \<and> el_attri (kd_element d) = DEVICE_ATTRI_ACTUATOR
                              then report_fresh ev (el_pPrimaryKey (kd_element d)) (kw_obj kw) lg
                              else (ret, lg));
                           (case group_send ev gAddr (apdu s (ko_value k)) lg of
                              (None, lg) \<Rightarrow> Some (Continue, d, ret, lg)
                            | (Some r, lg) \<Rightarrow> Some (if r = - 1 then Continue else Break, d, r, lg)) } }))) })"

definition Knx_AirconditionCtrl :: "env \<Rightarrow> KnxWrite cptr \<Rightarrow> dev_list \<Rightarrow> elog \<Rightarrow> handled" where
  "Knx_AirconditionCtrl ev p ds lg =
     (case p of NULL \<Rightarrow> Some (ds, - 1, lg)
      | Ptr kw \<Rightarrow> dev_loop (objects_ctrl (device_code KNX_DEVICE_AIRCONDITION) [pSwitch, pSpeed, pMode, pTemp] ev kw)
                    ds (- 1) lg)"

definition Knx_VentilationCtrl :: "env \<Rightarrow> KnxWrite cptr \<Rightarrow> dev_list \<Rightarrow> elog \<Rightarrow> handled" where
  "Knx_VentilationCtrl ev p ds lg =
     (case p of NULL \<Rightarrow> Some (ds, - 1, lg)
      | Ptr kw \<Rightarrow> dev_loop (objects_ctrl (device_code KNX_DEVICE_VENTILATION) [pSwitch, pSpeed] ev kw) ds (- 1) lg)"

definition Knx_FloorHeatingCtrl :: "env \<Rightarrow> KnxWrite cptr \<Rightarrow> dev_list \<Rightarrow> elog \<Rightarrow> handled" where
  "Knx_FloorHeatingCtrl ev p ds lg =
     (case p of NULL \<Rightarrow> Some (ds, - 1, lg)
      | Ptr kw \<Rightarrow> dev_loop (objects_ctrl (device_code KNX_DEVICE_FLOORHEATING) [pSwitch, pTemp] ev kw) ds (- 1) lg)"

subsection \<open>Panels\<close>

definition in_types :: "DeviceType \<Rightarrow> DeviceType \<Rightarrow> knx_dev \<Rightarrow> bool" where
  "in_types lo hi d \<longleftrightarrow>
     device_code lo \<le> el_primaryType (kd_element d) \<and> el_primaryType (kd_element d) \<le> device_code hi"

definition zero_dp :: ty_obj_dp where
  "zero_dp = \<lparr>dpid = 0, dp_type = 0, dp_raw = 0\<rparr>"

definition bool_raw :: "bool \<Rightarrow> u32" where "bool_raw b = (if b then 1 else 0)"

text \<open>The report of a point that is write-only; \<open>ret\<close> is what the heartbeat returns.\<close>

definition report_wo :: "env \<Rightarrow> string \<Rightarrow> KnxPoints \<Rightarrow> ty_obj_dp \<Rightarrow> int \<Rightarrow> elog \<Rightarrow> int \<times> elog" where
  "report_wo ev key p dp ret lg =
     (if ev_active ev \<and> kp_mode p = POINT_ATTR_WRITE_ONLY
      then hb_fresh ev key (snd (cloud_report ev key dp lg)) else (ret, lg))"

text \<open>A loop over the keys of a panel: \<open>bFound\<close> tells whether a key was sent.\<close>

fun panel_keys ::
  "env \<Rightarrow> string \<Rightarrow> ty_obj_dp \<Rightarrow> KnxPoints list \<Rightarrow> int \<Rightarrow> elog \<Rightarrow> (bool \<times> KnxPoints list \<times> int \<times> elog) exec" where
  "panel_keys ev key dp [] ret lg = Some (False, [], ret, lg)"
| "panel_keys ev key dp (k # ks) ret lg =
     (if ucast (kp_id k) \<noteq> (ucast (dpid dp) :: u32) then do {
        (b, ks, ret, lg) \<leftarrow> panel_keys ev key dp ks ret lg;
        Some (b, k # ks, ret, lg) }
      else do {
        let on = (dp_bool dp \<noteq> 0);
        let k = set_pv_b1 on k;
        gAddr \<leftarrow> (case kp_pCtrl k of NULL \<Rightarrow> None | Ptr a \<Rightarrow> readgaddr a);
        let (ret, lg) = report_wo ev key k
          \<lparr>dpid = ucast (kp_id k), dp_type = PROP_BOOL, dp_raw = bool_raw on\<rparr> ret lg;
        (case group_send ev gAddr [0, 0x80 OR (if on then 1 else 0)] lg of
           (Some r, lg) \<Rightarrow>
             if r \<noteq> - 1 then Some (True, k # ks, r, lg)
             else do {
               (b, ks, ret, lg) \<leftarrow> panel_keys ev key dp ks r lg;
               Some (b, k # ks, ret, lg) }
         | (None, lg) \<Rightarrow> do {
             (b, ks, ret, lg) \<leftarrow> panel_keys ev key dp ks ret lg;
             Some (b, k # ks, ret, lg) }) })"

definition Knx_PanelCtrl :: "env \<Rightarrow> KnxWrite cptr \<Rightarrow> dev_list \<Rightarrow> elog \<Rightarrow> handled" where
  "Knx_PanelCtrl ev p ds lg =
     (case p of NULL \<Rightarrow> Some (ds, - 1, lg)
      | Ptr kw \<Rightarrow> dev_loop (\<lambda>d ret lg.
          if \<not> in_types KNX_PANEL_ONE_KEY KNX_PANEL_EIGHT_KEY d then Some (Continue, d, ret, lg)
          else if kw_devId kw \<noteq> el_devId (kd_element d) then Some (Continue, d, ret, lg)
          else do {
            ks \<leftarrow> as_panel (kd_body d);
            (b, ks, ret, lg) \<leftarrow> panel_keys ev (el_pPrimaryKey (kd_element d)) (kw_obj kw) ks ret lg;
            Some (if b then Break else Continue, d\<lparr>kd_body := Panel ks\<rparr>, ret, lg) }) ds (- 1) lg)"

subsection \<open>Smart panels\<close>

fun mode_reports :: "env \<Rightarrow> string \<Rightarrow> KnxSmartPanelPoint list \<Rightarrow> int \<Rightarrow> elog \<Rightarrow> int \<times> elog" where
  "mode_reports ev key [] ret lg = (ret, lg)"
| "mode_reports ev key (c # chs) ret lg =
     (let (ret, lg) =
        (if ev_active ev
         then report_fresh ev key \<lparr>dpid = ucast (kp_id (sp_mode c)), dp_type = PROP_ENUM,
                dp_raw = ucast (pv_u8 (sp_mode c))\<rparr> lg
         else (ret, lg))
      in mode_reports ev key chs ret lg)"

definition Knx_SmartPanelModeReport :: "env \<Rightarrow> dev_list \<Rightarrow> elog \<Rightarrow> handled" where
  "Knx_SmartPanelModeReport ev ds lg =
     dev_loop (\<lambda>d ret lg.
       if \<not> in_types KNX_MISC_PANEL_ONE_KEY KNX_MISC_PANEL_FOUR_KEY d then Some (Continue, d, ret, lg)
       else do {
         chs \<leftarrow> as_smart (kd_body d);
         let (ret, lg) = mode_reports ev (el_pPrimaryKey (kd_element d)) chs ret lg;
         Some (Continue, d, ret, lg) }) ds (- 1) lg"

text \<open>
  \<open>strtol\<close> in base ten: white space, a sign and digits. The result is the number and whether
  \<open>errno\<close> is set because it leaves the 32 bits of \<open>long\<close>; \<open>None\<close> when there is no number.
\<close>

definition strtol :: "string \<Rightarrow> (int \<times> bool) option" where
  "strtol s =
     (case scan_num 10 (dropWhile is_space s) of
        None \<Rightarrow> None
      | Some (v, k) \<Rightarrow>
          if v < - (2 ^ 31) then Some (- (2 ^ 31), True)
          else if 2 ^ 31 \<le> v then Some (2 ^ 31 - 1, True)
          else Some (v, False))"

text \<open>
  A key of a smart panel is a switch or a scene, as its mode says. How a channel ends the
  loop over the channels: it was sent, or a mode was set and the function returns, or the
  key is not enabled and only the loop is left.
\<close>

datatype key_end = Next | Sent | Disabled | Returned

definition smart_send ::
  "env \<Rightarrow> u16 \<Rightarrow> bytes \<Rightarrow> KnxSmartPanelPoint \<Rightarrow> int \<Rightarrow> elog \<Rightarrow> key_end \<times> KnxSmartPanelPoint \<times> int \<times> elog" where
  "smart_send ev gAddr buf c ret lg =
     (case group_send ev gAddr buf lg of
        (None, lg) \<Rightarrow> (Next, c, ret, lg)
      | (Some r, lg) \<Rightarrow> (if r = - 1 then Next else Sent, c, r, lg))"

definition smart_key ::
  "env \<Rightarrow> string \<Rightarrow> KnxWrite \<Rightarrow> nat \<Rightarrow> KnxSmartPanelPoint \<Rightarrow> int \<Rightarrow> elog
   \<Rightarrow> (key_end \<times> KnxSmartPanelPoint \<times> int \<times> elog) exec" where
  "smart_key ev key kw i c ret lg =
     (let dp = kw_obj kw; hit = (\<lambda>p. ucast (kp_id p) = (ucast (dpid dp) :: u32)) in
      if hit (sp_key c) then
        if pv_u8 (sp_mode c) = 0 then do {
          let on = (dp_bool dp \<noteq> 0);
          let c = c\<lparr>sp_key := set_pv_b1 on (sp_key c)\<rparr>;
          gAddr \<leftarrow> (case kp_pCtrl (sp_key c) of NULL \<Rightarrow> None | Ptr a \<Rightarrow> readgaddr a);
          Some (smart_send ev gAddr [0, 0x80 OR (if on then 1 else 0)] c ret lg) }
        else Some (Disabled, c, ret, lg)
      else if hit (sp_scene c) then
        if pv_u8 (sp_mode c) = 1 then do {
          gAddr \<leftarrow> (case kp_pCtrl (sp_scene c) of NULL \<Rightarrow> None | Ptr a \<Rightarrow> readgaddr a);
          Some (smart_send ev gAddr ([0, 0x80] @ snd (readBlock (ucast (pv_u8 (sp_scene c))))) c ret lg) }
        else Some (Disabled, c, ret, lg)
      else if hit (sp_mode c) then do {
        let c = c\<lparr>sp_mode := set_pv_u8 (ucast (dp_raw dp)) (sp_mode c)\<rparr>;
        if length key < 13 then None
        else
          (case strtol (drop 13 key) of
             None \<Rightarrow> Some (Returned, c, ret, lg @ [Exit])
           | Some (nr, err) \<Rightarrow>
               if err then Some (Returned, c, ret, lg @ [Exit])
               else do {
                 let lg = lg @ [UpdateMode nr (Suc i) (if pv_u8 (sp_mode c) \<noteq> 0 then ''scene'' else ''switch'')];
                 let lg = snd (cloud_report ev (kw_pPrimaryKey kw)
                   \<lparr>dpid = dpid dp, dp_type = PROP_ENUM, dp_raw = dp_enum dp\<rparr> lg);
                 Some (Returned, c, 0, lg) }) }
      else Some (Next, c, ret, lg))"

fun smart_keys ::
  "env \<Rightarrow> string \<Rightarrow> KnxWrite \<Rightarrow> nat \<Rightarrow> KnxSmartPanelPoint list \<Rightarrow> int \<Rightarrow> elog
   \<Rightarrow> (key_end \<times> KnxSmartPanelPoint list \<times> int \<times> elog) exec" where
  "smart_keys ev key kw i [] ret lg = Some (Next, [], ret, lg)"
| "smart_keys ev key kw i (c # chs) ret lg = do {
     (e, c, ret, lg) \<leftarrow> smart_key ev key kw i c ret lg;
     if e = Next then do {
       (e, chs, ret, lg) \<leftarrow> smart_keys ev key kw (Suc i) chs ret lg;
       Some (e, c # chs, ret, lg) }
     else Some (e, c # chs, ret, lg) }"

definition Knx_SmartPanelCtrl :: "env \<Rightarrow> KnxWrite cptr \<Rightarrow> dev_list \<Rightarrow> elog \<Rightarrow> handled" where
  "Knx_SmartPanelCtrl ev p ds lg =
     (case p of NULL \<Rightarrow> Some (ds, - 1, lg)
      | Ptr kw \<Rightarrow> dev_loop (\<lambda>d ret lg.
          if \<not> in_types KNX_MISC_PANEL_ONE_KEY KNX_MISC_PANEL_FOUR_KEY d then Some (Continue, d, ret, lg)
          else if kw_devId kw \<noteq> el_devId (kd_element d) then Some (Continue, d, ret, lg)
          else do {
            chs \<leftarrow> as_smart (kd_body d);
            (e, chs, ret, lg) \<leftarrow> smart_keys ev (el_pPrimaryKey (kd_element d)) kw 0 chs ret lg;
            Some (if e = Sent \<or> e = Returned then Break else Continue, d\<lparr>kd_body := SmartPanel chs\<rparr>, ret, lg) })
          ds (- 1) lg)"

subsection \<open>Dimmers\<close>

text \<open>
  \<open>knxBuf\<close> and \<open>dataLen\<close> are set up once per device, before the loop over its channels. The
  brightness of the cloud is scaled to 0 to 255 in \<open>int\<close>.
\<close>

definition dimmer_scale :: "int \<Rightarrow> u16 \<Rightarrow> u8 exec" where
  "dimmer_scale v mx = do {
     x \<leftarrow> c_int (v * 255);
     if mx = 0 then None else Some (word_of_int (c_div x (int (unat mx)))) }"

definition dimmer_key ::
  "env \<Rightarrow> string \<Rightarrow> ty_obj_dp \<Rightarrow> KnxDimmerPoint \<Rightarrow> bytes \<Rightarrow> nat \<Rightarrow> int \<Rightarrow> elog
   \<Rightarrow> (key_end \<times> KnxDimmerPoint \<times> bytes \<times> nat \<times> int \<times> elog) exec" where
  "dimmer_key ev key dp c buf dataLen ret lg =
     (let hit = (\<lambda>p. ucast (kp_id p) = (ucast (dpid dp) :: u32));
          send = (\<lambda>c gAddr buf dataLen ret lg.
            (case group_send ev gAddr (take (dataLen + 2) buf) lg of
               (None, lg) \<Rightarrow> (Next, c, buf, dataLen, ret, lg)
             | (Some r, lg) \<Rightarrow> (if r = - 1 then Next else Sent, c, buf, dataLen, r, lg)))
      in
      if hit (dm_bright c) then do {
        v \<leftarrow> dimmer_scale (dp_value dp) (kp_max (dm_bright c));
        let c = c\<lparr>dm_bright := set_pv_u8 v (dm_bright c)\<rparr>;
        gAddr \<leftarrow> (case kp_pCtrl (dm_bright c) of NULL \<Rightarrow> None | Ptr a \<Rightarrow> readgaddr a);
        let blk = readBlock (ucast v);
        let buf = take 2 buf @ snd blk @ drop (2 + length (snd blk)) buf;
        let (ret, lg) = report_wo ev key (dm_bright c)
          \<lparr>dpid = ucast (kp_id (dm_bright c)), dp_type = PROP_VALUE, dp_raw = ucast v\<rparr> ret lg;
        Some (send c gAddr buf (nat (fst blk)) ret lg) }
      else if hit (dm_key c) then do {
        let on = (dp_bool dp \<noteq> 0);
        let c = c\<lparr>dm_key := set_pv_b1 on (dm_key c)\<rparr>;
        gAddr \<leftarrow> (case kp_pCtrl (dm_key c) of NULL \<Rightarrow> None | Ptr a \<Rightarrow> readgaddr a);
        let buf = buf[1 := buf ! 1 OR ((if on then 1 else 0) AND 0x3f)];
        let (ret, lg) = report_wo ev key (dm_key c)
          \<lparr>dpid = ucast (kp_id (dm_key c)), dp_type = PROP_BOOL, dp_raw = bool_raw on\<rparr> ret lg;
        Some (send c gAddr buf dataLen ret lg) }
      else Some (Next, c, buf, dataLen, ret, lg))"

fun dimmer_keys ::
  "env \<Rightarrow> string \<Rightarrow> ty_obj_dp \<Rightarrow> KnxDimmerPoint list \<Rightarrow> bytes \<Rightarrow> nat \<Rightarrow> int \<Rightarrow> elog
   \<Rightarrow> (bool \<times> KnxDimmerPoint list \<times> int \<times> elog) exec" where
  "dimmer_keys ev key dp [] buf dataLen ret lg = Some (False, [], ret, lg)"
| "dimmer_keys ev key dp (c # chs) buf dataLen ret lg = do {
     (e, c, buf, dataLen, ret, lg) \<leftarrow> dimmer_key ev key dp c buf dataLen ret lg;
     if e = Next then do {
       (b, chs, ret, lg) \<leftarrow> dimmer_keys ev key dp chs buf dataLen ret lg;
       Some (b, c # chs, ret, lg) }
     else Some (True, c # chs, ret, lg) }"

definition Knx_DimmerCtrl :: "env \<Rightarrow> KnxWrite cptr \<Rightarrow> dev_list \<Rightarrow> elog \<Rightarrow> handled" where
  "Knx_DimmerCtrl ev p ds lg =
     (case p of NULL \<Rightarrow> Some (ds, - 1, lg)
      | Ptr kw \<Rightarrow> dev_loop (\<lambda>d ret lg.
          if \<not> in_types KNX_DIMMER_ONE_KEY KNX_DIMMER_FOUR_KEY d then Some (Continue, d, ret, lg)
          else if kw_devId kw \<noteq> el_devId (kd_element d) then Some (Continue, d, ret, lg)
          else do {
            chs \<leftarrow> as_dimmer (kd_body d);
            (b, chs, ret, lg) \<leftarrow> dimmer_keys ev (el_pPrimaryKey (kd_element d)) (kw_obj kw) chs
              ([0, 0x80] @ replicate 8 0) 0 ret lg;
            Some (if b then Break else Continue, d\<lparr>kd_body := Dimmer chs\<rparr>, ret, lg) }) ds (- 1) lg)"

subsection \<open>Curtains\<close>

text \<open>
  The local array \<open>addr\<close> is written only when the data point is the one of the action:
  otherwise the code reads it uninitialised.
\<close>

definition curtain_action ::
  "u8 \<Rightarrow> u32 \<Rightarrow> KnxPoints cptr \<Rightarrow> (KnxPoints \<times> string) exec" where
  "curtain_action dp v pt =
     (case pt of NULL \<Rightarrow> None
      | Ptr p \<Rightarrow>
          if ucast (kp_id p) \<noteq> (ucast dp :: u32) then None
          else (case kp_pCtrl p of NULL \<Rightarrow> None | Ptr a \<Rightarrow> Some (set_pv_i32 v p, take 9 a)))"

definition curtain_ctrl ::
  "env \<Rightarrow> KnxWrite \<Rightarrow> knx_dev \<Rightarrow> int \<Rightarrow> elog \<Rightarrow> (flow \<times> knx_dev \<times> int \<times> elog) exec" where
  "curtain_ctrl ev kw d ret lg =
     (if el_primaryType (kd_element d) \<noteq> device_code KNX_DEVICE_CURTAIN then Some (Continue, d, ret, lg)
      else if kw_devId kw \<noteq> el_devId (kd_element d) then Some (Continue, d, ret, lg)
      else do {
        c \<leftarrow> as_curtain (kd_body d);
        let e = dp_enum (kw_obj kw);
        let dp = dpid (kw_obj kw);
        if e \<noteq> 0 \<and> e \<noteq> 1 \<and> e \<noteq> 2 then Some (Continue, d, ret, lg)
        else do {
          let v = (if e = 2 then 1 else 0);
          (p, addr) \<leftarrow> curtain_action dp v (if e = 0 then cu_pOpen c else if e = 2 then cu_pClose c else cu_pStop c);
          let c = (if e = 0 then c\<lparr>cu_pOpen := Ptr p\<rparr> else if e = 2 then c\<lparr>cu_pClose := Ptr p\<rparr>
                   else c\<lparr>cu_pStop := Ptr p\<rparr>);
          let d = d\<lparr>kd_body := Curtain c\<rparr>;
          gAddr \<leftarrow> readgaddr addr;
          (case group_send ev gAddr [0, 0x80 OR (ucast v AND 0x3f)] lg of
             (None, lg) \<Rightarrow> Some (Continue, d, ret, lg)
           | (Some r, lg) \<Rightarrow> Some (Continue, d, r, lg)) } })"

definition Knx_CurtainCtrl :: "env \<Rightarrow> KnxWrite cptr \<Rightarrow> dev_list \<Rightarrow> elog \<Rightarrow> handled" where
  "Knx_CurtainCtrl ev p ds lg =
     (case p of NULL \<Rightarrow> Some (ds, - 1, lg) | Ptr kw \<Rightarrow> dev_loop (curtain_ctrl ev kw) ds (- 1) lg)"

subsection \<open>The write thread\<close>

text \<open>
  What \<open>KNX_DevWriteEntry\<close> does with one request: the handlers in turn, until one returns
  \<open>0\<close>. After \<open>exit\<close> nothing runs.
\<close>

fun write_chain ::
  "(env \<Rightarrow> KnxWrite cptr \<Rightarrow> dev_list \<Rightarrow> elog \<Rightarrow> handled) list \<Rightarrow> env \<Rightarrow> KnxWrite \<Rightarrow> dev_list \<Rightarrow> elog
   \<Rightarrow> (dev_list \<times> elog) exec" where
  "write_chain [] ev kw ds lg = Some (ds, lg)"
| "write_chain (h # hs) ev kw ds lg = do {
     (ds, ret, lg) \<leftarrow> h ev (Ptr kw) ds lg;
     if ret = 0 \<or> Exit \<in> set lg then Some (ds, lg) else write_chain hs ev kw ds lg }"

definition write_handlers :: "(env \<Rightarrow> KnxWrite cptr \<Rightarrow> dev_list \<Rightarrow> elog \<Rightarrow> handled) list" where
  "write_handlers = [Knx_AirconditionCtrl, Knx_VentilationCtrl, Knx_FloorHeatingCtrl, Knx_PanelCtrl,
     Knx_SmartPanelCtrl, Knx_DimmerCtrl, Knx_CurtainCtrl]"

definition KNX_DevWriteEntry_step :: "env \<Rightarrow> KnxWrite \<Rightarrow> dev_list \<Rightarrow> elog \<Rightarrow> (dev_list \<times> elog) exec" where
  "KNX_DevWriteEntry_step ev kw ds lg = write_chain write_handlers ev kw ds lg"

text \<open>
  The request that \<open>KnxGroupWrite\<close> puts into the write queue. The device number is read
  from the twelfth character of the key on; a shorter key is read beyond its end.
\<close>

definition KnxGroupWrite_data :: "string cptr \<Rightarrow> ty_obj_dp cptr \<Rightarrow> bool \<Rightarrow> KnxWrite option exec" where
  "KnxGroupWrite_data pDevId pObj al =
     (case (pDevId, pObj) of
        (Ptr key, Ptr dp) \<Rightarrow>
          if \<not> al then Some None
          else if length key < 12 then None
          else Some (Some \<lparr>kw_pPrimaryKey = take 32 key,
                 kw_devId = word_of_int (case strtol (drop 12 key) of None \<Rightarrow> 0 | Some (v, _) \<Rightarrow> v),
                 kw_obj = dp\<rparr>)
      | _ \<Rightarrow> Some None)"

definition KnxGroupWrite ::
  "bool \<Rightarrow> bool \<times> bool \<Rightarrow> nat cptr \<Rightarrow> string cptr \<Rightarrow> ty_obj_dp cptr \<Rightarrow> KnxWrite queue cptr
   \<Rightarrow> (int \<times> KnxWrite queue cptr) outcome exec" where
  "KnxGroupWrite al lk mal pDevId pObj q = do {
     d \<leftarrow> KnxGroupWrite_data pDevId pObj al;
     (case d of
        None \<Rightarrow> Some (Returns (- 1, q))
      | Some kw \<Rightarrow> do {
          r \<leftarrow> queue_put lk mal kw q;
          Some (case r of
                  Blocked \<Rightarrow> Blocked
                | Returns (ret, q) \<Rightarrow> Returns (if ret \<noteq> 0 then - 1 else 0, q)) }) }"

subsection \<open>What holds of every log\<close>

text \<open>
  A relation between the log before and after a call that every single effect respects is
  respected by all handlers. It is stated once for all such relations.
\<close>

locale handler_log =
  fixes ev :: env
    and R :: "elog \<Rightarrow> elog \<Rightarrow> bool"
  assumes R_refl: "R lg lg"
    and R_trans: "R a b \<Longrightarrow> R b c \<Longrightarrow> R a c"
    and send_law: "group_send ev g buf lg = (r, lg') \<Longrightarrow> R lg lg'"
    and cloud_law: "R lg (lg @ [CloudReport k dp])"
    and hb_law: "R lg (lg @ [HbFresh k])"
    and mode_law: "R lg (lg @ [UpdateMode i n s])"
    and exit_law: "R lg (lg @ [Exit])"
    and mbus_law: "R lg (lg @ [MbusWrite k dp])"
begin

lemma hb_R: "hb_fresh ev k lg = (r, lg') \<Longrightarrow> R lg lg'"
  using hb_law by (auto simp: hb_fresh_def Let_def)

lemma cloud_R: "cloud_report ev k dp lg = (r, lg') \<Longrightarrow> R lg lg'"
  using cloud_law by (auto simp: cloud_report_def Let_def)

lemma cloud_hb_R: "R lg (lg @ [CloudReport k dp, HbFresh k'])"
  using R_trans [OF cloud_law hb_law, of lg k dp k'] by simp

lemma fresh_R: "report_fresh ev k dp lg = (r, lg') \<Longrightarrow> R lg lg'"
  using cloud_hb_R by (auto simp: report_fresh_def cloud_report_def hb_fresh_def Let_def)

lemma wo_R: "report_wo ev k p dp ret lg = (r, lg') \<Longrightarrow> R lg lg'"
  using R_refl cloud_hb_R
  by (auto simp: report_wo_def cloud_report_def hb_fresh_def Let_def split: if_splits)

lemmas effect_R = R_refl send_law hb_R cloud_R fresh_R wo_R mode_law exit_law mbus_law

lemma dev_loop_R:
  assumes "\<And>d ret lg fl d' ret' lg'. body d ret lg = Some (fl, d', ret', lg') \<Longrightarrow> R lg lg'"
  shows "dev_loop body ds ret lg = Some (ds', ret', lg') \<Longrightarrow> R lg lg'"
proof (induction ds arbitrary: ret lg ds')
  case Nil
  then show ?case by (simp add: R_refl)
next
  case (Cons p ds)
  show ?case
  proof (cases p)
    case NULL
    with Cons show ?thesis by (auto split: bind_splits)
  next
    case (Ptr d)
    with Cons.prems obtain fl d1 r1 lg1 where b: "body d ret lg = Some (fl, d1, r1, lg1)"
      by (auto split: bind_splits)
    with Cons.prems Ptr have "lg' = lg1 \<or> (\<exists>ds1. dev_loop body ds r1 lg1 = Some (ds1, ret', lg'))"
      by (auto split: bind_splits if_splits)
    with Cons.IH assms [OF b] R_trans show ?thesis by blast
  qed
qed

lemma objects_ctrl_R: "objects_ctrl ty sls ev kw d ret lg = Some (fl, d', ret', lg') \<Longrightarrow> R lg lg'"
  by (auto simp: objects_ctrl_def Let_def dest!: send_law fresh_R intro: R_refl R_trans
      split: if_splits cptr.splits option.splits prod.splits bind_splits)

lemma panel_keys_R: "panel_keys ev key dp ks ret lg = Some (b, ks', ret', lg') \<Longrightarrow> R lg lg'"
proof (induction ks arbitrary: ret lg b ks')
  case (Cons k ks)
  from Cons.prems show ?case
    by (auto simp: Let_def dest!: Cons.IH send_law wo_R intro: R_refl R_trans
        split: if_splits cptr.splits option.splits prod.splits bind_splits)
qed (simp add: R_refl)

lemma smart_send_R: "smart_send ev g buf c ret lg = (e, c', ret', lg') \<Longrightarrow> R lg lg'"
  by (auto simp: smart_send_def dest!: send_law intro: R_refl split: prod.splits option.splits)

lemma mode_report_R: "R lg (lg @ [UpdateMode i n s, CloudReport k dp])"
  using R_trans [OF mode_law cloud_law, of lg i n s k dp] by simp

lemma smart_key_R: "smart_key ev key kw i c ret lg = Some (e, c', ret', lg') \<Longrightarrow> R lg lg'"
  by (auto simp: smart_key_def cloud_report_def Let_def dest!: smart_send_R intro: R_refl exit_law mode_report_R
      split: if_splits cptr.splits option.splits prod.splits bind_splits)

lemma smart_keys_R: "smart_keys ev key kw i chs ret lg = Some (e, chs', ret', lg') \<Longrightarrow> R lg lg'"
proof (induction chs arbitrary: i ret lg e chs')
  case (Cons c chs)
  from Cons.prems show ?case
    by (auto dest!: Cons.IH smart_key_R intro: R_trans split: if_splits bind_splits)
qed (simp add: R_refl)

lemma mode_reports_R: "mode_reports ev key chs ret lg = (ret', lg') \<Longrightarrow> R lg lg'"
proof (induction chs arbitrary: ret lg)
  case (Cons c chs)
  from Cons.prems show ?case
    by (auto simp: Let_def dest!: Cons.IH fresh_R intro: R_trans split: if_splits prod.splits)
qed (simp add: R_refl)

lemma dimmer_key_R:
  "dimmer_key ev key dp c buf n ret lg = Some (e, c', buf', n', ret', lg') \<Longrightarrow> R lg lg'"
  by (auto simp: dimmer_key_def Let_def dest!: send_law wo_R intro: R_refl R_trans
      split: if_splits cptr.splits option.splits prod.splits bind_splits)

lemma dimmer_keys_R: "dimmer_keys ev key dp chs buf n ret lg = Some (b, chs', ret', lg') \<Longrightarrow> R lg lg'"
proof (induction chs arbitrary: buf n ret lg b chs')
  case (Cons c chs)
  from Cons.prems show ?case
    by (auto dest!: Cons.IH dimmer_key_R intro: R_trans split: if_splits bind_splits)
qed (simp add: R_refl)

lemma curtain_ctrl_R: "curtain_ctrl ev kw d ret lg = Some (fl, d', ret', lg') \<Longrightarrow> R lg lg'"
  by (auto simp: curtain_ctrl_def Let_def dest!: send_law intro: R_refl
      split: if_splits cptr.splits option.splits prod.splits bind_splits)

lemma write_handler_R:
  assumes "h \<in> set write_handlers" and "h ev p ds lg = Some (ds', ret, lg')"
  shows "R lg lg'"
  using assms
  by (auto simp: write_handlers_def Knx_AirconditionCtrl_def Knx_VentilationCtrl_def Knx_FloorHeatingCtrl_def
      Knx_PanelCtrl_def Knx_SmartPanelCtrl_def Knx_DimmerCtrl_def Knx_CurtainCtrl_def R_refl
      dest!: dev_loop_R [rotated] objects_ctrl_R panel_keys_R smart_keys_R dimmer_keys_R curtain_ctrl_R
      split: cptr.splits if_splits bind_splits)

lemma write_chain_R:
  "set hs \<subseteq> set write_handlers \<Longrightarrow> write_chain hs ev kw ds lg = Some (ds', lg') \<Longrightarrow> R lg lg'"
proof (induction hs arbitrary: ds lg)
  case (Cons h hs)
  then obtain ds1 r1 lg1 where h: "h ev (Ptr kw) ds lg = Some (ds1, r1, lg1)" by (auto split: bind_splits)
  with Cons.prems have "lg' = lg1 \<or> write_chain hs ev kw ds1 lg1 = Some (ds', lg')"
    by (auto split: if_splits)
  moreover have "R lg lg1" using write_handler_R [of h "Ptr kw" ds lg ds1 r1 lg1] h Cons.prems(1) by simp
  ultimately show ?case using Cons.IH Cons.prems(1) R_trans by auto
qed (simp add: R_refl)

lemma write_step_R: "KNX_DevWriteEntry_step ev kw ds lg = Some (ds', lg') \<Longrightarrow> R lg lg'"
  unfolding KNX_DevWriteEntry_step_def by (rule write_chain_R [OF subset_refl])

end

text \<open>The connections to the bus daemon that are open after the effects of a log.\<close>

fun conn_change :: "env \<Rightarrow> elog \<Rightarrow> effect \<Rightarrow> int" where
  "conn_change ev lg EibSocket = (if ev_socket ev lg then 1 else 0)"
| "conn_change ev lg EibClose = - 1"
| "conn_change ev lg _ = 0"

fun conns_from :: "env \<Rightarrow> elog \<Rightarrow> elog \<Rightarrow> int" where
  "conns_from ev pre [] = 0"
| "conns_from ev pre (e # es) = conn_change ev (pre @ [e]) e + conns_from ev (pre @ [e]) es"

definition conns :: "env \<Rightarrow> elog \<Rightarrow> int" where
  "conns ev lg = conns_from ev [] lg"

lemma conns_from_append: "conns_from ev pre (xs @ ys) = conns_from ev pre xs + conns_from ev (pre @ xs) ys"
  by (induction xs arbitrary: pre) auto

lemma conns_append [simp]: "conns ev (lg @ es) = conns ev lg + conns_from ev lg es"
  by (simp add: conns_def conns_from_append)

lemma group_send_conns: "group_send ev g buf lg = (r, lg') \<Longrightarrow> conns ev lg' = conns ev lg"
  by (auto simp: group_send_def Let_def split: if_splits)

interpretation cb: handler_log ev "\<lambda>lg lg'. conns ev lg' = conns ev lg" for ev
  by unfold_locales (auto dest: group_send_conns)

interpretation grow: handler_log ev "\<lambda>lg lg'. \<exists>x. lg' = lg @ x" for ev
  by unfold_locales (auto simp: group_send_def Let_def split: if_splits)

subsection \<open>Control of a device\<close>

lemma dev_loop_skip:
  assumes "\<And>d. Ptr d \<in> set pre \<Longrightarrow> body d ret lg = Some (Continue, d, ret, lg)"
  shows "dev_loop body (pre @ ds) ret lg = do {
    (ds, ret, lg) \<leftarrow> dev_loop body ds ret lg;
    Some (pre @ ds, ret, lg) }"
  using assms
proof (induction pre)
  case (Cons p pre)
  then show ?case by (cases p) (auto split: bind_splits)
qed (auto split: bind_splits)

definition objects_handlers :: "((env \<Rightarrow> KnxWrite cptr \<Rightarrow> dev_list \<Rightarrow> elog \<Rightarrow> handled) \<times> nat \<times> slot list) list" where
  "objects_handlers =
     [(Knx_AirconditionCtrl, device_code KNX_DEVICE_AIRCONDITION, [pSwitch, pSpeed, pMode, pTemp]),
      (Knx_VentilationCtrl, device_code KNX_DEVICE_VENTILATION, [pSwitch, pSpeed]),
      (Knx_FloorHeatingCtrl, device_code KNX_DEVICE_FLOORHEATING, [pSwitch, pTemp])]"

text \<open>A device that a handler passes over, and an environment in which sending works.\<close>

definition passed_over :: "nat \<Rightarrow> KnxWrite \<Rightarrow> knx_dev cptr \<Rightarrow> bool" where
  "passed_over ty kw p =
     (case p of NULL \<Rightarrow> True
      | Ptr d \<Rightarrow> el_primaryType (kd_element d) \<noteq> ty \<or> el_devId (kd_element d) \<noteq> kw_devId kw)"

definition bus_up :: "env \<Rightarrow> bool" where
  "bus_up ev \<longleftrightarrow> (\<forall>lg. ev_socket ev lg \<and> ev_open ev lg \<noteq> - 1 \<and> ev_send ev lg \<noteq> - 1)"

lemma group_send_up:
  "bus_up ev \<Longrightarrow> group_send ev g buf lg =
     (Some (ev_send ev (lg @ [EibSocket, EibOpen g, EibSend buf])), lg @ [EibSocket, EibOpen g, EibSend buf, EibClose])"
  by (simp add: group_send_def bus_up_def Let_def)

lemma report_fresh_snd: "snd (report_fresh ev key dp lg) = lg @ [CloudReport key dp, HbFresh key]"
  by (simp add: report_fresh_def cloud_report_def hb_fresh_def Let_def)

lemma objects_ctrl_hit:
  assumes "el_primaryType (kd_element d) = ty" and "el_devId (kd_element d) = kw_devId kw"
    and "kd_body d = Objects objs" and "kb_pIf (kd_base d) = Ptr pif" and "if_control pif \<noteq> NULL"
    and "slot_of_dp objs (dpid (kw_obj kw)) sls = Some s" and "objs s = Ptr g"
    and "call_control pif (kw_obj kw) (go_obj g) = Some k"
    and "readgaddr (go_addr g) = Some ga" and "ga \<noteq> 0xff" and "bus_up ev"
  shows "\<exists>r. r \<noteq> - 1 \<and> objects_ctrl ty sls ev kw d ret lg =
    Some (Break, d\<lparr>kd_body := Objects (objs(s := Ptr (g\<lparr>go_obj := k\<rparr>)))\<rparr>, r,
      lg @ (if ev_active ev \<and> el_attri (kd_element d) = DEVICE_ATTRI_ACTUATOR
            then [CloudReport (el_pPrimaryKey (kd_element d)) (kw_obj kw), HbFresh (el_pPrimaryKey (kd_element d))]
            else [])
         @ [EibSocket, EibOpen ga, EibSend (apdu s (ko_value k)), EibClose])"
proof -
  let ?e = "kd_element d"
  have up: "ev_send ev l \<noteq> - 1" for l using assms(11) by (simp add: bus_up_def)
  obtain r where f: "report_fresh ev (el_pPrimaryKey ?e) (kw_obj kw) lg
      = (r, lg @ [CloudReport (el_pPrimaryKey ?e) (kw_obj kw), HbFresh (el_pPrimaryKey ?e)])"
    using report_fresh_snd by (metis prod.collapse)
  show ?thesis
    using assms up by (auto simp: objects_ctrl_def f group_send_up Let_def)
qed

lemma passed_over_ctrl:
  assumes "\<forall>p \<in> set pre. passed_over ty kw p" and "Ptr d \<in> set pre"
  shows "objects_ctrl ty sls ev kw d ret lg = Some (Continue, d, ret, lg)"
  using assms by (force simp: objects_ctrl_def passed_over_def)

text \<open>
  Claim C7. A request for an air conditioner, a ventilation or a floor heating reaches the bus:
  the device it names is the first of its type and number in the list, its plugin translates
  the data point, and exactly one telegram with that value goes to the group address of the
  object, on a connection that is closed again; an actuator is also reported to the cloud.
  Only the object changes. This holds for every group but 0/0/255, whose address the handlers
  use to mark that no object was found.
\<close>

theorem knx_request_sent:
  assumes "(h, ty, sls) \<in> set objects_handlers" and "\<forall>p \<in> set pre. passed_over ty kw p"
    and "el_primaryType (kd_element d) = ty" and "el_devId (kd_element d) = kw_devId kw"
    and "kd_body d = Objects objs" and "kb_pIf (kd_base d) = Ptr pif" and "if_control pif \<noteq> NULL"
    and "slot_of_dp objs (dpid (kw_obj kw)) sls = Some s" and "objs s = Ptr g"
    and "call_control pif (kw_obj kw) (go_obj g) = Some k"
    and "go_addr g = group_str a b c" and "a \<le> 31" and "b \<le> 7" and "c \<le> 255"
    and "(a, b, c) \<noteq> (0, 0, 255)" and "bus_up ev"
  shows "\<exists>r. r \<noteq> - 1 \<and> h ev (Ptr kw) (pre @ Ptr d # ds) lg =
    Some (pre @ Ptr (d\<lparr>kd_body := Objects (objs(s := Ptr (g\<lparr>go_obj := k\<rparr>)))\<rparr>) # ds, r,
      lg @ (if ev_active ev \<and> el_attri (kd_element d) = DEVICE_ATTRI_ACTUATOR
            then [CloudReport (el_pPrimaryKey (kd_element d)) (kw_obj kw), HbFresh (el_pPrimaryKey (kd_element d))]
            else [])
         @ [EibSocket, EibOpen (group_word a b c), EibSend (apdu s (ko_value k)), EibClose])"
proof -
  have ga: "readgaddr (go_addr g) = Some (group_word a b c)"
    using assms(11-14) readgaddr_group by simp
  have "group_word a b c \<noteq> 0xff"
    using group_word_parts [OF assms(12-14)] assms(15) by auto
  note hit = objects_ctrl_hit [OF assms(3-10) ga this assms(16), of "- 1" lg]
  have h: "h ev (Ptr kw) l lg = dev_loop (objects_ctrl ty sls ev kw) l (- 1) lg" for l
    using assms(1) by (auto simp: objects_handlers_def Knx_AirconditionCtrl_def Knx_VentilationCtrl_def
        Knx_FloorHeatingCtrl_def)
  show ?thesis
    using hit dev_loop_skip [where body = "objects_ctrl ty sls ev kw" and pre = pre and ret = "- 1" and lg = lg]
      passed_over_ctrl [OF assms(2)]
    unfolding h by fastforce
qed

text \<open>An air conditioner with the STEC plugin, a bus that works and a cloud that is connected.\<close>

definition stec_if :: KnxIf where
  "stec_if = \<lparr>if_control = Ptr STEC_control, if_report = Ptr (\<lambda>k dp. Some (STEC_report k dp))\<rparr>"

definition ex_obj :: "PointFeature \<Rightarrow> int \<Rightarrow> string \<Rightarrow> grp_obj cptr" where
  "ex_obj f dp addr = Ptr \<lparr>go_obj = \<lparr>ko_localPoint = feature_code f, ko_value = 0\<rparr>, go_cloudPoint = dp,
     go_addr = addr, go_timestamp = 0\<rparr>"

definition ex_slots :: "slot \<Rightarrow> grp_obj cptr" where
  "ex_slots = (\<lambda>_. NULL)(pSwitch := ex_obj ACD_SWITCH 1 (group_str 1 0 1),
     pMode := ex_obj ACD_MODE 3 (group_str 1 0 2), pModeStatus := ex_obj ACD_MODE_STATUS 3 (group_str 1 1 2))"

definition ex_acd :: knx_dev where
  "ex_acd = \<lparr>kd_base = \<lparr>kb_pIf = Ptr stec_if, kb_element = \<lparr>el_szName = ''KnxAcd'', el_pPrimaryKey = ''0123456789ab7'',
       el_devId = 7, el_pProductId = ''p7'', el_pForeignKey = NULL,
       el_primaryType = device_code KNX_DEVICE_AIRCONDITION, el_pvForeignKey = NULL, el_bMaster = True,
       el_attri = DEVICE_ATTRI_ACTUATOR\<rparr>, kb_bOnlineCheck = True, kb_hbIgnore = 0\<rparr>,
     kd_body = Objects ex_slots\<rparr>"

definition ex_env :: env where
  "ex_env = \<lparr>ev_active = True, ev_registered = (\<lambda>_. True), ev_now = 5, ev_cloud = (\<lambda>_. 0), ev_hb = (\<lambda>_. 0),
     ev_socket = (\<lambda>_. True), ev_open = (\<lambda>_. 0), ev_send = (\<lambda>_. 2), ev_mbus = (\<lambda>_. 0), ev_seropen = (\<lambda>_. 0),
     ev_bind = (\<lambda>_. 0)\<rparr>"

definition ex_write :: KnxWrite where
  "ex_write = \<lparr>kw_pPrimaryKey = ''0123456789ab7'', kw_devId = 7, kw_obj = \<lparr>dpid = 3, dp_type = PROP_ENUM, dp_raw = 2\<rparr>\<rparr>"

theorem knx_request_sent_witness:
  "\<exists>r ds. r \<noteq> - 1 \<and> Knx_AirconditionCtrl ex_env (Ptr ex_write) [NULL, Ptr ex_acd] [] =
    Some (ds, r, [CloudReport ''0123456789ab7'' (kw_obj ex_write), HbFresh ''0123456789ab7'',
      EibSocket, EibOpen (group_word 1 0 2), EibSend [0, 0x80, 4], EibClose])"
  using knx_request_sent [of Knx_AirconditionCtrl "device_code KNX_DEVICE_AIRCONDITION"
      "[pSwitch, pSpeed, pMode, pTemp]" "[NULL]" ex_write ex_acd ex_slots stec_if pMode
      "\<lparr>go_obj = \<lparr>ko_localPoint = feature_code ACD_MODE, ko_value = 0\<rparr>, go_cloudPoint = 3,
        go_addr = group_str 1 0 2, go_timestamp = 0\<rparr>"
      "\<lparr>ko_localPoint = feature_code ACD_MODE, ko_value = 4\<rparr>" 1 0 2 ex_env "[]" "[]"]
  by (auto simp: objects_handlers_def passed_over_def ex_acd_def ex_write_def ex_slots_def ex_obj_def stec_if_def
      slot_of_dp_def call_control_def STEC_control_def acd_control_def put_value_def STEC_mode_def dp_enum_def
      bus_up_def ex_env_def apdu_def readBlock_def)

end
