(* ===== verification/Knx_Reports.thy ===== *)
theory Knx_Reports
  imports Knx_Devices Dl_List
begin

text \<open>
  From the KNX bus to the cloud and to the Modbus side: the handlers \<open>Knx_AcdReport\<close> to
  \<open>Knx_CurtainReport\<close> of \<open>source/knxHandle.c\<close>, which the thread \<open>KNX_DevMonitorEntry\<close> calls for
  every telegram of the monitor queue; the heartbeat requests, the watchdog of the threads and
  the initialisation.

  The conventions are those of the theory of the control handlers. \<open>ModbusDevWrite\<close> is an effect
  here; the theory of the Modbus devices says what it does.
\<close>

subsection \<open>Air conditioners, ventilation and floor heating\<close>

text \<open>
  A rule for a status object: whether a telegram for its group sets the time of the object
  and the value of the data point, and whether the point is read-only, so that a controller
  passes it to the cloud instead of the Modbus device.
\<close>

record rule =
  ru_slot :: slot
  ru_ts :: bool
  ru_val :: bool
  ru_flag :: bool

abbreviation mk_rule :: "slot \<Rightarrow> bool \<Rightarrow> bool \<Rightarrow> bool \<Rightarrow> rule" where
  "mk_rule s t v f \<equiv> \<lparr>ru_slot = s, ru_ts = t, ru_val = v, ru_flag = f\<rparr>"

definition acd_rules :: "rule list" where
  "acd_rules = [mk_rule pSwitchStatus True True False, mk_rule pSpeedStatus True True False,
     mk_rule pModeStatus True True False, mk_rule pTempStatus True True False,
     mk_rule pEnvTemp True True True, mk_rule pErrorCode False False True]"

definition vent_rules :: "rule list" where
  "vent_rules = [mk_rule pSwitchStatus True True False, mk_rule pSpeedStatus True True False,
     mk_rule pErrorCode False False True, mk_rule pEnvTemp False True True]"

definition heat_rules :: "rule list" where
  "heat_rules = [mk_rule pSwitchStatus True False False, mk_rule pTempStatus True False False,
     mk_rule pEnvTemp False False False, mk_rule pValve False False False,
     mk_rule pErrorCode False False False]"

definition same_group :: "string \<Rightarrow> KnxData \<Rightarrow> bool exec" where
  "same_group addr t = do {
     r \<leftarrow> Knx_CompareGroup (Ptr addr) (Ptr (kd_groupAddr t));
     Some (r = 0) }"

fun find_rule :: "(slot \<Rightarrow> grp_obj cptr) \<Rightarrow> KnxData \<Rightarrow> rule list \<Rightarrow> (rule \<times> grp_obj) option exec" where
  "find_rule objs t [] = Some None"
| "find_rule objs t (r # rs) =
     (case objs (ru_slot r) of
        NULL \<Rightarrow> find_rule objs t rs
      | Ptr g \<Rightarrow> do {
          b \<leftarrow> same_group (go_addr g) t;
          if b then Some (Some (r, g)) else find_rule objs t rs })"

definition take_value :: "env \<Rightarrow> rule \<Rightarrow> KnxData \<Rightarrow> grp_obj \<Rightarrow> grp_obj" where
  "take_value ev r t g =
     g\<lparr>go_obj := (go_obj g)\<lparr>ko_value := kd_value t\<rparr>,
       go_timestamp := (if ru_ts r then ev_now ev else go_timestamp g)\<rparr>"

definition start_dp :: "rule \<Rightarrow> KnxData \<Rightarrow> grp_obj \<Rightarrow> ty_obj_dp" where
  "start_dp r t g =
     zero_dp\<lparr>dpid := word_of_int (go_cloudPoint g), dp_raw := (if ru_val r then ucast (kd_value t) else 0)\<rparr>"

text \<open>What becomes of the data point of an air conditioner or a ventilation.\<close>

definition pass_on ::
  "env \<Rightarrow> bool \<Rightarrow> DeviceElement \<Rightarrow> bool \<Rightarrow> ty_obj_dp \<Rightarrow> int \<Rightarrow> elog \<Rightarrow> (int \<times> elog) exec" where
  "pass_on ev keepret el flag dp ret lg =
     (if el_bMaster el then
        Some (if ev_active ev then report_fresh ev (el_pPrimaryKey el) dp lg else (ret, lg))
      else
        (case el_pvForeignKey el of
           NULL \<Rightarrow> None
         | Ptr fk \<Rightarrow>
             if \<not> flag then
               (let (r, lg) = mbus_write ev fk dp lg in Some (if keepret then ret else r, lg))
             else if ev_active ev \<and> ev_registered ev fk then
               (let (r, lg) = cloud_report ev fk dp lg in Some (if r \<noteq> 0 then - 1 else 0, lg))
             else Some (ret, lg)))"

definition objects_report ::
  "nat \<Rightarrow> flow \<Rightarrow> bool \<Rightarrow> rule list \<Rightarrow> env \<Rightarrow> KnxData \<Rightarrow> knx_dev \<Rightarrow> int \<Rightarrow> elog
   \<Rightarrow> (flow \<times> knx_dev \<times> int \<times> elog) exec" where
  "objects_report ty unreg keepret rules ev t d ret lg =
     (let el = kd_element d in
      if el_primaryType el \<noteq> ty then Some (Continue, d, ret, lg)
      else if el_bMaster el \<and> \<not> ev_registered ev (el_pPrimaryKey el) then Some (unreg, d, ret, lg)
      else do {
        objs \<leftarrow> as_objects (kd_body d);
        f \<leftarrow> find_rule objs t rules;
        (case f of
           None \<Rightarrow> Some (Continue, d, ret, lg)
         | Some (r, g) \<Rightarrow> do {
             let g' = take_value ev r t g;
             let d = d\<lparr>kd_body := Objects (objs(ru_slot r := Ptr g'))\<rparr>;
             (case kb_pIf (kd_base d) of
                NULL \<Rightarrow> Some (Continue, d, ret, lg)
              | Ptr pif \<Rightarrow>
                  if if_report pif = NULL then Some (Continue, d, ret, lg)
                  else do {
                    dp \<leftarrow> call_report pif (go_obj g') (start_dp r t g);
                    (ret, lg) \<leftarrow> pass_on ev keepret el (ru_flag r) dp ret lg;
                    Some (Continue, d, ret, lg) }) }) })"

definition Knx_AcdReport :: "env \<Rightarrow> KnxData cptr \<Rightarrow> dev_list \<Rightarrow> elog \<Rightarrow> handled" where
  "Knx_AcdReport ev p ds lg =
     (case p of NULL \<Rightarrow> Some (ds, - 1, lg)
      | Ptr t \<Rightarrow> dev_loop (objects_report (device_code KNX_DEVICE_AIRCONDITION) Break False acd_rules ev t) ds (- 1) lg)"

definition Knx_VentReport :: "env \<Rightarrow> KnxData cptr \<Rightarrow> dev_list \<Rightarrow> elog \<Rightarrow> handled" where
  "Knx_VentReport ev p ds lg =
     (case p of NULL \<Rightarrow> Some (ds, - 1, lg)
      | Ptr t \<Rightarrow> dev_loop (objects_report (device_code KNX_DEVICE_VENTILATION) Continue True vent_rules ev t) ds (- 1) lg)"

definition heat_dev_report ::
  "env \<Rightarrow> KnxData \<Rightarrow> knx_dev \<Rightarrow> int \<Rightarrow> elog \<Rightarrow> (flow \<times> knx_dev \<times> int \<times> elog) exec" where
  "heat_dev_report ev t d ret lg =
     (let el = kd_element d in
      if el_primaryType el \<noteq> device_code KNX_DEVICE_FLOORHEATING then Some (Continue, d, ret, lg)
      else if el_bMaster el \<and> \<not> ev_registered ev (el_pPrimaryKey el) then Some (Break, d, ret, lg)
      else if kd_bRejected t \<and> el_attri el = DEVICE_ATTRI_CONTROLLER then Some (Continue, d, ret, lg)
      else do {
        objs \<leftarrow> as_objects (kd_body d);
        f \<leftarrow> find_rule objs t heat_rules;
        (case f of
           None \<Rightarrow> Some (Continue, d, ret, lg)
         | Some (r, g) \<Rightarrow>
             (case kb_pIf (kd_base d) of
                NULL \<Rightarrow> None
              | Ptr pif \<Rightarrow> do {
                  let g' = take_value ev r t g;
                  let d = d\<lparr>kd_body := Objects (objs(ru_slot r := Ptr g'))\<rparr>;
                  dp \<leftarrow> call_report pif (go_obj g') (start_dp r t g);
                  let (ret, lg) = (if el_bMaster el \<and> ev_active ev
                    then report_fresh ev (el_pPrimaryKey el) dp lg else (ret, lg));
                  Some (Continue, d, ret, lg) })) })"

definition Knx_HeatReport :: "env \<Rightarrow> KnxData cptr \<Rightarrow> dev_list \<Rightarrow> elog \<Rightarrow> handled" where
  "Knx_HeatReport ev p ds lg =
     (case p of NULL \<Rightarrow> Some (ds, - 1, lg) | Ptr t \<Rightarrow> dev_loop (heat_dev_report ev t) ds (- 1) lg)"

subsection \<open>Panels\<close>

fun panel_report_keys ::
  "env \<Rightarrow> DeviceElement \<Rightarrow> KnxData \<Rightarrow> KnxPoints list \<Rightarrow> int \<Rightarrow> elog \<Rightarrow> (KnxPoints list \<times> int \<times> elog) exec" where
  "panel_report_keys ev el t [] ret lg = Some ([], ret, lg)"
| "panel_report_keys ev el t (k # ks) ret lg = do {
     b \<leftarrow> (case kp_pFeedback k of NULL \<Rightarrow> Some False | Ptr a \<Rightarrow> same_group a t);
     if \<not> b then do {
       (ks, ret, lg) \<leftarrow> panel_report_keys ev el t ks ret lg;
       Some (k # ks, ret, lg) }
     else do {
       let on = (kd_value t \<noteq> 0);
       let k = (set_pv_b1 on k)\<lparr>kp_timestamp := ev_now ev\<rparr>;
       let dp = \<lparr>dpid = ucast (kp_id k), dp_type = PROP_BOOL, dp_raw = bool_raw on\<rparr>;
       (ret, lg) \<leftarrow>
         (if \<not> el_bMaster el then
            (case el_pvForeignKey el of
               NULL \<Rightarrow> None
             | Ptr fk \<Rightarrow> Some (ret, snd (mbus_write ev fk (dp\<lparr>dp_raw := (if on then 0 else 2)\<rparr>) lg)))
          else Some (if ev_active ev then report_fresh ev (el_pPrimaryKey el) dp lg else (ret, lg)));
       (ks, ret, lg) \<leftarrow> panel_report_keys ev el t ks ret lg;
       Some (k # ks, ret, lg) } }"

text \<open>
  The panel handlers test whether a master is registered before they look at its type.
\<close>

definition stops :: "env \<Rightarrow> knx_dev \<Rightarrow> bool" where
  "stops ev d \<longleftrightarrow> el_bMaster (kd_element d) \<and> \<not> ev_registered ev (el_pPrimaryKey (kd_element d))"

definition Knx_PanelReport :: "env \<Rightarrow> KnxData cptr \<Rightarrow> dev_list \<Rightarrow> elog \<Rightarrow> handled" where
  "Knx_PanelReport ev p ds lg =
     (case p of NULL \<Rightarrow> Some (ds, - 1, lg)
      | Ptr t \<Rightarrow> dev_loop (\<lambda>d ret lg.
          if stops ev d then Some (Break, d, ret, lg)
          else if \<not> in_types KNX_PANEL_ONE_KEY KNX_PANEL_EIGHT_KEY d then Some (Continue, d, ret, lg)
          else do {
            ks \<leftarrow> as_panel (kd_body d);
            (ks, ret, lg) \<leftarrow> panel_report_keys ev (kd_element d) t ks ret lg;
            Some (Continue, d\<lparr>kd_body := Panel ks\<rparr>, ret, lg) }) ds (- 1) lg)"

fun smart_report_keys ::
  "env \<Rightarrow> string \<Rightarrow> KnxData \<Rightarrow> KnxSmartPanelPoint list \<Rightarrow> int \<Rightarrow> elog
   \<Rightarrow> (KnxSmartPanelPoint list \<times> int \<times> elog) exec" where
  "smart_report_keys ev key t [] ret lg = Some ([], ret, lg)"
| "smart_report_keys ev key t (c # chs) ret lg = do {
     b \<leftarrow> (case kp_pFeedback (sp_key c) of NULL \<Rightarrow> Some False | Ptr a \<Rightarrow> same_group a t);
     if \<not> b then do {
       (chs, ret, lg) \<leftarrow> smart_report_keys ev key t chs ret lg;
       Some (c # chs, ret, lg) }
     else do {
       let on = (kd_value t \<noteq> 0);
       let k = (set_pv_b1 on (sp_key c))\<lparr>kp_timestamp := ev_now ev\<rparr>;
       let (ret, lg) = (if ev_active ev
         then report_fresh ev key \<lparr>dpid = ucast (kp_id k), dp_type = PROP_BOOL, dp_raw = bool_raw on\<rparr> lg
         else (ret, lg));
       (chs, ret, lg) \<leftarrow> smart_report_keys ev key t chs ret lg;
       Some (c\<lparr>sp_key := k\<rparr> # chs, ret, lg) } }"

definition Knx_SmartPanelReport :: "env \<Rightarrow> KnxData cptr \<Rightarrow> dev_list \<Rightarrow> elog \<Rightarrow> handled" where
  "Knx_SmartPanelReport ev p ds lg =
     (case p of NULL \<Rightarrow> Some (ds, - 1, lg)
      | Ptr t \<Rightarrow> dev_loop (\<lambda>d ret lg.
          if stops ev d then Some (Break, d, ret, lg)
          else if \<not> in_types KNX_MISC_PANEL_ONE_KEY KNX_MISC_PANEL_FOUR_KEY d then Some (Continue, d, ret, lg)
          else do {
            chs \<leftarrow> as_smart (kd_body d);
            (chs, ret, lg) \<leftarrow> smart_report_keys ev (el_pPrimaryKey (kd_element d)) t chs ret lg;
            Some (Continue, d\<lparr>kd_body := SmartPanel chs\<rparr>, ret, lg) }) ds (- 1) lg)"

subsection \<open>Dimmers and curtains\<close>

text \<open>
  The brightness of a telegram, 0 to 255, in the units of the cloud. The quotient by 255.0 of
  a product below \<open>2 ^ 31\<close> is truncated to the same number as the quotient of integers.
\<close>

definition dimmer_unscale :: "u16 \<Rightarrow> u16 \<Rightarrow> u16 exec" where
  "dimmer_unscale v mx = do {
     x \<leftarrow> c_int (int (unat v) * int (unat mx));
     if x div 255 > 65535 then None else Some (word_of_int (x div 255)) }"

definition dimmer_report_key ::
  "env \<Rightarrow> DeviceElement \<Rightarrow> KnxData \<Rightarrow> KnxDimmerPoint \<Rightarrow> int \<Rightarrow> elog
   \<Rightarrow> (flow \<times> KnxDimmerPoint \<times> int \<times> elog) exec" where
  "dimmer_report_key ev el t c ret lg = do {
     b \<leftarrow> (case kp_pFeedback (dm_bright c) of NULL \<Rightarrow> Some False | Ptr a \<Rightarrow> same_group a t);
     v \<leftarrow> (if b then dimmer_unscale (kd_value t) (kp_max (dm_bright c)) else Some 0);
     let c = (if b then c\<lparr>dm_bright := set_pv_u16 v (dm_bright c)\<rparr> else c);
     if b \<and> el_attri el = DEVICE_ATTRI_ACTUATOR then
       if \<not> ev_active ev then Some (Continue, c, ret, lg)
       else do {
         let (ret, lg) = report_fresh ev (el_pPrimaryKey el)
           \<lparr>dpid = ucast (kp_id (dm_bright c)), dp_type = PROP_VALUE, dp_raw = ucast v\<rparr> lg;
         Some (Break, c, ret, lg) }
     else do {
       b \<leftarrow> (case kp_pFeedback (dm_key c) of NULL \<Rightarrow> Some False | Ptr a \<Rightarrow> same_group a t);
       if \<not> b then Some (Continue, c, ret, lg)
       else if kd_bRejected t then None
       else do {
         let on = (kd_value t \<noteq> 0);
         let c = c\<lparr>dm_key := set_pv_b1 on (dm_key c)\<rparr>;
         if el_attri el \<noteq> DEVICE_ATTRI_ACTUATOR then Some (Continue, c, ret, lg)
         else if \<not> ev_active ev then Some (Continue, c, ret, lg)
         else do {
           let (ret, lg) = report_fresh ev (el_pPrimaryKey el)
             \<lparr>dpid = ucast (kp_id (dm_key c)), dp_type = PROP_BOOL, dp_raw = bool_raw on\<rparr> lg;
           Some (Break, c, ret, lg) } } } }"

fun dimmer_report_keys ::
  "env \<Rightarrow> DeviceElement \<Rightarrow> KnxData \<Rightarrow> KnxDimmerPoint list \<Rightarrow> int \<Rightarrow> elog
   \<Rightarrow> (KnxDimmerPoint list \<times> int \<times> elog) exec" where
  "dimmer_report_keys ev el t [] ret lg = Some ([], ret, lg)"
| "dimmer_report_keys ev el t (c # chs) ret lg = do {
     (fl, c, ret, lg) \<leftarrow> dimmer_report_key ev el t c ret lg;
     if fl = Break then Some (c # chs, ret, lg)
     else do {
       (chs, ret, lg) \<leftarrow> dimmer_report_keys ev el t chs ret lg;
       Some (c # chs, ret, lg) } }"

definition Knx_DimmerReport :: "env \<Rightarrow> KnxData cptr \<Rightarrow> dev_list \<Rightarrow> elog \<Rightarrow> handled" where
  "Knx_DimmerReport ev p ds lg =
     (case p of NULL \<Rightarrow> Some (ds, - 1, lg)
      | Ptr t \<Rightarrow> dev_loop (\<lambda>d ret lg.
          if stops ev d then Some (Break, d, ret, lg)
          else if \<not> in_types KNX_DIMMER_ONE_KEY KNX_DIMMER_FOUR_KEY d then Some (Continue, d, ret, lg)
          else do {
            chs \<leftarrow> as_dimmer (kd_body d);
            (chs, ret, lg) \<leftarrow> dimmer_report_keys ev (kd_element d) t chs ret lg;
            Some (Continue, d\<lparr>kd_body := Dimmer chs\<rparr>, ret, lg) }) ds (- 1) lg)"

text \<open>
  One action of a curtain: its group matches and the value is the one of the action, if it
  has one. The type of the data point is zeroed before it is reported.
\<close>

definition curtain_hit :: "KnxPoints cptr \<Rightarrow> u16 option \<Rightarrow> KnxData \<Rightarrow> KnxPoints option exec" where
  "curtain_hit pt val t =
     (case pt of NULL \<Rightarrow> Some None
      | Ptr p \<Rightarrow>
          (case kp_pCtrl p of NULL \<Rightarrow> Some None
           | Ptr a \<Rightarrow> do {
               b \<leftarrow> same_group a t;
               Some (if b \<and> (case val of None \<Rightarrow> True | Some v \<Rightarrow> kd_value t = v)
                     then Some (set_pv_i32 (ucast (kd_value t)) p) else None) }))"

definition curtain_dp :: "ty_obj_dp \<Rightarrow> KnxPoints option \<Rightarrow> u32 \<Rightarrow> ty_obj_dp" where
  "curtain_dp dp h v = (case h of None \<Rightarrow> dp | Some p \<Rightarrow> dp\<lparr>dpid := ucast (kp_id p), dp_raw := v\<rparr>)"

definition set_hit :: "KnxPoints cptr \<Rightarrow> KnxPoints option \<Rightarrow> KnxPoints cptr" where
  "set_hit pt h = (case h of None \<Rightarrow> pt | Some p \<Rightarrow> Ptr p)"

definition curtain_report ::
  "env \<Rightarrow> KnxData \<Rightarrow> knx_dev \<Rightarrow> int \<Rightarrow> elog \<Rightarrow> (flow \<times> knx_dev \<times> int \<times> elog) exec" where
  "curtain_report ev t d ret lg =
     (let el = kd_element d in
      if el_primaryType el \<noteq> device_code KNX_DEVICE_CURTAIN then Some (Continue, d, ret, lg)
      else do {
        c \<leftarrow> as_curtain (kd_body d);
        h1 \<leftarrow> curtain_hit (cu_pOpen c) (Some 1) t;
        h2 \<leftarrow> curtain_hit (cu_pClose c) (Some 0) t;
        h3 \<leftarrow> curtain_hit (cu_pStop c) None t;
        let dp = curtain_dp (curtain_dp (curtain_dp zero_dp h1 0) h2 2) h3 1;
        let d = d\<lparr>kd_body := Curtain \<lparr>cu_pOpen = set_hit (cu_pOpen c) h1, cu_pClose = set_hit (cu_pClose c) h2,
          cu_pStop = set_hit (cu_pStop c) h3\<rparr>\<rparr>;
        if dpid dp = 0 then Some (Continue, d, ret, lg)
        else if el_attri el = DEVICE_ATTRI_CONTROLLER then
          (case el_pvForeignKey el of
             NULL \<Rightarrow> None
           | Ptr fk \<Rightarrow> (let (r, lg) = mbus_write ev fk dp lg in Some (Continue, d, r, lg)))
        else if el_attri el = DEVICE_ATTRI_ACTUATOR \<and> ev_active ev \<and> el_bMaster el then
          (let (r, lg) = report_fresh ev (el_pPrimaryKey el) dp lg in Some (Continue, d, r, lg))
        else Some (Continue, d, ret, lg) })"

definition Knx_CurtainReport :: "env \<Rightarrow> KnxData cptr \<Rightarrow> dev_list \<Rightarrow> elog \<Rightarrow> handled" where
  "Knx_CurtainReport ev p ds lg =
     (case p of NULL \<Rightarrow> Some (ds, - 1, lg) | Ptr t \<Rightarrow> dev_loop (curtain_report ev t) ds (- 1) lg)"

subsection \<open>The monitor threads\<close>

text \<open>What \<open>KNX_DevMonitorEntry\<close> does with one telegram: all handlers in turn.\<close>

definition report_handlers :: "(env \<Rightarrow> KnxData cptr \<Rightarrow> dev_list \<Rightarrow> elog \<Rightarrow> handled) list" where
  "report_handlers = [Knx_AcdReport, Knx_VentReport, Knx_HeatReport, Knx_PanelReport, Knx_SmartPanelReport,
     Knx_DimmerReport, Knx_CurtainReport]"

fun report_chain ::
  "(env \<Rightarrow> KnxData cptr \<Rightarrow> dev_list \<Rightarrow> elog \<Rightarrow> handled) list \<Rightarrow> env \<Rightarrow> KnxData \<Rightarrow> dev_list \<Rightarrow> elog
   \<Rightarrow> (dev_list \<times> elog) exec" where
  "report_chain [] ev t ds lg = Some (ds, lg)"
| "report_chain (h # hs) ev t ds lg = do {
     (ds, _, lg) \<leftarrow> h ev (Ptr t) ds lg;
     report_chain hs ev t ds lg }"

definition KNX_DevMonitorEntry_step :: "env \<Rightarrow> KnxData \<Rightarrow> dev_list \<Rightarrow> elog \<Rightarrow> (dev_list \<times> elog) exec" where
  "KNX_DevMonitorEntry_step ev t ds lg = report_chain report_handlers ev t ds lg"

text \<open>
  One line of the bus monitor in \<open>KNX_BusMonitorEntry\<close>: parsed into a zeroed telegram, dropped
  unless accepted, stamped with the time, and debounced or handed to the monitor queue.
\<close>

definition KNX_BusMonitor_line :: "u64 \<Rightarrow> string \<Rightarrow> kv_table \<Rightarrow> (kv_table \<times> KnxData list) exec" where
  "KNX_BusMonitor_line now line tab = do {
     (ret, d) \<leftarrow> KNX_ParsePacket (Ptr line) zero_data;
     if ret \<noteq> 0 then Some (tab, []) else KNX_BusMonitor_packet now (d\<lparr>kd_timestamp := now\<rparr>) tab }"

subsection \<open>Logs of the reports\<close>

context handler_log
begin

lemma mbus_R: "mbus_write ev k dp lg = (r, lg') \<Longrightarrow> R lg lg'"
  using mbus_law by (auto simp: mbus_write_def Let_def)

lemma pass_on_R: "pass_on ev keepret el flag dp ret lg = Some (r, lg') \<Longrightarrow> R lg lg'"
  by (auto simp: pass_on_def dest!: fresh_R mbus_R cloud_R intro: R_refl
      split: if_splits cptr.splits prod.splits)

lemma objects_report_R:
  "objects_report ty unreg keepret rules ev t d ret lg = Some (fl, d', ret', lg') \<Longrightarrow> R lg lg'"
  by (auto simp: objects_report_def Let_def R_refl dest!: pass_on_R
      split: if_splits cptr.splits option.splits prod.splits bind_splits)

lemma heat_report_R: "heat_dev_report ev t d ret lg = Some (fl, d', ret', lg') \<Longrightarrow> R lg lg'"
  by (auto simp: heat_dev_report_def Let_def R_refl dest!: fresh_R
      split: if_splits cptr.splits option.splits prod.splits bind_splits)

lemma panel_report_keys_R: "panel_report_keys ev el t ks ret lg = Some (ks', ret', lg') \<Longrightarrow> R lg lg'"
proof (induction ks arbitrary: ret lg ks')
  case (Cons k ks)
  have m: "R lg (snd (mbus_write ev fk dp lg))" for fk dp
    by (rule mbus_R) (rule prod.collapse [symmetric])
  from Cons.prems show ?case
    by (auto simp: Let_def dest!: Cons.IH fresh_R intro: R_trans R_trans [OF m]
        split: if_splits cptr.splits prod.splits bind_splits)
qed (simp add: R_refl)

lemma smart_report_keys_R: "smart_report_keys ev key t chs ret lg = Some (chs', ret', lg') \<Longrightarrow> R lg lg'"
proof (induction chs arbitrary: ret lg chs')
  case (Cons c chs)
  from Cons.prems show ?case
    by (auto simp: Let_def dest!: Cons.IH fresh_R intro: R_trans
        split: if_splits cptr.splits prod.splits bind_splits)
qed (simp add: R_refl)

lemma dimmer_report_key_R: "dimmer_report_key ev el t c ret lg = Some (fl, c', ret', lg') \<Longrightarrow> R lg lg'"
  by (auto simp: dimmer_report_key_def Let_def R_refl dest!: fresh_R
      split: if_splits cptr.splits prod.splits bind_splits)

lemma dimmer_report_keys_R: "dimmer_report_keys ev el t chs ret lg = Some (chs', ret', lg') \<Longrightarrow> R lg lg'"
proof (induction chs arbitrary: ret lg chs')
  case (Cons c chs)
  from Cons.prems show ?case
    by (auto dest!: Cons.IH dimmer_report_key_R intro: R_trans split: if_splits bind_splits)
qed (simp add: R_refl)

lemma curtain_report_R: "curtain_report ev t d ret lg = Some (fl, d', ret', lg') \<Longrightarrow> R lg lg'"
  by (auto simp: curtain_report_def Let_def R_refl dest!: fresh_R mbus_R
      split: if_splits cptr.splits prod.splits bind_splits)

lemma report_handler_R:
  assumes "h \<in> set report_handlers" and "h ev p ds lg = Some (ds', ret, lg')"
  shows "R lg lg'"
  using assms
  by (auto simp: report_handlers_def Knx_AcdReport_def Knx_VentReport_def Knx_HeatReport_def Knx_PanelReport_def
      Knx_SmartPanelReport_def Knx_DimmerReport_def Knx_CurtainReport_def R_refl
      dest!: dev_loop_R [rotated] objects_report_R heat_report_R panel_report_keys_R smart_report_keys_R
        dimmer_report_keys_R curtain_report_R
      split: cptr.splits if_splits bind_splits)

lemma report_chain_R:
  "set hs \<subseteq> set report_handlers \<Longrightarrow> report_chain hs ev t ds lg = Some (ds', lg') \<Longrightarrow> R lg lg'"
proof (induction hs arbitrary: ds lg)
  case (Cons h hs)
  then obtain ds1 r1 lg1 where h: "h ev (Ptr t) ds lg = Some (ds1, r1, lg1)"
    and rest: "report_chain hs ev t ds1 lg1 = Some (ds', lg')" by (auto split: bind_splits)
  moreover have "R lg lg1" using report_handler_R [of h "Ptr t" ds lg ds1 r1 lg1] h Cons.prems(1) by simp
  ultimately show ?case using Cons.IH [OF _ rest] Cons.prems(1) R_trans by auto
qed (simp add: R_refl)

lemma monitor_step_R: "KNX_DevMonitorEntry_step ev t ds lg = Some (ds', lg') \<Longrightarrow> R lg lg'"
  unfolding KNX_DevMonitorEntry_step_def by (rule report_chain_R [OF subset_refl])

end

subsection \<open>Properties\<close>

lemma same_group_str:
  assumes "a \<le> 31" "b \<le> 7" "c \<le> 255" "a' \<le> 31" "b' \<le> 7" "c' \<le> 255" "kd_groupAddr t = group_str a' b' c'"
  shows "same_group (group_str a b c) t = Some (a = a' \<and> b = b' \<and> c = c')"
proof -
  have "group_word a b c = group_word a' b' c' \<longleftrightarrow> a = a' \<and> b = b' \<and> c = c'"
    using group_word_parts [OF assms(1-3)] group_word_parts [OF assms(4-6)] by metis
  then show ?thesis
    using assms readgaddr_group [OF assms(1-3)] readgaddr_group [OF assms(4-6)]
    by (simp add: same_group_def Knx_CompareGroup_def)
qed

definition objects_reports ::
  "((env \<Rightarrow> KnxData cptr \<Rightarrow> dev_list \<Rightarrow> elog \<Rightarrow> handled) \<times> nat \<times> rule list \<times> (flow \<times> bool)) list" where
  "objects_reports =
     [(Knx_AcdReport, device_code KNX_DEVICE_AIRCONDITION, acd_rules, Break, False),
      (Knx_VentReport, device_code KNX_DEVICE_VENTILATION, vent_rules, Continue, True)]"

definition other_type :: "nat \<Rightarrow> knx_dev cptr \<Rightarrow> bool" where
  "other_type ty p = (case p of NULL \<Rightarrow> True | Ptr d \<Rightarrow> el_primaryType (kd_element d) \<noteq> ty)"

lemma objects_reports_loop:
  assumes "(h, ty, rules, x) \<in> set objects_reports"
  shows "\<exists>unreg keepret. x = (unreg, keepret)
    \<and> (\<forall>t ds lg. h ev (Ptr t) ds lg = dev_loop (objects_report ty unreg keepret rules ev t) ds (- 1) lg)"
  using assms by (auto simp: objects_reports_def Knx_AcdReport_def Knx_VentReport_def)

lemma other_type_report:
  assumes "\<forall>p \<in> set ds. other_type ty p" and "Ptr d \<in> set ds"
  shows "objects_report ty unreg keepret rules ev t d ret lg = Some (Continue, d, ret, lg)"
  using assms by (force simp: objects_report_def other_type_def Let_def)

lemma other_types_loop:
  assumes "\<forall>p \<in> set ds. other_type ty p"
  shows "dev_loop (objects_report ty unreg keepret rules ev t) ds ret lg = Some (ds, ret, lg)"
  using dev_loop_skip [of ds "objects_report ty unreg keepret rules ev t" ret lg "[]"]
    other_type_report [OF assms] by auto

text \<open>
  Where the data point of a status telegram goes: a master reports it to the cloud, another
  device writes it to the Modbus device it belongs to, except that a read-only point goes to
  the cloud under the name of that device.
\<close>

fun status_effects :: "env \<Rightarrow> DeviceElement \<Rightarrow> bool \<Rightarrow> ty_obj_dp \<Rightarrow> elog" where
  "status_effects ev el flag dp =
     (if el_bMaster el then
        (if ev_active ev then [CloudReport (el_pPrimaryKey el) dp, HbFresh (el_pPrimaryKey el)] else [])
      else
        (case el_pvForeignKey el of
           NULL \<Rightarrow> []
         | Ptr fk \<Rightarrow>
             if \<not> flag then [MbusWrite fk dp]
             else if ev_active ev \<and> ev_registered ev fk then [CloudReport fk dp] else []))"

lemma pass_on_effects:
  assumes "el_bMaster el \<or> el_pvForeignKey el \<noteq> NULL"
  shows "\<exists>r. pass_on ev keepret el flag dp ret lg = Some (r, lg @ status_effects ev el flag dp)"
proof -
  obtain r where f: "report_fresh ev (el_pPrimaryKey el) dp lg
      = (r, lg @ [CloudReport (el_pPrimaryKey el) dp, HbFresh (el_pPrimaryKey el)])"
    using report_fresh_snd by (metis prod.collapse)
  then show ?thesis
    using assms by (cases "el_pvForeignKey el") (auto simp: pass_on_def mbus_write_def cloud_report_def Let_def)
qed


definition ex_telegram :: KnxData where
  "ex_telegram = zero_data\<lparr>kd_groupAddr := group_str 1 1 2, kd_value := 4, kd_cmd := ''Write''\<rparr>"

definition ex_status :: grp_obj where
  "ex_status = \<lparr>go_obj = \<lparr>ko_localPoint = feature_code ACD_MODE_STATUS, ko_value = 0\<rparr>, go_cloudPoint = 3,
     go_addr = group_str 1 1 2, go_timestamp = 0\<rparr>"

lemma ex_find_rule:
  "find_rule ex_slots ex_telegram acd_rules = Some (Some (mk_rule pModeStatus True True False, ex_status))"
  using same_group_str [of 1 1 2 1 1 2 ex_telegram]
  by (simp add: acd_rules_def ex_slots_def ex_obj_def ex_status_def ex_telegram_def)


lemma dev_loop_break:
  assumes "\<And>p. Ptr p \<in> set pre \<Longrightarrow> body p ret lg = Some (Continue, p, ret, lg)"
    and "body d ret lg = Some (Break, d, ret, lg)"
  shows "dev_loop body (pre @ Ptr d # ds) ret lg = Some (pre @ Ptr d # ds, ret, lg)"
  using dev_loop_skip [of pre body ret lg "Ptr d # ds"] assms by auto

text \<open>
  A master that the cloud does not know stops more than its own report. In the list of
  air conditioners and of floor heatings it hides every device behind it; in the handlers of
  panels, smart panels and dimmers it does so whatever its own type is. The telegram is then
  lost for those devices. For ventilations the loop goes on.
\<close>

lemma unregistered_master_hides_others:
  assumes "stops ev d"
    and "(h = Knx_AcdReport \<and> ty = device_code KNX_DEVICE_AIRCONDITION)
      \<or> (h = Knx_HeatReport \<and> ty = device_code KNX_DEVICE_FLOORHEATING)"
    and "\<forall>p \<in> set pre. other_type ty p" and "el_primaryType (kd_element d) = ty"
    and "h' \<in> {Knx_PanelReport, Knx_SmartPanelReport, Knx_DimmerReport}"
  shows "h ev (Ptr t) (pre @ Ptr d # ds) lg = Some (pre @ Ptr d # ds, - 1, lg)
    \<and> h' ev (Ptr t) (Ptr d # ds) lg = Some (Ptr d # ds, - 1, lg)"
proof
  have "heat_dev_report ev t p (- 1) lg = Some (Continue, p, - 1, lg)" if "Ptr p \<in> set pre" "ty = device_code KNX_DEVICE_FLOORHEATING" for p
    using assms(3) that by (force simp: heat_dev_report_def other_type_def Let_def)
  then show "h ev (Ptr t) (pre @ Ptr d # ds) lg = Some (pre @ Ptr d # ds, - 1, lg)"
    using assms(1,2,4) other_type_report [OF assms(3)]
    by (auto simp: Knx_AcdReport_def Knx_HeatReport_def objects_report_def heat_dev_report_def stops_def Let_def
        intro!: dev_loop_break)
  show "h' ev (Ptr t) (Ptr d # ds) lg = Some (Ptr d # ds, - 1, lg)"
    using assms(1,5) by (auto simp: Knx_PanelReport_def Knx_SmartPanelReport_def Knx_DimmerReport_def)
qed

lemma unregistered_master_hides_others_example:
  "Knx_AcdReport (ex_env\<lparr>ev_registered := (\<lambda>_. False)\<rparr>) (Ptr ex_telegram)
      [Ptr ex_acd, Ptr (ex_acd\<lparr>kd_base := (kd_base ex_acd)\<lparr>kb_element := (kd_element ex_acd)\<lparr>el_bMaster := False\<rparr>\<rparr>\<rparr>)] []
    = Some ([Ptr ex_acd, Ptr (ex_acd\<lparr>kd_base := (kd_base ex_acd)\<lparr>kb_element := (kd_element ex_acd)\<lparr>el_bMaster := False\<rparr>\<rparr>\<rparr>)],
        - 1, [])
   \<and> Knx_PanelReport (ex_env\<lparr>ev_registered := (\<lambda>_. False)\<rparr>) (Ptr ex_telegram) [Ptr ex_acd] [] = Some ([Ptr ex_acd], - 1, [])"
  using unregistered_master_hides_others [of "ex_env\<lparr>ev_registered := (\<lambda>_. False)\<rparr>" ex_acd Knx_AcdReport
      "device_code KNX_DEVICE_AIRCONDITION" "[]" Knx_PanelReport ex_telegram]
  by (simp add: stops_def ex_acd_def)

lemma dimmer_arith:
  fixes v m :: int
  assumes "0 \<le> v" and "v \<le> m" and "0 < m"
  shows "0 \<le> v * 255 div m" "v * 255 div m \<le> 255" "0 \<le> v * 255 div m * m div 255"
    "v * 255 div m * m div 255 \<le> v" "255 * (v - v * 255 div m * m div 255) \<le> m + 253"
proof -
  define q where "q = v * 255 div m"
  have mod: "q * m + v * 255 mod m = v * 255" "0 \<le> v * 255 mod m" "v * 255 mod m < m"
    using assms by (simp_all add: q_def)
  define w where "w = q * m div 255"
  have w: "w * 255 + q * m mod 255 = q * m" "0 \<le> q * m mod 255" "q * m mod 255 < 255"
    by (simp_all add: w_def)
  show q: "0 \<le> v * 255 div m" using assms by (simp add: pos_imp_zdiv_nonneg_iff)
  show "v * 255 div m \<le> 255"
    using zdiv_mono1 [of "v * 255" "255 * m" m] assms by simp
  show "0 \<le> v * 255 div m * m div 255"
    using q assms by (simp add: pos_imp_zdiv_nonneg_iff)
  have "255 * (v - w) = v * 255 mod m + q * m mod 255" using mod(1) w(1) by (simp add: right_diff_distrib)
  then have "0 \<le> 255 * (v - w)" "255 * (v - w) \<le> m + 253" using mod(2,3) w(2,3) by auto
  then show "v * 255 div m * m div 255 \<le> v" "255 * (v - v * 255 div m * m div 255) \<le> m + 253"
    unfolding q_def [symmetric] w_def [symmetric] by simp_all
qed

text \<open>
  Brightness through a dimmer: the gateway sends a level from 0 to 255, and when the
  dimmer answers with the level it was sent, the brightness reported to the cloud is never
  higher than the one that was set and lower by less than one part in 255 of the range and
  one step. With a range of up to 256 steps that is at most one step.
\<close>

lemma dimmer_roundtrip_bounds:
  assumes "0 \<le> v" and "v \<le> int (unat mx)" and "0 < mx"
  shows "\<exists>b w. dimmer_scale v mx = Some b \<and> dimmer_unscale (ucast b) mx = Some w
    \<and> int (unat w) \<le> v \<and> 255 * (v - int (unat w)) \<le> int (unat mx) + 253"
proof -
  let ?q = "v * 255 div uint mx" and ?w = "v * 255 div uint mx * uint mx div 255"
  have m: "0 < uint mx" "uint mx < 65536"
    using assms(3) uint_bounded [of mx] by (simp_all add: word_less_def)
  note a = dimmer_arith [of v "uint mx"]
  have b: "uint (ucast (word_of_int ?q :: u8) :: u16) = ?q"
    using a assms m by (simp add: unsigned_ucast_eq uint_word_of_int take_bit_int_eq_self)
  have p: "?q * uint mx \<le> 255 * 65535"
    using a assms m by (intro mult_mono) simp_all
  have w: "uint (word_of_int ?w :: u16) = ?w" "?w \<le> 65535"
    using a assms m by (simp_all add: uint_word_of_int)
  have "dimmer_scale v mx = Some (word_of_int ?q)"
    using assms m by (auto simp: dimmer_scale_def c_int_def c_div_def)
  moreover have "dimmer_unscale (ucast (word_of_int ?q :: u8)) mx = Some (word_of_int ?w)"
    using a assms m p w(2) by (auto simp: dimmer_unscale_def c_int_def b)
  ultimately show ?thesis using a assms m(1) w(1) by simp
qed

lemma dimmer_roundtrip_bounds_example:
  "\<exists>b w. dimmer_scale 1 100 = Some b \<and> dimmer_unscale (ucast b) 100 = Some w
    \<and> int (unat w) \<le> 1 \<and> 255 * (1 - int (unat w)) \<le> 353"
  using dimmer_roundtrip_bounds [of 1 100] by simp

text \<open>The loss occurs at the lower end of a range of 100: level 1 comes back as 0.\<close>

lemma dimmer_loses_a_step: "dimmer_scale 1 100 = Some 2 \<and> dimmer_unscale 2 100 = Some 0"
  by (simp add: dimmer_scale_def dimmer_unscale_def c_int_def c_div_def)

end
