(* ===== verification/Knx_Service.thy ===== *)
theory Knx_Service
  imports Knx_Reports
begin

text \<open>
  The services around the KNX handlers in \<open>source/knxHandle.c\<close>: reading group values
  (\<open>KnxGroupRead\<close>, \<open>KNX_DevStateSync\<close>, \<open>KNX_DevHealth\<close>), heartbeat requests of the cloud
  (\<open>Knx_RequestHB\<close>), direct writes (\<open>Knx_Write1Byte\<close>), and the start and the watchdog of the
  threads (\<open>KnxInit\<close>, \<open>ThreadDogEntry\<close>).

  \<open>al k\<close> says whether the \<open>k\<close>-th allocation of a call succeeds. The groups that are handed to the
  heartbeat queue are results, in their order; a group that does not fit the queue is freed.
\<close>

subsection \<open>Reading groups\<close>

definition KnxGroupRead :: "env \<Rightarrow> string cptr \<Rightarrow> elog \<Rightarrow> (int \<times> elog) exec" where
  "KnxGroupRead ev p lg =
     (case p of NULL \<Rightarrow> Some (- 1, lg)
      | Ptr grp \<Rightarrow> do {
          let lg1 = lg @ [EibSocket];
          if \<not> ev_socket ev lg1 then Some (- 1, lg1)
          else do {
            g \<leftarrow> readgaddr grp;
            let lg2 = lg1 @ [EibOpen g];
            let lg3 = lg2 @ [EibSend [0, 0]];
            if ev_open ev lg2 = - 1 then Some (- 1, lg2)
            else if ev_send ev lg3 = - 1 then Some (- 1, lg3)
            else Some (0, lg3 @ [EibClose]) } })"

definition obj_addrs :: "(slot \<Rightarrow> grp_obj cptr) \<Rightarrow> slot list \<Rightarrow> string list" where
  "obj_addrs objs sls = concat (map (\<lambda>s. case objs s of NULL \<Rightarrow> [] | Ptr g \<Rightarrow> [go_addr g]) sls)"

definition point_addr :: "KnxPoints \<Rightarrow> string list" where
  "point_addr p =
     (case kp_pFeedback p of NULL \<Rightarrow> [] | Ptr a \<Rightarrow> if kp_mode p \<noteq> POINT_ATTR_WRITE_ONLY then [a] else [])"

definition ctrl_addr :: "KnxPoints cptr \<Rightarrow> string list exec" where
  "ctrl_addr p =
     (case p of NULL \<Rightarrow> None | Ptr k \<Rightarrow> Some (case kp_pCtrl k of NULL \<Rightarrow> [] | Ptr a \<Rightarrow> [a]))"

text \<open>The status groups of a device, in the order in which \<open>KNX_DevStateSync\<close> asks for them.\<close>

definition sync_groups :: "knx_dev \<Rightarrow> string list exec" where
  "sync_groups d =
     (let ty = el_primaryType (kd_element d) in
      if \<not> el_bMaster (kd_element d) then Some []
      else if ty = device_code KNX_DEVICE_AIRCONDITION then do {
        objs \<leftarrow> as_objects (kd_body d);
        Some (obj_addrs objs [pSwitchStatus, pSpeedStatus, pModeStatus, pTempStatus, pEnvTemp, pErrorCode]) }
      else if ty = device_code KNX_DEVICE_VENTILATION then do {
        objs \<leftarrow> as_objects (kd_body d);
        Some (obj_addrs objs [pSwitchStatus, pSpeedStatus, pErrorCode]) }
      else if ty = device_code KNX_DEVICE_FLOORHEATING then do {
        objs \<leftarrow> as_objects (kd_body d);
        Some (obj_addrs objs [pSwitchStatus, pTempStatus, pEnvTemp, pErrorCode]) }
      else if in_types KNX_PANEL_ONE_KEY KNX_PANEL_EIGHT_KEY d then do {
        ks \<leftarrow> as_panel (kd_body d);
        Some (concat (map point_addr ks)) }
      else if in_types KNX_MISC_PANEL_ONE_KEY KNX_MISC_PANEL_FOUR_KEY d then do {
        chs \<leftarrow> as_smart (kd_body d);
        Some (concat (map (\<lambda>c. point_addr (sp_key c)) chs)) }
      else if in_types KNX_DIMMER_ONE_KEY KNX_DIMMER_FOUR_KEY d then do {
        chs \<leftarrow> as_dimmer (kd_body d);
        Some (concat (map (\<lambda>c. point_addr (dm_key c) @ point_addr (dm_bright c)) chs)) }
      else if ty = device_code KNX_DEVICE_CURTAIN then do {
        c \<leftarrow> as_curtain (kd_body d);
        a1 \<leftarrow> ctrl_addr (cu_pOpen c);
        a2 \<leftarrow> ctrl_addr (cu_pClose c);
        a3 \<leftarrow> ctrl_addr (cu_pStop c);
        Some (a1 @ a2 @ a3) }
      else Some [])"

fun KNX_DevStateSync :: "dev_list \<Rightarrow> string list exec" where
  "KNX_DevStateSync [] = Some []"
| "KNX_DevStateSync (NULL # ds) = KNX_DevStateSync ds"
| "KNX_DevStateSync (Ptr d # ds) = do {
     gs \<leftarrow> sync_groups d;
     rest \<leftarrow> KNX_DevStateSync ds;
     Some (gs @ rest) }"

text \<open>The groups that reach the queue: those whose copy could be allocated.\<close>

definition allocated :: "(nat \<Rightarrow> bool) \<Rightarrow> string list \<Rightarrow> string list" where
  "allocated al gs = map snd (filter (\<lambda>(k, _). al k) (enumerate 0 gs))"

text \<open>\<open>KNX_DevHealth\<close> reads every group it takes from the queue; the result is ignored.\<close>

fun KNX_DevHealth :: "env \<Rightarrow> string cptr list \<Rightarrow> elog \<Rightarrow> elog exec" where
  "KNX_DevHealth ev [] lg = Some lg"
| "KNX_DevHealth ev (NULL # gs) lg = KNX_DevHealth ev gs lg"
| "KNX_DevHealth ev (Ptr g # gs) lg = do {
     (_, lg) \<leftarrow> KnxGroupRead ev (Ptr g) lg;
     KNX_DevHealth ev gs lg }"

subsection \<open>Heartbeat requests\<close>

definition feedback_addr :: "KnxPoints list \<Rightarrow> string list exec" where
  "feedback_addr ps =
     (case ps of [] \<Rightarrow> None
      | p # _ \<Rightarrow> Some (case kp_pFeedback p of NULL \<Rightarrow> [] | Ptr a \<Rightarrow> [a]))"

definition hb_group :: "knx_dev \<Rightarrow> string list exec" where
  "hb_group d =
     (let ty = el_primaryType (kd_element d) in
      if ty = device_code KNX_DEVICE_AIRCONDITION \<or> ty = device_code KNX_DEVICE_VENTILATION
         \<or> ty = device_code KNX_DEVICE_FLOORHEATING then do {
        objs \<leftarrow> as_objects (kd_body d);
        Some (obj_addrs objs [pSwitchStatus]) }
      else if in_types KNX_PANEL_ONE_KEY KNX_PANEL_EIGHT_KEY d then do {
        ks \<leftarrow> as_panel (kd_body d);
        feedback_addr ks }
      else if in_types KNX_MISC_PANEL_ONE_KEY KNX_MISC_PANEL_FOUR_KEY d then do {
        chs \<leftarrow> as_smart (kd_body d);
        feedback_addr (map sp_key chs) }
      else if in_types KNX_DIMMER_ONE_KEY KNX_DIMMER_FOUR_KEY d then do {
        chs \<leftarrow> as_dimmer (kd_body d);
        feedback_addr (map dm_bright chs) }
      else if ty = device_code KNX_DEVICE_CURTAIN then do {
        c \<leftarrow> as_curtain (kd_body d);
        ctrl_addr (cu_pOpen c) }
      else Some [])"

definition KnxDevIdMatch :: "knx_dev cptr \<Rightarrow> string \<Rightarrow> bool" where
  "KnxDevIdMatch p key = (case p of NULL \<Rightarrow> False | Ptr d \<Rightarrow> el_pPrimaryKey (kd_element d) = key)"

text \<open>The request at the device found: result, device, log and the group to ask.\<close>

definition request_hb :: "env \<Rightarrow> knx_dev \<Rightarrow> elog \<Rightarrow> (int \<times> knx_dev \<times> elog \<times> string list) exec" where
  "request_hb ev d lg =
     (if \<not> kb_bOnlineCheck (kd_base d) then
        Some (0, d, snd (hb_fresh ev (el_pPrimaryKey (kd_element d)) lg), [])
      else if kb_hbIgnore (kd_base d) < 5 then
        Some (0, d\<lparr>kd_base := (kd_base d)\<lparr>kb_hbIgnore := kb_hbIgnore (kd_base d) + 1\<rparr>\<rparr>, lg, [])
      else do {
        gs \<leftarrow> hb_group d;
        Some (0, d\<lparr>kd_base := (kd_base d)\<lparr>kb_hbIgnore := 0\<rparr>\<rparr>, lg, gs) })"

fun hb_search :: "env \<Rightarrow> string \<Rightarrow> dev_list \<Rightarrow> elog \<Rightarrow> (int \<times> dev_list \<times> elog \<times> string list) exec" where
  "hb_search ev key [] lg = Some (- 1, [], lg, [])"
| "hb_search ev key (p # ds) lg =
     (if KnxDevIdMatch p key then
        (case p of NULL \<Rightarrow> None
         | Ptr d \<Rightarrow> do {
             (r, d, lg, gs) \<leftarrow> request_hb ev d lg;
             Some (r, Ptr d # ds, lg, gs) })
      else do {
        (r, ds, lg, gs) \<leftarrow> hb_search ev key ds lg;
        Some (r, p # ds, lg, gs) })"

definition Knx_RequestHB ::
  "env \<Rightarrow> string cptr \<Rightarrow> dev_list \<Rightarrow> elog \<Rightarrow> (int \<times> dev_list \<times> elog \<times> string list) exec" where
  "Knx_RequestHB ev p ds lg =
     (case p of NULL \<Rightarrow> Some (- 1, ds, lg, []) | Ptr key \<Rightarrow> hb_search ev key ds lg)"

subsection \<open>Direct writes\<close>

definition Knx_Write1Byte :: "env \<Rightarrow> string \<Rightarrow> u8 \<Rightarrow> elog \<Rightarrow> (int \<times> elog) exec" where
  "Knx_Write1Byte ev grp v lg = do {
     g \<leftarrow> readgaddr grp;
     let lg1 = lg @ [EibSocket];
     let lg2 = lg1 @ [EibOpen g];
     let lg3 = lg2 @ [EibSend ([0, 0x80] @ snd (readBlock (ucast v)))];
     Some (if \<not> ev_socket ev lg1 then (- 1, lg1)
           else if ev_open ev lg2 = - 1 then (- 2, lg2 @ [EibClose])
           else (if ev_send ev lg3 = - 1 then - 3 else 0, lg3 @ [EibClose])) }"

subsection \<open>Start and watchdog of the threads\<close>

datatype entry = ThreadDogEntry | KNX_BusMonitorEntry | KNX_DevMonitorEntry | KNX_DevDebounce
  | KNX_DevWriteEntry | KNX_DevHealthEntry

datatype qname = pMonitorQueue | pWriteQueue | pDogQueue | pHeartbeatQueue

record 'p ThreadDog =
  dg_id :: nat
  dg_hThpool :: "'p cptr"

definition THREAD_NO_KNX_BUS_MONITOR :: nat where "THREAD_NO_KNX_BUS_MONITOR = 1"
definition THREAD_NO_KNX_DEV_MONITOR :: nat where "THREAD_NO_KNX_DEV_MONITOR = 2"
definition THREAD_NO_KNX_DEV_WRITE :: nat where "THREAD_NO_KNX_DEV_WRITE = 3"

text \<open>
  \<open>KnxInit\<close>: the queues that could be created, in turn, the watchdog's table and the jobs.
  The pool is entered three times into the first row of the table.
\<close>

definition KnxInit ::
  "(qname \<Rightarrow> bool) \<Rightarrow> 'p \<Rightarrow> 'p ThreadDog list \<Rightarrow> int \<times> 'p ThreadDog list \<times> (entry \<times> qname) list" where
  "KnxInit made pool dogs =
     (if \<not> made pDogQueue \<or> \<not> made pMonitorQueue \<or> \<not> made pWriteQueue \<or> \<not> made pHeartbeatQueue
      then (- 1, dogs, [])
      else
        (let dogs = dogs[0 := (dogs ! 0)\<lparr>dg_id := THREAD_NO_KNX_BUS_MONITOR, dg_hThpool := Ptr pool\<rparr>];
             dogs = dogs[1 := (dogs ! 1)\<lparr>dg_id := THREAD_NO_KNX_DEV_MONITOR\<rparr>];
             dogs = dogs[0 := (dogs ! 0)\<lparr>dg_hThpool := Ptr pool\<rparr>];
             dogs = dogs[2 := (dogs ! 2)\<lparr>dg_id := THREAD_NO_KNX_DEV_WRITE\<rparr>];
             dogs = dogs[0 := (dogs ! 0)\<lparr>dg_hThpool := Ptr pool\<rparr>]
         in (0, dogs,
              [(ThreadDogEntry, pDogQueue), (KNX_BusMonitorEntry, pMonitorQueue),
               (KNX_DevMonitorEntry, pMonitorQueue), (KNX_DevDebounce, pMonitorQueue),
               (KNX_DevWriteEntry, pWriteQueue), (KNX_DevHealthEntry, pHeartbeatQueue)])))"

text \<open>
  The job that the watchdog adds for a row of its table, with the pool it adds it to; adding
  to a null pool is undefined.
\<close>

definition ThreadDogEntry_step :: "'p ThreadDog \<Rightarrow> ('p \<times> entry \<times> qname) option exec" where
  "ThreadDogEntry_step dog =
     (let job = (\<lambda>e. case dg_hThpool dog of NULL \<Rightarrow> None | Ptr pool \<Rightarrow> Some (Some (pool, e, pMonitorQueue))) in
      if dg_id dog = THREAD_NO_KNX_BUS_MONITOR then job KNX_BusMonitorEntry
      else if dg_id dog = THREAD_NO_KNX_DEV_MONITOR then job KNX_DevMonitorEntry
      else if dg_id dog = THREAD_NO_KNX_DEV_WRITE then job KNX_DevWriteEntry
      else Some None)"

subsection \<open>Properties\<close>

lemma KnxGroupRead_conns:
  assumes "KnxGroupRead ev (Ptr grp) lg = Some (r, lg')" and "readgaddr grp = Some g"
  shows "conns ev lg' = conns ev lg +
    (if ev_socket ev (lg @ [EibSocket]) \<and>
        (ev_open ev (lg @ [EibSocket, EibOpen g]) = - 1 \<or> ev_send ev (lg @ [EibSocket, EibOpen g, EibSend [0, 0]]) = - 1)
     then 1 else 0)"
  using assms by (auto simp: KnxGroupRead_def Let_def split: if_splits)

lemma Knx_Write1Byte_conns:
  "Knx_Write1Byte ev grp v lg = Some (r, lg') \<Longrightarrow> conns ev lg' = conns ev lg"
  by (auto simp: Knx_Write1Byte_def Let_def split: if_splits bind_splits)

text \<open>
  Claim C40. Connections to the bus daemon: handling a request of the cloud or a telegram, and
  a direct write, leave as many connections open as there were, whatever the daemon answers.
  Reading a group leaves one more open whenever the daemon cannot open the group or send.
\<close>

theorem connections_closed:
  shows "(KNX_DevWriteEntry_step ev kw ds lg = Some (ds', lg1) \<longrightarrow> conns ev lg1 = conns ev lg)
    \<and> (KNX_DevMonitorEntry_step ev t ds lg = Some (ds'', lg2) \<longrightarrow> conns ev lg2 = conns ev lg)
    \<and> (Knx_Write1Byte ev grp v lg = Some (r, lg3) \<longrightarrow> conns ev lg3 = conns ev lg)
    \<and> (KnxGroupRead ev (Ptr grp) lg = Some (r', lg4) \<and> readgaddr grp = Some g \<longrightarrow>
        conns ev lg4 = conns ev lg +
          (if ev_socket ev (lg @ [EibSocket]) \<and>
              (ev_open ev (lg @ [EibSocket, EibOpen g]) = - 1
               \<or> ev_send ev (lg @ [EibSocket, EibOpen g, EibSend [0, 0]]) = - 1)
           then 1 else 0))"
  by (intro conjI impI; (elim conjE)?)
    (rule cb.write_step_R cb.monitor_step_R Knx_Write1Byte_conns KnxGroupRead_conns; assumption)+

lemma readgaddr_ex: "readgaddr (group_str 2 3 4) = Some (group_word 2 3 4)"
  by (rule readgaddr_group) simp_all

theorem connections_closed_witness:
  "Knx_Write1Byte ex_env (group_str 2 3 4) 7 [] = Some (0, [EibSocket, EibOpen (group_word 2 3 4), EibSend [0, 0x80, 7], EibClose])
    \<and> conns ex_env [EibSocket, EibOpen (group_word 2 3 4), EibSend [0, 0x80, 7], EibClose] = 0
    \<and> KnxGroupRead (ex_env\<lparr>ev_open := (\<lambda>_. - 1)\<rparr>) (Ptr (group_str 2 3 4)) []
        = Some (- 1, [EibSocket, EibOpen (group_word 2 3 4)])
    \<and> conns (ex_env\<lparr>ev_open := (\<lambda>_. - 1)\<rparr>) [EibSocket, EibOpen (group_word 2 3 4)] = 1"
proof -
  have w: "Knx_Write1Byte ex_env (group_str 2 3 4) 7 []
      = Some (0, [EibSocket, EibOpen (group_word 2 3 4), EibSend [0, 0x80, 7], EibClose])"
    by (simp add: Knx_Write1Byte_def readgaddr_ex ex_env_def readBlock_def)
  have r: "KnxGroupRead (ex_env\<lparr>ev_open := (\<lambda>_. - 1)\<rparr>) (Ptr (group_str 2 3 4)) []
      = Some (- 1, [EibSocket, EibOpen (group_word 2 3 4)])"
    by (simp add: KnxGroupRead_def readgaddr_ex ex_env_def)
  show ?thesis
    using connections_closed [of ex_env _ _ "[]" _ _ _ _ _ "group_str 2 3 4" 7]
      connections_closed [of "ex_env\<lparr>ev_open := (\<lambda>_. - 1)\<rparr>" _ _ "[]" _ _ _ _ _ "group_str 2 3 4" 7] w r readgaddr_ex
    by (simp add: conns_def) (simp add: ex_env_def)
qed

text \<open>A series of heartbeat requests for one device, with the groups it asks the bus for.\<close>

fun hb_series :: "env \<Rightarrow> nat \<Rightarrow> knx_dev \<Rightarrow> elog \<Rightarrow> (knx_dev \<times> elog \<times> string list) exec" where
  "hb_series ev 0 d lg = Some (d, lg, [])"
| "hb_series ev (Suc n) d lg = do {
     (_, d, lg, gs) \<leftarrow> request_hb ev d lg;
     (d, lg, gs') \<leftarrow> hb_series ev n d lg;
     Some (d, lg, gs @ gs') }"

lemma hb_group_base: "hb_group (d\<lparr>kd_base := (kd_base d)\<lparr>kb_hbIgnore := x\<rparr>\<rparr>) = hb_group d"
  by (simp add: hb_group_def in_types_def Let_def)

lemma hb_series_groups:
  assumes "kb_bOnlineCheck (kd_base d)" and "kb_hbIgnore (kd_base d) = int k" and "k \<le> 5"
    and "hb_group d = Some gs"
  shows "\<exists>d'. hb_series ev n d lg = Some (d', lg, concat (replicate ((k + n) div 6) gs))
    \<and> kb_hbIgnore (kd_base d') = int ((k + n) mod 6)"
  using assms
proof (induction n arbitrary: d k)
  case 0
  then show ?case by simp
next
  case (Suc n)
  show ?case
  proof (cases "k < 5")
    case True
    let ?d = "d\<lparr>kd_base := (kd_base d)\<lparr>kb_hbIgnore := kb_hbIgnore (kd_base d) + 1\<rparr>\<rparr>"
    have "request_hb ev d lg = Some (0, ?d, lg, [])"
      using True Suc.prems by (simp add: request_hb_def)
    then show ?thesis
      using Suc.IH [of ?d "Suc k"] Suc.prems True by (auto simp: hb_group_base)
  next
    case False
    let ?d = "d\<lparr>kd_base := (kd_base d)\<lparr>kb_hbIgnore := 0\<rparr>\<rparr>"
    have "request_hb ev d lg = Some (0, ?d, lg, gs)"
      using False Suc.prems by (simp add: request_hb_def)
    then show ?thesis
      using Suc.IH [of ?d 0] Suc.prems False by (auto simp: hb_group_base)
  qed
qed

text \<open>
  Heartbeat requests of the cloud for a device with online check: of any six in a row
  exactly one asks the bus for the state of the device. From a fresh device, \<open>n\<close> requests ask
  \<open>n div 6\<close> times.
\<close>

lemma heartbeat_every_sixth:
  assumes "kb_bOnlineCheck (kd_base d)" and "kb_hbIgnore (kd_base d) = int k" and "k \<le> 5"
    and "hb_group d = Some [g]"
  shows "\<exists>d'. hb_series ev n d lg = Some (d', lg, replicate ((k + n) div 6) g)
    \<and> kb_hbIgnore (kd_base d') = int ((k + n) mod 6)"
proof -
  have "concat (replicate m [g]) = replicate m g" for m by (induction m) simp_all
  with hb_series_groups [OF assms, of ev n lg] show ?thesis by simp
qed

lemma heartbeat_every_sixth_example:
  "\<exists>d'. hb_series ex_env 12 (ex_acd\<lparr>kd_body := Objects (ex_slots(pSwitchStatus := ex_obj ACD_SWITCH_STATUS 1 ''1/1/1''))\<rparr>) []
      = Some (d', [], replicate 2 ''1/1/1'') \<and> kb_hbIgnore (kd_base d') = 0"
  using heartbeat_every_sixth
    [of "ex_acd\<lparr>kd_body := Objects (ex_slots(pSwitchStatus := ex_obj ACD_SWITCH_STATUS 1 ''1/1/1''))\<rparr>" 0 "''1/1/1''" ex_env 12 "[]"]
  by (simp add: ex_acd_def hb_group_def obj_addrs_def ex_obj_def Let_def)

text \<open>
  The watchdog can restart one of the three threads it watches. \<open>KnxInit\<close> enters the
  pool for the first row of its table only, so that a restart of the monitor or of the write
  thread adds a job to a null pool; and with a pool in its row the write thread would be
  restarted on the monitor queue, whose entries are telegrams and not write requests.
\<close>

lemma watchdog_restarts:
  fixes pool :: 'p
  shows "\<exists>d0 d1 d2 jobs.
    KnxInit (\<lambda>_. True) pool (replicate 3 \<lparr>dg_id = 0, dg_hThpool = NULL\<rparr>) = (0, [d0, d1, d2], jobs)
    \<and> ThreadDogEntry_step d0 = Some (Some (pool, KNX_BusMonitorEntry, pMonitorQueue))
    \<and> ThreadDogEntry_step d1 = None \<and> ThreadDogEntry_step d2 = None
    \<and> (KNX_DevWriteEntry, pWriteQueue) \<in> set jobs
    \<and> ThreadDogEntry_step (d2\<lparr>dg_hThpool := Ptr pool\<rparr>) = Some (Some (pool, KNX_DevWriteEntry, pMonitorQueue))"
  by (simp add: KnxInit_def ThreadDogEntry_step_def THREAD_NO_KNX_BUS_MONITOR_def THREAD_NO_KNX_DEV_MONITOR_def
      THREAD_NO_KNX_DEV_WRITE_def numeral_3_eq_3)

end
