(* ===== verification/Modbus_Handle.thy ===== *)
theory Modbus_Handle
  imports Knx_Service
begin

text \<open>
  The Modbus devices of the gateway, \<open>source/modbusHandle.c\<close>: writing a data point to a device
  (\<open>ModbusDevWrite\<close>), what becomes of a value that a device reports (\<open>ModbusDevMonitor\<close>), heartbeat
  requests and the periodic polling of all devices.

  \<^item> \<open>pMbusDevList\<close> is the list of its devices. An object of a device is a slot; a slot without
    an object is a null pointer, and the monitor reads it without a test.
  \<^item> The calls to the serial port, the cloud and the KNX side are effects of the log that the
    KNX theories use. A port is a number; \<open>ev_seropen\<close> is what opening it returns. \<open>KnxSync\<close> is a
    call of \<open>KnxGroupWrite\<close>.
  \<^item> \<open>build\<close>, \<open>buildExt\<close>, \<open>parse\<close> and \<open>parseExt\<close> are the functions of the plugin; the node and the
    static cache that some of them read are part of the function.
  \<^item> A data point with a string, the error code of an air conditioner, is reported with the
    two bytes of the string.
\<close>

subsection \<open>Data\<close>

record MbusIf =
  mi_build :: "(u8 \<Rightarrow> u16 \<Rightarrow> u16 \<Rightarrow> ty_obj_dp cptr \<Rightarrow> Msg cptr exec) cptr"
  mi_buildExt :: "(u16 \<Rightarrow> u16 \<Rightarrow> u16 \<Rightarrow> ty_obj_dp cptr \<Rightarrow> Msg cptr exec) cptr"
  mi_parse :: "(u8 \<Rightarrow> u16 \<Rightarrow> bytes \<Rightarrow> nat \<Rightarrow> parsed) cptr"
  mi_parseExt :: "(u16 \<Rightarrow> u16 \<Rightarrow> bytes \<Rightarrow> nat \<Rightarrow> parsed) cptr"

record MbusBase =
  mb_pIf :: "MbusIf cptr"
  mb_element :: DeviceElement
  mb_devAddr :: u16
  mb_regAddr :: u16
  mb_delay :: u16
  mb_bFeedback :: bool
  mb_bOnlineCheck :: bool
  mb_hbIgnore :: int
  mb_bFullDuplex :: bool
  mb_bGroupMember :: bool
  mb_pSerial :: "nat cptr"
  mb_lostCnt :: u8

datatype mslot = mSwitch | mSpeed | mMode | mTemp | mEnvTemp | mErrorCode | mHumi | mPM25 | mCO2
  | mHumidity | mFlow | mTDS | mFilterTime | mReset | mValve | mEnvHumi | mFault | mDirec | mPos

record mbus_obj =
  ob_localPoint :: nat
  ob_type :: u8
  ob_rcvValue :: u32
  ob_value :: u32
  ob_valueOld :: u32
  ob_forceSync :: int
  ob_cloudPoint :: int

record mbus_dev =
  md_base :: MbusBase
  md_next :: "MbusBase list"
  md_objs :: "mslot \<Rightarrow> mbus_obj cptr"

abbreviation md_element :: "mbus_dev \<Rightarrow> DeviceElement" where
  "md_element d \<equiv> mb_element (md_base d)"

type_synonym mbus_list = "mbus_dev list"

text \<open>A value that a plugin parsed, with the key of its device.\<close>

record arrived =
  ar_pPrimaryKey :: string
  ar_localPoint :: nat
  ar_rcvValue :: u32
  ar_value :: u32

text \<open>
  The number of a device, from the twelfth character of its key on; \<open>NULL\<close> when there is no
  number there or it does not fit \<open>long\<close>.
\<close>

definition dev_number :: "string \<Rightarrow> u32 cptr exec" where
  "dev_number key =
     (if length key < 12 then None
      else Some (case strtol (drop 12 key) of
                   None \<Rightarrow> NULL
                 | Some (v, err) \<Rightarrow> if err then NULL else Ptr (word_of_int v)))"

definition ModbusDevIdMatch :: "mbus_dev \<Rightarrow> u32 \<Rightarrow> bool" where
  "ModbusDevIdMatch d devId \<longleftrightarrow> el_devId (md_element d) = devId"

text \<open>An operation at the first device with a number; \<open>none\<close> when there is none.\<close>

fun at_device :: "u32 \<Rightarrow> (mbus_dev \<Rightarrow> ('r \<times> mbus_dev) exec) \<Rightarrow> 'r \<Rightarrow> mbus_list \<Rightarrow> ('r \<times> mbus_list) exec" where
  "at_device devId f none [] = Some (none, [])"
| "at_device devId f none (d # ds) =
     (if ModbusDevIdMatch d devId then do { (r, d) \<leftarrow> f d; Some (r, d # ds) }
      else do { (r, ds) \<leftarrow> at_device devId f none ds; Some (r, d # ds) })"

subsection \<open>Writing\<close>

definition ser_open :: "env \<Rightarrow> nat \<Rightarrow> elog \<Rightarrow> int \<times> elog" where
  "ser_open ev p lg = (let lg = lg @ [SerOpen p] in (ev_seropen ev lg, lg))"

definition can_build :: "MbusIf cptr \<Rightarrow> bool" where
  "can_build p = (case p of NULL \<Rightarrow> False | Ptr i \<Rightarrow> mi_build i \<noteq> NULL \<or> mi_buildExt i \<noteq> NULL)"

definition call_build :: "MbusBase \<Rightarrow> u16 \<Rightarrow> ty_obj_dp cptr \<Rightarrow> Msg cptr exec" where
  "call_build b grp dp =
     (case mb_pIf b of NULL \<Rightarrow> None
      | Ptr i \<Rightarrow>
          (case mi_build i of
             Ptr f \<Rightarrow> f (ucast (mb_devAddr b)) (mb_regAddr b) grp dp
           | NULL \<Rightarrow>
               (case mi_buildExt i of
                  Ptr f \<Rightarrow> f (mb_devAddr b) (mb_regAddr b) grp dp
                | NULL \<Rightarrow> Some NULL)))"

text \<open>Handing a message to the serial port, which reads \<open>len\<close> bytes of it.\<close>

definition send_msg :: "nat \<Rightarrow> Msg \<Rightarrow> elog \<Rightarrow> elog exec" where
  "send_msg port msg lg =
     (if msg_len msg \<le> length (msg_pBuf msg) then Some (lg @ [SerSend port (take (msg_len msg) (msg_pBuf msg))])
      else None)"

text \<open>The counter of lost messages is incremented twice below three.\<close>

definition lost_step :: "u8 \<Rightarrow> u8" where
  "lost_step c = (let c = c + 1 in if c < 3 then c + 1 else 0)"

text \<open>
  The other members of a group get the same data point. They are sent through the port of the
  first device; a plugin that fails leaves the function with the port open.
\<close>

fun write_members :: "env \<Rightarrow> u16 \<Rightarrow> nat \<Rightarrow> ty_obj_dp \<Rightarrow> MbusBase list \<Rightarrow> elog \<Rightarrow> (int \<times> elog) exec" where
  "write_members ev reg port dp [] lg = Some (0, lg)"
| "write_members ev reg port dp (b # bs) lg =
     (case mb_pSerial b of
        NULL \<Rightarrow> None
      | Ptr p \<Rightarrow>
          (case ser_open ev p lg of
             (r, lg) \<Rightarrow>
               if r \<noteq> 0 then write_members ev reg port dp bs lg
               else do {
                 m \<leftarrow> call_build b reg (Ptr dp);
                 (case m of
                    NULL \<Rightarrow> Some (- 1, lg)
                  | Ptr msg \<Rightarrow>
                      if msg_len msg = 0 then Some (- 1, lg)
                      else do {
                        lg \<leftarrow> send_msg port msg lg;
                        write_members ev reg port dp bs (lg @ [SerClose p]) }) }))"

text \<open>The direct result of a write without feedback: the KNX device and the cloud are told.\<close>

definition tell_others :: "env \<Rightarrow> MbusBase \<Rightarrow> ty_obj_dp \<Rightarrow> elog \<Rightarrow> elog" where
  "tell_others ev b dp lg =
     (let el = mb_element b in
      if mb_bFeedback b then lg
      else
        (let lg = (case el_pvForeignKey el of
                     NULL \<Rightarrow> lg
                   | Ptr fk \<Rightarrow> if el_bMaster el then lg @ [KnxSync fk dp] else lg)
         in if ev_active ev then lg @ [CloudReport (el_pPrimaryKey el) dp, HbFresh (el_pPrimaryKey el)] else lg))"

definition write_device ::
  "env \<Rightarrow> ty_obj_dp \<Rightarrow> elog \<Rightarrow> mbus_dev \<Rightarrow> ((int \<times> elog) \<times> mbus_dev) exec" where
  "write_device ev dp lg d =
     (let b = md_base d in
      if \<not> can_build (mb_pIf b) then Some ((- 1, lg), d)
      else
        (case mb_pSerial b of
           NULL \<Rightarrow> Some ((- 1, lg), d)
         | Ptr port \<Rightarrow>
             (case ser_open ev port lg of
                (r, lg) \<Rightarrow>
                  if r \<noteq> 0 then do {
                    x \<leftarrow> write_members ev (mb_regAddr b) port dp (md_next d) (tell_others ev b dp lg);
                    Some (x, d) }
                  else do {
                    m \<leftarrow> call_build b (mb_regAddr b) (Ptr dp);
                    (case m of
                       NULL \<Rightarrow> Some ((- 1, lg @ [SerClose port]), d)
                     | Ptr msg \<Rightarrow>
                         if msg_len msg = 0 then Some ((- 1, lg @ [SerClose port]), d)
                         else do {
                           lg \<leftarrow> send_msg port msg lg;
                           let d = d\<lparr>md_base := b\<lparr>mb_lostCnt := lost_step (mb_lostCnt b)\<rparr>\<rparr>;
                           let lg = (if mb_bFeedback b then lg @ [SerRecv port]
                                     else if \<not> mb_bFullDuplex b then lg @ [SerClose port] else lg);
                           x \<leftarrow> write_members ev (mb_regAddr b) port dp (md_next d) (tell_others ev b dp lg);
                           Some (x, d) }) })))"

definition ModbusDevWrite ::
  "env \<Rightarrow> string cptr \<Rightarrow> ty_obj_dp cptr \<Rightarrow> mbus_list \<Rightarrow> elog \<Rightarrow> ((int \<times> elog) \<times> mbus_list) exec" where
  "ModbusDevWrite ev pDevId pObj ds lg =
     (case (pDevId, pObj) of
        (Ptr key, Ptr dp) \<Rightarrow> do {
          n \<leftarrow> dev_number key;
          (case n of
             NULL \<Rightarrow> Some ((- 1, lg), ds)
           | Ptr devId \<Rightarrow> at_device devId (write_device ev dp lg) (- 1, lg) ds) }
      | _ \<Rightarrow> Some ((- 1, lg), ds))"

subsection \<open>Values that arrive\<close>

definition MBUS_FORCE_SYNC_NUM :: int where "MBUS_FORCE_SYNC_NUM = 3"

text \<open>
  The points of each type of device in the order of the comparisons, each with \<open>bReport\<close>.
\<close>

definition points_of :: "nat \<Rightarrow> (mslot \<times> bool) list option" where
  "points_of ty =
     (if ty = device_code MODBUS_DEVICE_AIRCONDITION then
        Some [(mSwitch, True), (mSpeed, True), (mMode, True), (mTemp, True), (mEnvTemp, False), (mErrorCode, True)]
      else if ty = device_code MODBUS_DEVICE_VENTILATION then Some [(mSwitch, True), (mSpeed, True)]
      else if ty = device_code MODBUS_DEVICE_FLOORHEATING then
        Some [(mSwitch, True), (mTemp, True), (mEnvTemp, False)]
      else if ty = device_code MODBUS_DEVICE_AQI then
        Some [(mHumi, True), (mTemp, True), (mPM25, False), (mCO2, False)]
      else if ty = device_code MODBUS_DEVICE_HUMIDIFIER then Some [(mHumidity, True), (mSwitch, True)]
      else if ty = device_code MODBUS_DEVICE_PURIFIER then
        Some [(mFlow, True), (mTDS, True), (mFilterTime, True), (mReset, True)]
      else if ty = device_code MODBUS_DEVICE_CURTAIN then Some [(mSwitch, True)]
      else if ty = device_code MODBUS_DEVICE_PANNEL then Some [(mSwitch, True)]
      else None)"

text \<open>Whether a point that no comparison takes is freed.\<close>

definition frees_unknown :: "nat \<Rightarrow> bool" where
  "frees_unknown ty \<longleftrightarrow> ty \<noteq> device_code MODBUS_DEVICE_AIRCONDITION \<and> ty \<noteq> device_code MODBUS_DEVICE_VENTILATION"

fun find_point ::
  "(mslot \<Rightarrow> mbus_obj cptr) \<Rightarrow> nat \<Rightarrow> (mslot \<times> bool) list \<Rightarrow> (mslot \<times> mbus_obj \<times> bool) option exec" where
  "find_point objs lp [] = Some None"
| "find_point objs lp ((s, rep) # ps) =
     (case objs s of
        NULL \<Rightarrow> None
      | Ptr x \<Rightarrow> if lp = ob_localPoint x then Some (Some (s, x, rep)) else find_point objs lp ps)"

text \<open>The value is stored; the result says whether it is passed on to the KNX device.\<close>

definition take_arrived :: "arrived \<Rightarrow> mbus_obj \<Rightarrow> bool \<times> mbus_obj" where
  "take_arrived a x =
     (let x = x\<lparr>ob_value := ar_value a, ob_rcvValue := ar_rcvValue a\<rparr> in
      if ob_valueOld x = ob_value x \<and> ob_forceSync x < MBUS_FORCE_SYNC_NUM
      then (False, x\<lparr>ob_forceSync := ob_forceSync x + 1\<rparr>)
      else (True, x\<lparr>ob_forceSync := 0, ob_valueOld := ob_value x\<rparr>))"

definition err_bytes :: "u32 \<Rightarrow> bytes" where
  "err_bytes v = [ucast (drop_bit 8 v), ucast (v AND 0xff)]"

text \<open>
  What one value leads to: a call of \<open>KnxGroupWrite\<close>, a report to the cloud and a heartbeat.
\<close>

definition value_dp :: "arrived \<Rightarrow> mbus_obj \<Rightarrow> ty_obj_dp" where
  "value_dp a x = \<lparr>dpid = word_of_int (ob_cloudPoint x), dp_type = ob_type x, dp_raw = ar_value a\<rparr>"

definition sync_effect :: "DeviceElement \<Rightarrow> mslot \<Rightarrow> arrived \<Rightarrow> mbus_obj \<Rightarrow> elog" where
  "sync_effect el s a x =
     (case el_pvForeignKey el of
        NULL \<Rightarrow> []
      | Ptr fk \<Rightarrow>
          if s = mErrorCode then [KnxSyncStr fk (word_of_int (ob_cloudPoint x)) (err_bytes (ar_value a))]
          else [KnxSync fk (value_dp a x)])"

definition cloud_effect :: "env \<Rightarrow> DeviceElement \<Rightarrow> mslot \<Rightarrow> bool \<Rightarrow> arrived \<Rightarrow> mbus_obj \<Rightarrow> elog" where
  "cloud_effect ev el s rep a x =
     (if ev_active ev \<and> ev_registered ev (el_pPrimaryKey el) then
        (if \<not> rep then []
         else if s = mErrorCode then [CloudStr (ar_pPrimaryKey a) (word_of_int (ob_cloudPoint x)) (err_bytes (ar_value a))]
         else [CloudReport (ar_pPrimaryKey a) (value_dp a x)])
        @ [HbFresh (ar_pPrimaryKey a)]
      else [])"

text \<open>
  One round of \<open>ModbusDevMonitor\<close>: whether the thread goes on, whether the value was freed,
  and the log.
\<close>

definition monitor_device ::
  "env \<Rightarrow> arrived \<Rightarrow> elog \<Rightarrow> mbus_dev \<Rightarrow> ((bool \<times> elog) \<times> mbus_dev) exec" where
  "monitor_device ev a lg d =
     (let el = md_element d in
      if \<not> el_bMaster el then Some ((False, lg), d)
      else
        (case points_of (el_primaryType el) of
           None \<Rightarrow> Some ((True, lg), d)
         | Some ps \<Rightarrow> do {
             f \<leftarrow> find_point (md_objs d) (ar_localPoint a) ps;
             (case f of
                None \<Rightarrow> Some ((frees_unknown (el_primaryType el), lg), d)
              | Some (s, x, rep) \<Rightarrow> do {
                  let (sync, x) = take_arrived a x;
                  let lg = lg @ (if sync then sync_effect el s a x else []) @ cloud_effect ev el s rep a x;
                  Some ((True, lg), d\<lparr>md_objs := (md_objs d)(s := Ptr x)\<rparr>) }) }))"

definition ModbusDevMonitor_step ::
  "env \<Rightarrow> arrived cptr \<Rightarrow> mbus_list \<Rightarrow> elog \<Rightarrow> (bool \<times> bool \<times> elog \<times> mbus_list) exec" where
  "ModbusDevMonitor_step ev p ds lg =
     (case p of NULL \<Rightarrow> Some (True, True, lg, ds)
      | Ptr a \<Rightarrow> do {
          n \<leftarrow> dev_number (ar_pPrimaryKey a);
          (case n of
             NULL \<Rightarrow> Some (False, False, lg, ds)
           | Ptr devId \<Rightarrow> do {
               ((freed, lg), ds) \<leftarrow> at_device devId (monitor_device ev a lg) (True, lg) ds;
               Some (True, freed, lg, ds) }) })"

subsection \<open>Polling\<close>

text \<open>A read request to a device, as the heartbeat makes it.\<close>

definition health_device :: "env \<Rightarrow> elog \<Rightarrow> mbus_dev \<Rightarrow> (elog \<times> mbus_dev) exec" where
  "health_device ev lg d =
     (let b = md_base d;
          lg = (if \<not> mb_bOnlineCheck b then lg @ [HbFresh (el_pPrimaryKey (mb_element b))] else lg) in
      if mb_hbIgnore b < 5 then Some (lg, d\<lparr>md_base := b\<lparr>mb_hbIgnore := mb_hbIgnore b + 1\<rparr>\<rparr>)
      else do {
        let d = d\<lparr>md_base := b\<lparr>mb_hbIgnore := 0\<rparr>\<rparr>;
        if \<not> can_build (mb_pIf b) then Some (lg, d)
        else do {
          m \<leftarrow> call_build b (mb_regAddr b) NULL;
          (case (m, mb_pSerial b) of
             (Ptr msg, Ptr port) \<Rightarrow>
               (case ser_open ev port lg of
                  (r, lg) \<Rightarrow>
                    if r = 0 then do { lg \<leftarrow> send_msg port msg lg; Some (lg @ [SerRecv port], d) } else Some (lg, d))
           | _ \<Rightarrow> Some (lg, d)) } })"

definition Modbus_DevHealth :: "env \<Rightarrow> string \<Rightarrow> mbus_list \<Rightarrow> elog \<Rightarrow> (elog \<times> mbus_list) exec" where
  "Modbus_DevHealth ev key ds lg = do {
     n \<leftarrow> dev_number key;
     (case n of NULL \<Rightarrow> Some (lg, ds) | Ptr devId \<Rightarrow> at_device devId (health_device ev lg) lg ds) }"

definition poll_device :: "env \<Rightarrow> mbus_dev \<Rightarrow> elog \<Rightarrow> elog exec" where
  "poll_device ev d lg =
     (let b = md_base d in
      if \<not> can_build (mb_pIf b) then Some lg
      else do {
        m \<leftarrow> call_build b (mb_regAddr b) NULL;
        (case (m, mb_pSerial b) of
           (Ptr msg, Ptr port) \<Rightarrow>
             if msg_len msg = 0 then Some lg
             else
               (case ser_open ev port lg of
                  (r, lg) \<Rightarrow>
                    if r \<noteq> 0 then Some lg
                    else do {
                      lg \<leftarrow> send_msg port msg lg;
                      Some (lg @ (if mb_bFeedback b then [SerRecv port]
                                  else if \<not> mb_bFullDuplex b then [SerClose port] else [])) })
         | _ \<Rightarrow> Some lg) })"

fun Mbus_SyncAllDevStatus :: "env \<Rightarrow> mbus_list \<Rightarrow> elog \<Rightarrow> elog exec" where
  "Mbus_SyncAllDevStatus ev [] lg = Some lg"
| "Mbus_SyncAllDevStatus ev (d # ds) lg = do {
     lg \<leftarrow> poll_device ev d lg;
     Mbus_SyncAllDevStatus ev ds lg }"

subsection \<open>Values in a row\<close>

text \<open>A run of the monitor over values that arrive, with what was not freed.\<close>

fun monitor_run :: "env \<Rightarrow> arrived list \<Rightarrow> mbus_list \<Rightarrow> elog \<Rightarrow> (nat \<times> elog \<times> mbus_list) exec" where
  "monitor_run ev [] ds lg = Some (0, lg, ds)"
| "monitor_run ev (a # as) ds lg = do {
     (alive, freed, lg, ds) \<leftarrow> ModbusDevMonitor_step ev (Ptr a) ds lg;
     if \<not> alive then Some (1, lg, ds)
     else do {
       (n, lg, ds) \<leftarrow> monitor_run ev as ds lg;
       Some (if freed then n else Suc n, lg, ds) } }"

text \<open>A device that is the first one with the number in a key.\<close>

definition first_of_key :: "string \<Rightarrow> mbus_list \<Rightarrow> mbus_dev \<Rightarrow> bool" where
  "first_of_key key pre d \<longleftrightarrow>
     dev_number key = Some (Ptr (el_devId (md_element d)))
     \<and> (\<forall>x \<in> set pre. el_devId (md_element x) \<noteq> el_devId (md_element d))"

lemma at_device_hit:
  assumes "el_devId (md_element d) = n" and "\<forall>x \<in> set pre. el_devId (md_element x) \<noteq> n"
  shows "at_device n f none (pre @ d # ds) = map_option (\<lambda>(r, d). (r, pre @ d # ds)) (f d)"
  using assms(2)
proof (induction pre)
  case Nil
  then show ?case by (cases "f d") (auto simp: ModbusDevIdMatch_def assms(1))
next
  case (Cons x pre)
  then show ?case by (cases "f d") (auto simp: ModbusDevIdMatch_def)
qed

lemma at_device_none:
  "\<forall>x \<in> set ds. el_devId (md_element x) \<noteq> n \<Longrightarrow> at_device n f none ds = Some (none, ds)"
  by (induction ds) (auto simp: ModbusDevIdMatch_def)

lemma monitor_step_hit:
  assumes "first_of_key (ar_pPrimaryKey a) pre d" and "el_bMaster (md_element d)"
    and "points_of (el_primaryType (md_element d)) = Some ps"
    and "find_point (md_objs d) (ar_localPoint a) ps = Some (Some (s, x, rep))"
    and "take_arrived a x = (sync, y)"
  shows "ModbusDevMonitor_step ev (Ptr a) (pre @ d # ds) lg =
    Some (True, True,
      lg @ (if sync then sync_effect (md_element d) s a y else []) @ cloud_effect ev (md_element d) s rep a y,
      pre @ d\<lparr>md_objs := (md_objs d)(s := Ptr y)\<rparr> # ds)"
  using assms
  by (simp add: ModbusDevMonitor_step_def first_of_key_def at_device_hit [OF refl] monitor_device_def Let_def)

lemma find_point_slot: "find_point objs lp ps = Some (Some (s, x, rep)) \<Longrightarrow> objs s = Ptr x \<and> ob_localPoint x = lp \<and> (s, rep) \<in> set ps"
  by (induction objs lp ps rule: find_point.induct) (auto split: cptr.splits if_splits)

lemma find_point_update:
  "find_point objs lp ps = Some (Some (s, x, rep)) \<Longrightarrow> ob_localPoint y = ob_localPoint x \<Longrightarrow>
   find_point (objs(s := Ptr y)) lp ps = Some (Some (s, y, rep))"
proof (induction ps)
  case (Cons p ps)
  obtain t r where p: "p = (t, r)" by (cases p)
  obtain z where z: "objs t = Ptr z" using Cons.prems(1) by (cases "objs t") (simp_all add: p)
  show ?case
  proof (cases "lp = ob_localPoint z")
    case True
    with Cons.prems show ?thesis by (simp add: p z)
  next
    case False
    with Cons.prems(1) have rest: "find_point objs lp ps = Some (Some (s, x, rep))" by (simp add: p z)
    with find_point_slot [OF rest] False z have "t \<noteq> s" by auto
    with Cons.IH [OF rest Cons.prems(2)] False show ?thesis by (simp add: p z)
  qed
qed simp

fun is_sync :: "effect \<Rightarrow> bool" where
  "is_sync (KnxSync _ _) = True" | "is_sync (KnxSyncStr _ _ _) = True" | "is_sync _ = False"

fun is_cloud :: "effect \<Rightarrow> bool" where
  "is_cloud (CloudReport _ _) = True" | "is_cloud (CloudStr _ _ _) = True" | "is_cloud _ = False"

lemma effects_counted:
  "filter is_sync (cloud_effect ev el s rep a y) = []"
  "filter is_cloud (sync_effect el s a y) = []"
  "length (filter is_cloud (cloud_effect ev el s rep a y))
     = (if rep \<and> ev_active ev \<and> ev_registered ev (el_pPrimaryKey el) then 1 else 0)"
  "length (filter is_sync (sync_effect el s a y)) = (if el_pvForeignKey el = NULL then 0 else 1)"
  by (auto simp: cloud_effect_def sync_effect_def split: cptr.splits)

text \<open>
  A device at which values of one point arrive: the point, its object, how often the same value
  has come since it was last passed on.
\<close>

definition receives :: "arrived \<Rightarrow> mbus_list \<Rightarrow> mbus_dev \<Rightarrow> mslot \<Rightarrow> bool \<Rightarrow> nat \<Rightarrow> bool" where
  "receives a pre d s rep k \<longleftrightarrow>
     first_of_key (ar_pPrimaryKey a) pre d \<and> el_bMaster (md_element d)
     \<and> (\<exists>ps x. points_of (el_primaryType (md_element d)) = Some ps
         \<and> find_point (md_objs d) (ar_localPoint a) ps = Some (Some (s, x, rep))
         \<and> ob_valueOld x = ar_value a \<and> ob_forceSync x = int k \<and> k \<le> 3)"

lemma receives_step:
  assumes "receives a pre d s rep k"
  shows "\<exists>d' y. ModbusDevMonitor_step ev (Ptr a) (pre @ d # ds) lg =
      Some (True, True, lg @ (if k = 3 then sync_effect (md_element d) s a y else [])
        @ cloud_effect ev (md_element d) s rep a y, pre @ d' # ds)
    \<and> receives a pre d' s rep (if k = 3 then 0 else Suc k) \<and> md_element d' = md_element d"
proof -
  from assms obtain ps x where d: "first_of_key (ar_pPrimaryKey a) pre d" "el_bMaster (md_element d)"
    "points_of (el_primaryType (md_element d)) = Some ps"
    "find_point (md_objs d) (ar_localPoint a) ps = Some (Some (s, x, rep))"
    "ob_valueOld x = ar_value a" "ob_forceSync x = int k" "k \<le> 3"
    by (auto simp: receives_def)
  obtain sync y where y: "take_arrived a x = (sync, y)" by (cases "take_arrived a x")
  have t: "sync \<longleftrightarrow> k = 3" "ob_valueOld y = ar_value a" "ob_forceSync y = int (if k = 3 then 0 else Suc k)"
    "ob_localPoint y = ob_localPoint x"
    using y d(5-7) by (auto simp: take_arrived_def MBUS_FORCE_SYNC_NUM_def Let_def split: if_splits)
  let ?d = "d\<lparr>md_objs := (md_objs d)(s := Ptr y)\<rparr>"
  have "receives a pre ?d s rep (if k = 3 then 0 else Suc k)"
    unfolding receives_def
    using d t find_point_update [OF d(4) t(4)] by (auto simp: first_of_key_def)
  with monitor_step_hit [OF d(1-4) y, of ev ds lg] t(1) show ?thesis by auto
qed

lemma receives_run:
  assumes "receives a pre d s rep k"
  shows "\<exists>new ds'. monitor_run ev (replicate n a) (pre @ d # ds) lg = Some (0, lg @ new, ds')
    \<and> length (filter is_cloud new)
        = (if rep \<and> ev_active ev \<and> ev_registered ev (el_pPrimaryKey (md_element d)) then n else 0)
    \<and> length (filter is_sync new) = (if el_pvForeignKey (md_element d) = NULL then 0 else (k + n) div 4)"
  using assms
proof (induction n arbitrary: d k lg)
  case 0
  then show ?case by (auto simp: receives_def)
next
  case (Suc n)
  obtain d' y where st: "ModbusDevMonitor_step ev (Ptr a) (pre @ d # ds) lg =
      Some (True, True, lg @ (if k = 3 then sync_effect (md_element d) s a y else [])
        @ cloud_effect ev (md_element d) s rep a y, pre @ d' # ds)"
    and d': "receives a pre d' s rep (if k = 3 then 0 else Suc k)" and el: "md_element d' = md_element d"
    using receives_step [OF Suc.prems] by blast
  let ?e = "(if k = 3 then sync_effect (md_element d) s a y else []) @ cloud_effect ev (md_element d) s rep a y"
  obtain new ds' where run: "monitor_run ev (replicate n a) (pre @ d' # ds) (lg @ ?e) = Some (0, (lg @ ?e) @ new, ds')"
    "length (filter is_cloud new)
        = (if rep \<and> ev_active ev \<and> ev_registered ev (el_pPrimaryKey (md_element d)) then n else 0)"
    "length (filter is_sync new)
        = (if el_pvForeignKey (md_element d) = NULL then 0 else ((if k = 3 then 0 else Suc k) + n) div 4)"
    using Suc.IH [OF d', of "lg @ ?e"] unfolding el by blast
  have "k \<le> 3" using Suc.prems by (auto simp: receives_def)
  then have k: "((if k = 3 then 0 else Suc k) + n) div 4 + (if k = 3 then 1 else 0) = (k + Suc n) div 4" by auto
  have "monitor_run ev (replicate (Suc n) a) (pre @ d # ds) lg = Some (0, lg @ (?e @ new), ds')"
    using st run(1) by simp
  moreover have "length (filter is_cloud (?e @ new))
      = (if rep \<and> ev_active ev \<and> ev_registered ev (el_pPrimaryKey (md_element d)) then Suc n else 0)"
    using run(2) by (auto simp: effects_counted)
  moreover have "length (filter is_sync (?e @ new))
      = (if el_pvForeignKey (md_element d) = NULL then 0 else (k + Suc n) div 4)"
    using run(3) k effects_counted(4) [of "md_element d" s a y] by (auto simp: effects_counted(1))
  ultimately show ?case by blast
qed

subsection \<open>Ports that are held\<close>

text \<open>
  How often a port is held after the effects of a log: opening it takes it when the call returns
  0, closing it gives it back, and so does the thread that a request to receive starts.
\<close>

fun port_change :: "env \<Rightarrow> nat \<Rightarrow> elog \<Rightarrow> effect \<Rightarrow> int" where
  "port_change ev p lg (SerOpen q) = (if q = p \<and> ev_seropen ev lg = 0 then 1 else 0)"
| "port_change ev p lg (SerClose q) = (if q = p then - 1 else 0)"
| "port_change ev p lg (SerRecv q) = (if q = p then - 1 else 0)"
| "port_change ev p lg _ = 0"

fun ports_from :: "env \<Rightarrow> nat \<Rightarrow> elog \<Rightarrow> elog \<Rightarrow> int" where
  "ports_from ev p pre [] = 0"
| "ports_from ev p pre (e # es) = port_change ev p (pre @ [e]) e + ports_from ev p (pre @ [e]) es"

definition ports :: "env \<Rightarrow> nat \<Rightarrow> elog \<Rightarrow> int" where
  "ports ev p lg = ports_from ev p [] lg"

lemma ports_from_append: "ports_from ev p pre (xs @ ys) = ports_from ev p pre xs + ports_from ev p (pre @ xs) ys"
  by (induction xs arbitrary: pre) auto

lemma ports_append [simp]: "ports ev p (lg @ es) = ports ev p lg + ports_from ev p lg es"
  by (simp add: ports_def ports_from_append)

lemma ser_open_ports: "ser_open ev q lg = (r, lg') \<Longrightarrow> ports ev p lg' = ports ev p lg + (if q = p \<and> r = 0 then 1 else 0)"
  by (auto simp: ser_open_def Let_def)

lemma send_msg_ports: "send_msg q msg lg = Some lg' \<Longrightarrow> ports ev p lg' = ports ev p lg"
  by (auto simp: send_msg_def split: if_splits)

lemma ser_open_all: "ser_open ev q lg = (r, lg') \<Longrightarrow> \<forall>p. ports ev p lg' = ports ev p lg + (if q = p \<and> r = 0 then 1 else 0)"
  using ser_open_ports by blast

lemma send_msg_all: "send_msg q msg lg = Some lg' \<Longrightarrow> \<forall>p. ports ev p lg' = ports ev p lg"
  using send_msg_ports by blast

lemma tell_others_ports: "ports ev p (tell_others ev b dp lg) = ports ev p lg"
  by (auto simp: tell_others_def Let_def split: cptr.splits)

text \<open>What a call may leave behind: nothing when it returns 0, at most one port held otherwise.\<close>

definition kept :: "env \<Rightarrow> elog \<Rightarrow> int \<Rightarrow> elog \<Rightarrow> bool" where
  "kept ev lg r lg' \<longleftrightarrow> (\<forall>p. ports ev p lg \<le> ports ev p lg' \<and> ports ev p lg' \<le> ports ev p lg + 1)
     \<and> (r = 0 \<longrightarrow> (\<forall>p. ports ev p lg' = ports ev p lg))"

lemma kept_refl [simp]: "kept ev lg r lg"
  by (simp add: kept_def)

lemma kept_from: "(\<And>p. ports ev p lg1 = ports ev p lg) \<Longrightarrow> kept ev lg1 r lg' \<Longrightarrow> kept ev lg r lg'"
  by (simp add: kept_def)

lemma write_members_kept: "write_members ev reg port dp bs lg = Some (r, lg') \<Longrightarrow> kept ev lg r lg'"
proof (induction bs arbitrary: lg)
  case (Cons b bs)
  from Cons.prems obtain q where q: "mb_pSerial b = Ptr q" by (auto split: cptr.splits)
  obtain o1 lg1 where o: "ser_open ev q lg = (o1, lg1)" by fastforce
  note lg1 = ser_open_ports [OF o]
  show ?case
  proof (cases "o1 = 0")
    case False
    with Cons.prems q o lg1 show ?thesis by (auto intro: kept_from [OF _ Cons.IH])
  next
    case True
    with Cons.prems q o obtain m where m: "call_build b reg (Ptr dp) = Some m" by (auto split: bind_splits)
    show ?thesis
    proof (cases "\<exists>msg. m = Ptr msg \<and> msg_len msg \<noteq> 0")
      case False
      with Cons.prems q o True m have "r = - 1" "lg' = lg1" by (auto split: cptr.splits if_splits)
      with lg1 True show ?thesis by (simp add: kept_def)
    next
      case sent: True
      with Cons.prems q o True m obtain msg lg2 where lg2: "send_msg port msg lg1 = Some lg2"
        and run: "write_members ev reg port dp bs (lg2 @ [SerClose q]) = Some (r, lg')"
        by (auto split: bind_splits)
      show ?thesis
        by (rule kept_from [OF _ Cons.IH [OF run]]) (simp add: send_msg_ports [OF lg2] lg1 True)
    qed
  qed
qed (simp add: kept_def)

lemma write_device_kept:
  assumes "write_device ev dp lg d = Some ((r, lg'), d')" and "mb_bFeedback (md_base d) \<or> \<not> mb_bFullDuplex (md_base d)"
  shows "kept ev lg r lg'"
proof (cases "mb_pSerial (md_base d)")
  case NULL
  with assms show ?thesis by (auto simp: write_device_def Let_def split: if_splits)
next
  case (Ptr port)
  obtain o1 lg1 where o: "ser_open ev port lg = (o1, lg1)" by fastforce
  note lg1 = ser_open_ports [OF o]
  from assms Ptr o lg1 show ?thesis
    by (auto simp: write_device_def Let_def kept_def send_msg_ports tell_others_ports
        dest!: write_members_kept send_msg_all [where ev = ev]
        split: if_splits cptr.splits bind_splits)
qed

lemma at_device_run:
  assumes "at_device n f none ds = Some (r, ds')"
  shows "r = none \<or> (\<exists>d \<in> set ds. \<exists>d'. f d = Some (r, d'))"
  using assms by (induction ds arbitrary: ds') (auto split: if_splits bind_splits)

lemma health_device_kept: "health_device ev lg d = Some (lg', d') \<Longrightarrow> kept ev lg 0 lg'"
  by (auto simp: health_device_def kept_def Let_def
      dest!: ser_open_all send_msg_all [where ev = ev] split: if_splits cptr.splits bind_splits prod.splits)

lemma poll_device_kept:
  "poll_device ev d lg = Some lg' \<Longrightarrow> mb_bFeedback (md_base d) \<or> \<not> mb_bFullDuplex (md_base d) \<Longrightarrow> kept ev lg 0 lg'"
  by (auto simp: poll_device_def kept_def Let_def
      dest!: ser_open_all send_msg_all [where ev = ev] split: if_splits cptr.splits bind_splits prod.splits)

lemma sync_all_kept:
  assumes "Mbus_SyncAllDevStatus ev ds lg = Some lg'"
    and "\<forall>d \<in> set ds. mb_bFeedback (md_base d) \<or> \<not> mb_bFullDuplex (md_base d)"
  shows "kept ev lg 0 lg'"
  using assms
proof (induction ds arbitrary: lg)
  case (Cons d ds)
  then obtain lg1 where p: "poll_device ev d lg = Some lg1" and run: "Mbus_SyncAllDevStatus ev ds lg1 = Some lg'"
    by (auto split: bind_splits)
  from poll_device_kept [OF p] Cons.prems(2) Cons.IH [OF run] show ?case by (simp add: kept_def)
qed simp

subsection \<open>Properties\<close>

text \<open>An air conditioner with a KNX panel behind it, whose switch is on and was passed on.\<close>

definition ex_mobj :: "PointFeature \<Rightarrow> int \<Rightarrow> mbus_obj cptr" where
  "ex_mobj f dp = Ptr \<lparr>ob_localPoint = feature_code f, ob_type = PROP_BOOL, ob_rcvValue = 0, ob_value = 1,
     ob_valueOld = 1, ob_forceSync = 0, ob_cloudPoint = dp\<rparr>"

definition ex_build :: "u8 \<Rightarrow> u16 \<Rightarrow> u16 \<Rightarrow> ty_obj_dp cptr \<Rightarrow> Msg cptr exec" where
  "ex_build devId reg grp dp = Some (Ptr \<lparr>msg_pBuf = [devId, 6, ucast reg], msg_len = 3\<rparr>)"

definition ex_mbase :: MbusBase where
  "ex_mbase = \<lparr>mb_pIf = Ptr \<lparr>mi_build = Ptr ex_build, mi_buildExt = NULL, mi_parse = NULL, mi_parseExt = NULL\<rparr>,
     mb_element = \<lparr>el_szName = ''MbusAcd'', el_pPrimaryKey = ''0123456789ab9'', el_devId = 9, el_pProductId = ''p9'',
       el_pForeignKey = Ptr ''0123456789ab7'', el_primaryType = device_code MODBUS_DEVICE_AIRCONDITION,
       el_pvForeignKey = Ptr ''0123456789ab7'', el_bMaster = True, el_attri = DEVICE_ATTRI_ACTUATOR\<rparr>,
     mb_devAddr = 1, mb_regAddr = 2, mb_delay = 0, mb_bFeedback = False, mb_bOnlineCheck = True, mb_hbIgnore = 0,
     mb_bFullDuplex = False, mb_bGroupMember = False, mb_pSerial = Ptr 4, mb_lostCnt = 0\<rparr>"

definition ex_mdev :: mbus_dev where
  "ex_mdev = \<lparr>md_base = ex_mbase, md_next = [], md_objs = (\<lambda>_. NULL)(mSwitch := ex_mobj ACD_SWITCH 1)\<rparr>"

definition ex_arrived :: "PointFeature \<Rightarrow> u32 \<Rightarrow> arrived" where
  "ex_arrived f v = \<lparr>ar_pPrimaryKey = ''0123456789ab9'', ar_localPoint = feature_code f, ar_rcvValue = v, ar_value = v\<rparr>"

lemma ex_number: "dev_number ''0123456789ab9'' = Some (Ptr 9)"
  by (simp add: dev_number_def strtol_def scan_num_def is_space_def dig_def num_val_def)

lemma ex_receives: "receives (ex_arrived ACD_SWITCH 1) [] ex_mdev mSwitch True 0"
  by (simp add: receives_def first_of_key_def ex_number ex_arrived_def ex_mdev_def ex_mbase_def ex_mobj_def points_of_def)

text \<open>
  Claim C9. A value that keeps arriving unchanged from a Modbus device is passed on to its KNX
  device every fourth time and no more often, whatever the phase; the cloud gets every one of
  them. Nothing is leaked.
\<close>

theorem unchanged_values_throttled:
  assumes "receives a pre d s rep k"
  shows "\<exists>new ds'. monitor_run ev (replicate n a) (pre @ d # ds) lg = Some (0, lg @ new, ds')
    \<and> length (filter is_cloud new)
        = (if rep \<and> ev_active ev \<and> ev_registered ev (el_pPrimaryKey (md_element d)) then n else 0)
    \<and> length (filter is_sync new) = (if el_pvForeignKey (md_element d) = NULL then 0 else (k + n) div 4)"
  by (rule receives_run [OF assms])

theorem unchanged_values_throttled_witness:
  "\<exists>new ds'. monitor_run ex_env (replicate 9 (ex_arrived ACD_SWITCH 1)) [ex_mdev] [] = Some (0, new, ds')
    \<and> length (filter is_cloud new) = 9 \<and> length (filter is_sync new) = 2"
  using unchanged_values_throttled [OF ex_receives, of ex_env 9 "[]" "[]"]
  by (simp add: ex_env_def ex_mdev_def ex_mbase_def)

text \<open>
  A value that differs from the last one passed on reaches the KNX device at once, and
  the cloud if its point is one that is reported. The room temperature of air conditioners
  and floor heatings and the fine dust and carbon dioxide of an air sensor are not among those:
  they never reach the cloud from the Modbus side.
\<close>

lemma changed_value_passed_on:
  assumes "first_of_key (ar_pPrimaryKey a) pre d" and "el_bMaster (md_element d)"
    and "points_of (el_primaryType (md_element d)) = Some ps"
    and "find_point (md_objs d) (ar_localPoint a) ps = Some (Some (s, x, rep))"
    and "ob_valueOld x \<noteq> ar_value a"
    and "el_pvForeignKey (md_element d) = Ptr fk" and "s \<noteq> mErrorCode"
    and "ev_active ev" and "ev_registered ev (el_pPrimaryKey (md_element d))"
  shows "\<exists>d'. ModbusDevMonitor_step ev (Ptr a) (pre @ d # ds) lg =
      Some (True, True, lg @ KnxSync fk (value_dp a x)
        # (if s \<in> {mEnvTemp, mPM25, mCO2} then [] else [CloudReport (ar_pPrimaryKey a) (value_dp a x)])
        @ [HbFresh (ar_pPrimaryKey a)], pre @ d' # ds)"
proof -
  obtain y where y: "take_arrived a x = (True, y)" "value_dp a y = value_dp a x"
    using assms(5) by (auto simp: take_arrived_def value_dp_def)
  have "rep \<longleftrightarrow> s \<notin> {mEnvTemp, mPM25, mCO2}"
    using assms(3) find_point_slot [OF assms(4)] by (auto simp: points_of_def split: if_splits)
  with monitor_step_hit [OF assms(1-4) y(1), of ev ds lg] assms(6-9) y(2) show ?thesis
    by (auto simp: sync_effect_def cloud_effect_def)
qed

lemma changed_value_passed_on_example:
  "\<exists>d'. ModbusDevMonitor_step ex_env (Ptr (ex_arrived ACD_SWITCH 0)) [ex_mdev] [] =
      Some (True, True, [KnxSync ''0123456789ab7'' \<lparr>dpid = 1, dp_type = PROP_BOOL, dp_raw = 0\<rparr>,
        CloudReport ''0123456789ab9'' \<lparr>dpid = 1, dp_type = PROP_BOOL, dp_raw = 0\<rparr>, HbFresh ''0123456789ab9''], [d'])"
  using changed_value_passed_on [of "ex_arrived ACD_SWITCH 0" "[]" ex_mdev
      "[(mSwitch, True), (mSpeed, True), (mMode, True), (mTemp, True), (mEnvTemp, False), (mErrorCode, True)]" mSwitch
      "\<lparr>ob_localPoint = feature_code ACD_SWITCH, ob_type = PROP_BOOL, ob_rcvValue = 0, ob_value = 1, ob_valueOld = 1,
        ob_forceSync = 0, ob_cloudPoint = 1\<rparr>" True "''0123456789ab7''" ex_env "[]" "[]"]
  by (simp add: first_of_key_def ex_number ex_arrived_def ex_mdev_def ex_mbase_def ex_mobj_def points_of_def value_dp_def
      ex_env_def)

text \<open>
  Which values the monitor does not free: those of a device that is not a master, and
  those of a point that an air conditioner or a ventilation does not have. A key without a
  number ends the thread.
\<close>

lemma monitor_leaks:
  assumes "first_of_key (ar_pPrimaryKey a) pre d"
    and "ModbusDevMonitor_step ev (Ptr a) (pre @ d # ds) lg = Some (alive, freed, lg', ds')"
  shows "alive \<and> (\<not> freed \<longleftrightarrow> \<not> el_bMaster (md_element d)
    \<or> (\<exists>ps. points_of (el_primaryType (md_element d)) = Some ps \<and> find_point (md_objs d) (ar_localPoint a) ps = Some None
        \<and> el_primaryType (md_element d) \<in> {device_code MODBUS_DEVICE_AIRCONDITION, device_code MODBUS_DEVICE_VENTILATION}))"
  using assms
  by (auto simp: ModbusDevMonitor_step_def first_of_key_def at_device_hit [OF refl] monitor_device_def frees_unknown_def
      Let_def split: if_splits option.splits bind_splits prod.splits)

lemma monitor_leaks_example:
  "ModbusDevMonitor_step ex_env (Ptr (ex_arrived ACD_SWITCH 1))
      [ex_mdev\<lparr>md_base := ex_mbase\<lparr>mb_element := (mb_element ex_mbase)\<lparr>el_bMaster := False\<rparr>\<rparr>\<rparr>] []
    = Some (True, False, [], [ex_mdev\<lparr>md_base := ex_mbase\<lparr>mb_element := (mb_element ex_mbase)\<lparr>el_bMaster := False\<rparr>\<rparr>\<rparr>])"
proof -
  let ?d = "ex_mdev\<lparr>md_base := ex_mbase\<lparr>mb_element := (mb_element ex_mbase)\<lparr>el_bMaster := False\<rparr>\<rparr>\<rparr>"
  have key: "first_of_key (ar_pPrimaryKey (ex_arrived ACD_SWITCH 1)) [] ?d"
    by (simp add: first_of_key_def ex_number ex_arrived_def ex_mbase_def)
  have run: "ModbusDevMonitor_step ex_env (Ptr (ex_arrived ACD_SWITCH 1)) [?d] [] = Some (True, False, [], [?d])"
    by (simp add: ModbusDevMonitor_step_def ex_number ex_arrived_def ex_mbase_def ModbusDevIdMatch_def monitor_device_def)
  have "True \<and> (\<not> False \<longleftrightarrow> \<not> el_bMaster (md_element ?d)
    \<or> (\<exists>ps. points_of (el_primaryType (md_element ?d)) = Some ps
        \<and> find_point (md_objs ?d) (ar_localPoint (ex_arrived ACD_SWITCH 1)) ps = Some None
        \<and> el_primaryType (md_element ?d) \<in> {device_code MODBUS_DEVICE_AIRCONDITION, device_code MODBUS_DEVICE_VENTILATION}))"
    using monitor_leaks [OF key, of ex_env "[]" "[]"] run by simp
  then show ?thesis using run by simp
qed





end
