(* ===== verification/Serial_Port.thy ===== *)
theory Serial_Port
  imports Modbus_Handle
begin

text \<open>
  The serial lines, \<open>source/serialHandle.c\<close>: opening and configuring a line, the mutex that keeps
  two devices from using the same line, sending, and the thread that receives the answer
  of a device and hands its values to the Modbus monitor.

  \<^item> \<open>SerialParam\<close> is the state of one port object. Several objects may use the same line; they
    share its mutex, which is a number.
  \<^item> \<open>line_sys\<close> is what the operating system keeps: the mutexes that are locked, the open
    descriptors with their attributes, and the registrations for events.
  \<^item> The results of system calls are arguments. Locking a mutex that is locked is \<open>Blocked\<close>:
    the thread does not return now.
  \<^item> The flags of \<open>struct termios\<close> are those of Linux. The speed is kept beside them, as
    \<open>cfsetispeed\<close> and \<open>cfsetospeed\<close> set it.
\<close>

subsection \<open>Data\<close>

record SerialParam =
  sp_efd :: int
  sp_sfd :: int
  sp_port :: int
  sp_baudrate :: int
  sp_databits :: int
  sp_parity :: int
  sp_stopbits :: int
  sp_devDesc :: string
  sp_bFullDuplex :: bool
  sp_key :: u16
  sp_rcvLen :: u16
  sp_bRcvRun :: bool
  sp_pMutex :: "nat cptr"

record termios =
  c_iflag :: u32
  c_oflag :: u32
  c_cflag :: u32
  c_lflag :: u32
  c_ispeed :: int
  c_ospeed :: int
  c_vmin :: u8
  c_vtime :: u8

record line_sys =
  ls_locked :: "nat \<Rightarrow> bool"
  ls_fds :: "int \<rightharpoonup> termios"
  ls_epoll :: "(int \<times> int) set"

text \<open>The results of the system calls of one \<open>SerialOpen\<close>, and the attributes the line has.\<close>

record open_res =
  or_open :: int
  or_old :: termios
  or_tcsetattr :: int
  or_epoll :: int

type_synonym serial = "SerialParam cptr cptr"

subsection \<open>The attributes of a line\<close>

definition CSTOPB :: u32 where "CSTOPB = 0x40"
definition CSIZE :: u32 where "CSIZE = 0x30"
definition CS5 :: u32 where "CS5 = 0"
definition CS6 :: u32 where "CS6 = 0x10"
definition CS7 :: u32 where "CS7 = 0x20"
definition CS8 :: u32 where "CS8 = 0x30"
definition PARENB :: u32 where "PARENB = 0x100"
definition PARODD :: u32 where "PARODD = 0x200"
definition CLOCAL :: u32 where "CLOCAL = 0x800"
definition CREAD :: u32 where "CREAD = 0x80"
definition CRTSCTS :: u32 where "CRTSCTS = 0x80000000"
definition INPCK :: u32 where "INPCK = 0x10"
definition ISTRIP :: u32 where "ISTRIP = 0x20"
definition IXON :: u32 where "IXON = 0x400"
definition IXOFF :: u32 where "IXOFF = 0x1000"
definition IXANY :: u32 where "IXANY = 0x800"
definition IGNPAR :: u32 where "IGNPAR = 4"
definition ICRNL :: u32 where "ICRNL = 0x100"
definition IGNCR :: u32 where "IGNCR = 0x80"
definition INLCR :: u32 where "INLCR = 0x40"
definition ONLCR :: u32 where "ONLCR = 4"
definition OCRNL :: u32 where "OCRNL = 8"
definition OPOST :: u32 where "OPOST = 1"
definition ICANON :: u32 where "ICANON = 2"
definition ECHO :: u32 where "ECHO = 8"
definition ECHOE :: u32 where "ECHOE = 0x10"
definition ISIG :: u32 where "ISIG = 1"

lemmas termios_flags = CSTOPB_def CSIZE_def CS5_def CS6_def CS7_def CS8_def PARENB_def PARODD_def CLOCAL_def CREAD_def
  CRTSCTS_def INPCK_def ISTRIP_def IXON_def IXOFF_def IXANY_def IGNPAR_def ICRNL_def IGNCR_def INLCR_def ONLCR_def
  OCRNL_def OPOST_def ICANON_def ECHO_def ECHOE_def ISIG_def

definition set_stopbits :: "int \<Rightarrow> termios \<Rightarrow> termios" where
  "set_stopbits n opt = opt\<lparr>c_cflag := (if n = 2 then c_cflag opt OR CSTOPB else c_cflag opt AND NOT CSTOPB)\<rparr>"

definition set_databits :: "int \<Rightarrow> termios \<Rightarrow> termios" where
  "set_databits n opt =
     opt\<lparr>c_cflag := (c_cflag opt AND NOT CSIZE)
        OR (if n = 5 then CS5 else if n = 6 then CS6 else if n = 7 then CS7 else CS8)\<rparr>"

abbreviation ch :: "char \<Rightarrow> int" where
  "ch c \<equiv> of_char c"

definition set_parity :: "int \<Rightarrow> termios \<Rightarrow> termios" where
  "set_parity c opt =
     (if c = ch CHR ''o'' \<or> c = ch CHR ''O'' then
        opt\<lparr>c_cflag := (c_cflag opt OR PARENB) OR PARODD, c_iflag := (c_iflag opt OR INPCK) AND NOT ISTRIP\<rparr>
      else if c = ch CHR ''e'' \<or> c = ch CHR ''E'' then
        opt\<lparr>c_cflag := (c_cflag opt OR PARENB) AND NOT PARODD, c_iflag := (c_iflag opt OR INPCK) AND NOT ISTRIP\<rparr>
      else opt\<lparr>c_cflag := c_cflag opt AND NOT PARENB, c_iflag := c_iflag opt AND NOT INPCK\<rparr>)"

definition baud_rates :: "int list" where
  "baud_rates = [1200, 2400, 4800, 9600, 19200, 38400, 57600, 115200]"

definition set_speed :: "int \<Rightarrow> termios \<Rightarrow> termios" where
  "set_speed b opt = (let s = (if b \<in> set baud_rates then b else 9600) in opt\<lparr>c_ispeed := s, c_ospeed := s\<rparr>)"

definition set_raw :: "termios \<Rightarrow> termios" where
  "set_raw opt =
     (let opt = opt\<lparr>c_cflag := (c_cflag opt OR (CLOCAL OR CREAD)) AND NOT CRTSCTS\<rparr>;
          opt = opt\<lparr>c_iflag := c_iflag opt AND NOT (IXON OR IXOFF OR IXANY)\<rparr>;
          opt = opt\<lparr>c_iflag := c_iflag opt AND NOT IGNPAR\<rparr>;
          opt = opt\<lparr>c_iflag := c_iflag opt AND NOT (ICRNL OR IGNCR)\<rparr>;
          opt = opt\<lparr>c_iflag := c_iflag opt AND NOT (INLCR OR ICRNL OR IGNCR)\<rparr>;
          opt = opt\<lparr>c_oflag := c_oflag opt AND NOT (ONLCR OR OCRNL)\<rparr>;
          opt = opt\<lparr>c_lflag := c_lflag opt AND NOT (ICANON OR ECHO OR ECHOE OR ISIG)\<rparr>;
          opt = opt\<lparr>c_oflag := c_oflag opt AND NOT OPOST\<rparr>
      in opt\<lparr>c_vmin := 0, c_vtime := 0\<rparr>)"

definition line_opt :: "SerialParam \<Rightarrow> termios \<Rightarrow> termios" where
  "line_opt p opt =
     set_raw (set_speed (sp_baudrate p) (set_parity (sp_parity p) (set_databits (sp_databits p)
       (set_stopbits (sp_stopbits p) opt))))"

subsection \<open>Opening and closing\<close>

definition dec_int :: "int \<Rightarrow> string" where
  "dec_int i = (if i < 0 then CHR ''-'' # dec (nat (- i)) else dec (nat i))"

definition unlock :: "nat cptr \<Rightarrow> line_sys \<Rightarrow> line_sys" where
  "unlock m w = (case m of NULL \<Rightarrow> w | Ptr k \<Rightarrow> w\<lparr>ls_locked := (ls_locked w)(k := False)\<rparr>)"

definition sys_close :: "int \<Rightarrow> line_sys \<Rightarrow> line_sys" where
  "sys_close fd w = w\<lparr>ls_fds := (ls_fds w)(fd := None), ls_epoll := {x \<in> ls_epoll w. snd x \<noteq> fd}\<rparr>"

text \<open>The part of \<open>SerialOpen\<close> after the mutex.\<close>

definition open_line :: "open_res \<Rightarrow> SerialParam \<Rightarrow> line_sys \<Rightarrow> int \<times> SerialParam \<times> line_sys" where
  "open_line r p w =
     (let p = p\<lparr>sp_sfd := or_open r\<rparr>; fd = or_open r in
      if fd < 0 then (- 1, p, unlock (sp_pMutex p) w)
      else
        (let w = w\<lparr>ls_fds := (ls_fds w)(fd \<mapsto> or_old r)\<rparr>; opt = line_opt p (or_old r) in
         if or_tcsetattr r < 0 then (- 1, p\<lparr>sp_sfd := - 1\<rparr>, unlock (sp_pMutex p) (sys_close fd w))
         else
           (let w = w\<lparr>ls_fds := (ls_fds w)(fd \<mapsto> opt)\<rparr> in
            if or_epoll r < 0 then (- 1, p\<lparr>sp_sfd := - 1\<rparr>, unlock (sp_pMutex p) (sys_close fd w))
            else (0, p, w\<lparr>ls_epoll := insert (sp_efd p, fd) (ls_epoll w)\<rparr>))))"

definition SerialOpen :: "open_res \<Rightarrow> serial \<Rightarrow> line_sys \<Rightarrow> (int \<times> serial \<times> line_sys) outcome exec" where
  "SerialOpen r this w =
     (case this of
        Ptr (Ptr p) \<Rightarrow>
          (let p = (if sp_devDesc p = [] then p\<lparr>sp_devDesc := ''/dev/ttymxc'' @ dec_int (sp_port p)\<rparr> else p);
               go = (\<lambda>w. case open_line r p w of (ret, p, w) \<Rightarrow> Some (Returns (ret, Ptr (Ptr p), w))) in
           (case sp_pMutex p of
              NULL \<Rightarrow> if sp_bFullDuplex p then None else go w
            | Ptr m \<Rightarrow>
                if ls_locked w m then
                  (if sp_bFullDuplex p then Some (Returns (0, Ptr (Ptr p), w)) else Some Blocked)
                else go (w\<lparr>ls_locked := (ls_locked w)(m := True)\<rparr>)))
      | _ \<Rightarrow> Some (Returns (- 1, this, w)))"

definition SerialOpenExt ::
  "open_res \<Rightarrow> serial \<Rightarrow> string cptr \<Rightarrow> int \<Rightarrow> int \<Rightarrow> int \<Rightarrow> int \<Rightarrow> line_sys \<Rightarrow> (int \<times> serial \<times> line_sys) outcome exec" where
  "SerialOpenExt r this pDevDesc baudrate databits parity stopbits w =
     (case (this, pDevDesc) of
        (Ptr q, Ptr desc) \<Rightarrow>
          (case q of
             NULL \<Rightarrow> None
           | Ptr p \<Rightarrow>
               if 32 \<le> length desc then None
               else do {
                 x \<leftarrow> SerialOpen r (Ptr (Ptr (p\<lparr>sp_baudrate := baudrate, sp_databits := databits, sp_parity := parity,
                        sp_stopbits := stopbits, sp_devDesc := desc\<rparr>))) w;
                 Some (case x of Blocked \<Rightarrow> Blocked | Returns (ret, this, w) \<Rightarrow> Returns (0, this, w)) })
      | _ \<Rightarrow> Some (Returns (- 1, this, w)))"

definition SerialClose :: "serial \<Rightarrow> line_sys \<Rightarrow> (serial \<times> line_sys) exec" where
  "SerialClose this w =
     (case this of
        NULL \<Rightarrow> Some (this, w)
      | Ptr NULL \<Rightarrow> None
      | Ptr (Ptr p) \<Rightarrow>
          if sp_sfd p = - 1 then Some (this, w)
          else Some (Ptr (Ptr (p\<lparr>sp_sfd := - 1, sp_bRcvRun := False\<rparr>)), unlock (sp_pMutex p) (sys_close (sp_sfd p) w)))"

subsection \<open>Setting and reading the parameters\<close>

text \<open>
  A setter rejects a null object and a value out of range, and otherwise stores it; the
  parameters of an object are not tested for null.
\<close>

definition set_param :: "bool \<Rightarrow> (SerialParam \<Rightarrow> SerialParam) \<Rightarrow> serial \<Rightarrow> (int \<times> serial) exec" where
  "set_param ok f this =
     (case this of
        NULL \<Rightarrow> Some (- 1, this)
      | Ptr q \<Rightarrow> if \<not> ok then Some (- 1, this) else (case q of NULL \<Rightarrow> None | Ptr p \<Rightarrow> Some (0, Ptr (Ptr (f p)))))"

definition SetPort :: "serial \<Rightarrow> int \<Rightarrow> (int \<times> serial) exec" where
  "SetPort this port = set_param (1 \<le> port \<and> port \<le> 4) (\<lambda>p. p\<lparr>sp_pMutex := Ptr (nat port), sp_port := port\<rparr>) this"

definition SetBaudrate :: "serial \<Rightarrow> int \<Rightarrow> (int \<times> serial) exec" where
  "SetBaudrate this baudrate = set_param (2400 \<le> baudrate \<and> baudrate \<le> 115200) (\<lambda>p. p\<lparr>sp_baudrate := baudrate\<rparr>) this"

definition SetDatabits :: "serial \<Rightarrow> int \<Rightarrow> (int \<times> serial) exec" where
  "SetDatabits this databits = set_param (5 \<le> databits \<and> databits \<le> 8) (\<lambda>p. p\<lparr>sp_databits := databits\<rparr>) this"

definition SetParity :: "serial \<Rightarrow> int \<Rightarrow> (int \<times> serial) exec" where
  "SetParity this parity =
     set_param (parity \<in> {ch CHR ''n'', ch CHR ''N'', ch CHR ''o'', ch CHR ''O'', ch CHR ''e'', ch CHR ''E''})
       (\<lambda>p. p\<lparr>sp_parity := parity\<rparr>) this"

definition SetStopbits :: "serial \<Rightarrow> int \<Rightarrow> (int \<times> serial) exec" where
  "SetStopbits this stopbits = set_param (1 \<le> stopbits \<and> stopbits \<le> 2) (\<lambda>p. p\<lparr>sp_stopbits := stopbits\<rparr>) this"

definition SetLock :: "serial \<Rightarrow> nat cptr \<Rightarrow> (int \<times> serial) exec" where
  "SetLock this pMutex = set_param (pMutex \<noteq> NULL) (\<lambda>p. p\<lparr>sp_pMutex := pMutex\<rparr>) this"

definition SetFullDuplex :: "serial \<Rightarrow> bool \<Rightarrow> (int \<times> serial) exec" where
  "SetFullDuplex this b = set_param True (\<lambda>p. p\<lparr>sp_bFullDuplex := b\<rparr>) this"

definition SetKey :: "serial \<Rightarrow> u16 \<Rightarrow> (int \<times> serial) exec" where
  "SetKey this key = set_param True (\<lambda>p. p\<lparr>sp_key := key\<rparr>) this"

definition SetRcvLen :: "serial \<Rightarrow> u16 \<Rightarrow> (int \<times> serial) exec" where
  "SetRcvLen this len = set_param True (\<lambda>p. p\<lparr>sp_rcvLen := len\<rparr>) this"

definition get_param :: "(SerialParam \<Rightarrow> int) \<Rightarrow> serial \<Rightarrow> int exec" where
  "get_param f this = (case this of Ptr (Ptr p) \<Rightarrow> Some (f p) | _ \<Rightarrow> None)"

definition GetPort :: "serial \<Rightarrow> int exec" where "GetPort = get_param sp_port"
definition GetBaudrate :: "serial \<Rightarrow> int exec" where "GetBaudrate = get_param sp_baudrate"
definition GetDatabits :: "serial \<Rightarrow> int exec" where "GetDatabits = get_param sp_databits"
definition GetParity :: "serial \<Rightarrow> int exec" where "GetParity = get_param sp_parity"
definition GetStopbits :: "serial \<Rightarrow> int exec" where "GetStopbits = get_param sp_stopbits"

text \<open>
  A new object: \<open>al\<close> says which of the allocations (the object, its parameters and, for the first
  object, the pool of threads) succeed, and \<open>efd\<close> is the result of \<open>epoll_create\<close>. The result has
  the flag that the pool exists.
\<close>

definition SerialInit :: "(nat \<Rightarrow> bool) \<Rightarrow> int \<Rightarrow> bool \<Rightarrow> serial \<times> bool" where
  "SerialInit al efd pool =
     (if \<not> al 0 \<or> \<not> al 1 then (NULL, pool)
      else if \<not> pool \<and> \<not> al 2 then (NULL, False)
      else if efd < 0 then (NULL, True)
      else (Ptr (Ptr \<lparr>sp_efd = efd, sp_sfd = - 1, sp_port = 0, sp_baudrate = 0, sp_databits = 0, sp_parity = 0,
                sp_stopbits = 0, sp_devDesc = [], sp_bFullDuplex = False, sp_key = 0, sp_rcvLen = 0,
                sp_bRcvRun = False, sp_pMutex = NULL\<rparr>), True))"

definition SerialDestroy :: "serial \<Rightarrow> line_sys \<Rightarrow> line_sys" where
  "SerialDestroy this w =
     (case this of
        Ptr (Ptr p) \<Rightarrow>
          (let w = (if sp_sfd p \<noteq> - 1 then sys_close (sp_sfd p) w else w)
           in if sp_efd p \<noteq> - 1 then sys_close (sp_efd p) (w\<lparr>ls_epoll := {x \<in> ls_epoll w. fst x \<noteq> sp_efd p}\<rparr>) else w)
      | _ \<Rightarrow> w)"

subsection \<open>Sending and receiving\<close>

text \<open>
  Sending \<open>len\<close> bytes of a buffer, where \<open>n\<close> is the result of \<open>write\<close>: the result and the bytes that
  went out. A null object is dereferenced for the log.
\<close>

definition SerialWrite :: "int \<Rightarrow> serial \<Rightarrow> bytes cptr \<Rightarrow> nat \<Rightarrow> (int \<times> bytes) exec" where
  "SerialWrite n this pBuf len =
     (case this of
        Ptr (Ptr p) \<Rightarrow>
          (case pBuf of
             NULL \<Rightarrow> Some (- 1, [])
           | Ptr buf \<Rightarrow>
               if len = 0 then Some (- 1, [])
               else if length buf < len then None
               else if n < 0 then Some (- 1, [])
               else Some (0, take (nat n) (take len buf)))
      | _ \<Rightarrow> None)"

text \<open>
  The request to receive: whether a job for the receiving thread was added. \<open>added\<close> is the result
  of \<open>thpool_add_work\<close>, which is not passed on.
\<close>

definition SerialRead :: "bool \<Rightarrow> serial cptr \<Rightarrow> (int \<times> bool) exec" where
  "SerialRead added pThis =
     (case pThis of
        NULL \<Rightarrow> Some (- 1, False)
      | Ptr NULL \<Rightarrow> Some (- 1, False)
      | Ptr (Ptr NULL) \<Rightarrow> None
      | Ptr (Ptr (Ptr p)) \<Rightarrow> if sp_bFullDuplex p \<and> sp_bRcvRun p then Some (0, False) else Some (0, added))"

text \<open>
  One round of the receiving loop: \<open>bRcvRun\<close> as read at its head, the microseconds since the
  start, what \<open>epoll_wait\<close> returned, and which of the values the queue took. \<open>Input al n got\<close>:
  \<open>n\<close> bytes are there, \<open>al\<close> says whether there was memory for them, and \<open>got\<close> is what was read of
  them, or that \<open>read\<close> failed.
\<close>

datatype wait = Quiet | Trouble | Input bool nat "bytes option"

record rcv_round =
  rr_run :: bool
  rr_diff :: u32
  rr_wait :: wait
  rr_put :: "nat \<Rightarrow> bool"

text \<open>The buffer and the length that the plugin is given: a failed \<open>read\<close> is the length 65535.\<close>

definition rcv_buf :: "nat \<Rightarrow> bytes option \<Rightarrow> bytes \<times> nat" where
  "rcv_buf n got =
     (case got of
        None \<Rightarrow> (replicate n 0, 65535)
      | Some bs \<Rightarrow> (bs @ replicate (n - length bs) 0, length bs mod 65536))"

definition call_parse :: "MbusBase \<Rightarrow> bytes \<Rightarrow> nat \<Rightarrow> parsed" where
  "call_parse b buf len =
     (case mb_pIf b of
        NULL \<Rightarrow> None
      | Ptr i \<Rightarrow>
          (case mi_parse i of
             Ptr f \<Rightarrow> f (ucast (mb_devAddr b)) (mb_regAddr b) buf len
           | NULL \<Rightarrow> (case mi_parseExt i of Ptr f \<Rightarrow> f (mb_devAddr b) (mb_regAddr b) buf len | NULL \<Rightarrow> Some NULL)))"

definition can_parse :: "MbusBase \<Rightarrow> bool exec" where
  "can_parse b = (case mb_pIf b of NULL \<Rightarrow> None | Ptr i \<Rightarrow> Some (mi_parse i \<noteq> NULL \<or> mi_parseExt i \<noteq> NULL))"

definition arrived_of :: "MbusBase \<Rightarrow> MbusObj \<Rightarrow> arrived" where
  "arrived_of b x = \<lparr>ar_pPrimaryKey = el_pPrimaryKey (mb_element b), ar_localPoint = mo_localPoint x,
     ar_rcvValue = mo_rcvValue x, ar_value = mo_value x\<rparr>"

text \<open>The values that reached the queue; one that the queue does not take is lost.\<close>

definition put_objs :: "MbusBase \<Rightarrow> (nat \<Rightarrow> bool) \<Rightarrow> MbusObj list \<Rightarrow> arrived list" where
  "put_objs b put xs = map (\<lambda>(i, x). arrived_of b x) (filter (\<lambda>(i, x). put i) (enumerate 0 xs))"

definition rcv_limit :: "MbusBase \<Rightarrow> u32" where
  "rcv_limit b = 500000 + ucast (mb_delay b) * 1000"

text \<open>
  One round: whether the loop is left, the values for the monitor and the counter of lost
  messages.
\<close>

definition rcv_input :: "MbusBase \<Rightarrow> (nat \<Rightarrow> bool) \<Rightarrow> nat \<Rightarrow> bytes option \<Rightarrow> (bool \<times> arrived list \<times> MbusBase) exec" where
  "rcv_input b put n got = do {
     ok \<leftarrow> can_parse b;
     if \<not> ok then Some (True, [], b)
     else do {
       let (buf, len) = rcv_buf n got;
       r \<leftarrow> call_parse b buf len;
       Some (\<not> mb_bFullDuplex b, (case r of NULL \<Rightarrow> [] | Ptr xs \<Rightarrow> put_objs b put xs), b\<lparr>mb_lostCnt := 0\<rparr>) } }"

definition rcv_once :: "MbusBase \<Rightarrow> rcv_round \<Rightarrow> (bool \<times> arrived list \<times> MbusBase) exec" where
  "rcv_once b r =
     (if \<not> rr_run r then Some (True, [], b)
      else if \<not> mb_bFullDuplex b \<and> rcv_limit b \<le> rr_diff r then Some (True, [], b)
      else
        (case rr_wait r of
           Quiet \<Rightarrow> Some (False, [], b)
         | Trouble \<Rightarrow> Some (\<not> mb_bFullDuplex b, [], b)
         | Input al n got \<Rightarrow> if \<not> al then Some (True, [], b) else rcv_input b (rr_put r) n got))"

fun rcv_loop :: "MbusBase \<Rightarrow> rcv_round list \<Rightarrow> (bool \<times> arrived list \<times> MbusBase) exec" where
  "rcv_loop b [] = Some (False, [], b)"
| "rcv_loop b (r # rs) = do {
     (left, vs, b) \<leftarrow> rcv_once b r;
     if left then Some (True, vs, b)
     else do {
       (left, ws, b) \<leftarrow> rcv_loop b rs;
       Some (left, vs @ ws, b) } }"

text \<open>
  The receiving thread of a device with the parameters of its port, over the rounds that
  happen: when the loop is left, the port is closed.
\<close>

definition SerialRcvEntry ::
  "MbusBase cptr \<Rightarrow> SerialParam \<Rightarrow> rcv_round list \<Rightarrow> line_sys
    \<Rightarrow> (bool \<times> arrived list \<times> MbusBase cptr \<times> SerialParam \<times> line_sys) exec" where
  "SerialRcvEntry arg p rs w =
     (case arg of
        NULL \<Rightarrow> Some (True, [], NULL, p, w)
      | Ptr b \<Rightarrow> do {
          (left, vs, b) \<leftarrow> rcv_loop b rs;
          let p = p\<lparr>sp_bRcvRun := True\<rparr>;
          if \<not> left then Some (False, vs, Ptr b, p, w)
          else do {
            (this, w) \<leftarrow> SerialClose (Ptr (Ptr p)) (w\<lparr>ls_epoll := ls_epoll w - {(sp_efd p, sp_sfd p)}\<rparr>);
            Some (True, vs, Ptr b, (case this of Ptr (Ptr p) \<Rightarrow> p | _ \<Rightarrow> p), w) } })"

subsection \<open>The line settings\<close>

text \<open>
  What a line's attributes mean: speed, data bits, parity and stop bits. Bits 4 and 5 of the
  control flags are \<open>CSIZE\<close>, bit 6 is \<open>CSTOPB\<close>, bits 8 and 9 are \<open>PARENB\<close> and \<open>PARODD\<close>.
\<close>

definition line_of :: "termios \<Rightarrow> int \<times> int \<times> int \<times> int" where
  "line_of t =
     (c_ospeed t,
      5 + (if bit (c_cflag t) 4 then 1 else 0) + (if bit (c_cflag t) 5 then 2 else 0),
      (if \<not> bit (c_cflag t) 8 then ch CHR ''N'' else if bit (c_cflag t) 9 then ch CHR ''O'' else ch CHR ''E''),
      (if bit (c_cflag t) 6 then 2 else 1))"

definition upper :: "int \<Rightarrow> int" where
  "upper c = (if c = ch CHR ''n'' then ch CHR ''N'' else if c = ch CHR ''o'' then ch CHR ''O''
     else if c = ch CHR ''e'' then ch CHR ''E'' else c)"

text \<open>
  No line editing and echo (\<open>ISIG\<close>, \<open>ICANON\<close>, \<open>ECHO\<close>, \<open>ECHOE\<close>), no output processing (\<open>OPOST\<close>), no
  translation and flow control on input (\<open>INLCR\<close>, \<open>IGNCR\<close>, \<open>ICRNL\<close>, \<open>IXON\<close>, \<open>IXOFF\<close>) or by
  hardware (\<open>CRTSCTS\<close>), the receiver on (\<open>CREAD\<close>), one speed for both directions.
\<close>

definition is_raw :: "termios \<Rightarrow> bool" where
  "is_raw t \<longleftrightarrow> list_all (\<lambda>k. \<not> bit (c_lflag t) k) [0, 1, 3, 4] \<and> \<not> bit (c_oflag t) 0
     \<and> list_all (\<lambda>k. \<not> bit (c_iflag t) k) [6, 7, 8, 10, 12] \<and> \<not> bit (c_cflag t) 31 \<and> bit (c_cflag t) 7
     \<and> c_ispeed t = c_ospeed t"

lemma line_opt_line:
  assumes "5 \<le> sp_databits p" "sp_databits p \<le> 8" "sp_stopbits p = 1 \<or> sp_stopbits p = 2"
    and "sp_parity p \<in> {ch CHR ''n'', ch CHR ''N'', ch CHR ''o'', ch CHR ''O'', ch CHR ''e'', ch CHR ''E''}"
  shows "line_of (line_opt p opt) =
    (if sp_baudrate p \<in> set baud_rates then sp_baudrate p else 9600, sp_databits p, upper (sp_parity p), sp_stopbits p)"
proof -
  have d: "sp_databits p = 5 \<or> sp_databits p = 6 \<or> sp_databits p = 7 \<or> sp_databits p = 8" using assms by auto
  have bits: "bit (c_cflag (line_opt p opt)) 4 \<longleftrightarrow> sp_databits p = 6 \<or> sp_databits p = 8"
    "bit (c_cflag (line_opt p opt)) 5 \<longleftrightarrow> sp_databits p = 7 \<or> sp_databits p = 8"
    "bit (c_cflag (line_opt p opt)) 6 \<longleftrightarrow> sp_stopbits p = 2"
    "bit (c_cflag (line_opt p opt)) 8 \<longleftrightarrow> upper (sp_parity p) \<noteq> ch CHR ''N''"
    "upper (sp_parity p) \<noteq> ch CHR ''N'' \<Longrightarrow> bit (c_cflag (line_opt p opt)) 9 \<longleftrightarrow> upper (sp_parity p) = ch CHR ''O''"
    using d assms(3,4)
    by (auto simp: line_opt_def set_raw_def set_speed_def set_parity_def set_databits_def set_stopbits_def Let_def
        termios_flags bit_simps upper_def)
  have "c_ospeed (line_opt p opt) = (if sp_baudrate p \<in> set baud_rates then sp_baudrate p else 9600)"
    by (simp add: line_opt_def set_raw_def set_speed_def Let_def)
  with bits d assms(3,4) show ?thesis by (auto simp: line_of_def upper_def)
qed

lemma line_opt_raw: "is_raw (line_opt p opt)"
  by (simp add: line_opt_def is_raw_def set_raw_def set_speed_def Let_def termios_flags bit_simps)

subsection \<open>Exclusive use of a line\<close>

text \<open>
  Port objects that share lines. A state has the objects and the system; every object has a
  mutex. A step opens or closes one of them; \<open>open\<close> of the system returns \<open>-1\<close> or a descriptor
  that is not in use.
\<close>

type_synonym lines = "SerialParam list \<times> line_sys"

definition with_line :: "lines \<Rightarrow> nat \<Rightarrow> SerialParam \<Rightarrow> line_sys \<Rightarrow> lines" where
  "with_line s i p w = ((fst s)[i := p], w)"

inductive line_step :: "lines \<Rightarrow> lines \<Rightarrow> bool" where
  opens: "i < length (fst s) \<Longrightarrow> or_open r = - 1 \<or> 0 \<le> or_open r \<and> ls_fds (snd s) (or_open r) = None \<Longrightarrow>
    SerialOpen r (Ptr (Ptr (fst s ! i))) (snd s) = Some (Returns (ret, Ptr (Ptr p), w)) \<Longrightarrow>
    line_step s (with_line s i p w)"
| closes: "i < length (fst s) \<Longrightarrow> SerialClose (Ptr (Ptr (fst s ! i))) (snd s) = Some (Ptr (Ptr p), w) \<Longrightarrow>
    line_step s (with_line s i p w)"

inductive_cases line_stepE: "line_step s s'"

definition lines_start :: "lines \<Rightarrow> bool" where
  "lines_start s \<longleftrightarrow> (\<forall>p \<in> set (fst s). sp_sfd p = - 1 \<and> sp_pMutex p \<noteq> NULL)
     \<and> (\<forall>m. \<not> ls_locked (snd s) m) \<and> ls_fds (snd s) = Map.empty"

text \<open>
  The invariant, on the number of objects, their mutexes and descriptors, the locked mutexes and
  the open descriptors: a mutex is locked exactly when an object with that mutex has a
  descriptor, there is only one such object, and the open descriptors are exactly those of the
  objects, each belonging to one of them.
\<close>

definition exclusive :: "nat \<Rightarrow> (nat \<Rightarrow> nat cptr) \<Rightarrow> (nat \<Rightarrow> int) \<Rightarrow> (nat \<Rightarrow> bool) \<Rightarrow> int set \<Rightarrow> bool" where
  "exclusive n mx fd lk D \<longleftrightarrow>
     (\<forall>i < n. mx i \<noteq> NULL)
     \<and> (\<forall>m. lk m \<longleftrightarrow> (\<exists>i < n. mx i = Ptr m \<and> fd i \<noteq> - 1))
     \<and> (\<forall>i < n. \<forall>j < n. mx i = mx j \<longrightarrow> fd i \<noteq> - 1 \<longrightarrow> fd j \<noteq> - 1 \<longrightarrow> i = j)
     \<and> D = {fd i | i. i < n \<and> fd i \<noteq> - 1}
     \<and> (\<forall>i < n. \<forall>j < n. fd i = fd j \<longrightarrow> fd i \<noteq> - 1 \<longrightarrow> i = j)"

definition lines_inv :: "lines \<Rightarrow> bool" where
  "lines_inv s \<longleftrightarrow> exclusive (length (fst s)) (\<lambda>i. sp_pMutex (fst s ! i)) (\<lambda>i. sp_sfd (fst s ! i))
     (ls_locked (snd s)) (dom (ls_fds (snd s)))"

lemma exclusive_cong:
  assumes "\<And>i. i < n \<Longrightarrow> mx' i = mx i" and "\<And>i. i < n \<Longrightarrow> fd' i = fd i"
  shows "exclusive n mx' fd' lk D = exclusive n mx fd lk D"
proof -
  have "{fd' i | i. i < n \<and> fd' i \<noteq> - 1} = {fd i | i. i < n \<and> fd i \<noteq> - 1}"
    using assms(2) by (intro Collect_cong) metis
  moreover have "(\<exists>i<n. mx' i = Ptr m \<and> fd' i \<noteq> - 1) = (\<exists>i<n. mx i = Ptr m \<and> fd i \<noteq> - 1)" for m
    using assms by auto
  ultimately show ?thesis unfolding exclusive_def using assms by simp
qed

lemma exclusive_take:
  assumes inv: "exclusive n mx fd lk D" and i: "i < n" "mx i = Ptr m" "\<not> lk m" and x: "x \<noteq> - 1" "x \<notin> D"
  shows "exclusive n mx (fd(i := x)) (lk(m := True)) (insert x D)"
proof -
  from inv i have fd: "fd i = - 1" unfolding exclusive_def by metis
  have D: "insert x D = {(fd(i := x)) j | j. j < n \<and> (fd(i := x)) j \<noteq> - 1}"
    using inv i x fd by (auto simp: exclusive_def)
  have nx: "fd j \<noteq> x" if "j < n" for j using inv x that by (auto simp: exclusive_def)
  have free: "fd j = - 1" if "j < n" "mx j = Ptr m" for j using inv i(3) that unfolding exclusive_def by metis
  show ?thesis
    unfolding exclusive_def
  proof (intro conjI)
    show "\<forall>i<n. mx i \<noteq> NULL" using inv by (simp add: exclusive_def)
    have "lk k \<longleftrightarrow> (\<exists>j<n. mx j = Ptr k \<and> fd j \<noteq> - 1)" for k using inv by (simp add: exclusive_def)
    then show "\<forall>k. (lk(m := True)) k = (\<exists>j<n. mx j = Ptr k \<and> (fd(i := x)) j \<noteq> - 1)"
      using i(1,2) x(1) fd by (metis fun_upd_apply cptr.inject)
    show "\<forall>k<n. \<forall>j<n. mx k = mx j \<longrightarrow> (fd(i := x)) k \<noteq> - 1 \<longrightarrow> (fd(i := x)) j \<noteq> - 1 \<longrightarrow> k = j"
      using inv i(2) free by (auto simp: exclusive_def)
    show "insert x D = {(fd(i := x)) j | j. j < n \<and> (fd(i := x)) j \<noteq> - 1}" by (rule D)
    show "\<forall>k<n. \<forall>j<n. (fd(i := x)) k = (fd(i := x)) j \<longrightarrow> (fd(i := x)) k \<noteq> - 1 \<longrightarrow> k = j"
      using inv nx by (auto simp: exclusive_def)
  qed
qed

lemma exclusive_release:
  assumes inv: "exclusive n mx fd lk D" and i: "i < n" "mx i = Ptr m" "fd i \<noteq> - 1"
  shows "exclusive n mx (fd(i := - 1)) (lk(m := False)) (D - {fd i})"
proof -
  have one: "j = i" if "j < n" "mx j = Ptr m" "fd j \<noteq> - 1" for j using inv i that by (simp add: exclusive_def)
  have "D - {fd i} = {(fd(i := - 1)) j | j. j < n \<and> (fd(i := - 1)) j \<noteq> - 1}"
    using inv i by (auto simp: exclusive_def)
  moreover have "\<forall>k. (lk(m := False)) k = (\<exists>j<n. mx j = Ptr k \<and> (fd(i := - 1)) j \<noteq> - 1)"
  proof
    fix k
    have "lk k \<longleftrightarrow> (\<exists>j<n. mx j = Ptr k \<and> fd j \<noteq> - 1)" using inv by (simp add: exclusive_def)
    then show "(lk(m := False)) k = (\<exists>j<n. mx j = Ptr k \<and> (fd(i := - 1)) j \<noteq> - 1)"
      using i(2) one by (metis fun_upd_apply cptr.inject)
  qed
  ultimately show ?thesis using inv by (simp add: exclusive_def)
qed

lemma unlock_simps [simp]:
  "ls_locked (unlock (Ptr m) w) = (ls_locked w)(m := False)" "ls_fds (unlock q w) = ls_fds w"
  "ls_locked (sys_close fd w) = ls_locked w" "ls_fds (sys_close fd w) = (ls_fds w)(fd := None)"
  by (simp_all add: unlock_def sys_close_def split: cptr.splits)

text \<open>Opening leaves everything as it was, a failure included, or takes the mutex and a new descriptor.\<close>

lemma SerialOpen_effect:
  assumes "SerialOpen r (Ptr (Ptr p)) w = Some (Returns (ret, Ptr (Ptr p'), w'))" and m: "sp_pMutex p = Ptr m"
    and r: "or_open r = - 1 \<or> 0 \<le> or_open r \<and> ls_fds w (or_open r) = None" and "\<not> ls_locked w m \<Longrightarrow> sp_sfd p = - 1"
  shows "sp_pMutex p' = Ptr m \<and>
    (sp_sfd p' = sp_sfd p \<and> ls_locked w' = ls_locked w \<and> dom (ls_fds w') = dom (ls_fds w)
     \<or> \<not> ls_locked w m \<and> sp_sfd p' = or_open r \<and> 0 \<le> or_open r \<and> ret = 0 \<and> or_open r \<notin> dom (ls_fds w)
       \<and> ls_locked w' = (ls_locked w)(m := True) \<and> dom (ls_fds w') = insert (or_open r) (dom (ls_fds w)))"
  using assms
  by (auto simp: SerialOpen_def open_line_def Let_def fun_upd_idem dom_def split: if_splits)

lemma SerialClose_effect:
  assumes "SerialClose (Ptr (Ptr p)) w = Some (Ptr (Ptr p'), w')" and m: "sp_pMutex p = Ptr m"
  shows "sp_pMutex p' = Ptr m \<and>
    (sp_sfd p = - 1 \<and> p' = p \<and> w' = w
     \<or> sp_sfd p \<noteq> - 1 \<and> sp_sfd p' = - 1 \<and> ls_locked w' = (ls_locked w)(m := False)
       \<and> dom (ls_fds w') = dom (ls_fds w) - {sp_sfd p})"
  using assms by (auto simp: SerialClose_def split: if_splits)

lemma lines_inv_update:
  assumes "i < length (fst s)" and "sp_pMutex p = sp_pMutex (fst s ! i)"
  shows "lines_inv (with_line s i p w) = exclusive (length (fst s)) (\<lambda>j. sp_pMutex (fst s ! j))
    ((\<lambda>j. sp_sfd (fst s ! j))(i := sp_sfd p)) (ls_locked w) (dom (ls_fds w))"
  unfolding lines_inv_def with_line_def fst_conv snd_conv length_list_update
  by (rule exclusive_cong) (use assms in \<open>auto simp: nth_list_update\<close>)

lemma line_step_inv:
  assumes "line_step s s'" and inv: "lines_inv s"
  shows "lines_inv s'"
  using assms(1)
proof cases
  case (opens i r ret p w)
  from inv opens(2) obtain m where m: "sp_pMutex (fst s ! i) = Ptr m"
    by (cases "sp_pMutex (fst s ! i)") (auto simp: lines_inv_def exclusive_def)
  have "\<not> ls_locked (snd s) m \<Longrightarrow> sp_sfd (fst s ! i) = - 1"
    using inv opens(2) m by (auto simp: lines_inv_def exclusive_def)
  note e = SerialOpen_effect [OF opens(4) m opens(3) this]
  have inv': "exclusive (length (fst s)) (\<lambda>j. sp_pMutex (fst s ! j)) (\<lambda>j. sp_sfd (fst s ! j))
    (ls_locked (snd s)) (dom (ls_fds (snd s)))" using inv by (simp add: lines_inv_def)
  show ?thesis
    using e inv' exclusive_take [OF inv' opens(2) m, of "or_open r"] opens(3) lines_inv_update [OF opens(2), of p w] m
    unfolding opens(1) by (auto simp: fun_upd_idem domIff)
next
  case (closes i p w)
  from inv closes(2) obtain m where m: "sp_pMutex (fst s ! i) = Ptr m"
    by (cases "sp_pMutex (fst s ! i)") (auto simp: lines_inv_def exclusive_def)
  note e = SerialClose_effect [OF closes(3) m]
  have inv': "exclusive (length (fst s)) (\<lambda>j. sp_pMutex (fst s ! j)) (\<lambda>j. sp_sfd (fst s ! j))
    (ls_locked (snd s)) (dom (ls_fds (snd s)))" using inv by (simp add: lines_inv_def)
  show ?thesis
    using e inv' exclusive_release [OF inv' closes(2) m] lines_inv_update [OF closes(2), of p w] m
    unfolding closes(1) by (auto simp: fun_upd_idem domIff)
qed

lemma lines_start_inv: "lines_start s \<Longrightarrow> lines_inv s"
  by (auto simp: lines_start_def lines_inv_def exclusive_def)

lemma lines_reachable_inv: "line_step\<^sup>*\<^sup>* s s' \<Longrightarrow> lines_start s \<Longrightarrow> lines_inv s'"
  by (induction rule: rtranclp_induct) (auto intro: lines_start_inv line_step_inv)

subsection \<open>Properties\<close>

text \<open>
  Whatever attributes a line had, after a successful \<open>SerialOpen\<close> it has the data bits,
  the parity and the stop bits that were set, for all values the setters accept, and raw
  mode. Its speed is the one set if that is a standard rate, and otherwise 9600, although
  \<open>SetBaudrate\<close> accepts every number from 2400 to 115200; 1200, which \<open>SerialOpen\<close> supports, is
  refused.
\<close>

lemma serial_line_settings:
  assumes "SetBaudrate s0 b = Some (0, s1)" and "SetDatabits s1 d = Some (0, s2)" and "SetParity s2 c = Some (0, s3)"
    and "SetStopbits s3 n = Some (0, Ptr (Ptr p))" and "sp_pMutex p = Ptr m" and "\<not> ls_locked w m"
    and "SerialOpen r (Ptr (Ptr p)) w = Some (Returns (0, Ptr (Ptr p'), w'))"
  shows "2400 \<le> b \<and> b \<le> 115200 \<and> (\<exists>opt. ls_fds w' (sp_sfd p') = Some opt \<and> is_raw opt
    \<and> line_of opt = (if b \<in> set baud_rates then b else 9600, d, upper c, n))"
proof -
  have p: "sp_baudrate p = b" "sp_databits p = d" "sp_parity p = c" "sp_stopbits p = n" "2400 \<le> b" "b \<le> 115200"
    "5 \<le> d" "d \<le> 8" "n = 1 \<or> n = 2"
    "c \<in> {ch CHR ''n'', ch CHR ''N'', ch CHR ''o'', ch CHR ''O'', ch CHR ''e'', ch CHR ''E''}"
    using assms(1-4)
    by (auto simp: SetBaudrate_def SetDatabits_def SetParity_def SetStopbits_def set_param_def split: cptr.splits if_splits)
  obtain p1 where p1: "ls_fds w' (sp_sfd p') = Some (line_opt p1 (or_old r))" "sp_baudrate p1 = b" "sp_databits p1 = d"
    "sp_parity p1 = c" "sp_stopbits p1 = n"
    using assms(5-7) p(1-4) by (auto simp: SerialOpen_def open_line_def Let_def split: if_splits)
  with line_opt_line [of p1 "or_old r"] line_opt_raw p(5-10) show ?thesis by auto
qed

text \<open>An object on the second line, and a line as the system hands it out.\<close>

definition ex_port :: SerialParam where
  "ex_port = \<lparr>sp_efd = 7, sp_sfd = - 1, sp_port = 2, sp_baudrate = 9600, sp_databits = 8, sp_parity = ch CHR ''N'',
     sp_stopbits = 1, sp_devDesc = [], sp_bFullDuplex = False, sp_key = 0, sp_rcvLen = 0, sp_bRcvRun = False,
     sp_pMutex = Ptr 2\<rparr>"

definition ex_sys :: line_sys where
  "ex_sys = \<lparr>ls_locked = (\<lambda>_. False), ls_fds = Map.empty, ls_epoll = {}\<rparr>"

definition ex_open :: open_res where
  "ex_open = \<lparr>or_open = 5, or_old = \<lparr>c_iflag = 0x500, c_oflag = 5, c_cflag = 0xbd, c_lflag = 0x8a3b, c_ispeed = 38400,
     c_ospeed = 38400, c_vmin = 1, c_vtime = 0\<rparr>, or_tcsetattr = 0, or_epoll = 0\<rparr>"

lemma serial_line_settings_example:
  "\<exists>opt w' p'. SerialOpen ex_open (Ptr (Ptr (ex_port\<lparr>sp_baudrate := 14400, sp_databits := 7, sp_parity := ch CHR ''e'', sp_stopbits := 2\<rparr>)))
      ex_sys = Some (Returns (0, Ptr (Ptr p'), w')) \<and> ls_fds w' (sp_sfd p') = Some opt \<and> line_of opt = (9600, 7, ch CHR ''E'', 2)"
proof -
  let ?p = "ex_port\<lparr>sp_baudrate := 14400, sp_databits := 7, sp_parity := ch CHR ''e'', sp_stopbits := 2\<rparr>"
  have "\<exists>p' w'. SerialOpen ex_open (Ptr (Ptr ?p)) ex_sys = Some (Returns (0, Ptr (Ptr p'), w'))"
    by (simp add: SerialOpen_def open_line_def ex_port_def ex_sys_def ex_open_def Let_def)
  then obtain p' w' where run: "SerialOpen ex_open (Ptr (Ptr ?p)) ex_sys = Some (Returns (0, Ptr (Ptr p'), w'))" by blast
  have "\<exists>opt. ls_fds w' (sp_sfd p') = Some opt \<and> line_of opt = (9600, 7, ch CHR ''E'', 2)"
    using serial_line_settings [of "Ptr (Ptr ex_port)" 14400 "Ptr (Ptr (ex_port\<lparr>sp_baudrate := 14400\<rparr>))" 7
        "Ptr (Ptr (ex_port\<lparr>sp_baudrate := 14400, sp_databits := 7\<rparr>))" "ch CHR ''e''"
        "Ptr (Ptr (ex_port\<lparr>sp_baudrate := 14400, sp_databits := 7, sp_parity := ch CHR ''e''\<rparr>))" 2 ?p 2 ex_sys ex_open p' w'] run
    by (auto simp: SetBaudrate_def SetDatabits_def SetParity_def SetStopbits_def set_param_def ex_port_def ex_sys_def
        baud_rates_def upper_def)
  with run show ?thesis by blast
qed

text \<open>
  Claim C5. Exclusive use of a line: however port objects are opened and closed, with every
  failure of the system calls, no two objects on one line hold a descriptor at the same time,
  the mutex of a line is locked exactly when an object on it holds one, and no descriptor is
  lost.
\<close>

theorem serial_exclusive:
  assumes "line_step\<^sup>*\<^sup>* s s'" and "lines_start s"
  shows "(\<forall>i < length (fst s'). \<forall>j < length (fst s'). sp_pMutex (fst s' ! i) = sp_pMutex (fst s' ! j)
      \<and> sp_sfd (fst s' ! i) \<noteq> - 1 \<and> sp_sfd (fst s' ! j) \<noteq> - 1 \<longrightarrow> i = j)
    \<and> (\<forall>m. ls_locked (snd s') m \<longleftrightarrow> (\<exists>i < length (fst s'). sp_pMutex (fst s' ! i) = Ptr m \<and> sp_sfd (fst s' ! i) \<noteq> - 1))
    \<and> dom (ls_fds (snd s')) = {sp_sfd (fst s' ! i) | i. i < length (fst s') \<and> sp_sfd (fst s' ! i) \<noteq> - 1}"
proof -
  note inv = lines_reachable_inv [OF assms, unfolded lines_inv_def exclusive_def]
  show ?thesis
    using inv [THEN conjunct2, THEN conjunct1] inv [THEN conjunct2, THEN conjunct2, THEN conjunct1]
      inv [THEN conjunct2, THEN conjunct2, THEN conjunct2, THEN conjunct1] by blast
qed

theorem serial_exclusive_witness:
  "\<exists>p w. line_step ([ex_port, ex_port], ex_sys) ([p, ex_port], w) \<and> dom (ls_fds w) = {5} \<and> ls_locked w 2"
proof -
  let ?s = "([ex_port, ex_port], ex_sys)"
  obtain p w where run: "SerialOpen ex_open (Ptr (Ptr ex_port)) ex_sys = Some (Returns (0, Ptr (Ptr p), w))"
    and p: "sp_sfd p = 5" "sp_pMutex p = Ptr 2"
    by (simp add: SerialOpen_def open_line_def ex_port_def ex_sys_def ex_open_def Let_def)
  have st: "line_step ?s (with_line ?s 0 p w)"
    by (rule opens [where r = ex_open and ret = 0]) (use run in \<open>simp_all add: ex_sys_def, simp add: ex_open_def\<close>)
  have "lines_start ?s" by (simp add: lines_start_def ex_port_def ex_sys_def)
  from serial_exclusive [OF r_into_rtranclp [of line_step, OF st] this]
  have e: "ls_locked w m \<longleftrightarrow> (\<exists>i<2. sp_pMutex ([p, ex_port] ! i) = Ptr m \<and> sp_sfd ([p, ex_port] ! i) \<noteq> - 1)"
    "dom (ls_fds w) = {sp_sfd ([p, ex_port] ! i) | i. i < 2 \<and> sp_sfd ([p, ex_port] ! i) \<noteq> - 1}" for m
    by (simp_all add: with_line_def numeral_2_eq_2)
  have "sp_sfd ([p, ex_port] ! i) \<noteq> - 1 \<and> i < 2 \<longleftrightarrow> i = 0" for i using p by (auto simp: less_2_cases_iff ex_port_def)
  then have "dom (ls_fds w) = {5}" unfolding e(2) using p by (auto simp: conj_commute)
  moreover have "ls_locked w 2" unfolding e(1) using p by (intro exI [of _ 0]) simp
  ultimately show ?thesis using st by (auto simp: with_line_def)
qed

text \<open>
  The receiving thread of a half-duplex device: it goes through quiet rounds until data comes,
  the line fails or the time is over.
\<close>

definition quiet_round :: "MbusBase \<Rightarrow> rcv_round \<Rightarrow> bool" where
  "quiet_round b r \<longleftrightarrow> rr_run r \<and> rr_diff r < rcv_limit b \<and> rr_wait r = Quiet"

lemma rcv_loop_quiet:
  "\<forall>r \<in> set rs. quiet_round b r \<Longrightarrow> rcv_loop b (rs @ rs') = rcv_loop b rs'"
  by (induction rs) (auto simp: quiet_round_def rcv_once_def split: bind_splits)

lemma rcv_loop_over:
  assumes "\<not> mb_bFullDuplex b" and "r \<in> set rs" and "rcv_limit b \<le> rr_diff r"
    and "rcv_loop b rs = Some (left, vs, b')"
  shows "left"
  using assms
proof (induction rs arbitrary: b left vs)
  case (Cons x rs)
  from Cons.prems(4) obtain l1 v1 b1 where x: "rcv_once b x = Some (l1, v1, b1)" by (auto split: bind_splits)
  have b1: "mb_bFullDuplex b1 = mb_bFullDuplex b" "rcv_limit b1 = rcv_limit b"
    using x by (auto simp: rcv_once_def rcv_input_def rcv_limit_def split: if_splits wait.splits bind_splits prod.splits)
  show ?case
  proof (cases l1)
    case True
    with Cons.prems(4) x show ?thesis by simp
  next
    case False
    with x Cons.prems(1) have "\<not> rcv_limit b \<le> rr_diff x" by (auto simp: rcv_once_def split: if_splits)
    with Cons.prems(2,3) have r: "r \<in> set rs" by auto
    from False x Cons.prems(4) obtain ws where "rcv_loop b1 rs = Some (left, ws, b')" by (auto split: bind_splits)
    with Cons.IH [of b1] Cons.prems r b1 show ?thesis by simp
  qed
qed simp

lemma put_objs_all: "(\<And>i. put i) \<Longrightarrow> put_objs b put xs = map (arrived_of b) xs"
proof -
  assume "\<And>i. put i"
  then have "filter (\<lambda>(i, x). put i) (enumerate 0 xs) = enumerate 0 xs" by (simp add: filter_id_conv split_def)
  then have "put_objs b put xs = map (arrived_of b) (map snd (enumerate 0 xs))"
    by (simp only: put_objs_def split_def map_map comp_def)
  then show ?thesis by (simp only: map_snd_enumerate)
qed

text \<open>
  The answer of a half-duplex device, however many quiet rounds come before it, is
  given to the plugin with exactly the bytes that were read; the values the plugin finds go to
  the monitor under the key of the device, in order, the counter of lost messages is cleared,
  and then the line is closed and its mutex is free.
\<close>

lemma serial_answer_delivered:
  assumes "\<not> mb_bFullDuplex b" and "\<forall>r \<in> set rs. quiet_round b r"
    and "rr_run r" and "rr_diff r < rcv_limit b" and "rr_wait r = Input True n (Some bs)" and "length bs \<le> n" and "n < 65536"
    and "\<And>i. rr_put r i" and "can_parse b = Some True"
    and "call_parse b (bs @ replicate (n - length bs) 0) (length bs) = Some (Ptr xs)"
    and "sp_sfd p \<noteq> - 1" and "sp_pMutex p = Ptr m"
  shows "\<exists>p' w'. SerialRcvEntry (Ptr b) p (rs @ r # rest) w =
      Some (True, map (arrived_of b) xs, Ptr (b\<lparr>mb_lostCnt := 0\<rparr>), p', w')
    \<and> sp_sfd p' = - 1 \<and> \<not> sp_bRcvRun p' \<and> ls_fds w' = (ls_fds w)(sp_sfd p := None) \<and> \<not> ls_locked w' m"
proof -
  have "rcv_loop b (rs @ r # rest) = Some (True, map (arrived_of b) xs, b\<lparr>mb_lostCnt := 0\<rparr>)"
    using assms(1,3,5-10) assms(4) [unfolded not_le [symmetric]]
    by (simp add: rcv_loop_quiet [OF assms(2)] rcv_once_def rcv_input_def rcv_buf_def put_objs_all)
  with assms(11,12) show ?thesis by (simp add: SerialRcvEntry_def SerialClose_def)
qed

text \<open>A device whose plugin reads the switch from the fifth byte of an answer.\<close>

definition ex_parse :: "u8 \<Rightarrow> u16 \<Rightarrow> bytes \<Rightarrow> nat \<Rightarrow> parsed" where
  "ex_parse devId reg buf len =
     (if len < 5 then Some NULL else do { v \<leftarrow> rd8 buf 4; Some (Ptr [obj VENT_SWITCH (ucast v)]) })"

definition ex_reader :: MbusBase where
  "ex_reader = ex_mbase\<lparr>mb_pIf := Ptr \<lparr>mi_build = NULL, mi_buildExt = NULL, mi_parse = Ptr ex_parse, mi_parseExt = NULL\<rparr>\<rparr>"

definition ex_round :: "u32 \<Rightarrow> wait \<Rightarrow> rcv_round" where
  "ex_round t x = \<lparr>rr_run = True, rr_diff = t, rr_wait = x, rr_put = (\<lambda>_. True)\<rparr>"

lemma serial_answer_delivered_example:
  "\<exists>p' w'. SerialRcvEntry (Ptr ex_reader) (ex_port\<lparr>sp_sfd := 5\<rparr>)
      [ex_round 10000 Quiet, ex_round 20000 Quiet, ex_round 30000 (Input True 6 (Some [1, 3, 2, 0, 9]))]
      (ex_sys\<lparr>ls_locked := (\<lambda>m. m = 2)\<rparr>)
    = Some (True, [arrived_of ex_reader (obj VENT_SWITCH 9)], Ptr (ex_reader\<lparr>mb_lostCnt := 0\<rparr>), p', w')
    \<and> sp_sfd p' = - 1 \<and> \<not> ls_locked w' 2"
  using serial_answer_delivered [of ex_reader "[ex_round 10000 Quiet, ex_round 20000 Quiet]"
      "ex_round 30000 (Input True 6 (Some [1, 3, 2, 0, 9]))" 6 "[1, 3, 2, 0, 9]" "[obj VENT_SWITCH 9]"
      "ex_port\<lparr>sp_sfd := 5\<rparr>" 2 "[]" "ex_sys\<lparr>ls_locked := (\<lambda>m. m = 2)\<rparr>"]
  by (fastforce simp: ex_reader_def ex_mbase_def ex_round_def quiet_round_def rcv_limit_def can_parse_def call_parse_def
      ex_parse_def rd8_def ex_port_def)

text \<open>
  Claim C10. The receiving thread of a half-duplex device ends: once a round comes after its
  time is over, half a second and the delay of the device, it has left its loop and closed the
  line, unless the plugin itself misbehaved, whatever else happened on the line.
\<close>

theorem serial_receive_ends:
  assumes "\<not> mb_bFullDuplex b" and "r \<in> set rs" and "rcv_limit b \<le> rr_diff r"
    and "SerialRcvEntry (Ptr b) p rs w = Some (ended, vs, b', p', w')" and "sp_sfd p \<noteq> - 1" and "sp_pMutex p = Ptr m"
  shows "ended \<and> sp_sfd p' = - 1 \<and> \<not> ls_locked w' m \<and> uint (rcv_limit b) = 500000 + 1000 * uint (mb_delay b)"
proof -
  from assms(4) obtain left ws b1 where l: "rcv_loop b rs = Some (left, ws, b1)"
    by (auto simp: SerialRcvEntry_def split: bind_splits)
  with rcv_loop_over [OF assms(1-3) l] assms(4-6) have "ended \<and> sp_sfd p' = - 1 \<and> \<not> ls_locked w' m"
    by (auto simp: SerialRcvEntry_def SerialClose_def)
  moreover have "uint (rcv_limit b) = 500000 + 1000 * uint (mb_delay b)"
  proof -
    have "uint (mb_delay b) < 2 ^ LENGTH(16)" by (rule unsigned_less)
    then show ?thesis
      by (simp add: rcv_limit_def uint_word_ariths unsigned_ucast_eq take_bit_int_eq_self)
  qed
  ultimately show ?thesis by blast
qed

theorem serial_receive_ends_witness:
  "\<exists>p' w'. SerialRcvEntry (Ptr ex_reader) (ex_port\<lparr>sp_sfd := 5\<rparr>) [ex_round 10000 Quiet, ex_round 500000 Trouble] ex_sys
      = Some (True, [], Ptr ex_reader, p', w') \<and> sp_sfd p' = - 1"
proof -
  have f: "\<not> mb_bFullDuplex ex_reader" and l: "rcv_limit ex_reader = 500000"
    by (simp_all add: ex_reader_def ex_mbase_def rcv_limit_def)
  obtain p' w' where run: "SerialRcvEntry (Ptr ex_reader) (ex_port\<lparr>sp_sfd := 5\<rparr>)
      [ex_round 10000 Quiet, ex_round 500000 Trouble] ex_sys = Some (True, [], Ptr ex_reader, p', w')"
    using f l by (simp add: SerialRcvEntry_def rcv_once_def ex_round_def SerialClose_def ex_port_def)
  with serial_receive_ends [OF f _ _ run, of "ex_round 500000 Trouble" 2] l show ?thesis
    by (auto simp: ex_round_def ex_port_def)
qed

end
