(* ===== verification/Mbus_Climate.thy ===== *)
theory Mbus_Climate
  imports Plugin_Api
begin

text \<open>
  Heating, panel, air-quality, humidifier and purifier plugins:
  \<open>plugin/compile/Mbus_Heat_Honeywell.c\<close>, \<open>Mbus_Panel_Ohosure.c\<close>, \<open>Mbus_AQI_Ohosure.c\<close>,
  \<open>Modbus_FloorHeating_TOWWIRE.c\<close>, \<open>Modbus_Humidifier_SPTC.c\<close> and \<open>Modbus_Purifier.c\<close>.
  The last three validate a frame before they read it; the humidifier alternates its
  polls through a static counter, which is an explicit argument and result here.
\<close>

subsection \<open>Honeywell floor heating\<close>

definition Honeywell_build :: "(nat \<Rightarrow> bool) \<Rightarrow> u8 \<Rightarrow> ty_obj_dp cptr \<Rightarrow> built" where
  "Honeywell_build al devId pObj =
     (case new_msg al 8 of NULL \<Rightarrow> Some NULL
      | Ptr b \<Rightarrow> do {
          b \<leftarrow> wr8 b 0 devId;
          b \<leftarrow> (case pObj of
                 NULL \<Rightarrow> do {
                   b \<leftarrow> wr8 b 1 0x3;
                   b \<leftarrow> wr16 b 2 0x01;
                   wr16 b 4 4 }
               | Ptr dp \<Rightarrow> do {
                   b \<leftarrow> wr8 b 1 0x6;
                   if dpid dp = 1 then do {
                     b \<leftarrow> wr16 b 2 0x01;
                     wr16 b 4 (ucast (dp_bool dp)) }
                   else if dpid dp = 2 then do {
                     b \<leftarrow> wr16 b 2 0x04;
                     wr16 b 4 (ucast (dp_enum dp * 10)) }
                   else Some b });
          crc_msg b 6 })"

definition Honeywell_parse :: "(nat \<Rightarrow> bool) \<Rightarrow> u8 \<Rightarrow> bytes cptr \<Rightarrow> nat \<Rightarrow> parsed" where
  "Honeywell_parse al devId buf len =
     on_match buf len 7 [(devkey devId 0x3, 7), (devkey devId 0x6, 7)] NULL
       (\<lambda>pBuf pos cmd.
         if cmd = 0x3 then with_objs al 3 (do {
           sw \<leftarrow> rd8 pBuf (pos + 4);
           t \<leftarrow> rd16 pBuf (pos + 9);
           env \<leftarrow> rd16 pBuf (pos + 5);
           ret_objs [obj HEAT_SWITCH (ucast sw), obj HEAT_TEMP (ucast t div 10),
             obj HEAT_ENV_TEMP (ucast env div 10)] })
         else if cmd = 0x6 then with_objs al 1 (do {
           reg \<leftarrow> rd16 pBuf (pos + 2);
           if reg = 0x01 then do {
             v \<leftarrow> rd8 pBuf (pos + 5);
             ret_objs [obj HEAT_SWITCH (ucast v)] }
           else if reg = 0x04 then do {
             v \<leftarrow> rd16 pBuf (pos + 4);
             ret_objs [obj HEAT_TEMP (ucast v div 10)] }
           else Some NULL })
         else Some NULL)"

subsection \<open>Ohosure panel and air-quality sensor\<close>

definition Panel_build :: "(nat \<Rightarrow> bool) \<Rightarrow> u8 \<Rightarrow> ty_obj_dp cptr \<Rightarrow> built" where
  "Panel_build al devId pObj =
     (case new_msg al 8 of NULL \<Rightarrow> Some NULL
      | Ptr b \<Rightarrow> do {
          b \<leftarrow> wr8 b 0 devId;
          b \<leftarrow> (case pObj of
                 NULL \<Rightarrow> do {
                   b \<leftarrow> wr8 b 1 0x3;
                   b \<leftarrow> wr16 b 2 0x100B;
                   wr16 b 4 0x0001 }
               | Ptr dp \<Rightarrow> do {
                   b \<leftarrow> wr8 b 1 0x6;
                   if dpid dp = 1 then do {
                     b \<leftarrow> wr16 b 2 0x1008;
                     wr16 b 4 (ucast (dp_bool dp)) }
                   else Some b });
          crc_msg b 6 })"

definition Panel_parse :: "(nat \<Rightarrow> bool) \<Rightarrow> u8 \<Rightarrow> bytes cptr \<Rightarrow> nat \<Rightarrow> parsed" where
  "Panel_parse al devId buf len =
     on_match buf len 8 [(devkey devId 0x3, 8), (devkey devId 0x6, 8)] NULL
       (\<lambda>pBuf pos cmd.
         if cmd = 0x3 then with_objs al 1 (do {
           v \<leftarrow> rd8 pBuf (pos + 5);
           ret_objs [obj PANEL_SWITCH (ucast v)] })
         else if cmd = 0x6 then with_objs al 1 (do {
           v \<leftarrow> rd8 pBuf (pos + 5);
           ret_objs [obj PANEL_SWITCH (ucast v)] })
         else Some NULL)"

definition AQI_build :: "ty_obj_dp cptr \<Rightarrow> built" where
  "AQI_build pObj = Some NULL"

definition AQI_parse :: "(nat \<Rightarrow> bool) \<Rightarrow> u8 \<Rightarrow> bytes cptr \<Rightarrow> nat \<Rightarrow> parsed" where
  "AQI_parse al devId buf len =
     on_match buf len 7 [(devkey devId 0x42, 7), (devkey devId 0x06, 7)] NULL
       (\<lambda>pBuf pos cmd.
         if cmd = 0x42 then with_objs al 4 (do {
           t \<leftarrow> rd16 pBuf (pos + 11);
           h \<leftarrow> rd16 pBuf (pos + 13);
           pm \<leftarrow> rd16 pBuf (pos + 15);
           co \<leftarrow> rd16 pBuf (pos + 19);
           ret_objs [obj HEAT_TEMP (ucast t - 25), obj HEAT_SWITCH (ucast h),
             obj HEAT_ENV_TEMP (ucast pm), obj HEAT_ENV_TEMP (ucast co)] })
         else Some NULL)"

subsection \<open>TOWWIRE floor heating\<close>

text \<open>
  \<open>checkPackage\<close> takes the length as a \<open>uint8_t\<close>; \<^term>\<open>True\<close> stands for its result 0.
\<close>

definition crc_check :: "bytes \<Rightarrow> u8 \<Rightarrow> u8 \<Rightarrow> u8 list \<Rightarrow> bool exec" where
  "crc_check package sz devId codes =
     (if sz < 3 then Some False
      else do {
        crc \<leftarrow> crc16 package (int (unat sz) - 2);
        packageCRC \<leftarrow> rd16 package (unat sz - 2);
        if crc \<noteq> packageCRC then Some False
        else do {
          d \<leftarrow> rd8 package 0;
          if devId \<noteq> d then Some False
          else do {
            c \<leftarrow> rd8 package 1;
            Some (c \<in> set codes) } } })"

definition TOWWIRE_checkPackage :: "bytes \<Rightarrow> u8 \<Rightarrow> u8 \<Rightarrow> bool exec" where
  "TOWWIRE_checkPackage package sz devId = crc_check package sz devId [3, 6]"

definition TOWWIRE_build :: "(nat \<Rightarrow> bool) \<Rightarrow> u8 \<Rightarrow> u16 \<Rightarrow> ty_obj_dp cptr \<Rightarrow> built" where
  "TOWWIRE_build al devId regAddr pObj =
     (case new_msg al 8 of NULL \<Rightarrow> Some NULL
      | Ptr b \<Rightarrow> do {
          b \<leftarrow> wr8 b 0 devId;
          (case pObj of
             NULL \<Rightarrow> do {
               b \<leftarrow> wr8 b 1 3;
               b \<leftarrow> wr8 b 3 (4 + 7 * (ucast regAddr - 1));
               b \<leftarrow> wr8 b 5 5;
               crc_msg b 6 }
           | Ptr dp \<Rightarrow> do {
               b \<leftarrow> wr8 b 1 6;
               if dpid dp = 1 then do {
                 b \<leftarrow> wr8 b 3 ((ucast regAddr - 1) * 7 + 4);
                 b \<leftarrow> wr8 b 5 (dp_bool dp);
                 crc_msg b 6 }
               else if dpid dp = 2 then do {
                 b \<leftarrow> wr8 b 3 ((ucast regAddr - 1) * 7 + 5);
                 b \<leftarrow> wr8 b 4 (ucast (drop_bit 8 (dp_raw dp)));
                 b \<leftarrow> wr8 b 5 (ucast (dp_raw dp));
                 crc_msg b 6 }
               else Some NULL }) })"

text \<open>The remainder of C, which has the sign of the dividend.\<close>

definition c_rem :: "int \<Rightarrow> int \<Rightarrow> int" where
  "c_rem a b = (if a < 0 then - ((- a) mod b) else a mod b)"

definition TOWWIRE_dataPoint :: "u8 \<Rightarrow> u8" where
  "TOWWIRE_dataPoint p3 = word_of_int (c_rem (uint p3 - 3) 7 - 1)"

definition TOWWIRE_parse :: "(nat \<Rightarrow> bool) \<Rightarrow> u8 \<Rightarrow> bytes cptr \<Rightarrow> nat \<Rightarrow> parsed" where
  "TOWWIRE_parse al devId buf len =
     (case buf of NULL \<Rightarrow> Some NULL
      | Ptr package \<Rightarrow> do {
          ok \<leftarrow> TOWWIRE_checkPackage package (of_nat len) devId;
          if \<not> ok then Some NULL
          else do {
            c \<leftarrow> rd8 package 1;
            if c = 3 then with_objs al 3 (do {
              sw \<leftarrow> rd8 package 4;
              t \<leftarrow> rd16 package 5;
              env \<leftarrow> rd16 package 7;
              ret_objs [obj HEAT_SWITCH (ucast sw), obj HEAT_TEMP (ucast t), obj HEAT_ENV_TEMP (ucast env)] })
            else with_objs al 1 (do {
              p3 \<leftarrow> rd8 package 3;
              (let dataPoint = TOWWIRE_dataPoint p3; point = 300 + 2 * unat dataPoint in
               if dataPoint = 0 then do {
                 v \<leftarrow> rd8 package 5;
                 ret_objs [mk_obj point (ucast v)] }
               else if dataPoint = 1 \<or> dataPoint = 2 then do {
                 v \<leftarrow> rd16 package 4;
                 ret_objs [mk_obj point (ucast v)] }
               else Some NULL) }) } })"

subsection \<open>SPTC humidifier\<close>

definition Humidifier_checkPackage :: "bytes \<Rightarrow> u8 \<Rightarrow> u8 \<Rightarrow> bool exec" where
  "Humidifier_checkPackage package sz devId = crc_check package sz devId [4, 1, 6, 5]"

definition Humidifier_build ::
  "(nat \<Rightarrow> bool) \<Rightarrow> u8 \<Rightarrow> u8 \<Rightarrow> ty_obj_dp cptr \<Rightarrow> (Msg cptr \<times> u8) exec" where
  "Humidifier_build al count devId pObj =
     (case new_msg al 8 of NULL \<Rightarrow> Some (NULL, count)
      | Ptr b \<Rightarrow> do {
          b \<leftarrow> wr8 b 0 devId;
          (case pObj of
             NULL \<Rightarrow> do {
               b \<leftarrow> (if count AND 1 = 1 then do {
                      b \<leftarrow> wr8 b 1 1;
                      wr8 b 5 1 }
                    else do {
                      b \<leftarrow> wr8 b 1 4;
                      b \<leftarrow> wr8 b 3 0x91;
                      wr8 b 5 1 });
               m \<leftarrow> crc_msg b 6;
               Some (m, count + 1) }
           | Ptr dp \<Rightarrow>
               if dpid dp = 101 then do {
                 b \<leftarrow> wr8 b 1 5;
                 b \<leftarrow> wr8 b 4 (if dp_bool dp = 1 then 0xFF else 0);
                 m \<leftarrow> crc_msg b 6;
                 Some (m, count) }
               else if dpid dp = 102 then do {
                 b \<leftarrow> wr8 b 1 6;
                 b \<leftarrow> wr8 b 3 0x62;
                 b \<leftarrow> wr8 b 5 (word_of_int (dp_value dp));
                 m \<leftarrow> crc_msg b 6;
                 Some (m, count) }
               else Some (NULL, count)) })"

definition Humidifier_parse :: "(nat \<Rightarrow> bool) \<Rightarrow> u8 \<Rightarrow> bytes cptr \<Rightarrow> nat \<Rightarrow> parsed" where
  "Humidifier_parse al devId buf len =
     (case buf of NULL \<Rightarrow> Some NULL
      | Ptr package \<Rightarrow> do {
          ok \<leftarrow> Humidifier_checkPackage package (of_nat len) devId;
          if \<not> ok then Some NULL
          else with_objs al 1 (do {
            c \<leftarrow> rd8 package 1;
            (let point = feature_code HUMIDIFIER_SWITCH + (if c AND 1 = 0 then 1 else 0) in
             if c = 1 then do {
               v \<leftarrow> rd8 package 3;
               ret_objs [mk_obj point (if v = 0xFF then 1 else 0)] }
             else if c = 4 then do {
               v \<leftarrow> rd8 package 4;
               ret_objs [mk_obj point (ucast v)] }
             else if c = 5 then do {
               v \<leftarrow> rd8 package 4;
               ret_objs [mk_obj point (if v = 0xFF then 1 else 0)] }
             else if c = 6 then do {
               v \<leftarrow> rd8 package 5;
               ret_objs [mk_obj point (ucast v)] }
             else Some NULL) }) })"

subsection \<open>Purifier\<close>

fun sum_loop :: "bytes \<Rightarrow> nat \<Rightarrow> nat \<Rightarrow> u32 \<Rightarrow> u32 exec" where
  "sum_loop package i 0 acc = Some acc"
| "sum_loop package i (Suc n) acc = do {
     b \<leftarrow> rd8 package i;
     sum_loop package (Suc i) n (acc + ucast b) }"

definition Purifier_checkSum :: "bytes \<Rightarrow> u8 \<Rightarrow> u8 exec" where
  "Purifier_checkSum package sz = map_option ucast (sum_loop package 1 (unat sz - 1) 0)"

definition Purifier_checkPackage :: "bytes \<Rightarrow> u8 \<Rightarrow> u8 \<Rightarrow> bool exec" where
  "Purifier_checkPackage package sz devId =
     (if sz < 3 then Some False
      else do {
        h \<leftarrow> rd8 package 0;
        if h \<noteq> 0xAA then Some False
        else do {
          d \<leftarrow> rd8 package 1;
          if d \<noteq> devId then Some False
          else do {
            c \<leftarrow> rd8 package 3;
            if c \<noteq> 0x04 \<and> c \<noteq> 0x05 then Some False
            else do {
              l \<leftarrow> rd8 package 2;
              if l \<noteq> sz then Some False
              else do {
                s \<leftarrow> Purifier_checkSum package (l - 1);
                e \<leftarrow> rd8 package (unat sz - 1);
                Some (s = e) } } } } })"

definition Purifier_build :: "(nat \<Rightarrow> bool) \<Rightarrow> u8 \<Rightarrow> ty_obj_dp cptr \<Rightarrow> built" where
  "Purifier_build al devId pObj =
     (case pObj of
        NULL \<Rightarrow>
          (case new_msg al 5 of NULL \<Rightarrow> Some NULL
           | Ptr b \<Rightarrow> do {
               b \<leftarrow> wr8 b 2 0x05;
               b \<leftarrow> wr8 b 3 0x04;
               c \<leftarrow> Purifier_checkSum b 5;
               b \<leftarrow> wr8 b 4 c;
               b \<leftarrow> wr8 b 0 0xAA;
               b \<leftarrow> wr8 b 1 devId;
               ret_msg b })
      | Ptr dp \<Rightarrow>
          (case new_msg al 9 of NULL \<Rightarrow> Some NULL
           | Ptr b \<Rightarrow> do {
               b \<leftarrow> wr8 b 2 0x09;
               b \<leftarrow> wr8 b 3 0x05;
               if dpid dp = 104 then do {
                 b \<leftarrow> wr8 b 4 0x55;
                 b \<leftarrow> wr8 b 5 0x55;
                 b \<leftarrow> wr8 b 6 0x55;
                 b \<leftarrow> wr8 b 7 0x55;
                 c \<leftarrow> Purifier_checkSum b 9;
                 b \<leftarrow> wr8 b 8 c;
                 b \<leftarrow> wr8 b 0 0xAA;
                 b \<leftarrow> wr8 b 1 devId;
                 ret_msg b }
               else Some NULL }))"

definition le16 :: "bytes \<Rightarrow> nat \<Rightarrow> u32 exec" where
  "le16 package i = do {
     h \<leftarrow> rd8 package (Suc i);
     l \<leftarrow> rd8 package i;
     Some (push_bit 8 (ucast h) + ucast l) }"

definition Purifier_parse :: "(nat \<Rightarrow> bool) \<Rightarrow> u8 \<Rightarrow> bytes cptr \<Rightarrow> nat \<Rightarrow> parsed" where
  "Purifier_parse al devId buf len =
     (case buf of NULL \<Rightarrow> Some NULL
      | Ptr package \<Rightarrow> do {
          ok \<leftarrow> Purifier_checkPackage package (of_nat len) devId;
          if \<not> ok then Some NULL
          else do {
            k \<leftarrow> rd8 package 2;
            if k = 0x04 then with_objs al 4 (do {
              f0 \<leftarrow> le16 package 4;
              f1 \<leftarrow> le16 package 6;
              f2 \<leftarrow> le16 package 8;
              f3 \<leftarrow> le16 package 10;
              tds \<leftarrow> le16 package 20;
              ft \<leftarrow> le16 package 12;
              ret_objs [obj PURIFIER_FLOW (take_bit 16 (f0 + f1 + f2 + f3)), obj PURIFIER_TDS tds,
                obj PURIFIER_PP_FILTER_TIME ft, obj PURIFIER_RESET 0] })
            else if k = 0x05 then with_objs al 1 (do {
              r0 \<leftarrow> rd8 package 4;
              r1 \<leftarrow> rd8 package 5;
              r2 \<leftarrow> rd8 package 6;
              r3 \<leftarrow> rd8 package 7;
              if r0 = 0 \<and> r1 = 0 \<and> r2 = 0 \<and> r3 = 0 then ret_objs [obj PURIFIER_RESET 1]
              else ret_objs [zero_obj] })
            else Some NULL } })"


subsection \<open>The builders meet the CRC contract\<close>

definition honeywell_builder :: "(nat \<Rightarrow> bool) \<Rightarrow> request \<Rightarrow> built" where
  "honeywell_builder al x = (case x of (devId, regAddr, groupAddr, pObj) \<Rightarrow> Honeywell_build al devId pObj)"

definition panel_builder :: "(nat \<Rightarrow> bool) \<Rightarrow> request \<Rightarrow> built" where
  "panel_builder al x = (case x of (devId, regAddr, groupAddr, pObj) \<Rightarrow> Panel_build al devId pObj)"

definition towwire_builder :: "(nat \<Rightarrow> bool) \<Rightarrow> request \<Rightarrow> built" where
  "towwire_builder al x = (case x of (devId, regAddr, groupAddr, pObj) \<Rightarrow> TOWWIRE_build al devId regAddr pObj)"

definition humidifier_builder :: "u8 \<Rightarrow> (nat \<Rightarrow> bool) \<Rightarrow> request \<Rightarrow> built" where
  "humidifier_builder count al x = (case x of (devId, regAddr, groupAddr, pObj) \<Rightarrow>
     map_option fst (Humidifier_build al count devId pObj))"

interpretation honeywell: total_crc_builder honeywell_builder
proof
  fix al x
  show "post (honeywell_builder al x) (\<lambda>r. case r of NULL \<Rightarrow> True | Ptr m \<Rightarrow> framed_msg m)"
    and "\<exists>r. honeywell_builder al x = Some r"
    by (cases x; cases "snd (snd (snd x))";
      simp add: honeywell_builder_def Honeywell_build_def new_msg_def framed_msg_def frame_simps
        crc_msg_Some post_Some)+
qed

interpretation panel: total_crc_builder panel_builder
proof
  fix al x
  show "post (panel_builder al x) (\<lambda>r. case r of NULL \<Rightarrow> True | Ptr m \<Rightarrow> framed_msg m)"
    and "\<exists>r. panel_builder al x = Some r"
    by (cases x; cases "snd (snd (snd x))";
      simp add: panel_builder_def Panel_build_def new_msg_def framed_msg_def frame_simps
        crc_msg_Some post_Some)+
qed

interpretation towwire: total_crc_builder towwire_builder
proof
  fix al x
  show "post (towwire_builder al x) (\<lambda>r. case r of NULL \<Rightarrow> True | Ptr m \<Rightarrow> framed_msg m)"
    and "\<exists>r. towwire_builder al x = Some r"
    by (cases x; cases "snd (snd (snd x))";
      simp add: towwire_builder_def TOWWIRE_build_def new_msg_def framed_msg_def frame_simps
        crc_msg_Some post_Some)+
qed

interpretation humidifier: total_crc_builder "humidifier_builder count"
proof
  fix al x
  show "post (humidifier_builder count al x) (\<lambda>r. case r of NULL \<Rightarrow> True | Ptr m \<Rightarrow> framed_msg m)"
    and "\<exists>r. humidifier_builder count al x = Some r"
    by (cases x; cases "snd (snd (snd x))";
      simp add: humidifier_builder_def Humidifier_build_def new_msg_def framed_msg_def frame_simps
        crc_msg_Some post_Some)+
qed

subsection \<open>The checking parsers\<close>

lemma crc_check_unframed:
  assumes "length package < 256" and "\<not> crc_framed package"
  shows "crc_check package (of_nat (length package)) devId codes = Some False"
proof (cases "length package < 3")
  case True
  then have "length package = 0 \<or> length package = 1 \<or> length package = 2" by linarith
  then show ?thesis by (auto simp: crc_check_def)
next
  case False
  let ?n = "length package"
  have sz: "unat (of_nat ?n :: u8) = ?n"
    using assms(1) by (simp add: unat_of_nat)
  then have "\<not> (of_nat ?n :: u8) < 3"
    using False by (simp add: word_less_nat_alt)
  moreover have "crc16 package (int ?n - 2) = Some (swap16 (modbus_crc (take (?n - 2) package)))"
    using False crc16_Some [of "?n - 2" package] by (simp add: of_nat_diff)
  moreover obtain w where "rd16 package (?n - 2) = Some w"
    using False by (auto simp: rd16_Some)
  ultimately show ?thesis
    using assms(2) False by (simp add: crc_check_def crc_framed_def sz)
qed

definition towwire_parser :: "(nat \<Rightarrow> bool) \<Rightarrow> u8 \<Rightarrow> bytes \<Rightarrow> parsed" where
  "towwire_parser al devId pBuf = TOWWIRE_parse al devId (Ptr pBuf) (length pBuf)"

definition humidifier_parser :: "(nat \<Rightarrow> bool) \<Rightarrow> u8 \<Rightarrow> bytes \<Rightarrow> parsed" where
  "humidifier_parser al devId pBuf = Humidifier_parse al devId (Ptr pBuf) (length pBuf)"

interpretation towwire_p: crc_parser towwire_parser
  by unfold_locales
    (simp add: towwire_parser_def TOWWIRE_parse_def TOWWIRE_checkPackage_def crc_check_unframed)

interpretation humidifier_p: crc_parser humidifier_parser
  by unfold_locales
    (simp add: humidifier_parser_def Humidifier_parse_def Humidifier_checkPackage_def crc_check_unframed)

text \<open>
  The floor-heating and humidifier parsers answer \<open>NULL\<close> to every valid frame
  of less than 256 bytes in which one byte has been changed on the line.
\<close>

lemma checked_parsers_reject_corruption:
  assumes "crc_framed pBuf" and "length pBuf < 256" and "i < length pBuf" and "b \<noteq> pBuf ! i"
  shows "TOWWIRE_parse al devId (Ptr (pBuf[i := b])) (length pBuf) = Some NULL
    \<and> Humidifier_parse al devId (Ptr (pBuf[i := b])) (length pBuf) = Some NULL"
  using towwire_p.rejects_corruption [OF assms] humidifier_p.rejects_corruption [OF assms]
  by (simp add: towwire_parser_def humidifier_parser_def)

lemma checked_parsers_reject_corruption_example:
  "TOWWIRE_parse (\<lambda>_. True) 1 (Ptr ((crc_frame [1, 6, 0, 4, 0, 1])[5 := 0])) 8 = Some NULL"
  using checked_parsers_reject_corruption [OF crc_framed_crc_frame [of "[1, 6, 0, 4, 0, 1]"],
      where i = 5 and b = 0 and al = "\<lambda>_. True" and devId = 1]
  by (simp add: eval_nat_numeral)

subsection \<open>Round trips\<close>

lemma crc_check_frame:
  assumes "length p = n" and "2 \<le> n" and "unat sz = n + 2"
  shows "crc_check (crc_frame p) sz devId codes = Some (devId = p ! 0 \<and> p ! 1 \<in> set codes)"
proof -
  have "\<not> sz < 3"
    using assms(2,3) by (simp add: word_less_nat_alt)
  moreover have "uint sz - 2 = int n"
    using assms(3) by (simp add: uint_nat)
  moreover have "crc16 (crc_frame p) (int n) = Some (swap16 (modbus_crc p))"
    using assms(1) by (simp add: crc16_Some crc_frame_def)
  moreover have "rd16 (crc_frame p) n = Some (swap16 (modbus_crc p))"
    using assms(1) rd16_append_pair [of p] by (simp add: crc_frame_def crc_bytes_def)
  ultimately show ?thesis
    using assms by (simp add: crc_check_def rd8_Some)
qed

lemma crc_check_frame8:
  "crc_check (crc_frame [d, c, b2, b3, b4, b5]) 8 devId codes = Some (devId = d \<and> c \<in> set codes)"
  using crc_check_frame [of "[d, c, b2, b3, b4, b5]" 6 8 devId codes] by simp

lemma TOWWIRE_parse_ack:
  assumes "\<forall>k. al k"
  shows "TOWWIRE_parse al d (Ptr (crc_frame [d, 6, b2, b3, b4, b5])) 8 =
    (let dp = TOWWIRE_dataPoint b3 in
     if dp = 0 then ret_objs [obj HEAT_SWITCH (ucast b5)]
     else if dp = 1 then ret_objs [obj HEAT_TEMP (ucast (devkey b4 b5))]
     else if dp = 2 then ret_objs [obj HEAT_ENV_TEMP (ucast (devkey b4 b5))] else Some NULL)"
  using assms
  by (simp add: TOWWIRE_parse_def TOWWIRE_checkPackage_def crc_check_frame8 rd8_crc_frame rd16_crc_frame
      frame_simps Let_def)

lemma TOWWIRE_dataPoint_reg:
  assumes "1 \<le> unat r" and "unat (r :: u16) \<le> 36"
  shows "TOWWIRE_dataPoint ((ucast r - 1) * 7 + 4) = 0" "TOWWIRE_dataPoint ((ucast r - 1) * 7 + 5) = 1"
proof -
  obtain n where n: "unat r = Suc n" "n < 36"
    using assms by (cases "unat r") auto
  have "ucast r = (of_nat (Suc n) :: u8)"
    by (simp only: n(1) [symmetric] of_nat_unat)
  then have r: "ucast r - 1 = (of_nat n :: u8)" by simp
  have "uint ((of_nat n :: u8) * 7 + of_nat k) = int (n * 7 + k)" if "k < 6" for k
  proof -
    have "(of_nat n :: u8) * 7 + of_nat k = of_nat (n * 7 + k)" by simp
    also have "uint \<dots> = int (n * 7 + k)"
      using n(2) that by (simp only: uint_nat unat_of_nat) simp
    finally show ?thesis .
  qed
  from this [of 4] this [of 5] have
    "uint ((of_nat n :: u8) * 7 + 4) = int (n * 7 + 4)" "uint ((of_nat n :: u8) * 7 + 5) = int (n * 7 + 5)"
    by simp_all
  then show "TOWWIRE_dataPoint ((ucast r - 1) * 7 + 4) = 0" "TOWWIRE_dataPoint ((ucast r - 1) * 7 + 5) = 1"
    unfolding r by (simp_all add: TOWWIRE_dataPoint_def c_rem_def)
qed

text \<open>
  TOWWIRE floor heating, controllers 1 to 36: the acknowledged frame of a switch
  or temperature request is parsed as the requested data point and value (the low 16 bits
  of a temperature). For controller 37 the register number of the switch no longer fits the
  byte it is stored in: the request addresses register 0.
\<close>

lemma TOWWIRE_echo:
  assumes "\<forall>k. al k" and "dpid dp = 1 \<or> dpid dp = 2"
  shows "(1 \<le> unat regAddr \<and> unat regAddr \<le> 36 \<longrightarrow>
      (\<exists>m. TOWWIRE_build al devId regAddr (Ptr dp) = Some (Ptr m)
        \<and> TOWWIRE_parse al devId (Ptr (msg_pBuf m)) (msg_len m) = ret_objs
          [if dpid dp = 1 then obj HEAT_SWITCH (ucast (dp_bool dp)) else obj HEAT_TEMP (take_bit 16 (dp_raw dp))]))
    \<and> (dpid dp = 1 \<longrightarrow> (\<exists>m. TOWWIRE_build al devId 37 (Ptr dp) = Some (Ptr m) \<and> msg_pBuf m ! 3 = 0))"
proof -
  have "\<exists>m. TOWWIRE_build al devId regAddr (Ptr dp) = Some (Ptr m)
      \<and> TOWWIRE_parse al devId (Ptr (msg_pBuf m)) (msg_len m) = ret_objs
        [if dpid dp = 1 then obj HEAT_SWITCH (ucast (dp_bool dp)) else obj HEAT_TEMP (take_bit 16 (dp_raw dp))]"
    if "1 \<le> unat regAddr" "unat regAddr \<le> 36"
    using assms TOWWIRE_dataPoint_reg [OF that]
    by (auto simp: TOWWIRE_build_def frame_simps crc_msg_Some TOWWIRE_parse_ack Let_def dp_bool_def
        low_bytes16)
  moreover have "\<exists>m. TOWWIRE_build al devId 37 (Ptr dp) = Some (Ptr m) \<and> msg_pBuf m ! 3 = 0"
    if "dpid dp = 1"
    using assms that by (simp add: TOWWIRE_build_def frame_simps crc_msg_Some crc_frame_def)
  ultimately show ?thesis by blast
qed

lemma TOWWIRE_echo_example:
  "\<exists>m. TOWWIRE_build (\<lambda>_. True) 1 36 (Ptr \<lparr>dpid = 2, dp_type = 1, dp_raw = 25\<rparr>) = Some (Ptr m)
    \<and> TOWWIRE_parse (\<lambda>_. True) 1 (Ptr (msg_pBuf m)) (msg_len m) = ret_objs [obj HEAT_TEMP 25]"
  using TOWWIRE_echo [where al = "\<lambda>_. True" and regAddr = 36 and devId = 1
      and dp = "\<lparr>dpid = 2, dp_type = 1, dp_raw = 25\<rparr>"]
  by simp

lemma times10:
  fixes v :: u32
  assumes "unat v * 10 < 65536"
  shows "ucast (ucast (v * 10) :: u16) div 10 = v"
proof -
  have v: "unat (v * 10) = unat v * 10"
    using assms by (simp add: unat_word_ariths)
  have "unat (ucast (v * 10) :: u16) = unat v * 10"
    using assms v by (simp add: unsigned_ucast_eq take_bit_nat_eq_self)
  then have "ucast (ucast (v * 10) :: u16) = v * 10"
    using v by (intro word_unat_eq_iff [THEN iffD2]) simp
  then show ?thesis
    using v by (intro word_unat_eq_iff [THEN iffD2]) (simp add: unat_div)
qed

lemma Honeywell_parse_ack:
  assumes "\<forall>k. al k" and "r = 1 \<or> r = 4"
  shows "Honeywell_parse al d (Ptr (crc_frame [d, 6, 0, r, b4, b5])) 8 =
    (if r = 1 then ret_objs [obj HEAT_SWITCH (ucast b5)]
     else ret_objs [obj HEAT_TEMP (ucast (devkey b4 b5) div 10)])"
proof -
  let ?f = "crc_frame [d, 6, 0, r, b4, b5]"
  have "rd16 ?f i \<noteq> Some k" if "(k, m) \<in> set [(devkey d 3, 7), (devkey d 6, 7)]" "0 < i" "i + m \<le> 8" for k m i
  proof -
    from that have "i = 1" by auto
    with that show ?thesis by (auto simp: rd8_crc_frame frame_simps)
  qed
  then show ?thesis
    unfolding Honeywell_parse_def
    using assms
    by (subst on_match_front [where n = 8])
      (auto simp: rd8_crc_frame rd16_crc_frame frame_simps)
qed

text \<open>
  Honeywell floor heating: the acknowledged frame of a switch request is parsed
  as the requested switch byte, and that of a temperature request as the requested
  temperature as long as ten times the temperature fits 16 bits.
\<close>

lemma Honeywell_echo:
  assumes "\<forall>k. al k" and "dpid dp = 1 \<or> dpid dp = 2 \<and> unat (dp_enum dp) * 10 < 65536"
  shows "\<exists>m. Honeywell_build al devId (Ptr dp) = Some (Ptr m)
    \<and> Honeywell_parse al devId (Ptr (msg_pBuf m)) (msg_len m) = ret_objs
        [if dpid dp = 1 then obj HEAT_SWITCH (ucast (dp_bool dp)) else obj HEAT_TEMP (dp_enum dp)]"
  using assms
  by (auto simp: Honeywell_build_def frame_simps crc_msg_Some Honeywell_parse_ack times10)

lemma Panel_parse_ack:
  assumes "\<forall>k. al k"
  shows "Panel_parse al d (Ptr (crc_frame [d, 6, b2, b3, b4, b5])) 8 = ret_objs [obj PANEL_SWITCH (ucast b5)]"
  using assms by (simp add: Panel_parse_def on_match_exact rd8_crc_frame frame_simps)

lemma Humidifier_parse_ack:
  assumes "\<forall>k. al k"
  shows "Humidifier_parse al d (Ptr (crc_frame [d, 5, b2, b3, b4, b5])) 8
      = ret_objs [obj HUMIDIFIER_SWITCH (if b4 = 0xFF then 1 else 0)]"
    and "Humidifier_parse al d (Ptr (crc_frame [d, 6, b2, b3, b4, b5])) 8
      = ret_objs [obj HUMIDIFIER_HUMIDITY_SET (ucast b5)]"
  using assms
  by (simp_all add: Humidifier_parse_def Humidifier_checkPackage_def crc_check_frame8 rd8_crc_frame
      frame_simps Let_def)

text \<open>
  The acknowledged frame of a panel switch request, of a humidifier switch
  request (a C \<open>bool\<close> of 0 or 1) and of a humidity request is parsed as that request, the
  humidity up to its low byte; the poll counter of the humidifier is not touched by a
  write.
\<close>

lemma Panel_Humidifier_echo:
  assumes "\<forall>k. al k" and "dp_bool dp = 0 \<or> dp_bool dp = 1"
  shows "(dpid dp = 1 \<longrightarrow> (\<exists>m. Panel_build al devId (Ptr dp) = Some (Ptr m)
      \<and> Panel_parse al devId (Ptr (msg_pBuf m)) (msg_len m)
        = ret_objs [obj PANEL_SWITCH (ucast (dp_bool dp))]))
    \<and> (dpid dp = 101 \<longrightarrow> (\<exists>m. Humidifier_build al count devId (Ptr dp) = Some (Ptr m, count)
      \<and> Humidifier_parse al devId (Ptr (msg_pBuf m)) (msg_len m)
        = ret_objs [obj HUMIDIFIER_SWITCH (ucast (dp_bool dp))]))
    \<and> (dpid dp' = 102 \<longrightarrow> (\<exists>m. Humidifier_build al count devId (Ptr dp') = Some (Ptr m, count)
      \<and> Humidifier_parse al devId (Ptr (msg_pBuf m)) (msg_len m)
        = ret_objs [obj HUMIDIFIER_HUMIDITY_SET (take_bit 8 (dp_raw dp'))]))"
  using assms
  by (auto simp: Panel_build_def Humidifier_build_def frame_simps crc_msg_Some Panel_parse_ack
      Humidifier_parse_ack dp_value_def ucast_low_byte)

lemma Panel_Humidifier_echo_example:
  "\<exists>m. Humidifier_build (\<lambda>_. True) 3 2 (Ptr \<lparr>dpid = 101, dp_type = 0, dp_raw = 1\<rparr>) = Some (Ptr m, 3)
    \<and> Humidifier_parse (\<lambda>_. True) 2 (Ptr (msg_pBuf m)) (msg_len m) = ret_objs [obj HUMIDIFIER_SWITCH 1]"
  using Panel_Humidifier_echo [where al = "\<lambda>_. True" and devId = 2 and count = 3
      and dp = "\<lparr>dpid = 101, dp_type = 0, dp_raw = 1\<rparr>"]
  by (simp add: dp_bool_def)

subsection \<open>The purifier\<close>

lemma ucast_add_u8: "(ucast (a + b :: u32) :: u8) = ucast a + ucast b"
proof -
  have "uint (ucast (a + b) :: u8) = uint (ucast a + ucast b :: u8)"
    by (simp add: uint_word_ariths unsigned_ucast_eq take_bit_eq_mod mod_mod_cancel mod_simps)
  then show ?thesis by (simp only: word_uint_eq_iff)
qed

lemma sum_loop_Some:
  "i + n \<le> length p \<Longrightarrow>
   map_option ucast (sum_loop p i n acc) = Some ((ucast acc :: u8) + sum_list (take n (drop i p)))"
proof (induction n arbitrary: i acc)
  case 0
  then show ?case by simp
next
  case (Suc n)
  then have "take (Suc n) (drop i p) = p ! i # take n (drop (Suc i) p)"
    by (simp flip: Cons_nth_drop_Suc)
  with Suc.prems Suc.IH [of "Suc i" "acc + ucast (p ! i)"] show ?case
    by (simp add: rd8_Some ucast_add_u8 add.assoc)
qed

lemma Purifier_checkSum_Some:
  "1 \<le> unat n \<Longrightarrow> unat n \<le> length p \<Longrightarrow>
   Purifier_checkSum p n = Some (sum_list (take (unat n - 1) (drop 1 p)))"
  by (simp add: Purifier_checkSum_def sum_loop_Some)

text \<open>
  The checksum of a purifier request is computed before the device address is
  stored, so the plugin's own validation accepts the frames it sends only for device 0.
\<close>

lemma Purifier_request_checksum:
  assumes "\<forall>k. al k" and "pObj = NULL \<or> (\<exists>dp. pObj = Ptr dp \<and> dpid dp = 104)"
  shows "\<exists>m. Purifier_build al devId pObj = Some (Ptr m)
    \<and> Purifier_checkPackage (msg_pBuf m) (of_nat (msg_len m)) devId = Some (devId = 0)"
  using assms
  by (auto simp: Purifier_build_def Purifier_checkPackage_def Purifier_checkSum_Some frame_simps ret_msg_def)

lemma Purifier_request_checksum_example:
  "\<exists>m. Purifier_build (\<lambda>_. True) 7 NULL = Some (Ptr m)
    \<and> Purifier_checkPackage (msg_pBuf m) (of_nat (msg_len m)) 7 = Some False"
  using Purifier_request_checksum [where al = "\<lambda>_. True" and devId = 7 and pObj = NULL] by simp

lemma Purifier_checkPackage_length:
  "Purifier_checkPackage package sz devId = Some True \<Longrightarrow> rd8 package 2 = Some sz"
  by (auto simp: Purifier_checkPackage_def bind_eq_Some_conv split: if_splits)

text \<open>
  The purifier parser selects its branch by the length byte of the frame, which
  the validation has already compared with the length of the buffer; so it never returns
  an object for a buffer of less than 256 bytes: the answer is \<open>NULL\<close>, or the run reads
  behind the four or five bytes of the buffer.
\<close>

lemma Purifier_never_reports:
  assumes "length package < 256"
  shows "Purifier_parse al devId (Ptr package) (length package) \<in> {None, Some NULL}"
proof -
  have sz: "unat (of_nat (length package) :: u8) = length package"
    using assms by (simp only: unat_of_nat) simp
  show ?thesis
  proof (cases "Purifier_checkPackage package (of_nat (length package)) devId = Some True")
    case True
    then have l: "rd8 package 2 = Some (of_nat (length package))"
      by (rule Purifier_checkPackage_length)
    have "length package = 4" if "of_nat (length package) = (4 :: u8)"
      using sz that by simp
    moreover have "length package = 5" if "of_nat (length package) = (5 :: u8)"
      using sz that by simp
    ultimately consider "length package = 4" | "length package = 5"
      | "of_nat (length package) \<noteq> (4 :: u8)" "of_nat (length package) \<noteq> (5 :: u8)"
      by blast
    then show ?thesis
      by cases (use True l in \<open>simp_all add: Purifier_parse_def with_objs_def le16_def rd8_def
          split: cptr.split\<close>)
  next
    case False
    then show ?thesis
      by (cases "Purifier_checkPackage package (of_nat (length package)) devId")
        (auto simp: Purifier_parse_def)
  qed
qed

lemma Purifier_never_reports_example:
  "Purifier_parse (\<lambda>_. True) 1 (Ptr [0xAA, 1, 24, 4, 1, 2, 3]) (length [0xAA, 1, 24, 4, 1, 2, 3 :: u8])
   \<in> {None, Some NULL}"
  by (rule Purifier_never_reports) simp

end
