(* ===== verification/Mbus_Vent.thy ===== *)
theory Mbus_Vent
  imports Mbus_Climate
begin

text \<open>
  Ventilation plugins: \<open>plugin/compile/Mbus_Vent_Dpurat.c\<close>,
  \<open>Modbus_Ventilation_TuoLi_TLCAA301R.c\<close>, \<open>Modbus_Ventilation_BROAN.c\<close>, \<open>Mbus_Vent_Broan.c\<close>,
  \<open>Mbus_Vent_Broan_DTouch.c\<close>, \<open>Mbus_Vent_Broan_ERDH.c\<close>, \<open>Mbus_Vent_Broan_ERDH45_500C.c\<close>,
  \<open>Mbus_Vent_Broan_noah.c\<close> and \<open>Mbus_Vent_Daikin_DTA116A621.c\<close>. The \<open>Mbus_Vent_Broan\<close> family
  receives the device node and looks at two of its pointers; a node is modelled by
  whether these are set. Static caches are explicit arguments and results.
\<close>

subsection \<open>Dpurat and TuoLi\<close>

definition Dpurat_build :: "(nat \<Rightarrow> bool) \<Rightarrow> u8 \<Rightarrow> ty_obj_dp cptr \<Rightarrow> built" where
  "Dpurat_build al devId pObj =
     (case new_msg al 8 of NULL \<Rightarrow> Some NULL
      | Ptr b \<Rightarrow> do {
          b \<leftarrow> wr8 b 0 devId;
          b \<leftarrow> (case pObj of
                 NULL \<Rightarrow> do {
                   b \<leftarrow> wr8 b 1 0x3;
                   b \<leftarrow> wr16 b 2 0x0B;
                   wr16 b 4 3 }
               | Ptr dp \<Rightarrow> do {
                   b \<leftarrow> wr8 b 1 0x6;
                   if dpid dp = 39 then do {
                     b \<leftarrow> wr16 b 2 0x01;
                     wr16 b 4 (ucast (dp_bool dp)) }
                   else if dpid dp = 101 then do {
                     b \<leftarrow> wr16 b 2 0x02;
                     wr16 b 4 (ucast (dp_enum dp)) }
                   else Some b });
          crc_msg b 6 })"

definition Dpurat_parse :: "(nat \<Rightarrow> bool) \<Rightarrow> u8 \<Rightarrow> bytes cptr \<Rightarrow> nat \<Rightarrow> parsed" where
  "Dpurat_parse al devId buf len =
     on_match buf len 7 [(devkey devId 0x3, 7), (devkey devId 0x6, 7)] NULL
       (\<lambda>pBuf pos cmd.
         if cmd = 0x3 then with_objs al 2 (do {
           sw \<leftarrow> rd8 pBuf (pos + 4);
           sp \<leftarrow> rd8 pBuf (pos + 6);
           ret_objs [obj VENT_SWITCH (ucast sw), obj VENT_SPEED (ucast sp)] })
         else if cmd = 0x6 then with_objs al 1 (do {
           reg \<leftarrow> rd16 pBuf (pos + 2);
           if reg = 0x01 then do {
             v \<leftarrow> rd8 pBuf (pos + 5);
             ret_objs [obj VENT_SWITCH (ucast v)] }
           else if reg = 0x02 then do {
             v \<leftarrow> rd8 pBuf (pos + 5);
             ret_objs [obj VENT_SPEED (ucast v)] }
           else Some NULL })
         else Some NULL)"

definition TuoLi_build :: "(nat \<Rightarrow> bool) \<Rightarrow> u8 \<Rightarrow> ty_obj_dp cptr \<Rightarrow> built" where
  "TuoLi_build al devId pObj =
     (case new_msg al 10 of NULL \<Rightarrow> Some NULL
      | Ptr b \<Rightarrow> do {
          b \<leftarrow> wr8 b 0 devId;
          b \<leftarrow> (case pObj of
                 NULL \<Rightarrow> wr8 b 1 0x3
               | Ptr dp \<Rightarrow> do {
                   b \<leftarrow> wr8 b 1 0x10;
                   if dpid dp = 39 then wr8 b 2 (dp_bool dp)
                   else if dpid dp = 101 then do {
                     b \<leftarrow> wr8 b 2 0x1;
                     wr8 b 3 (ucast (dp_enum dp)) }
                   else Some b });
          crc_msg b 8 })"

definition TuoLi_parse :: "(nat \<Rightarrow> bool) \<Rightarrow> u8 \<Rightarrow> bytes cptr \<Rightarrow> nat \<Rightarrow> parsed" where
  "TuoLi_parse al devId buf len =
     on_match buf len 14 [(devkey devId 0x3, 14), (devkey devId 0x10, 14)] NULL
       (\<lambda>pBuf pos cmd. with_objs al 2 (do {
          sw \<leftarrow> rd8 pBuf (pos + 2);
          sp \<leftarrow> rd8 pBuf (pos + 3);
          ret_objs [obj VENT_SWITCH (ucast sw), obj VENT_SPEED (ucast sp)] }))"

subsection \<open>BROAN with a private frame\<close>

definition BROAN_checkSum :: "bytes \<Rightarrow> nat \<Rightarrow> u8 exec" where
  "BROAN_checkSum package isReceive = map_option ucast (sum_loop package 1 (7 + 2 * isReceive - 1) 0)"

definition BROAN_checkPackage :: "bytes \<Rightarrow> u8 \<Rightarrow> u8 \<Rightarrow> bool exec" where
  "BROAN_checkPackage package sz devId = do {
     h \<leftarrow> rd8 package 0;
     if h \<noteq> 0xAA then Some False
     else if sz = 0 then None
     else do {
       f \<leftarrow> rd8 package (unat sz - 1);
       if f \<noteq> 0xF5 then Some False
       else do {
         d \<leftarrow> rd8 package 1;
         if d \<noteq> devId then Some False
         else do {
           host \<leftarrow> rd8 package 2;
           if host \<noteq> 2 then Some False
           else do {
             c \<leftarrow> BROAN_checkSum package 1;
             p9 \<leftarrow> rd8 package 9;
             Some (c = p9) } } } } }"

definition BROAN_build :: "(nat \<Rightarrow> bool) \<Rightarrow> u8 \<Rightarrow> ty_obj_dp cptr \<Rightarrow> built" where
  "BROAN_build al devId pObj =
     (case new_msg al 9 of NULL \<Rightarrow> Some NULL
      | Ptr b \<Rightarrow> do {
          b \<leftarrow> wr8 b 0 0xAA;
          b \<leftarrow> wr8 b 1 devId;
          b \<leftarrow> wr8 b 2 2;
          r \<leftarrow> (case pObj of
                 NULL \<Rightarrow> map_option Ptr (wr8 b 6 0xA5)
               | Ptr dp \<Rightarrow>
                   if dpid dp = 28 then do {
                     b \<leftarrow> wr8 b 3 (if dp_enum dp > 0 then 1 else 0);
                     b \<leftarrow> wr8 b 4 (ucast (dp_enum dp));
                     b \<leftarrow> wr8 b 5 (ucast (dp_enum dp));
                     map_option Ptr (wr8 b 6 0x5A) }
                   else if dpid dp = 39 then do {
                     b \<leftarrow> wr8 b 3 (if dp_bool dp > 0 then 1 else 0);
                     b \<leftarrow> wr8 b 4 (dp_bool dp);
                     b \<leftarrow> wr8 b 5 (dp_bool dp);
                     map_option Ptr (wr8 b 6 0x5A) }
                   else Some NULL);
          (case r of NULL \<Rightarrow> Some NULL
           | Ptr b \<Rightarrow> do {
               c \<leftarrow> BROAN_checkSum b 0;
               b \<leftarrow> wr8 b 7 c;
               b \<leftarrow> wr8 b 8 0xF5;
               ret_msg b }) })"

definition BROAN_parse :: "(nat \<Rightarrow> bool) \<Rightarrow> u8 \<Rightarrow> bytes cptr \<Rightarrow> nat \<Rightarrow> parsed" where
  "BROAN_parse al devId buf len =
     (case buf of NULL \<Rightarrow> Some NULL
      | Ptr package \<Rightarrow> do {
          ok \<leftarrow> BROAN_checkPackage package (of_nat len) devId;
          if \<not> ok then Some NULL
          else with_objs al 3 (do {
            sp \<leftarrow> rd8 package 4;
            sw \<leftarrow> rd8 package 3;
            t \<leftarrow> rd8 package 6;
            ret_objs [obj VENT_SPEED (ucast sp), obj VENT_SWITCH (ucast sw),
              obj VENT_ENV_TEMP (NOT (ucast (t AND 0x7F) - 1))] }) })"

subsection \<open>The device node of the Broan family\<close>

record vent_node =
  vn_pSwitch :: bool
  vn_pSpeed :: bool

definition vent_ready :: "vent_node cptr \<Rightarrow> bool" where
  "vent_ready node = (case node of NULL \<Rightarrow> False | Ptr v \<Rightarrow> vn_pSwitch v \<and> vn_pSpeed v)"

text \<open>
  The guards at the start of \<open>parse\<close>: the buffer and the length first, then the node, which
  is dereferenced without a test for \<open>NULL\<close>.
\<close>

definition vent_guard :: "bytes cptr \<Rightarrow> nat \<Rightarrow> nat \<Rightarrow> vent_node cptr \<Rightarrow> 'r \<Rightarrow> 'r exec \<Rightarrow> 'r exec" where
  "vent_guard buf len minlen node none k =
     (case buf of NULL \<Rightarrow> Some none
      | Ptr pBuf \<Rightarrow>
        if len < minlen then Some none
        else (case node of NULL \<Rightarrow> None
              | Ptr v \<Rightarrow> if \<not> vn_pSwitch v \<or> \<not> vn_pSpeed v then Some none else k))"

subsection \<open>Broan\<close>

record broan_cache =
  bv_switch :: u32
  bv_speed :: u32

definition Broan_build ::
  "(nat \<Rightarrow> bool) \<Rightarrow> broan_cache \<Rightarrow> u8 \<Rightarrow> vent_node cptr \<Rightarrow> ty_obj_dp cptr \<Rightarrow> (Msg cptr \<times> broan_cache) exec" where
  "Broan_build al st devId node pObj =
     (if \<not> vent_ready node then Some (NULL, st)
      else case pObj of
        NULL \<Rightarrow>
          (case new_msg al 8 of NULL \<Rightarrow> Some (NULL, st)
           | Ptr b \<Rightarrow> do {
               b \<leftarrow> wr8 b 0 devId;
               b \<leftarrow> wr8 b 1 0x3;
               b \<leftarrow> wr16 b 2 0x100;
               b \<leftarrow> wr16 b 4 0x2;
               m \<leftarrow> crc_msg b 6;
               Some (m, st) })
      | Ptr dp \<Rightarrow>
          (case new_msg al 13 of NULL \<Rightarrow> Some (NULL, st)
           | Ptr b \<Rightarrow> do {
               b \<leftarrow> wr8 b 0 devId;
               b \<leftarrow> wr8 b 1 0x10;
               (b, st) \<leftarrow>
                 (if dpid dp = 39 then do {
                    b \<leftarrow> wr16 b 2 0x100;
                    b \<leftarrow> wr16 b 4 0x2;
                    b \<leftarrow> wr8 b 6 4;
                    b \<leftarrow> wr16 b 7 (ucast (dp_bool dp));
                    b \<leftarrow> wr16 b 9 (ucast (bv_speed st));
                    Some (b, st\<lparr>bv_switch := ucast (dp_bool dp)\<rparr>) }
                  else if dpid dp = 28 \<or> dpid dp = 101 then do {
                    b \<leftarrow> wr16 b 2 0x100;
                    b \<leftarrow> wr16 b 4 0x2;
                    b \<leftarrow> wr8 b 6 4;
                    b \<leftarrow> wr16 b 7 1;
                    b \<leftarrow> wr16 b 9 (ucast (dp_enum dp));
                    Some (b, st\<lparr>bv_switch := 1, bv_speed := dp_enum dp\<rparr>) }
                  else Some (b, st));
               m \<leftarrow> crc_msg b 11;
               Some (m, st) }))"

definition Broan_parse ::
  "(nat \<Rightarrow> bool) \<Rightarrow> broan_cache \<Rightarrow> u8 \<Rightarrow> vent_node cptr \<Rightarrow> bytes cptr \<Rightarrow> nat
   \<Rightarrow> (MbusObj list cptr \<times> broan_cache) exec" where
  "Broan_parse al st devId node buf len =
     vent_guard buf len 7 node (NULL, st)
      (on_match buf len 7 [(devkey devId 0x3, 7), (devkey devId 0x10, 7)] (NULL, st)
       (\<lambda>pBuf pos cmd.
         case NewMbusObjs al 3 of NULL \<Rightarrow> Some (NULL, st)
         | Ptr objs \<Rightarrow>
           if cmd = 0x3 then do {
             sw \<leftarrow> rd8 pBuf (pos + 4);
             (let o0 = (obj VENT_SWITCH (ucast sw))\<lparr>mo_sndValue := ucast sw\<rparr>;
                  st = st\<lparr>bv_switch := ucast sw\<rparr> in
              if sw > 0 then do {
                sp \<leftarrow> rd8 pBuf (pos + 6);
                Some (Ptr [o0, (obj VENT_SPEED (ucast sp))\<lparr>mo_sndValue := ucast sp\<rparr>],
                  st\<lparr>bv_speed := ucast sp\<rparr>) }
              else Some (Ptr [o0, zero_obj], st)) }
           else if cmd = 0x10 then do {
             p2 \<leftarrow> rd8 pBuf (pos + 2);
             p3 \<leftarrow> rd8 pBuf (pos + 3);
             p5 \<leftarrow> rd8 pBuf (pos + 5);
             if p2 = 0x1 \<and> p3 = 0x0 \<and> p5 = 2 then
               Some (Ptr [obj VENT_SWITCH (bv_switch st), obj VENT_SPEED (bv_speed st)], st)
             else Some (Ptr [zero_obj, zero_obj], st) }
           else Some (Ptr [zero_obj, zero_obj], st)))"

subsection \<open>D-Touch\<close>

definition DTouch_build :: "(nat \<Rightarrow> bool) \<Rightarrow> u8 \<Rightarrow> vent_node cptr \<Rightarrow> ty_obj_dp cptr \<Rightarrow> built" where
  "DTouch_build al devId node pObj =
     (if \<not> vent_ready node then Some NULL
      else case new_msg al 8 of NULL \<Rightarrow> Some NULL
      | Ptr b \<Rightarrow> do {
          b \<leftarrow> wr8 b 0 devId;
          b \<leftarrow> (case pObj of
                 NULL \<Rightarrow> do {
                   b \<leftarrow> wr8 b 1 3;
                   b \<leftarrow> wr8 b 3 1;
                   wr8 b 5 0x1f }
               | Ptr dp \<Rightarrow> do {
                   b \<leftarrow> wr8 b 1 6;
                   if dpid dp = 39 then do {
                     b \<leftarrow> wr8 b 3 1;
                     (if dp_bool dp \<noteq> 0 then wr8 b 5 1 else wr8 b 5 0) }
                   else if dpid dp = 28 then do {
                     b \<leftarrow> wr8 b 3 3;
                     (if dp_enum dp = 0 then wr8 b 5 1
                      else if dp_enum dp = 1 then wr8 b 5 3 else Some b) }
                   else if dpid dp = 101 then do {
                     b \<leftarrow> wr8 b 3 2;
                     (if dp_enum dp = 0 then wr8 b 5 1
                      else if dp_enum dp = 1 then wr8 b 5 3 else Some b) }
                   else Some b });
          crc_msg b 6 })"

definition DTouch_parse :: "(nat \<Rightarrow> bool) \<Rightarrow> u8 \<Rightarrow> vent_node cptr \<Rightarrow> bytes cptr \<Rightarrow> nat \<Rightarrow> parsed" where
  "DTouch_parse al devId node buf len =
     vent_guard buf len 8 node NULL
      (on_match buf len 8 [(devkey devId 3, 14), (devkey devId 6, 14)] NULL
       (\<lambda>pBuf pos cmd.
         if cmd \<noteq> 3 then Some NULL
         else with_objs al 4 (do {
           p4 \<leftarrow> rd8 pBuf (pos + 4);
           p6 \<leftarrow> rd8 pBuf (pos + 6);
           p8 \<leftarrow> rd8 pBuf (pos + 8);
           ret_objs [mk_obj 39 (if p4 = 1 then 1 else 0),
             mk_obj 28 (if p6 = 1 then 0 else if p6 = 3 then 1 else 0),
             mk_obj 101 (if p8 = 3 then 1 else 0)] })))"

subsection \<open>ERDH and ERDH45\<close>

text \<open>\<open>Mbus_Vent_Broan_ERDH.c\<close> and \<open>Mbus_Vent_Broan_ERDH45_500C.c\<close> build the same frames.\<close>

definition ERDH_build :: "(nat \<Rightarrow> bool) \<Rightarrow> u8 \<Rightarrow> vent_node cptr \<Rightarrow> ty_obj_dp cptr \<Rightarrow> built" where
  "ERDH_build al devId node pObj =
     (if \<not> vent_ready node then Some NULL
      else case pObj of
        NULL \<Rightarrow>
          (case new_msg al 8 of NULL \<Rightarrow> Some NULL
           | Ptr b \<Rightarrow> do {
               b \<leftarrow> wr8 b 0 devId;
               b \<leftarrow> wr8 b 1 0x10;
               crc_msg b 6 })
      | Ptr dp \<Rightarrow>
          (case new_msg al 12 of NULL \<Rightarrow> Some NULL
           | Ptr b \<Rightarrow> do {
               b \<leftarrow> wr8 b 0 devId;
               b \<leftarrow> wr8 b 1 0x11;
               b \<leftarrow> wr16 b 4 0x4;
               b \<leftarrow>
                 (if dpid dp = 8 then do {
                    b \<leftarrow> wr8 b 6 2;
                    wr8 b 8 (word_of_int (dp_value dp)) }
                  else if dpid dp = 22 then do {
                    b \<leftarrow> wr8 b 6 4;
                    wr8 b 7 (if dp_bool dp \<noteq> 0 then 4 else 0) }
                  else if dpid dp = 28 then do {
                    b \<leftarrow> wr8 b 6 8;
                    wr8 b 7 (if dp_value dp \<noteq> 0 then 8 else 0) }
                  else if dpid dp = 39 then do {
                    b \<leftarrow> wr8 b 6 5;
                    wr8 b 7 (if dp_bool dp \<noteq> 0 then 5 else 0) }
                  else if dpid dp = 101 then do {
                    b \<leftarrow> wr8 b 6 0x10;
                    (if dp_enum dp = 0 then wr8 b 7 0
                     else if dp_enum dp = 1 then wr8 b 7 0x10 else Some b) }
                  else Some b);
               crc_msg b 10 }))"

definition ERDH45_build :: "(nat \<Rightarrow> bool) \<Rightarrow> u8 \<Rightarrow> vent_node cptr \<Rightarrow> ty_obj_dp cptr \<Rightarrow> built" where
  "ERDH45_build = ERDH_build"

record erdh_cache =
  er_switch :: u32
  er_speed :: u32
  er_mode :: u32

definition ERDH_parse ::
  "(nat \<Rightarrow> bool) \<Rightarrow> erdh_cache \<Rightarrow> u8 \<Rightarrow> vent_node cptr \<Rightarrow> bytes cptr \<Rightarrow> nat
   \<Rightarrow> (MbusObj list cptr \<times> erdh_cache) exec" where
  "ERDH_parse al st devId node buf len =
     vent_guard buf len 8 node (NULL, st)
      (on_match buf len 8 [(devkey devId 0x10, 14), (devkey devId 0x11, 7)] (NULL, st)
       (\<lambda>pBuf pos cmd.
         case NewMbusObjs al 4 of NULL \<Rightarrow> Some (NULL, st)
         | Ptr objs \<Rightarrow>
           if cmd \<noteq> 0x10 then do {
             p6 \<leftarrow> rd8 pBuf (pos + 6);
             (let sw = ucast (p6 AND 0x01);
                  sp = ucast (drop_bit 2 (p6 AND 0x04));
                  md = ucast (drop_bit 3 (p6 AND 0x08)) in
              Some (Ptr [obj VENT_SWITCH sw, obj VENT_SPEED sp, obj VENT_MODE md],
                \<lparr>er_switch = sw, er_speed = sp, er_mode = md\<rparr>)) }
           else if cmd \<noteq> 0x11 then
             Some (Ptr [obj VENT_SWITCH (er_switch st), obj VENT_SPEED (er_speed st),
               obj VENT_MODE (er_mode st)], st)
           else Some (Ptr [zero_obj, zero_obj, zero_obj], st)))"

definition ERDH45_parse :: "(nat \<Rightarrow> bool) \<Rightarrow> u8 \<Rightarrow> vent_node cptr \<Rightarrow> bytes cptr \<Rightarrow> nat \<Rightarrow> parsed" where
  "ERDH45_parse al devId node buf len =
     vent_guard buf len 15 node NULL
      (on_match buf len 15 [(devkey devId 0x10, 14), (devkey devId 0x11, 14)] NULL
       (\<lambda>pBuf pos cmd.
         if cmd \<noteq> 0x10 then Some NULL
         else with_objs al 7 (do {
           p6 \<leftarrow> rd8 pBuf (pos + 6);
           p8 \<leftarrow> rd8 pBuf (pos + 8);
           p9 \<leftarrow> rd8 pBuf (pos + 9);
           ret_objs [obj VENT_SWITCH (ucast (p6 AND 0x01)),
             obj VENT_SPEED (ucast (drop_bit 2 (p6 AND 0x04))),
             obj VENT_HUMI (ucast p8), obj VENT_ENV_HUMI (ucast p9),
             obj VENT_VALVE (ucast (drop_bit 1 (p6 AND 0x02))),
             obj VENT_MODE (ucast (drop_bit 3 (p6 AND 0x08)))] })))"

subsection \<open>Noah\<close>

definition Noah_build :: "(nat \<Rightarrow> bool) \<Rightarrow> u8 \<Rightarrow> vent_node cptr \<Rightarrow> ty_obj_dp cptr \<Rightarrow> built" where
  "Noah_build al devId node pObj =
     (if \<not> vent_ready node then Some NULL
      else case new_msg al 11 of NULL \<Rightarrow> Some NULL
      | Ptr b \<Rightarrow> do {
          b \<leftarrow> wr8 b 0 0xAA;
          b \<leftarrow> wr8 b 1 0x5A;
          b \<leftarrow> wr8 b 2 devId;
          b \<leftarrow> (case pObj of
                 NULL \<Rightarrow> Some b
               | Ptr dp \<Rightarrow> do {
                   b \<leftarrow> wr8 b 3 1;
                   if dpid dp = 39 then
                     (if dp_bool dp \<noteq> 0 then do { b \<leftarrow> wr8 b 4 1; wr8 b 5 1 } else Some b)
                   else if dpid dp = 28 \<or> dpid dp = 101 then do {
                     b \<leftarrow> wr8 b 4 1;
                     (if dp_enum dp = 1 then wr8 b 5 1
                      else if dp_enum dp = 2 then wr8 b 5 3
                      else if dp_enum dp = 3 then wr8 b 5 5 else Some b) }
                   else Some b });
          c \<leftarrow> cs b 10;
          b \<leftarrow> wr8 b 10 c;
          ret_msg b })"

definition Noah_parse :: "(nat \<Rightarrow> bool) \<Rightarrow> vent_node cptr \<Rightarrow> bytes cptr \<Rightarrow> nat \<Rightarrow> parsed" where
  "Noah_parse al node buf len =
     vent_guard buf len 23 node NULL
      (on_match buf len 23 [(0xAAA5, 22)] NULL
       (\<lambda>pBuf pos c. with_objs al 3 (do {
          p6 \<leftarrow> rd8 pBuf (pos + 6);
          ret_objs [obj VENT_SWITCH (if p6 = 0 then 0 else 1),
            obj VENT_SPEED (if p6 \<le> 2 then 1 else if p6 = 3 then 2 else 3)] })))"

subsection \<open>Daikin ventilation\<close>

type_synonym dvent_cache = "u32 list list"

abbreviation (input) V_SWITCH :: nat where "V_SWITCH \<equiv> 0"
abbreviation (input) V_SPEED :: nat where "V_SPEED \<equiv> 1"
abbreviation (input) V_DIR :: nat where "V_DIR \<equiv> 2"

definition DVent_cache0 :: dvent_cache where
  "DVent_cache0 = replicate 16 (replicate 3 0)"

definition DVent_build ::
  "(nat \<Rightarrow> bool) \<Rightarrow> dvent_cache \<Rightarrow> u8 \<Rightarrow> u16 \<Rightarrow> u16 \<Rightarrow> ty_obj_dp cptr \<Rightarrow> built" where
  "DVent_build al st devId regAddr groupAddr pObj =
     (case new_msg al 8 of NULL \<Rightarrow> Some NULL
      | Ptr b \<Rightarrow> do {
          b \<leftarrow> wr8 b 0 devId;
          b \<leftarrow> (case pObj of
                 NULL \<Rightarrow> do {
                   b \<leftarrow> wr8 b 1 0x4;
                   b \<leftarrow> wr16 b 2 (0x07D0 + 6 * regAddr);
                   b \<leftarrow> wr8 b 4 0x0;
                   wr8 b 5 0x1 }
               | Ptr dp \<Rightarrow> do {
                   b \<leftarrow> wr8 b 1 0x6;
                   if dpid dp = 39 then do {
                     b \<leftarrow> wr16 b 2 (0x07D0 + 3 * regAddr + 0);
                     sp \<leftarrow> rd_tab st (unat groupAddr) V_SPEED;
                     dir \<leftarrow> rd_tab st (unat groupAddr) V_DIR;
                     b \<leftarrow> wr8 b 4 (ucast (push_bit 4 sp) + ucast dir);
                     wr8 b 5 (dp_bool dp) }
                   else if dpid dp = 28 then do {
                     b \<leftarrow> wr16 b 2 (0x07D0 + 3 * regAddr + 0);
                     dir \<leftarrow> rd_tab st (unat groupAddr) V_DIR;
                     b \<leftarrow> wr8 b 4 ((if dp_enum dp = 0 then 0x10
                                   else if dp_enum dp = 1 then 0x50 else 0) + ucast dir);
                     sw \<leftarrow> rd_tab st (unat groupAddr) V_SWITCH;
                     wr8 b 5 (ucast sw) }
                   else Some b });
          crc_msg b 6 })"

definition DVent_parse ::
  "(nat \<Rightarrow> bool) \<Rightarrow> dvent_cache \<Rightarrow> u8 \<Rightarrow> u16 \<Rightarrow> bytes cptr \<Rightarrow> nat
   \<Rightarrow> (MbusObj list cptr \<times> dvent_cache) exec" where
  "DVent_parse al st devId regAddr buf len =
     on_match buf len 7 [(devkey devId 0x4, 7), (devkey devId 0x6, 7)] (NULL, st)
       (\<lambda>pBuf pos cmd.
         if cmd = 0x4 then
           (case NewMbusObjs al 3 of NULL \<Rightarrow> Some (NULL, st)
            | Ptr objs \<Rightarrow> do {
                p4 \<leftarrow> rd8 pBuf (pos + 4);
                st \<leftarrow> wr_tab st (unat regAddr) V_SWITCH (ucast (p4 AND 0x1));
                p3 \<leftarrow> rd8 pBuf (pos + 3);
                st \<leftarrow> wr_tab st (unat regAddr) V_DIR (ucast (p3 AND 0xF));
                (let low = drop_bit 4 p3 AND 0x7 \<le> 3 in do {
                  st \<leftarrow> wr_tab st (unat regAddr) V_SPEED (if low then 1 else 5);
                  Some (Ptr [obj VENT_SWITCH (ucast (p4 AND 0x1)), obj VENT_SPEED (if low then 0 else 1),
                    obj VENT_WIND_DIR 0], st) }) })
         else if cmd = 0x6 then do {
           r \<leftarrow> rd16 pBuf (pos + 2);
           (let reg = unat (r - 0x07D0); air = reg div 3; idx = reg mod 3 in
            case NewMbusObjs al 2 of NULL \<Rightarrow> Some (NULL, st)
            | Ptr objs \<Rightarrow>
              if idx = 0 then do {
                p5 \<leftarrow> rd8 pBuf (pos + 5);
                st \<leftarrow> wr_tab st air V_SWITCH (ucast (p5 AND 0x1));
                p4 \<leftarrow> rd8 pBuf (pos + 4);
                (let low = drop_bit 4 p4 AND 0x7 \<le> 3 in do {
                  st \<leftarrow> wr_tab st air V_SPEED (if low then 1 else 5);
                  Some (Ptr [obj VENT_SWITCH (ucast (p5 AND 0x1)), obj VENT_SPEED (if low then 0 else 1)], st) }) }
              else Some (Ptr [zero_obj, zero_obj], st)) }
         else Some (NULL, st))"


subsection \<open>The builders meet the CRC contract\<close>

definition dpurat_builder :: "(nat \<Rightarrow> bool) \<Rightarrow> request \<Rightarrow> built" where
  "dpurat_builder al x = (case x of (devId, regAddr, groupAddr, pObj) \<Rightarrow> Dpurat_build al devId pObj)"

definition tuoli_builder :: "(nat \<Rightarrow> bool) \<Rightarrow> request \<Rightarrow> built" where
  "tuoli_builder al x = (case x of (devId, regAddr, groupAddr, pObj) \<Rightarrow> TuoLi_build al devId pObj)"

definition broan_builder :: "broan_cache \<Rightarrow> vent_node cptr \<Rightarrow> (nat \<Rightarrow> bool) \<Rightarrow> request \<Rightarrow> built" where
  "broan_builder st node al x = (case x of (devId, regAddr, groupAddr, pObj) \<Rightarrow>
     map_option fst (Broan_build al st devId node pObj))"

definition dtouch_builder :: "vent_node cptr \<Rightarrow> (nat \<Rightarrow> bool) \<Rightarrow> request \<Rightarrow> built" where
  "dtouch_builder node al x = (case x of (devId, regAddr, groupAddr, pObj) \<Rightarrow> DTouch_build al devId node pObj)"

definition erdh_builder :: "vent_node cptr \<Rightarrow> (nat \<Rightarrow> bool) \<Rightarrow> request \<Rightarrow> built" where
  "erdh_builder node al x = (case x of (devId, regAddr, groupAddr, pObj) \<Rightarrow> ERDH_build al devId node pObj)"

definition dvent_builder :: "dvent_cache \<Rightarrow> (nat \<Rightarrow> bool) \<Rightarrow> request \<Rightarrow> built" where
  "dvent_builder st al x = (case x of (devId, regAddr, groupAddr, pObj) \<Rightarrow>
     DVent_build al st devId regAddr groupAddr pObj)"

interpretation dpurat: total_crc_builder dpurat_builder
proof
  fix al x
  show "post (dpurat_builder al x) (\<lambda>r. case r of NULL \<Rightarrow> True | Ptr m \<Rightarrow> framed_msg m)"
    and "\<exists>r. dpurat_builder al x = Some r"
    by (cases x; cases "snd (snd (snd x))";
      simp add: dpurat_builder_def Dpurat_build_def new_msg_def framed_msg_def frame_simps crc_msg_Some post_Some)+
qed

interpretation tuoli: total_crc_builder tuoli_builder
proof
  fix al x
  show "post (tuoli_builder al x) (\<lambda>r. case r of NULL \<Rightarrow> True | Ptr m \<Rightarrow> framed_msg m)"
    and "\<exists>r. tuoli_builder al x = Some r"
    by (cases x; cases "snd (snd (snd x))";
      simp add: tuoli_builder_def TuoLi_build_def new_msg_def framed_msg_def frame_simps crc_msg_Some post_Some)+
qed

interpretation broan: total_crc_builder "broan_builder st node"
proof
  fix al x
  show "post (broan_builder st node al x) (\<lambda>r. case r of NULL \<Rightarrow> True | Ptr m \<Rightarrow> framed_msg m)"
    and "\<exists>r. broan_builder st node al x = Some r"
    by (cases x; cases "snd (snd (snd x))";
      simp add: broan_builder_def Broan_build_def new_msg_def framed_msg_def frame_simps crc_msg_Some post_Some)+
qed

interpretation dtouch: total_crc_builder "dtouch_builder node"
proof
  fix al x
  show "post (dtouch_builder node al x) (\<lambda>r. case r of NULL \<Rightarrow> True | Ptr m \<Rightarrow> framed_msg m)"
    and "\<exists>r. dtouch_builder node al x = Some r"
    by (cases x; cases "snd (snd (snd x))";
      simp add: dtouch_builder_def DTouch_build_def new_msg_def framed_msg_def frame_simps crc_msg_Some post_Some)+
qed

interpretation erdh: total_crc_builder "erdh_builder node"
proof
  fix al x
  show "post (erdh_builder node al x) (\<lambda>r. case r of NULL \<Rightarrow> True | Ptr m \<Rightarrow> framed_msg m)"
    and "\<exists>r. erdh_builder node al x = Some r"
    by (cases x; cases "snd (snd (snd x))";
      simp add: erdh_builder_def ERDH_build_def new_msg_def framed_msg_def frame_simps crc_msg_Some post_Some)+
qed

interpretation dvent: crc_builder "dvent_builder st"
proof
  fix al x
  show "post (dvent_builder st al x) (\<lambda>r. case r of NULL \<Rightarrow> True | Ptr m \<Rightarrow> framed_msg m)"
    by (cases x; cases "snd (snd (snd x))")
      (auto simp: dvent_builder_def DVent_build_def new_msg_def framed_msg_def post_simps)
qed

subsection \<open>Broan: one cache for all units\<close>

lemma u8_256: "(256 :: u8) = 0"
  by simp

lemma Broan_parse_ack:
  assumes "\<forall>k. al k" and "vent_ready node"
  shows "Broan_parse al st d node (Ptr (crc_frame [d, 0x10, 1, 0, 0, 2])) 8
    = Some (Ptr [obj VENT_SWITCH (bv_switch st), obj VENT_SPEED (bv_speed st)], st)"
proof -
  let ?f = "crc_frame [d, 0x10, 1, 0, 0, 2]"
  have front: "rd16 ?f i \<noteq> Some k"
    if "(k, m) \<in> set [(devkey d 0x3, 7), (devkey d 0x10, 7)]" "0 < i" "i + m \<le> 8" for k m i
  proof -
    from that have "i = 1" by auto
    with that show ?thesis by (auto simp: rd8_crc_frame frame_simps)
  qed
  obtain v where node: "node = Ptr v" "vn_pSwitch v" "vn_pSpeed v"
    using assms(2) by (auto simp: vent_ready_def split: cptr.splits)
  show ?thesis
    unfolding Broan_parse_def vent_guard_def node
    by (subst on_match_front [where n = 8, OF _ _ _ _ _ front])
      (use assms(1) node in \<open>auto simp: rd8_crc_frame frame_simps\<close>)
qed

text \<open>
  When a Broan unit acknowledges a write, the gateway reports the values of the
  request from a cache: a speed request turns the unit on with that speed, a switch request
  keeps the last speed. The cache is shared by all units: after a speed request to one
  unit, a switch request to any other unit sends that unit the speed of the first.
\<close>

lemma Broan_write_ack:
  assumes "\<forall>k. al k" and "vent_ready node" and "dpid sp = 28 \<or> dpid sp = 101" and "dpid sw = 39"
  shows "\<exists>m1 m2 st1 st2. Broan_build al st d1 node (Ptr sp) = Some (Ptr m1, st1)
    \<and> Broan_parse al st1 d1 node (Ptr (crc_frame [d1, 0x10, 1, 0, 0, 2])) 8
        = Some (Ptr [obj VENT_SWITCH 1, obj VENT_SPEED (dp_enum sp)], st1)
    \<and> Broan_build al st1 d2 node (Ptr sw) = Some (Ptr m2, st2)
    \<and> sent m2 = crc_frame [d2, 0x10, 1, 0, 0, 2, 4, 0, dp_bool sw,
        ucast (drop_bit 8 (ucast (dp_enum sp) :: u16)), ucast (ucast (dp_enum sp) :: u16)]
    \<and> Broan_parse al st2 d2 node (Ptr (crc_frame [d2, 0x10, 1, 0, 0, 2])) 8
        = Some (Ptr [obj VENT_SWITCH (ucast (dp_bool sw)), obj VENT_SPEED (dp_enum sp)], st2)"
proof -
  have b1: "Broan_build al st d1 node (Ptr sp) = Some (Ptr \<lparr>msg_pBuf = crc_frame
      [d1, 0x10, 1, 0, 0, 2, 4, 0, 1, ucast (drop_bit 8 (ucast (dp_enum sp) :: u16)),
       ucast (ucast (dp_enum sp) :: u16)], msg_len = 13\<rparr>, st\<lparr>bv_switch := 1, bv_speed := dp_enum sp\<rparr>)"
    using assms(1-3) by (auto simp: Broan_build_def frame_simps crc_msg_Some u8_256)
  have b2: "Broan_build al st' d2 node (Ptr sw) = Some (Ptr \<lparr>msg_pBuf = crc_frame
      [d2, 0x10, 1, 0, 0, 2, 4, 0, dp_bool sw, ucast (drop_bit 8 (ucast (bv_speed st') :: u16)),
       ucast (ucast (bv_speed st') :: u16)], msg_len = 13\<rparr>, st'\<lparr>bv_switch := ucast (dp_bool sw)\<rparr>)" for st'
    using assms(1,2,4) by (auto simp: Broan_build_def frame_simps crc_msg_Some u8_256)
  show ?thesis
    by (simp add: b1 b2 Broan_parse_ack [OF assms(1,2)])
qed

lemma Broan_write_ack_example:
  "\<exists>m1 m2 st1 st2.
     Broan_build (\<lambda>_. True) \<lparr>bv_switch = 0, bv_speed = 0\<rparr> 1 (Ptr \<lparr>vn_pSwitch = True, vn_pSpeed = True\<rparr>)
       (Ptr \<lparr>dpid = 28, dp_type = 3, dp_raw = 3\<rparr>) = Some (Ptr m1, st1)
   \<and> Broan_build (\<lambda>_. True) st1 2 (Ptr \<lparr>vn_pSwitch = True, vn_pSpeed = True\<rparr>)
       (Ptr \<lparr>dpid = 39, dp_type = 0, dp_raw = 1\<rparr>) = Some (Ptr m2, st2)
   \<and> sent m2 = crc_frame [2, 0x10, 1, 0, 0, 2, 4, 0, 1, 0, 3]"
  using Broan_write_ack [where al = "\<lambda>_. True" and node = "Ptr \<lparr>vn_pSwitch = True, vn_pSpeed = True\<rparr>"
      and sp = "\<lparr>dpid = 28, dp_type = 3, dp_raw = 3\<rparr>" and sw = "\<lparr>dpid = 39, dp_type = 0, dp_raw = 1\<rparr>"
      and st = "\<lparr>bv_switch = 0, bv_speed = 0\<rparr>" and ?d1.0 = 1 and ?d2.0 = 2]
  by (simp add: vent_ready_def dp_enum_def dp_bool_def) metis

subsection \<open>ERDH: the branches of the parser\<close>

text \<open>
  The ERDH parser has its two branches exchanged: a status reply is answered
  from the cache whatever the reply says, and leaves the cache as it is; a write
  acknowledgement of eight bytes is decoded from its seventh byte, which is the first
  byte of its CRC, and overwrites the cache.
\<close>

lemma ERDH_branches_exchanged:
  assumes "\<forall>k. al k" and "vent_ready node" and "length rest = 12" and "len = 14"
  shows "ERDH_parse al st devId node (Ptr ([devId, 0x10] @ rest)) len
      = Some (Ptr [obj VENT_SWITCH (er_switch st), obj VENT_SPEED (er_speed st), obj VENT_MODE (er_mode st)], st)
    \<and> (\<exists>c sw. ERDH_parse al st devId node (Ptr (crc_frame [devId, 0x11, 0, 0, 0, 0])) 8 = Some (Ptr
        [obj VENT_SWITCH sw, obj VENT_SPEED (er_speed c), obj VENT_MODE (er_mode c)], c)
        \<and> er_switch c = sw
        \<and> sw = ucast (crc_bytes [devId, 0x11, 0, 0, 0, 0] ! 0 AND 0x01))"
proof -
  obtain v where node: "node = Ptr v" "vn_pSwitch v" "vn_pSpeed v"
    using assms(2) by (auto simp: vent_ready_def split: cptr.splits)
  have status: "match_keys ([devId, 0x10] @ rest) 14 [(devkey devId 0x10, 14), (devkey devId 0x11, 7)] = Some (Ptr 0)"
    using assms(3) by (simp add: match_keys.simps match_key_exact frame_simps)
  let ?f = "crc_frame [devId, 0x11, 0, 0, 0, 0]"
  have "match_key ?f (devkey devId 0x10) 8 14 = Some NULL"
    by (rule match_key_absent) auto
  moreover have "match_key ?f (devkey devId 0x11) 8 7 = Some (Ptr 0)"
    by (rule match_key_first) (simp_all add: rd8_crc_frame frame_simps)
  ultimately have ack: "match_keys ?f 8 [(devkey devId 0x10, 14), (devkey devId 0x11, 7)] = Some (Ptr 0)"
    by (simp add: match_keys.simps)
  have f6: "rd8 ?f 6 = Some (crc_bytes [devId, 0x11, 0, 0, 0, 0] ! 0)"
    by (simp add: rd8_Some crc_frame_def crc_bytes_def)
  show ?thesis
    using assms(1,4) node status ack f6
    by (simp add: ERDH_parse_def vent_guard_def on_match_def rd8_crc_frame frame_simps Let_def)
qed

lemma ERDH_branches_exchanged_example:
  "ERDH_parse (\<lambda>_. True) \<lparr>er_switch = 0, er_speed = 0, er_mode = 0\<rparr> 1
     (Ptr \<lparr>vn_pSwitch = True, vn_pSpeed = True\<rparr>)
     (Ptr ([1, 0x10] @ [0, 0, 0, 9, 0x0D, 2, 0x3f, 0x36, 0x13, 0, 0, 0])) 14
   = Some (Ptr [obj VENT_SWITCH 0, obj VENT_SPEED 0, obj VENT_MODE 0],
       \<lparr>er_switch = 0, er_speed = 0, er_mode = 0\<rparr>)"
  using ERDH_branches_exchanged [where al = "\<lambda>_. True" and node = "Ptr \<lparr>vn_pSwitch = True, vn_pSpeed = True\<rparr>"
      and rest = "[0, 0, 0, 9, 0x0D, 2, 0x3f, 0x36, 0x13, 0, 0, 0]" and len = 14
      and st = "\<lparr>er_switch = 0, er_speed = 0, er_mode = 0\<rparr>" and devId = 1]
  by (simp add: vent_ready_def)

subsection \<open>BROAN frames\<close>

lemma BROAN_checkSum_Some:
  "7 + 2 * k \<le> length p \<Longrightarrow> BROAN_checkSum p k = Some (sum_list (take (6 + 2 * k) (drop 1 p)))"
  by (simp add: BROAN_checkSum_def sum_loop_Some)

text \<open>
  A BROAN request has nine bytes between the markers \<open>AA\<close> and \<open>F5\<close>, with the sum
  of bytes 1 to 6 before the end marker. Of every reply the parser accepts, the
  room temperature is reported as the negative of the seven low bits of byte 6, whatever
  its sign bit says.
\<close>

lemma BROAN_frames:
  "(BROAN_build al devId pObj = Some NULL
      \<or> (\<exists>b3 b4 b5 b6. BROAN_build al devId pObj
          = ret_msg [0xAA, devId, 2, b3, b4, b5, b6, devId + 2 + b3 + b4 + b5 + b6, 0xF5]))
   \<and> (BROAN_parse al devId (Ptr p) len = ret_objs os \<longrightarrow>
      length os = 3 \<and> os ! 2 = obj VENT_ENV_TEMP (- ucast (p ! 6 AND 0x7F)))"
proof (intro conjI impI)
  show "BROAN_build al devId pObj = Some NULL
      \<or> (\<exists>b3 b4 b5 b6. BROAN_build al devId pObj
          = ret_msg [0xAA, devId, 2, b3, b4, b5, b6, devId + 2 + b3 + b4 + b5 + b6, 0xF5])"
    by (cases pObj)
      (simp_all add: BROAN_build_def new_msg_def frame_simps BROAN_checkSum_Some ret_msg_def add.assoc)
  assume "BROAN_parse al devId (Ptr p) len = ret_objs os"
  moreover have "NOT (x - 1) = - x" for x :: u32
    by (simp add: not_eq_complement)
  ultimately show "length os = 3" and "os ! 2 = obj VENT_ENV_TEMP (- ucast (p ! 6 AND 0x7F))"
    by (auto simp: BROAN_parse_def with_objs_def bind_eq_Some_conv rd8_eq_Some_iff
        split: if_splits cptr.splits)
qed

lemma BROAN_frames_example:
  "\<exists>os. BROAN_parse (\<lambda>_. True) 1 (Ptr [0xAA, 1, 2, 1, 3, 0, 25, 0, 0, 32, 0xF5]) 11 = ret_objs os
     \<and> os ! 2 = obj VENT_ENV_TEMP (- 25)"
proof -
  have "\<exists>os. BROAN_parse (\<lambda>_. True) 1 (Ptr [0xAA, 1, 2, 1, 3, 0, 25, 0, 0, 32, 0xF5]) 11 = ret_objs os"
    by (simp add: BROAN_parse_def BROAN_checkPackage_def BROAN_checkSum_Some frame_simps)
  then obtain os where
    os: "BROAN_parse (\<lambda>_. True) 1 (Ptr [0xAA, 1, 2, 1, 3, 0, 25, 0, 0, 32, 0xF5]) 11 = ret_objs os"
    by blast
  with BROAN_frames [of "\<lambda>_. True" 1 NULL "[0xAA, 1, 2, 1, 3, 0, 25, 0, 0, 32, 0xF5]" 11 os]
  show ?thesis by auto
qed

subsection \<open>Round trips\<close>

lemma Dpurat_parse_ack:
  assumes "\<forall>k. al k" and "r = 1 \<or> r = 2"
  shows "Dpurat_parse al d (Ptr (crc_frame [d, 6, 0, r, b4, b5])) 8
    = ret_objs [if r = 1 then obj VENT_SWITCH (ucast b5) else obj VENT_SPEED (ucast b5)]"
proof -
  let ?f = "crc_frame [d, 6, 0, r, b4, b5]"
  have front: "rd16 ?f i \<noteq> Some k"
    if "(k, m) \<in> set [(devkey d 3, 7), (devkey d 6, 7)]" "0 < i" "i + m \<le> 8" for k m i
  proof -
    from that have "i = 1" by auto
    with that show ?thesis by (auto simp: rd8_crc_frame frame_simps)
  qed
  show ?thesis
    unfolding Dpurat_parse_def
    by (subst on_match_front [where n = 8, OF _ _ _ _ _ front])
      (use assms in \<open>auto simp: rd8_crc_frame frame_simps\<close>)
qed

lemma dvent_reg:
  assumes "unat (r :: u16) < 16"
  shows "unat (3 * r) = 3 * unat r"
  using assms by (simp add: unat_word_ariths)

lemma dvent_reg_high:
  assumes "unat (r :: u16) < 16"
  shows "ucast (drop_bit 8 (0x07D0 + 3 * r)) = (7 :: u8)"
proof -
  have "unat (0x07D0 + 3 * r) = 2000 + 3 * unat r"
    using assms by (simp add: unat_word_ariths)
  then have "unat (drop_bit 8 (0x07D0 + 3 * r)) = (2000 + 3 * unat r) div 256"
    using assms by (simp only: unsigned_drop_bit_eq) (simp add: drop_bit_eq_div take_bit_nat_eq_self)
  also have "\<dots> = 7" using assms by linarith
  finally have "drop_bit 8 (0x07D0 + 3 * r) = 7"
    by (simp add: word_unat_eq_iff)
  then show ?thesis by simp
qed

lemma DVent_parse_ack:
  fixes r :: u16
  assumes "is_tab 16 3 st" and "\<forall>k. al k" and "unat r < 16"
  shows "\<exists>st'. DVent_parse al st d g (Ptr (crc_frame
      [d, 6, ucast (drop_bit 8 (0x07D0 + 3 * r)), ucast (0x07D0 + 3 * r), x, y])) 8
    = Some (Ptr [obj VENT_SWITCH (ucast (y AND 1)), obj VENT_SPEED (if drop_bit 4 x AND 7 \<le> 3 then 0 else 1)], st')
    \<and> is_tab 16 3 st'"
proof -
  let ?w = "0x07D0 + 3 * r"
  let ?f = "crc_frame [d, 6, ucast (drop_bit 8 ?w), ucast ?w, x, y]"
  have front: "rd16 ?f i \<noteq> Some k"
    if "(k, m) \<in> set [(devkey d 4, 7), (devkey d 6, 7)]" "0 < i" "i + m \<le> 8" for k m i
  proof -
    from that have "i = 1" by auto
    with that show ?thesis by (auto simp: rd8_crc_frame frame_simps dvent_reg_high [OF assms(3)])
  qed
  have reg: "rd16 ?f (Suc (Suc 0)) = Some ?w" and key: "rd16 ?f 0 = Some (devkey d 6)"
    by (simp_all add: rd8_crc_frame frame_simps)
  show ?thesis
    unfolding DVent_parse_def
    by (subst on_match_front [where n = 8, OF _ _ _ _ _ front],
        use assms reg key in \<open>simp_all add: rd8_crc_frame dvent_reg Let_def
          wr_tab_ok [where r = 16 and c = 3] is_tab_update rd8_Cons devkey_eq_iff\<close>)
      (auto simp: is_tab_def list_all_length nth_list_update)
qed

lemma speed_nibble:
  fixes d :: u8
  assumes "unat d < 16"
  shows "drop_bit 4 (0x10 + d) = 1" "drop_bit 4 (0x50 + d) = 5"
proof -
  have "unat (0x10 + d) = 16 + unat d" "unat (0x50 + d) = 80 + unat d"
    using assms by (simp_all add: unat_word_ariths)
  then have "unat (drop_bit 4 (0x10 + d)) = (16 + unat d) div 16"
    "unat (drop_bit 4 (0x50 + d)) = (80 + unat d) div 16"
    using assms
    by (simp_all only: unsigned_drop_bit_eq) (simp_all add: drop_bit_eq_div take_bit_nat_eq_self)
  then have "unat (drop_bit 4 (0x10 + d)) = 1" "unat (drop_bit 4 (0x50 + d)) = 5"
    using assms by linarith+
  then show "drop_bit 4 (0x10 + d) = 1" "drop_bit 4 (0x50 + d) = 5"
    by (simp_all add: word_unat_eq_iff)
qed

text \<open>
  Acknowledged writes of the Dpurat and Daikin ventilation plugins are parsed as
  requested: for Dpurat the switch byte or the low byte of the speed; for Daikin, units 0
  to 15, the speed \<open>low\<close> or \<open>high\<close> of a speed request whose cached wind direction has four
  bits, with the cache still a table of 16 units.
\<close>

lemma vent_echo:
  assumes "\<forall>k. al k"
  shows "(dpid dp = 39 \<or> dpid dp = 101 \<longrightarrow> (\<exists>m. Dpurat_build al devId (Ptr dp) = Some (Ptr m)
      \<and> Dpurat_parse al devId (Ptr (sent m)) (msg_len m) = ret_objs
          [if dpid dp = 39 then obj VENT_SWITCH (ucast (dp_bool dp))
           else obj VENT_SPEED (take_bit 8 (dp_raw dp))]))
    \<and> (is_tab 16 3 st \<and> unat regAddr < 16 \<and> unat groupAddr < 16 \<and> st ! unat groupAddr ! 2 < 16
        \<and> dpid dp = 28 \<and> dp_enum dp \<in> {0, 1} \<longrightarrow>
      (\<exists>m st' sw. DVent_build al st devId regAddr groupAddr (Ptr dp) = Some (Ptr m)
        \<and> DVent_parse al st devId regAddr (Ptr (sent m)) (msg_len m)
          = Some (Ptr [obj VENT_SWITCH sw, obj VENT_SPEED (dp_enum dp)], st') \<and> is_tab 16 3 st'))"
proof (intro conjI impI)
  assume "dpid dp = 39 \<or> dpid dp = 101"
  then show "\<exists>m. Dpurat_build al devId (Ptr dp) = Some (Ptr m)
      \<and> Dpurat_parse al devId (Ptr (sent m)) (msg_len m) = ret_objs
          [if dpid dp = 39 then obj VENT_SWITCH (ucast (dp_bool dp))
           else obj VENT_SPEED (take_bit 8 (dp_raw dp))]"
    using assms
    by (auto simp: Dpurat_build_def frame_simps crc_msg_Some Dpurat_parse_ack dp_enum_def ucast_low_byte
        ucast_u32_u16_u8)
next
  assume h: "is_tab 16 3 st \<and> unat regAddr < 16 \<and> unat groupAddr < 16 \<and> st ! unat groupAddr ! 2 < 16
        \<and> dpid dp = 28 \<and> dp_enum dp \<in> {0, 1}"
  define d :: u8 where "d = ucast (st ! unat groupAddr ! 2)"
  have "unat d < 16"
    using h by (simp add: d_def unsigned_ucast_eq take_bit_nat_eq_self word_less_nat_alt)
  then have d: "drop_bit 4 (0x10 + d) = 1" "drop_bit 4 (0x50 + d) = 5"
    by (rule speed_nibble)+
  have rd: "rd_tab st (unat groupAddr) j = Some (st ! unat groupAddr ! j)" if "j < 3" for j
    using h that by (simp add: rd_tab_ok [where r = 16 and c = 3])
  define x y :: u8 where "x = (if dp_enum dp = 0 then 0x10 else 0x50) + d"
    and "y = ucast (st ! unat groupAddr ! 0)"
  have "(if drop_bit 4 x AND 7 \<le> 3 then 0 else 1) = dp_enum dp"
    and "DVent_build al st devId regAddr groupAddr (Ptr dp) = Some (Ptr \<lparr>msg_pBuf = crc_frame
      [devId, 6, ucast (drop_bit 8 (0x07D0 + 3 * regAddr)), ucast (0x07D0 + 3 * regAddr), x, y], msg_len = 8\<rparr>)"
    using h assms d rd by (auto simp: DVent_build_def frame_simps crc_msg_Some d_def x_def y_def)
  then show "\<exists>m st' sw. DVent_build al st devId regAddr groupAddr (Ptr dp) = Some (Ptr m)
        \<and> DVent_parse al st devId regAddr (Ptr (sent m)) (msg_len m)
          = Some (Ptr [obj VENT_SWITCH sw, obj VENT_SPEED (dp_enum dp)], st') \<and> is_tab 16 3 st'"
    using DVent_parse_ack [OF _ assms, of st regAddr devId regAddr x y] h by auto
qed

lemma vent_echo_example:
  "\<exists>m st' sw. DVent_build (\<lambda>_. True) DVent_cache0 1 6 6 (Ptr \<lparr>dpid = 28, dp_type = 3, dp_raw = 1\<rparr>) = Some (Ptr m)
    \<and> DVent_parse (\<lambda>_. True) DVent_cache0 1 6 (Ptr (sent m)) (msg_len m)
      = Some (Ptr [obj VENT_SWITCH sw, obj VENT_SPEED 1], st')"
proof -
  have "is_tab 16 3 DVent_cache0" and "DVent_cache0 ! 6 ! 2 = 0"
    by (simp_all add: is_tab_def DVent_cache0_def list_all_iff)
  then show ?thesis
    using vent_echo [where al = "\<lambda>_. True" and dp = "\<lparr>dpid = 28, dp_type = 3, dp_raw = 1\<rparr>" and devId = 1
        and st = DVent_cache0 and regAddr = 6 and groupAddr = 6]
    by (simp add: dp_enum_def) blast
qed

end
