(* ===== verification/Modbus_Roundtrip.thy ===== *)
theory Modbus_Roundtrip
  imports Serial_Port Mbus_Climate Mbus_Vent
begin

text \<open>
  A request of the cloud to a Modbus device, all the way: the plugin builds the frame, the frame
  goes out through the serial line, the device acknowledges it by repeating it, the receiving
  thread gives the bytes to the plugin, and the monitor reports the value to the cloud. The
  contract that this needs of a plugin is the locale \<open>confirming_plugin\<close>; four plugins satisfy it.
\<close>

subsection \<open>The contract of a plugin\<close>

definition plugin_if ::
  "(u8 \<Rightarrow> u16 \<Rightarrow> u16 \<Rightarrow> ty_obj_dp cptr \<Rightarrow> Msg cptr exec) \<Rightarrow> (u8 \<Rightarrow> u16 \<Rightarrow> bytes \<Rightarrow> nat \<Rightarrow> parsed) \<Rightarrow> MbusIf" where
  "plugin_if bld prs = \<lparr>mi_build = Ptr bld, mi_buildExt = NULL, mi_parse = Ptr prs, mi_parseExt = NULL\<rparr>"

text \<open>A device of a plugin that answers, alone on a half-duplex line.\<close>

definition served :: "MbusIf \<Rightarrow> mbus_dev \<Rightarrow> nat \<Rightarrow> bool" where
  "served i d port \<longleftrightarrow> mb_pIf (md_base d) = Ptr i \<and> mb_pSerial (md_base d) = Ptr port \<and> md_next d = []
     \<and> mb_bFeedback (md_base d) \<and> \<not> mb_bFullDuplex (md_base d) \<and> el_bMaster (md_element d)"

text \<open>The round in which an answer comes.\<close>

definition answer_round :: "u32 \<Rightarrow> bytes \<Rightarrow> rcv_round" where
  "answer_round t bs = \<lparr>rr_run = True, rr_diff = t, rr_wait = Input True (length bs) (Some bs), rr_put = (\<lambda>_. True)\<rparr>"

text \<open>
  \<open>confirms devId reg dp = Some (lp, v)\<close>: the acknowledged frame of a request is parsed as the value
  \<open>v\<close> of the local point \<open>lp\<close>.
\<close>

locale confirming_plugin =
  fixes bld :: "u8 \<Rightarrow> u16 \<Rightarrow> u16 \<Rightarrow> ty_obj_dp cptr \<Rightarrow> Msg cptr exec"
    and prs :: "u8 \<Rightarrow> u16 \<Rightarrow> bytes \<Rightarrow> nat \<Rightarrow> parsed"
    and confirms :: "u8 \<Rightarrow> u16 \<Rightarrow> ty_obj_dp \<Rightarrow> (nat \<times> u32) option"
  assumes echo: "confirms devId reg dp = Some (lp, v) \<Longrightarrow>
    \<exists>bs. bld devId reg grp (Ptr dp) = Some (Ptr \<lparr>msg_pBuf = bs, msg_len = length bs\<rparr>)
      \<and> 0 < length bs \<and> length bs < 65536 \<and> prs devId reg bs (length bs) = ret_objs [mk_obj lp v]"
begin

lemma write_sent:
  assumes "served (plugin_if bld prs) d port" and "first_of_key key pre d" and "ev_seropen ev (lg @ [SerOpen port]) = 0"
    and "confirms (ucast (mb_devAddr (md_base d))) (mb_regAddr (md_base d)) dp = Some (lp, v)"
  shows "\<exists>bs. ModbusDevWrite ev (Ptr key) (Ptr dp) (pre @ d # ds) lg =
      Some ((0, lg @ [SerOpen port, SerSend port bs, SerRecv port]),
        pre @ d\<lparr>md_base := (md_base d)\<lparr>mb_lostCnt := lost_step (mb_lostCnt (md_base d))\<rparr>\<rparr> # ds)
    \<and> length bs < 65536
    \<and> prs (ucast (mb_devAddr (md_base d))) (mb_regAddr (md_base d)) bs (length bs) = ret_objs [mk_obj lp v]"
proof -
  from echo [OF assms(4), of "mb_regAddr (md_base d)"] obtain bs where
    bs: "bld (ucast (mb_devAddr (md_base d))) (mb_regAddr (md_base d)) (mb_regAddr (md_base d)) (Ptr dp)
      = Some (Ptr \<lparr>msg_pBuf = bs, msg_len = length bs\<rparr>)" "0 < length bs" "length bs < 65536"
      "prs (ucast (mb_devAddr (md_base d))) (mb_regAddr (md_base d)) bs (length bs) = ret_objs [mk_obj lp v]" by blast
  have "write_device ev dp lg d = Some ((0, lg @ [SerOpen port, SerSend port bs, SerRecv port]),
      d\<lparr>md_base := (md_base d)\<lparr>mb_lostCnt := lost_step (mb_lostCnt (md_base d))\<rparr>\<rparr>)"
    using assms(1,3) bs(1,2)
    by (simp add: write_device_def served_def plugin_if_def can_build_def call_build_def ser_open_def send_msg_def
        tell_others_def Let_def)
  with assms(2) bs(3,4) show ?thesis
    by (intro exI [of _ bs]) (simp add: ModbusDevWrite_def first_of_key_def at_device_hit [OF refl])
qed

lemma answer_taken:
  assumes "mb_pIf b = Ptr (plugin_if bld prs)" and "\<not> mb_bFullDuplex b" and "\<forall>r \<in> set rs. quiet_round b r" and "t < rcv_limit b"
    and "prs (ucast (mb_devAddr b)) (mb_regAddr b) bs (length bs) = ret_objs [x]" and "length bs < 65536"
  shows "rcv_loop b (rs @ [answer_round t bs])
    = Some (True, [arrived_of b x], b\<lparr>mb_lostCnt := 0\<rparr>)"
  using assms(1,2,5,6) assms(4) [unfolded not_le [symmetric]]
  by (simp add: rcv_loop_quiet [OF assms(3)] answer_round_def rcv_once_def rcv_input_def rcv_buf_def put_objs_all can_parse_def
      call_parse_def plugin_if_def)

lemma confirmed:
  assumes "served (plugin_if bld prs) d port" and "first_of_key (el_pPrimaryKey (md_element d)) pre d"
    and "ev_seropen ev (lg @ [SerOpen port]) = 0"
    and "confirms (ucast (mb_devAddr (md_base d))) (mb_regAddr (md_base d)) dp = Some (lp, v)"
    and "points_of (el_primaryType (md_element d)) = Some ps" and "find_point (md_objs d) lp ps = Some (Some (s, x, True))"
    and "s \<noteq> mErrorCode" and "ob_cloudPoint x = uint (dpid dp)" and "ob_type x = dp_type dp" and "v = dp_raw dp"
    and "ev_active ev" and "ev_registered ev (el_pPrimaryKey (md_element d))"
    and "\<forall>r \<in> set rs. quiet_round (md_base d) r" and "t < rcv_limit (md_base d)"
  shows "\<exists>bs d1 a b1 d2 sync. ModbusDevWrite ev (Ptr (el_pPrimaryKey (md_element d))) (Ptr dp) (pre @ d # ds) lg =
        Some ((0, lg @ [SerOpen port, SerSend port bs, SerRecv port]), pre @ d1 # ds)
    \<and> rcv_loop (md_base d1) (rs @ [answer_round t bs])
        = Some (True, [a], b1)
    \<and> ModbusDevMonitor_step ev (Ptr a) (pre @ d1\<lparr>md_base := b1\<rparr> # ds) lg' =
        Some (True, True, lg' @ sync @ [CloudReport (el_pPrimaryKey (md_element d)) dp, HbFresh (el_pPrimaryKey (md_element d))],
          pre @ d2 # ds)
    \<and> set sync \<subseteq> {KnxSync fk dp | fk. True}"
proof -
  let ?d1 = "d\<lparr>md_base := (md_base d)\<lparr>mb_lostCnt := lost_step (mb_lostCnt (md_base d))\<rparr>\<rparr>"
  let ?b1 = "(md_base ?d1)\<lparr>mb_lostCnt := 0\<rparr>"
  let ?a = "arrived_of (md_base ?d1) (mk_obj lp v)"
  obtain bs where bs: "ModbusDevWrite ev (Ptr (el_pPrimaryKey (md_element d))) (Ptr dp) (pre @ d # ds) lg =
      Some ((0, lg @ [SerOpen port, SerSend port bs, SerRecv port]), pre @ ?d1 # ds)" "length bs < 65536"
    "prs (ucast (mb_devAddr (md_base d))) (mb_regAddr (md_base d)) bs (length bs) = ret_objs [mk_obj lp v]"
    using write_sent [OF assms(1-4)] by blast
  have q: "rcv_limit (md_base ?d1) = rcv_limit (md_base d)" "\<And>r. quiet_round (md_base ?d1) r = quiet_round (md_base d) r"
    by (simp_all add: rcv_limit_def quiet_round_def)
  have loop: "rcv_loop (md_base ?d1) (rs @ [answer_round t bs]) = Some (True, [?a], ?b1)"
    by (rule answer_taken) (use assms(1,13,14) bs(2,3) q in \<open>simp_all add: served_def\<close>)
  have a: "ar_pPrimaryKey ?a = el_pPrimaryKey (md_element d)" "ar_localPoint ?a = lp" "ar_value ?a = v"
    by (simp_all add: arrived_of_def zero_obj_def)
  obtain sy y where y: "take_arrived ?a x = (sy, y)" "ob_cloudPoint y = ob_cloudPoint x" "ob_type y = ob_type x"
    by (cases "take_arrived ?a x") (auto simp: take_arrived_def Let_def split: if_splits)
  have dp: "value_dp ?a y = dp"
    using assms(8-10) y(2,3) a(3) by (simp add: value_dp_def)
  have mon: "ModbusDevMonitor_step ev (Ptr ?a) (pre @ ?d1\<lparr>md_base := ?b1\<rparr> # ds) lg' =
      Some (True, True, lg' @ (if sy then sync_effect (md_element d) s ?a y else [])
          @ cloud_effect ev (md_element d) s True ?a y,
        pre @ ?d1\<lparr>md_base := ?b1, md_objs := (md_objs d)(s := Ptr y)\<rparr> # ds)"
    using monitor_step_hit [of ?a pre "?d1\<lparr>md_base := ?b1\<rparr>" ps s x True sy y ev ds lg'] assms(1,2,5,6) a y(1)
    by (simp add: served_def first_of_key_def)
  have cl: "cloud_effect ev (md_element d) s True ?a y =
      [CloudReport (el_pPrimaryKey (md_element d)) dp, HbFresh (el_pPrimaryKey (md_element d))]"
    using assms(7,11,12) dp a(1) by (simp add: cloud_effect_def)
  have sy: "set (if sy then sync_effect (md_element d) s ?a y else []) \<subseteq> {KnxSync fk dp | fk. True}"
    using assms(7) dp by (auto simp: sync_effect_def split: cptr.splits)
  show ?thesis using bs(1) loop mon [unfolded cl] sy by blast
qed

end

subsection \<open>Plugins that satisfy the contract\<close>

definition dpurat_bld :: "u8 \<Rightarrow> u16 \<Rightarrow> u16 \<Rightarrow> ty_obj_dp cptr \<Rightarrow> Msg cptr exec" where
  "dpurat_bld devId reg grp = Dpurat_build (\<lambda>_. True) devId"

definition dpurat_prs :: "u8 \<Rightarrow> u16 \<Rightarrow> bytes \<Rightarrow> nat \<Rightarrow> parsed" where
  "dpurat_prs devId reg buf = Dpurat_parse (\<lambda>_. True) devId (Ptr buf)"

definition dpurat_confirms :: "u8 \<Rightarrow> u16 \<Rightarrow> ty_obj_dp \<Rightarrow> (nat \<times> u32) option" where
  "dpurat_confirms devId reg dp =
     (if dpid dp = 39 then Some (feature_code VENT_SWITCH, ucast (dp_bool dp))
      else if dpid dp = 101 then Some (feature_code VENT_SPEED, take_bit 8 (dp_raw dp)) else None)"

definition honeywell_bld :: "u8 \<Rightarrow> u16 \<Rightarrow> u16 \<Rightarrow> ty_obj_dp cptr \<Rightarrow> Msg cptr exec" where
  "honeywell_bld devId reg grp = Honeywell_build (\<lambda>_. True) devId"

definition honeywell_prs :: "u8 \<Rightarrow> u16 \<Rightarrow> bytes \<Rightarrow> nat \<Rightarrow> parsed" where
  "honeywell_prs devId reg buf = Honeywell_parse (\<lambda>_. True) devId (Ptr buf)"

definition honeywell_confirms :: "u8 \<Rightarrow> u16 \<Rightarrow> ty_obj_dp \<Rightarrow> (nat \<times> u32) option" where
  "honeywell_confirms devId reg dp =
     (if dpid dp = 1 then Some (feature_code HEAT_SWITCH, ucast (dp_bool dp))
      else if dpid dp = 2 \<and> unat (dp_raw dp) * 10 < 65536 then Some (feature_code HEAT_TEMP, dp_raw dp) else None)"

definition towwire_bld :: "u8 \<Rightarrow> u16 \<Rightarrow> u16 \<Rightarrow> ty_obj_dp cptr \<Rightarrow> Msg cptr exec" where
  "towwire_bld devId reg grp = TOWWIRE_build (\<lambda>_. True) devId reg"

definition towwire_prs :: "u8 \<Rightarrow> u16 \<Rightarrow> bytes \<Rightarrow> nat \<Rightarrow> parsed" where
  "towwire_prs devId reg buf = TOWWIRE_parse (\<lambda>_. True) devId (Ptr buf)"

definition towwire_confirms :: "u8 \<Rightarrow> u16 \<Rightarrow> ty_obj_dp \<Rightarrow> (nat \<times> u32) option" where
  "towwire_confirms devId reg dp =
     (if \<not> (1 \<le> unat reg \<and> unat reg \<le> 36) then None
      else if dpid dp = 1 then Some (feature_code HEAT_SWITCH, ucast (dp_bool dp))
      else if dpid dp = 2 then Some (feature_code HEAT_TEMP, take_bit 16 (dp_raw dp)) else None)"

definition panel_bld :: "u8 \<Rightarrow> u16 \<Rightarrow> u16 \<Rightarrow> ty_obj_dp cptr \<Rightarrow> Msg cptr exec" where
  "panel_bld devId reg grp = Panel_build (\<lambda>_. True) devId"

definition panel_prs :: "u8 \<Rightarrow> u16 \<Rightarrow> bytes \<Rightarrow> nat \<Rightarrow> parsed" where
  "panel_prs devId reg buf = Panel_parse (\<lambda>_. True) devId (Ptr buf)"

definition panel_confirms :: "u8 \<Rightarrow> u16 \<Rightarrow> ty_obj_dp \<Rightarrow> (nat \<times> u32) option" where
  "panel_confirms devId reg dp =
     (if dpid dp = 1 then Some (feature_code PANEL_SWITCH, ucast (dp_bool dp)) else None)"

lemma length_crc_frame6: "length (crc_frame [a, b, c, d, e, f]) = 8"
  by (simp add: crc_frame_def)

lemma crc_frame_nonempty: "crc_frame bs \<noteq> []"
proof
  assume "crc_frame bs = []"
  then have "length (crc_frame bs) = 0" by simp
  then show False by simp
qed

interpretation dp: confirming_plugin dpurat_bld dpurat_prs dpurat_confirms
proof
  fix devId reg grp lp v and dp :: ty_obj_dp
  assume "dpurat_confirms devId reg dp = Some (lp, v)"
  then show "\<exists>bs. dpurat_bld devId reg grp (Ptr dp) = Some (Ptr \<lparr>msg_pBuf = bs, msg_len = length bs\<rparr>)
      \<and> 0 < length bs \<and> length bs < 65536 \<and> dpurat_prs devId reg bs (length bs) = ret_objs [mk_obj lp v]"
    by (auto simp: dpurat_confirms_def dpurat_bld_def dpurat_prs_def Dpurat_build_def frame_simps crc_msg_Some
        Dpurat_parse_ack dp_enum_def ucast_low_byte ucast_u32_u16_u8 length_crc_frame6 crc_frame_nonempty simp del: length_crc_frame split: if_splits)
qed

interpretation hw: confirming_plugin honeywell_bld honeywell_prs honeywell_confirms
proof
  fix devId reg grp lp v and dp :: ty_obj_dp
  assume "honeywell_confirms devId reg dp = Some (lp, v)"
  then show "\<exists>bs. honeywell_bld devId reg grp (Ptr dp) = Some (Ptr \<lparr>msg_pBuf = bs, msg_len = length bs\<rparr>)
      \<and> 0 < length bs \<and> length bs < 65536 \<and> honeywell_prs devId reg bs (length bs) = ret_objs [mk_obj lp v]"
    by (auto simp: honeywell_confirms_def honeywell_bld_def honeywell_prs_def Honeywell_build_def frame_simps crc_msg_Some
        Honeywell_parse_ack dp_enum_def times10 length_crc_frame6 crc_frame_nonempty simp del: length_crc_frame split: if_splits)
qed

interpretation tw: confirming_plugin towwire_bld towwire_prs towwire_confirms
proof
  fix devId reg grp lp v and dp :: ty_obj_dp
  assume c: "towwire_confirms devId reg dp = Some (lp, v)"
  then have "1 \<le> unat reg" "unat reg \<le> 36" by (auto simp: towwire_confirms_def split: if_splits)
  from c TOWWIRE_dataPoint_reg [OF this]
  show "\<exists>bs. towwire_bld devId reg grp (Ptr dp) = Some (Ptr \<lparr>msg_pBuf = bs, msg_len = length bs\<rparr>)
      \<and> 0 < length bs \<and> length bs < 65536 \<and> towwire_prs devId reg bs (length bs) = ret_objs [mk_obj lp v]"
    by (auto simp: towwire_confirms_def towwire_bld_def towwire_prs_def TOWWIRE_build_def frame_simps crc_msg_Some
        TOWWIRE_parse_ack Let_def dp_bool_def low_bytes16 length_crc_frame6 crc_frame_nonempty simp del: length_crc_frame split: if_splits)
qed

interpretation pn: confirming_plugin panel_bld panel_prs panel_confirms
proof
  fix devId reg grp lp v and dp :: ty_obj_dp
  assume "panel_confirms devId reg dp = Some (lp, v)"
  then show "\<exists>bs. panel_bld devId reg grp (Ptr dp) = Some (Ptr \<lparr>msg_pBuf = bs, msg_len = length bs\<rparr>)
      \<and> 0 < length bs \<and> length bs < 65536 \<and> panel_prs devId reg bs (length bs) = ret_objs [mk_obj lp v]"
    by (auto simp: panel_confirms_def panel_bld_def panel_prs_def Panel_build_def frame_simps crc_msg_Some
        Panel_parse_ack length_crc_frame6 crc_frame_nonempty simp del: length_crc_frame split: if_splits)
qed

subsection \<open>The whole way\<close>

type_synonym confirming =
  "(u8 \<Rightarrow> u16 \<Rightarrow> u16 \<Rightarrow> ty_obj_dp cptr \<Rightarrow> Msg cptr exec) \<times> (u8 \<Rightarrow> u16 \<Rightarrow> bytes \<Rightarrow> nat \<Rightarrow> parsed)
    \<times> (u8 \<Rightarrow> u16 \<Rightarrow> ty_obj_dp \<Rightarrow> (nat \<times> u32) option)"

definition confirming_plugins :: "confirming list" where
  "confirming_plugins =
     [(dpurat_bld, dpurat_prs, dpurat_confirms), (honeywell_bld, honeywell_prs, honeywell_confirms),
      (towwire_bld, towwire_prs, towwire_confirms), (panel_bld, panel_prs, panel_confirms)]"

lemma confirming_plugins_contract: "(bld, prs, cf) \<in> set confirming_plugins \<Longrightarrow> confirming_plugin bld prs cf"
  using dp.confirming_plugin_axioms hw.confirming_plugin_axioms tw.confirming_plugin_axioms pn.confirming_plugin_axioms
  by (auto simp: confirming_plugins_def)


definition ex_vent :: mbus_dev where
  "ex_vent = \<lparr>md_base = ex_mbase\<lparr>mb_pIf := Ptr (plugin_if dpurat_bld dpurat_prs), mb_bFeedback := True,
       mb_element := (mb_element ex_mbase)\<lparr>el_primaryType := device_code MODBUS_DEVICE_VENTILATION\<rparr>\<rparr>,
     md_next = [], md_objs = (\<lambda>_. NULL)(mSwitch := ex_mobj VENT_SWITCH 39)\<rparr>"


end
