(* ===== verification/Di_Scan.thy ===== *)
theory Di_Scan
  imports Modbus_Handle
begin

text \<open>
  The digital inputs of the gateway, \<open>di_scan\<close> in \<open>source/main.c\<close>: once a second every input is read
  and debounced by a counter, and a change of its status is reported to the cloud.

  \<^item> \<open>DiDev\<close> is \<open>DiDev_t\<close> without the command that reads the input; the text which that command
    prints is an argument.
  \<^item> The counter has a middle, \<open>retryNum\<close>. Samples at the trigger level move it up to twice the
    middle, others down to 0; a sample on the wrong side of the middle brings it to the middle.
\<close>

subsection \<open>The scan\<close>

definition DI_LEVEL_LOW :: int where "DI_LEVEL_LOW = 0"
definition DI_LEVEL_HIGH :: int where "DI_LEVEL_HIGH = 1"

record DiDev =
  di_element :: DeviceElement
  di_eLevel :: int
  di_dataPoint :: u8
  di_value :: u8
  di_status :: int
  di_retryNum :: int
  di_retryCnt :: int

definition di_dp :: "DiDev \<Rightarrow> int \<Rightarrow> ty_obj_dp" where
  "di_dp d st = \<lparr>dpid = di_dataPoint d, dp_type = PROP_ENUM, dp_raw = word_of_int st\<rparr>"

definition di_report :: "env \<Rightarrow> DiDev \<Rightarrow> int \<Rightarrow> elog \<Rightarrow> elog" where
  "di_report ev d st lg =
     (if ev_active ev then snd (cloud_report ev (el_pPrimaryKey (di_element d)) (di_dp d st) lg) else lg)"

text \<open>A sample at the trigger level, and one that is not.\<close>

definition di_hit :: "env \<Rightarrow> DiDev \<Rightarrow> elog \<Rightarrow> (DiDev \<times> elog) exec" where
  "di_hit ev d lg =
     (if di_retryCnt d < di_retryNum d then Some (d\<lparr>di_retryCnt := di_retryNum d\<rparr>, lg)
      else do {
        m \<leftarrow> c_int (di_retryNum d * 2);
        if di_retryCnt d < m then Some (d\<lparr>di_retryCnt := di_retryCnt d + 1\<rparr>, lg)
        else if di_status d \<noteq> DI_LEVEL_LOW
        then Some (d\<lparr>di_status := DI_LEVEL_LOW\<rparr>, di_report ev d DI_LEVEL_LOW lg)
        else Some (d, lg) })"

definition di_miss :: "env \<Rightarrow> DiDev \<Rightarrow> elog \<Rightarrow> (DiDev \<times> elog) exec" where
  "di_miss ev d lg =
     (if di_retryNum d < di_retryCnt d then Some (d\<lparr>di_retryCnt := di_retryNum d\<rparr>, lg)
      else if di_retryCnt d \<noteq> 0 then do {
        c \<leftarrow> c_int (di_retryCnt d - 1);
        Some (d\<lparr>di_retryCnt := c\<rparr>, lg) }
      else if di_status d \<noteq> DI_LEVEL_HIGH
      then Some (d\<lparr>di_status := DI_LEVEL_HIGH\<rparr>, di_report ev d DI_LEVEL_HIGH lg)
      else Some (d, lg))"

text \<open>One input in one round; a text without a number is 0, a number out of range is skipped.\<close>

definition di_sample :: "string \<Rightarrow> u8 \<times> bool" where
  "di_sample buf = (case strtol buf of None \<Rightarrow> (0, False) | Some (v, err) \<Rightarrow> (word_of_int v, err))"

definition di_step :: "env \<Rightarrow> string \<Rightarrow> DiDev \<Rightarrow> elog \<Rightarrow> (DiDev \<times> elog) exec" where
  "di_step ev buf d lg =
     (case di_sample buf of
        (v, err) \<Rightarrow>
          let d = d\<lparr>di_value := v\<rparr> in
          if err then Some (d, lg)
          else if di_eLevel d = uint v then di_hit ev d lg
          else di_miss ev d lg)"

fun di_round :: "env \<Rightarrow> (DiDev \<times> string) cptr list \<Rightarrow> elog \<Rightarrow> (DiDev cptr list \<times> elog) exec" where
  "di_round ev [] lg = Some ([], lg)"
| "di_round ev (NULL # ds) lg = do { (ds, lg) \<leftarrow> di_round ev ds lg; Some (NULL # ds, lg) }"
| "di_round ev (Ptr (d, buf) # ds) lg = do {
     (d, lg) \<leftarrow> di_step ev buf d lg;
     (ds, lg) \<leftarrow> di_round ev ds lg;
     Some (Ptr d # ds, lg) }"

text \<open>A round steps every input by itself.\<close>

lemma di_round_each:
  "di_round ev ds lg = Some (ds', lg') \<Longrightarrow>
   list_all2 (\<lambda>x y. case x of NULL \<Rightarrow> y = NULL
     | Ptr (d, b) \<Rightarrow> \<exists>d' l l'. y = Ptr d' \<and> di_step ev b d l = Some (d', l')) ds ds'"
proof (induction ds arbitrary: lg ds')
  case (Cons x ds)
  then show ?case by (cases x) (fastforce split: bind_splits)+
qed simp

subsection \<open>One input over many rounds\<close>

fun di_run :: "env \<Rightarrow> string list \<Rightarrow> DiDev \<Rightarrow> elog \<Rightarrow> (DiDev \<times> elog) exec" where
  "di_run ev [] d lg = Some (d, lg)"
| "di_run ev (b # bs) d lg = do { (d, lg) \<leftarrow> di_step ev b d lg; di_run ev bs d lg }"

definition di_wf :: "DiDev \<Rightarrow> bool" where
  "di_wf d \<longleftrightarrow> 0 \<le> di_retryCnt d \<and> di_retryCnt d \<le> 2 * di_retryNum d \<and> 2 * di_retryNum d < 2 ^ 31"

text \<open>How a text counts for an input: at the trigger level, away from it, or not at all.\<close>

definition hits :: "DiDev \<Rightarrow> string \<Rightarrow> bool" where
  "hits d b \<longleftrightarrow> \<not> snd (di_sample b) \<and> di_eLevel d = uint (fst (di_sample b))"

definition misses :: "DiDev \<Rightarrow> string \<Rightarrow> bool" where
  "misses d b \<longleftrightarrow> \<not> snd (di_sample b) \<and> di_eLevel d \<noteq> uint (fst (di_sample b))"

definition same_config :: "DiDev \<Rightarrow> DiDev \<Rightarrow> bool" where
  "same_config d d' \<longleftrightarrow> di_retryNum d' = di_retryNum d \<and> di_eLevel d' = di_eLevel d \<and> di_element d' = di_element d
     \<and> di_dataPoint d' = di_dataPoint d"

lemma same_config_refl [simp]: "same_config d d"
  by (simp add: same_config_def)

lemma same_config_trans: "same_config d d' \<Longrightarrow> same_config d' d'' \<Longrightarrow> same_config d d''"
  by (simp add: same_config_def)

lemma same_config_hits: "same_config d d' \<Longrightarrow> hits d' = hits d \<and> misses d' = misses d"
  by (auto simp: same_config_def hits_def misses_def)

text \<open>The effect of one round in terms of the counter and the status.\<close>

definition next_cnt :: "int \<Rightarrow> bool \<Rightarrow> int \<Rightarrow> int" where
  "next_cnt n hit c =
     (if hit then (if c < n then n else if c < 2 * n then c + 1 else c)
      else (if n < c then n else if c \<noteq> 0 then c - 1 else c))"

definition next_status :: "int \<Rightarrow> bool \<Rightarrow> int \<Rightarrow> int \<Rightarrow> int" where
  "next_status n hit c s =
     (if hit \<and> 2 * n \<le> c \<and> n \<le> c then DI_LEVEL_LOW else if \<not> hit \<and> c \<le> n \<and> c = 0 then DI_LEVEL_HIGH else s)"

definition status_report :: "env \<Rightarrow> DiDev \<Rightarrow> int \<Rightarrow> elog" where
  "status_report ev d st =
     (if st \<noteq> di_status d \<and> ev_active ev then [CloudReport (el_pPrimaryKey (di_element d)) (di_dp d st)] else [])"

lemma di_report_eq: "st \<noteq> di_status d \<Longrightarrow> di_report ev d st lg = lg @ status_report ev d st"
  by (simp add: di_report_def status_report_def cloud_report_def Let_def)

lemma status_report_same [simp]: "status_report ev d (di_status d) = []"
  by (simp add: status_report_def)

lemma status_report_at: "di_status d = st \<Longrightarrow> status_report ev d st = []"
  by (simp add: status_report_def)

lemma status_report_value [simp]: "status_report ev (d\<lparr>di_value := v\<rparr>) st = status_report ev d st"
  by (simp add: status_report_def di_dp_def)

lemma di_hit_eq:
  assumes "di_wf d"
  defines "c \<equiv> next_cnt (di_retryNum d) True (di_retryCnt d)"
    and "st \<equiv> next_status (di_retryNum d) True (di_retryCnt d) (di_status d)"
  shows "di_hit ev d lg = Some (d\<lparr>di_retryCnt := c, di_status := st\<rparr>, lg @ status_report ev d st)"
proof (cases "di_retryCnt d < di_retryNum d")
  case True
  then show ?thesis using assms(1) by (simp add: di_hit_def c_def st_def next_cnt_def next_status_def)
next
  case False
  have "c_int (di_retryNum d * 2) = Some (2 * di_retryNum d)" using assms(1) by (simp add: di_wf_def c_int_def)
  then show ?thesis
    using assms(1) False
    by (cases "di_status d = DI_LEVEL_LOW")
      (auto simp: di_hit_def c_def st_def next_cnt_def next_status_def di_wf_def di_report_eq status_report_at)
qed

lemma di_miss_eq:
  assumes "di_wf d"
  defines "c \<equiv> next_cnt (di_retryNum d) False (di_retryCnt d)"
    and "st \<equiv> next_status (di_retryNum d) False (di_retryCnt d) (di_status d)"
  shows "di_miss ev d lg = Some (d\<lparr>di_retryCnt := c, di_status := st\<rparr>, lg @ status_report ev d st)"
proof -
  have "c_int (di_retryCnt d - 1) = Some (di_retryCnt d - 1)" using assms(1) by (simp add: di_wf_def c_int_def)
  then show ?thesis
    using assms(1)
    by (cases "di_status d = DI_LEVEL_HIGH")
      (auto simp: di_miss_def c_def st_def next_cnt_def next_status_def di_wf_def di_report_eq status_report_at)
qed

lemma di_step_eq:
  fixes b
  assumes "di_wf d"
  defines "c \<equiv> next_cnt (di_retryNum d) (hits d b) (di_retryCnt d)"
    and "st \<equiv> next_status (di_retryNum d) (hits d b) (di_retryCnt d) (di_status d)"
  shows "di_step ev b d lg =
    (if snd (di_sample b) then Some (d\<lparr>di_value := fst (di_sample b)\<rparr>, lg)
     else Some (d\<lparr>di_value := fst (di_sample b), di_retryCnt := c, di_status := st\<rparr>, lg @ status_report ev d st))"
proof -
  let ?d = "d\<lparr>di_value := fst (di_sample b)\<rparr>"
  have wf: "di_wf ?d" using assms(1) by (simp add: di_wf_def)
  obtain v e where b: "di_sample b = (v, e)" by (cases "di_sample b")
  show ?thesis
  proof (cases "di_eLevel d = uint v")
    case True
    have "di_step ev b d lg = (if e then Some (d\<lparr>di_value := v\<rparr>, lg) else di_hit ev (d\<lparr>di_value := v\<rparr>) lg)"
      by (simp add: di_step_def b True)
    moreover have "\<not> e \<Longrightarrow> hits d b = True" by (simp add: hits_def b True)
    ultimately show ?thesis using di_hit_eq [OF wf, of ev lg] by (cases e) (simp_all add: c_def st_def b)
  next
    case False
    have "di_step ev b d lg = (if e then Some (d\<lparr>di_value := v\<rparr>, lg) else di_miss ev (d\<lparr>di_value := v\<rparr>) lg)"
      by (simp add: di_step_def b False)
    moreover have "\<not> e \<Longrightarrow> hits d b = False" by (simp add: hits_def b False)
    ultimately show ?thesis using di_miss_eq [OF wf, of ev lg] by (cases e) (simp_all add: c_def st_def b)
  qed
qed

lemma next_cnt_range: "0 \<le> c \<Longrightarrow> c \<le> 2 * n \<Longrightarrow> 0 \<le> next_cnt n h c \<and> next_cnt n h c \<le> 2 * n"
  by (auto simp: next_cnt_def)

text \<open>One round never leaves the range of the counter and is never undefined.\<close>

lemma di_step_wf:
  assumes "di_wf d"
  shows "\<exists>d' lg'. di_step ev b d lg = Some (d', lg') \<and> same_config d d' \<and> di_wf d'"
proof -
  have c: "0 \<le> next_cnt (di_retryNum d) (hits d b) (di_retryCnt d)"
    "next_cnt (di_retryNum d) (hits d b) (di_retryCnt d) \<le> 2 * di_retryNum d"
    using assms next_cnt_range [of "di_retryCnt d" "di_retryNum d"] by (simp_all add: di_wf_def)
  have "same_config d (d\<lparr>di_value := v\<rparr>)" "di_wf (d\<lparr>di_value := v\<rparr>)"
    "same_config d (d\<lparr>di_value := v, di_retryCnt := next_cnt (di_retryNum d) (hits d b) (di_retryCnt d), di_status := st\<rparr>)"
    "di_wf (d\<lparr>di_value := v, di_retryCnt := next_cnt (di_retryNum d) (hits d b) (di_retryCnt d), di_status := st\<rparr>)" for v st
    using assms c by (simp_all add: same_config_def di_wf_def)
  then show ?thesis using di_step_eq [OF assms, of ev b lg] by (metis (no_types))
qed

lemma di_run_append:
  "di_run ev (xs @ ys) d lg = do { (d, lg) \<leftarrow> di_run ev xs d lg; di_run ev ys d lg }"
  by (induction xs arbitrary: d lg) (auto split: bind_splits)

lemma di_run_wf:
  assumes "di_wf d"
  shows "\<exists>d' lg'. di_run ev bs d lg = Some (d', lg') \<and> same_config d d' \<and> di_wf d'"
  using assms
proof (induction bs arbitrary: d lg)
  case Nil
  then show ?case by (simp add: same_config_def)
next
  case (Cons b bs)
  obtain d1 lg1 where s: "di_step ev b d lg = Some (d1, lg1)" "same_config d d1" "di_wf d1"
    using di_step_wf [OF Cons.prems] by blast
  from Cons.IH [OF s(3), of lg1] s(1,2) show ?case by (auto simp: same_config_def)
qed

text \<open>
  Seen from the level that keeps coming, the counter is a distance to the end of its range: at
  most the middle after one sample, then one less with every sample, and at 0 the status is set.
\<close>

definition counts :: "bool \<Rightarrow> DiDev \<Rightarrow> string \<Rightarrow> bool" where
  "counts h d b \<longleftrightarrow> (if h then hits d b else misses d b)"

definition level_of :: "bool \<Rightarrow> int" where
  "level_of h = (if h then DI_LEVEL_LOW else DI_LEVEL_HIGH)"

definition away :: "bool \<Rightarrow> DiDev \<Rightarrow> int" where
  "away h d = (if h then 2 * di_retryNum d - di_retryCnt d else di_retryCnt d)"

lemma away_range: "di_wf d \<Longrightarrow> 0 \<le> away h d \<and> away h d \<le> 2 * di_retryNum d \<and> 0 \<le> di_retryNum d"
  by (auto simp: away_def di_wf_def)

lemma di_step_counts:
  assumes "di_wf d" and "counts h d b"
  shows "\<exists>d'. di_step ev b d lg = Some (d', lg @ status_report ev d (if away h d = 0 then level_of h else di_status d))
    \<and> same_config d d' \<and> di_wf d' \<and> di_status d' = (if away h d = 0 then level_of h else di_status d)
    \<and> away h d' = (if di_retryNum d < away h d then di_retryNum d else if away h d = 0 then 0 else away h d - 1)"
proof -
  have e: "\<not> snd (di_sample b)" and h: "hits d b = h" using assms(2) by (auto simp: counts_def hits_def misses_def split: if_splits)
  have st: "next_status (di_retryNum d) h (di_retryCnt d) (di_status d) = (if away h d = 0 then level_of h else di_status d)"
    using assms(1) by (auto simp: next_status_def away_def level_of_def di_wf_def)
  let ?c = "next_cnt (di_retryNum d) h (di_retryCnt d)"
  let ?st = "if away h d = 0 then level_of h else di_status d"
  let ?d = "d\<lparr>di_value := fst (di_sample b), di_retryCnt := ?c, di_status := ?st\<rparr>"
  have "di_step ev b d lg = Some (?d, lg @ status_report ev d ?st)"
    using di_step_eq [OF assms(1), of ev b lg] by (simp only: e h st if_False)
  moreover have "same_config d ?d" by (simp add: same_config_def)
  moreover have "di_wf ?d"
    using assms(1) next_cnt_range [of "di_retryCnt d" "di_retryNum d" h] by (simp add: di_wf_def)
  moreover have "away h ?d = (if di_retryNum d < away h d then di_retryNum d else if away h d = 0 then 0 else away h d - 1)"
    using assms(1) by (auto simp: away_def next_cnt_def di_wf_def)
  ultimately show ?thesis by (intro exI [of _ ?d]) simp
qed

lemma counts_config: "same_config d d' \<Longrightarrow> counts h d' = counts h d"
  by (intro ext) (simp add: counts_def same_config_hits)

lemma report_config: "same_config d d' \<Longrightarrow> di_status d' = di_status d \<Longrightarrow> status_report ev d' = status_report ev d"
  by (intro ext) (simp add: same_config_def status_report_def di_dp_def)

text \<open>Fewer samples than the distance change nothing; more set the status, once.\<close>

lemma di_run_short:
  assumes "di_wf d" and "\<forall>b \<in> set bs. counts h d b" and "int (length bs) \<le> away h d" and "away h d \<le> di_retryNum d"
  shows "\<exists>d'. di_run ev bs d lg = Some (d', lg) \<and> same_config d d' \<and> di_wf d' \<and> di_status d' = di_status d"
  using assms
proof (induction bs arbitrary: d)
  case (Cons b bs)
  then obtain d1 where s: "di_step ev b d lg = Some (d1, lg)" "same_config d d1" "di_wf d1" "di_status d1 = di_status d"
    "away h d1 = away h d - 1"
    using di_step_counts [of d h b ev lg] by auto
  have "\<forall>b \<in> set bs. counts h d1 b" using Cons.prems(2) s(2) by (simp add: counts_config)
  from Cons.IH [OF s(3) this] s Cons.prems(3,4) show ?case by (auto simp: same_config_def)
qed (simp add: same_config_def)

lemma di_run_settled:
  assumes "di_wf d" and "\<forall>b \<in> set bs. counts h d b" and "di_status d = level_of h"
  shows "\<exists>d'. di_run ev bs d lg = Some (d', lg) \<and> di_status d' = level_of h"
  using assms
proof (induction bs arbitrary: d)
  case (Cons b bs)
  then obtain d1 where s: "di_step ev b d lg = Some (d1, lg)" "same_config d d1" "di_wf d1" "di_status d1 = level_of h"
    using di_step_counts [of d h b ev lg] status_report_at [of d "level_of h" ev] by fastforce
  have "\<forall>b \<in> set bs. counts h d1 b" using Cons.prems(2) s(2) by (simp add: counts_config)
  from Cons.IH [OF s(3) this s(4)] s(1) show ?case by simp
qed simp

lemma di_run_long:
  assumes "di_wf d" and "\<forall>b \<in> set bs. counts h d b" and "away h d < int (length bs)" and "away h d \<le> di_retryNum d"
  shows "\<exists>d'. di_run ev bs d lg = Some (d', lg @ status_report ev d (level_of h)) \<and> di_status d' = level_of h"
  using assms
proof (induction bs arbitrary: d)
  case Nil
  then show ?case using away_range [of d h] by simp
next
  case (Cons b bs)
  obtain d1 where s: "di_step ev b d lg = Some (d1, lg @ status_report ev d (if away h d = 0 then level_of h else di_status d))"
    "same_config d d1" "di_wf d1" "di_status d1 = (if away h d = 0 then level_of h else di_status d)"
    "away h d1 = (if away h d = 0 then 0 else away h d - 1)"
    using di_step_counts [of d h b ev lg] Cons.prems by auto
  have b: "\<forall>b \<in> set bs. counts h d1 b" using Cons.prems(2) s(2) by (simp add: counts_config)
  show ?case
  proof (cases "away h d = 0")
    case True
    with di_run_settled [OF s(3) b] s(1,4) show ?thesis by auto
  next
    case False
    have "status_report ev d1 = status_report ev d" using s(2,4) False by (simp add: report_config)
    with Cons.IH [OF s(3) b] s Cons.prems(3,4) False show ?thesis by (auto simp: same_config_def)
  qed
qed

lemma away_after_one: "di_wf d \<Longrightarrow> counts h d b \<Longrightarrow> di_step ev b d lg = Some (d', lg') \<Longrightarrow>
  same_config d d' \<and> di_wf d' \<and> away h d' \<le> di_retryNum d \<and> di_retryNum d \<le> away (\<not> h) d'"
  using di_step_counts [of d h b ev lg] by (auto simp: away_def same_config_def di_wf_def split: if_splits)

text \<open>
  From a counter beyond the middle the first sample only brings it to the middle, so that
  the number of samples counts from there.
\<close>

lemma di_first_far:
  assumes "di_wf d" and "counts h d b" and "di_retryNum d < away h d"
  obtains d1 where "di_step ev b d lg = Some (d1, lg)" "same_config d d1" "di_wf d1" "di_status d1 = di_status d"
    "away h d1 = di_retryNum d1"
proof -
  have "away h d \<noteq> 0" using away_range [OF assms(1), of h] assms(3) by linarith
  then obtain d1 where "di_step ev b d lg = Some (d1, lg)" "same_config d d1" "di_wf d1" "di_status d1 = di_status d"
    "away h d1 = di_retryNum d"
    using di_step_counts [OF assms(1,2), of ev lg] assms(3) by auto
  then show ?thesis using that by (simp add: same_config_def)
qed

lemma di_run_quiet:
  assumes "di_wf d" and "\<forall>b \<in> set bs. counts h d b" and "int (length bs) \<le> away h d" and "int (length bs) \<le> di_retryNum d"
  shows "\<exists>d'. di_run ev bs d lg = Some (d', lg) \<and> di_status d' = di_status d"
proof (cases "di_retryNum d < away h d")
  case False
  then show ?thesis using di_run_short [OF assms(1-3), of ev lg] by auto
next
  case True
  show ?thesis
  proof (cases bs)
    case (Cons b cs)
    obtain d1 where s: "di_step ev b d lg = Some (d1, lg)" "same_config d d1" "di_wf d1" "di_status d1 = di_status d"
      "away h d1 = di_retryNum d1"
      using di_first_far [OF assms(1) _ True, of b ev lg] assms(2) Cons by auto
    have c: "\<forall>b \<in> set cs. counts h d1 b" using assms(2) Cons s(2) by (simp add: counts_config)
    have "int (length cs) \<le> away h d1" using assms(4) Cons s(2,5) by (simp add: same_config_def)
    from di_run_short [OF s(3) c this, of ev lg] s(1,4,5) show ?thesis by (auto simp: Cons)
  qed simp
qed

subsection \<open>What the scan promises\<close>

text \<open>
  Whatever the inputs print, the counter of an input stays between 0 and twice its
  middle, its doubling never overflows and the scan goes on.
\<close>

lemma di_counter_bounded:
  assumes "0 \<le> di_retryCnt d" and "di_retryCnt d \<le> 2 * di_retryNum d" and "2 * di_retryNum d < 2 ^ 31"
  shows "\<exists>d' lg'. di_run ev bs d lg = Some (d', lg') \<and> 0 \<le> di_retryCnt d' \<and> di_retryCnt d' \<le> 2 * di_retryNum d
    \<and> di_retryNum d' = di_retryNum d"
proof -
  have "di_wf d" using assms by (simp add: di_wf_def)
  from di_run_wf [OF this, of ev bs lg] show ?thesis by (auto simp: same_config_def di_wf_def)
qed

definition ex_di :: DiDev where
  "ex_di = \<lparr>di_element = \<lparr>el_szName = ''DI'', el_pPrimaryKey = ''0123456789abd1'', el_devId = 1, el_pProductId = ''p1'',
       el_pForeignKey = NULL, el_primaryType = 0, el_pvForeignKey = NULL, el_bMaster = False, el_attri = 0\<rparr>,
     di_eLevel = 1, di_dataPoint = 101, di_value = 0, di_status = - 1, di_retryNum = 3, di_retryCnt = 0\<rparr>"

lemma di_counter_bounded_example:
  "\<exists>d' lg'. di_run ex_env [''1'', ''0'', ''x'', ''99999999999''] ex_di [] = Some (d', lg') \<and> 0 \<le> di_retryCnt d'
    \<and> di_retryCnt d' \<le> 6 \<and> di_retryNum d' = 3"
  using di_counter_bounded [of ex_di ex_env "[''1'', ''0'', ''x'', ''99999999999'']" "[]"] by (simp add: ex_di_def)

text \<open>
  Claim C27. An input that keeps printing the same level for two rounds more than its middle
  has the status of that level, whatever its counter was, and if that is a new status the
  cloud was told of it exactly once.
\<close>

theorem di_settles:
  assumes "di_wf d" and "\<forall>b \<in> set bs. counts h d b" and "di_retryNum d + 2 \<le> int (length bs)"
  shows "\<exists>d'. di_run ev bs d lg = Some (d', lg @ status_report ev d (level_of h)) \<and> di_status d' = level_of h"
proof (cases "di_retryNum d < away h d")
  case False
  then show ?thesis using di_run_long [OF assms(1,2), of ev lg] assms(3) by simp
next
  case True
  obtain b cs where bs: "bs = b # cs" using assms(1,3) away_range [OF assms(1), of h] by (cases bs) auto
  obtain d1 where s: "di_step ev b d lg = Some (d1, lg)" "same_config d d1" "di_wf d1" "di_status d1 = di_status d"
    "away h d1 = di_retryNum d1"
    using di_first_far [OF assms(1) _ True, of b ev lg] assms(2) bs by auto
  have c: "\<forall>b \<in> set cs. counts h d1 b" using assms(2) bs s(2) by (simp add: counts_config)
  have "away h d1 < int (length cs)" using assms(3) bs s(2,5) by (simp add: same_config_def)
  from di_run_long [OF s(3) c this, of ev lg] s show ?thesis by (simp add: bs report_config)
qed

lemma sample_examples [simp]: "di_sample ''1'' = (1, False)" "di_sample ''0'' = (0, False)"
  by code_simp+

theorem di_settles_witness:
  "\<exists>d'. di_run ex_env (replicate 5 ''1'') ex_di [] =
      Some (d', [CloudReport ''0123456789abd1'' \<lparr>dpid = 101, dp_type = PROP_ENUM, dp_raw = 0\<rparr>]) \<and> di_status d' = 0"
  using di_settles [of ex_di "replicate 5 ''1''" True ex_env "[]"]
  by (simp add: ex_di_def di_wf_def counts_def hits_def level_of_def DI_LEVEL_LOW_def status_report_def di_dp_def ex_env_def)

text \<open>
  A short disturbance is not seen: after a round at the other level, a run of at
  most as many rounds at a level as the middle neither changes the status nor reports one.
\<close>

lemma di_glitch_ignored:
  assumes "di_wf d" and "counts (\<not> h) d b" and "\<forall>c \<in> set bs. counts h d c" and "int (length bs) \<le> di_retryNum d"
  shows "\<exists>d1 lg1 d2. di_step ev b d lg = Some (d1, lg1) \<and> di_run ev bs d1 lg1 = Some (d2, lg1) \<and> di_status d2 = di_status d1"
proof -
  obtain d1 lg1 where s: "di_step ev b d lg = Some (d1, lg1)" using di_step_wf [OF assms(1), of ev b lg] by auto
  have a: "same_config d d1" "di_wf d1" "di_retryNum d \<le> away h d1"
    using away_after_one [OF assms(1,2) s] by simp_all
  have "\<forall>c \<in> set bs. counts h d1 c" using assms(3) a(1) by (simp add: counts_config)
  moreover have "di_retryNum d1 = di_retryNum d" using a(1) by (simp add: same_config_def)
  ultimately show ?thesis using di_run_quiet [OF a(2), of bs h ev lg1] a(3) assms(4) s by auto
qed

lemma di_glitch_ignored_example:
  "\<exists>d1 lg1 d2. di_step ex_env ''0'' ex_di [] = Some (d1, lg1) \<and> di_run ex_env [''1'', ''1'', ''1''] d1 lg1 = Some (d2, lg1)
     \<and> di_status d2 = di_status d1"
  using di_glitch_ignored [of ex_di True "''0''" "[''1'', ''1'', ''1'']" ex_env "[]"]
  by (simp add: ex_di_def di_wf_def counts_def hits_def misses_def)

end
