(* ===== verification/Gateway_Main.thy ===== *)
theory Gateway_Main
  imports Di_Scan
begin

text \<open>
  The callbacks of the main program, \<open>source/main.c\<close>: commands, binding, deletion, heartbeats and
  reset as the cloud asks for them, the key of the gateway, the reports of positions and the
  links between Modbus and KNX devices.

  \<^item> The cloud library is a parameter: \<open>menv\<close> holds what its calls return, as a function of the
    log that ends with the call. \<open>mv_desc\<close> is \<open>tuya_user_iot_misc_dev_desc_get\<close>; of a description
    the code reads the type and the key it was asked for. \<open>registry\<close> is what the library promises
    of it.
  \<^item> What \<open>tuya_user_iot_misc_dev_traversal\<close> goes through is an argument, the keys and types.
  \<^item> \<open>AddJob\<close> is \<open>thpool_add_work\<close> with the name of the function, \<open>BindPos\<close> a \<open>queue_put\<close> into
    \<open>pBindPosQueue\<close>, \<open>KnxSync\<close> a call of \<open>KnxGroupWrite\<close>, and \<open>PosReport\<close> a report of data point 199.
  \<^item> A Zigbee device found in \<open>pZ3List\<close> is \<open>None\<close>: the code reads beyond the end of the list node.
\<close>

subsection \<open>The cloud library\<close>

record menv =
  mv_env :: env
  mv_desc :: "elog \<Rightarrow> string \<Rightarrow> dev_tp option"
  mv_unbind :: "elog \<Rightarrow> int"
  mv_hbcfg :: "elog \<Rightarrow> int"
  mv_files :: bool

definition dev_bind :: "dev_tp \<Rightarrow> DeviceElement \<Rightarrow> elog \<Rightarrow> elog" where
  "dev_bind tp el lg = lg @ [CloudBind tp (el_pPrimaryKey el) (el_pProductId el)]"

definition dev_unbind :: "DeviceElement \<Rightarrow> elog \<Rightarrow> elog" where
  "dev_unbind el lg = lg @ [CloudUnbind (el_pPrimaryKey el)]"

definition registry :: "menv \<Rightarrow> bool" where
  "registry mv \<longleftrightarrow>
     (\<forall>lg tp k p. mv_desc mv (lg @ [CloudBind tp k p]) =
        (if ev_bind (mv_env mv) (lg @ [CloudBind tp k p]) = 0 then (mv_desc mv lg)(k \<mapsto> tp) else mv_desc mv lg)) \<and>
     (\<forall>lg k. mv_desc mv (lg @ [CloudUnbind k]) =
        (if mv_unbind mv (lg @ [CloudUnbind k]) = 0 then (mv_desc mv lg)(k := None) else mv_desc mv lg)) \<and>
     (\<forall>lg k m n. mv_desc mv (lg @ [HbCfg k m n]) = mv_desc mv lg) \<and>
     (\<forall>lg b. mv_desc mv (lg @ [StatusLed b]) = mv_desc mv lg)"

subsection \<open>Binding\<close>

fun mbus_bind :: "menv \<Rightarrow> bool \<Rightarrow> mbus_list \<Rightarrow> elog \<Rightarrow> elog" where
  "mbus_bind mv permit [] lg = lg"
| "mbus_bind mv permit (d # ds) lg =
     (if \<not> el_bMaster (md_element d) then mbus_bind mv permit ds lg
      else if mb_bGroupMember (md_base d) then mbus_bind mv permit ds lg
      else if mv_desc mv lg (el_pPrimaryKey (md_element d)) = None \<and> permit
      then mbus_bind mv permit ds (dev_bind DEV_TP_485 (md_element d) lg)
      else mbus_bind mv permit ds lg)"

definition Modbus_DevBind :: "menv \<Rightarrow> mbus_list cptr \<Rightarrow> bool \<Rightarrow> elog \<Rightarrow> int \<times> elog" where
  "Modbus_DevBind mv lst permit lg = (case lst of NULL \<Rightarrow> (- 1, lg) | Ptr ds \<Rightarrow> (0, mbus_bind mv permit ds lg))"

fun knx_bind :: "menv \<Rightarrow> dev_list \<Rightarrow> elog \<Rightarrow> elog" where
  "knx_bind mv [] lg = lg"
| "knx_bind mv (NULL # ds) lg = knx_bind mv ds lg"
| "knx_bind mv (Ptr d # ds) lg =
     (if \<not> el_bMaster (kd_element d) then knx_bind mv ds lg
      else if mv_desc mv lg (el_pPrimaryKey (kd_element d)) = None
      then knx_bind mv ds (dev_bind DEV_TP_KNX (kd_element d) lg)
      else knx_bind mv ds lg)"

definition Knx_DevBind :: "menv \<Rightarrow> dev_list cptr \<Rightarrow> bool \<Rightarrow> elog \<Rightarrow> int \<times> elog" where
  "Knx_DevBind mv lst permit lg =
     (case lst of NULL \<Rightarrow> (- 1, lg) | Ptr ds \<Rightarrow> if \<not> permit then (0, lg) else (0, knx_bind mv ds lg))"

text \<open>The inputs and outputs share a list; an entry is seen as the element at its head.\<close>

definition is_di :: "DeviceElement \<Rightarrow> bool" where
  "is_di el \<longleftrightarrow> take 2 (el_szName el) = ''DI''"

fun dio_bind :: "menv \<Rightarrow> bool \<Rightarrow> DeviceElement cptr list \<Rightarrow> elog \<Rightarrow> elog" where
  "dio_bind mv permit [] lg = lg"
| "dio_bind mv permit (NULL # ds) lg = dio_bind mv permit ds lg"
| "dio_bind mv permit (Ptr el # ds) lg =
     (if \<not> is_di el then dio_bind mv permit ds lg
      else if mv_desc mv lg (el_pPrimaryKey el) = None
      then dio_bind mv permit ds (if permit then dev_bind DEV_TP_USR1 el lg else lg)
      else dio_bind mv permit ds (lg @ [HbCfg (el_pPrimaryKey el) 300 3]))"

definition DIO_DevBind :: "menv \<Rightarrow> DeviceElement cptr list cptr \<Rightarrow> bool \<Rightarrow> elog \<Rightarrow> int \<times> elog" where
  "DIO_DevBind mv lst permit lg = (case lst of NULL \<Rightarrow> (- 1, lg) | Ptr ds \<Rightarrow> (0, dio_bind mv permit ds lg))"

record gw_lists =
  gl_knx :: "dev_list cptr"
  gl_mbus :: "mbus_list cptr"
  gl_dio :: "DeviceElement cptr list cptr"

definition misc_dev_add_cb :: "menv \<Rightarrow> bool \<Rightarrow> gw_lists \<Rightarrow> elog \<Rightarrow> elog" where
  "misc_dev_add_cb mv permit gl lg =
     (if permit then
        let lg = lg @ [StatusLed True];
            (_, lg) = Knx_DevBind mv (gl_knx gl) permit lg;
            (_, lg) = Modbus_DevBind mv (gl_mbus gl) permit lg;
            (_, lg) = DIO_DevBind mv (gl_dio gl) permit lg
        in lg
      else lg @ [StatusLed False])"

subsection \<open>Deleting\<close>

text \<open>The key that is to be unbound is not looked at; every device of the list is.\<close>

fun mbus_unbind :: "menv \<Rightarrow> mbus_list \<Rightarrow> elog \<Rightarrow> elog" where
  "mbus_unbind mv [] lg = lg"
| "mbus_unbind mv (d # ds) lg =
     (if \<not> el_bMaster (md_element d) then mbus_unbind mv ds lg
      else if mv_desc mv lg (el_pPrimaryKey (md_element d)) \<noteq> None
      then mbus_unbind mv ds (dev_unbind (md_element d) lg)
      else mbus_unbind mv ds lg)"

definition Modbus_DevUnbind :: "menv \<Rightarrow> mbus_list cptr \<Rightarrow> string \<Rightarrow> elog \<Rightarrow> int \<times> elog" where
  "Modbus_DevUnbind mv lst pDevId lg = (case lst of NULL \<Rightarrow> (- 1, lg) | Ptr ds \<Rightarrow> (- 1, mbus_unbind mv ds lg))"

fun knx_unbind :: "menv \<Rightarrow> dev_list \<Rightarrow> elog \<Rightarrow> elog" where
  "knx_unbind mv [] lg = lg"
| "knx_unbind mv (NULL # ds) lg = knx_unbind mv ds lg"
| "knx_unbind mv (Ptr d # ds) lg =
     (if mv_desc mv lg (el_pPrimaryKey (kd_element d)) \<noteq> None
      then knx_unbind mv ds (dev_unbind (kd_element d) lg)
      else knx_unbind mv ds lg)"

definition Knx_DevUnbind :: "menv \<Rightarrow> dev_list cptr \<Rightarrow> string \<Rightarrow> elog \<Rightarrow> int \<times> elog" where
  "Knx_DevUnbind mv lst pDevId lg = (case lst of NULL \<Rightarrow> (- 1, lg) | Ptr ds \<Rightarrow> (- 1, knx_unbind mv ds lg))"

fun dio_unbind :: "menv \<Rightarrow> DeviceElement cptr list \<Rightarrow> elog \<Rightarrow> elog" where
  "dio_unbind mv [] lg = lg"
| "dio_unbind mv (NULL # ds) lg = dio_unbind mv ds lg"
| "dio_unbind mv (Ptr el # ds) lg =
     (if \<not> is_di el then dio_unbind mv ds lg
      else if mv_desc mv lg (el_pPrimaryKey el) \<noteq> None
      then dio_unbind mv ds (dev_unbind el lg)
      else dio_unbind mv ds lg)"

definition DIO_DevUnbind :: "menv \<Rightarrow> DeviceElement cptr list cptr \<Rightarrow> string \<Rightarrow> elog \<Rightarrow> int \<times> elog" where
  "DIO_DevUnbind mv lst pDevId lg = (case lst of NULL \<Rightarrow> (- 1, lg) | Ptr ds \<Rightarrow> (- 1, dio_unbind mv ds lg))"

definition misc_dev_del_cb :: "menv \<Rightarrow> string \<Rightarrow> gw_lists \<Rightarrow> elog \<Rightarrow> elog" where
  "misc_dev_del_cb mv dev_id gl lg =
     (case mv_desc mv lg dev_id of
        None \<Rightarrow> lg
      | Some DEV_TP_ZIGBEE \<Rightarrow> lg @ [ZigDel dev_id]
      | Some DEV_TP_KNX \<Rightarrow> snd (Knx_DevUnbind mv (gl_knx gl) dev_id lg)
      | Some DEV_TP_485 \<Rightarrow> snd (Modbus_DevUnbind mv (gl_mbus gl) dev_id lg)
      | Some DEV_TP_USR1 \<Rightarrow> snd (DIO_DevUnbind mv (gl_dio gl) dev_id lg)
      | Some _ \<Rightarrow> lg)"

definition misc_dev_reset_cb :: "menv \<Rightarrow> string \<Rightarrow> elog \<Rightarrow> elog" where
  "misc_dev_reset_cb mv dev_id lg =
     (if mv_desc mv lg dev_id = Some DEV_TP_ZIGBEE then lg @ [ZigDel dev_id] else lg)"

text \<open>
  When the gateway is reset or no longer active, the devices are unbound one after the other;
  an unbinding that fails is tried again at once. \<open>None\<close>: the loop does not end.
\<close>

partial_function (option) unbind_all :: "menv \<Rightarrow> (string \<times> dev_tp) list \<Rightarrow> elog \<Rightarrow> elog option" where
  "unbind_all mv devs lg =
     (case devs of
        [] \<Rightarrow> Some lg
      | (k, tp) # rest \<Rightarrow>
          (let lg = lg @ [CloudUnbind k] in
           if mv_unbind mv lg \<noteq> 0 then unbind_all mv devs lg else unbind_all mv rest lg))"

definition EngineeringMode :: "menv \<Rightarrow> bool \<Rightarrow> int \<times> bool" where
  "EngineeringMode mv file = (if file \<or> \<not> mv_files mv then (- 1, file) else (0, True))"

definition BusinessMode :: "menv \<Rightarrow> bool \<Rightarrow> int \<times> bool" where
  "BusinessMode mv file = (if file \<and> mv_files mv then (0, False) else (- 1, file))"

definition gw_reset_cb :: "menv \<Rightarrow> (string \<times> dev_tp) list \<Rightarrow> bool \<Rightarrow> elog \<Rightarrow> (bool \<times> elog) option" where
  "gw_reset_cb mv devs file lg = do {
     lg \<leftarrow> unbind_all mv devs lg;
     Some (snd (BusinessMode mv file), lg @ [GwReset]) }"

definition gw_reboot_cb :: "elog \<Rightarrow> elog" where
  "gw_reboot_cb lg = lg @ [StatusLed False, GwReboot]"

subsection \<open>Commands of the cloud\<close>

record KnxScene =
  sc_remap :: int
  sc_addr :: string
  sc_value :: u8

definition KnxSceneIdMatch :: "int \<Rightarrow> KnxScene cptr \<Rightarrow> bool" where
  "KnxSceneIdMatch v p = (case p of NULL \<Rightarrow> False | Ptr s \<Rightarrow> sc_remap s = v)"

text \<open>A data point of the gateway itself; the first component tells whether the callback returns.\<close>

definition gateway_dp :: "menv \<Rightarrow> KnxScene cptr list \<Rightarrow> ty_obj_dp \<Rightarrow> elog \<Rightarrow> (bool \<times> elog) exec" where
  "gateway_dp mv scenes dp lg =
     (if dpid dp = 34 then Some (False, lg @ [GwReset])
      else if dpid dp = 101 then
        (case List.find (KnxSceneIdMatch (dp_value dp)) scenes of
           Some (Ptr s) \<Rightarrow> do {
             (_, lg) \<leftarrow> Knx_Write1Byte (mv_env mv) (sc_addr s) (sc_value s) lg;
             Some (False, lg) }
         | _ \<Rightarrow> Some (True, lg))
      else Some (False, lg))"

text \<open>\<open>z3\<close> holds the keys of the Zigbee devices in \<open>pZ3List\<close>.\<close>

definition device_dp ::
  "menv \<Rightarrow> string list \<Rightarrow> string \<Rightarrow> ty_obj_dp \<Rightarrow> mbus_list \<Rightarrow> elog \<Rightarrow> (bool \<times> mbus_list \<times> elog) exec" where
  "device_dp mv z3 cid dp ds lg =
     (case mv_desc mv lg cid of
        None \<Rightarrow> Some (True, ds, lg)
      | Some tp \<Rightarrow>
          let lg = snd (cloud_report (mv_env mv) cid dp lg) in
          (case tp of
             DEV_TP_ZIGBEE \<Rightarrow> if cid \<in> set z3 then None else Some (True, ds, lg)
           | DEV_TP_485 \<Rightarrow> do {
               ((_, lg), ds) \<leftarrow> ModbusDevWrite (mv_env mv) (Ptr cid) (Ptr dp) ds lg;
               Some (False, ds, lg) }
           | DEV_TP_KNX \<Rightarrow> Some (False, ds, lg @ [KnxSync cid dp])
           | _ \<Rightarrow> Some (False, ds, lg)))"

fun dev_obj_cmd_cb ::
  "menv \<Rightarrow> KnxScene cptr list \<Rightarrow> string list \<Rightarrow> string cptr \<Rightarrow> ty_obj_dp list \<Rightarrow> mbus_list \<Rightarrow> elog
   \<Rightarrow> (int \<times> mbus_list \<times> elog) exec" where
  "dev_obj_cmd_cb mv scenes z3 cid [] ds lg = Some (0, ds, lg)"
| "dev_obj_cmd_cb mv scenes z3 NULL (dp # dps) ds lg = do {
     (fin, lg) \<leftarrow> gateway_dp mv scenes dp lg;
     if fin then Some (- 1, ds, lg) else dev_obj_cmd_cb mv scenes z3 NULL dps ds lg }"
| "dev_obj_cmd_cb mv scenes z3 (Ptr cid) (dp # dps) ds lg = do {
     (fin, ds, lg) \<leftarrow> device_dp mv z3 cid dp ds lg;
     if fin then Some (- 1, ds, lg) else dev_obj_cmd_cb mv scenes z3 (Ptr cid) dps ds lg }"

subsection \<open>Bindings confirmed by the cloud\<close>

text \<open>
  \<open>ModbusDevIdMatch\<close> compares a number, but here it is given a text: the number it sees is the
  first four bytes of the text, little-endian.
\<close>

definition text_u32 :: "string \<Rightarrow> u32 exec" where
  "text_u32 s =
     (let bs = map of_char s @ [0 :: u32] in
      if length bs < 4 then None
      else Some (bs ! 0 OR push_bit 8 (bs ! 1) OR push_bit 16 (bs ! 2) OR push_bit 24 (bs ! 3)))"

definition search_mbus_text :: "string \<Rightarrow> mbus_list \<Rightarrow> mbus_dev option exec" where
  "search_mbus_text key ds =
     (if ds = [] then Some None
      else do { n \<leftarrow> text_u32 key; Some (List.find (\<lambda>d. ModbusDevIdMatch d n) ds) })"

definition hb_cfg_fresh :: "menv \<Rightarrow> string \<Rightarrow> dev_tp \<Rightarrow> elog \<Rightarrow> elog" where
  "hb_cfg_fresh mv key tp lg =
     (let lg = lg @ [HbCfg key 300 6] in
      if mv_hbcfg mv lg \<noteq> 0 then lg
      else (case hb_fresh (mv_env mv) key lg of
              (r, lg) \<Rightarrow> if r = 0 \<and> tp = DEV_TP_ZIGBEE then lg @ [ZigSend key] else lg))"

text \<open>Whether a list has a device with the key that is not checked online.\<close>

definition knx_unchecked :: "string \<Rightarrow> dev_list \<Rightarrow> bool" where
  "knx_unchecked key ds =
     (case List.find (\<lambda>p. KnxDevIdMatch p key) ds of Some (Ptr d) \<Rightarrow> \<not> kb_bOnlineCheck (kd_base d) | _ \<Rightarrow> False)"

definition mbus_unchecked :: "string \<Rightarrow> mbus_list \<Rightarrow> bool exec" where
  "mbus_unchecked key ds = do {
     r \<leftarrow> search_mbus_text key ds;
     Some (case r of Some d \<Rightarrow> \<not> mb_bOnlineCheck (md_base d) | None \<Rightarrow> False) }"

definition misc_dev_bind_ifm_cb ::
  "menv \<Rightarrow> string \<Rightarrow> int \<Rightarrow> dev_list \<Rightarrow> mbus_list \<Rightarrow> elog \<Rightarrow> elog exec" where
  "misc_dev_bind_ifm_cb mv dev_id result kds mds lg =
     (if result \<noteq> 0 then Some lg
      else
        (case mv_desc mv lg dev_id of
           None \<Rightarrow> Some lg
         | Some tp \<Rightarrow>
             let lg = lg @ [BindPos dev_id] in
             if knx_unchecked dev_id kds then Some lg
             else do {
               b \<leftarrow> mbus_unchecked dev_id mds;
               if b then Some lg else Some (hb_cfg_fresh mv dev_id tp lg) }))"

definition misc_heartbeat_cfg :: "(string \<times> dev_tp) list \<Rightarrow> elog \<Rightarrow> elog" where
  "misc_heartbeat_cfg devs lg = lg @ map (\<lambda>(k, _). HbCfg k 300 6) (filter (\<lambda>(_, tp). tp \<noteq> DEV_TP_ZIGBEE) devs)"

text \<open>The keys that are put into \<open>pPosQueue\<close> come back with the log.\<close>

definition gw_active_status_changed_cb ::
  "menv \<Rightarrow> bool \<Rightarrow> (string \<times> dev_tp) list \<Rightarrow> elog \<Rightarrow> (int list \<times> elog) option" where
  "gw_active_status_changed_cb mv registered devs lg =
     (if registered then Some ([1], lg) else map_option (Pair []) (unbind_all mv devs lg))"

definition gw_online_status_changed_cb :: "bool \<Rightarrow> elog \<Rightarrow> int list \<times> bool \<times> elog" where
  "gw_online_status_changed_cb online lg = (if online then [0] else [], online, lg @ [StatusLed online])"

subsection \<open>Heartbeats\<close>

record hb_state =
  hs_knx_bFirst :: bool
  hs_knx_cnt :: u32
  hs_mbus_bFirst :: bool
  hs_mbus_cnt :: u32

definition hb_init :: hb_state where
  "hb_init = \<lparr>hs_knx_bFirst = False, hs_knx_cnt = 0, hs_mbus_bFirst = False, hs_mbus_cnt = 0\<rparr>"

definition Knx_SyncDevStatus :: "elog \<Rightarrow> elog" where
  "Knx_SyncDevStatus lg = lg @ [AddJob ''KNX_DevStateSync'' (Ptr ''pHeartbeatQueue'')]"

definition Mbus_SyncDevStatus :: "elog \<Rightarrow> elog" where
  "Mbus_SyncDevStatus lg = lg @ [AddJob ''Mbus_SyncAllDevStatus'' NULL]"

definition Mbus_RequestHB :: "string \<Rightarrow> elog \<Rightarrow> elog" where
  "Mbus_RequestHB key lg = lg @ [AddJob ''Modbus_DevHealth'' (Ptr key)]"

text \<open>The last component are the groups that \<open>Knx_RequestHB\<close> puts into the heartbeat queue.\<close>

definition misc_dev_hb_cb ::
  "menv \<Rightarrow> string list \<Rightarrow> string \<Rightarrow> hb_state \<Rightarrow> dev_list \<Rightarrow> elog \<Rightarrow> (hb_state \<times> dev_list \<times> elog \<times> string list) exec" where
  "misc_dev_hb_cb mv z3 dev_id st ds lg =
     (case mv_desc mv lg dev_id of
        None \<Rightarrow> Some (st, ds, lg, [])
      | Some DEV_TP_ZIGBEE \<Rightarrow> if dev_id \<in> set z3 then None else Some (st, ds, lg, [])
      | Some DEV_TP_KNX \<Rightarrow>
          if \<not> hs_knx_bFirst st then
            let c = hs_knx_cnt st + 1 in
            Some (st\<lparr>hs_knx_cnt := c, hs_knx_bFirst := (2 \<le> c)\<rparr>, ds, Knx_SyncDevStatus lg, [])
          else do {
            (_, ds, lg, gs) \<leftarrow> Knx_RequestHB (mv_env mv) (Ptr dev_id) ds lg;
            Some (st, ds, lg, gs) }
      | Some DEV_TP_485 \<Rightarrow>
          if \<not> hs_mbus_bFirst st then
            let c = hs_mbus_cnt st + 1 in
            Some (st\<lparr>hs_mbus_cnt := c, hs_mbus_bFirst := (1 \<le> c)\<rparr>, ds, Mbus_SyncDevStatus lg, [])
          else Some (st, ds, Mbus_RequestHB dev_id lg, [])
      | Some DEV_TP_USR1 \<Rightarrow> Some (st, ds, snd (hb_fresh (mv_env mv) dev_id lg), [])
      | Some _ \<Rightarrow> Some (st, ds, lg, []))"

fun hb_run :: "menv \<Rightarrow> string list \<Rightarrow> string list \<Rightarrow> hb_state \<Rightarrow> dev_list \<Rightarrow> elog \<Rightarrow> (hb_state \<times> dev_list \<times> elog) exec" where
  "hb_run mv z3 [] st ds lg = Some (st, ds, lg)"
| "hb_run mv z3 (k # ks) st ds lg = do {
     (st, ds, lg, _) \<leftarrow> misc_dev_hb_cb mv z3 k st ds lg;
     hb_run mv z3 ks st ds lg }"

subsection \<open>The key of the gateway\<close>

record input_event =
  ie_type :: u16
  ie_code :: u16
  ie_value :: int

record key_state =
  ks_press :: int
  ks_release :: int
  ks_file :: bool

definition toggle_mode :: "menv \<Rightarrow> bool \<Rightarrow> bool" where
  "toggle_mode mv file =
     (let (ret, file) = EngineeringMode mv file in if ret \<noteq> 0 then snd (BusinessMode mv file) else file)"

definition key_released :: "menv \<Rightarrow> key_state \<Rightarrow> elog \<Rightarrow> (key_state \<times> elog) exec" where
  "key_released mv st lg =
     (if 250 < ks_press st then Some (st\<lparr>ks_press := 0\<rparr>, lg @ [GwReset])
      else do {
        r \<leftarrow> c_int (ks_release st + 1);
        if r = 5 then Some (st\<lparr>ks_press := 0, ks_release := r, ks_file := toggle_mode mv (ks_file st)\<rparr>, gw_reboot_cb lg)
        else Some (st\<lparr>ks_press := 0, ks_release := r\<rparr>, lg) })"

text \<open>One event read from the device; \<open>NULL\<close> when \<open>read\<close> returns none.\<close>

definition key_event :: "menv \<Rightarrow> input_event cptr \<Rightarrow> key_state \<Rightarrow> elog \<Rightarrow> (key_state \<times> elog) exec" where
  "key_event mv p st lg =
     (case p of
        NULL \<Rightarrow> Some (st, lg)
      | Ptr e \<Rightarrow>
          if ie_type e = 1 \<and> ie_code e < 0x100 \<and> ie_code e = 171 then
            if 1 \<le> ie_value e then do {
              n \<leftarrow> c_int (ks_press st + 1);
              Some (st\<lparr>ks_press := n\<rparr>, if n = 250 then lg @ [StatusLed True] else lg) }
            else if ie_value e = 0 then key_released mv st lg
            else Some (st, lg)
          else Some (st, lg))"

fun key_scan :: "menv \<Rightarrow> input_event cptr list \<Rightarrow> key_state \<Rightarrow> elog \<Rightarrow> (key_state \<times> elog) exec" where
  "key_scan mv [] st lg = Some (st, lg)"
| "key_scan mv (e # es) st lg = do { (st, lg) \<leftarrow> key_event mv e st lg; key_scan mv es st lg }"

subsection \<open>Reports of positions\<close>

definition report_modes :: "string \<Rightarrow> KnxSmartPanelPoint list \<Rightarrow> elog" where
  "report_modes key chs =
     map (\<lambda>c. CloudReport key \<lparr>dpid = ucast (kp_id (sp_mode c)), dp_type = PROP_ENUM, dp_raw = ucast (pv_u8 (sp_mode c))\<rparr>) chs"

text \<open>The text reported is that from the thirteenth character of the key on.\<close>

definition report_pos :: "dev_list \<Rightarrow> string \<Rightarrow> elog \<Rightarrow> elog exec" where
  "report_pos ds key lg =
     (if length key < 13 then None
      else
        let lg = lg @ [PosReport (Ptr key) (drop 13 key)] in
        (case List.find (\<lambda>p. KnxDevIdMatch p key) ds of
           Some (Ptr d) \<Rightarrow>
             if in_types KNX_MISC_PANEL_ONE_KEY KNX_MISC_PANEL_FOUR_KEY d then do {
               chs \<leftarrow> as_smart (kd_body d);
               Some (lg @ report_modes (el_pPrimaryKey (kd_element d)) chs) }
             else Some lg
         | _ \<Rightarrow> Some lg))"

fun report_all_pos :: "dev_list \<Rightarrow> (string \<times> dev_tp) list \<Rightarrow> elog \<Rightarrow> elog exec" where
  "report_all_pos ds [] lg = Some lg"
| "report_all_pos ds ((key, _) # devs) lg = do {
     lg \<leftarrow> report_pos ds key lg;
     report_all_pos ds devs lg }"

text \<open>One round of each thread; the queue gave \<open>ret\<close>. The position of the gateway is sent twice.\<close>

definition ReportPosThread_round :: "dev_list \<Rightarrow> (string \<times> dev_tp) list \<Rightarrow> int \<Rightarrow> elog \<Rightarrow> elog exec" where
  "ReportPosThread_round ds devs ret lg =
     (if ret \<noteq> 0 then Some lg
      else report_all_pos ds devs (lg @ [PosReport NULL ''0'', PosReport NULL ''0'']))"

definition ReportBindPosThread_round :: "dev_list \<Rightarrow> string \<Rightarrow> int \<Rightarrow> elog \<Rightarrow> elog exec" where
  "ReportBindPosThread_round ds key ret lg = (if ret \<noteq> 0 then Some lg else report_pos ds key lg)"

subsection \<open>Links between Modbus and KNX devices\<close>

text \<open>
  A link \<open>pvForeignKey\<close> is the address of the other device; it is represented by the key of that
  device, which is what the handlers read through it. The list entry that is linked is the
  first that matches.
\<close>

definition link_knx :: "string cptr \<Rightarrow> knx_dev \<Rightarrow> knx_dev" where
  "link_knx v d = d\<lparr>kd_base := (kd_base d)\<lparr>kb_element := (kd_element d)\<lparr>el_pvForeignKey := v\<rparr>\<rparr>\<rparr>"

definition link_mbus :: "string cptr \<Rightarrow> mbus_dev \<Rightarrow> mbus_dev" where
  "link_mbus v d = d\<lparr>md_base := (md_base d)\<lparr>mb_element := (md_element d)\<lparr>el_pvForeignKey := v\<rparr>\<rparr>\<rparr>"

fun link_first_knx :: "string \<Rightarrow> string \<Rightarrow> dev_list \<Rightarrow> dev_list option" where
  "link_first_knx fk key [] = None"
| "link_first_knx fk key (NULL # ks) = map_option (\<lambda>ks. NULL # ks) (link_first_knx fk key ks)"
| "link_first_knx fk key (Ptr k # ks) =
     (if KnxDevIdMatch (Ptr k) fk then Some (Ptr (link_knx (Ptr key) k) # ks)
      else map_option (\<lambda>ks. Ptr k # ks) (link_first_knx fk key ks))"

fun associateModbusDev :: "mbus_list \<Rightarrow> dev_list \<Rightarrow> mbus_list \<times> dev_list" where
  "associateModbusDev [] ks = ([], ks)"
| "associateModbusDev (d # ds) ks =
     (let (d, ks) =
        (if \<not> el_bMaster (md_element d) then (d, ks)
         else
           (case el_pForeignKey (md_element d) of
              NULL \<Rightarrow> (d, ks)
            | Ptr fk \<Rightarrow>
                (case link_first_knx fk (el_pPrimaryKey (md_element d)) ks of
                   None \<Rightarrow> (d, ks)
                 | Some ks \<Rightarrow> (link_mbus (Ptr fk) d, ks))));
          (ds, ks) = associateModbusDev ds ks
      in (d # ds, ks))"

fun link_first_mbus :: "u32 \<Rightarrow> string \<Rightarrow> mbus_list \<Rightarrow> (string \<times> mbus_list) option" where
  "link_first_mbus n key [] = None"
| "link_first_mbus n key (d # ds) =
     (if ModbusDevIdMatch d n then Some (el_pPrimaryKey (md_element d), link_mbus (Ptr key) d # ds)
      else map_option (\<lambda>(k, ds). (k, d # ds)) (link_first_mbus n key ds))"

fun associateKnxDev :: "dev_list \<Rightarrow> mbus_list \<Rightarrow> (dev_list \<times> mbus_list) exec" where
  "associateKnxDev [] ds = Some ([], ds)"
| "associateKnxDev (NULL # ks) ds = do { (ks, ds) \<leftarrow> associateKnxDev ks ds; Some (NULL # ks, ds) }"
| "associateKnxDev (Ptr k # ks) ds = do {
     (k, ds) \<leftarrow>
       (if \<not> el_bMaster (kd_element k) \<or> el_primaryType (kd_element k) \<noteq> device_code KNX_DEVICE_VENTILATION
        then Some (k, ds)
        else
          (case el_pForeignKey (kd_element k) of
             NULL \<Rightarrow> Some (k, ds)
           | Ptr fk \<Rightarrow>
               if ds = [] then Some (k, ds)
               else do {
                 n \<leftarrow> text_u32 fk;
                 Some (case link_first_mbus n (el_pPrimaryKey (kd_element k)) ds of
                         None \<Rightarrow> (k, ds)
                       | Some (mk, ds) \<Rightarrow> (link_knx (Ptr mk) k, ds)) }));
     (ks, ds) \<leftarrow> associateKnxDev ks ds;
     Some (Ptr k # ks, ds) }"

subsection \<open>Walks over the device lists\<close>

text \<open>
  Binding and unbinding walk over a list and do something for the entries they want, which
  changes what the cloud knows of that one key. The effect of the whole walk follows once for
  all six loops.
\<close>

definition accepting :: "menv \<Rightarrow> bool" where
  "accepting mv \<longleftrightarrow> (\<forall>lg tp k p. ev_bind (mv_env mv) (lg @ [CloudBind tp k p]) = 0) \<and>
     (\<forall>lg k. mv_unbind mv (lg @ [CloudUnbind k]) = 0)"

definition keys_of :: "('d \<Rightarrow> DeviceElement option) \<Rightarrow> 'd list \<Rightarrow> string set" where
  "keys_of wanted ds = set (map el_pPrimaryKey (List.map_filter wanted ds))"

lemma keys_of_simps [simp]:
  "keys_of wanted [] = {}"
  "keys_of wanted (d # ds) =
     (case wanted d of None \<Rightarrow> keys_of wanted ds | Some el \<Rightarrow> insert (el_pPrimaryKey el) (keys_of wanted ds))"
  by (auto simp: keys_of_def map_filter_simps split: option.splits)

locale device_walk =
  fixes mv :: menv
    and change :: "dev_tp option \<Rightarrow> dev_tp option"
    and wanted :: "'d \<Rightarrow> DeviceElement option"
    and act :: "DeviceElement \<Rightarrow> elog \<Rightarrow> elog"
    and walk :: "'d list \<Rightarrow> elog \<Rightarrow> elog"
  assumes walk_Nil: "walk [] lg = lg"
    and walk_Cons: "walk (d # ds) lg = walk ds (case wanted d of None \<Rightarrow> lg | Some el \<Rightarrow> act el lg)"
    and act_law: "registry mv \<Longrightarrow> accepting mv \<Longrightarrow>
      mv_desc mv (act el lg) = (mv_desc mv lg)(el_pPrimaryKey el := change (mv_desc mv lg (el_pPrimaryKey el)))"
    and change_twice: "change (change x) = change x"
begin

lemma walk_desc:
  assumes "registry mv" and "accepting mv"
  shows "mv_desc mv (walk ds lg) k = (if k \<in> keys_of wanted ds then change (mv_desc mv lg k) else mv_desc mv lg k)"
proof (induction ds arbitrary: lg)
  case (Cons d ds)
  then show ?case by (cases "wanted d") (simp_all add: walk_Cons act_law [OF assms] change_twice)
qed (simp add: walk_Nil)

end

definition bound_as :: "dev_tp \<Rightarrow> dev_tp option \<Rightarrow> dev_tp option" where
  "bound_as tp x = (case x of None \<Rightarrow> Some tp | Some t \<Rightarrow> Some t)"

lemma bound_as_simps [simp]: "bound_as tp None = Some tp" "bound_as tp (Some t) = Some t"
  by (simp_all add: bound_as_def)

definition knx_wanted :: "knx_dev cptr \<Rightarrow> DeviceElement option" where
  "knx_wanted p = (case p of NULL \<Rightarrow> None | Ptr d \<Rightarrow> if el_bMaster (kd_element d) then Some (kd_element d) else None)"

definition knx_any :: "knx_dev cptr \<Rightarrow> DeviceElement option" where
  "knx_any p = (case p of NULL \<Rightarrow> None | Ptr d \<Rightarrow> Some (kd_element d))"

definition mbus_wanted :: "mbus_dev \<Rightarrow> DeviceElement option" where
  "mbus_wanted d = (if el_bMaster (md_element d) \<and> \<not> mb_bGroupMember (md_base d) then Some (md_element d) else None)"

definition mbus_master :: "mbus_dev \<Rightarrow> DeviceElement option" where
  "mbus_master d = (if el_bMaster (md_element d) then Some (md_element d) else None)"

definition di_wanted :: "DeviceElement cptr \<Rightarrow> DeviceElement option" where
  "di_wanted p = (case p of NULL \<Rightarrow> None | Ptr el \<Rightarrow> if is_di el then Some el else None)"

definition bind_unless :: "menv \<Rightarrow> dev_tp \<Rightarrow> (string \<Rightarrow> elog) \<Rightarrow> DeviceElement \<Rightarrow> elog \<Rightarrow> elog" where
  "bind_unless mv tp known el lg =
     (if mv_desc mv lg (el_pPrimaryKey el) = None then dev_bind tp el lg else lg @ known (el_pPrimaryKey el))"

definition unbind_if :: "menv \<Rightarrow> DeviceElement \<Rightarrow> elog \<Rightarrow> elog" where
  "unbind_if mv el lg = (if mv_desc mv lg (el_pPrimaryKey el) \<noteq> None then dev_unbind el lg else lg)"

lemma bind_unless_law:
  assumes "registry mv" and "accepting mv" and "\<And>k lg. mv_desc mv (lg @ known k) = mv_desc mv lg"
  shows "mv_desc mv (bind_unless mv tp known el lg) =
    (mv_desc mv lg)(el_pPrimaryKey el := bound_as tp (mv_desc mv lg (el_pPrimaryKey el)))"
  using assms by (auto simp: bind_unless_def dev_bind_def registry_def accepting_def)

lemma unbind_if_law:
  assumes "registry mv" and "accepting mv"
  shows "mv_desc mv (unbind_if mv el lg) = (mv_desc mv lg)(el_pPrimaryKey el := None)"
  using assms by (auto simp: unbind_if_def dev_unbind_def registry_def accepting_def)

lemma registry_hbcfg: "registry mv \<Longrightarrow> mv_desc mv (lg @ [HbCfg k m n]) = mv_desc mv lg"
  and registry_led: "registry mv \<Longrightarrow> mv_desc mv (lg @ [StatusLed b]) = mv_desc mv lg"
  by (auto simp: registry_def)

lemmas walk_defs = knx_wanted_def knx_any_def mbus_wanted_def mbus_master_def di_wanted_def bind_unless_def unbind_if_def

interpretation knx_binds: device_walk mv "bound_as DEV_TP_KNX" knx_wanted "bind_unless mv DEV_TP_KNX (\<lambda>_. [])" "knx_bind mv" for mv
proof
  show "knx_bind mv (d # ds) lg = knx_bind mv ds (case knx_wanted d of None \<Rightarrow> lg | Some el \<Rightarrow> bind_unless mv DEV_TP_KNX (\<lambda>_. []) el lg)"
    for d ds lg by (cases d) (simp_all add: walk_defs)
qed (simp_all add: bind_unless_law bound_as_def split: option.splits)

interpretation mbus_binds: device_walk mv "bound_as DEV_TP_485" mbus_wanted "bind_unless mv DEV_TP_485 (\<lambda>_. [])" "mbus_bind mv True" for mv
  by unfold_locales (simp_all add: bind_unless_law, simp_all add: walk_defs bound_as_def split: option.splits)

interpretation dio_binds: device_walk mv "bound_as DEV_TP_USR1" di_wanted "bind_unless mv DEV_TP_USR1 (\<lambda>k. [HbCfg k 300 3])" "dio_bind mv True" for mv
proof
  show "dio_bind mv True (d # ds) lg =
      dio_bind mv True ds (case di_wanted d of None \<Rightarrow> lg | Some el \<Rightarrow> bind_unless mv DEV_TP_USR1 (\<lambda>k. [HbCfg k 300 3]) el lg)"
    for d ds lg by (cases d) (simp_all add: walk_defs)
qed (simp_all add: bind_unless_law registry_hbcfg bound_as_def split: option.splits)

interpretation knx_unbinds: device_walk mv "\<lambda>_. None" knx_any "unbind_if mv" "knx_unbind mv" for mv
proof
  show "knx_unbind mv (d # ds) lg = knx_unbind mv ds (case knx_any d of None \<Rightarrow> lg | Some el \<Rightarrow> unbind_if mv el lg)"
    for d ds lg by (cases d) (simp_all add: walk_defs)
qed (simp_all add: unbind_if_law)

interpretation mbus_unbinds: device_walk mv "\<lambda>_. None" mbus_master "unbind_if mv" "mbus_unbind mv" for mv
  by unfold_locales (simp_all add: unbind_if_law, simp_all add: walk_defs)

interpretation dio_unbinds: device_walk mv "\<lambda>_. None" di_wanted "unbind_if mv" "dio_unbind mv" for mv
proof
  show "dio_unbind mv (d # ds) lg = dio_unbind mv ds (case di_wanted d of None \<Rightarrow> lg | Some el \<Rightarrow> unbind_if mv el lg)"
    for d ds lg by (cases d) (simp_all add: walk_defs)
qed (simp_all add: unbind_if_law)

subsection \<open>What the cloud knows after binding and deleting\<close>

text \<open>
  Claim C15. When the cloud permits to add devices and accepts the bindings, it knows exactly
  the devices it knew before and every KNX master, every Modbus master outside a group and
  every digital input of the configuration, each with its type.
\<close>

theorem devices_bound:
  assumes "registry mv" and "accepting mv" and "gl = \<lparr>gl_knx = Ptr ks, gl_mbus = Ptr ms, gl_dio = Ptr ds\<rparr>"
  shows "mv_desc mv (misc_dev_add_cb mv True gl lg) k =
    (case mv_desc mv lg k of
       Some tp \<Rightarrow> Some tp
     | None \<Rightarrow>
         if k \<in> keys_of knx_wanted ks then Some DEV_TP_KNX
         else if k \<in> keys_of mbus_wanted ms then Some DEV_TP_485
         else if k \<in> keys_of di_wanted ds then Some DEV_TP_USR1 else None)"
proof -
  have "misc_dev_add_cb mv True gl lg = dio_bind mv True ds (mbus_bind mv True ms (knx_bind mv ks (lg @ [StatusLed True])))"
    by (simp add: misc_dev_add_cb_def assms(3) Knx_DevBind_def Modbus_DevBind_def DIO_DevBind_def)
  then show ?thesis
    by (simp add: knx_binds.walk_desc [OF assms(1,2)] mbus_binds.walk_desc [OF assms(1,2)]
        dio_binds.walk_desc [OF assms(1,2)] registry_led [OF assms(1)] split: option.splits)
qed

text \<open>
  Deleting one device of a kind in the cloud unbinds every device of that kind: all
  KNX devices, all Modbus masters, or all digital inputs, and no device of another list.
\<close>

lemma deletion_unbinds_kind:
  assumes "registry mv" and "accepting mv" and "gl = \<lparr>gl_knx = Ptr ks, gl_mbus = Ptr ms, gl_dio = Ptr ds\<rparr>"
    and "mv_desc mv lg dev_id = Some tp" and "tp \<noteq> DEV_TP_ZIGBEE"
  shows "mv_desc mv (misc_dev_del_cb mv dev_id gl lg) k =
    (if tp = DEV_TP_KNX \<and> k \<in> keys_of knx_any ks \<or> tp = DEV_TP_485 \<and> k \<in> keys_of mbus_master ms
        \<or> tp = DEV_TP_USR1 \<and> k \<in> keys_of di_wanted ds
     then None else mv_desc mv lg k)"
  using assms(5)
  by (cases tp) (simp_all add: misc_dev_del_cb_def assms(3,4) Knx_DevUnbind_def Modbus_DevUnbind_def DIO_DevUnbind_def
      knx_unbinds.walk_desc [OF assms(1,2)] mbus_unbinds.walk_desc [OF assms(1,2)] dio_unbinds.walk_desc [OF assms(1,2)])

text \<open>A cloud that keeps a table of what was bound.\<close>

fun reg_step :: "(string \<Rightarrow> dev_tp option) \<Rightarrow> effect \<Rightarrow> string \<Rightarrow> dev_tp option" where
  "reg_step m (CloudBind tp k _) = m(k \<mapsto> tp)"
| "reg_step m (CloudUnbind k) = m(k := None)"
| "reg_step m _ = m"

definition ex_menv :: menv where
  "ex_menv = \<lparr>mv_env = ex_env, mv_desc = foldl reg_step Map.empty, mv_unbind = (\<lambda>_. 0), mv_hbcfg = (\<lambda>_. 0), mv_files = True\<rparr>"

lemma ex_menv_laws: "registry ex_menv" "accepting ex_menv"
  by (simp_all add: registry_def accepting_def ex_menv_def ex_env_def)

definition ex_lists :: gw_lists where
  "ex_lists = \<lparr>gl_knx = Ptr [NULL, Ptr ex_acd], gl_mbus = Ptr [ex_mdev], gl_dio = Ptr [Ptr (di_element ex_di)]\<rparr>"

theorem devices_bound_witness:
  "mv_desc ex_menv (misc_dev_add_cb ex_menv True ex_lists []) ''0123456789ab7'' = Some DEV_TP_KNX"
proof -
  have "keys_of knx_wanted [NULL, Ptr ex_acd] = {''0123456789ab7''}" by (simp add: knx_wanted_def ex_acd_def)
  then show ?thesis
    using devices_bound [OF ex_menv_laws, of ex_lists "[NULL, Ptr ex_acd]" "[ex_mdev]" "[Ptr (di_element ex_di)]" "[]" "''0123456789ab7''"]
    by (simp add: ex_lists_def ex_menv_def)
qed

lemma deletion_unbinds_kind_example:
  "mv_desc ex_menv (misc_dev_del_cb ex_menv ''other'' ex_lists
      [CloudBind DEV_TP_KNX ''0123456789ab7'' ''p'', CloudBind DEV_TP_KNX ''other'' ''p'']) ''0123456789ab7'' = None"
proof -
  have "keys_of knx_any [NULL, Ptr ex_acd] = {''0123456789ab7''}" by (simp add: knx_any_def ex_acd_def)
  then show ?thesis
    using deletion_unbinds_kind [OF ex_menv_laws, of ex_lists "[NULL, Ptr ex_acd]" "[ex_mdev]" "[Ptr (di_element ex_di)]"
        "[CloudBind DEV_TP_KNX ''0123456789ab7'' ''p'', CloudBind DEV_TP_KNX ''other'' ''p'']" "''other''" DEV_TP_KNX "''0123456789ab7''"]
    by (simp add: ex_lists_def) (simp add: ex_menv_def)
qed

subsection \<open>Resetting the gateway\<close>

lemma unbind_all_Nil: "unbind_all mv [] lg = Some lg"
  by (subst unbind_all.simps) simp

lemma unbind_all_Cons:
  "unbind_all mv ((k, tp) # devs) lg =
     (if mv_unbind mv (lg @ [CloudUnbind k]) \<noteq> 0 then unbind_all mv ((k, tp) # devs) (lg @ [CloudUnbind k])
      else unbind_all mv devs (lg @ [CloudUnbind k]))"
  by (subst unbind_all.simps) (simp add: Let_def)

lemma unbind_one:
  assumes "mv_unbind mv (lg @ replicate (Suc j) (CloudUnbind k)) = 0"
  shows "\<exists>n. unbind_all mv ((k, tp) # devs) lg = unbind_all mv devs (lg @ replicate (Suc n) (CloudUnbind k))"
  using assms
proof (induction j arbitrary: lg)
  case 0
  then show ?case by (intro exI [of _ 0]) (simp add: unbind_all_Cons)
next
  case (Suc j)
  show ?case
  proof (cases "mv_unbind mv (lg @ [CloudUnbind k]) = 0")
    case True
    then show ?thesis by (intro exI [of _ 0]) (simp add: unbind_all_Cons)
  next
    case False
    have "mv_unbind mv ((lg @ [CloudUnbind k]) @ replicate (Suc j) (CloudUnbind k)) = 0" using Suc.prems by simp
    from Suc.IH [OF this] obtain n where
      "unbind_all mv ((k, tp) # devs) (lg @ [CloudUnbind k]) =
        unbind_all mv devs ((lg @ [CloudUnbind k]) @ replicate (Suc n) (CloudUnbind k))" by blast
    with False show ?thesis by (intro exI [of _ "Suc n"]) (subst unbind_all_Cons, simp)
  qed
qed

text \<open>The attempts for a list of devices, the number of repetitions of each given.\<close>

fun attempts :: "nat list \<Rightarrow> (string \<times> dev_tp) list \<Rightarrow> elog" where
  "attempts (n # ns) ((k, tp) # devs) = replicate (Suc n) (CloudUnbind k) @ attempts ns devs"
| "attempts _ _ = []"

lemma unbind_all_returns:
  assumes "\<And>lg k. \<exists>j. mv_unbind mv (lg @ replicate (Suc j) (CloudUnbind k)) = 0"
  shows "\<exists>ns. length ns = length devs \<and> unbind_all mv devs lg = Some (lg @ attempts ns devs)"
proof (induction devs arbitrary: lg)
  case Nil
  then show ?case by (simp add: unbind_all_Nil)
next
  case (Cons d devs)
  obtain k tp where d: "d = (k, tp)" by (cases d)
  obtain n where n: "unbind_all mv (d # devs) lg = unbind_all mv devs (lg @ replicate (Suc n) (CloudUnbind k))"
    using assms [of lg k] unbind_one [of mv lg _ k tp devs] d by blast
  obtain ns where "length ns = length devs"
    "unbind_all mv devs (lg @ replicate (Suc n) (CloudUnbind k)) = Some ((lg @ replicate (Suc n) (CloudUnbind k)) @ attempts ns devs)"
    using Cons.IH by blast
  with n d show ?case by (intro exI [of _ "n # ns"]) simp
qed



text \<open>When the cloud keeps refusing a device, the callback does not return.\<close>

lemma unbind_refused_hangs:
  assumes "\<And>lg. mv_unbind mv lg \<noteq> 0" and "devs \<noteq> []"
  shows "unbind_all mv devs lg = None"
proof (rule ccontr)
  assume "unbind_all mv devs lg \<noteq> None"
  then obtain r where "unbind_all mv devs lg = Some r" by blast
  moreover have "mv' = mv \<longrightarrow> devs' \<noteq> [] \<longrightarrow> False" if "unbind_all mv' devs' lg' = Some r'" for mv' devs' lg' r'
    using that
  proof (rule unbind_all.raw_induct [rotated])
    fix f mv' devs' lg' r'
    assume IH: "\<And>a b c y. f a b c = Some y \<Longrightarrow> a = mv \<longrightarrow> b \<noteq> [] \<longrightarrow> False"
      and eq: "(case devs' of [] \<Rightarrow> Some lg'
        | (k, tp) # rest \<Rightarrow> let lg = lg' @ [CloudUnbind k] in if mv_unbind mv' lg \<noteq> 0 then f mv' devs' lg else f mv' rest lg) = Some r'"
    show "mv' = mv \<longrightarrow> devs' \<noteq> [] \<longrightarrow> False"
    proof (intro impI)
      assume "mv' = mv" and "devs' \<noteq> []"
      with eq assms(1) obtain k where "f mv devs' (lg' @ [CloudUnbind k]) = Some r'"
        by (auto simp: Let_def split: list.splits prod.splits)
      from IH [OF this] \<open>devs' \<noteq> []\<close> show False by blast
    qed
  qed
  ultimately show False using assms(2) by blast
qed

subsection \<open>The key\<close>

text \<open>A press of the key as the input device repeats it: \<open>n\<close> events and the release.\<close>

definition key_down :: "input_event cptr" where
  "key_down = Ptr \<lparr>ie_type = 1, ie_code = 171, ie_value = 1\<rparr>"

definition key_up :: "input_event cptr" where
  "key_up = Ptr \<lparr>ie_type = 1, ie_code = 171, ie_value = 0\<rparr>"

definition press_of :: "nat \<Rightarrow> input_event cptr list" where
  "press_of n = replicate n key_down @ [key_up]"

lemma key_scan_append: "key_scan mv (xs @ ys) st lg = do { (st, lg) \<leftarrow> key_scan mv xs st lg; key_scan mv ys st lg }"
  by (induction xs arbitrary: st lg) (auto split: bind_splits)

lemma hold_key:
  assumes "0 \<le> ks_press st" and "ks_press st + int n < 2 ^ 31"
  shows "key_scan mv (replicate n key_down) st lg =
    Some (st\<lparr>ks_press := ks_press st + int n\<rparr>, lg @ (if ks_press st < 250 \<and> 250 \<le> ks_press st + int n then [StatusLed True] else []))"
  using assms
proof (induction n arbitrary: st lg)
  case (Suc n)
  let ?st = "st\<lparr>ks_press := ks_press st + 1\<rparr>"
  have e: "key_event mv key_down st lg = Some (?st, if ks_press st + 1 = 250 then lg @ [StatusLed True] else lg)"
    using Suc.prems by (simp add: key_event_def key_down_def c_int_def)
  show ?case using Suc.IH [of ?st] Suc.prems by (auto simp: e algebra_simps)
qed simp

lemma toggle_mode_eq: "mv_files mv \<Longrightarrow> toggle_mode mv f = (\<not> f)"
  by (simp add: toggle_mode_def EngineeringMode_def BusinessMode_def)

lemma press_key:
  assumes "ks_press st = 0" and "int n < 2 ^ 31" and "0 \<le> ks_release st" and "ks_release st < 2 ^ 31 - 1" and "mv_files mv"
  defines "led \<equiv> if 250 \<le> n then [StatusLed True] else []"
  shows "key_scan mv (press_of n) st lg =
    (if 250 < n then Some (st, lg @ led @ [GwReset])
     else if ks_release st = 4 then Some (st\<lparr>ks_release := 5, ks_file := \<not> ks_file st\<rparr>, lg @ led @ [StatusLed False, GwReboot])
     else Some (st\<lparr>ks_release := ks_release st + 1\<rparr>, lg @ led))"
proof -
  have h: "key_scan mv (replicate n key_down) st lg = Some (st\<lparr>ks_press := int n\<rparr>, lg @ led)"
    using hold_key [of st n mv lg] assms(1,2) by (simp add: led_def)
  have z: "st\<lparr>ks_press := 0\<rparr> = st" using assms(1) by simp
  show ?thesis using assms(3-5) z
    by (simp add: press_of_def key_scan_append h key_event_def key_up_def key_released_def c_int_def gw_reboot_cb_def toggle_mode_eq)
qed

definition short_presses :: "nat list \<Rightarrow> nat" where
  "short_presses ns = length (filter (\<lambda>n. n \<le> 250) ns)"

definition how_often :: "effect \<Rightarrow> elog \<Rightarrow> nat" where
  "how_often e lg = length (filter (\<lambda>x. x = e) lg)"

lemma how_often_simps [simp]:
  "how_often e [] = 0" "how_often e (x # xs) = (if x = e then 1 else 0) + how_often e xs"
  "how_often e (xs @ ys) = how_often e xs + how_often e ys"
  by (simp_all add: how_often_def)

lemma presses_run:
  assumes "ks_press st = 0" and "\<forall>n \<in> set ns. int n < 2 ^ 31" and "0 \<le> ks_release st"
    and "ks_release st + int (length ns) < 2 ^ 31 - 1" and "mv_files mv"
  defines "r \<equiv> ks_release st + int (short_presses ns)"
  shows "\<exists>lg'. key_scan mv (concat (map press_of ns)) st lg =
      Some (st\<lparr>ks_release := r, ks_file := (ks_file st \<noteq> (ks_release st < 5 \<and> 5 \<le> r))\<rparr>, lg @ lg')
    \<and> how_often GwReset lg' = length ns - short_presses ns
    \<and> how_often GwReboot lg' = (if ks_release st < 5 \<and> 5 \<le> r then 1 else 0)"
  using assms(1-4) unfolding r_def
proof (induction ns arbitrary: st lg)
  case Nil
  then show ?case by (simp add: short_presses_def)
next
  case (Cons n ns)
  let ?led = "if 250 \<le> n then [StatusLed True] else []"
  have le: "short_presses ns \<le> length ns" by (simp add: short_presses_def)
  note p = press_key [OF Cons.prems(1), of n mv lg, OF _ Cons.prems(3) _ assms(5)]
  consider (long) "250 < n" | (fifth) "n \<le> 250" "ks_release st = 4" | (short) "n \<le> 250" "ks_release st \<noteq> 4" by linarith
  then show ?case
  proof cases
    case long
    with p Cons.prems have s: "key_scan mv (press_of n) st lg = Some (st, lg @ ?led @ [GwReset])" by simp
    from Cons.IH [of st "lg @ ?led @ [GwReset]"] Cons.prems obtain lg' where
      "key_scan mv (concat (map press_of ns)) st (lg @ ?led @ [GwReset]) =
        Some (st\<lparr>ks_release := ks_release st + int (short_presses ns),
          ks_file := (ks_file st \<noteq> (ks_release st < 5 \<and> 5 \<le> ks_release st + int (short_presses ns)))\<rparr>, (lg @ ?led @ [GwReset]) @ lg')"
      "how_often GwReset lg' = length ns - short_presses ns"
      "how_often GwReboot lg' = (if ks_release st < 5 \<and> 5 \<le> ks_release st + int (short_presses ns) then 1 else 0)" by auto
    with s long le show ?thesis
      by (intro exI [of _ "?led @ [GwReset] @ lg'"]) (simp add: key_scan_append short_presses_def Suc_diff_le)
  next
    case fifth
    let ?st = "st\<lparr>ks_release := 5, ks_file := \<not> ks_file st\<rparr>" and ?lg = "lg @ ?led @ [StatusLed False, GwReboot]"
    from fifth p Cons.prems have s: "key_scan mv (press_of n) st lg = Some (?st, ?lg)" by simp
    from Cons.IH [of ?st ?lg] Cons.prems fifth obtain lg' where
      "key_scan mv (concat (map press_of ns)) ?st ?lg = Some (?st\<lparr>ks_release := 5 + int (short_presses ns)\<rparr>, ?lg @ lg')"
      "how_often GwReset lg' = length ns - short_presses ns" "how_often GwReboot lg' = 0" by auto
    with s fifth le show ?thesis
      by (intro exI [of _ "?led @ [StatusLed False, GwReboot] @ lg'"]) (simp add: key_scan_append short_presses_def)
  next
    case short
    let ?st = "st\<lparr>ks_release := ks_release st + 1\<rparr>" and ?lg = "lg @ ?led"
    from short p Cons.prems have s: "key_scan mv (press_of n) st lg = Some (?st, ?lg)" by simp
    from Cons.IH [of ?st ?lg] Cons.prems short obtain lg' where
      "key_scan mv (concat (map press_of ns)) ?st ?lg = Some (?st\<lparr>ks_release := ks_release st + 1 + int (short_presses ns),
          ks_file := (ks_file st \<noteq> (ks_release st + 1 < 5 \<and> 5 \<le> ks_release st + 1 + int (short_presses ns)))\<rparr>, ?lg @ lg')"
      "how_often GwReset lg' = length ns - short_presses ns"
      "how_often GwReboot lg' = (if ks_release st + 1 < 5 \<and> 5 \<le> ks_release st + 1 + int (short_presses ns) then 1 else 0)" by auto
    with s short le show ?thesis
      by (intro exI [of _ "?led @ lg'"]) (auto simp: key_scan_append short_presses_def)
  qed
qed

text \<open>
  Claim C26. Whatever presses of the key follow each other, every press of more than 250
  events resets the gateway, and the fifth shorter one, long ones between them or not,
  switches between engineering and business mode and restarts the gateway; no later one does.
\<close>

theorem key_presses:
  fixes eng :: bool
  assumes "\<forall>n \<in> set ns. int n < 2 ^ 31" and "int (length ns) < 2 ^ 31 - 1" and "mv_files mv"
  defines "st \<equiv> \<lparr>ks_press = 0, ks_release = 0, ks_file = eng\<rparr>"
  shows "\<exists>st' lg'. key_scan mv (concat (map press_of ns)) st [] = Some (st', lg')
    \<and> how_often GwReset lg' = length (filter (\<lambda>n. 250 < n) ns)
    \<and> how_often GwReboot lg' = (if 5 \<le> short_presses ns then 1 else 0)
    \<and> ks_file st' = (eng \<noteq> (5 \<le> short_presses ns))"
proof -
  have "length ns - short_presses ns = length (filter (\<lambda>n. 250 < n) ns)"
    using sum_length_filter_compl [of "\<lambda>n. n \<le> 250" ns] by (simp add: short_presses_def not_le)
  with presses_run [of st ns mv "[]"] assms show ?thesis by (auto simp: st_def)
qed

theorem key_presses_witness:
  "\<exists>st' lg'. key_scan ex_menv (concat (map press_of [1, 2, 300, 250, 1, 4, 1])) \<lparr>ks_press = 0, ks_release = 0, ks_file = False\<rparr> [] =
      Some (st', lg') \<and> how_often GwReset lg' = 1 \<and> how_often GwReboot lg' = 1 \<and> ks_file st'"
  using key_presses [of "[1, 2, 300, 250, 1, 4, 1]" ex_menv False] by (simp add: ex_menv_def short_presses_def)

subsection \<open>Heartbeats in a row\<close>

definition jobs :: "string \<Rightarrow> elog \<Rightarrow> nat" where
  "jobs f lg = length (filter (\<lambda>e. case e of AddJob g _ \<Rightarrow> g = f | _ \<Rightarrow> False) lg)"

lemma jobs_append [simp]: "jobs f (xs @ ys) = jobs f xs + jobs f ys"
  by (simp add: jobs_def)

definition of_type :: "(string \<Rightarrow> dev_tp option) \<Rightarrow> dev_tp \<Rightarrow> string list \<Rightarrow> nat" where
  "of_type desc tp ks = length (filter (\<lambda>k. desc k = Some tp) ks)"

definition groups_known :: "dev_list \<Rightarrow> bool" where
  "groups_known ds \<longleftrightarrow> (\<forall>d. Ptr d \<in> set ds \<longrightarrow> hb_group d \<noteq> None)"

lemma hb_fresh_log: "snd (hb_fresh ev k lg) = lg @ [HbFresh k]"
  by (simp add: hb_fresh_def Let_def)

lemma request_hb_returns:
  assumes "hb_group d \<noteq> None"
  shows "\<exists>r d' es gs. request_hb ev d lg = Some (r, d', lg @ es, gs) \<and> hb_group d' \<noteq> None \<and> (\<forall>f. jobs f es = 0)"
proof -
  consider (off) "\<not> kb_bOnlineCheck (kd_base d)" | (skip) "kb_bOnlineCheck (kd_base d)" "kb_hbIgnore (kd_base d) < 5"
    | (ask) "kb_bOnlineCheck (kd_base d)" "\<not> kb_hbIgnore (kd_base d) < 5" by blast
  then show ?thesis
  proof cases
    case off
    then have "request_hb ev d lg = Some (0, d, lg @ [HbFresh (el_pPrimaryKey (kd_element d))], [])"
      by (simp add: request_hb_def hb_fresh_log)
    moreover have "\<forall>f. jobs f [HbFresh (el_pPrimaryKey (kd_element d))] = 0" by (simp add: jobs_def)
    ultimately show ?thesis using assms by blast
  qed (use assms in \<open>auto simp: request_hb_def hb_group_base jobs_def\<close>)
qed

lemma hb_search_returns:
  assumes "groups_known ds"
  shows "\<exists>r ds' es gs. hb_search ev key ds lg = Some (r, ds', lg @ es, gs) \<and> groups_known ds' \<and> (\<forall>f. jobs f es = 0)"
  using assms
proof (induction ds)
  case Nil
  then show ?case by (simp add: jobs_def)
next
  case (Cons p ds)
  show ?case
  proof (cases "KnxDevIdMatch p key")
    case True
    then obtain d where p: "p = Ptr d" by (cases p) (auto simp: KnxDevIdMatch_def)
    then have "hb_group d \<noteq> None" using Cons.prems by (auto simp: groups_known_def)
    from request_hb_returns [OF this, of ev lg] obtain r d' es gs where
      "request_hb ev d lg = Some (r, d', lg @ es, gs)" "hb_group d' \<noteq> None" "\<forall>f. jobs f es = 0" by blast
    with True p Cons.prems show ?thesis by (auto simp: groups_known_def)
  next
    case False
    from Cons have "\<exists>r ds' es gs. hb_search ev key ds lg = Some (r, ds', lg @ es, gs) \<and> groups_known ds' \<and> (\<forall>f. jobs f es = 0)"
      by (simp add: groups_known_def)
    with False Cons.prems show ?thesis by (fastforce simp: groups_known_def)
  qed
qed

text \<open>The counters of the callback, and how many synchronisations they still allow.\<close>

definition hb_ok :: "hb_state \<Rightarrow> bool" where
  "hb_ok st \<longleftrightarrow> unat (hs_knx_cnt st) \<le> 2 \<and> (hs_knx_bFirst st \<longleftrightarrow> unat (hs_knx_cnt st) = 2)
     \<and> unat (hs_mbus_cnt st) \<le> 1 \<and> (hs_mbus_bFirst st \<longleftrightarrow> unat (hs_mbus_cnt st) = 1)"

definition knx_left :: "hb_state \<Rightarrow> nat" where "knx_left st = 2 - unat (hs_knx_cnt st)"
definition mbus_left :: "hb_state \<Rightarrow> nat" where "mbus_left st = 1 - unat (hs_mbus_cnt st)"

abbreviation knx_job :: string where "knx_job \<equiv> ''KNX_DevStateSync''"
abbreviation mbus_job :: string where "mbus_job \<equiv> ''Mbus_SyncAllDevStatus''"
abbreviation health_job :: string where "health_job \<equiv> ''Modbus_DevHealth''"

lemma unat_small_Suc: "unat c < 5 \<Longrightarrow> unat (c + 1 :: u32) = Suc (unat c)"
  by (subst unat_add_lem [THEN iffD1]) auto

lemma hb_cb_counts:
  assumes "mv_desc mv lg k = desc k" and "hb_ok st" and "groups_known ds" and "desc k = Some DEV_TP_ZIGBEE \<longrightarrow> k \<notin> set z3"
  shows "\<exists>st' ds' es gs. misc_dev_hb_cb mv z3 k st ds lg = Some (st', ds', lg @ es, gs) \<and> hb_ok st' \<and> groups_known ds'
    \<and> knx_left st' = knx_left st - of_type desc DEV_TP_KNX [k] \<and> mbus_left st' = mbus_left st - of_type desc DEV_TP_485 [k]
    \<and> jobs knx_job es = min (knx_left st) (of_type desc DEV_TP_KNX [k])
    \<and> jobs mbus_job es = min (mbus_left st) (of_type desc DEV_TP_485 [k])
    \<and> jobs mbus_job es + jobs health_job es = of_type desc DEV_TP_485 [k]"
proof -
  note c = misc_dev_hb_cb_def assms(1) of_type_def jobs_def hb_fresh_log
  consider (none) "desc k = None" | (knx) "desc k = Some DEV_TP_KNX" | (mbus) "desc k = Some DEV_TP_485"
    | (usr) "desc k = Some DEV_TP_USR1" | (zig) "desc k = Some DEV_TP_ZIGBEE"
    | (other) "desc k = Some DEV_TP_433 \<or> desc k = Some DEV_TP_OTHER" by (cases "desc k"; metis dev_tp.exhaust)
  then show ?thesis
  proof cases
    case knx
    show ?thesis
    proof (cases "hs_knx_bFirst st")
      case True
      obtain r ds' es gs where "Knx_RequestHB (mv_env mv) (Ptr k) ds lg = Some (r, ds', lg @ es, gs)" "groups_known ds'" "\<forall>f. jobs f es = 0"
        using hb_search_returns [OF assms(3), of "mv_env mv" k lg] by (auto simp: Knx_RequestHB_def)
      with True knx assms(2) show ?thesis by (simp add: misc_dev_hb_cb_def assms(1) of_type_def hb_ok_def knx_left_def)
    next
      case False
      with assms(2) have "unat (hs_knx_cnt st) < 2" by (simp add: hb_ok_def)
      moreover from this have "unat (hs_knx_cnt st + 1) = Suc (unat (hs_knx_cnt st))" by (simp add: unat_small_Suc)
      ultimately show ?thesis using False knx assms(2,3)
        by (auto simp: c hb_ok_def knx_left_def mbus_left_def Knx_SyncDevStatus_def Let_def word_le_nat_alt)
    qed
  next
    case mbus
    show ?thesis
    proof (cases "hs_mbus_bFirst st")
      case True
      with mbus assms(2,3) show ?thesis by (simp add: c hb_ok_def knx_left_def mbus_left_def Mbus_RequestHB_def)
    next
      case False
      with assms(2) have "unat (hs_mbus_cnt st) = 0" by (simp add: hb_ok_def)
      then have "hs_mbus_cnt st = 0" by (simp add: unat_eq_zero)
      with False mbus assms(2,3) show ?thesis
        by (simp add: c hb_ok_def knx_left_def mbus_left_def Mbus_SyncDevStatus_def Let_def)
    qed
  qed (use assms(2-4) in \<open>auto simp: c\<close>)
qed

lemma of_type_Cons: "of_type desc tp (k # ks) = of_type desc tp [k] + of_type desc tp ks"
  by (simp add: of_type_def)

lemma hb_run_counts:
  assumes "\<And>lg. mv_desc mv lg = desc" and "hb_ok st" and "groups_known ds" and "\<forall>k \<in> set ks. desc k = Some DEV_TP_ZIGBEE \<longrightarrow> k \<notin> set z3"
  shows "\<exists>st' ds' es. hb_run mv z3 ks st ds lg = Some (st', ds', lg @ es)
    \<and> jobs knx_job es = min (knx_left st) (of_type desc DEV_TP_KNX ks)
    \<and> jobs mbus_job es = min (mbus_left st) (of_type desc DEV_TP_485 ks)
    \<and> jobs mbus_job es + jobs health_job es = of_type desc DEV_TP_485 ks"
  using assms(2-4)
proof (induction ks arbitrary: st ds lg)
  case Nil
  then show ?case by (simp add: jobs_def of_type_def)
next
  case (Cons k ks)
  obtain st1 ds1 es1 gs where s: "misc_dev_hb_cb mv z3 k st ds lg = Some (st1, ds1, lg @ es1, gs)" "hb_ok st1" "groups_known ds1"
    and c: "knx_left st1 = knx_left st - of_type desc DEV_TP_KNX [k]" "mbus_left st1 = mbus_left st - of_type desc DEV_TP_485 [k]"
      "jobs knx_job es1 = min (knx_left st) (of_type desc DEV_TP_KNX [k])"
      "jobs mbus_job es1 = min (mbus_left st) (of_type desc DEV_TP_485 [k])"
      "jobs mbus_job es1 + jobs health_job es1 = of_type desc DEV_TP_485 [k]"
    using hb_cb_counts [of mv lg k desc st ds z3] assms(1) Cons.prems by (metis list.set_intros(1))
  obtain st2 ds2 es2 where r: "hb_run mv z3 ks st1 ds1 (lg @ es1) = Some (st2, ds2, (lg @ es1) @ es2)"
    and c2: "jobs knx_job es2 = min (knx_left st1) (of_type desc DEV_TP_KNX ks)"
      "jobs mbus_job es2 = min (mbus_left st1) (of_type desc DEV_TP_485 ks)"
      "jobs mbus_job es2 + jobs health_job es2 = of_type desc DEV_TP_485 ks"
    using Cons.IH [OF s(2,3), of "lg @ es1"] Cons.prems by auto
  have "hb_run mv z3 (k # ks) st ds lg = Some (st2, ds2, lg @ es1 @ es2)" using s(1) r by simp
  moreover have "jobs knx_job (es1 @ es2) = min (knx_left st) (of_type desc DEV_TP_KNX (k # ks))"
    "jobs mbus_job (es1 @ es2) = min (mbus_left st) (of_type desc DEV_TP_485 (k # ks))"
    "jobs mbus_job (es1 @ es2) + jobs health_job (es1 @ es2) = of_type desc DEV_TP_485 (k # ks)"
    unfolding of_type_Cons [of _ _ k ks] jobs_append using c c2 by arith+
  ultimately show ?case by blast
qed

text \<open>
  Claim C21. Of the heartbeats that the cloud asks for, in any order and for any devices, the
  first two of KNX devices and the first of a Modbus device start a synchronisation of all
  devices of that bus, and every later one of a Modbus device adds one request for that device.
\<close>

theorem heartbeat_jobs:
  assumes "\<And>lg. mv_desc mv lg = desc" and "groups_known ds" and "\<forall>k \<in> set ks. desc k = Some DEV_TP_ZIGBEE \<longrightarrow> k \<notin> set z3"
  shows "\<exists>st' ds' es. hb_run mv z3 ks hb_init ds lg = Some (st', ds', lg @ es)
    \<and> jobs ''KNX_DevStateSync'' es = min 2 (of_type desc DEV_TP_KNX ks)
    \<and> jobs ''Mbus_SyncAllDevStatus'' es = min 1 (of_type desc DEV_TP_485 ks)
    \<and> jobs ''Modbus_DevHealth'' es = of_type desc DEV_TP_485 ks - 1"
proof -
  have "hb_ok hb_init" "knx_left hb_init = 2" "mbus_left hb_init = 1" by (simp_all add: hb_init_def hb_ok_def knx_left_def mbus_left_def)
  from hb_run_counts [OF assms(1) this(1) assms(2,3), of lg] this(2,3) show ?thesis by fastforce
qed

theorem heartbeat_jobs_witness:
  "\<exists>st' ds' es. hb_run (ex_menv\<lparr>mv_desc := (\<lambda>_. [''k'' \<mapsto> DEV_TP_KNX, ''m'' \<mapsto> DEV_TP_485])\<rparr>) []
      (concat (replicate 3 [''k'', ''m''])) hb_init [Ptr ex_acd] [] = Some (st', ds', es)
    \<and> jobs ''KNX_DevStateSync'' es = 2 \<and> jobs ''Mbus_SyncAllDevStatus'' es = 1 \<and> jobs ''Modbus_DevHealth'' es = 2"
proof -
  have "groups_known [Ptr ex_acd]" by (simp add: groups_known_def hb_group_def ex_acd_def Let_def)
  from heartbeat_jobs [OF _ this, of "ex_menv\<lparr>mv_desc := (\<lambda>_. [''k'' \<mapsto> DEV_TP_KNX, ''m'' \<mapsto> DEV_TP_485])\<rparr>"
      "[''k'' \<mapsto> DEV_TP_KNX, ''m'' \<mapsto> DEV_TP_485]" "concat (replicate 3 [''k'', ''m''])" "[]" "[]"]
  show ?thesis by (simp add: of_type_def numeral_3_eq_3 numeral_2_eq_2 del: hb_run.simps)
qed

subsection \<open>Commands\<close>

text \<open>
  A command for a KNX device is confirmed to the cloud and handed to the KNX side, data point by
  data point; one for a device that the cloud does not know ends with \<open>-1\<close> and no effect; for a
  Modbus device the result is \<open>0\<close> whatever the writes return.
\<close>

lemma command_to_knx:
  assumes "\<And>lg. mv_desc mv lg cid = Some DEV_TP_KNX"
  shows "dev_obj_cmd_cb mv scenes z3 (Ptr cid) dps ds lg =
    Some (0, ds, lg @ concat (map (\<lambda>dp. [CloudReport cid dp, KnxSync cid dp]) dps))"
  by (induction dps arbitrary: lg) (simp_all add: device_dp_def assms cloud_report_def Let_def)

lemma command_to_unknown:
  "mv_desc mv lg cid = None \<Longrightarrow> dps \<noteq> [] \<Longrightarrow> dev_obj_cmd_cb mv scenes z3 (Ptr cid) dps ds lg = Some (- 1, ds, lg)"
  by (cases dps) (simp_all add: device_dp_def)

lemma command_to_modbus:
  assumes "\<And>lg. mv_desc mv lg cid = Some DEV_TP_485"
  shows "dev_obj_cmd_cb mv scenes z3 (Ptr cid) dps ds lg = Some (r, ds', lg') \<Longrightarrow> r = 0"
  by (induction dps arbitrary: ds lg) (auto simp: device_dp_def assms Let_def split: bind_splits)

subsection \<open>Numbers read from texts\<close>

text \<open>
  The number that \<open>ModbusDevIdMatch\<close> reads from a text of at least four characters is at least
  \<open>2 ^ 24\<close>, so that it matches no device with a smaller number.
\<close>

lemma char_u32: "c \<noteq> CHR 0x00 \<Longrightarrow> (of_char c :: u32) \<noteq> 0 \<and> unat (of_char c :: u32) < 256"
proof -
  assume "c \<noteq> CHR 0x00"
  then have z: "(of_char c :: nat) \<noteq> 0" using of_char_eq_iff [of c "CHR 0x00", where 'a = nat] by simp
  have w: "(of_char c :: u32) = of_nat (of_char c)" by (simp only: of_nat_of_char)
  have "unat (of_char c :: u32) = of_char c"
    unfolding w unat_of_nat by (intro mod_less less_trans [OF nat_of_char_less_256]) simp
  with z show ?thesis by auto
qed

lemma top_byte_large:
  fixes a b :: u32
  assumes "b \<noteq> 0" and "unat b < 256"
  shows "2 ^ 24 \<le> a OR push_bit 24 b"
proof -
  have "unat (push_bit 24 b) = unat b * 2 ^ 24"
    using assms(2) by (simp add: push_bit_eq_mult unat_mult_lem [THEN iffD1])
  moreover have "1 \<le> unat b" using assms(1) by (simp add: unat_gt_0 Suc_leI)
  ultimately have "2 ^ 24 \<le> push_bit 24 b" by (simp add: word_le_nat_alt)
  also have "\<dots> \<le> a OR push_bit 24 b" by (metis le_word_or2 or.commute)
  finally show ?thesis .
qed

lemma text_u32_large:
  assumes "4 \<le> length s" and "CHR 0x00 \<notin> set s"
  shows "\<exists>n. text_u32 s = Some n \<and> 2 ^ 24 \<le> n"
proof -
  have "s ! 3 \<in> set s" using assms(1) by simp
  then have "s ! 3 \<noteq> CHR 0x00" using assms(2) by metis
  moreover have "(map of_char s @ [0 :: u32]) ! 3 = of_char (s ! 3)" using assms(1) by (simp add: nth_append)
  ultimately show ?thesis
    using assms(1) char_u32 [of "s ! 3"] by (simp add: text_u32_def Let_def top_byte_large [simplified] flip: or.assoc)
qed

definition small_ids :: "mbus_list \<Rightarrow> bool" where
  "small_ids ds \<longleftrightarrow> (\<forall>d \<in> set ds. el_devId (md_element d) < 2 ^ 24)"

lemma no_text_match: "small_ids ds \<Longrightarrow> 2 ^ 24 \<le> n \<Longrightarrow> d \<in> set ds \<Longrightarrow> \<not> ModbusDevIdMatch d n"
  by (auto simp: small_ids_def ModbusDevIdMatch_def not_le)

lemma search_mbus_text_none:
  assumes "small_ids ds" and "4 \<le> length key" and "CHR 0x00 \<notin> set key"
  shows "search_mbus_text key ds = Some None"
  using text_u32_large [OF assms(2,3)] no_text_match [OF assms(1)] by (auto simp: search_mbus_text_def find_None_iff)

text \<open>
  A confirmed binding therefore configures the heartbeat of a Modbus device although its
  configuration has no online check, and a KNX device is never linked to a Modbus device by
  \<open>associateKnxDev\<close>.
\<close>

lemma bind_ignores_modbus_check:
  assumes "small_ids mds" and "4 \<le> length key" and "CHR 0x00 \<notin> set key"
    and "mv_desc mv lg key = Some tp" and "\<not> knx_unchecked key kds"
  shows "misc_dev_bind_ifm_cb mv key 0 kds mds lg = Some (hb_cfg_fresh mv key tp (lg @ [BindPos key]))"
  by (simp add: misc_dev_bind_ifm_cb_def assms(4,5) mbus_unchecked_def search_mbus_text_none [OF assms(1-3)])

lemma link_first_mbus_None: "\<forall>d \<in> set ds. \<not> ModbusDevIdMatch d n \<Longrightarrow> link_first_mbus n key ds = None"
  by (induction ds) auto

lemma associateKnxDev_idle:
  assumes "small_ids ds"
    and "\<forall>k. Ptr k \<in> set ks \<longrightarrow> (\<forall>fk. el_pForeignKey (kd_element k) = Ptr fk \<longrightarrow> 4 \<le> length fk \<and> CHR 0x00 \<notin> set fk)"
  shows "associateKnxDev ks ds = Some (ks, ds)"
  using assms(2)
proof (induction ks)
  case (Cons p ks)
  then have IH: "associateKnxDev ks ds = Some (ks, ds)" by simp
  show ?case
  proof (cases p)
    case (Ptr k)
    show ?thesis
    proof (cases "el_pForeignKey (kd_element k)")
      case fk: (Ptr fk)
      then have "4 \<le> length fk" "CHR 0x00 \<notin> set fk" using Cons.prems Ptr by auto
      then obtain n where n: "text_u32 fk = Some n" "2 ^ 24 \<le> n" using text_u32_large by blast
      have "link_first_mbus n key ds = None" for key
        using no_text_match [OF assms(1) n(2)] by (intro link_first_mbus_None) blast
      then show ?thesis using Ptr IH fk n(1) by (cases "ds = []") simp_all
    qed (simp add: Ptr IH)
  qed (simp add: IH)
qed simp

subsection \<open>Links\<close>

definition knx_keys :: "dev_list \<Rightarrow> string list" where
  "knx_keys ks = List.map_filter (\<lambda>p. map_option el_pPrimaryKey (knx_any p)) ks"

definition fkey_of :: "mbus_dev \<Rightarrow> string option" where
  "fkey_of d = (if el_bMaster (md_element d) then (case el_pForeignKey (md_element d) of NULL \<Rightarrow> None | Ptr fk \<Rightarrow> Some fk) else None)"

definition foreign_keys :: "mbus_list \<Rightarrow> string list" where
  "foreign_keys ms = List.map_filter fkey_of ms"

lemma knx_keys_simps [simp]:
  "knx_keys [] = []" "knx_keys (NULL # ks) = knx_keys ks" "knx_keys (Ptr k # ks) = el_pPrimaryKey (kd_element k) # knx_keys ks"
  by (simp_all add: knx_keys_def map_filter_simps knx_any_def)

lemma link_knx_simps [simp]:
  "el_pPrimaryKey (kd_element (link_knx v k)) = el_pPrimaryKey (kd_element k)"
  by (simp add: link_knx_def)

lemma KnxDevIdMatch_Ptr [simp]: "KnxDevIdMatch (Ptr k) fk \<longleftrightarrow> el_pPrimaryKey (kd_element k) = fk"
  by (simp add: KnxDevIdMatch_def)

lemma link_first_knx_keys: "link_first_knx fk key ks = Some ks' \<Longrightarrow> knx_keys ks' = knx_keys ks"
  by (induction fk key ks arbitrary: ks' rule: link_first_knx.induct) (auto split: if_splits)

lemma link_first_knx_other:
  "link_first_knx fk key ks = Some ks' \<Longrightarrow> Ptr k \<in> set ks \<Longrightarrow> el_pPrimaryKey (kd_element k) \<noteq> fk \<Longrightarrow> Ptr k \<in> set ks'"
  by (induction fk key ks arbitrary: ks' rule: link_first_knx.induct) (auto split: if_splits)

lemma knx_key_member: "Ptr k \<in> set ks \<Longrightarrow> el_pPrimaryKey (kd_element k) \<in> set (knx_keys ks)"
  by (induction ks) (auto simp: knx_keys_def map_filter_simps knx_any_def split: cptr.splits)

lemma link_first_knx_hit:
  assumes "Ptr k \<in> set ks" and "distinct (knx_keys ks)"
  shows "\<exists>ks'. link_first_knx (el_pPrimaryKey (kd_element k)) key ks = Some ks' \<and> Ptr (link_knx (Ptr key) k) \<in> set ks'"
  using assms
proof (induction ks)
  case (Cons p ks)
  show ?case
  proof (cases p)
    case NULL
    with Cons show ?thesis by auto
  next
    case (Ptr k0)
    show ?thesis
    proof (cases "k0 = k")
      case False
      then have "Ptr k \<in> set ks" using Cons.prems(1) Ptr by simp
      then have "el_pPrimaryKey (kd_element k0) \<noteq> el_pPrimaryKey (kd_element k)"
        using Cons.prems(2) Ptr knx_key_member [of k ks] by auto
      with Cons Ptr \<open>Ptr k \<in> set ks\<close> show ?thesis by auto
    qed (simp add: Ptr)
  qed
qed simp

lemma foreign_keys_simps [simp]:
  "foreign_keys [] = []"
  "foreign_keys (d # ds) = (case fkey_of d of None \<Rightarrow> foreign_keys ds | Some fk \<Rightarrow> fk # foreign_keys ds)"
  by (simp_all add: foreign_keys_def map_filter_simps split: option.split)

text \<open>The KNX list after one Modbus device.\<close>

definition after_link :: "mbus_dev \<Rightarrow> dev_list \<Rightarrow> dev_list" where
  "after_link d ks =
     (case fkey_of d of
        None \<Rightarrow> ks
      | Some fk \<Rightarrow> (case link_first_knx fk (el_pPrimaryKey (md_element d)) ks of None \<Rightarrow> ks | Some ks' \<Rightarrow> ks'))"

lemma associate_Cons:
  "snd (associateModbusDev (d # ds) ks) = snd (associateModbusDev ds (after_link d ks))"
  "set (fst (associateModbusDev ds (after_link d ks))) \<subseteq> set (fst (associateModbusDev (d # ds) ks))"
  by (auto simp: after_link_def fkey_of_def case_prod_beta Let_def split: option.splits cptr.splits)

lemma after_link_keys [simp]: "knx_keys (after_link d ks) = knx_keys ks"
  by (auto simp: after_link_def link_first_knx_keys split: option.splits)

lemma after_link_other:
  assumes "Ptr k \<in> set ks" and "fkey_of d \<noteq> Some (el_pPrimaryKey (kd_element k))"
  shows "Ptr k \<in> set (after_link d ks)"
  using assms link_first_knx_other [of _ _ ks _ k] by (auto simp: after_link_def split: option.splits)

lemma associate_keeps:
  "Ptr k \<in> set ks \<Longrightarrow> el_pPrimaryKey (kd_element k) \<notin> set (foreign_keys ms) \<Longrightarrow> Ptr k \<in> set (snd (associateModbusDev ms ks))"
proof (induction ms arbitrary: ks)
  case (Cons d ds)
  have "Ptr k \<in> set (after_link d ks)" using Cons.prems by (intro after_link_other) auto
  moreover have "el_pPrimaryKey (kd_element k) \<notin> set (foreign_keys ds)" using Cons.prems(2) by (auto split: option.splits)
  ultimately show ?case using Cons.IH unfolding associate_Cons(1) by blast
qed simp



end
