(* ===== verification/Config_Xml.thy ===== *)
theory Config_Xml
  imports Gateway_Main Serial_Port
begin

text \<open>
  What the configuration parser \<open>source/parseXML.c\<close> uses of libxml2, and the loops all its
  functions share.

  \<^item> A node is an element with its name, attributes and children, or another node (text,
    comment) with its name and content. The nodes that an XPath expression selects are an argument
    of the parsers; \<open>NULL\<close> stands for a file that cannot be read and for an empty selection.
  \<^item> \<open>XML_GET_CONTENT (pNode->xmlChildrenNode)\<close> reads the first child: there is none in \<open><A/>\<close>, and the
    macro dereferences a null pointer.
  \<^item> A parser may leave the program (\<open>exit\<close>), crash, or hang: \<open>continue\<close> in a loop over siblings goes
    back to the same node, so that the loop never ends.
  \<^item> Inside a device \<open>calloc\<close> is taken to succeed; a device whose own record or serial object cannot
    be allocated is skipped, which is an argument of the parsers.
\<close>

subsection \<open>Runs\<close>

datatype 'a run = Done 'a | Exits | Loops | Crash

fun andthen :: "'a run \<Rightarrow> ('a \<Rightarrow> 'b run) \<Rightarrow> 'b run" where
  "andthen (Done x) f = f x"
| "andthen Exits f = Exits"
| "andthen Loops f = Loops"
| "andthen Crash f = Crash"

lemma andthen_Done: "andthen m f = Done y \<longleftrightarrow> (\<exists>x. m = Done x \<and> f x = Done y)"
  by (cases m) simp_all

subsection \<open>Nodes\<close>

datatype xnode = Elem string "(string \<times> string) list" "xnode list" | Leaf string "string cptr"

fun x_name :: "xnode \<Rightarrow> string" where
  "x_name (Elem nm _ _) = nm" | "x_name (Leaf nm _) = nm"

fun x_kids :: "xnode \<Rightarrow> xnode list" where
  "x_kids (Elem _ _ ks) = ks" | "x_kids (Leaf _ _) = []"

fun x_attrs :: "xnode \<Rightarrow> (string \<times> string) list" where
  "x_attrs (Elem _ as _) = as" | "x_attrs (Leaf _ _) = []"

definition lower :: "char \<Rightarrow> char" where
  "lower c = (if 65 \<le> (of_char c :: nat) \<and> (of_char c :: nat) \<le> 90 then char_of ((of_char c :: nat) + 32) else c)"

definition xcmp :: "string \<Rightarrow> string \<Rightarrow> bool" where
  "xcmp a b \<longleftrightarrow> map lower a = map lower b"

text \<open>Comparison of names, letter by letter.\<close>

lemma lower_letters [simp]:
  "lower CHR ''A'' = CHR ''a''" "lower CHR ''B'' = CHR ''b''" "lower CHR ''C'' = CHR ''c''" "lower CHR ''D'' = CHR ''d''"
  "lower CHR ''E'' = CHR ''e''" "lower CHR ''F'' = CHR ''f''" "lower CHR ''G'' = CHR ''g''" "lower CHR ''H'' = CHR ''h''"
  "lower CHR ''I'' = CHR ''i''" "lower CHR ''J'' = CHR ''j''" "lower CHR ''K'' = CHR ''k''" "lower CHR ''L'' = CHR ''l''"
  "lower CHR ''M'' = CHR ''m''" "lower CHR ''N'' = CHR ''n''" "lower CHR ''O'' = CHR ''o''" "lower CHR ''P'' = CHR ''p''"
  "lower CHR ''Q'' = CHR ''q''" "lower CHR ''R'' = CHR ''r''" "lower CHR ''S'' = CHR ''s''" "lower CHR ''T'' = CHR ''t''"
  "lower CHR ''U'' = CHR ''u''" "lower CHR ''V'' = CHR ''v''" "lower CHR ''W'' = CHR ''w''" "lower CHR ''X'' = CHR ''x''"
  "lower CHR ''Y'' = CHR ''y''" "lower CHR ''Z'' = CHR ''z''" "lower CHR ''a'' = CHR ''a''" "lower CHR ''b'' = CHR ''b''"
  "lower CHR ''c'' = CHR ''c''" "lower CHR ''d'' = CHR ''d''" "lower CHR ''e'' = CHR ''e''" "lower CHR ''f'' = CHR ''f''"
  "lower CHR ''g'' = CHR ''g''" "lower CHR ''h'' = CHR ''h''" "lower CHR ''i'' = CHR ''i''" "lower CHR ''j'' = CHR ''j''"
  "lower CHR ''k'' = CHR ''k''" "lower CHR ''l'' = CHR ''l''" "lower CHR ''m'' = CHR ''m''" "lower CHR ''n'' = CHR ''n''"
  "lower CHR ''o'' = CHR ''o''" "lower CHR ''p'' = CHR ''p''" "lower CHR ''q'' = CHR ''q''" "lower CHR ''r'' = CHR ''r''"
  "lower CHR ''s'' = CHR ''s''" "lower CHR ''t'' = CHR ''t''" "lower CHR ''u'' = CHR ''u''" "lower CHR ''v'' = CHR ''v''"
  "lower CHR ''w'' = CHR ''w''" "lower CHR ''x'' = CHR ''x''" "lower CHR ''y'' = CHR ''y''" "lower CHR ''z'' = CHR ''z''"
  by code_simp+

lemma xcmp_simps [simp]:
  "xcmp [] []" "\<not> xcmp (a # as) []" "\<not> xcmp [] (b # bs)"
  "xcmp (a # as) (b # bs) \<longleftrightarrow> (if lower a = lower b then xcmp as bs else False)"
  by (simp_all add: xcmp_def)

definition get_content :: "xnode \<Rightarrow> string cptr run" where
  "get_content n = (case x_kids n of [] \<Rightarrow> Crash | Elem _ _ _ # _ \<Rightarrow> Done NULL | Leaf _ c # _ \<Rightarrow> Done c)"

definition get_prop :: "xnode \<Rightarrow> string \<Rightarrow> string option" where
  "get_prop n a = map_of (x_attrs n) a"

text \<open>A text that is not a number is 0; the flag is \<open>errno\<close>.\<close>

definition num_of :: "string \<Rightarrow> int \<times> bool" where
  "num_of s = (case strtol s of None \<Rightarrow> (0, False) | Some p \<Rightarrow> p)"

definition first_char :: "string \<Rightarrow> char" where
  "first_char s = (case s of [] \<Rightarrow> CHR 0x00 | c # _ \<Rightarrow> c)"

subsection \<open>Loops over siblings\<close>

text \<open>
  The body of a loop is a chain of tests of the name; \<open>tags\<close> lists the names with what is done.
\<close>

type_synonym 's tags = "(string \<times> (xnode \<Rightarrow> 's \<Rightarrow> 's run)) list"

fun on_tag :: "'s tags \<Rightarrow> xnode \<Rightarrow> 's \<Rightarrow> 's run" where
  "on_tag [] n s = Done s"
| "on_tag ((t, f) # ts) n s = (if xcmp (x_name n) t then f n s else on_tag ts n s)"

fun siblings :: "'s tags \<Rightarrow> xnode list \<Rightarrow> 's \<Rightarrow> 's run" where
  "siblings ts [] s = Done s"
| "siblings ts (n # ns) s = andthen (on_tag ts n s) (siblings ts ns)"

text \<open>Tags whose content matters only when there is one, and the numbers among them.\<close>

definition text_tag :: "(string \<Rightarrow> 's \<Rightarrow> 's run) \<Rightarrow> xnode \<Rightarrow> 's \<Rightarrow> 's run" where
  "text_tag f n s = andthen (get_content n) (\<lambda>c. case c of NULL \<Rightarrow> Done s | Ptr t \<Rightarrow> f t s)"

definition num_tag :: "(int \<Rightarrow> 's \<Rightarrow> 's run) \<Rightarrow> xnode \<Rightarrow> 's \<Rightarrow> 's run" where
  "num_tag f = text_tag (\<lambda>t s. case num_of t of (v, err) \<Rightarrow> if err then Exits else f v s)"

text \<open>A property of the state that the body of a loop keeps is kept by the loop.\<close>

locale tag_invariant =
  fixes ts :: "'s tags"
    and I :: "'s \<Rightarrow> bool"
  assumes tag_law: "(t, f) \<in> set ts \<Longrightarrow> I s \<Longrightarrow> f n s = Done s' \<Longrightarrow> I s'"
begin

lemma on_tag_keeps: "set us \<subseteq> set ts \<Longrightarrow> I s \<Longrightarrow> on_tag us n s = Done s' \<Longrightarrow> I s'"
  by (induction us) (auto split: if_splits dest: tag_law)

lemma siblings_keep: "I s \<Longrightarrow> siblings ts ns s = Done s' \<Longrightarrow> I s'"
proof (induction ns arbitrary: s)
  case (Cons n ns)
  then show ?case using on_tag_keeps [of ts s n] by (auto simp: andthen_Done)
qed simp

end

lemma text_tag_Done:
  "text_tag f n s = Done s' \<longleftrightarrow>
     get_content n = Done NULL \<and> s' = s \<or> (\<exists>t. get_content n = Done (Ptr t) \<and> f t s = Done s')"
proof (cases "get_content n")
  case (Done c)
  then show ?thesis by (cases c) (auto simp: text_tag_def)
qed (simp_all add: text_tag_def)

lemma num_tag_Done:
  "num_tag f n s = Done s' \<longleftrightarrow>
     get_content n = Done NULL \<and> s' = s
     \<or> (\<exists>t v. get_content n = Done (Ptr t) \<and> num_of t = (v, False) \<and> f v s = Done s')"
proof -
  have "(case num_of t of (v, err) \<Rightarrow> if err then Exits else f v s) = Done s' \<longleftrightarrow> (\<exists>v. num_of t = (v, False) \<and> f v s = Done s')" for t
    by (cases "num_of t") auto
  then show ?thesis unfolding num_tag_def text_tag_Done by auto
qed

lemma content_Done:
  "andthen (get_content n) (\<lambda>t. case t of NULL \<Rightarrow> a | Ptr t \<Rightarrow> g t) = Done s' \<longleftrightarrow>
     get_content n = Done NULL \<and> a = Done s' \<or> (\<exists>t. get_content n = Done (Ptr t) \<and> g t = Done s')"
proof (cases "get_content n")
  case (Done c)
  then show ?thesis by (cases c) auto
qed simp_all

lemma number_Done:
  "(case num_of t of (v, err) \<Rightarrow> if err then Exits else Done (g v)) = Done s' \<longleftrightarrow> (\<exists>v. num_of t = (v, False) \<and> s' = g v)"
  by (cases "num_of t") auto

lemmas tag_Done = text_tag_Done num_tag_Done andthen_Done

subsection \<open>Keys of devices\<close>

definition DEVICE_ID_LENGTH :: nat where "DEVICE_ID_LENGTH = 32"

definition DEVICE_TYPE_UNKNOWN :: nat where "DEVICE_TYPE_UNKNOWN = 0"
definition DEVICE_TYPE_ZIGBEE :: nat where "DEVICE_TYPE_ZIGBEE = 1"
definition DEVICE_TYPE_MODBUS :: nat where "DEVICE_TYPE_MODBUS = 2"
definition DEVICE_TYPE_KNX :: nat where "DEVICE_TYPE_KNX = 3"
definition DEVICE_TYPE_RF433 :: nat where "DEVICE_TYPE_RF433 = 4"
definition DEVICE_TYPE_DIO :: nat where "DEVICE_TYPE_DIO = 5"

lemmas device_types = DEVICE_TYPE_UNKNOWN_def DEVICE_TYPE_ZIGBEE_def DEVICE_TYPE_MODBUS_def DEVICE_TYPE_KNX_def
  DEVICE_TYPE_RF433_def DEVICE_TYPE_DIO_def

text \<open>\<open>snprintf\<close> cuts the key at 31 characters. All types are one digit.\<close>

definition make_key :: "string \<Rightarrow> nat \<Rightarrow> string \<Rightarrow> string" where
  "make_key mac tp key = take (DEVICE_ID_LENGTH - 1) (mac @ dec tp @ key)"

text \<open>The number of a device is read from its own key, which is padded with zero bytes.\<close>

definition key_number :: "string \<Rightarrow> u32" where
  "key_number key = word_of_int (fst (num_of (drop 12 key)))"

text \<open>
  The name of a type of communication: \<open>memcmp\<close> over the length of the keyword, which a text
  that ends earlier differs from at its end.
\<close>

definition starts :: "string \<Rightarrow> string \<Rightarrow> bool" where
  "starts w s \<longleftrightarrow> take (length w) s = w"

definition comm_type :: "string \<Rightarrow> nat option" where
  "comm_type s =
     (if starts ''ZIGBEE'' s then Some DEVICE_TYPE_ZIGBEE
      else if starts ''MODBUS'' s then Some DEVICE_TYPE_MODBUS
      else if starts ''KNX'' s then Some DEVICE_TYPE_KNX
      else if starts ''RF433'' s then Some DEVICE_TYPE_RF433
      else None)"

text \<open>
  The number that the handlers compute from a key is the one the parser stored, if they accept
  the key at all.
\<close>

lemma key_number_agrees:
  "12 \<le> length key \<Longrightarrow> dev_number key = Some NULL \<or> dev_number key = Some (Ptr (key_number key))"
  by (auto simp: dev_number_def key_number_def num_of_def split: option.splits)

lemma make_key_length: "length mac = 12 \<Longrightarrow> 12 \<le> length (make_key mac tp key)"
  by (simp add: make_key_def DEVICE_ID_LENGTH_def)

text \<open>A device that has a key has the number in it.\<close>

definition key_ok :: "DeviceElement \<Rightarrow> bool" where
  "key_ok e \<longleftrightarrow> el_pPrimaryKey e = [] \<or> 12 \<le> length (el_pPrimaryKey e) \<and> el_devId e = key_number (el_pPrimaryKey e)"

end
