(* ===== verification/Config_Knx.thy ===== *)
theory Config_Knx
  imports Config_Xml
begin

text \<open>
  The KNX part of the configuration parser, \<open>source/parseXML.c\<close>: air conditioners, ventilation and
  floor heating, whose points are groups of objects; panels, smart panels and dimmers, whose keys
  are the channels of a cell; and curtains.

  \<^item> \<open>'b kconf\<close> is a device under construction with a body of type \<open>'b\<close>. The members of points and
    objects that no other part of the program reads (data size, threshold, feature, type, old
    value, smallest value, step and scaling of a brightness) are left out.
  \<^item> \<open>kc_pPrimaryKey\<close> and \<open>kc_pForeignKey\<close> are the local variables of the functions. In the functions
    for panels, smart panels and dimmers they are declared outside of the loop over the cells, so
    that a cell starts with the texts of the one before it.
  \<^item> The memory behind a panel is enlarged by \<open>realloc\<close> and not initialised: what it contains is an
    argument, as are the times at which the clock is read.
\<close>

subsection \<open>A device under construction\<close>

record 'b kconf =
  kc_base :: KnxBase
  kc_phyAddr :: string
  kc_phy :: u16
  kc_bFeedback :: bool
  kc_szPlugin :: "string cptr"
  kc_foreignType :: nat
  kc_pPrimaryKey :: "string cptr"
  kc_pForeignKey :: "string cptr"
  kc_body :: 'b

abbreviation kc_element :: "'b kconf \<Rightarrow> DeviceElement" where
  "kc_element c \<equiv> kb_element (kc_base c)"

definition upd_kel :: "(DeviceElement \<Rightarrow> DeviceElement) \<Rightarrow> 'b kconf \<Rightarrow> 'b kconf" where
  "upd_kel f c = c\<lparr>kc_base := (kc_base c)\<lparr>kb_element := f (kc_element c)\<rparr>\<rparr>"

definition new_kconf :: "string \<Rightarrow> nat \<Rightarrow> bool \<Rightarrow> 'b \<Rightarrow> 'b kconf" where
  "new_kconf nm ty fb b =
     \<lparr>kc_base = \<lparr>kb_pIf = NULL,
        kb_element = \<lparr>el_szName = nm, el_pPrimaryKey = [], el_devId = 0, el_pProductId = [], el_pForeignKey = NULL,
          el_primaryType = ty, el_pvForeignKey = NULL, el_bMaster = False, el_attri = DEVICE_ATTRI_CONTROLLER\<rparr>,
        kb_bOnlineCheck = True, kb_hbIgnore = 0\<rparr>,
      kc_phyAddr = [], kc_phy = 0, kc_bFeedback = fb, kc_szPlugin = NULL, kc_foreignType = DEVICE_TYPE_UNKNOWN,
      kc_pPrimaryKey = NULL, kc_pForeignKey = NULL, kc_body = b\<rparr>"

definition with_body :: "('b \<Rightarrow> knx_body) \<Rightarrow> 'b kconf \<Rightarrow> knx_body kconf" where
  "with_body f c = \<lparr>kc_base = kc_base c, kc_phyAddr = kc_phyAddr c, kc_phy = kc_phy c, kc_bFeedback = kc_bFeedback c,
     kc_szPlugin = kc_szPlugin c, kc_foreignType = kc_foreignType c, kc_pPrimaryKey = kc_pPrimaryKey c,
     kc_pForeignKey = kc_pForeignKey c, kc_body = f (kc_body c)\<rparr>"

subsection \<open>The selected nodes\<close>

text \<open>
  \<open>start i l\<close> is the device of the \<open>i\<close>-th node before its tags, or nothing when it cannot be allocated
  and the node is skipped; \<open>l\<close> is what is carried over from the node before.
\<close>

fun read_devices ::
  "(nat \<Rightarrow> 'c tags) \<Rightarrow> (nat \<Rightarrow> 'l \<Rightarrow> 'c option) \<Rightarrow> ('c \<Rightarrow> 'l) \<Rightarrow> ('c \<Rightarrow> 'd run) \<Rightarrow> nat \<Rightarrow> 'l \<Rightarrow> xnode list \<Rightarrow> 'd list \<Rightarrow> 'd list run" where
  "read_devices ts start carry fin i l [] lst = Done lst"
| "read_devices ts start carry fin i l (n # ns) lst =
     (case start i l of
        None \<Rightarrow> read_devices ts start carry fin (Suc i) l ns lst
      | Some c \<Rightarrow>
          andthen (siblings (ts i) (x_kids n) c)
            (\<lambda>c. andthen (fin c) (\<lambda>d. read_devices ts start carry fin (Suc i) (carry c) ns (lst @ [d]))))"

definition parse_devices ::
  "(nat \<Rightarrow> 'c tags) \<Rightarrow> (nat \<Rightarrow> 'l \<Rightarrow> 'c option) \<Rightarrow> ('c \<Rightarrow> 'l) \<Rightarrow> ('c \<Rightarrow> 'd run) \<Rightarrow> 'l
   \<Rightarrow> xnode list cptr \<Rightarrow> 'd list cptr \<Rightarrow> (int \<times> 'd list cptr) run" where
  "parse_devices ts start carry fin l nodes pList =
     (case (nodes, pList) of
        (Ptr ns, Ptr lst) \<Rightarrow> andthen (read_devices ts start carry fin 0 l ns lst) (\<lambda>lst. Done (0, Ptr lst))
      | _ \<Rightarrow> Done (- 1, pList))"

subsection \<open>Tags of all devices\<close>

text \<open>\<open>strncpy\<close> with the length of the text writes no terminating zero: a longer old text shows behind it.\<close>

definition overlay :: "string \<Rightarrow> string \<Rightarrow> string" where
  "overlay t old = take EIB_ADDR t @ drop (length (take EIB_ADDR t)) old"

definition kplugin_tag :: "xnode \<Rightarrow> 'b kconf \<Rightarrow> 'b kconf run" where
  "kplugin_tag = text_tag (\<lambda>t c. Done (c\<lparr>kc_szPlugin := Ptr t\<rparr>))"

definition kproduct_tag :: "xnode \<Rightarrow> 'b kconf \<Rightarrow> 'b kconf run" where
  "kproduct_tag = text_tag (\<lambda>t c. Done (upd_kel (\<lambda>e. e\<lparr>el_pProductId := t, el_bMaster := True, el_attri := DEVICE_ATTRI_ACTUATOR\<rparr>) c))"

definition phy_tag :: "xnode \<Rightarrow> 'b kconf \<Rightarrow> 'b kconf run" where
  "phy_tag = text_tag (\<lambda>t c. Done (c\<lparr>kc_phyAddr := overlay t (kc_phyAddr c)\<rparr>))"

text \<open>Only the parser of air conditioners computes the number of the address.\<close>

definition phy_num_tag :: "xnode \<Rightarrow> 'b kconf \<Rightarrow> 'b kconf run" where
  "phy_num_tag = text_tag (\<lambda>t c.
     let a = overlay t (kc_phyAddr c) in
     (case KnxHwAddr (Ptr a) of None \<Rightarrow> Crash | Some v \<Rightarrow> Done (c\<lparr>kc_phyAddr := a, kc_phy := v\<rparr>)))"

definition set_key :: "string \<Rightarrow> string \<Rightarrow> 'b kconf \<Rightarrow> 'b kconf" where
  "set_key mac t = upd_kel (\<lambda>e. e\<lparr>el_pPrimaryKey := make_key mac DEVICE_TYPE_KNX t,
     el_devId := key_number (make_key mac DEVICE_TYPE_KNX t)\<rparr>)"

definition kprimary_tag :: "string \<Rightarrow> xnode \<Rightarrow> 'b kconf \<Rightarrow> 'b kconf run" where
  "kprimary_tag mac = text_tag (\<lambda>t c. Done (set_key mac t c))"

text \<open>A foreign key without text: the loop repeats (\<open>continue\<close>) or goes on.\<close>

definition kforeign_tag :: "bool \<Rightarrow> xnode \<Rightarrow> 'b kconf \<Rightarrow> 'b kconf run" where
  "kforeign_tag repeats n c =
     andthen (get_content n) (\<lambda>t. case t of
         NULL \<Rightarrow> if repeats then Loops else Done (c\<lparr>kc_pForeignKey := NULL\<rparr>)
       | Ptr t \<Rightarrow> Done ((upd_kel (\<lambda>e. e\<lparr>el_pForeignKey := Ptr []\<rparr>) c)\<lparr>kc_pForeignKey := Ptr t\<rparr>))"

text \<open>An unknown type leaves the type as it is.\<close>

definition kftype_tag :: "'b kconf run \<Rightarrow> xnode \<Rightarrow> 'b kconf \<Rightarrow> 'b kconf run" where
  "kftype_tag none n c =
     andthen (get_content n) (\<lambda>t. case t of
         NULL \<Rightarrow> none
       | Ptr t \<Rightarrow> Done (case comm_type t of None \<Rightarrow> c | Some ft \<Rightarrow> c\<lparr>kc_foreignType := ft\<rparr>))"

definition kfeedback_tag :: "xnode \<Rightarrow> 'b kconf \<Rightarrow> 'b kconf run" where
  "kfeedback_tag = text_tag (\<lambda>t c. Done (if lower (first_char t) = CHR ''n'' then c\<lparr>kc_bFeedback := False\<rparr> else c))"

definition konline_tag :: "xnode \<Rightarrow> 'b kconf \<Rightarrow> 'b kconf run" where
  "konline_tag = text_tag (\<lambda>t c. Done (
     if lower (first_char t) = CHR ''n'' then c\<lparr>kc_base := (kc_base c)\<lparr>kb_bOnlineCheck := False\<rparr>\<rparr> else c))"

definition attr_tag :: "xnode \<Rightarrow> 'b kconf \<Rightarrow> 'b kconf run" where
  "attr_tag = text_tag (\<lambda>t c. Done (
     if lower (first_char t) = CHR ''c'' then upd_kel (\<lambda>e. e\<lparr>el_attri := DEVICE_ATTRI_CONTROLLER\<rparr>) c
     else if lower (first_char t) = CHR ''a'' then upd_kel (\<lambda>e. e\<lparr>el_attri := DEVICE_ATTRI_ACTUATOR\<rparr>) c
     else c))"

text \<open>The foreign key of a master; printing to a null pointer is a crash.\<close>

definition kfinish_foreign :: "string \<Rightarrow> 'b kconf \<Rightarrow> 'b kconf run" where
  "kfinish_foreign mac c =
     (case kc_pForeignKey c of
        NULL \<Rightarrow> Done c
      | Ptr t \<Rightarrow>
          if \<not> el_bMaster (kc_element c) then Done c
          else if el_pForeignKey (kc_element c) = NULL then Crash
          else Done (upd_kel (\<lambda>e. e\<lparr>el_pForeignKey := Ptr (make_key mac (kc_foreignType c) t)\<rparr>) c))"

subsection \<open>Groups of objects\<close>

type_synonym objs = "slot \<Rightarrow> grp_obj cptr"

definition set_obj :: "slot \<Rightarrow> grp_obj cptr \<Rightarrow> objs kconf \<Rightarrow> objs kconf" where
  "set_obj s p c = c\<lparr>kc_body := (kc_body c)(s := p)\<rparr>"

definition new_grp :: "PointFeature \<Rightarrow> string \<Rightarrow> u64 \<Rightarrow> grp_obj" where
  "new_grp f a tm = \<lparr>go_obj = \<lparr>ko_localPoint = feature_code f, ko_value = 0\<rparr>, go_cloudPoint = 0, go_addr = a, go_timestamp = tm\<rparr>"

text \<open>The state of the loop over the children of a point has the data point in addition.\<close>

definition addr_of :: "slot \<Rightarrow> PointFeature \<Rightarrow> u64 \<Rightarrow> xnode \<Rightarrow> objs kconf \<times> int \<Rightarrow> (objs kconf \<times> int) run" where
  "addr_of s f tm = text_tag (\<lambda>t (c, dp).
     case isKnxGroupAddr (Ptr t) of
       None \<Rightarrow> Crash
     | Some r \<Rightarrow> if r \<noteq> 0 then Exits else Done (set_obj s (Ptr (new_grp f (take EIB_ADDR t) tm)) c, dp))"

definition dp_of :: "xnode \<Rightarrow> objs kconf \<times> int \<Rightarrow> (objs kconf \<times> int) run" where
  "dp_of = num_tag (\<lambda>v (c, dp). Done (c, v))"

definition settle :: "int \<Rightarrow> slot \<Rightarrow> objs kconf \<Rightarrow> objs kconf" where
  "settle dp s c =
     (case kc_body c s of
        NULL \<Rightarrow> c
      | Ptr g \<Rightarrow> set_obj s (if 0 < dp \<and> dp < 200 then Ptr (g\<lparr>go_cloudPoint := dp\<rparr>) else NULL) c)"

text \<open>\<open>es\<close> lists the names of the children with the objects they make.\<close>

definition group_tag :: "(string \<times> slot \<times> PointFeature \<times> u64) list \<Rightarrow> xnode \<Rightarrow> objs kconf \<Rightarrow> objs kconf run" where
  "group_tag es n c =
     andthen (siblings (map (\<lambda>(nm, s, f, tm). (nm, addr_of s f tm)) es @ [(''DataPoint'', dp_of)]) (x_kids n) (c, 0))
       (\<lambda>(c, dp). Done (fold (\<lambda>(nm, s, f, tm). settle dp s) es c))"

subsection \<open>Air conditioners\<close>

text \<open>The objects of air conditioners have no time but the room temperature.\<close>

definition kacd_line :: "string \<Rightarrow> objs kconf tags" where
  "kacd_line mac =
     [(''SharedLibrary'', kplugin_tag), (''ProductID'', kproduct_tag), (''PhyAddr'', phy_num_tag), (''PrimaryKey'', kprimary_tag mac),
      (''ForeignKey'', kforeign_tag True), (''ForeignType'', kftype_tag Exits), (''Feedback'', kfeedback_tag),
      (''OnlineCheck'', konline_tag), (''DeviceAttr'', attr_tag)]"

definition kacd_switch :: "xnode \<Rightarrow> objs kconf \<Rightarrow> objs kconf run" where
  "kacd_switch = group_tag [(''Ctrl'', pSwitch, ACD_SWITCH, 0), (''Status'', pSwitchStatus, ACD_SWITCH_STATUS, 0)]"

definition kacd_speed :: "xnode \<Rightarrow> objs kconf \<Rightarrow> objs kconf run" where
  "kacd_speed = group_tag [(''Ctrl'', pSpeed, ACD_SPEED, 0), (''Status'', pSpeedStatus, ACD_SPEED_STATUS, 0)]"

definition kacd_mode :: "xnode \<Rightarrow> objs kconf \<Rightarrow> objs kconf run" where
  "kacd_mode = group_tag [(''Ctrl'', pMode, ACD_MODE, 0), (''Status'', pModeStatus, ACD_MODE_STATUS, 0)]"

definition kacd_temp :: "xnode \<Rightarrow> objs kconf \<Rightarrow> objs kconf run" where
  "kacd_temp = group_tag [(''Ctrl'', pTemp, ACD_TEMP, 0), (''Status'', pTempStatus, ACD_TEMP_STATUS, 0)]"

definition kacd_env_temp :: "(slot \<Rightarrow> u64) \<Rightarrow> xnode \<Rightarrow> objs kconf \<Rightarrow> objs kconf run" where
  "kacd_env_temp tm = group_tag [(''Temp'', pEnvTemp, ACD_ENV_TEMP, tm pEnvTemp)]"

definition kacd_fault :: "xnode \<Rightarrow> objs kconf \<Rightarrow> objs kconf run" where
  "kacd_fault = group_tag [(''Ctrl'', pErrorCode, FREATURE_FAULT, 0)]"

definition kacd_points :: "(slot \<Rightarrow> u64) \<Rightarrow> objs kconf tags" where
  "kacd_points tm = [(''Switch'', kacd_switch), (''Speed'', kacd_speed), (''Mode'', kacd_mode), (''Temp'', kacd_temp), (''EnvTemp'', kacd_env_temp tm), (''Fault'', kacd_fault)]"

lemmas kacd_point_defs = kacd_points_def kacd_switch_def kacd_speed_def kacd_mode_def kacd_temp_def kacd_env_temp_def kacd_fault_def

text \<open>The three parsers differ in their tables and the name and type of the device.\<close>

definition parse_objects ::
  "string \<Rightarrow> string \<Rightarrow> DeviceType \<Rightarrow> (nat \<Rightarrow> objs kconf tags) \<Rightarrow> (nat \<Rightarrow> bool) \<Rightarrow> xnode list cptr \<Rightarrow> knx_body kconf list cptr
   \<Rightarrow> (int \<times> knx_body kconf list cptr) run" where
  "parse_objects mac nm ty ts al =
     parse_devices ts (\<lambda>i _. if al i then Some (new_kconf nm (device_code ty) True (\<lambda>_. NULL)) else None) (\<lambda>_. ())
       (\<lambda>c. andthen (kfinish_foreign mac c) (\<lambda>c. Done (with_body Objects c))) ()"

definition ParseKnxAcdCfg ::
  "string \<Rightarrow> (nat \<Rightarrow> slot \<Rightarrow> u64) \<Rightarrow> (nat \<Rightarrow> bool) \<Rightarrow> xnode list cptr \<Rightarrow> knx_body kconf list cptr \<Rightarrow> (int \<times> knx_body kconf list cptr) run" where
  "ParseKnxAcdCfg mac tm = parse_objects mac ''Aircondition'' KNX_DEVICE_AIRCONDITION (\<lambda>i. kacd_line mac @ kacd_points (tm i))"

subsection \<open>Ventilation\<close>

text \<open>
  The objects of the room temperature and of the fault are made before their children are read,
  and kept unless they have no address or a data point above 200. A fault with a bad address or
  number is passed over.
\<close>

definition upd_grp :: "slot \<Rightarrow> (grp_obj \<Rightarrow> grp_obj) \<Rightarrow> objs kconf \<Rightarrow> objs kconf run" where
  "upd_grp s f c = (case kc_body c s of NULL \<Rightarrow> Crash | Ptr g \<Rightarrow> Done (set_obj s (Ptr (f g)) c))"

definition fill_grp :: "PointFeature \<Rightarrow> string \<Rightarrow> u64 \<Rightarrow> grp_obj \<Rightarrow> grp_obj" where
  "fill_grp f t tm g = g\<lparr>go_obj := (go_obj g)\<lparr>ko_localPoint := feature_code f\<rparr>, go_addr := overlay t (go_addr g), go_timestamp := tm\<rparr>"

definition env_addr :: "u64 \<Rightarrow> xnode \<Rightarrow> objs kconf \<Rightarrow> objs kconf run" where
  "env_addr tm n c =
     andthen (get_content n) (\<lambda>t. case t of
         NULL \<Rightarrow> Exits
       | Ptr t \<Rightarrow> (case isKnxGroupAddr (Ptr t) of
             None \<Rightarrow> Crash
           | Some r \<Rightarrow> if r \<noteq> 0 then Exits else upd_grp pEnvTemp (fill_grp VENT_ENV_TEMP t tm) c))"

definition env_dp :: "xnode \<Rightarrow> objs kconf \<Rightarrow> objs kconf run" where
  "env_dp n c =
     andthen (get_content n) (\<lambda>t. case t of
         NULL \<Rightarrow> Exits
       | Ptr t \<Rightarrow> (case num_of t of (v, err) \<Rightarrow> if err then Exits else upd_grp pEnvTemp (\<lambda>g. g\<lparr>go_cloudPoint := v\<rparr>) c))"

definition fault_addr :: "u64 \<Rightarrow> xnode \<Rightarrow> objs kconf \<Rightarrow> objs kconf run" where
  "fault_addr tm = text_tag (\<lambda>t c.
     case isKnxGroupAddr (Ptr t) of
       None \<Rightarrow> Crash
     | Some r \<Rightarrow> if r \<noteq> 0 then Done c else upd_grp pErrorCode (fill_grp FREATURE_FAULT t tm) c)"

definition fault_dp :: "xnode \<Rightarrow> objs kconf \<Rightarrow> objs kconf run" where
  "fault_dp = text_tag (\<lambda>t c. upd_grp pErrorCode (\<lambda>g. g\<lparr>go_cloudPoint := fst (num_of t)\<rparr>) c)"

definition keep_filled :: "slot \<Rightarrow> objs kconf \<Rightarrow> objs kconf" where
  "keep_filled s c =
     (case kc_body c s of
        NULL \<Rightarrow> c
      | Ptr g \<Rightarrow> if ko_localPoint (go_obj g) = feature_code FEATURE_UNKNOWN \<or> 200 < go_cloudPoint g then set_obj s NULL c else c)"

definition filled_tag :: "slot \<Rightarrow> objs kconf tags \<Rightarrow> xnode \<Rightarrow> objs kconf \<Rightarrow> objs kconf run" where
  "filled_tag s ts n c =
     andthen (siblings ts (x_kids n) (set_obj s (Ptr (new_grp FEATURE_UNKNOWN [] 0)) c)) (\<lambda>c. Done (keep_filled s c))"

definition kvent_line :: "string \<Rightarrow> objs kconf tags" where
  "kvent_line mac =
     [(''SharedLibrary'', kplugin_tag), (''ProductID'', kproduct_tag), (''PhyAddr'', phy_tag), (''PrimaryKey'', kprimary_tag mac),
      (''ForeignKey'', kforeign_tag False), (''ForeignType'', kftype_tag Exits), (''Feedback'', kfeedback_tag),
      (''OnlineCheck'', konline_tag), (''DeviceAttr'', attr_tag)]"

definition kvent_switch :: "(slot \<Rightarrow> u64) \<Rightarrow> xnode \<Rightarrow> objs kconf \<Rightarrow> objs kconf run" where
  "kvent_switch tm = group_tag [(''Ctrl'', pSwitch, VENT_SWITCH, 0), (''Status'', pSwitchStatus, VENT_SWITCH_STATUS, tm pSwitchStatus)]"

definition kvent_speed :: "(slot \<Rightarrow> u64) \<Rightarrow> xnode \<Rightarrow> objs kconf \<Rightarrow> objs kconf run" where
  "kvent_speed tm = group_tag [(''Ctrl'', pSpeed, VENT_SPEED, 0), (''Status'', pSpeedStatus, VENT_SPEED_STATUS, tm pSpeedStatus)]"

definition kvent_env_temp :: "(slot \<Rightarrow> u64) \<Rightarrow> xnode \<Rightarrow> objs kconf \<Rightarrow> objs kconf run" where
  "kvent_env_temp tm = filled_tag pEnvTemp [(''Temp'', env_addr (tm pEnvTemp)), (''DataPoint'', env_dp)]"

definition kvent_fault :: "(slot \<Rightarrow> u64) \<Rightarrow> xnode \<Rightarrow> objs kconf \<Rightarrow> objs kconf run" where
  "kvent_fault tm = filled_tag pErrorCode [(''Ctrl'', fault_addr (tm pErrorCode)), (''DataPoint'', fault_dp)]"

definition kvent_points :: "(slot \<Rightarrow> u64) \<Rightarrow> objs kconf tags" where
  "kvent_points tm = [(''Switch'', kvent_switch tm), (''Speed'', kvent_speed tm), (''EnvTemp'', kvent_env_temp tm), (''Fault'', kvent_fault tm)]"

lemmas kvent_point_defs = kvent_points_def kvent_switch_def kvent_speed_def kvent_env_temp_def kvent_fault_def

definition ParseKnxVentCfg ::
  "string \<Rightarrow> (nat \<Rightarrow> slot \<Rightarrow> u64) \<Rightarrow> (nat \<Rightarrow> bool) \<Rightarrow> xnode list cptr \<Rightarrow> knx_body kconf list cptr \<Rightarrow> (int \<times> knx_body kconf list cptr) run" where
  "ParseKnxVentCfg mac tm = parse_objects mac ''Ventilation'' KNX_DEVICE_VENTILATION (\<lambda>i. kvent_line mac @ kvent_points (tm i))"

subsection \<open>Floor heating\<close>

definition kheat_line :: "string \<Rightarrow> objs kconf tags" where
  "kheat_line mac =
     [(''SharedLibrary'', kplugin_tag), (''ProductID'', kproduct_tag), (''PhyAddr'', phy_tag), (''PrimaryKey'', kprimary_tag mac),
      (''ForeignKey'', kforeign_tag False), (''ForeignType'', kftype_tag Crash), (''Feedback'', kfeedback_tag),
      (''OnlineCheck'', konline_tag), (''DeviceAttr'', attr_tag)]"

definition kheat_switch :: "(slot \<Rightarrow> u64) \<Rightarrow> xnode \<Rightarrow> objs kconf \<Rightarrow> objs kconf run" where
  "kheat_switch tm = group_tag [(''Ctrl'', pSwitch, HEAT_SWITCH, 0), (''Status'', pSwitchStatus, HEAT_SWITCH_STATUS, tm pSwitchStatus)]"

definition kheat_temp :: "(slot \<Rightarrow> u64) \<Rightarrow> xnode \<Rightarrow> objs kconf \<Rightarrow> objs kconf run" where
  "kheat_temp tm = group_tag [(''Ctrl'', pTemp, HEAT_TEMP, 0), (''Status'', pTempStatus, HEAT_TEMP_STATUS, tm pTempStatus)]"

definition kheat_valve :: "xnode \<Rightarrow> objs kconf \<Rightarrow> objs kconf run" where
  "kheat_valve = group_tag [(''Status'', pValve, HEAT_VALVE_STATUS, 0)]"

definition kheat_env_temp :: "(slot \<Rightarrow> u64) \<Rightarrow> xnode \<Rightarrow> objs kconf \<Rightarrow> objs kconf run" where
  "kheat_env_temp tm = group_tag [(''Temp'', pEnvTemp, HEAT_ENV_TEMP, tm pEnvTemp)]"

definition kheat_fault :: "(slot \<Rightarrow> u64) \<Rightarrow> xnode \<Rightarrow> objs kconf \<Rightarrow> objs kconf run" where
  "kheat_fault tm = group_tag [(''Ctrl'', pErrorCode, FREATURE_FAULT, tm pErrorCode)]"

definition kheat_points :: "(slot \<Rightarrow> u64) \<Rightarrow> objs kconf tags" where
  "kheat_points tm = [(''Switch'', kheat_switch tm), (''Temp'', kheat_temp tm), (''Valve'', kheat_valve), (''EnvTemp'', kheat_env_temp tm), (''Fault'', kheat_fault tm)]"

lemmas kheat_point_defs = kheat_points_def kheat_switch_def kheat_temp_def kheat_valve_def kheat_env_temp_def kheat_fault_def

definition ParseKnxHeatCfg ::
  "string \<Rightarrow> (nat \<Rightarrow> slot \<Rightarrow> u64) \<Rightarrow> (nat \<Rightarrow> bool) \<Rightarrow> xnode list cptr \<Rightarrow> knx_body kconf list cptr \<Rightarrow> (int \<times> knx_body kconf list cptr) run" where
  "ParseKnxHeatCfg mac tm = parse_objects mac ''FloorHeating'' KNX_DEVICE_FLOORHEATING (\<lambda>i. kheat_line mac @ kheat_points (tm i))"

subsection \<open>What a reader of devices keeps\<close>

text \<open>
  If the tags of every cell keep a property, a new device has it and the last steps turn it into a
  property of finished devices, then every device that is added to the list has the latter.
\<close>

locale device_reader =
  fixes ts :: "nat \<Rightarrow> 'c tags"
    and start :: "nat \<Rightarrow> 'l \<Rightarrow> 'c option"
    and carry :: "'c \<Rightarrow> 'l"
    and fin :: "'c \<Rightarrow> 'd run"
    and I :: "'c \<Rightarrow> bool"
    and D :: "'d \<Rightarrow> bool"
  assumes tags_law: "(t, f) \<in> set (ts i) \<Longrightarrow> I s \<Longrightarrow> f n s = Done s' \<Longrightarrow> I s'"
    and start_law: "start i l = Some c \<Longrightarrow> I c"
    and fin_law: "I c \<Longrightarrow> fin c = Done d \<Longrightarrow> D d"
begin

sublocale cell: tag_invariant "ts i" I for i
  by unfold_locales (rule tags_law)

lemma read_devices_adds:
  "read_devices ts start carry fin i l ns lst = Done lst' \<Longrightarrow> \<exists>new. lst' = lst @ new \<and> list_all D new"
proof (induction ns arbitrary: i l lst)
  case (Cons n ns)
  show ?case
  proof (cases "start i l")
    case None
    with Cons show ?thesis by auto
  next
    case (Some c)
    with Cons.prems obtain c1 d where c1: "siblings (ts i) (x_kids n) c = Done c1" and d: "fin c1 = Done d"
      and r: "read_devices ts start carry fin (Suc i) (carry c1) ns (lst @ [d]) = Done lst'"
      by (auto simp: andthen_Done)
    have "D d" using fin_law [OF cell.siblings_keep [OF start_law [OF Some] c1] d] .
    with Cons.IH [OF r] show ?thesis by auto
  qed
qed simp

lemma parse_devices_adds:
  assumes "parse_devices ts start carry fin l nodes (Ptr lst) = Done (ret, q)"
  shows "\<exists>new. q = Ptr (lst @ new) \<and> list_all D new"
proof (cases nodes)
  case NULL
  with assms show ?thesis by (auto simp: parse_devices_def)
next
  case (Ptr ns)
  with assms obtain lst' where "read_devices ts start carry fin 0 l ns lst = Done lst'" "q = Ptr lst'"
    by (auto simp: parse_devices_def andthen_Done)
  with read_devices_adds show ?thesis by blast
qed

end

subsection \<open>What every configured group satisfies\<close>

text \<open>
  An object has the local point of its place, a group address that the check accepts, and a data
  point between 1 and 199. \<open>E\<close> are the places that are being filled.
\<close>

definition addr_ok :: "(slot \<Rightarrow> PointFeature) \<Rightarrow> slot \<Rightarrow> grp_obj \<Rightarrow> bool" where
  "addr_ok tbl s g \<longleftrightarrow> ko_localPoint (go_obj g) = feature_code (tbl s) \<and> (\<exists>t. go_addr g = take EIB_ADDR t \<and> isKnxGroupAddr (Ptr t) = Some 0)"

definition grp_ok :: "(slot \<Rightarrow> PointFeature) \<Rightarrow> slot \<Rightarrow> grp_obj \<Rightarrow> bool" where
  "grp_ok tbl s g \<longleftrightarrow> addr_ok tbl s g \<and> 0 < go_cloudPoint g \<and> go_cloudPoint g < 200"

definition filling :: "(slot \<Rightarrow> PointFeature) \<Rightarrow> slot set \<Rightarrow> slot set \<Rightarrow> objs kconf \<Rightarrow> bool" where
  "filling tbl S E c \<longleftrightarrow> key_ok (kc_element c)
     \<and> (\<forall>s g. s \<in> S \<longrightarrow> kc_body c s = Ptr g \<longrightarrow> (if s \<in> E then addr_ok tbl s g else grp_ok tbl s g))"

lemma upd_kel_simps [simp]:
  "kc_element (upd_kel f c) = f (kc_element c)" "kc_body (upd_kel f c) = kc_body c" "kc_pForeignKey (upd_kel f c) = kc_pForeignKey c"
  "kc_pPrimaryKey (upd_kel f c) = kc_pPrimaryKey c" "kc_foreignType (upd_kel f c) = kc_foreignType c"
  "kc_base (upd_kel f c) = (kc_base c)\<lparr>kb_element := f (kc_element c)\<rparr>"
  by (simp_all add: upd_kel_def)

lemma set_obj_simps [simp]: "kc_base (set_obj s p c) = kc_base c" "kc_body (set_obj s p c) = (kc_body c)(s := p)"
  by (simp_all add: set_obj_def)

lemma filling_same:
  "filling tbl S E c \<Longrightarrow> kc_body c' = kc_body c \<Longrightarrow> el_pPrimaryKey (kc_element c') = el_pPrimaryKey (kc_element c) \<Longrightarrow>
   el_devId (kc_element c') = el_devId (kc_element c) \<Longrightarrow> filling tbl S E c'"
  by (simp add: filling_def key_ok_def)

named_theorems ktag_keeps

lemma plain_ktags_keep [ktag_keeps]:
  "filling tbl S E c \<Longrightarrow> kplugin_tag n c = Done c' \<Longrightarrow> filling tbl S E c'"
  "filling tbl S E c \<Longrightarrow> kproduct_tag n c = Done c' \<Longrightarrow> filling tbl S E c'"
  "filling tbl S E c \<Longrightarrow> phy_tag n c = Done c' \<Longrightarrow> filling tbl S E c'"
  "filling tbl S E c \<Longrightarrow> kfeedback_tag n c = Done c' \<Longrightarrow> filling tbl S E c'"
  "filling tbl S E c \<Longrightarrow> konline_tag n c = Done c' \<Longrightarrow> filling tbl S E c'"
  "filling tbl S E c \<Longrightarrow> attr_tag n c = Done c' \<Longrightarrow> filling tbl S E c'"
  unfolding kplugin_tag_def kproduct_tag_def phy_tag_def kfeedback_tag_def konline_tag_def attr_tag_def text_tag_Done
  by (auto elim!: filling_same split: if_splits)

lemma phy_num_tag_keeps [ktag_keeps]: "filling tbl S E c \<Longrightarrow> phy_num_tag n c = Done c' \<Longrightarrow> filling tbl S E c'"
  unfolding phy_num_tag_def text_tag_Done Let_def by (auto elim!: filling_same split: option.splits)

lemma key_ktags_keep [ktag_keeps]:
  "length mac = 12 \<Longrightarrow> filling tbl S E c \<Longrightarrow> kprimary_tag mac n c = Done c' \<Longrightarrow> filling tbl S E c'"
  "filling tbl S E c \<Longrightarrow> kforeign_tag r n c = Done c' \<Longrightarrow> filling tbl S E c'"
  "filling tbl S E c \<Longrightarrow> kftype_tag Exits n c = Done c' \<Longrightarrow> filling tbl S E c'"
  "filling tbl S E c \<Longrightarrow> kftype_tag Crash n c = Done c' \<Longrightarrow> filling tbl S E c'"
  unfolding kprimary_tag_def kforeign_tag_def kftype_tag_def text_tag_Done content_Done set_key_def
  by (auto simp: filling_def key_ok_def make_key_length split: if_splits option.splits)

subsection \<open>Points keep it\<close>

lemma new_grp_ok: "isKnxGroupAddr (Ptr t) = Some 0 \<Longrightarrow> addr_ok tbl s (new_grp (tbl s) (take EIB_ADDR t) tm)"
  by (auto simp: addr_ok_def new_grp_def)

lemma number_run:
  "(case num_of t of (v, err) \<Rightarrow> if err then Exits else g v) = Done s' \<longleftrightarrow> (\<exists>v. num_of t = (v, False) \<and> g v = Done s')"
  by (cases "num_of t") auto

lemma addr_of_keeps:
  "s \<in> E \<Longrightarrow> f = tbl s \<Longrightarrow> filling tbl S E (fst x) \<Longrightarrow> addr_of s f tm n x = Done x' \<Longrightarrow> filling tbl S E (fst x')"
  unfolding addr_of_def text_tag_Done
  by (cases x) (auto simp: filling_def new_grp_ok split: option.splits if_splits)

lemma dp_of_keeps: "filling tbl S E (fst x) \<Longrightarrow> dp_of n x = Done x' \<Longrightarrow> filling tbl S E (fst x')"
  unfolding dp_of_def num_tag_Done by (cases x) auto

definition settled :: "int \<Rightarrow> grp_obj cptr \<Rightarrow> grp_obj cptr" where
  "settled dp p = (case p of NULL \<Rightarrow> NULL | Ptr g \<Rightarrow> if 0 < dp \<and> dp < 200 then Ptr (g\<lparr>go_cloudPoint := dp\<rparr>) else NULL)"

lemma settle_settled: "kc_body (settle dp s c) = (kc_body c)(s := settled dp (kc_body c s))" "kc_base (settle dp s c) = kc_base c"
  by (auto simp: settle_def settled_def fun_eq_iff split: cptr.splits)

lemma settled_twice: "settled dp (settled dp p) = settled dp p"
  by (simp add: settled_def split: cptr.splits)

lemma settle_all:
  "kc_base (fold (\<lambda>(nm, s, f, tm). settle dp s) es c) = kc_base c"
  "kc_body (fold (\<lambda>(nm, s, f, tm). settle dp s) es c) s =
     (if s \<in> (\<lambda>(nm, s, f, tm). s) ` set es then settled dp (kc_body c s) else kc_body c s)"
proof (induction es arbitrary: c)
  case (Cons e es)
  {
    case 1
    show ?case using Cons.IH(1) by (auto simp: settle_settled split: prod.splits)
  next
    case 2
    show ?case using Cons.IH(2) by (auto simp: settle_settled settled_twice split: prod.splits)
  }
qed simp_all

lemma settled_ok: "settled dp p = Ptr g \<Longrightarrow> (\<And>h. p = Ptr h \<Longrightarrow> addr_ok tbl s h) \<Longrightarrow> grp_ok tbl s g"
  by (fastforce simp: settled_def grp_ok_def addr_ok_def split: cptr.splits if_splits)

lemma group_tag_keeps:
  assumes "\<forall>(nm, s, f, tm) \<in> set es. f = tbl s" and "filling tbl S {} c" and "group_tag es n c = Done c'"
  shows "filling tbl S {} c'"
proof -
  define E where "E = (\<lambda>(nm, s, f, tm). s) ` set es"
  let ?ts = "map (\<lambda>(nm, s, f, tm). (nm, addr_of s f tm)) es @ [(''DataPoint'', dp_of)]"
  obtain c1 dp where r: "siblings ?ts (x_kids n) (c, 0) = Done (c1, dp)" and c': "c' = fold (\<lambda>(nm, s, f, tm). settle dp s) es c1"
    using assms(3) by (auto simp: group_tag_def andthen_Done)
  have "tag_invariant ?ts (\<lambda>x. filling tbl S E (fst x))"
  proof
    fix t f x m x'
    assume m: "(t, f) \<in> set ?ts" and x: "filling tbl S E (fst x)" "f m x = Done x'"
    from m consider s g tm where "(t, s, g, tm) \<in> set es" "f = addr_of s g tm" | "f = dp_of" by auto
    then show "filling tbl S E (fst x')"
    proof cases
      case 1
      then have "s \<in> E" unfolding E_def by force
      moreover have "g = tbl s" using assms(1) 1(1) by auto
      ultimately show ?thesis using addr_of_keeps x 1(2) by blast
    qed (use x dp_of_keeps in blast)
  qed
  moreover have "filling tbl S E (fst (c, 0 :: int))" using assms(2) by (auto simp: filling_def grp_ok_def)
  ultimately have "filling tbl S E c1" using tag_invariant.siblings_keep [OF _ _ r] by fastforce
  then show ?thesis
    unfolding c' by (auto simp: filling_def settle_all E_def [symmetric] intro: settled_ok)
qed

text \<open>The tags that fill an object outside of the places in question do not matter.\<close>

lemma filling_outside: "filling tbl S E c \<Longrightarrow> s \<notin> S \<Longrightarrow> filling tbl S E (set_obj s p c)"
  by (auto simp: filling_def)

lemma upd_grp_keeps: "filling tbl S E c \<Longrightarrow> s \<notin> S \<Longrightarrow> upd_grp s f c = Done c' \<Longrightarrow> filling tbl S E c'"
  by (auto simp: upd_grp_def filling_outside split: cptr.splits)

lemma vent_children_keep:
  assumes "pEnvTemp \<notin> S" and "pErrorCode \<notin> S" and "filling tbl S E c"
  shows "env_addr tm n c = Done c' \<Longrightarrow> filling tbl S E c'" "env_dp n c = Done c' \<Longrightarrow> filling tbl S E c'"
    "fault_addr tm n c = Done c' \<Longrightarrow> filling tbl S E c'" "fault_dp n c = Done c' \<Longrightarrow> filling tbl S E c'"
  using assms unfolding env_addr_def env_dp_def fault_addr_def fault_dp_def text_tag_Done content_Done number_run
  by (auto split: option.splits if_splits intro: upd_grp_keeps)

lemma filled_tag_keeps:
  assumes "s \<notin> S" and "\<And>t f c n c'. (t, f) \<in> set ts \<Longrightarrow> filling tbl S E c \<Longrightarrow> f n c = Done c' \<Longrightarrow> filling tbl S E c'"
    and "filling tbl S E c" and "filled_tag s ts n c = Done c'"
  shows "filling tbl S E c'"
proof -
  obtain c1 where r: "siblings ts (x_kids n) (set_obj s (Ptr (new_grp FEATURE_UNKNOWN [] 0)) c) = Done c1" and c': "c' = keep_filled s c1"
    using assms(4) by (auto simp: filled_tag_def andthen_Done)
  have "tag_invariant ts (filling tbl S E)" by unfold_locales (rule assms(2))
  from tag_invariant.siblings_keep [OF this filling_outside [OF assms(3,1)] r] show ?thesis
    using assms(1) by (auto simp: c' keep_filled_def filling_outside split: cptr.splits)
qed

subsection \<open>The three parsers\<close>

fun acd_feature :: "slot \<Rightarrow> PointFeature" where
  "acd_feature pSwitch = ACD_SWITCH" | "acd_feature pSwitchStatus = ACD_SWITCH_STATUS" | "acd_feature pSpeed = ACD_SPEED"
| "acd_feature pSpeedStatus = ACD_SPEED_STATUS" | "acd_feature pMode = ACD_MODE" | "acd_feature pModeStatus = ACD_MODE_STATUS"
| "acd_feature pTemp = ACD_TEMP" | "acd_feature pTempStatus = ACD_TEMP_STATUS" | "acd_feature pEnvTemp = ACD_ENV_TEMP"
| "acd_feature pErrorCode = FREATURE_FAULT" | "acd_feature pValve = FEATURE_UNKNOWN"

fun vent_feature :: "slot \<Rightarrow> PointFeature" where
  "vent_feature pSwitch = VENT_SWITCH" | "vent_feature pSwitchStatus = VENT_SWITCH_STATUS" | "vent_feature pSpeed = VENT_SPEED"
| "vent_feature pSpeedStatus = VENT_SPEED_STATUS" | "vent_feature _ = FEATURE_UNKNOWN"

fun heat_feature :: "slot \<Rightarrow> PointFeature" where
  "heat_feature pSwitch = HEAT_SWITCH" | "heat_feature pSwitchStatus = HEAT_SWITCH_STATUS" | "heat_feature pTemp = HEAT_TEMP"
| "heat_feature pTempStatus = HEAT_TEMP_STATUS" | "heat_feature pValve = HEAT_VALVE_STATUS" | "heat_feature pEnvTemp = HEAT_ENV_TEMP"
| "heat_feature pErrorCode = FREATURE_FAULT" | "heat_feature _ = FEATURE_UNKNOWN"

definition knx_ok :: "(slot \<Rightarrow> PointFeature) \<Rightarrow> slot set \<Rightarrow> knx_body kconf \<Rightarrow> bool" where
  "knx_ok tbl S d \<longleftrightarrow> key_ok (kc_element d) \<and> (\<exists>os. kc_body d = Objects os \<and> (\<forall>s \<in> S. \<forall>g. os s = Ptr g \<longrightarrow> grp_ok tbl s g))"

abbreviation new_objects :: "string \<Rightarrow> DeviceType \<Rightarrow> (nat \<Rightarrow> bool) \<Rightarrow> nat \<Rightarrow> unit \<Rightarrow> objs kconf option" where
  "new_objects nm ty al i l \<equiv> if al i then Some (new_kconf nm (device_code ty) True (\<lambda>_. NULL)) else None"

abbreviation finish_objects :: "string \<Rightarrow> objs kconf \<Rightarrow> knx_body kconf run" where
  "finish_objects mac c \<equiv> andthen (kfinish_foreign mac c) (\<lambda>c. Done (with_body Objects c))"

lemma new_objects_filling: "new_objects nm ty al i l = Some c \<Longrightarrow> filling tbl S {} c"
  by (auto simp: new_kconf_def filling_def key_ok_def split: if_splits)

lemma finish_objects_ok: "filling tbl S {} c \<Longrightarrow> finish_objects mac c = Done d \<Longrightarrow> knx_ok tbl S d"
  by (auto simp: andthen_Done kfinish_foreign_def knx_ok_def with_body_def filling_def key_ok_def split: cptr.splits if_splits)

lemmas objects_laws = new_objects_filling finish_objects_ok

interpretation kacd: device_reader "\<lambda>i. kacd_line mac @ kacd_points (tm i)" "new_objects ''Aircondition'' KNX_DEVICE_AIRCONDITION al"
  "\<lambda>_. ()" "finish_objects mac" "\<lambda>c. length mac = 12 \<longrightarrow> filling acd_feature UNIV {} c" "\<lambda>d. length mac = 12 \<longrightarrow> knx_ok acd_feature UNIV d"
  for mac tm al
proof (unfold_locales, goal_cases)
  case (1 t f i s n s')
  then show ?case unfolding kacd_line_def kacd_point_defs by (auto dest: ktag_keeps elim!: group_tag_keeps [rotated 2])
qed (blast dest: objects_laws)+

interpretation kheat: device_reader "\<lambda>i. kheat_line mac @ kheat_points (tm i)" "new_objects ''FloorHeating'' KNX_DEVICE_FLOORHEATING al"
  "\<lambda>_. ()" "finish_objects mac" "\<lambda>c. length mac = 12 \<longrightarrow> filling heat_feature UNIV {} c" "\<lambda>d. length mac = 12 \<longrightarrow> knx_ok heat_feature UNIV d"
  for mac tm al
proof (unfold_locales, goal_cases)
  case (1 t f i s n s')
  then show ?case unfolding kheat_line_def kheat_point_defs by (auto dest: ktag_keeps elim!: group_tag_keeps [rotated 2])
qed (blast dest: objects_laws)+

lemma vent_filled_keep [ktag_keeps]:
  assumes "filling tbl (- {pEnvTemp, pErrorCode}) {} c"
  shows "filled_tag pEnvTemp [(''Temp'', env_addr tm), (''DataPoint'', env_dp)] n c = Done c' \<Longrightarrow> filling tbl (- {pEnvTemp, pErrorCode}) {} c'"
    "filled_tag pErrorCode [(''Ctrl'', fault_addr tm), (''DataPoint'', fault_dp)] n c = Done c' \<Longrightarrow> filling tbl (- {pEnvTemp, pErrorCode}) {} c'"
  using assms by (auto elim!: filled_tag_keeps [rotated 3] dest: vent_children_keep [rotated 2])

interpretation kvent: device_reader "\<lambda>i. kvent_line mac @ kvent_points (tm i)" "new_objects ''Ventilation'' KNX_DEVICE_VENTILATION al"
  "\<lambda>_. ()" "finish_objects mac" "\<lambda>c. length mac = 12 \<longrightarrow> filling vent_feature (- {pEnvTemp, pErrorCode}) {} c"
  "\<lambda>d. length mac = 12 \<longrightarrow> knx_ok vent_feature (- {pEnvTemp, pErrorCode}) d" for mac tm al
proof (unfold_locales, goal_cases)
  case (1 t f i s n s')
  then show ?case unfolding kvent_line_def kvent_point_defs by (auto dest: ktag_keeps elim!: group_tag_keeps [rotated 2])
qed (blast dest: objects_laws)+

text \<open>The parsers with the local points of their objects and the places whose objects are checked.\<close>

definition object_parsers ::
  "((string \<Rightarrow> (nat \<Rightarrow> slot \<Rightarrow> u64) \<Rightarrow> (nat \<Rightarrow> bool) \<Rightarrow> xnode list cptr \<Rightarrow> knx_body kconf list cptr \<Rightarrow> (int \<times> knx_body kconf list cptr) run)
    \<times> (slot \<Rightarrow> PointFeature) \<times> slot set) list" where
  "object_parsers = [(ParseKnxAcdCfg, acd_feature, UNIV), (ParseKnxVentCfg, vent_feature, - {pEnvTemp, pErrorCode}),
     (ParseKnxHeatCfg, heat_feature, UNIV)]"

lemma object_parser_adds:
  assumes "(parse, tbl, S) \<in> set object_parsers" and "parse mac tm al nodes (Ptr lst) = Done (ret, q)"
  shows "\<exists>new. q = Ptr (lst @ new) \<and> list_all (\<lambda>d. length mac = 12 \<longrightarrow> knx_ok tbl S d) new"
proof -
  consider "parse = ParseKnxAcdCfg" "tbl = acd_feature" "S = UNIV"
    | "parse = ParseKnxVentCfg" "tbl = vent_feature" "S = - {pEnvTemp, pErrorCode}"
    | "parse = ParseKnxHeatCfg" "tbl = heat_feature" "S = UNIV"
    using assms(1) by (auto simp: object_parsers_def)
  then show ?thesis
  proof cases
    case 1
    show ?thesis using assms(2) unfolding 1 ParseKnxAcdCfg_def parse_objects_def by (rule kacd.parse_devices_adds)
  next
    case 2
    show ?thesis using assms(2) unfolding 2 ParseKnxVentCfg_def parse_objects_def by (rule kvent.parse_devices_adds)
  next
    case 3
    show ?thesis using assms(2) unfolding 3 ParseKnxHeatCfg_def parse_objects_def by (rule kheat.parse_devices_adds)
  qed
qed


definition sample_knx :: xnode where
  "sample_knx = Elem ''Cell'' [] [Elem ''PrimaryKey'' [] [Leaf ''text'' (Ptr ''5'')],
     Elem ''Switch'' [] [Elem ''Ctrl'' [] [Leaf ''text'' (Ptr ''1/2/3'')], Elem ''DataPoint'' [] [Leaf ''text'' (Ptr ''7'')]]]"

definition added :: "(int \<times> 'd list cptr) run \<Rightarrow> 'd list" where
  "added r = (case r of Done (_, Ptr ds) \<Rightarrow> ds | _ \<Rightarrow> [])"

lemma sample_address: "isKnxGroupAddr (Ptr ''1/2/3'') = Some 0"
  by code_simp

lemma sample_number: "num_of ''7'' = (7, False)"
  by code_simp

lemma sample_knx_read: "length (added (ParseKnxAcdCfg ''0011223344AA'' tm (\<lambda>_. True) (Ptr [sample_knx]) (Ptr []))) = 1"
  by (simp add: ParseKnxAcdCfg_def parse_objects_def parse_devices_def sample_knx_def kacd_line_def kacd_point_defs added_def
      kprimary_tag_def group_tag_def addr_of_def dp_of_def text_tag_def num_tag_def get_content_def sample_address sample_number
      kfinish_foreign_def set_key_def upd_kel_def new_kconf_def settle_def set_obj_def EIB_ADDR_def)


end
