(* ===== verification/Config_Panels.thy ===== *)
theory Config_Panels
  imports Config_Knx
begin

text \<open>
  Panels, smart panels, dimmers and curtains in \<open>source/parseXML.c\<close>. The keys of a panel are an array
  behind its record: \<open>km_keySum\<close> says how many are in use, and every \<open>channel\<close> makes room for one more and
  fills it. What is not filled is what the memory contained.
\<close>

subsection \<open>Keys behind a record\<close>

record 'k keymem =
  km_keySum :: nat
  km_mem :: "nat \<Rightarrow> 'k"

definition upd_key :: "('k \<Rightarrow> 'k) \<Rightarrow> 'k keymem kconf \<Rightarrow> 'k keymem kconf" where
  "upd_key f c =
     (let m = kc_body c
      in c\<lparr>kc_body := m\<lparr>km_mem := (km_mem m)(km_keySum m := f (km_mem m (km_keySum m)))\<rparr>\<rparr>)"

definition next_key :: "'k keymem kconf \<Rightarrow> 'k keymem kconf" where
  "next_key c = c\<lparr>kc_body := (kc_body c)\<lparr>km_keySum := Suc (km_keySum (kc_body c))\<rparr>\<rparr>"

definition key_list :: "'k keymem \<Rightarrow> 'k list" where
  "key_list m = map (km_mem m) [0..<km_keySum m]"

definition POINT_ATTR_READ_WRITE :: nat where "POINT_ATTR_READ_WRITE = 0"
definition POINT_ATTR_READ_ONLY :: nat where "POINT_ATTR_READ_ONLY = 1"

text \<open>The attribute \<open>mode\<close>: found without regard to case and read by its exact name.\<close>

definition mode_of :: "xnode \<Rightarrow> nat option" where
  "mode_of n =
     (if list_ex (\<lambda>(a, _). xcmp a ''mode'') (x_attrs n) then
        map_option (\<lambda>m. if xcmp m ''rd'' then POINT_ATTR_READ_ONLY else if xcmp m ''wr'' then POINT_ATTR_WRITE_ONLY else POINT_ATTR_READ_WRITE)
          (get_prop n ''mode'')
      else None)"

text \<open>A key that is only stored and printed behind the loop over the tags.\<close>

definition later_key_tag :: "xnode \<Rightarrow> 'b kconf \<Rightarrow> 'b kconf run" where
  "later_key_tag n c =
     andthen (get_content n) (\<lambda>t. case t of NULL \<Rightarrow> Loops | Ptr t \<Rightarrow> Done (c\<lparr>kc_pPrimaryKey := Ptr t\<rparr>))"

definition finish_keys :: "string \<Rightarrow> DeviceType \<Rightarrow> ('k list \<Rightarrow> knx_body) \<Rightarrow> 'k keymem kconf \<Rightarrow> knx_body kconf run" where
  "finish_keys mac one f c =
     (let c = upd_kel (\<lambda>e. e\<lparr>el_primaryType := device_code one + km_keySum (kc_body c) - 1\<rparr>) c;
          c = (case kc_pPrimaryKey c of NULL \<Rightarrow> c | Ptr t \<Rightarrow> set_key mac t c)
      in andthen (kfinish_foreign mac c) (\<lambda>c. Done (with_body (\<lambda>m. f (key_list m)) c)))"

text \<open>The texts of the keys are carried over to the next cell.\<close>

definition parse_keys ::
  "string \<Rightarrow> string \<Rightarrow> DeviceType \<Rightarrow> ('k list \<Rightarrow> knx_body) \<Rightarrow> (nat \<Rightarrow> 'k keymem kconf tags) \<Rightarrow> (nat \<Rightarrow> nat \<Rightarrow> 'k) \<Rightarrow> (nat \<Rightarrow> bool)
   \<Rightarrow> xnode list cptr \<Rightarrow> knx_body kconf list cptr \<Rightarrow> (int \<times> knx_body kconf list cptr) run" where
  "parse_keys mac nm one f ts junk al =
     parse_devices ts
       (\<lambda>i (pk, fk). if al i then Some ((new_kconf nm 0 False \<lparr>km_keySum = 0, km_mem = junk i\<rparr>)\<lparr>kc_pPrimaryKey := pk, kc_pForeignKey := fk\<rparr>) else None)
       (\<lambda>c. (kc_pPrimaryKey c, kc_pForeignKey c)) (finish_keys mac one f) (NULL, NULL)"

subsection \<open>Points of keys\<close>

definition ctrl_of :: "((KnxPoints \<Rightarrow> KnxPoints) \<Rightarrow> 'k \<Rightarrow> 'k) \<Rightarrow> xnode \<Rightarrow> 'k keymem kconf \<Rightarrow> 'k keymem kconf run" where
  "ctrl_of u = text_tag (\<lambda>t c. Done (upd_key (u (\<lambda>p. p\<lparr>kp_pCtrl := Ptr (take EIB_ADDR t)\<rparr>)) c))"

definition timed_ctrl_of :: "((KnxPoints \<Rightarrow> KnxPoints) \<Rightarrow> 'k \<Rightarrow> 'k) \<Rightarrow> (nat \<Rightarrow> u64) \<Rightarrow> xnode \<Rightarrow> 'k keymem kconf \<Rightarrow> 'k keymem kconf run" where
  "timed_ctrl_of u tm = text_tag (\<lambda>t c.
     Done (upd_key (u (\<lambda>p. p\<lparr>kp_pCtrl := Ptr (take EIB_ADDR t), kp_timestamp := tm (km_keySum (kc_body c))\<rparr>)) c))"

definition status_of :: "((KnxPoints \<Rightarrow> KnxPoints) \<Rightarrow> 'k \<Rightarrow> 'k) \<Rightarrow> xnode \<Rightarrow> 'k keymem kconf \<Rightarrow> 'k keymem kconf run" where
  "status_of u = text_tag (\<lambda>t c. Done (upd_key (u (\<lambda>p. p\<lparr>kp_pFeedback := Ptr (take EIB_ADDR t)\<rparr>)) c))"

definition timed_status_of :: "((KnxPoints \<Rightarrow> KnxPoints) \<Rightarrow> 'k \<Rightarrow> 'k) \<Rightarrow> (nat \<Rightarrow> u64) \<Rightarrow> xnode \<Rightarrow> 'k keymem kconf \<Rightarrow> 'k keymem kconf run" where
  "timed_status_of u tm = text_tag (\<lambda>t c.
     Done (upd_key (u (\<lambda>p. p\<lparr>kp_pFeedback := Ptr (take EIB_ADDR t), kp_timestamp := tm (km_keySum (kc_body c))\<rparr>)) c))"

text \<open>A number out of range ends the program in some places and is stored cut in others.\<close>

definition id_of :: "bool \<Rightarrow> ((KnxPoints \<Rightarrow> KnxPoints) \<Rightarrow> 'k \<Rightarrow> 'k) \<Rightarrow> xnode \<Rightarrow> 'k keymem kconf \<Rightarrow> 'k keymem kconf run" where
  "id_of strict u = text_tag (\<lambda>t c. case num_of t of (v, err) \<Rightarrow>
     if strict \<and> err then Exits else Done (upd_key (u (\<lambda>p. p\<lparr>kp_id := word_of_int v\<rparr>)) c))"

definition nested :: "'s tags \<Rightarrow> xnode \<Rightarrow> 's \<Rightarrow> 's run" where
  "nested ts n = siblings ts (x_kids n)"

subsection \<open>Panels\<close>

definition panel_channel :: "(nat \<Rightarrow> u64) \<Rightarrow> xnode \<Rightarrow> KnxPoints keymem kconf \<Rightarrow> KnxPoints keymem kconf run" where
  "panel_channel tm n c =
     (let c = (case mode_of n of None \<Rightarrow> c | Some m \<Rightarrow> upd_key (\<lambda>p. p\<lparr>kp_mode := m\<rparr>) c)
      in if x_kids n = [] then Done c
         else andthen (siblings [(''Switch'', ctrl_of (\<lambda>f. f)), (''Status'', timed_status_of (\<lambda>f. f) tm), (''DataPoint'', id_of False (\<lambda>f. f))] (x_kids n) c)
           (\<lambda>c. Done (next_key c)))"

definition panel_tags :: "(nat \<Rightarrow> u64) \<Rightarrow> KnxPoints keymem kconf tags" where
  "panel_tags tm =
     [(''SharedLibrary'', kplugin_tag), (''ProductID'', kproduct_tag), (''PhyAddr'', phy_tag), (''PrimaryKey'', later_key_tag),
      (''ForeignKey'', kforeign_tag True), (''ForeignType'', kftype_tag Exits), (''OnlineCheck'', konline_tag), (''DeviceAttr'', attr_tag),
      (''channel'', panel_channel tm)]"

definition ParseKnxPanelCfg ::
  "string \<Rightarrow> (nat \<Rightarrow> nat \<Rightarrow> u64) \<Rightarrow> (nat \<Rightarrow> nat \<Rightarrow> KnxPoints) \<Rightarrow> (nat \<Rightarrow> bool) \<Rightarrow> xnode list cptr \<Rightarrow> knx_body kconf list cptr
   \<Rightarrow> (int \<times> knx_body kconf list cptr) run" where
  "ParseKnxPanelCfg mac tm = parse_keys mac ''Panel'' KNX_PANEL_ONE_KEY Panel (\<lambda>i. panel_tags (tm i))"

subsection \<open>Smart panels\<close>

definition on_key :: "(KnxPoints \<Rightarrow> KnxPoints) \<Rightarrow> KnxSmartPanelPoint \<Rightarrow> KnxSmartPanelPoint" where
  "on_key f k = KnxSmartPanelPoint.sp_key_update f k"
definition on_scene :: "(KnxPoints \<Rightarrow> KnxPoints) \<Rightarrow> KnxSmartPanelPoint \<Rightarrow> KnxSmartPanelPoint" where
  "on_scene f k = k\<lparr>sp_scene := f (sp_scene k)\<rparr>"
definition on_mode :: "(KnxPoints \<Rightarrow> KnxPoints) \<Rightarrow> KnxSmartPanelPoint \<Rightarrow> KnxSmartPanelPoint" where
  "on_mode f k = k\<lparr>sp_mode := f (sp_mode k)\<rparr>"

definition scene_value :: "xnode \<Rightarrow> KnxSmartPanelPoint keymem kconf \<Rightarrow> KnxSmartPanelPoint keymem kconf run" where
  "scene_value = num_tag (\<lambda>v c. Done (upd_key (on_scene (set_pv_u8 (word_of_int v))) c))"

definition mode_select :: "xnode \<Rightarrow> KnxSmartPanelPoint keymem kconf \<Rightarrow> KnxSmartPanelPoint keymem kconf run" where
  "mode_select = text_tag (\<lambda>t c.
     if xcmp t ''switch'' then Done (upd_key (on_mode (set_pv_u8 0)) c)
     else if xcmp t ''scene'' then Done (upd_key (on_mode (set_pv_u8 1)) c)
     else Exits)"

definition smart_channel :: "(nat \<Rightarrow> u64) \<Rightarrow> (nat \<Rightarrow> u64) \<Rightarrow> xnode \<Rightarrow> KnxSmartPanelPoint keymem kconf \<Rightarrow> KnxSmartPanelPoint keymem kconf run" where
  "smart_channel tm tm' n c =
     andthen (siblings
       [(''switch'', nested [(''Ctrl'', ctrl_of on_key), (''Status'', timed_status_of on_key tm), (''DataPoint'', id_of False on_key)]),
        (''scene'', nested [(''addr'', timed_ctrl_of on_scene tm'), (''value'', scene_value), (''DataPoint'', id_of True on_scene)]),
        (''mode'', nested [(''select'', mode_select), (''DataPoint'', id_of True on_mode)])] (x_kids n) c)
       (\<lambda>c. Done (next_key c))"

definition smart_tags :: "(nat \<Rightarrow> u64) \<Rightarrow> (nat \<Rightarrow> u64) \<Rightarrow> KnxSmartPanelPoint keymem kconf tags" where
  "smart_tags tm tm' =
     [(''ProductID'', kproduct_tag), (''PhyAddr'', phy_tag), (''PrimaryKey'', later_key_tag), (''ForeignKey'', kforeign_tag True),
      (''ForeignType'', kftype_tag Exits), (''OnlineCheck'', konline_tag), (''DeviceAttr'', attr_tag), (''channel'', smart_channel tm tm')]"

definition ParseKnxSmartPanelCfg ::
  "string \<Rightarrow> (nat \<Rightarrow> nat \<Rightarrow> u64) \<Rightarrow> (nat \<Rightarrow> nat \<Rightarrow> u64) \<Rightarrow> (nat \<Rightarrow> nat \<Rightarrow> KnxSmartPanelPoint) \<Rightarrow> (nat \<Rightarrow> bool)
   \<Rightarrow> xnode list cptr \<Rightarrow> knx_body kconf list cptr \<Rightarrow> (int \<times> knx_body kconf list cptr) run" where
  "ParseKnxSmartPanelCfg mac tm tm' = parse_keys mac ''Panel'' KNX_MISC_PANEL_ONE_KEY SmartPanel (\<lambda>i. smart_tags (tm i) (tm' i))"

subsection \<open>Dimmers\<close>

definition on_dkey :: "(KnxPoints \<Rightarrow> KnxPoints) \<Rightarrow> KnxDimmerPoint \<Rightarrow> KnxDimmerPoint" where
  "on_dkey f k = k\<lparr>dm_key := f (dm_key k)\<rparr>"
definition on_bright :: "(KnxPoints \<Rightarrow> KnxPoints) \<Rightarrow> KnxDimmerPoint \<Rightarrow> KnxDimmerPoint" where
  "on_bright f k = k\<lparr>dm_bright := f (dm_bright k)\<rparr>"

text \<open>The attributes of the brightness; only the largest value is used. A bad smallest value is passed over.\<close>

fun range_attrs :: "xnode \<Rightarrow> (string \<times> string) list \<Rightarrow> KnxDimmerPoint keymem kconf \<Rightarrow> KnxDimmerPoint keymem kconf run" where
  "range_attrs n [] c = Done c"
| "range_attrs n ((a, _) # as) c =
     (if xcmp a ''max'' then
        (case get_prop n ''max'' of
           None \<Rightarrow> range_attrs n as c
         | Some t \<Rightarrow> (case num_of t of (v, err) \<Rightarrow>
             if err then Exits else range_attrs n as (upd_key (on_bright (\<lambda>p. p\<lparr>kp_max := word_of_int v\<rparr>)) c)))
      else if xcmp a ''min'' then range_attrs n as c
      else if xcmp a ''step'' then
        (case get_prop n ''step'' of None \<Rightarrow> range_attrs n as c | Some t \<Rightarrow> if snd (num_of t) then Exits else range_attrs n as c)
      else if xcmp a ''scaling'' then
        (case get_prop n ''scaling'' of None \<Rightarrow> range_attrs n as c | Some t \<Rightarrow> if snd (num_of t) then Exits else range_attrs n as c)
      else range_attrs n as c)"

definition brightness :: "xnode \<Rightarrow> KnxDimmerPoint keymem kconf \<Rightarrow> KnxDimmerPoint keymem kconf run" where
  "brightness n c =
     andthen (range_attrs n (x_attrs n) c)
       (nested [(''Ctrl'', ctrl_of on_bright), (''Status'', status_of on_bright), (''DataPoint'', id_of True on_bright)] n)"

definition dimmer_channel :: "xnode \<Rightarrow> KnxDimmerPoint keymem kconf \<Rightarrow> KnxDimmerPoint keymem kconf run" where
  "dimmer_channel n c =
     (let c = (case mode_of n of None \<Rightarrow> c | Some m \<Rightarrow> upd_key (on_bright (\<lambda>p. p\<lparr>kp_mode := m\<rparr>) \<circ> on_dkey (\<lambda>p. p\<lparr>kp_mode := m\<rparr>)) c)
      in andthen (siblings
           [(''Switch'', nested [(''Ctrl'', ctrl_of on_dkey), (''Status'', status_of on_dkey), (''DataPoint'', id_of True on_dkey)]),
            (''Brightness'', brightness)] (x_kids n) c)
           (\<lambda>c. Done (next_key c)))"

definition dimmer_tags :: "KnxDimmerPoint keymem kconf tags" where
  "dimmer_tags =
     [(''SharedLibrary'', kplugin_tag), (''ProductID'', kproduct_tag), (''PhyAddr'', phy_tag), (''PrimaryKey'', later_key_tag),
      (''ForeignKey'', kforeign_tag True), (''ForeignType'', kftype_tag Exits), (''OnlineCheck'', konline_tag), (''channel'', dimmer_channel)]"

text \<open>A dimmer that cannot be allocated ends the program, which is taken not to happen.\<close>

definition ParseKnxDimmerCfg ::
  "string \<Rightarrow> (nat \<Rightarrow> nat \<Rightarrow> KnxDimmerPoint) \<Rightarrow> xnode list cptr \<Rightarrow> knx_body kconf list cptr \<Rightarrow> (int \<times> knx_body kconf list cptr) run" where
  "ParseKnxDimmerCfg mac junk = parse_keys mac ''Dimmer'' KNX_DIMMER_ONE_KEY Dimmer (\<lambda>_. dimmer_tags) junk (\<lambda>_. True)"

subsection \<open>Curtains\<close>

text \<open>Here both keys are printed at once, the foreign one with the type of KNX whatever its own type is.\<close>

definition cprimary_tag :: "string \<Rightarrow> xnode \<Rightarrow> KnxCurtain kconf \<Rightarrow> KnxCurtain kconf run" where
  "cprimary_tag mac n c = andthen (get_content n) (\<lambda>t. case t of NULL \<Rightarrow> Loops | Ptr t \<Rightarrow> Done (set_key mac t c))"

definition cforeign_tag :: "string \<Rightarrow> xnode \<Rightarrow> KnxCurtain kconf \<Rightarrow> KnxCurtain kconf run" where
  "cforeign_tag mac n c =
     andthen (get_content n) (\<lambda>t. case t of
         NULL \<Rightarrow> Loops
       | Ptr t \<Rightarrow> Done (upd_kel (\<lambda>e. e\<lparr>el_pForeignKey := Ptr (make_key mac DEVICE_TYPE_KNX t)\<rparr>) c))"

definition new_action :: "string \<Rightarrow> KnxPoints" where
  "new_action t = \<lparr>kp_id = 0, kp_mode = 0, kp_max = 0, kp_value = 0, kp_timestamp = 0, kp_pCtrl = Ptr (take EIB_ADDR t), kp_pFeedback = NULL\<rparr>"

definition set_action :: "((KnxPoints cptr \<Rightarrow> KnxPoints cptr) \<Rightarrow> KnxCurtain \<Rightarrow> KnxCurtain) \<Rightarrow> xnode \<Rightarrow> KnxCurtain kconf \<times> u16
   \<Rightarrow> (KnxCurtain kconf \<times> u16) run" where
  "set_action u n s =
     andthen (get_content n) (\<lambda>t. case t of
         NULL \<Rightarrow> Exits
       | Ptr t \<Rightarrow> Done (map_prod (\<lambda>c. c\<lparr>kc_body := u (\<lambda>_. Ptr (new_action t)) (kc_body c)\<rparr>) id s))"

definition action_dp :: "xnode \<Rightarrow> KnxCurtain kconf \<times> u16 \<Rightarrow> (KnxCurtain kconf \<times> u16) run" where
  "action_dp n s =
     andthen (get_content n) (\<lambda>t. case t of
         NULL \<Rightarrow> Exits
       | Ptr t \<Rightarrow> (case num_of t of (v, err) \<Rightarrow> if err then Exits else Done (fst s, word_of_int v)))"

fun set_id :: "u16 \<Rightarrow> KnxPoints cptr \<Rightarrow> KnxPoints cptr" where
  "set_id v NULL = NULL"
| "set_id v (Ptr p) = Ptr (p\<lparr>kp_id := v\<rparr>)"

definition control_tag :: "xnode \<Rightarrow> KnxCurtain kconf \<Rightarrow> KnxCurtain kconf run" where
  "control_tag n c =
     (if x_kids n = [] then Exits
      else andthen (siblings [(''open'', set_action cu_pOpen_update), (''close'', set_action cu_pClose_update), (''DataPoint'', action_dp)]
             (x_kids n) (c, 0))
           (\<lambda>(c, v). Done (c\<lparr>kc_body := cu_pClose_update (set_id v) (cu_pOpen_update (set_id v) (kc_body c))\<rparr>)))"

definition pause_tag :: "xnode \<Rightarrow> KnxCurtain kconf \<Rightarrow> KnxCurtain kconf run" where
  "pause_tag n c =
     (if x_kids n = [] then Exits
      else andthen (siblings [(''pause'', set_action cu_pStop_update), (''DataPoint'', action_dp)] (x_kids n) (c, 0))
           (\<lambda>(c, v). Done (c\<lparr>kc_body := cu_pStop_update (set_id v) (kc_body c)\<rparr>)))"

definition curtain_tags :: "string \<Rightarrow> KnxCurtain kconf tags" where
  "curtain_tags mac =
     [(''ProductID'', kproduct_tag), (''PrimaryKey'', cprimary_tag mac), (''ForeignKey'', cforeign_tag mac), (''ForeignType'', kftype_tag Exits),
      (''OnlineCheck'', konline_tag), (''control'', control_tag), (''pause'', pause_tag)]"

definition ParseKnxCurtainCfg ::
  "string \<Rightarrow> (nat \<Rightarrow> bool) \<Rightarrow> xnode list cptr \<Rightarrow> knx_body kconf list cptr \<Rightarrow> (int \<times> knx_body kconf list cptr) run" where
  "ParseKnxCurtainCfg mac al =
     parse_devices (\<lambda>_. curtain_tags mac)
       (\<lambda>i _. if al i then Some (new_kconf ''Curtain'' (device_code KNX_DEVICE_CURTAIN) False \<lparr>cu_pOpen = NULL, cu_pClose = NULL, cu_pStop = NULL\<rparr>)
              else None)
       (\<lambda>_. ()) (\<lambda>c. Done (with_body Curtain c)) ()"

subsection \<open>What the tags of a cell leave alone\<close>

text \<open>A channel changes only the keys behind the record.\<close>

definition body_only :: "'b kconf \<Rightarrow> 'b kconf \<Rightarrow> bool" where
  "body_only c c' \<longleftrightarrow> (\<exists>b. c' = c\<lparr>kc_body := b\<rparr>)"

lemma body_only_refl [simp]: "body_only c c"
  by (simp add: body_only_def exI [of _ "kc_body c"])

lemma body_only_trans: "body_only a b \<Longrightarrow> body_only b c \<Longrightarrow> body_only a c"
  by (auto simp: body_only_def)

lemma body_only_upd [simp]: "body_only c (upd_key f c)" "body_only c (next_key c)"
  by (auto simp: body_only_def upd_key_def next_key_def Let_def)

lemma body_onlyD:
  "body_only c c' \<Longrightarrow> kc_base c' = kc_base c" "body_only c c' \<Longrightarrow> kc_pPrimaryKey c' = kc_pPrimaryKey c"
  "body_only c c' \<Longrightarrow> kc_pForeignKey c' = kc_pForeignKey c"
  by (auto simp: body_only_def)

lemma siblings_body_only:
  assumes "\<And>t f n c c'. (t, f) \<in> set ts \<Longrightarrow> f n c = Done c' \<Longrightarrow> body_only c c'" and "siblings ts ns c = Done c'"
  shows "body_only c c'"
proof -
  have "tag_invariant ts (body_only c)" by unfold_locales (blast intro: body_only_trans assms(1))
  from tag_invariant.siblings_keep [OF this _ assms(2)] show ?thesis by simp
qed

lemma point_tags_body:
  "ctrl_of u n c = Done c' \<Longrightarrow> body_only c c'" "timed_ctrl_of u tm n c = Done c' \<Longrightarrow> body_only c c'"
  "status_of u n c = Done c' \<Longrightarrow> body_only c c'" "timed_status_of u tm n c = Done c' \<Longrightarrow> body_only c c'"
  "scene_value n d = Done d' \<Longrightarrow> body_only d d'" "mode_select n d = Done d' \<Longrightarrow> body_only d d'"
  unfolding ctrl_of_def timed_ctrl_of_def status_of_def timed_status_of_def scene_value_def mode_select_def text_tag_Done num_tag_Done
  by (auto split: if_splits)

lemma id_of_body: "id_of strict u n c = Done c' \<Longrightarrow> body_only c c'"
  unfolding id_of_def text_tag_Done by (auto simp: case_prod_unfold split: if_splits)

lemma nested_body:
  "(\<And>t f n c c'. (t, f) \<in> set ts \<Longrightarrow> f n c = Done c' \<Longrightarrow> body_only c c') \<Longrightarrow> nested ts n c = Done c' \<Longrightarrow> body_only c c'"
  unfolding nested_def by (rule siblings_body_only)

lemma panel_channel_body: "panel_channel tm n c = Done c' \<Longrightarrow> body_only c c'"
proof -
  assume a: "panel_channel tm n c = Done c'"
  define c0 where "c0 = (case mode_of n of None \<Rightarrow> c | Some m \<Rightarrow> upd_key (\<lambda>p. p\<lparr>kp_mode := m\<rparr>) c)"
  have 0: "body_only c c0" by (simp add: c0_def split: option.splits)
  show ?thesis
  proof (cases "x_kids n = []")
    case True
    with a 0 show ?thesis by (simp add: panel_channel_def c0_def [symmetric])
  next
    case False
    with a obtain c1 where c1: "siblings [(''Switch'', ctrl_of (\<lambda>f. f)), (''Status'', timed_status_of (\<lambda>f. f) tm), (''DataPoint'', id_of False (\<lambda>f. f))]
        (x_kids n) c0 = Done c1" and c': "c' = next_key c1"
      by (auto simp: panel_channel_def c0_def [symmetric] andthen_Done)
    have "body_only c0 c1" by (rule siblings_body_only [OF _ c1]) (auto dest: point_tags_body id_of_body)
    with 0 show ?thesis unfolding c' by (blast intro: body_only_trans body_only_upd)
  qed
qed

lemma smart_channel_body: "smart_channel tm tm' n c = Done c' \<Longrightarrow> body_only c c'"
proof -
  assume "smart_channel tm tm' n c = Done c'"
  then obtain c1 where c1: "siblings
       [(''switch'', nested [(''Ctrl'', ctrl_of on_key), (''Status'', timed_status_of on_key tm), (''DataPoint'', id_of False on_key)]),
        (''scene'', nested [(''addr'', timed_ctrl_of on_scene tm'), (''value'', scene_value), (''DataPoint'', id_of True on_scene)]),
        (''mode'', nested [(''select'', mode_select), (''DataPoint'', id_of True on_mode)])] (x_kids n) c = Done c1" and c': "c' = next_key c1"
    by (auto simp: smart_channel_def andthen_Done)
  have "body_only c c1"
    by (rule siblings_body_only [OF _ c1]) (auto elim!: nested_body [rotated] dest: point_tags_body id_of_body)
  then show ?thesis unfolding c' by (blast intro: body_only_trans body_only_upd)
qed

lemma range_attrs_body: "range_attrs n as c = Done c' \<Longrightarrow> body_only c c'"
proof (induction as arbitrary: c)
  case (Cons a as)
  obtain k v where a: "a = (k, v)" by (cases a)
  show ?case
  proof (cases "xcmp k ''max'' \<and> get_prop n ''max'' \<noteq> None")
    case True
    then obtain t where t: "get_prop n ''max'' = Some t" by auto
    with True Cons.prems have "range_attrs n as (upd_key (on_bright (\<lambda>p. p\<lparr>kp_max := word_of_int (fst (num_of t))\<rparr>)) c) = Done c'"
      by (auto simp: a case_prod_unfold split: if_splits)
    from Cons.IH [OF this] show ?thesis by (rule body_only_trans [OF body_only_upd(1)])
  next
    case False
    with Cons.prems have "range_attrs n as c = Done c'" by (auto simp: a split: if_splits option.splits)
    then show ?thesis by (rule Cons.IH)
  qed
qed simp

lemma brightness_body: "brightness n c = Done c' \<Longrightarrow> body_only c c'"
proof -
  assume "brightness n c = Done c'"
  then obtain c1 where "range_attrs n (x_attrs n) c = Done c1"
    and r: "nested [(''Ctrl'', ctrl_of on_bright), (''Status'', status_of on_bright), (''DataPoint'', id_of True on_bright)] n c1 = Done c'"
    by (auto simp: brightness_def andthen_Done)
  moreover have "body_only c1 c'" by (rule nested_body [OF _ r]) (auto dest: point_tags_body id_of_body)
  ultimately show ?thesis by (blast intro: body_only_trans range_attrs_body)
qed

lemma dimmer_channel_body: "dimmer_channel n c = Done c' \<Longrightarrow> body_only c c'"
proof -
  assume a: "dimmer_channel n c = Done c'"
  define c0 where "c0 = (case mode_of n of None \<Rightarrow> c | Some m \<Rightarrow> upd_key (on_bright (\<lambda>p. p\<lparr>kp_mode := m\<rparr>) \<circ> on_dkey (\<lambda>p. p\<lparr>kp_mode := m\<rparr>)) c)"
  have 0: "body_only c c0" by (simp add: c0_def split: option.splits)
  from a obtain c1 where c1: "siblings
           [(''Switch'', nested [(''Ctrl'', ctrl_of on_dkey), (''Status'', status_of on_dkey), (''DataPoint'', id_of True on_dkey)]),
            (''Brightness'', brightness)] (x_kids n) c0 = Done c1" and c': "c' = next_key c1"
    by (auto simp: dimmer_channel_def c0_def [symmetric] andthen_Done)
  have "body_only c0 c1"
    by (rule siblings_body_only [OF _ c1]) (auto elim!: nested_body [rotated] dest: point_tags_body id_of_body brightness_body)
  with 0 show ?thesis unfolding c' by (blast intro: body_only_trans body_only_upd)
qed

lemmas channels_body = panel_channel_body smart_channel_body dimmer_channel_body

subsection \<open>Keys of cells\<close>

text \<open>A loop over nodes without a tag is the loop over the table without it.\<close>

lemma siblings_without:
  "\<forall>n \<in> set ns. \<not> xcmp (x_name n) t \<Longrightarrow> siblings ts ns s = siblings (filter (\<lambda>(u, _). u \<noteq> t) ts) ns s"
proof (induction ns arbitrary: s)
  case (Cons n ns)
  have "on_tag ts n s = on_tag (filter (\<lambda>(u, _). u \<noteq> t) ts) n s"
    using Cons.prems by (induction ts) auto
  moreover have "siblings ts ns = siblings (filter (\<lambda>(u, _). u \<noteq> t) ts) ns"
    using Cons by (auto simp: fun_eq_iff)
  ultimately show ?case by simp
qed simp

lemma kfinish_foreign_keeps:
  "kfinish_foreign mac c = Done c' \<Longrightarrow> el_pPrimaryKey (kc_element c') = el_pPrimaryKey (kc_element c) \<and> el_devId (kc_element c') = el_devId (kc_element c)
    \<and> el_primaryType (kc_element c') = el_primaryType (kc_element c) \<and> kc_body c' = kc_body c"
  by (auto simp: kfinish_foreign_def split: cptr.splits if_splits)

text \<open>
  What the parsers of panels, smart panels and dimmers promise: only the tags of the keys change the
  local variables, and no tag prints a key.
\<close>

locale key_cells =
  fixes ts :: "nat \<Rightarrow> 'k keymem kconf tags"
  assumes primary_law: "(t, f) \<in> set (ts i) \<Longrightarrow> t \<noteq> ''PrimaryKey'' \<Longrightarrow> f n c = Done c' \<Longrightarrow> kc_pPrimaryKey c' = kc_pPrimaryKey c"
    and foreign_law: "(t, f) \<in> set (ts i) \<Longrightarrow> t \<noteq> ''ForeignKey'' \<Longrightarrow> f n c = Done c' \<Longrightarrow>
      kc_pForeignKey c' = kc_pForeignKey c \<and> el_pForeignKey (kc_element c') = el_pForeignKey (kc_element c)"
    and print_law: "(t, f) \<in> set (ts i) \<Longrightarrow> f n c = Done c' \<Longrightarrow>
      el_pPrimaryKey (kc_element c') = el_pPrimaryKey (kc_element c) \<and> el_devId (kc_element c') = el_devId (kc_element c)"
begin

sublocale no_primary: tag_invariant "filter (\<lambda>(u, _). u \<noteq> ''PrimaryKey'') (ts i)" "\<lambda>c. kc_pPrimaryKey c = k" for i k
  by unfold_locales (auto dest: primary_law)

sublocale no_foreign: tag_invariant "filter (\<lambda>(u, _). u \<noteq> ''ForeignKey'') (ts i)"
  "\<lambda>c. kc_pForeignKey c = k \<and> el_pForeignKey (kc_element c) = p" for i k p
  by unfold_locales (auto dest: foreign_law)

sublocale unprinted: tag_invariant "ts i" "\<lambda>c. el_pPrimaryKey (kc_element c) = [] \<and> el_devId (kc_element c) = 0" for i
  by unfold_locales (auto dest: print_law)

lemma finished_key:
  assumes "el_pPrimaryKey (kc_element c) = [] \<and> el_devId (kc_element c) = 0" and "finish_keys mac one g c = Done d"
  shows "el_pPrimaryKey (kc_element d) = (case kc_pPrimaryKey c of NULL \<Rightarrow> [] | Ptr t \<Rightarrow> make_key mac DEVICE_TYPE_KNX t)
    \<and> el_devId (kc_element d) = (case kc_pPrimaryKey c of NULL \<Rightarrow> 0 | Ptr t \<Rightarrow> key_number (make_key mac DEVICE_TYPE_KNX t))"
proof (cases "kc_pPrimaryKey c")
  case NULL
  with assms show ?thesis by (auto simp: finish_keys_def andthen_Done with_body_def dest: kfinish_foreign_keeps)
next
  case (Ptr t)
  with assms show ?thesis by (auto simp: finish_keys_def andthen_Done with_body_def set_key_def dest: kfinish_foreign_keeps)
qed

lemma inherits:
  assumes "parse_keys mac nm one g ts junk (\<lambda>_. True) (Ptr (n1 # n2 # ns)) (Ptr lst) = Done (ret, q)"
    and "\<forall>n \<in> set (x_kids n2). \<not> xcmp (x_name n) ''PrimaryKey''"
  shows "\<exists>d1 d2 ds. q = Ptr (lst @ d1 # d2 # ds) \<and> el_pPrimaryKey (kc_element d2) = el_pPrimaryKey (kc_element d1)
    \<and> el_devId (kc_element d2) = el_devId (kc_element d1)"
proof -
  let ?start = "\<lambda>i (pk, fk). Some ((new_kconf nm 0 False \<lparr>km_keySum = 0, km_mem = junk i\<rparr>)\<lparr>kc_pPrimaryKey := pk, kc_pForeignKey := fk\<rparr>)"
  let ?new = "\<lambda>i pk fk. (new_kconf nm 0 False \<lparr>km_keySum = 0, km_mem = junk i\<rparr>)\<lparr>kc_pPrimaryKey := pk, kc_pForeignKey := fk\<rparr>"
  let ?fin = "finish_keys mac one g" and ?carry = "\<lambda>c. (kc_pPrimaryKey c, kc_pForeignKey c)"
  from assms(1) obtain lst' where r: "read_devices ts ?start ?carry ?fin 0 (NULL, NULL) (n1 # n2 # ns) lst = Done lst'" and q: "q = Ptr lst'"
    by (auto simp: parse_keys_def parse_devices_def andthen_Done)
  from r obtain c1 d1 c2 d2 where c1: "siblings (ts 0) (x_kids n1) (?new 0 NULL NULL) = Done c1" and d1: "?fin c1 = Done d1"
    and c2: "siblings (ts (Suc 0)) (x_kids n2) (?new (Suc 0) (kc_pPrimaryKey c1) (kc_pForeignKey c1)) = Done c2" and d2: "?fin c2 = Done d2"
    and r2: "read_devices ts ?start ?carry ?fin (Suc (Suc 0)) (?carry c2) ns ((lst @ [d1]) @ [d2]) = Done lst'"
    by (auto simp: andthen_Done)
  have "device_reader ts ?start ?fin (\<lambda>_. True) (\<lambda>_. True)" by unfold_locales simp_all
  from device_reader.read_devices_adds [OF this r2] obtain ds where ds: "lst' = ((lst @ [d1]) @ [d2]) @ ds" by blast
  have "siblings (filter (\<lambda>(u, _). u \<noteq> ''PrimaryKey'') (ts (Suc 0))) (x_kids n2) (?new (Suc 0) (kc_pPrimaryKey c1) (kc_pForeignKey c1)) = Done c2"
    by (rule trans [OF siblings_without [OF assms(2), symmetric] c2])
  from no_primary.siblings_keep [where k = "kc_pPrimaryKey c1", OF _ this] have "kc_pPrimaryKey c2 = kc_pPrimaryKey c1" by simp
  moreover have "el_pPrimaryKey (kc_element c1) = [] \<and> el_devId (kc_element c1) = 0"
    using unprinted.siblings_keep [OF _ c1] by (simp add: new_kconf_def)
  moreover have "el_pPrimaryKey (kc_element c2) = [] \<and> el_devId (kc_element c2) = 0"
    using unprinted.siblings_keep [OF _ c2] by (simp add: new_kconf_def)
  ultimately show ?thesis using finished_key [OF _ d1] finished_key [OF _ d2] q ds by auto
qed

lemma master_crashes:
  assumes "siblings (ts i) (x_kids n) ((new_kconf nm 0 False m)\<lparr>kc_pPrimaryKey := pk, kc_pForeignKey := Ptr t\<rparr>) = Done c"
    and "\<forall>n' \<in> set (x_kids n). \<not> xcmp (x_name n') ''ForeignKey''" and "el_bMaster (kc_element c)"
  shows "finish_keys mac one g c = Crash"
proof -
  have "siblings (filter (\<lambda>(u, _). u \<noteq> ''ForeignKey'') (ts i)) (x_kids n) ((new_kconf nm 0 False m)\<lparr>kc_pPrimaryKey := pk, kc_pForeignKey := Ptr t\<rparr>) = Done c"
    by (rule trans [OF siblings_without [OF assms(2), symmetric] assms(1)])
  from no_foreign.siblings_keep [where k = "Ptr t" and p = NULL, OF _ this]
  have "kc_pForeignKey c = Ptr t \<and> el_pForeignKey (kc_element c) = NULL" by (simp add: new_kconf_def)
  with assms(3) show ?thesis by (cases "kc_pPrimaryKey c") (simp_all add: finish_keys_def kfinish_foreign_def set_key_def)
qed

end

definition same_keys :: "'b kconf \<Rightarrow> 'b kconf \<Rightarrow> bool" where
  "same_keys c c' \<longleftrightarrow> kc_pPrimaryKey c' = kc_pPrimaryKey c \<and> kc_pForeignKey c' = kc_pForeignKey c
     \<and> el_pForeignKey (kc_element c') = el_pForeignKey (kc_element c)
     \<and> el_pPrimaryKey (kc_element c') = el_pPrimaryKey (kc_element c) \<and> el_devId (kc_element c') = el_devId (kc_element c)"

lemma tags_same_keys:
  "kplugin_tag n c = Done c' \<Longrightarrow> same_keys c c'" "kproduct_tag n c = Done c' \<Longrightarrow> same_keys c c'" "phy_tag n c = Done c' \<Longrightarrow> same_keys c c'"
  "konline_tag n c = Done c' \<Longrightarrow> same_keys c c'" "attr_tag n c = Done c' \<Longrightarrow> same_keys c c'" "kftype_tag Exits n c = Done c' \<Longrightarrow> same_keys c c'"
  unfolding kplugin_tag_def kproduct_tag_def phy_tag_def konline_tag_def attr_tag_def kftype_tag_def text_tag_Done content_Done
  by (auto simp: same_keys_def split: if_splits option.splits)

lemma body_same_keys: "body_only c c' \<Longrightarrow> same_keys c c'"
  by (auto simp: body_only_def same_keys_def)

lemma key_tags_change:
  "later_key_tag n c = Done c' \<Longrightarrow> same_keys c (c'\<lparr>kc_pPrimaryKey := kc_pPrimaryKey c\<rparr>)"
  "kforeign_tag True n c = Done c' \<Longrightarrow> kc_pPrimaryKey c' = kc_pPrimaryKey c
    \<and> el_pPrimaryKey (kc_element c') = el_pPrimaryKey (kc_element c) \<and> el_devId (kc_element c') = el_devId (kc_element c)"
  unfolding later_key_tag_def kforeign_tag_def content_Done by (auto simp: same_keys_def)

lemmas same_keys_rules = tags_same_keys [unfolded same_keys_def] channels_body [THEN body_same_keys, unfolded same_keys_def]
  key_tags_change [unfolded same_keys_def, simplified]

interpretation panel_cells: key_cells "\<lambda>i. panel_tags (tm i)" for tm
  by unfold_locales (auto simp: panel_tags_def dest: same_keys_rules)

interpretation smart_cells: key_cells "\<lambda>i. smart_tags (tm i) (tm' i)" for tm tm'
  by unfold_locales (auto simp: smart_tags_def dest: same_keys_rules)

interpretation dimmer_cells: key_cells "\<lambda>_. dimmer_tags"
  by unfold_locales (auto simp: dimmer_tags_def dest: same_keys_rules)

text \<open>
  Every panel has as many keys as its type says and, if it has a key, the number in it.
\<close>

definition keys_ok :: "DeviceType \<Rightarrow> ('k list \<Rightarrow> knx_body) \<Rightarrow> knx_body kconf \<Rightarrow> bool" where
  "keys_ok one g d \<longleftrightarrow> (\<exists>ks. kc_body d = g ks \<and> el_primaryType (kc_element d) = device_code one + length ks - 1)"

lemma finish_keys_ok: "finish_keys mac one g c = Done d \<Longrightarrow> keys_ok one g d"
  by (cases "kc_pPrimaryKey c")
    (auto simp: finish_keys_def andthen_Done with_body_def keys_ok_def key_list_def set_key_def dest!: kfinish_foreign_keeps intro!: exI)

interpretation keys: device_reader ts start carry "finish_keys mac one g" "\<lambda>_. True" "keys_ok one g" for ts start carry mac one g
  by unfold_locales (simp_all add: finish_keys_ok)

lemma panel_types:
  assumes "ParseKnxPanelCfg mac tm junk al nodes (Ptr lst) = Done (ret, q)"
  shows "\<exists>new. q = Ptr (lst @ new) \<and> list_all (keys_ok KNX_PANEL_ONE_KEY Panel) new"
  using assms unfolding ParseKnxPanelCfg_def parse_keys_def by (rule keys.parse_devices_adds)

subsection \<open>Properties\<close>


text \<open>Two panels, the second without keys or with a product but no foreign key.\<close>

definition sample_cell :: "string \<Rightarrow> string \<Rightarrow> xnode" where
  "sample_cell tag t = Elem ''Cell'' [] [Elem tag [] [Leaf ''text'' (Ptr t)]]"

lemmas panel_run = ParseKnxPanelCfg_def parse_keys_def parse_devices_def panel_tags_def sample_cell_def later_key_tag_def kforeign_tag_def
  kproduct_tag_def konline_tag_def text_tag_def get_content_def finish_keys_def kfinish_foreign_def upd_kel_def set_key_def new_kconf_def

lemma sample_panels:
  "\<exists>q. ParseKnxPanelCfg mac tm junk (\<lambda>_. True) (Ptr [sample_cell ''PrimaryKey'' ''5'', sample_cell ''OnlineCheck'' ''No'']) (Ptr []) = Done (0, q)"
  by (simp add: panel_run)

lemma panel_foreign_crash:
  "ParseKnxPanelCfg mac tm junk (\<lambda>_. True) (Ptr [sample_cell ''ForeignKey'' ''5'', sample_cell ''ProductID'' ''p'']) (Ptr []) = Crash"
  by (simp add: panel_run)

lemma sample_no_key: "\<forall>n \<in> set (x_kids (sample_cell ''OnlineCheck'' ''No'')). \<not> xcmp (x_name n) ''PrimaryKey''"
  by (simp add: sample_cell_def)


end
