(* ===== verification/Config_Mbus.thy ===== *)
theory Config_Mbus
  imports Config_Xml
begin

text \<open>
  The Modbus part of the configuration parser, \<open>source/parseXML.c\<close>: air conditioners, ventilation,
  floor heating, air quality, humidifiers, purifiers, panels and curtains.

  \<^item> \<open>mconf\<close> is a device under construction: the device of \<open>Modbus_Handle\<close>, its serial object, the
    members of its element that the handlers do not use, and the local variables \<open>pForeignKey\<close> and
    \<open>pItem\<close>. \<open>mc_started\<close> counts the pairs of calls of \<open>open\<close> and \<open>recv\<close> for a full-duplex device.
  \<^item> The functions are tables of tags, one per parser, in the order of the code. Air conditioners,
    ventilation, floor heating, air quality and panels describe one outdoor unit and, below
    \<open>Item\<close>, a list of cells that copy it; the others are one device each.
\<close>

subsection \<open>A device under construction\<close>

record mconf =
  mc_dev :: mbus_dev
  mc_serial :: serial
  mc_szPlugin :: "string cptr"
  mc_foreignType :: nat
  mc_pForeignKey :: "string cptr"
  mc_pItem :: "xnode cptr"
  mc_started :: nat

definition upd_base :: "(MbusBase \<Rightarrow> MbusBase) \<Rightarrow> mconf \<Rightarrow> mconf" where
  "upd_base f c = c\<lparr>mc_dev := (mc_dev c)\<lparr>md_base := f (md_base (mc_dev c))\<rparr>\<rparr>"

definition upd_el :: "(DeviceElement \<Rightarrow> DeviceElement) \<Rightarrow> mconf \<Rightarrow> mconf" where
  "upd_el f = upd_base (\<lambda>b. b\<lparr>mb_element := f (mb_element b)\<rparr>)"

abbreviation mc_element :: "mconf \<Rightarrow> DeviceElement" where
  "mc_element c \<equiv> md_element (mc_dev c)"

definition MODBUS_DATA_TYPE_BOOL :: u8 where "MODBUS_DATA_TYPE_BOOL = 0"
definition MODBUS_DATA_TYPE_VALUE :: u8 where "MODBUS_DATA_TYPE_VALUE = 1"
definition MODBUS_DATA_TYPE_STR :: u8 where "MODBUS_DATA_TYPE_STR = 2"
definition MODBUS_DATA_TYPE_ENUM :: u8 where "MODBUS_DATA_TYPE_ENUM = 3"

text \<open>The state before the tags of a cell; \<open>p\<close> is the serial object that \<open>SerialInit\<close> returned.\<close>

definition new_mconf :: "string \<Rightarrow> DeviceType \<Rightarrow> SerialParam \<Rightarrow> mconf" where
  "new_mconf nm ty p =
     \<lparr>mc_dev = \<lparr>md_base =
        \<lparr>mb_pIf = NULL,
         mb_element = \<lparr>el_szName = nm, el_pPrimaryKey = [], el_devId = 0, el_pProductId = [], el_pForeignKey = NULL,
           el_primaryType = device_code ty, el_pvForeignKey = NULL, el_bMaster = False, el_attri = 0\<rparr>,
         mb_devAddr = 0, mb_regAddr = 0, mb_delay = 0, mb_bFeedback = True, mb_bOnlineCheck = True, mb_hbIgnore = 0,
         mb_bFullDuplex = False, mb_bGroupMember = False, mb_pSerial = Ptr 0, mb_lostCnt = 0\<rparr>,
        md_next = [], md_objs = (\<lambda>_. NULL)\<rparr>,
      mc_serial = Ptr (Ptr p), mc_szPlugin = NULL, mc_foreignType = DEVICE_TYPE_UNKNOWN, mc_pForeignKey = NULL,
      mc_pItem = NULL, mc_started = 0\<rparr>"

subsection \<open>Tags of all devices\<close>

definition plugin_tag :: "xnode \<Rightarrow> mconf \<Rightarrow> mconf run" where
  "plugin_tag = text_tag (\<lambda>t c. Done (c\<lparr>mc_szPlugin := Ptr t\<rparr>))"

definition product_tag :: "xnode \<Rightarrow> mconf \<Rightarrow> mconf run" where
  "product_tag = text_tag (\<lambda>t c. Done (upd_el (\<lambda>e. e\<lparr>el_pProductId := t, el_bMaster := True\<rparr>) c))"

definition addr_tag :: "xnode \<Rightarrow> mconf \<Rightarrow> mconf run" where
  "addr_tag = num_tag (\<lambda>v c. Done (upd_base (\<lambda>b. b\<lparr>mb_devAddr := word_of_int v\<rparr>) c))"

definition serial_set :: "(serial \<Rightarrow> int \<Rightarrow> (int \<times> serial) exec) \<Rightarrow> int \<Rightarrow> mconf \<Rightarrow> mconf run" where
  "serial_set f v c =
     (case f (mc_serial c) v of
        None \<Rightarrow> Crash
      | Some (ret, ser) \<Rightarrow> if ret \<noteq> 0 then Exits else Done (c\<lparr>mc_serial := ser\<rparr>))"

definition port_tag :: "xnode \<Rightarrow> mconf \<Rightarrow> mconf run" where "port_tag = num_tag (serial_set SetPort)"
definition baudrate_tag :: "xnode \<Rightarrow> mconf \<Rightarrow> mconf run" where "baudrate_tag = num_tag (serial_set SetBaudrate)"
definition databit_tag :: "xnode \<Rightarrow> mconf \<Rightarrow> mconf run" where "databit_tag = num_tag (serial_set SetDatabits)"
definition stopbit_tag :: "xnode \<Rightarrow> mconf \<Rightarrow> mconf run" where "stopbit_tag = num_tag (serial_set SetStopbits)"

definition parity_tag :: "xnode \<Rightarrow> mconf \<Rightarrow> mconf run" where
  "parity_tag = text_tag (\<lambda>t. serial_set SetParity (ch (first_char t)))"

definition feedback_tag :: "xnode \<Rightarrow> mconf \<Rightarrow> mconf run" where
  "feedback_tag = text_tag (\<lambda>t c. Done (if lower (first_char t) = CHR ''n'' then upd_base (\<lambda>b. b\<lparr>mb_bFeedback := False\<rparr>) c else c))"

definition online_tag :: "xnode \<Rightarrow> mconf \<Rightarrow> mconf run" where
  "online_tag = text_tag (\<lambda>t c. Done (if lower (first_char t) = CHR ''n'' then upd_base (\<lambda>b. b\<lparr>mb_bOnlineCheck := False\<rparr>) c else c))"

definition duplex_tag :: "xnode \<Rightarrow> mconf \<Rightarrow> mconf run" where
  "duplex_tag = text_tag (\<lambda>t c.
     if lower (first_char t) = CHR ''y'' then
       (case SetFullDuplex (mc_serial c) True of
          None \<Rightarrow> Crash
        | Some (_, ser) \<Rightarrow> Done ((upd_base (\<lambda>b. b\<lparr>mb_bFullDuplex := True\<rparr>) c)\<lparr>mc_serial := ser\<rparr>))
     else Done c)"

definition delay_tag :: "xnode \<Rightarrow> mconf \<Rightarrow> mconf run" where
  "delay_tag = num_tag (\<lambda>v c. Done (upd_base (\<lambda>b. b\<lparr>mb_delay := word_of_int v\<rparr>) c))"

definition item_tag :: "xnode \<Rightarrow> mconf \<Rightarrow> mconf run" where
  "item_tag n c = Done (c\<lparr>mc_pItem := Ptr n\<rparr>)"

subsection \<open>Data points\<close>

text \<open>
  The children of a point: \<open>DataPoint\<close> makes the object. \<open>must\<close>: a \<open>DataPoint\<close> without text ends the
  program. The log entry behind the loop reads the object \<open>logged\<close>, which may not exist.
\<close>

definition new_obj :: "PointFeature \<Rightarrow> u8 \<Rightarrow> u32 \<Rightarrow> int \<Rightarrow> mbus_obj" where
  "new_obj f ty old v =
     \<lparr>ob_localPoint = feature_code f, ob_type = ty, ob_rcvValue = 0, ob_value = 0, ob_valueOld = old, ob_forceSync = 0,
      ob_cloudPoint = v\<rparr>"

definition set_slot :: "mslot \<Rightarrow> mbus_obj cptr \<Rightarrow> mconf \<Rightarrow> mconf" where
  "set_slot s p c = c\<lparr>mc_dev := (mc_dev c)\<lparr>md_objs := (md_objs (mc_dev c))(s := p)\<rparr>\<rparr>"

definition data_point :: "bool \<Rightarrow> mslot \<Rightarrow> PointFeature \<Rightarrow> u8 \<Rightarrow> u32 \<Rightarrow> xnode \<Rightarrow> mconf \<Rightarrow> mconf run" where
  "data_point must s f ty old n c =
     andthen (get_content n) (\<lambda>t. case t of
         NULL \<Rightarrow> if must then Exits else Done c
       | Ptr t \<Rightarrow> (case num_of t of (v, err) \<Rightarrow> if err then Exits else Done (set_slot s (Ptr (new_obj f ty old v)) c)))"

definition point_tag :: "bool \<Rightarrow> mslot \<Rightarrow> PointFeature \<Rightarrow> u8 \<Rightarrow> u32 \<Rightarrow> mslot \<Rightarrow> xnode \<Rightarrow> mconf \<Rightarrow> mconf run" where
  "point_tag must s f ty old logged n c =
     andthen (siblings [(''DataPoint'', data_point must s f ty old)] (x_kids n) c)
       (\<lambda>c. if md_objs (mc_dev c) logged = NULL then Crash else Done c)"

subsection \<open>Keys\<close>

definition primary_tag :: "string \<Rightarrow> nat option \<Rightarrow> bool \<Rightarrow> xnode \<Rightarrow> mconf \<Rightarrow> mconf run" where
  "primary_tag mac ty must n c =
     andthen (get_content n) (\<lambda>t. case t of
         NULL \<Rightarrow> if must then Exits else Done c
       | Ptr t \<Rightarrow>
           let key = make_key mac DEVICE_TYPE_MODBUS t in
           Done (upd_el (\<lambda>e. e\<lparr>el_primaryType := (case ty of None \<Rightarrow> el_primaryType e | Some ty \<Rightarrow> ty),
             el_pPrimaryKey := key, el_devId := key_number key\<rparr>) c))"

text \<open>A foreign key without text: \<open>continue\<close> tests the same node again.\<close>

definition foreign_tag :: "xnode \<Rightarrow> mconf \<Rightarrow> mconf run" where
  "foreign_tag n c =
     andthen (get_content n) (\<lambda>t. case t of
         NULL \<Rightarrow> Loops
       | Ptr t \<Rightarrow> Done ((upd_el (\<lambda>e. e\<lparr>el_pForeignKey := Ptr []\<rparr>) c)\<lparr>mc_pForeignKey := Ptr t\<rparr>))"

definition ftype_tag :: "mconf run \<Rightarrow> xnode \<Rightarrow> mconf \<Rightarrow> mconf run" where
  "ftype_tag none n c =
     andthen (get_content n) (\<lambda>t. case t of
         NULL \<Rightarrow> none
       | Ptr t \<Rightarrow> Done (c\<lparr>mc_foreignType := (case comm_type t of None \<Rightarrow> DEVICE_TYPE_UNKNOWN | Some ft \<Rightarrow> ft)\<rparr>))"

definition room_tag :: "xnode \<Rightarrow> mconf \<Rightarrow> mconf run" where
  "room_tag n c =
     andthen (get_content n) (\<lambda>t. case t of
         NULL \<Rightarrow> Loops
       | Ptr t \<Rightarrow> (case num_of t of (v, err) \<Rightarrow> if err then Exits else Done (upd_base (\<lambda>b. b\<lparr>mb_regAddr := word_of_int v\<rparr>) c)))"

definition finish_foreign :: "string \<Rightarrow> mconf \<Rightarrow> mconf" where
  "finish_foreign mac c =
     (case mc_pForeignKey c of
        NULL \<Rightarrow> c
      | Ptr t \<Rightarrow>
          if mc_foreignType c \<noteq> DEVICE_TYPE_UNKNOWN
          then upd_el (\<lambda>e. e\<lparr>el_pForeignKey := Ptr (make_key mac (mc_foreignType c) t)\<rparr>) c else c)"

text \<open>The handlers name the port of a device by its number.\<close>

definition finish_port :: "mconf \<Rightarrow> mconf" where
  "finish_port c =
     (case mc_serial c of Ptr (Ptr p) \<Rightarrow> upd_base (\<lambda>b. b\<lparr>mb_pSerial := Ptr (nat (sp_port p))\<rparr>) c | _ \<Rightarrow> c)"

subsection \<open>Cells below Item\<close>

text \<open>
  What differs between the functions that read the cells: the tags, the objects that are copied
  and whether the attribute \<open>group\<close> is read.
\<close>

record cell_spec =
  cl_tags :: "mconf tags"
  cl_slots :: "mslot list"
  cl_group :: bool

definition copy_unit :: "cell_spec \<Rightarrow> xnode \<Rightarrow> mconf \<Rightarrow> mconf" where
  "copy_unit sp n u =
     (let c = u\<lparr>mc_dev := (mc_dev u)\<lparr>md_objs := (\<lambda>s. if s \<in> set (cl_slots sp) then md_objs (mc_dev u) s else NULL)\<rparr>,
               mc_foreignType := DEVICE_TYPE_UNKNOWN, mc_pForeignKey := NULL, mc_pItem := NULL,
               mc_started := (if mb_bFullDuplex (md_base (mc_dev u)) then 1 else 0)\<rparr>
      in if cl_group sp \<and> get_prop n ''group'' \<noteq> None then upd_base (\<lambda>b. b\<lparr>mb_bGroupMember := True\<rparr>) c else c)"

fun read_cells :: "string \<Rightarrow> cell_spec \<Rightarrow> mconf \<Rightarrow> xnode list \<Rightarrow> mconf list \<Rightarrow> mconf list run" where
  "read_cells mac sp u [] lst = Done lst"
| "read_cells mac sp u (n # ns) lst =
     (if xcmp (x_name n) ''Cell'' then
        andthen (siblings (cl_tags sp) (x_kids n) (copy_unit sp n u))
          (\<lambda>c. read_cells mac sp u ns (lst @ [finish_port (finish_foreign mac c)]))
      else read_cells mac sp u ns lst)"

subsection \<open>The selected nodes\<close>

text \<open>
  \<open>start i\<close> is the serial object of the \<open>i\<close>-th node, or null when it or the device could not be
  allocated. \<open>fin\<close> is what happens to the device behind its tags.
\<close>

fun read_units ::
  "(mconf \<Rightarrow> mconf list \<Rightarrow> mconf list run) \<Rightarrow> string \<Rightarrow> DeviceType \<Rightarrow> mconf tags \<Rightarrow> (nat \<Rightarrow> SerialParam cptr) \<Rightarrow> nat
   \<Rightarrow> xnode list \<Rightarrow> mconf list \<Rightarrow> mconf list run" where
  "read_units fin nm ty ts start i [] lst = Done lst"
| "read_units fin nm ty ts start i (n # ns) lst =
     (case start i of
        NULL \<Rightarrow> read_units fin nm ty ts start (Suc i) ns lst
      | Ptr p \<Rightarrow>
          andthen (siblings ts (x_kids n) (new_mconf nm ty p))
            (\<lambda>c. andthen (fin c lst) (read_units fin nm ty ts start (Suc i) ns)))"

definition parse_units ::
  "(mconf \<Rightarrow> mconf list \<Rightarrow> mconf list run) \<Rightarrow> string \<Rightarrow> DeviceType \<Rightarrow> mconf tags \<Rightarrow> (nat \<Rightarrow> SerialParam cptr)
   \<Rightarrow> xnode list cptr \<Rightarrow> mconf list cptr \<Rightarrow> (int \<times> mconf list cptr) run" where
  "parse_units fin nm ty ts start nodes pList =
     (case (nodes, pList) of
        (Ptr ns, Ptr lst) \<Rightarrow> andthen (read_units fin nm ty ts start 0 ns lst) (\<lambda>lst. Done (0, Ptr lst))
      | _ \<Rightarrow> Done (- 1, pList))"

definition add_unit :: "string \<Rightarrow> mconf \<Rightarrow> mconf list \<Rightarrow> mconf list run" where
  "add_unit mac c lst = Done (lst @ [finish_port (finish_foreign mac c)])"

subsection \<open>Air conditioners\<close>

text \<open>Here a missing plugin ends the program, and the online check can be switched on as well.\<close>

definition acd_plugin_tag :: "xnode \<Rightarrow> mconf \<Rightarrow> mconf run" where
  "acd_plugin_tag n c =
     andthen (get_content n) (\<lambda>t. case t of NULL \<Rightarrow> Exits | Ptr t \<Rightarrow> Done (c\<lparr>mc_szPlugin := Ptr t\<rparr>))"

definition acd_online_tag :: "xnode \<Rightarrow> mconf \<Rightarrow> mconf run" where
  "acd_online_tag = text_tag (\<lambda>t c. Done (
     if lower (first_char t) = CHR ''n'' then upd_base (\<lambda>b. b\<lparr>mb_bOnlineCheck := False\<rparr>) c
     else if lower (first_char t) = CHR ''y'' then upd_base (\<lambda>b. b\<lparr>mb_bOnlineCheck := True\<rparr>) c
     else c))"

definition macd_line :: "mconf tags" where
  "macd_line =
     [(''SharedLibrary'', acd_plugin_tag), (''ProductID'', product_tag), (''DeviceAddr'', addr_tag), (''Port'', port_tag),
      (''Baudrate'', baudrate_tag), (''Databit'', databit_tag), (''Parity'', parity_tag), (''Stopbit'', stopbit_tag),
      (''Feedback'', feedback_tag), (''OnlineCheck'', acd_online_tag), (''FullDuplex'', duplex_tag), (''Delay'', delay_tag)]"

definition macd_points :: "mconf tags" where
  "macd_points =
     [(''Switch'', point_tag True mSwitch ACD_SWITCH MODBUS_DATA_TYPE_BOOL (- 1) mSwitch),
      (''Speed'', point_tag True mSpeed ACD_SPEED MODBUS_DATA_TYPE_ENUM (- 1) mSpeed),
      (''Mode'', point_tag True mMode ACD_MODE MODBUS_DATA_TYPE_ENUM (- 1) mMode),
      (''Temp'', point_tag True mTemp ACD_TEMP MODBUS_DATA_TYPE_VALUE (- 1) mTemp),
      (''EnvTemp'', point_tag False mEnvTemp ACD_ENV_TEMP MODBUS_DATA_TYPE_VALUE (- 1) mEnvTemp),
      (''Fault'', point_tag False mErrorCode ACD_ERROR_CODE MODBUS_DATA_TYPE_STR (- 1) mErrorCode)]"

definition macd_cell :: "string \<Rightarrow> cell_spec" where
  "macd_cell mac =
     \<lparr>cl_tags = [(''PrimaryKey'', primary_tag mac (Some (device_code MODBUS_DEVICE_AIRCONDITION)) True), (''ForeignKey'', foreign_tag),
        (''ForeignType'', ftype_tag Crash), (''RoomNo'', room_tag)],
      cl_slots = [mSwitch, mSpeed, mMode, mTemp, mEnvTemp, mErrorCode], cl_group = True\<rparr>"

definition ParseMbusAcdKey :: "string \<Rightarrow> xnode \<Rightarrow> mconf \<Rightarrow> mconf list \<Rightarrow> mconf list run" where
  "ParseMbusAcdKey mac item u lst = read_cells mac (macd_cell mac) u (x_kids item) lst"

definition ParseMbusAcdCfg ::
  "string \<Rightarrow> (nat \<Rightarrow> SerialParam cptr) \<Rightarrow> xnode list cptr \<Rightarrow> mconf list cptr \<Rightarrow> (int \<times> mconf list cptr) run" where
  "ParseMbusAcdCfg mac =
     parse_units (\<lambda>c lst. case mc_pItem c of NULL \<Rightarrow> Done lst | Ptr item \<Rightarrow> ParseMbusAcdKey mac item c lst) ''AirCondition'' MODBUS_DEVICE_AIRCONDITION
       (macd_line @ macd_points @ [(''Item'', item_tag)])"

subsection \<open>Ventilation\<close>

text \<open>The log entries of the points behind the speed read the speed; the cells copy three objects.\<close>

definition mvent_line :: "mconf tags" where
  "mvent_line =
     [(''SharedLibrary'', plugin_tag), (''ProductID'', product_tag), (''DeviceAddr'', addr_tag), (''Port'', port_tag),
      (''Baudrate'', baudrate_tag), (''Databit'', databit_tag), (''Parity'', parity_tag), (''Stopbit'', stopbit_tag),
      (''Feedback'', feedback_tag), (''OnlineCheck'', online_tag), (''FullDuplex'', duplex_tag), (''Delay'', delay_tag)]"

definition mvent_points :: "mconf tags" where
  "mvent_points =
     [(''Switch'', point_tag False mSwitch VENT_SWITCH MODBUS_DATA_TYPE_BOOL (- 1) mSwitch),
      (''Speed'', point_tag False mSpeed VENT_SPEED MODBUS_DATA_TYPE_ENUM (- 1) mSpeed),
      (''Humi'', point_tag False mHumi VENT_HUMI MODBUS_DATA_TYPE_VALUE (- 1) mSpeed),
      (''Mode'', point_tag False mMode VENT_MODE MODBUS_DATA_TYPE_ENUM (- 1) mSpeed),
      (''Valve'', point_tag False mValve VENT_VALVE MODBUS_DATA_TYPE_BOOL (- 1) mSpeed),
      (''EnvHumi'', point_tag False mEnvHumi VENT_ENV_HUMI MODBUS_DATA_TYPE_VALUE (- 1) mSpeed),
      (''Fault'', point_tag False mErrorCode FREATURE_FAULT MODBUS_DATA_TYPE_STR (- 1) mSpeed)]"

definition mvent_cell :: "string \<Rightarrow> cell_spec" where
  "mvent_cell mac =
     \<lparr>cl_tags = [(''PrimaryKey'', primary_tag mac (Some (device_code MODBUS_DEVICE_VENTILATION)) True), (''ForeignKey'', foreign_tag),
        (''ForeignType'', ftype_tag Exits), (''RoomNo'', room_tag)],
      cl_slots = [mSwitch, mSpeed, mErrorCode], cl_group = True\<rparr>"

definition ParseMbusVentKey :: "string \<Rightarrow> xnode \<Rightarrow> mconf \<Rightarrow> mconf list \<Rightarrow> mconf list run" where
  "ParseMbusVentKey mac item u lst = read_cells mac (mvent_cell mac) u (x_kids item) lst"

definition ParseMbusVentCfg ::
  "string \<Rightarrow> (nat \<Rightarrow> SerialParam cptr) \<Rightarrow> xnode list cptr \<Rightarrow> mconf list cptr \<Rightarrow> (int \<times> mconf list cptr) run" where
  "ParseMbusVentCfg mac =
     parse_units (\<lambda>c lst. case mc_pItem c of NULL \<Rightarrow> Done lst | Ptr item \<Rightarrow> ParseMbusVentKey mac item c lst) ''Ventilation'' MODBUS_DEVICE_VENTILATION
       (mvent_line @ mvent_points @ [(''Item'', item_tag)])"

subsection \<open>Floor heating\<close>

definition mheat_line :: "mconf tags" where
  "mheat_line =
     [(''SharedLibrary'', plugin_tag), (''ProductID'', product_tag), (''DeviceAddr'', addr_tag), (''Port'', port_tag),
      (''Baudrate'', baudrate_tag), (''Databit'', databit_tag), (''Parity'', parity_tag), (''Stopbit'', stopbit_tag),
      (''Feedback'', feedback_tag), (''OnlineCheck'', online_tag), (''FullDuplex'', duplex_tag), (''Delay'', delay_tag)]"

definition mheat_points :: "mconf tags" where
  "mheat_points =
     [(''Switch'', point_tag False mSwitch HEAT_SWITCH MODBUS_DATA_TYPE_BOOL (- 1) mSwitch),
      (''Temp'', point_tag False mTemp HEAT_TEMP MODBUS_DATA_TYPE_VALUE (- 1) mTemp),
      (''EnvTemp'', point_tag False mEnvTemp HEAT_ENV_TEMP MODBUS_DATA_TYPE_VALUE (- 1) mEnvTemp),
      (''Fault'', point_tag False mErrorCode HEAT_ENV_TEMP MODBUS_DATA_TYPE_VALUE (- 1) mEnvTemp)]"

definition mheat_cell :: "string \<Rightarrow> cell_spec" where
  "mheat_cell mac =
     \<lparr>cl_tags = [(''PrimaryKey'', primary_tag mac (Some (device_code MODBUS_DEVICE_FLOORHEATING)) False), (''ForeignKey'', foreign_tag),
        (''ForeignType'', ftype_tag Exits), (''RoomNo'', room_tag)],
      cl_slots = [mSwitch, mTemp, mEnvTemp], cl_group = True\<rparr>"

definition ParseMbusHeatKey :: "string \<Rightarrow> xnode \<Rightarrow> mconf \<Rightarrow> mconf list \<Rightarrow> mconf list run" where
  "ParseMbusHeatKey mac item u lst = read_cells mac (mheat_cell mac) u (x_kids item) lst"

definition ParseMbusHeatCfg ::
  "string \<Rightarrow> (nat \<Rightarrow> SerialParam cptr) \<Rightarrow> xnode list cptr \<Rightarrow> mconf list cptr \<Rightarrow> (int \<times> mconf list cptr) run" where
  "ParseMbusHeatCfg mac =
     parse_units (\<lambda>c lst. case mc_pItem c of NULL \<Rightarrow> Done lst | Ptr item \<Rightarrow> ParseMbusHeatKey mac item c lst) ''FloorHeating'' MODBUS_DEVICE_FLOORHEATING
       (mheat_line @ mheat_points @ [(''Item'', item_tag)])"

subsection \<open>Air quality\<close>

text \<open>A full-duplex line is opened by the tag already; the cells get the type of a floor heating.\<close>

definition aqi_duplex_tag :: "xnode \<Rightarrow> mconf \<Rightarrow> mconf run" where
  "aqi_duplex_tag = text_tag (\<lambda>t c.
     if lower (first_char t) = CHR ''y'' then
       (case SetFullDuplex (mc_serial c) True of
          None \<Rightarrow> Crash
        | Some (_, ser) \<Rightarrow>
            Done ((upd_base (\<lambda>b. b\<lparr>mb_bFullDuplex := True\<rparr>) c)\<lparr>mc_serial := ser, mc_started := Suc (mc_started c)\<rparr>))
     else Done c)"

definition maqi_line :: "mconf tags" where
  "maqi_line =
     [(''SharedLibrary'', plugin_tag), (''ProductID'', product_tag), (''DeviceAddr'', addr_tag), (''Port'', port_tag),
      (''Baudrate'', baudrate_tag), (''Databit'', databit_tag), (''Parity'', parity_tag), (''Stopbit'', stopbit_tag),
      (''Feedback'', feedback_tag), (''OnlineCheck'', online_tag), (''FullDuplex'', aqi_duplex_tag), (''Delay'', delay_tag)]"

definition maqi_points :: "mconf tags" where
  "maqi_points =
     [(''Humi'', point_tag False mHumi AQI_HUMI MODBUS_DATA_TYPE_VALUE (- 1) mHumi),
      (''Temp'', point_tag False mTemp AQI_TEMP MODBUS_DATA_TYPE_VALUE (- 1) mTemp),
      (''PM25'', point_tag False mPM25 AQI_PM25 MODBUS_DATA_TYPE_VALUE (- 1) mPM25),
      (''CO2'', point_tag False mCO2 AQI_CO2 MODBUS_DATA_TYPE_VALUE (- 1) mCO2)]"

definition maqi_cell :: "string \<Rightarrow> cell_spec" where
  "maqi_cell mac =
     \<lparr>cl_tags = [(''PrimaryKey'', primary_tag mac (Some (device_code MODBUS_DEVICE_FLOORHEATING)) False), (''ForeignKey'', foreign_tag),
        (''ForeignType'', ftype_tag Exits), (''RoomNo'', room_tag)],
      cl_slots = [mHumi, mTemp, mPM25, mCO2], cl_group = False\<rparr>"

definition ParseMbusAqiKey :: "string \<Rightarrow> xnode \<Rightarrow> mconf \<Rightarrow> mconf list \<Rightarrow> mconf list run" where
  "ParseMbusAqiKey mac item u lst = read_cells mac (maqi_cell mac) u (x_kids item) lst"

definition ParseMbusAqiCfg ::
  "string \<Rightarrow> (nat \<Rightarrow> SerialParam cptr) \<Rightarrow> xnode list cptr \<Rightarrow> mconf list cptr \<Rightarrow> (int \<times> mconf list cptr) run" where
  "ParseMbusAqiCfg mac =
     parse_units (\<lambda>c lst. case mc_pItem c of NULL \<Rightarrow> Done lst | Ptr item \<Rightarrow> ParseMbusAqiKey mac item c lst) ''AQI'' MODBUS_DEVICE_AQI
       (maqi_line @ maqi_points @ [(''Item'', item_tag)])"

subsection \<open>Humidifiers and purifiers\<close>

definition mhumi_line :: "string \<Rightarrow> mconf tags" where
  "mhumi_line mac =
     [(''SharedLibrary'', plugin_tag), (''ProductID'', product_tag), (''PrimaryKey'', primary_tag mac None False),
      (''ForeignKey'', foreign_tag), (''ForeignType'', ftype_tag Exits), (''DeviceAddr'', addr_tag), (''Port'', port_tag),
      (''Baudrate'', baudrate_tag), (''Databit'', databit_tag), (''Parity'', parity_tag), (''Stopbit'', stopbit_tag),
      (''Feedback'', feedback_tag), (''OnlineCheck'', online_tag), (''FullDuplex'', duplex_tag), (''Delay'', delay_tag)]"

definition mhumi_points :: "mconf tags" where
  "mhumi_points =
     [(''Switch'', point_tag False mSwitch HUMIDIFIER_SWITCH MODBUS_DATA_TYPE_BOOL (- 1) mSwitch),
      (''Humidity'', point_tag False mHumidity HUMIDIFIER_HUMIDITY_SET MODBUS_DATA_TYPE_VALUE (- 1) mHumidity)]"

definition ParseModbusHumidifierCfg ::
  "string \<Rightarrow> (nat \<Rightarrow> SerialParam cptr) \<Rightarrow> xnode list cptr \<Rightarrow> mconf list cptr \<Rightarrow> (int \<times> mconf list cptr) run" where
  "ParseModbusHumidifierCfg mac = parse_units (add_unit mac) ''Humidifier'' MODBUS_DEVICE_HUMIDIFIER (mhumi_line mac @ mhumi_points)"

definition mpuri_line :: "string \<Rightarrow> mconf tags" where
  "mpuri_line mac =
     [(''SharedLibrary'', plugin_tag), (''ProductID'', product_tag), (''PrimaryKey'', primary_tag mac None False),
      (''ForeignKey'', foreign_tag), (''ForeignType'', ftype_tag Exits), (''DeviceAddr'', addr_tag), (''Port'', port_tag),
      (''Baudrate'', baudrate_tag), (''Databit'', databit_tag), (''Parity'', parity_tag), (''Stopbit'', stopbit_tag),
      (''Feedback'', feedback_tag), (''OnlineCheck'', online_tag), (''FullDuplex'', duplex_tag), (''Delay'', delay_tag)]"

definition mpuri_points :: "mconf tags" where
  "mpuri_points =
     [(''Flow'', point_tag False mFlow PURIFIER_FLOW MODBUS_DATA_TYPE_VALUE (- 1) mFlow),
      (''TDS'', point_tag False mTDS PURIFIER_TDS MODBUS_DATA_TYPE_VALUE (- 1) mTDS),
      (''FilterTime'', point_tag False mFilterTime PURIFIER_PP_FILTER_TIME MODBUS_DATA_TYPE_VALUE (- 1) mFilterTime),
      (''Reset'', point_tag False mReset PURIFIER_RESET MODBUS_DATA_TYPE_BOOL (- 1) mReset)]"

definition ParseModbusPurifierCfg ::
  "string \<Rightarrow> (nat \<Rightarrow> SerialParam cptr) \<Rightarrow> xnode list cptr \<Rightarrow> mconf list cptr \<Rightarrow> (int \<times> mconf list cptr) run" where
  "ParseModbusPurifierCfg mac = parse_units (add_unit mac) ''Purifier'' MODBUS_DEVICE_PURIFIER (mpuri_line mac @ mpuri_points)"

subsection \<open>Panels\<close>

text \<open>The cells get the type of a ventilation.\<close>

definition mpanel_line :: "mconf tags" where
  "mpanel_line =
     [(''SharedLibrary'', plugin_tag), (''ProductID'', product_tag), (''DeviceAddr'', addr_tag), (''Port'', port_tag),
      (''Baudrate'', baudrate_tag), (''Databit'', databit_tag), (''Parity'', parity_tag), (''Stopbit'', stopbit_tag),
      (''Feedback'', feedback_tag), (''OnlineCheck'', online_tag), (''FullDuplex'', duplex_tag), (''Delay'', delay_tag)]"

definition mpanel_points :: "mconf tags" where
  "mpanel_points =
     [(''Switch'', point_tag False mSwitch PANEL_SWITCH MODBUS_DATA_TYPE_BOOL (- 1) mSwitch)]"

definition mpanel_cell :: "string \<Rightarrow> cell_spec" where
  "mpanel_cell mac =
     \<lparr>cl_tags = [(''PrimaryKey'', primary_tag mac (Some (device_code MODBUS_DEVICE_VENTILATION)) False), (''ForeignKey'', foreign_tag),
        (''ForeignType'', ftype_tag Exits), (''RoomNo'', room_tag)],
      cl_slots = [mSwitch], cl_group = False\<rparr>"

definition ParseMbusPanelKey :: "string \<Rightarrow> xnode \<Rightarrow> mconf \<Rightarrow> mconf list \<Rightarrow> mconf list run" where
  "ParseMbusPanelKey mac item u lst = read_cells mac (mpanel_cell mac) u (x_kids item) lst"

definition ParseMbusPanelCfg ::
  "string \<Rightarrow> (nat \<Rightarrow> SerialParam cptr) \<Rightarrow> xnode list cptr \<Rightarrow> mconf list cptr \<Rightarrow> (int \<times> mconf list cptr) run" where
  "ParseMbusPanelCfg mac =
     parse_units (\<lambda>c lst. case mc_pItem c of NULL \<Rightarrow> Done lst | Ptr item \<Rightarrow> ParseMbusPanelKey mac item c lst) ''Panel'' MODBUS_DEVICE_PANNEL
       (mpanel_line @ mpanel_points @ [(''Item'', item_tag)])"

subsection \<open>Curtains\<close>

definition mcurt_line :: "string \<Rightarrow> mconf tags" where
  "mcurt_line mac =
     [(''SharedLibrary'', plugin_tag), (''ProductID'', product_tag), (''PrimaryKey'', primary_tag mac (Some (device_code MODBUS_DEVICE_CURTAIN)) False),
      (''ForeignKey'', foreign_tag), (''ForeignType'', ftype_tag Exits), (''DeviceAddr'', addr_tag), (''Port'', port_tag),
      (''Baudrate'', baudrate_tag), (''Databit'', databit_tag), (''Parity'', parity_tag), (''Stopbit'', stopbit_tag),
      (''Feedback'', feedback_tag), (''OnlineCheck'', online_tag), (''FullDuplex'', duplex_tag), (''Delay'', delay_tag)]"

definition mcurt_points :: "mconf tags" where
  "mcurt_points =
     [(''Switch'', point_tag False mSwitch CURTAIN_SWITCH MODBUS_DATA_TYPE_ENUM (- 1) mSwitch),
      (''Fault'', point_tag False mFault FREATURE_FAULT MODBUS_DATA_TYPE_VALUE (- 1) mFault),
      (''Direction'', point_tag False mDirec CURTAIN_DIRECTION MODBUS_DATA_TYPE_BOOL 0 mDirec),
      (''Position'', point_tag False mPos FEATURE_POS MODBUS_DATA_TYPE_STR (- 1) mPos)]"

definition ParseMbusCurtainCfg ::
  "string \<Rightarrow> (nat \<Rightarrow> SerialParam cptr) \<Rightarrow> xnode list cptr \<Rightarrow> mconf list cptr \<Rightarrow> (int \<times> mconf list cptr) run" where
  "ParseMbusCurtainCfg mac = parse_units (add_unit mac) ''Curtain'' MODBUS_DEVICE_CURTAIN (mcurt_line mac @ mcurt_points)"

subsection \<open>What every configured device satisfies\<close>

text \<open>
  The settings of a line are those that the setters accept, or 0 if they were not given; the
  device and its serial object agree about full duplex; and the number of a device is the
  one in its key.
\<close>

definition line_ok :: "SerialParam \<Rightarrow> bool" where
  "line_ok p \<longleftrightarrow> sp_port p \<in> {0..4} \<and> (sp_baudrate p = 0 \<or> sp_baudrate p \<in> {2400..115200})
     \<and> (sp_databits p = 0 \<or> sp_databits p \<in> {5..8}) \<and> sp_stopbits p \<in> {0..2}
     \<and> sp_parity p \<in> {0, ch CHR ''n'', ch CHR ''N'', ch CHR ''o'', ch CHR ''O'', ch CHR ''e'', ch CHR ''E''}"

definition conf_ok :: "mconf \<Rightarrow> bool" where
  "conf_ok c \<longleftrightarrow> key_ok (mc_element c)
     \<and> (\<exists>p. mc_serial c = Ptr (Ptr p) \<and> line_ok p \<and> sp_bFullDuplex p = mb_bFullDuplex (md_base (mc_dev c)))"

definition fresh_serial :: "SerialParam \<Rightarrow> bool" where
  "fresh_serial p \<longleftrightarrow> sp_port p = 0 \<and> sp_baudrate p = 0 \<and> sp_databits p = 0 \<and> sp_stopbits p = 0 \<and> sp_parity p = 0
     \<and> \<not> sp_bFullDuplex p"

lemma upd_base_simps [simp]:
  "mc_serial (upd_base f c) = mc_serial c" "md_base (mc_dev (upd_base f c)) = f (md_base (mc_dev c))"
  "mc_szPlugin (upd_base f c) = mc_szPlugin c" "mc_pForeignKey (upd_base f c) = mc_pForeignKey c"
  "mc_foreignType (upd_base f c) = mc_foreignType c" "mc_pItem (upd_base f c) = mc_pItem c"
  "md_objs (mc_dev (upd_base f c)) = md_objs (mc_dev c)" "mc_started (upd_base f c) = mc_started c"
  by (simp_all add: upd_base_def)

lemma upd_el_simps [simp]:
  "mc_serial (upd_el f c) = mc_serial c" "mc_element (upd_el f c) = f (mc_element c)"
  "mb_bFullDuplex (md_base (mc_dev (upd_el f c))) = mb_bFullDuplex (md_base (mc_dev c))"
  "md_objs (mc_dev (upd_el f c)) = md_objs (mc_dev c)"
  by (simp_all add: upd_el_def)

lemma set_slot_simps [simp]: "mc_serial (set_slot s p c) = mc_serial c" "md_base (mc_dev (set_slot s p c)) = md_base (mc_dev c)"
  by (simp_all add: set_slot_def)

lemma new_mconf_ok: "fresh_serial p \<Longrightarrow> conf_ok (new_mconf nm ty p)"
  by (auto simp: conf_ok_def key_ok_def new_mconf_def line_ok_def fresh_serial_def)

lemma conf_ok_same:
  assumes "conf_ok c" and "mc_serial c' = mc_serial c" and "mb_bFullDuplex (md_base (mc_dev c')) = mb_bFullDuplex (md_base (mc_dev c))"
    and "key_ok (mc_element c')"
  shows "conf_ok c'"
  using assms by (auto simp: conf_ok_def)

lemma conf_okD: "conf_ok c \<Longrightarrow> key_ok (mc_element c)"
  by (simp add: conf_ok_def)

lemma serial_set_ok:
  assumes "serial_set f v c = Done c'" and "conf_ok c"
    and "\<And>p ret ser. f (Ptr (Ptr p)) v = Some (ret, ser) \<Longrightarrow> ret = 0 \<Longrightarrow> line_ok p \<Longrightarrow>
      \<exists>q. ser = Ptr (Ptr q) \<and> line_ok q \<and> sp_bFullDuplex q = sp_bFullDuplex p"
  shows "conf_ok c'"
proof -
  obtain p where p: "mc_serial c = Ptr (Ptr p)" "line_ok p" "sp_bFullDuplex p = mb_bFullDuplex (md_base (mc_dev c))"
    using assms(2) by (auto simp: conf_ok_def)
  obtain ret ser where s: "f (Ptr (Ptr p)) v = Some (ret, ser)" "ret = 0" "c' = c\<lparr>mc_serial := ser\<rparr>"
    using assms(1) p(1) by (auto simp: serial_set_def split: option.splits prod.splits if_splits)
  from assms(3) [OF s(1,2) p(2)] p(3) s(3) assms(2) show ?thesis by (auto simp: conf_ok_def)
qed

lemma setters_ok:
  "f \<in> {SetPort, SetBaudrate, SetDatabits, SetStopbits, SetParity} \<Longrightarrow> f (Ptr (Ptr p)) v = Some (ret, ser) \<Longrightarrow> ret = 0 \<Longrightarrow> line_ok p \<Longrightarrow>
   \<exists>q. ser = Ptr (Ptr q) \<and> line_ok q \<and> sp_bFullDuplex q = sp_bFullDuplex p"
  by (auto simp: SetPort_def SetBaudrate_def SetDatabits_def SetStopbits_def SetParity_def set_param_def line_ok_def split: if_splits)

named_theorems tag_keeps

lemma serial_tags_keep [tag_keeps]:
  "conf_ok c \<Longrightarrow> port_tag n c = Done c' \<Longrightarrow> conf_ok c'"
  "conf_ok c \<Longrightarrow> baudrate_tag n c = Done c' \<Longrightarrow> conf_ok c'"
  "conf_ok c \<Longrightarrow> databit_tag n c = Done c' \<Longrightarrow> conf_ok c'"
  "conf_ok c \<Longrightarrow> stopbit_tag n c = Done c' \<Longrightarrow> conf_ok c'"
  "conf_ok c \<Longrightarrow> parity_tag n c = Done c' \<Longrightarrow> conf_ok c'"
  by (auto simp: port_tag_def baudrate_tag_def databit_tag_def stopbit_tag_def parity_tag_def tag_Done
      elim!: serial_set_ok intro: setters_ok)

lemma upd_keeps:
  "conf_ok c \<Longrightarrow> mc_serial c' = mc_serial c \<Longrightarrow> mb_bFullDuplex (md_base (mc_dev c')) = mb_bFullDuplex (md_base (mc_dev c)) \<Longrightarrow>
   el_pPrimaryKey (mc_element c') = el_pPrimaryKey (mc_element c) \<Longrightarrow> el_devId (mc_element c') = el_devId (mc_element c) \<Longrightarrow> conf_ok c'"
  by (rule conf_ok_same) (auto simp: key_ok_def dest: conf_okD)

lemma plain_tags_keep [tag_keeps]:
  "conf_ok c \<Longrightarrow> plugin_tag n c = Done c' \<Longrightarrow> conf_ok c'"
  "conf_ok c \<Longrightarrow> acd_plugin_tag n c = Done c' \<Longrightarrow> conf_ok c'"
  "conf_ok c \<Longrightarrow> product_tag n c = Done c' \<Longrightarrow> conf_ok c'"
  "conf_ok c \<Longrightarrow> addr_tag n c = Done c' \<Longrightarrow> conf_ok c'"
  "conf_ok c \<Longrightarrow> feedback_tag n c = Done c' \<Longrightarrow> conf_ok c'"
  "conf_ok c \<Longrightarrow> online_tag n c = Done c' \<Longrightarrow> conf_ok c'"
  "conf_ok c \<Longrightarrow> acd_online_tag n c = Done c' \<Longrightarrow> conf_ok c'"
  "conf_ok c \<Longrightarrow> delay_tag n c = Done c' \<Longrightarrow> conf_ok c'"
  "conf_ok c \<Longrightarrow> item_tag n c = Done c' \<Longrightarrow> conf_ok c'"
  unfolding plugin_tag_def acd_plugin_tag_def product_tag_def addr_tag_def feedback_tag_def online_tag_def
      acd_online_tag_def delay_tag_def item_tag_def text_tag_Done num_tag_Done content_Done
  by (auto elim!: upd_keeps split: if_splits)

lemma duplex_tags_keep [tag_keeps]:
  "conf_ok c \<Longrightarrow> duplex_tag n c = Done c' \<Longrightarrow> conf_ok c'"
  "conf_ok c \<Longrightarrow> aqi_duplex_tag n c = Done c' \<Longrightarrow> conf_ok c'"
  unfolding duplex_tag_def aqi_duplex_tag_def text_tag_Done
  by (auto simp: SetFullDuplex_def set_param_def conf_ok_def line_ok_def upd_base_def split: if_splits)

lemma key_tags_keep [tag_keeps]:
  "length mac = 12 \<Longrightarrow> conf_ok c \<Longrightarrow> primary_tag mac ty must n c = Done c' \<Longrightarrow> conf_ok c'"
  "conf_ok c \<Longrightarrow> foreign_tag n c = Done c' \<Longrightarrow> conf_ok c'"
  "conf_ok c \<Longrightarrow> ftype_tag Exits n c = Done c' \<Longrightarrow> conf_ok c'"
  "conf_ok c \<Longrightarrow> ftype_tag Crash n c = Done c' \<Longrightarrow> conf_ok c'"
  "conf_ok c \<Longrightarrow> room_tag n c = Done c' \<Longrightarrow> conf_ok c'"
  unfolding primary_tag_def foreign_tag_def ftype_tag_def room_tag_def content_Done Let_def number_Done
  by (auto simp: key_ok_def make_key_length elim: upd_keeps conf_ok_same split: if_splits)

lemma data_point_keeps: "conf_ok c \<Longrightarrow> data_point must s f ty old n c = Done c' \<Longrightarrow> conf_ok c'"
  unfolding data_point_def content_Done number_Done by (auto elim!: upd_keeps simp: set_slot_def split: if_splits)

interpretation datapoint_tag: tag_invariant "[(''DataPoint'', data_point must s f ty old)]" conf_ok for must s f ty old
  by unfold_locales (auto dest: data_point_keeps)

lemma point_tag_keeps [tag_keeps]: "conf_ok c \<Longrightarrow> point_tag must s f ty old logged n c = Done c' \<Longrightarrow> conf_ok c'"
  unfolding point_tag_def by (auto simp: andthen_Done split: if_splits dest: datapoint_tag.siblings_keep)

subsection \<open>Parsers as interfaces\<close>

text \<open>
  A reader of cells gives all its devices a property if the copy of the outdoor unit has it, and the
  tags and the last steps keep it; a parser of units if its tags do and what it does with a finished unit adds only
  devices with the property.
\<close>

locale cell_parser = tag_invariant "cl_tags sp" I for sp :: cell_spec and I :: "mconf \<Rightarrow> bool" +
  fixes mac :: string
    and U :: "mconf \<Rightarrow> bool"
  assumes copy_law: "U u \<Longrightarrow> I (copy_unit sp n u)"
    and finish_law: "I c \<Longrightarrow> I (finish_port (finish_foreign mac c))"
begin

lemma read_cells_adds:
  "U u \<Longrightarrow> read_cells mac sp u ns lst = Done lst' \<Longrightarrow> \<exists>new. lst' = lst @ new \<and> list_all I new"
proof (induction ns arbitrary: lst)
  case (Cons n ns)
  show ?case
  proof (cases "xcmp (x_name n) ''Cell''")
    case True
    with Cons.prems(2) obtain c where c: "siblings (cl_tags sp) (x_kids n) (copy_unit sp n u) = Done c"
      and r: "read_cells mac sp u ns (lst @ [finish_port (finish_foreign mac c)]) = Done lst'"
      by (auto simp: andthen_Done)
    have "I c" using siblings_keep [OF copy_law [OF Cons.prems(1)] c] .
    moreover from Cons.IH [OF Cons.prems(1) r] obtain new where
      "lst' = (lst @ [finish_port (finish_foreign mac c)]) @ new" "list_all I new" by blast
    ultimately show ?thesis using finish_law [of c] by (intro exI [of _ "finish_port (finish_foreign mac c) # new"]) simp
  qed (use Cons in simp)
qed simp

lemma item_adds:
  "U c \<Longrightarrow> (case mc_pItem c of NULL \<Rightarrow> Done lst | Ptr item \<Rightarrow> read_cells mac sp c (x_kids item) lst) = Done lst' \<Longrightarrow>
   \<exists>new. lst' = lst @ new \<and> list_all I new"
  using read_cells_adds by (auto split: cptr.splits)

end

definition only_adds :: "(mconf \<Rightarrow> bool) \<Rightarrow> (xnode list cptr \<Rightarrow> mconf list cptr \<Rightarrow> (int \<times> mconf list cptr) run) \<Rightarrow> bool" where
  "only_adds I parse \<longleftrightarrow> (\<forall>nodes lst ret q. parse nodes (Ptr lst) = Done (ret, q) \<longrightarrow>
     (\<exists>new. q = Ptr (lst @ new) \<and> list_all I new))"

locale unit_parser = tag_invariant ts I for ts :: "mconf tags" and I :: "mconf \<Rightarrow> bool" +
  fixes fin :: "mconf \<Rightarrow> mconf list \<Rightarrow> mconf list run"
    and nm :: string
    and ty :: DeviceType
  assumes new_law: "fresh_serial p \<Longrightarrow> I (new_mconf nm ty p)"
    and fin_law: "I c \<Longrightarrow> fin c lst = Done lst' \<Longrightarrow> \<exists>new. lst' = lst @ new \<and> list_all I new"
begin

lemma read_units_adds:
  "\<forall>i p. start i = Ptr p \<longrightarrow> fresh_serial p \<Longrightarrow> read_units fin nm ty ts start i ns lst = Done lst' \<Longrightarrow>
   \<exists>new. lst' = lst @ new \<and> list_all I new"
proof (induction ns arbitrary: i lst)
  case (Cons n ns)
  show ?case
  proof (cases "start i")
    case NULL
    with Cons show ?thesis by simp
  next
    case (Ptr p)
    with Cons.prems(2) obtain c lst1 where c: "siblings ts (x_kids n) (new_mconf nm ty p) = Done c"
      and f: "fin c lst = Done lst1" and r: "read_units fin nm ty ts start (Suc i) ns lst1 = Done lst'"
      by (auto simp: andthen_Done)
    from Cons.prems(1) Ptr have "fresh_serial p" by blast
    from siblings_keep [OF new_law [OF this] c] have "I c" .
    from fin_law [OF this f] Cons.IH [OF Cons.prems(1) r] show ?thesis by auto
  qed
qed simp

lemma parse_units_adds:
  assumes "\<forall>i p. start i = Ptr p \<longrightarrow> fresh_serial p" and "parse_units fin nm ty ts start nodes (Ptr lst) = Done (ret, q)"
  obtains new where "q = Ptr (lst @ new)" and "list_all I new"
proof (cases nodes)
  case NULL
  with assms(2) that [of "[]"] show ?thesis by (simp add: parse_units_def)
next
  case (Ptr ns)
  with assms(2) obtain lst' where "read_units fin nm ty ts start 0 ns lst = Done lst'" "q = Ptr lst'"
    by (auto simp: parse_units_def andthen_Done)
  with read_units_adds [OF assms(1)] that show ?thesis by blast
qed

lemma parses: "\<forall>i p. start i = Ptr p \<longrightarrow> fresh_serial p \<Longrightarrow> only_adds I (parse_units fin nm ty ts start)"
  unfolding only_adds_def by (blast elim: parse_units_adds)

end

text \<open>The serial objects are those of \<open>SerialInit\<close>.\<close>

definition serial_starts :: "(nat \<Rightarrow> nat \<Rightarrow> bool) \<Rightarrow> (nat \<Rightarrow> int) \<Rightarrow> (nat \<Rightarrow> bool) \<Rightarrow> nat \<Rightarrow> SerialParam cptr" where
  "serial_starts al efd pool i = (case fst (SerialInit (al i) (efd i) (pool i)) of Ptr (Ptr p) \<Rightarrow> Ptr p | _ \<Rightarrow> NULL)"

lemma serial_starts_fresh: "serial_starts al efd pool i = Ptr p \<Longrightarrow> fresh_serial p"
  by (auto simp: serial_starts_def SerialInit_def fresh_serial_def split: if_splits)

abbreviation configured :: "string \<Rightarrow> mconf \<Rightarrow> bool" where
  "configured mac c \<equiv> length mac = 12 \<longrightarrow> conf_ok c"

lemma configured_copy: "configured mac u \<Longrightarrow> configured mac (copy_unit sp n u)"
  by (auto simp: copy_unit_def Let_def elim!: upd_keeps)

lemma configured_finish: "configured mac c \<Longrightarrow> configured mac (finish_port (finish_foreign mac c))"
  by (auto simp: finish_port_def finish_foreign_def elim!: upd_keeps split: cptr.splits)

lemma configured_new: "fresh_serial p \<Longrightarrow> configured mac (new_mconf nm ty p)"
  by (simp add: new_mconf_ok)

lemma add_unit_adds: "configured mac c \<Longrightarrow> add_unit mac c lst = Done lst' \<Longrightarrow> \<exists>new. lst' = lst @ new \<and> list_all (configured mac) new"
  using configured_finish [of mac c] by (auto simp: add_unit_def)

lemmas configured_laws = configured_copy configured_finish configured_new

interpretation macd_cells: cell_parser "macd_cell mac" "configured mac" mac "configured mac" for mac
  by unfold_locales (auto simp: macd_cell_def dest: tag_keeps intro: configured_laws [rule_format])

interpretation macd: unit_parser "macd_line @ macd_points @ [(''Item'', item_tag)]" "configured mac"
  "\<lambda>c lst. case mc_pItem c of NULL \<Rightarrow> Done lst | Ptr item \<Rightarrow> ParseMbusAcdKey mac item c lst" "''AirCondition''" MODBUS_DEVICE_AIRCONDITION for mac
proof (unfold_locales, goal_cases)
  case (3 c lst lst')
  then show ?case unfolding ParseMbusAcdKey_def by (rule macd_cells.item_adds)
qed (auto simp: macd_line_def macd_points_def new_mconf_ok dest: tag_keeps)

interpretation mvent_cells: cell_parser "mvent_cell mac" "configured mac" mac "configured mac" for mac
  by unfold_locales (auto simp: mvent_cell_def dest: tag_keeps intro: configured_laws [rule_format])

interpretation mvent: unit_parser "mvent_line @ mvent_points @ [(''Item'', item_tag)]" "configured mac"
  "\<lambda>c lst. case mc_pItem c of NULL \<Rightarrow> Done lst | Ptr item \<Rightarrow> ParseMbusVentKey mac item c lst" "''Ventilation''" MODBUS_DEVICE_VENTILATION for mac
proof (unfold_locales, goal_cases)
  case (3 c lst lst')
  then show ?case unfolding ParseMbusVentKey_def by (rule mvent_cells.item_adds)
qed (auto simp: mvent_line_def mvent_points_def new_mconf_ok dest: tag_keeps)

interpretation mheat_cells: cell_parser "mheat_cell mac" "configured mac" mac "configured mac" for mac
  by unfold_locales (auto simp: mheat_cell_def dest: tag_keeps intro: configured_laws [rule_format])

interpretation mheat: unit_parser "mheat_line @ mheat_points @ [(''Item'', item_tag)]" "configured mac"
  "\<lambda>c lst. case mc_pItem c of NULL \<Rightarrow> Done lst | Ptr item \<Rightarrow> ParseMbusHeatKey mac item c lst" "''FloorHeating''" MODBUS_DEVICE_FLOORHEATING for mac
proof (unfold_locales, goal_cases)
  case (3 c lst lst')
  then show ?case unfolding ParseMbusHeatKey_def by (rule mheat_cells.item_adds)
qed (auto simp: mheat_line_def mheat_points_def new_mconf_ok dest: tag_keeps)

interpretation maqi_cells: cell_parser "maqi_cell mac" "configured mac" mac "configured mac" for mac
  by unfold_locales (auto simp: maqi_cell_def dest: tag_keeps intro: configured_laws [rule_format])

interpretation maqi: unit_parser "maqi_line @ maqi_points @ [(''Item'', item_tag)]" "configured mac"
  "\<lambda>c lst. case mc_pItem c of NULL \<Rightarrow> Done lst | Ptr item \<Rightarrow> ParseMbusAqiKey mac item c lst" "''AQI''" MODBUS_DEVICE_AQI for mac
proof (unfold_locales, goal_cases)
  case (3 c lst lst')
  then show ?case unfolding ParseMbusAqiKey_def by (rule maqi_cells.item_adds)
qed (auto simp: maqi_line_def maqi_points_def new_mconf_ok dest: tag_keeps)

interpretation mpanel_cells: cell_parser "mpanel_cell mac" "configured mac" mac "configured mac" for mac
  by unfold_locales (auto simp: mpanel_cell_def dest: tag_keeps intro: configured_laws [rule_format])

interpretation mpanel: unit_parser "mpanel_line @ mpanel_points @ [(''Item'', item_tag)]" "configured mac"
  "\<lambda>c lst. case mc_pItem c of NULL \<Rightarrow> Done lst | Ptr item \<Rightarrow> ParseMbusPanelKey mac item c lst" "''Panel''" MODBUS_DEVICE_PANNEL for mac
proof (unfold_locales, goal_cases)
  case (3 c lst lst')
  then show ?case unfolding ParseMbusPanelKey_def by (rule mpanel_cells.item_adds)
qed (auto simp: mpanel_line_def mpanel_points_def new_mconf_ok dest: tag_keeps)

interpretation mhumi: unit_parser "mhumi_line mac @ mhumi_points" "configured mac" "add_unit mac" "''Humidifier''" MODBUS_DEVICE_HUMIDIFIER for mac
  by unfold_locales (auto simp: mhumi_line_def mhumi_points_def new_mconf_ok dest: tag_keeps intro: add_unit_adds [rule_format])

interpretation mpuri: unit_parser "mpuri_line mac @ mpuri_points" "configured mac" "add_unit mac" "''Purifier''" MODBUS_DEVICE_PURIFIER for mac
  by unfold_locales (auto simp: mpuri_line_def mpuri_points_def new_mconf_ok dest: tag_keeps intro: add_unit_adds [rule_format])

interpretation mcurt: unit_parser "mcurt_line mac @ mcurt_points" "configured mac" "add_unit mac" "''Curtain''" MODBUS_DEVICE_CURTAIN for mac
  by unfold_locales (auto simp: mcurt_line_def mcurt_points_def new_mconf_ok dest: tag_keeps intro: add_unit_adds [rule_format])

text \<open>The objects of a cell are those that its reader copies from the outdoor unit.\<close>

definition copied :: "mslot list \<Rightarrow> mconf \<Rightarrow> mslot \<Rightarrow> mbus_obj cptr" where
  "copied ss u s = (if s \<in> set ss then md_objs (mc_dev u) s else NULL)"

lemma key_tags_objs:
  "primary_tag mac ty must n c = Done c' \<Longrightarrow> md_objs (mc_dev c') = md_objs (mc_dev c)"
  "foreign_tag n c = Done c' \<Longrightarrow> md_objs (mc_dev c') = md_objs (mc_dev c)"
  "ftype_tag Exits n c = Done c' \<Longrightarrow> md_objs (mc_dev c') = md_objs (mc_dev c)"
  "ftype_tag Crash n c = Done c' \<Longrightarrow> md_objs (mc_dev c') = md_objs (mc_dev c)"
  "room_tag n c = Done c' \<Longrightarrow> md_objs (mc_dev c') = md_objs (mc_dev c)"
  unfolding primary_tag_def foreign_tag_def ftype_tag_def room_tag_def content_Done Let_def number_Done
  by (auto split: if_splits)

lemma finish_objs: "md_objs (mc_dev (finish_port (finish_foreign mac c))) = md_objs (mc_dev c)"
  by (auto simp: finish_port_def finish_foreign_def split: cptr.splits)

lemma copy_unit_objs: "md_objs (mc_dev (copy_unit sp n u)) = copied (cl_slots sp) u"
  by (auto simp: copy_unit_def copied_def Let_def fun_eq_iff)

interpretation macd_objs: cell_parser "macd_cell mac" "\<lambda>c. md_objs (mc_dev c) = copied (cl_slots (macd_cell mac)) u" mac "\<lambda>v. v = u"
  for mac u
  by unfold_locales (auto simp: macd_cell_def copy_unit_objs finish_objs dest: key_tags_objs)

interpretation mvent_objs: cell_parser "mvent_cell mac" "\<lambda>c. md_objs (mc_dev c) = copied (cl_slots (mvent_cell mac)) u" mac "\<lambda>v. v = u"
  for mac u
  by unfold_locales (auto simp: mvent_cell_def copy_unit_objs finish_objs dest: key_tags_objs)

interpretation mheat_objs: cell_parser "mheat_cell mac" "\<lambda>c. md_objs (mc_dev c) = copied (cl_slots (mheat_cell mac)) u" mac "\<lambda>v. v = u"
  for mac u
  by unfold_locales (auto simp: mheat_cell_def copy_unit_objs finish_objs dest: key_tags_objs)

interpretation maqi_objs: cell_parser "maqi_cell mac" "\<lambda>c. md_objs (mc_dev c) = copied (cl_slots (maqi_cell mac)) u" mac "\<lambda>v. v = u"
  for mac u
  by unfold_locales (auto simp: maqi_cell_def copy_unit_objs finish_objs dest: key_tags_objs)

interpretation mpanel_objs: cell_parser "mpanel_cell mac" "\<lambda>c. md_objs (mc_dev c) = copied (cl_slots (mpanel_cell mac)) u" mac "\<lambda>v. v = u"
  for mac u
  by unfold_locales (auto simp: mpanel_cell_def copy_unit_objs finish_objs dest: key_tags_objs)

text \<open>All parsers of Modbus devices.\<close>

definition mbus_parsers ::
  "(string \<Rightarrow> (nat \<Rightarrow> SerialParam cptr) \<Rightarrow> xnode list cptr \<Rightarrow> mconf list cptr \<Rightarrow> (int \<times> mconf list cptr) run) list" where
  "mbus_parsers = [ParseMbusAcdCfg, ParseMbusVentCfg, ParseMbusHeatCfg, ParseMbusAqiCfg, ParseModbusHumidifierCfg,
     ParseModbusPurifierCfg, ParseMbusPanelCfg, ParseMbusCurtainCfg]"

lemma parser_adds: "parse \<in> set mbus_parsers \<Longrightarrow> \<forall>i p. start i = Ptr p \<longrightarrow> fresh_serial p \<Longrightarrow> only_adds (configured mac) (parse mac start)"
  unfolding mbus_parsers_def ParseMbusAcdCfg_def ParseMbusVentCfg_def ParseMbusHeatCfg_def ParseMbusAcdCfg_def ParseMbusAqiCfg_def
    ParseModbusHumidifierCfg_def ParseModbusPurifierCfg_def ParseMbusPanelCfg_def ParseMbusCurtainCfg_def
  by (simp only: list.set insert_iff empty_iff, elim disjE)
    (simp_all add: macd.parses mvent.parses mheat.parses maqi.parses mhumi.parses mpuri.parses mpanel.parses mcurt.parses)

end
