(* ===== verification/Config_Roundtrip.thy ===== *)
theory Config_Roundtrip
  imports Config_Mbus
begin

text \<open>
  What the configuration parser makes of a file: a description of air conditioners, the nodes
  that a writer of the file produces for it, and the devices that it means. Reading the nodes gives
  exactly these devices.
\<close>

subsection \<open>Tables and texts\<close>

definition text_el :: "string \<Rightarrow> string \<Rightarrow> xnode" where
  "text_el nm s = Elem nm [] [Leaf ''text'' (Ptr s)]"

lemma text_el_simps [simp]: "x_name (text_el nm s) = nm" "get_content (text_el nm s) = Done (Ptr s)"
  by (simp_all add: text_el_def get_content_def)

lemma num_of_dec: "v < 2 ^ 31 \<Longrightarrow> num_of (dec v) = (int v, False)"
proof -
  assume v: "v < 2 ^ 31"
  obtain d ds where d: "dec v = dig_char d # ds" "d < 10" by (rule dec_head)
  then have "dropWhile is_space (dec v) = dec v" by simp
  moreover have "scan_num 10 (dec v) = Some (int v, length (dec v))"
    using scan_num_dec [of "[]" v] by simp
  ultimately show ?thesis using v by (simp add: num_of_def strtol_def)
qed

lemma tag_txt [simp]:
  "text_tag f (text_el nm t) s = f t s"
  "v < 2 ^ 31 \<Longrightarrow> num_tag g (text_el nm (dec v)) s = g (int v) s"
  by (simp_all add: text_tag_def num_tag_def num_of_dec)

subsection \<open>A description of air conditioners\<close>

record acd_key =
  ak_key :: string
  ak_room :: nat
  ak_foreign :: "(nat \<times> string) option"
  ak_group :: bool

record acd_desc =
  ad_plugin :: string
  ad_product :: string
  ad_addr :: nat
  ad_port :: nat
  ad_baudrate :: nat
  ad_databit :: nat
  ad_parity :: char
  ad_stopbit :: nat
  ad_feedback :: bool
  ad_online :: bool
  ad_duplex :: bool
  ad_delay :: nat
  ad_point :: "mslot \<Rightarrow> nat"
  ad_keys :: "acd_key list"

definition acd_slots :: "mslot list" where
  "acd_slots = [mSwitch, mSpeed, mMode, mTemp, mEnvTemp, mErrorCode]"

definition acd_ok :: "acd_desc \<Rightarrow> bool" where
  "acd_ok d \<longleftrightarrow> ad_addr d < 2 ^ 16 \<and> ad_port d \<in> {1..4} \<and> ad_baudrate d \<in> {2400..115200} \<and> ad_databit d \<in> {5..8}
     \<and> ad_parity d \<in> set ''nNoOeE'' \<and> ad_stopbit d \<in> {1..2} \<and> ad_delay d < 2 ^ 16 \<and> (\<forall>s \<in> set acd_slots. ad_point d s < 2 ^ 31)
     \<and> (\<forall>k \<in> set (ad_keys d). ak_room k < 2 ^ 16 \<and> (case ak_foreign k of None \<Rightarrow> True | Some (tp, _) \<Rightarrow> tp \<in> {1..4}))"

text \<open>How it is written.\<close>

definition yes_no :: "bool \<Rightarrow> string" where
  "yes_no b = (if b then ''Yes'' else ''No'')"

definition type_name :: "nat \<Rightarrow> string" where
  "type_name tp = (if tp = DEVICE_TYPE_ZIGBEE then ''ZIGBEE'' else if tp = DEVICE_TYPE_MODBUS then ''MODBUS''
     else if tp = DEVICE_TYPE_KNX then ''KNX'' else ''RF433'')"

definition key_xml :: "acd_key \<Rightarrow> xnode" where
  "key_xml k = Elem ''Cell'' (if ak_group k then [(''group'', ''1'')] else [])
     ([text_el ''PrimaryKey'' (ak_key k), text_el ''RoomNo'' (dec (ak_room k))]
      @ (case ak_foreign k of None \<Rightarrow> [] | Some (tp, f) \<Rightarrow> [text_el ''ForeignType'' (type_name tp), text_el ''ForeignKey'' f]))"

definition point_xml :: "string \<Rightarrow> nat \<Rightarrow> xnode" where
  "point_xml nm dp = Elem nm [] [text_el ''DataPoint'' (dec dp)]"

definition acd_xml :: "acd_desc \<Rightarrow> xnode" where
  "acd_xml d = Elem ''Cell'' []
     [text_el ''SharedLibrary'' (ad_plugin d), text_el ''ProductID'' (ad_product d), text_el ''DeviceAddr'' (dec (ad_addr d)),
      text_el ''Port'' (dec (ad_port d)), text_el ''Baudrate'' (dec (ad_baudrate d)), text_el ''Databit'' (dec (ad_databit d)),
      text_el ''Parity'' [ad_parity d], text_el ''Stopbit'' (dec (ad_stopbit d)), text_el ''Feedback'' (yes_no (ad_feedback d)),
      text_el ''OnlineCheck'' (yes_no (ad_online d)), text_el ''FullDuplex'' (yes_no (ad_duplex d)), text_el ''Delay'' (dec (ad_delay d)),
      point_xml ''Switch'' (ad_point d mSwitch), point_xml ''Speed'' (ad_point d mSpeed), point_xml ''Mode'' (ad_point d mMode),
      point_xml ''Temp'' (ad_point d mTemp), point_xml ''EnvTemp'' (ad_point d mEnvTemp), point_xml ''Fault'' (ad_point d mErrorCode),
      Elem ''Item'' [] (map key_xml (ad_keys d))]"

text \<open>What it means: the objects, the line and one device per key.\<close>

definition acd_objs :: "acd_desc \<Rightarrow> mslot \<Rightarrow> mbus_obj cptr" where
  "acd_objs d =
     (\<lambda>_. NULL)
       (mSwitch := Ptr (new_obj ACD_SWITCH MODBUS_DATA_TYPE_BOOL (- 1) (ad_point d mSwitch)),
        mSpeed := Ptr (new_obj ACD_SPEED MODBUS_DATA_TYPE_ENUM (- 1) (ad_point d mSpeed)),
        mMode := Ptr (new_obj ACD_MODE MODBUS_DATA_TYPE_ENUM (- 1) (ad_point d mMode)),
        mTemp := Ptr (new_obj ACD_TEMP MODBUS_DATA_TYPE_VALUE (- 1) (ad_point d mTemp)),
        mEnvTemp := Ptr (new_obj ACD_ENV_TEMP MODBUS_DATA_TYPE_VALUE (- 1) (ad_point d mEnvTemp)),
        mErrorCode := Ptr (new_obj ACD_ERROR_CODE MODBUS_DATA_TYPE_STR (- 1) (ad_point d mErrorCode)))"

definition acd_serial :: "SerialParam \<Rightarrow> acd_desc \<Rightarrow> SerialParam" where
  "acd_serial p d = p\<lparr>sp_pMutex := Ptr (ad_port d), sp_port := int (ad_port d), sp_baudrate := int (ad_baudrate d),
     sp_databits := int (ad_databit d), sp_parity := ch (ad_parity d), sp_stopbits := int (ad_stopbit d),
     sp_bFullDuplex := ad_duplex d\<rparr>"

definition acd_device :: "string \<Rightarrow> SerialParam \<Rightarrow> acd_desc \<Rightarrow> acd_key \<Rightarrow> mbus_dev" where
  "acd_device mac p d k =
     \<lparr>md_base =
       \<lparr>mb_pIf = NULL,
        mb_element = \<lparr>el_szName = ''AirCondition'', el_pPrimaryKey = make_key mac DEVICE_TYPE_MODBUS (ak_key k),
          el_devId = key_number (make_key mac DEVICE_TYPE_MODBUS (ak_key k)), el_pProductId = ad_product d,
          el_pForeignKey = (case ak_foreign k of None \<Rightarrow> NULL | Some (tp, f) \<Rightarrow> Ptr (make_key mac tp f)),
          el_primaryType = device_code MODBUS_DEVICE_AIRCONDITION, el_pvForeignKey = NULL, el_bMaster = True, el_attri = 0\<rparr>,
        mb_devAddr = of_nat (ad_addr d), mb_regAddr = of_nat (ak_room k), mb_delay = of_nat (ad_delay d),
        mb_bFeedback = ad_feedback d, mb_bOnlineCheck = ad_online d, mb_hbIgnore = 0, mb_bFullDuplex = ad_duplex d,
        mb_bGroupMember = ak_group k, mb_pSerial = Ptr (ad_port d), mb_lostCnt = 0\<rparr>,
      md_next = [], md_objs = acd_objs d\<rparr>"

definition acd_unit :: "SerialParam \<Rightarrow> acd_desc \<Rightarrow> mconf" where
  "acd_unit p d =
     \<lparr>mc_dev = \<lparr>md_base =
       \<lparr>mb_pIf = NULL,
        mb_element = \<lparr>el_szName = ''AirCondition'', el_pPrimaryKey = [], el_devId = 0, el_pProductId = ad_product d, el_pForeignKey = NULL,
          el_primaryType = device_code MODBUS_DEVICE_AIRCONDITION, el_pvForeignKey = NULL, el_bMaster = True, el_attri = 0\<rparr>,
        mb_devAddr = of_nat (ad_addr d), mb_regAddr = 0, mb_delay = of_nat (ad_delay d),
        mb_bFeedback = ad_feedback d, mb_bOnlineCheck = ad_online d, mb_hbIgnore = 0, mb_bFullDuplex = ad_duplex d,
        mb_bGroupMember = False, mb_pSerial = Ptr 0, mb_lostCnt = 0\<rparr>,
      md_next = [], md_objs = acd_objs d\<rparr>,
      mc_serial = Ptr (Ptr (acd_serial p d)), mc_szPlugin = Ptr (ad_plugin d), mc_foreignType = DEVICE_TYPE_UNKNOWN,
      mc_pForeignKey = NULL, mc_pItem = Ptr (Elem ''Item'' [] (map key_xml (ad_keys d))), mc_started = 0\<rparr>"

subsection \<open>Reading it back\<close>

abbreviation macd_tags :: "mconf tags" where
  "macd_tags \<equiv> macd_line @ macd_points @ [(''Item'', item_tag)]"

lemma macd_text:
  "on_tag macd_tags (text_el ''SharedLibrary'' s) c = acd_plugin_tag (text_el ''SharedLibrary'' s) c"
  "on_tag macd_tags (text_el ''ProductID'' s) c = product_tag (text_el ''ProductID'' s) c"
  "on_tag macd_tags (text_el ''DeviceAddr'' s) c = addr_tag (text_el ''DeviceAddr'' s) c"
  "on_tag macd_tags (text_el ''Port'' s) c = port_tag (text_el ''Port'' s) c"
  "on_tag macd_tags (text_el ''Baudrate'' s) c = baudrate_tag (text_el ''Baudrate'' s) c"
  "on_tag macd_tags (text_el ''Databit'' s) c = databit_tag (text_el ''Databit'' s) c"
  "on_tag macd_tags (text_el ''Parity'' s) c = parity_tag (text_el ''Parity'' s) c"
  "on_tag macd_tags (text_el ''Stopbit'' s) c = stopbit_tag (text_el ''Stopbit'' s) c"
  "on_tag macd_tags (text_el ''Feedback'' s) c = feedback_tag (text_el ''Feedback'' s) c"
  "on_tag macd_tags (text_el ''OnlineCheck'' s) c = acd_online_tag (text_el ''OnlineCheck'' s) c"
  "on_tag macd_tags (text_el ''FullDuplex'' s) c = duplex_tag (text_el ''FullDuplex'' s) c"
  "on_tag macd_tags (text_el ''Delay'' s) c = delay_tag (text_el ''Delay'' s) c"
  by (simp_all add: macd_line_def)

lemma macd_elem:
  "on_tag macd_tags (Elem ''Switch'' as ks) c = point_tag True mSwitch ACD_SWITCH MODBUS_DATA_TYPE_BOOL (- 1) mSwitch (Elem ''Switch'' as ks) c"
  "on_tag macd_tags (Elem ''Speed'' as ks) c = point_tag True mSpeed ACD_SPEED MODBUS_DATA_TYPE_ENUM (- 1) mSpeed (Elem ''Speed'' as ks) c"
  "on_tag macd_tags (Elem ''Mode'' as ks) c = point_tag True mMode ACD_MODE MODBUS_DATA_TYPE_ENUM (- 1) mMode (Elem ''Mode'' as ks) c"
  "on_tag macd_tags (Elem ''Temp'' as ks) c = point_tag True mTemp ACD_TEMP MODBUS_DATA_TYPE_VALUE (- 1) mTemp (Elem ''Temp'' as ks) c"
  "on_tag macd_tags (Elem ''EnvTemp'' as ks) c = point_tag False mEnvTemp ACD_ENV_TEMP MODBUS_DATA_TYPE_VALUE (- 1) mEnvTemp (Elem ''EnvTemp'' as ks) c"
  "on_tag macd_tags (Elem ''Fault'' as ks) c = point_tag False mErrorCode ACD_ERROR_CODE MODBUS_DATA_TYPE_STR (- 1) mErrorCode (Elem ''Fault'' as ks) c"
  "on_tag macd_tags (Elem ''Item'' as ks) c = item_tag (Elem ''Item'' as ks) c"
  by (simp_all add: macd_line_def macd_points_def)

lemma point_tag_xml [simp]:
  "dp < 2 ^ 31 \<Longrightarrow> point_tag must s f ty old s (Elem nm [] [text_el ''DataPoint'' (dec dp)]) c = Done (set_slot s (Ptr (new_obj f ty old dp)) c)"
  by (simp add: point_tag_def data_point_def xcmp_def num_of_dec set_slot_def)

lemma lower_yes_no [simp]: "lower (first_char (yes_no b)) = (if b then CHR ''y'' else CHR ''n'')"
  by (simp add: yes_no_def first_char_def)

lemma first_char_single [simp]: "first_char [c] = c"
  by (simp add: first_char_def)

lemma serial_set_line [simp]:
  assumes "mc_serial c = Ptr (Ptr p)"
  shows "v \<in> {1..4} \<Longrightarrow> serial_set SetPort (int v) c = Done (c\<lparr>mc_serial := Ptr (Ptr (p\<lparr>sp_pMutex := Ptr v, sp_port := int v\<rparr>))\<rparr>)"
    "v \<in> {2400..115200} \<Longrightarrow> serial_set SetBaudrate (int v) c = Done (c\<lparr>mc_serial := Ptr (Ptr (p\<lparr>sp_baudrate := int v\<rparr>))\<rparr>)"
    "v \<in> {5..8} \<Longrightarrow> serial_set SetDatabits (int v) c = Done (c\<lparr>mc_serial := Ptr (Ptr (p\<lparr>sp_databits := int v\<rparr>))\<rparr>)"
    "v \<in> {1..2} \<Longrightarrow> serial_set SetStopbits (int v) c = Done (c\<lparr>mc_serial := Ptr (Ptr (p\<lparr>sp_stopbits := int v\<rparr>))\<rparr>)"
    "x \<in> set ''nNoOeE'' \<Longrightarrow> serial_set SetParity (ch x) c = Done (c\<lparr>mc_serial := Ptr (Ptr (p\<lparr>sp_parity := ch x\<rparr>))\<rparr>)"
  using assms by (auto simp: serial_set_def SetPort_def SetBaudrate_def SetDatabits_def SetStopbits_def SetParity_def set_param_def)

lemmas macd_tag_defs = acd_plugin_tag_def product_tag_def addr_tag_def port_tag_def baudrate_tag_def databit_tag_def parity_tag_def
  stopbit_tag_def feedback_tag_def acd_online_tag_def duplex_tag_def delay_tag_def item_tag_def

lemma acd_unit_read:
  assumes "acd_ok d" and "fresh_serial p"
  shows "siblings macd_tags (x_kids (acd_xml d)) (new_mconf ''AirCondition'' MODBUS_DEVICE_AIRCONDITION p) = Done (acd_unit p d)"
proof -
  have b: "ad_addr d < 2 ^ 31" "ad_port d < 2 ^ 31" "ad_baudrate d < 2 ^ 31" "ad_databit d < 2 ^ 31" "ad_stopbit d < 2 ^ 31"
    "ad_delay d < 2 ^ 31" "ad_point d mSwitch < 2 ^ 31" "ad_point d mSpeed < 2 ^ 31" "ad_point d mMode < 2 ^ 31"
    "ad_point d mTemp < 2 ^ 31" "ad_point d mEnvTemp < 2 ^ 31" "ad_point d mErrorCode < 2 ^ 31"
    using assms(1) by (auto simp: acd_ok_def acd_slots_def)
  have r: "ad_port d \<in> {1..4}" "ad_baudrate d \<in> {2400..115200}" "ad_databit d \<in> {5..8}" "ad_parity d \<in> set ''nNoOeE''"
    "ad_stopbit d \<in> {1..2}"
    using assms(1) unfolding acd_ok_def by blast+
  show ?thesis
    unfolding acd_xml_def point_xml_def x_kids.simps
    using b r assms(2)
    by (cases p) (simp add: macd_text macd_elem macd_tag_defs new_mconf_def upd_base_def upd_el_def set_slot_def SetFullDuplex_def set_param_def
        acd_unit_def acd_serial_def acd_objs_def fresh_serial_def del: append.simps append_Nil set_simps)
qed

definition acd_conf :: "string \<Rightarrow> SerialParam \<Rightarrow> acd_desc \<Rightarrow> acd_key \<Rightarrow> mconf" where
  "acd_conf mac p d k =
     \<lparr>mc_dev = acd_device mac p d k, mc_serial = Ptr (Ptr (acd_serial p d)), mc_szPlugin = Ptr (ad_plugin d),
      mc_foreignType = (case ak_foreign k of None \<Rightarrow> DEVICE_TYPE_UNKNOWN | Some (tp, _) \<Rightarrow> tp),
      mc_pForeignKey = (case ak_foreign k of None \<Rightarrow> NULL | Some (_, f) \<Rightarrow> Ptr f),
      mc_pItem = NULL, mc_started = (if ad_duplex d then 1 else 0)\<rparr>"

lemma comm_type_name [simp]: "tp \<in> {1..4} \<Longrightarrow> comm_type (type_name tp) = Some tp"
proof -
  assume "tp \<in> {1..4}"
  then have "tp = 1 \<or> tp = 2 \<or> tp = 3 \<or> tp = 4" by auto
  then show ?thesis by (auto simp: comm_type_def type_name_def starts_def device_types)
qed

lemma acd_copied: "(\<lambda>s. if s \<in> set acd_slots then acd_objs d s else NULL) = acd_objs d"
  by (auto simp: acd_objs_def acd_slots_def fun_eq_iff)

lemma acd_cell_copy:
  "copy_unit (macd_cell mac) (key_xml k) (acd_unit p d) =
     (acd_unit p d)\<lparr>mc_dev := (mc_dev (acd_unit p d))\<lparr>md_base := (md_base (mc_dev (acd_unit p d)))\<lparr>mb_bGroupMember := ak_group k\<rparr>\<rparr>,
       mc_pItem := NULL, mc_started := (if ad_duplex d then 1 else 0)\<rparr>"
  using acd_copied [of d]
  by (simp add: copy_unit_def Let_def macd_cell_def acd_unit_def key_xml_def get_prop_def upd_base_def acd_slots_def cong: if_cong)

lemma room_tag_text [simp]: "v < 2 ^ 31 \<Longrightarrow> room_tag (text_el nm (dec v)) c = Done (upd_base (\<lambda>b. b\<lparr>mb_regAddr := of_nat v\<rparr>) c)"
  by (simp add: room_tag_def num_of_dec)

lemma macd_cell_tags:
  "cl_tags (macd_cell mac) = [(''PrimaryKey'', primary_tag mac (Some (device_code MODBUS_DEVICE_AIRCONDITION)) True),
     (''ForeignKey'', foreign_tag), (''ForeignType'', ftype_tag Crash), (''RoomNo'', room_tag)]"
  by (simp add: macd_cell_def)

lemma upd_el_locals [simp]: "mc_pForeignKey (upd_el f c) = mc_pForeignKey c" "mc_foreignType (upd_el f c) = mc_foreignType c"
  by (simp_all add: upd_el_def)

lemma finishing:
  "mc_pForeignKey c = NULL \<Longrightarrow> finish_foreign mac c = c"
  "mc_pForeignKey c = Ptr t \<Longrightarrow> mc_foreignType c \<noteq> DEVICE_TYPE_UNKNOWN \<Longrightarrow>
     finish_foreign mac c = upd_el (\<lambda>e. e\<lparr>el_pForeignKey := Ptr (make_key mac (mc_foreignType c) t)\<rparr>) c"
  "mc_serial c = Ptr (Ptr q) \<Longrightarrow> finish_port c = upd_base (\<lambda>b. b\<lparr>mb_pSerial := Ptr (nat (sp_port q))\<rparr>) c"
  by (simp_all add: finish_foreign_def finish_port_def)

lemma acd_key_read:
  assumes "acd_ok d" and "k \<in> set (ad_keys d)"
  obtains c where "siblings (cl_tags (macd_cell mac)) (x_kids (key_xml k)) (copy_unit (macd_cell mac) (key_xml k) (acd_unit p d)) = Done c"
    and "finish_port (finish_foreign mac c) = acd_conf mac p d k"
proof -
  let ?u = "copy_unit (macd_cell mac) (key_xml k) (acd_unit p d)"
  have room: "ak_room k < 2 ^ 31" using assms by (auto simp: acd_ok_def)
  have u: "mc_serial ?u = Ptr (Ptr (acd_serial p d))"
    "mc_pForeignKey ?u = NULL"
    unfolding acd_cell_copy by (simp_all add: acd_unit_def)
  show ?thesis
  proof (cases "ak_foreign k")
    case None
    show ?thesis
    proof (rule that)
      show "siblings (cl_tags (macd_cell mac)) (x_kids (key_xml k)) ?u = Done (upd_base (\<lambda>b. b\<lparr>mb_regAddr := of_nat (ak_room k)\<rparr>)
         (upd_el (\<lambda>e. e\<lparr>el_primaryType := device_code MODBUS_DEVICE_AIRCONDITION, el_pPrimaryKey := make_key mac DEVICE_TYPE_MODBUS (ak_key k),
            el_devId := key_number (make_key mac DEVICE_TYPE_MODBUS (ak_key k))\<rparr>) ?u))"
        using None room by (simp add: macd_cell_tags key_xml_def primary_tag_def Let_def)
    qed (use None u in \<open>simp add: finishing, unfold acd_cell_copy, simp add: acd_unit_def acd_conf_def acd_device_def acd_serial_def upd_el_def upd_base_def\<close>)
  next
    case (Some f)
    then obtain tp f' where f: "ak_foreign k = Some (tp, f')" by (cases f) auto
    then have tp: "tp \<in> {1..4}" using assms by (auto simp: acd_ok_def)
    then have n: "tp \<noteq> DEVICE_TYPE_UNKNOWN" by (auto simp: device_types)
    show ?thesis
    proof (rule that)
      show "siblings (cl_tags (macd_cell mac)) (x_kids (key_xml k)) ?u = Done ((upd_el (\<lambda>e. e\<lparr>el_pForeignKey := Ptr []\<rparr>)
         ((upd_base (\<lambda>b. b\<lparr>mb_regAddr := of_nat (ak_room k)\<rparr>)
         (upd_el (\<lambda>e. e\<lparr>el_primaryType := device_code MODBUS_DEVICE_AIRCONDITION, el_pPrimaryKey := make_key mac DEVICE_TYPE_MODBUS (ak_key k),
            el_devId := key_number (make_key mac DEVICE_TYPE_MODBUS (ak_key k))\<rparr>)
           ?u))\<lparr>mc_foreignType := tp\<rparr>))\<lparr>mc_pForeignKey := Ptr f'\<rparr>)"
        using f room tp by (simp add: macd_cell_tags key_xml_def primary_tag_def Let_def foreign_tag_def ftype_tag_def)
    qed (use f n u in \<open>simp add: finishing, unfold acd_cell_copy, simp add: acd_unit_def acd_conf_def acd_device_def acd_serial_def upd_el_def upd_base_def\<close>)
  qed
qed

lemma acd_keys_read:
  "acd_ok d \<Longrightarrow> set ks \<subseteq> set (ad_keys d) \<Longrightarrow>
   read_cells mac (macd_cell mac) (acd_unit p d) (map key_xml ks) lst = Done (lst @ map (acd_conf mac p d) ks)"
proof (induction ks arbitrary: lst)
  case (Cons k ks)
  then have "k \<in> set (ad_keys d)" by simp
  with Cons.prems(1) obtain c where c: "siblings (cl_tags (macd_cell mac)) (x_kids (key_xml k)) (copy_unit (macd_cell mac) (key_xml k) (acd_unit p d)) = Done c"
    "finish_port (finish_foreign mac c) = acd_conf mac p d k" by (rule acd_key_read)
  have "xcmp (x_name (key_xml k)) ''Cell''" by (simp add: key_xml_def)
  with c Cons show ?case by simp
qed simp

lemma acd_units_read:
  "\<forall>d \<in> set ds. acd_ok d \<Longrightarrow> \<forall>i. start i = Ptr (p i) \<and> fresh_serial (p i) \<Longrightarrow>
   read_units (\<lambda>c lst. case mc_pItem c of NULL \<Rightarrow> Done lst | Ptr item \<Rightarrow> ParseMbusAcdKey mac item c lst) ''AirCondition''
     MODBUS_DEVICE_AIRCONDITION macd_tags start i (map acd_xml ds) lst
   = Done (lst @ concat (map (\<lambda>(i, d). map (acd_conf mac (p i) d) (ad_keys d)) (enumerate i ds)))"
proof (induction ds arbitrary: i lst)
  case (Cons d ds)
  have p: "start i = Ptr (p i)" "fresh_serial (p i)" using Cons.prems(2) by simp_all
  have d: "acd_ok d" using Cons.prems(1) by simp
  have "mc_pItem (acd_unit (p i) d) = Ptr (Elem ''Item'' [] (map key_xml (ad_keys d)))" by (simp add: acd_unit_def)
  with acd_unit_read [OF d p(2)] acd_keys_read [OF d subset_refl] Cons p show ?case
    by (simp add: ParseMbusAcdKey_def del: append.simps)
qed simp

subsection \<open>Cells of the units\<close>

text \<open>The readers of cells with the objects that they copy.\<close>

definition cell_readers :: "string \<Rightarrow> ((xnode \<Rightarrow> mconf \<Rightarrow> mconf list \<Rightarrow> mconf list run) \<times> mslot list) list" where
  "cell_readers mac =
     [(ParseMbusAcdKey mac, [mSwitch, mSpeed, mMode, mTemp, mEnvTemp, mErrorCode]), (ParseMbusVentKey mac, [mSwitch, mSpeed, mErrorCode]),
      (ParseMbusHeatKey mac, [mSwitch, mTemp, mEnvTemp]), (ParseMbusAqiKey mac, [mHumi, mTemp, mPM25, mCO2]),
      (ParseMbusPanelKey mac, [mSwitch])]"

lemmas key_defs = ParseMbusAcdKey_def ParseMbusVentKey_def ParseMbusHeatKey_def ParseMbusAqiKey_def ParseMbusPanelKey_def

lemma cell_slots [simp]:
  "cl_slots (macd_cell mac) = [mSwitch, mSpeed, mMode, mTemp, mEnvTemp, mErrorCode]"
  "cl_slots (mvent_cell mac) = [mSwitch, mSpeed, mErrorCode]" "cl_slots (mheat_cell mac) = [mSwitch, mTemp, mEnvTemp]"
  "cl_slots (maqi_cell mac) = [mHumi, mTemp, mPM25, mCO2]" "cl_slots (mpanel_cell mac) = [mSwitch]"
  by (simp_all add: macd_cell_def mvent_cell_def mheat_cell_def maqi_cell_def mpanel_cell_def)

lemma cells_copied:
  assumes "(rd, ss) \<in> set (cell_readers mac)" and "rd item u lst = Done lst'"
  shows "\<exists>new. lst' = lst @ new \<and> list_all (\<lambda>c. md_objs (mc_dev c) = copied ss u) new"
  using assms macd_objs.read_cells_adds [of u u mac] mvent_objs.read_cells_adds [of u u mac] mheat_objs.read_cells_adds [of u u mac]
    maqi_objs.read_cells_adds [of u u mac] mpanel_objs.read_cells_adds [of u u mac]
  unfolding cell_readers_def key_defs by (simp only: list.set insert_iff empty_iff prod.inject, elim disjE) simp_all

text \<open>The cells of air quality and panels take the type of another kind of device with their key.\<close>

definition keyed :: "DeviceType \<Rightarrow> mconf \<Rightarrow> bool" where
  "keyed ty c \<longleftrightarrow> (el_pPrimaryKey (mc_element c) \<noteq> [] \<longrightarrow> el_primaryType (mc_element c) = device_code ty)"

lemma key_tags_keyed:
  "primary_tag mac (Some (device_code ty)) must n c = Done c' \<Longrightarrow> keyed ty c \<Longrightarrow> keyed ty c'"
  "foreign_tag n c = Done c' \<Longrightarrow> keyed ty c \<Longrightarrow> keyed ty c'"
  "ftype_tag Exits n c = Done c' \<Longrightarrow> keyed ty c \<Longrightarrow> keyed ty c'"
  "room_tag n c = Done c' \<Longrightarrow> keyed ty c \<Longrightarrow> keyed ty c'"
  unfolding primary_tag_def foreign_tag_def ftype_tag_def room_tag_def content_Done Let_def number_Done keyed_def
  by (auto split: if_splits)

lemma finish_keyed: "keyed ty c \<Longrightarrow> keyed ty (finish_port (finish_foreign mac c))"
  by (auto simp: keyed_def finish_port_def finish_foreign_def split: cptr.splits)

lemma copy_keyed: "el_pPrimaryKey (mc_element u) = [] \<Longrightarrow> keyed ty (copy_unit sp n u)"
  by (auto simp: keyed_def copy_unit_def Let_def)

interpretation maqi_type: cell_parser "maqi_cell mac" "keyed MODBUS_DEVICE_FLOORHEATING" mac "\<lambda>u. el_pPrimaryKey (mc_element u) = []" for mac
proof (unfold_locales, goal_cases)
  case (1 t f s n s')
  then show ?case unfolding maqi_cell_def by (auto simp del: device_code.simps dest: key_tags_keyed)
qed (simp_all add: copy_keyed finish_keyed)

interpretation mpanel_type: cell_parser "mpanel_cell mac" "keyed MODBUS_DEVICE_VENTILATION" mac "\<lambda>u. el_pPrimaryKey (mc_element u) = []" for mac
proof (unfold_locales, goal_cases)
  case (1 t f s n s')
  then show ?case unfolding mpanel_cell_def by (auto simp del: device_code.simps dest: key_tags_keyed)
qed (simp_all add: copy_keyed finish_keyed)

lemma foreign_types:
  assumes "el_pPrimaryKey (mc_element u) = []"
  shows "ParseMbusAqiKey mac item u lst = Done lst' \<Longrightarrow> \<exists>new. lst' = lst @ new \<and> list_all (keyed MODBUS_DEVICE_FLOORHEATING) new"
    and "ParseMbusPanelKey mac item u lst = Done lst' \<Longrightarrow> \<exists>new. lst' = lst @ new \<and> list_all (keyed MODBUS_DEVICE_VENTILATION) new"
  using assms unfolding key_defs by (blast intro: maqi_type.read_cells_adds mpanel_type.read_cells_adds)+

subsection \<open>Ways to fail\<close>

text \<open>
  An element that can have text but is empty, as \<open><Port/>\<close>, crashes every parser of units behind
  nodes that it read; the log entry behind a point of a ventilation crashes if no speed was given
  before it; and a foreign key whose first child is not text makes the loop start again at it.
\<close>

lemma siblings_append: "siblings ts (ms @ ns) s = andthen (siblings ts ms s) (siblings ts ns)"
proof (induction ms arbitrary: s)
  case (Cons m ms)
  then show ?case by (cases "on_tag ts m s") simp_all
qed (simp add: siblings.simps)

lemma empty_line_tag:
  "x_kids n = [] \<Longrightarrow> t \<in> fst ` set macd_line \<Longrightarrow> x_name n = t \<Longrightarrow> on_tag (macd_line @ us) n c = Crash"
  by (auto simp: macd_line_def macd_tag_defs text_tag_def num_tag_def get_content_def)

lemma acd_crashes:
  assumes "start i = Ptr p" and "x_kids n = pre @ Elem t as [] # rest" and "t \<in> fst ` set macd_line"
    and "siblings macd_tags pre (new_mconf ''AirCondition'' MODBUS_DEVICE_AIRCONDITION p) = Done c"
  shows "read_units fin ''AirCondition'' MODBUS_DEVICE_AIRCONDITION macd_tags start i (n # ns) lst = Crash"
  using assms empty_line_tag [of "Elem t as []" t "macd_points @ [(''Item'', item_tag)]" c]
  by (simp add: siblings_append del: append.simps)

lemma log_reads_other:
  assumes "md_objs (mc_dev c) logged = NULL" and "s \<noteq> logged"
  shows "point_tag must s f ty old logged n c \<noteq> Done c'"
proof -
  have "md_objs (mc_dev c') logged = NULL" if "siblings [(''DataPoint'', data_point must s f ty old)] ns c = Done c'" for ns c'
    using assms that
  proof (induction ns arbitrary: c)
    case (Cons n ns)
    then obtain c1 where c1: "on_tag [(''DataPoint'', data_point must s f ty old)] n c = Done c1"
      and r: "siblings [(''DataPoint'', data_point must s f ty old)] ns c1 = Done c'" by (auto simp: andthen_Done)
    have "md_objs (mc_dev c1) logged = NULL"
      using c1 Cons.prems(1,2) unfolding on_tag.simps data_point_def content_Done number_Done
      by (auto simp: content_Done number_Done set_slot_def split: if_splits)
    with Cons.IH [OF _ Cons.prems(2) r] show ?case by simp
  qed simp
  then show ?thesis by (auto simp: point_tag_def andthen_Done)
qed

lemma foreign_key_hangs:
  "get_content n = Done NULL \<Longrightarrow> xcmp (x_name n) ''ForeignKey'' \<Longrightarrow> foreign_tag n c = Loops"
  by (simp add: foreign_tag_def)

subsection \<open>Properties\<close>

definition sample_acd :: acd_desc where
  "sample_acd = \<lparr>ad_plugin = ''libacd.so'', ad_product = ''p1'', ad_addr = 1, ad_port = 2, ad_baudrate = 9600, ad_databit = 8,
     ad_parity = CHR ''N'', ad_stopbit = 1, ad_feedback = True, ad_online = False, ad_duplex = False, ad_delay = 20, ad_point = (\<lambda>_. 101),
     ad_keys = [\<lparr>ak_key = ''07'', ak_room = 3, ak_foreign = Some (3, ''1.1.5''), ak_group = False\<rparr>]\<rparr>"

definition sample_mac :: string where "sample_mac = ''0011223344AA''"

definition sample_line :: SerialParam where
  "sample_line = \<lparr>sp_efd = 5, sp_sfd = - 1, sp_port = 0, sp_baudrate = 0, sp_databits = 0, sp_parity = 0, sp_stopbits = 0,
     sp_devDesc = [], sp_bFullDuplex = False, sp_key = 0, sp_rcvLen = 0, sp_bRcvRun = False, sp_pMutex = NULL\<rparr>"

lemma sample_ok: "acd_ok sample_acd" "length sample_mac = 12" "fresh_serial sample_line"
  "serial_starts (\<lambda>_ _. True) (\<lambda>_. 5) (\<lambda>_. True) = (\<lambda>_. Ptr sample_line)"
  by (simp_all add: acd_ok_def sample_acd_def acd_slots_def sample_mac_def fresh_serial_def sample_line_def serial_starts_def SerialInit_def fun_eq_iff)

lemma acd_parsed:
  assumes "\<forall>d \<in> set ds. acd_ok d" and "\<forall>i. start i = Ptr (p i) \<and> fresh_serial (p i)"
  shows "ParseMbusAcdCfg mac start (Ptr (map acd_xml ds)) (Ptr lst) =
    Done (0, Ptr (lst @ concat (map (\<lambda>(i, d). map (acd_conf mac (p i) d) (ad_keys d)) (enumerate 0 ds))))"
  unfolding ParseMbusAcdCfg_def parse_units_def using acd_units_read [OF assms] by simp

text \<open>
  Claim C17. A file that describes air conditioners, with settings in the ranges of the line, is read
  into exactly the devices it describes: one for each key, with the address, the objects, the
  line and the keys of the description, behind the devices that were there.
\<close>

theorem acd_config_roundtrip:
  assumes "\<forall>d \<in> set ds. acd_ok d" and "\<forall>i. start i = Ptr (p i) \<and> fresh_serial (p i)"
  shows "\<exists>new. ParseMbusAcdCfg mac start (Ptr (map acd_xml ds)) (Ptr lst) = Done (0, Ptr (lst @ new))
    \<and> map mc_dev new = concat (map (\<lambda>(i, d). map (acd_device mac (p i) d) (ad_keys d)) (enumerate 0 ds))
    \<and> map mc_serial new = concat (map (\<lambda>(i, d). map (\<lambda>_. Ptr (Ptr (acd_serial (p i) d))) (ad_keys d)) (enumerate 0 ds))
    \<and> map mc_szPlugin new = concat (map (\<lambda>d. map (\<lambda>_. Ptr (ad_plugin d)) (ad_keys d)) ds)"
proof (intro exI conjI)
  let ?new = "concat (map (\<lambda>(i, d). map (acd_conf mac (p i) d) (ad_keys d)) (enumerate 0 ds))"
  show "ParseMbusAcdCfg mac start (Ptr (map acd_xml ds)) (Ptr lst) = Done (0, Ptr (lst @ ?new))" by (rule acd_parsed [OF assms])
  show "map mc_dev ?new = concat (map (\<lambda>(i, d). map (acd_device mac (p i) d) (ad_keys d)) (enumerate 0 ds))"
    "map mc_serial ?new = concat (map (\<lambda>(i, d). map (\<lambda>_. Ptr (Ptr (acd_serial (p i) d))) (ad_keys d)) (enumerate 0 ds))"
    by (simp_all add: map_concat acd_conf_def comp_def case_prod_unfold)
  have "map mc_szPlugin ?new = concat (map (\<lambda>d. map (\<lambda>_. Ptr (ad_plugin d)) (ad_keys d)) (map snd (enumerate 0 ds)))"
    unfolding map_map by (simp add: map_concat acd_conf_def comp_def case_prod_unfold)
  then show "map mc_szPlugin ?new = concat (map (\<lambda>d. map (\<lambda>_. Ptr (ad_plugin d)) (ad_keys d)) ds)" by (simp only: map_snd_enumerate)
qed

theorem acd_config_roundtrip_witness:
  "\<exists>new. ParseMbusAcdCfg sample_mac (\<lambda>_. Ptr sample_line) (Ptr [acd_xml sample_acd]) (Ptr []) = Done (0, Ptr new)
    \<and> map mc_dev new = map (acd_device sample_mac sample_line sample_acd) (ad_keys sample_acd)"
  using acd_config_roundtrip [of "[sample_acd]" "\<lambda>_. Ptr sample_line" "\<lambda>_. sample_line" sample_mac "[]"] sample_ok by auto

text \<open>
  Claim C16. Whatever a file contains, a parser of Modbus devices that returns has only added devices
  to the list, and each of them is well formed: the settings of its line are those that the setters
  accept or were not given, the device and its serial object agree about full duplex, and its
  number is the one in its key.
\<close>

theorem modbus_config_ok:
  assumes "parse \<in> set mbus_parsers" and "length mac = 12"
    and "parse mac (serial_starts al efd pool) nodes (Ptr lst) = Done (ret, q)"
  shows "\<exists>new. q = Ptr (lst @ new) \<and> (\<forall>c \<in> set new. conf_ok c)"
proof -
  have "only_adds (configured mac) (parse mac (serial_starts al efd pool))"
    using assms(1) by (rule parser_adds) (blast intro: serial_starts_fresh)
  with assms(2,3) show ?thesis by (fastforce simp: only_adds_def list_all_iff)
qed

theorem modbus_config_ok_witness:
  "\<exists>new. Done (0, Ptr new) = ParseMbusAcdCfg sample_mac (serial_starts (\<lambda>_ _. True) (\<lambda>_. 5) (\<lambda>_. True)) (Ptr [acd_xml sample_acd]) (Ptr [])
    \<and> new \<noteq> [] \<and> (\<forall>c \<in> set new. conf_ok c)"
proof -
  have p: "ParseMbusAcdCfg sample_mac (serial_starts (\<lambda>_ _. True) (\<lambda>_. 5) (\<lambda>_. True)) (Ptr [acd_xml sample_acd]) (Ptr []) =
      Done (0, Ptr (map (acd_conf sample_mac sample_line sample_acd) (ad_keys sample_acd)))"
    using acd_parsed [of "[sample_acd]" "\<lambda>_. Ptr sample_line" "\<lambda>_. sample_line" sample_mac "[]"] sample_ok by simp
  have "ParseMbusAcdCfg \<in> set mbus_parsers" by (simp add: mbus_parsers_def)
  from modbus_config_ok [OF this sample_ok(2) p] p show ?thesis by (auto simp: sample_acd_def)
qed



end
