(* ===== verification/Config_Misc.thy ===== *)
theory Config_Misc
  imports Config_Panels Config_Roundtrip
begin

text \<open>
  The remaining parsers of \<open>source/parseXML.c\<close>: digital inputs and outputs, KNX scenes, groups of
  devices, the gateway itself and two switches.

  Digital inputs and outputs keep the texts of their keys in variables outside of the loop, as
  panels do. A group has an array of keys whose length the attribute \<open>member_sum\<close> gives; writing
  outside of it is a crash.
\<close>

subsection \<open>Digital inputs and outputs\<close>

record 'b dconf =
  dc_element :: DeviceElement
  dc_szUUID :: "string cptr"
  dc_szAuthKey :: "string cptr"
  dc_foreignType :: nat
  dc_pPrimaryKey :: "string cptr"
  dc_pForeignKey :: "string cptr"
  dc_channel :: u8
  dc_body :: 'b

definition new_dconf :: "string \<Rightarrow> 'b \<Rightarrow> string cptr \<times> string cptr \<Rightarrow> 'b dconf" where
  "new_dconf nm b l =
     \<lparr>dc_element = \<lparr>el_szName = nm, el_pPrimaryKey = [], el_devId = 0, el_pProductId = [], el_pForeignKey = NULL, el_primaryType = 0,
        el_pvForeignKey = NULL, el_bMaster = False, el_attri = 0\<rparr>,
      dc_szUUID = NULL, dc_szAuthKey = NULL, dc_foreignType = DEVICE_TYPE_UNKNOWN, dc_pPrimaryKey = fst l, dc_pForeignKey = snd l,
      dc_channel = 0, dc_body = b\<rparr>"

definition uuid_tag :: "xnode \<Rightarrow> 'b dconf \<Rightarrow> 'b dconf run" where
  "uuid_tag = text_tag (\<lambda>t c. Done (c\<lparr>dc_szUUID := Ptr t\<rparr>))"

definition authkey_tag :: "xnode \<Rightarrow> 'b dconf \<Rightarrow> 'b dconf run" where
  "authkey_tag = text_tag (\<lambda>t c. Done (c\<lparr>dc_szAuthKey := Ptr t\<rparr>))"

definition dproduct_tag :: "xnode \<Rightarrow> 'b dconf \<Rightarrow> 'b dconf run" where
  "dproduct_tag = text_tag (\<lambda>t c. Done (c\<lparr>dc_element := (dc_element c)\<lparr>el_pProductId := t, el_bMaster := True\<rparr>\<rparr>))"

definition dprimary_tag :: "xnode \<Rightarrow> 'b dconf \<Rightarrow> 'b dconf run" where
  "dprimary_tag n c = andthen (get_content n) (\<lambda>t. case t of NULL \<Rightarrow> Loops | Ptr t \<Rightarrow> Done (c\<lparr>dc_pPrimaryKey := Ptr t\<rparr>))"

definition dforeign_tag :: "xnode \<Rightarrow> 'b dconf \<Rightarrow> 'b dconf run" where
  "dforeign_tag n c =
     andthen (get_content n) (\<lambda>t. case t of
         NULL \<Rightarrow> Loops
       | Ptr t \<Rightarrow> Done (c\<lparr>dc_element := (dc_element c)\<lparr>el_pForeignKey := Ptr []\<rparr>, dc_pForeignKey := Ptr t\<rparr>))"

definition dftype_tag :: "xnode \<Rightarrow> 'b dconf \<Rightarrow> 'b dconf run" where
  "dftype_tag n c =
     andthen (get_content n) (\<lambda>t. case t of
         NULL \<Rightarrow> Exits
       | Ptr t \<Rightarrow> Done (case comm_type t of None \<Rightarrow> c | Some ft \<Rightarrow> c\<lparr>dc_foreignType := ft\<rparr>))"

text \<open>A number out of range is only logged.\<close>

definition channel_tag :: "xnode \<Rightarrow> 'b dconf \<Rightarrow> 'b dconf run" where
  "channel_tag = text_tag (\<lambda>t c. Done (c\<lparr>dc_channel := word_of_int (fst (num_of t))\<rparr>))"

definition dio_line :: "'b dconf tags" where
  "dio_line =
     [(''UUID'', uuid_tag), (''AUTHKEY'', authkey_tag), (''ProductID'', dproduct_tag), (''PrimaryKey'', dprimary_tag),
      (''ForeignKey'', dforeign_tag), (''ForeignType'', dftype_tag)]"

definition finish_dio :: "string \<Rightarrow> 'b dconf \<Rightarrow> 'b dconf run" where
  "finish_dio mac c =
     (let c = (case dc_pPrimaryKey c of
                 NULL \<Rightarrow> c
               | Ptr t \<Rightarrow> c\<lparr>dc_element := (dc_element c)\<lparr>el_pPrimaryKey := make_key mac DEVICE_TYPE_DIO t\<rparr>\<rparr>)
      in (case dc_pForeignKey c of
            NULL \<Rightarrow> Done c
          | Ptr t \<Rightarrow>
              if \<not> el_bMaster (dc_element c) then Done c
              else if el_pForeignKey (dc_element c) = NULL then Crash
              else Done (c\<lparr>dc_element := (dc_element c)\<lparr>el_pForeignKey := Ptr (make_key mac (dc_foreignType c) t)\<rparr>\<rparr>)))"

text \<open>An input: \<open>DiDev\<close>, whose element is filled in at the end, and the command that prints its level.\<close>

type_synonym di_conf = "(DiDev \<times> string) dconf"

definition upd_di :: "(DiDev \<Rightarrow> DiDev) \<Rightarrow> di_conf \<Rightarrow> di_conf" where
  "upd_di f c = c\<lparr>dc_body := (f (fst (dc_body c)), snd (dc_body c))\<rparr>"

definition trigger_tag :: "xnode \<Rightarrow> di_conf \<Rightarrow> di_conf run" where
  "trigger_tag n c =
     andthen (get_content n) (\<lambda>t. case t of
         NULL \<Rightarrow> Exits
       | Ptr t \<Rightarrow> Done (
           if starts ''low'' t then upd_di (\<lambda>d. d\<lparr>di_eLevel := DI_LEVEL_LOW\<rparr>) c
           else if starts ''high'' t then upd_di (\<lambda>d. d\<lparr>di_eLevel := DI_LEVEL_HIGH\<rparr>) c
           else c))"

definition di_command :: "u8 \<Rightarrow> string \<Rightarrow> string" where
  "di_command k old =
     (if k = 1 then ''cat /sys/class/dry-interface/di1/value''
      else if k = 2 then ''cat /sys/class/dry-interface/di2/value''
      else if k = 3 then ''cat /sys/class/dry-interface/di3/value''
      else if k = 4 then ''cat /sys/class/dry-interface/di4/value''
      else old)"

definition di_channel_tag :: "xnode \<Rightarrow> di_conf \<Rightarrow> di_conf run" where
  "di_channel_tag = text_tag (\<lambda>t c.
     let k = word_of_int (fst (num_of t))
     in Done (c\<lparr>dc_channel := k, dc_body := (fst (dc_body c), di_command k (snd (dc_body c)))\<rparr>))"

definition di_point_tag :: "xnode \<Rightarrow> di_conf \<Rightarrow> di_conf run" where
  "di_point_tag = text_tag (\<lambda>t c. Done (upd_di (\<lambda>d. d\<lparr>di_dataPoint := word_of_int (fst (num_of t))\<rparr>) c))"

definition new_di :: "string cptr \<times> string cptr \<Rightarrow> di_conf" where
  "new_di l =
     new_dconf ''DI'' (\<lparr>di_element = dc_element (new_dconf ''DI'' () l), di_eLevel = DI_LEVEL_LOW, di_dataPoint = 0, di_value = 0, di_status = - 1,
       di_retryNum = 3, di_retryCnt = 0\<rparr>, []) l"

definition di_tags :: "di_conf tags" where
  "di_tags = dio_line @ [(''Trigger'', trigger_tag), (''Channel'', di_channel_tag), (''DataPoint'', di_point_tag)]"

definition finish_di :: "string \<Rightarrow> di_conf \<Rightarrow> di_conf run" where
  "finish_di mac c = andthen (finish_dio mac c) (\<lambda>c. Done (upd_di (\<lambda>d. d\<lparr>di_element := dc_element c\<rparr>) c))"

definition ParseDiCfg :: "string \<Rightarrow> (nat \<Rightarrow> bool) \<Rightarrow> xnode list cptr \<Rightarrow> di_conf list cptr \<Rightarrow> (int \<times> di_conf list cptr) run" where
  "ParseDiCfg mac al =
     parse_devices (\<lambda>_. di_tags) (\<lambda>i l. if al i then Some (new_di l) else None) (\<lambda>c. (dc_pPrimaryKey c, dc_pForeignKey c))
       (finish_di mac) (NULL, NULL)"

definition DO_LEVEL_OPEN :: int where "DO_LEVEL_OPEN = 0"
definition DO_LEVEL_CLOSE :: int where "DO_LEVEL_CLOSE = 1"

record DoDev =
  do_element :: DeviceElement
  do_eLevel :: int
  do_dataPoint :: u8
  do_channel :: u8
  do_fd :: int
  do_value :: int

definition output_tag :: "xnode \<Rightarrow> (int \<times> u8) dconf \<Rightarrow> (int \<times> u8) dconf run" where
  "output_tag = text_tag (\<lambda>t c. Done (
     if starts ''open'' t then c\<lparr>dc_body := (DO_LEVEL_OPEN, snd (dc_body c))\<rparr>
     else if starts ''close'' t then c\<lparr>dc_body := (DO_LEVEL_CLOSE, snd (dc_body c))\<rparr>
     else c))"

definition do_point_tag :: "xnode \<Rightarrow> (int \<times> u8) dconf \<Rightarrow> (int \<times> u8) dconf run" where
  "do_point_tag = text_tag (\<lambda>t c. Done (c\<lparr>dc_body := (fst (dc_body c), word_of_int (fst (num_of t)))\<rparr>))"

definition do_tags :: "(int \<times> u8) dconf tags" where
  "do_tags = dio_line @ [(''Output'', output_tag), (''Channel'', channel_tag), (''DataPoint'', do_point_tag)]"

definition ParseDoCfg :: "string \<Rightarrow> (nat \<Rightarrow> bool) \<Rightarrow> xnode list cptr \<Rightarrow> DoDev list cptr \<Rightarrow> (int \<times> DoDev list cptr) run" where
  "ParseDoCfg mac al =
     parse_devices (\<lambda>_. do_tags) (\<lambda>i l. if al i then Some (new_dconf ''DO'' (DO_LEVEL_OPEN, 0) l) else None)
       (\<lambda>c. (dc_pPrimaryKey c, dc_pForeignKey c))
       (\<lambda>c. andthen (finish_dio mac c) (\<lambda>c. Done \<lparr>do_element = dc_element c, do_eLevel = fst (dc_body c), do_dataPoint = snd (dc_body c),
          do_channel = dc_channel c, do_fd = 0, do_value = 0\<rparr>)) (NULL, NULL)"

subsection \<open>Scenes\<close>

definition scene_id_tag :: "xnode \<Rightarrow> KnxScene \<Rightarrow> KnxScene run" where
  "scene_id_tag = text_tag (\<lambda>t s. Done (s\<lparr>sc_remap := fst (num_of t)\<rparr>))"

definition scene_addr_tag :: "xnode \<Rightarrow> KnxScene \<Rightarrow> KnxScene run" where
  "scene_addr_tag = text_tag (\<lambda>t s. Done (s\<lparr>sc_addr := overlay t (sc_addr s)\<rparr>))"

definition scene_value_tag :: "xnode \<Rightarrow> KnxScene \<Rightarrow> KnxScene run" where
  "scene_value_tag = text_tag (\<lambda>t s. Done (s\<lparr>sc_value := word_of_int (fst (num_of t))\<rparr>))"

text \<open>The name is stored in a member that nobody reads.\<close>

definition scene_name_tag :: "xnode \<Rightarrow> KnxScene \<Rightarrow> KnxScene run" where
  "scene_name_tag = text_tag (\<lambda>_ s. Done s)"

definition scene_tags :: "KnxScene tags" where
  "scene_tags = [(''id'', scene_id_tag), (''addr'', scene_addr_tag), (''value'', scene_value_tag), (''name'', scene_name_tag)]"

definition ParseKnxSceneCfg :: "(nat \<Rightarrow> bool) \<Rightarrow> xnode list cptr \<Rightarrow> KnxScene list cptr \<Rightarrow> (int \<times> KnxScene list cptr) run" where
  "ParseKnxSceneCfg al =
     parse_devices (\<lambda>_. scene_tags) (\<lambda>i _. if al i then Some \<lparr>sc_remap = 0, sc_addr = [], sc_value = 0\<rparr> else None) (\<lambda>_. ()) Done ()"

subsection \<open>Groups of devices\<close>

text \<open>\<open>gc_memberIdx\<close> is the local variable; the array has the length that the attribute gave.\<close>

record Group =
  gr_groupId :: u16
  gr_deviceType :: nat
  gr_pPrimaryKey :: "string cptr"
  gr_ppForeignKey :: "string cptr list"

record gconf =
  gc_group :: Group
  gc_memberIdx :: nat

text \<open>The attributes in their order; the second result is \<open>memberSum\<close>.\<close>

fun group_attrs :: "xnode \<Rightarrow> (string \<times> string) list \<Rightarrow> nat \<times> int \<Rightarrow> nat \<times> int" where
  "group_attrs n [] s = s"
| "group_attrs n ((a, _) # as) (tp, k) =
     group_attrs n as
       (if xcmp a ''type'' then
          ((case get_prop n ''type'' of
              None \<Rightarrow> tp
            | Some t \<Rightarrow> if xcmp t ''485'' then DEVICE_TYPE_MODBUS else if xcmp t ''KNX'' then DEVICE_TYPE_KNX else tp), k)
        else if xcmp a ''member_sum'' then
          (tp, (case get_prop n ''member_sum'' of None \<Rightarrow> k | Some t \<Rightarrow> fst (num_of t)))
        else (tp, k))"

text \<open>\<open>calloc\<close> fails for a negative number; with 0 members the entry before the array is written.\<close>

definition new_group :: "xnode \<Rightarrow> gconf run" where
  "new_group n =
     (let (tp, k) = group_attrs n (x_attrs n) (DEVICE_TYPE_UNKNOWN, 0)
      in if k < 0 then Exits
         else if k = 0 then Crash
         else Done \<lparr>gc_group = \<lparr>gr_groupId = 0, gr_deviceType = tp, gr_pPrimaryKey = NULL, gr_ppForeignKey = replicate (nat k) NULL\<rparr>,
                gc_memberIdx = 0\<rparr>)"

definition group_key :: "string \<Rightarrow> nat \<Rightarrow> string \<Rightarrow> string" where
  "group_key mac tp t = (if tp = DEVICE_TYPE_MODBUS \<or> tp = DEVICE_TYPE_KNX then make_key mac tp t else [])"

definition group_id_tag :: "xnode \<Rightarrow> gconf \<Rightarrow> gconf run" where
  "group_id_tag = text_tag (\<lambda>t c. Done (c\<lparr>gc_group := (gc_group c)\<lparr>gr_groupId := word_of_int (fst (num_of t))\<rparr>\<rparr>))"

definition group_primary_tag :: "string \<Rightarrow> xnode \<Rightarrow> gconf \<Rightarrow> gconf run" where
  "group_primary_tag mac = text_tag (\<lambda>t c.
     Done (c\<lparr>gc_group := (gc_group c)\<lparr>gr_pPrimaryKey := Ptr (group_key mac (gr_deviceType (gc_group c)) t)\<rparr>\<rparr>))"

definition group_member_tag :: "string \<Rightarrow> xnode \<Rightarrow> gconf \<Rightarrow> gconf run" where
  "group_member_tag mac = text_tag (\<lambda>t c.
     let g = gc_group c in
     if gc_memberIdx c < length (gr_ppForeignKey g)
     then Done (c\<lparr>gc_group := g\<lparr>gr_ppForeignKey := (gr_ppForeignKey g)[gc_memberIdx c := Ptr (group_key mac (gr_deviceType g) t)]\<rparr>,
            gc_memberIdx := Suc (gc_memberIdx c)\<rparr>)
     else Crash)"

definition group_tags :: "string \<Rightarrow> gconf tags" where
  "group_tags mac = [(''group_id'', group_id_tag), (''PrimaryKey'', group_primary_tag mac), (''ForeignKey'', group_member_tag mac)]"

fun read_groups :: "string \<Rightarrow> (nat \<Rightarrow> bool) \<Rightarrow> nat \<Rightarrow> xnode list \<Rightarrow> Group list \<Rightarrow> Group list run" where
  "read_groups mac al i [] lst = Done lst"
| "read_groups mac al i (n # ns) lst =
     (if al i then
        andthen (new_group n) (\<lambda>c. andthen (siblings (group_tags mac) (x_kids n) c)
          (\<lambda>c. read_groups mac al (Suc i) ns (lst @ [gc_group c])))
      else read_groups mac al (Suc i) ns lst)"

definition ParseGroupCfg :: "string \<Rightarrow> (nat \<Rightarrow> bool) \<Rightarrow> xnode list cptr \<Rightarrow> Group list cptr \<Rightarrow> (int \<times> Group list cptr) run" where
  "ParseGroupCfg mac al nodes pList =
     (case (nodes, pList) of
        (Ptr ns, Ptr lst) \<Rightarrow> andthen (read_groups mac al 0 ns lst) (\<lambda>lst. Done (0, Ptr lst))
      | _ \<Rightarrow> Done (- 1, pList))"

subsection \<open>The gateway\<close>

text \<open>A point is its number. A number out of range ends the program only for the scene and the position.\<close>

record Gateway =
  gw_pProductId :: "string cptr"
  gw_pState :: "u16 cptr"
  gw_pReset :: "u16 cptr"
  gw_pAlarm :: "u16 cptr"
  gw_pScene :: "u16 cptr"
  gw_pFault :: "u16 cptr"
  gw_pPos :: "u16 cptr"

definition gw_product_tag :: "xnode \<Rightarrow> Gateway \<Rightarrow> Gateway run" where
  "gw_product_tag = text_tag (\<lambda>t g. Done (g\<lparr>gw_pProductId := Ptr t\<rparr>))"

definition gw_point_tag :: "bool \<Rightarrow> ((u16 cptr \<Rightarrow> u16 cptr) \<Rightarrow> Gateway \<Rightarrow> Gateway) \<Rightarrow> xnode \<Rightarrow> Gateway \<Rightarrow> Gateway run" where
  "gw_point_tag strict u = text_tag (\<lambda>t g. case num_of t of (v, err) \<Rightarrow>
     if strict \<and> err then Exits else Done (u (\<lambda>_. Ptr (word_of_int v)) g))"

definition gateway_tags :: "Gateway tags" where
  "gateway_tags =
     [(''ProductID'', gw_product_tag), (''state'', gw_point_tag False gw_pState_update), (''reset'', gw_point_tag False gw_pReset_update),
      (''alarm'', gw_point_tag False gw_pAlarm_update), (''scene'', gw_point_tag True gw_pScene_update),
      (''fault'', gw_point_tag False gw_pReset_update), (''pos'', gw_point_tag True gw_pPos_update)]"

definition ParseGatewayCfg :: "xnode list cptr \<Rightarrow> Gateway cptr run" where
  "ParseGatewayCfg nodes =
     (case nodes of
        Ptr (n # _) \<Rightarrow> andthen (siblings gateway_tags (x_kids n)
          \<lparr>gw_pProductId = NULL, gw_pState = NULL, gw_pReset = NULL, gw_pAlarm = NULL, gw_pScene = NULL, gw_pFault = NULL, gw_pPos = NULL\<rparr>)
          (\<lambda>g. Done (Ptr g))
      | _ \<Rightarrow> Done NULL)"

text \<open>The identity of the gateway is filled into the element of the caller; the last text decides.\<close>

record gw_element =
  ge_szUUID :: "string cptr"
  ge_szAuthKey :: "string cptr"
  ge_pProductId :: "string cptr"

definition element_tags :: "gw_element tags" where
  "element_tags =
     [(''UUID'', text_tag (\<lambda>t e. Done (e\<lparr>ge_szUUID := Ptr t\<rparr>))), (''AuthKey'', text_tag (\<lambda>t e. Done (e\<lparr>ge_szAuthKey := Ptr t\<rparr>))),
      (''ProductID'', text_tag (\<lambda>t e. Done (e\<lparr>ge_pProductId := Ptr t\<rparr>)))]"

fun read_elements :: "xnode list \<Rightarrow> gw_element \<Rightarrow> gw_element run" where
  "read_elements [] e = Done e"
| "read_elements (n # ns) e = andthen (siblings element_tags (x_kids n) e) (read_elements ns)"

definition ParseDeviceElement :: "xnode list cptr \<Rightarrow> gw_element \<Rightarrow> (int \<times> gw_element) run" where
  "ParseDeviceElement nodes e =
     (case nodes of NULL \<Rightarrow> Done (- 1, e) | Ptr ns \<Rightarrow> andthen (read_elements ns e) (\<lambda>e. Done (0, e)))"

text \<open>A Zigbee device is its identity, its plugin and a constant.\<close>

record Z3Dev =
  z3_szPlugin :: "string cptr"
  z3_element :: gw_element
  z3_uddd :: u32

definition upd_z3 :: "(gw_element \<Rightarrow> gw_element) \<Rightarrow> Z3Dev \<Rightarrow> Z3Dev" where
  "upd_z3 f d = d\<lparr>z3_element := f (z3_element d)\<rparr>"

definition z3_tags :: "Z3Dev tags" where
  "z3_tags =
     [(''SharedLibrary'', text_tag (\<lambda>t d. Done (d\<lparr>z3_szPlugin := Ptr t\<rparr>))),
      (''UUID'', text_tag (\<lambda>t d. Done (upd_z3 (\<lambda>e. e\<lparr>ge_szUUID := Ptr t\<rparr>) d))),
      (''AuthKey'', text_tag (\<lambda>t d. Done (upd_z3 (\<lambda>e. e\<lparr>ge_szAuthKey := Ptr t\<rparr>) d))),
      (''ProductID'', text_tag (\<lambda>t d. Done (upd_z3 (\<lambda>e. e\<lparr>ge_pProductId := Ptr t\<rparr>) d)))]"

definition ParseZ3Cfg :: "xnode list cptr \<Rightarrow> Z3Dev list cptr \<Rightarrow> (int \<times> Z3Dev list cptr) run" where
  "ParseZ3Cfg =
     parse_devices (\<lambda>_. z3_tags)
       (\<lambda>_ _. Some \<lparr>z3_szPlugin = NULL, z3_element = \<lparr>ge_szUUID = NULL, ge_szAuthKey = NULL, ge_pProductId = NULL\<rparr>, z3_uddd = 0\<rparr>) (\<lambda>_. ())
       (\<lambda>d. Done (d\<lparr>z3_uddd := 0x8000200\<rparr>)) ()"

text \<open>
  The switches of the Zigbee module and of the automatic acknowledgements: an attribute of every
  selected node, the last one decides.
\<close>

definition switch_of :: "string \<Rightarrow> string \<Rightarrow> string \<Rightarrow> xnode \<Rightarrow> bool \<Rightarrow> bool" where
  "switch_of a yes no n b =
     (if list_ex (\<lambda>(k, _). xcmp k a) (x_attrs n) then
        (case get_prop n a of
           None \<Rightarrow> b
         | Some t \<Rightarrow> if xcmp t yes then True else if xcmp t no then False else b)
      else b)"

definition ParseZigbeeCfg :: "xnode list cptr \<Rightarrow> bool \<Rightarrow> int \<times> bool" where
  "ParseZigbeeCfg nodes b = (case nodes of NULL \<Rightarrow> (- 1, b) | Ptr ns \<Rightarrow> (0, fold (switch_of ''module'' ''pass'' ''bad'') ns b))"

definition ParseKnxCfg :: "xnode list cptr \<Rightarrow> bool \<Rightarrow> int \<times> bool" where
  "ParseKnxCfg nodes b = (case nodes of NULL \<Rightarrow> (- 1, b) | Ptr ns \<Rightarrow> (0, fold (switch_of ''autoAck'' ''enabled'' ''disabled'') ns b))"

subsection \<open>Inputs are ready to be scanned\<close>

definition di_fresh :: "di_conf \<Rightarrow> bool" where
  "di_fresh c \<longleftrightarrow> di_retryNum (fst (dc_body c)) = 3 \<and> di_retryCnt (fst (dc_body c)) = 0 \<and> di_status (fst (dc_body c)) = - 1"

lemma dio_line_keeps: "(t, f) \<in> set dio_line \<Longrightarrow> f n c = Done c' \<Longrightarrow> dc_body c' = dc_body c"
  unfolding dio_line_def
  by (auto simp: uuid_tag_def authkey_tag_def dproduct_tag_def dprimary_tag_def dforeign_tag_def dftype_tag_def text_tag_Done content_Done
      split: option.splits)

lemma di_tags_keep:
  "di_fresh c \<Longrightarrow> trigger_tag n c = Done c' \<Longrightarrow> di_fresh c'" "di_fresh c \<Longrightarrow> di_channel_tag n c = Done c' \<Longrightarrow> di_fresh c'"
  "di_fresh c \<Longrightarrow> di_point_tag n c = Done c' \<Longrightarrow> di_fresh c'"
  unfolding trigger_tag_def di_channel_tag_def di_point_tag_def text_tag_Done content_Done Let_def
  by (auto simp: di_fresh_def upd_di_def split: if_splits)

lemma finish_dio_body: "finish_dio mac c = Done d \<Longrightarrow> dc_body d = dc_body c"
  by (cases "dc_pPrimaryKey c"; cases "dc_pForeignKey c") (auto simp: finish_dio_def Let_def split: if_splits)

lemma finish_di_fresh: "di_fresh c \<Longrightarrow> finish_di mac c = Done d \<Longrightarrow> di_fresh d"
  by (auto simp: finish_di_def andthen_Done di_fresh_def upd_di_def dest: finish_dio_body)

interpretation di_cells: device_reader "\<lambda>_. di_tags" "\<lambda>i l. if al i then Some (new_di l) else None" "\<lambda>c. (dc_pPrimaryKey c, dc_pForeignKey c)"
  "finish_di mac" di_fresh di_fresh for al mac
proof (unfold_locales, goal_cases)
  case (1 t f i s n s')
  then consider "(t, f) \<in> set dio_line" | "f = trigger_tag" | "f = di_channel_tag" | "f = di_point_tag" by (auto simp: di_tags_def)
  then show ?case
  proof cases
    case 1
    with dio_line_keeps [OF this \<open>f n s = Done s'\<close>] \<open>di_fresh s\<close> show ?thesis by (simp add: di_fresh_def)
  qed (use 1 di_tags_keep in blast)+
next
  case (2 i l c)
  then show ?case by (auto simp: new_di_def new_dconf_def di_fresh_def split: if_splits)
qed (rule finish_di_fresh)

lemma di_fresh_runs: "di_fresh c \<Longrightarrow> \<exists>d' lg'. di_run ev bs (fst (dc_body c)) lg = Some (d', lg') \<and> 0 \<le> di_retryCnt d' \<and> di_retryCnt d' \<le> 6"
  using di_run_wf [of "fst (dc_body c)" ev bs lg] by (fastforce simp: di_fresh_def di_wf_def same_config_def)

subsection \<open>Members of groups\<close>

definition group_xml :: "nat \<Rightarrow> string list \<Rightarrow> xnode" where
  "group_xml k ts = Elem ''Cell'' [(''type'', ''485''), (''member_sum'', dec k)] (map (text_el ''ForeignKey'') ts)"

lemma group_members_read:
  "gr_deviceType (gc_group c) = DEVICE_TYPE_MODBUS \<Longrightarrow> gr_ppForeignKey (gc_group c) = ms @ replicate r NULL \<Longrightarrow> gc_memberIdx c = length ms \<Longrightarrow>
   siblings (group_tags mac) (map (text_el ''ForeignKey'') ts) c =
     (if length ts \<le> r
      then Done \<lparr>gc_group = (gc_group c)\<lparr>gr_ppForeignKey := ms @ map (\<lambda>t. Ptr (make_key mac DEVICE_TYPE_MODBUS t)) ts @ replicate (r - length ts) NULL\<rparr>,
             gc_memberIdx = length ms + length ts\<rparr>
      else Crash)"
proof (induction ts arbitrary: c ms r)
  case Nil
  then show ?case by simp
next
  case (Cons t ts)
  have s: "on_tag (group_tags mac) (text_el ''ForeignKey'' t) c = group_member_tag mac (text_el ''ForeignKey'' t) c"
    by (simp add: group_tags_def)
  show ?case
  proof (cases r)
    case 0
    with Cons.prems show ?thesis by (simp add: s group_member_tag_def Let_def)
  next
    case (Suc r')
    let ?c = "\<lparr>gc_group = (gc_group c)\<lparr>gr_ppForeignKey := (ms @ [Ptr (make_key mac DEVICE_TYPE_MODBUS t)]) @ replicate r' NULL\<rparr>,
      gc_memberIdx = Suc (length ms)\<rparr>"
    have "group_member_tag mac (text_el ''ForeignKey'' t) c = Done ?c"
      using Cons.prems Suc by (simp add: group_member_tag_def Let_def group_key_def)
    moreover note Cons.IH [of ?c "ms @ [Ptr (make_key mac DEVICE_TYPE_MODBUS t)]" r']
    ultimately show ?thesis using Cons.prems Suc by (simp add: s)
  qed
qed

lemma new_group_xml:
  "0 < k \<Longrightarrow> k < 2 ^ 31 \<Longrightarrow> new_group (group_xml k ts) =
     Done \<lparr>gc_group = \<lparr>gr_groupId = 0, gr_deviceType = DEVICE_TYPE_MODBUS, gr_pPrimaryKey = NULL, gr_ppForeignKey = replicate k NULL\<rparr>, gc_memberIdx = 0\<rparr>"
  by (simp add: new_group_def group_xml_def get_prop_def num_of_dec)

lemma gateway_fault_overwrites_reset:
  "ParseGatewayCfg (Ptr [Elem ''Gateway'' [] [text_el ''reset'' r, text_el ''fault'' f]]) =
     Done (Ptr \<lparr>gw_pProductId = NULL, gw_pState = NULL, gw_pReset = Ptr (word_of_int (fst (num_of f))), gw_pAlarm = NULL, gw_pScene = NULL,
       gw_pFault = NULL, gw_pPos = NULL\<rparr>)"
  by (simp add: ParseGatewayCfg_def gateway_tags_def gw_point_tag_def case_prod_unfold)

subsection \<open>Properties\<close>

text \<open>
  Whatever a file says about digital inputs, every input that is read can be scanned: for
  all texts that are read from it the scan is defined and its counter stays between 0 and 6.
\<close>

lemma configured_inputs_scan:
  assumes "ParseDiCfg mac al nodes (Ptr lst) = Done (ret, q)"
  shows "\<exists>new. q = Ptr (lst @ new) \<and> (\<forall>c \<in> set new. \<forall>ev bs lg. \<exists>d' lg'.
    di_run ev bs (fst (dc_body c)) lg = Some (d', lg') \<and> 0 \<le> di_retryCnt d' \<and> di_retryCnt d' \<le> 6)"
proof -
  obtain new where "q = Ptr (lst @ new)" "list_all di_fresh new"
    using di_cells.parse_devices_adds assms unfolding ParseDiCfg_def by blast
  moreover from this(2) have "\<forall>c \<in> set new. di_fresh c" by (simp add: list_all_iff)
  ultimately show ?thesis using di_fresh_runs by metis
qed

definition sample_di :: xnode where
  "sample_di = Elem ''Cell'' [] [text_el ''PrimaryKey'' ''1'', text_el ''Trigger'' ''high'', text_el ''Channel'' ''2'']"

lemma sample_di_read: "\<exists>c. ParseDiCfg sample_mac (\<lambda>_. True) (Ptr [sample_di]) (Ptr []) = Done (0, Ptr [c])"
  by (simp add: ParseDiCfg_def parse_devices_def sample_di_def di_tags_def dio_line_def dprimary_tag_def trigger_tag_def di_channel_tag_def
      starts_def Let_def finish_di_def finish_dio_def new_di_def new_dconf_def upd_di_def)

lemma configured_inputs_scan_example:
  "\<exists>c d' lg'. ParseDiCfg sample_mac (\<lambda>_. True) (Ptr [sample_di]) (Ptr []) = Done (0, Ptr [c])
    \<and> di_run ex_env [''1'', ''x''] (fst (dc_body c)) [] = Some (d', lg') \<and> di_retryCnt d' \<le> 6"
proof -
  obtain c where c: "ParseDiCfg sample_mac (\<lambda>_. True) (Ptr [sample_di]) (Ptr []) = Done (0, Ptr [c])" using sample_di_read by blast
  from configured_inputs_scan [OF c] have "\<exists>d' lg'. di_run ex_env [''1'', ''x''] (fst (dc_body c)) [] = Some (d', lg') \<and> di_retryCnt d' \<le> 6"
    by fastforce
  with c show ?thesis by blast
qed



end
