(* ===== verification/Device_Groups.thy ===== *)
theory Device_Groups
  imports Config_Misc Linked_Heap
begin

text \<open>
  The groups of Modbus devices, \<open>ModbusDevGroup\<close> of \<open>source/main.c\<close>, which chains the members of a
  group behind its owner through the field \<open>pNext\<close> of the device records.

  \<^item> Device records are cells of an explicit heap: the chain of one group and the device list share
    them, and appending a member of one group also appends what was chained behind it before. The
    device list is the list of their addresses.
  \<^item> Both loops may run for ever. A result is \<^term>\<open>None\<close> when the function does not return and
    \<^term>\<open>Some None\<close> when it leaves the memory of its objects.
  \<^item> \<open>ModbusDevIdMatch\<close> compares the number of a device with the first four bytes of the key text.
    The key of a group is zero-filled memory of more than four bytes, so that a short text is padded.
  \<^item> The pointer to the members of a group is advanced by the loop; nothing reads it afterwards.
\<close>

subsection \<open>Searching and chaining\<close>

type_synonym store = "MbusBase heap"

definition key_u32 :: "string \<Rightarrow> u32" where
  "key_u32 s =
     (let bs = map of_char s @ replicate 4 (0 :: u32) in
      bs ! 0 OR push_bit 8 (bs ! 1) OR push_bit 16 (bs ! 2) OR push_bit 24 (bs ! 3))"

fun find_base :: "store \<Rightarrow> u32 \<Rightarrow> nat list \<Rightarrow> nat option exec" where
  "find_base h n [] = Some None"
| "find_base h n (a # as) = do {
     c \<leftarrow> h a;
     if el_devId (mb_element (c_data c)) = n then Some (Some a) else find_base h n as }"

definition search_base :: "store \<Rightarrow> nat list \<Rightarrow> string cptr \<Rightarrow> nat option exec" where
  "search_base h devs key = (case key of NULL \<Rightarrow> Some None | Ptr k \<Rightarrow> find_base h (key_u32 k) devs)"

partial_function (option) chain_end :: "store \<Rightarrow> nat \<Rightarrow> nat exec option" where
  "chain_end h a =
     (case h a of
        None \<Rightarrow> Some None
      | Some c \<Rightarrow> (case c_next c of NULL \<Rightarrow> Some (Some a) | Ptr b \<Rightarrow> chain_end h b))"

partial_function (option) add_members :: "store \<Rightarrow> nat list \<Rightarrow> string cptr list \<Rightarrow> nat \<Rightarrow> store exec option" where
  "add_members h devs keys owner =
     (case keys of
        [] \<Rightarrow> Some None
      | key # ks \<Rightarrow>
          if key = NULL then Some (Some h)
          else
            (case search_base h devs key of
               None \<Rightarrow> Some None
             | Some None \<Rightarrow> add_members h devs keys owner
             | Some (Some m) \<Rightarrow>
                 Option.bind (chain_end h owner) (\<lambda>e.
                   case e of
                     None \<Rightarrow> Some None
                   | Some e \<Rightarrow>
                       (case set_next h (Ptr e) (Ptr m) of
                          None \<Rightarrow> Some None
                        | Some h \<Rightarrow> add_members h devs ks e))))"

fun ModbusDevGroup :: "store \<Rightarrow> nat list \<Rightarrow> Group list \<Rightarrow> store exec option" where
  "ModbusDevGroup h devs [] = Some (Some h)"
| "ModbusDevGroup h devs (g # gs) =
     (case search_base h devs (gr_pPrimaryKey g) of
        None \<Rightarrow> Some None
      | Some None \<Rightarrow> Some (Some h)
      | Some (Some a) \<Rightarrow>
          Option.bind (add_members h devs (gr_ppForeignKey g) a) (\<lambda>r.
            case r of None \<Rightarrow> Some None | Some h \<Rightarrow> ModbusDevGroup h devs gs))"

subsection \<open>Searching\<close>

lemma find_base_data:
  "(\<And>a. map_option c_data (h' a) = map_option c_data (h a)) \<Longrightarrow> find_base h' n as = find_base h n as"
proof (induction as)
  case (Cons a as)
  from Cons.prems [of a] Cons.IH Cons.prems show ?case by (cases "h a"; cases "h' a") auto
qed simp

lemma search_base_data:
  assumes "\<And>a. map_option c_data (h' a) = map_option c_data (h a)"
  shows "search_base h' devs key = search_base h devs key"
  unfolding search_base_def find_base_data [OF assms] ..

lemma find_base_none:
  "\<forall>a \<in> set as. \<exists>c. h a = Some c \<and> el_devId (mb_element (c_data c)) \<noteq> n \<Longrightarrow> find_base h n as = Some None"
  by (induction as) auto

lemma set_next_data:
  "set_next h (Ptr e) p = Some h' \<Longrightarrow> map_option c_data (h' a) = map_option c_data (h a)"
  by (auto simp: set_next_def)

lemma search_base_set_next: "set_next h (Ptr e) p = Some h' \<Longrightarrow> search_base h' devs key = search_base h devs key"
  using search_base_data set_next_data by metis

subsection \<open>The end of a chain\<close>

lemma chain_end_seg: "seg h (Ptr a) (xs @ [(e, d)]) NULL \<Longrightarrow> chain_end h a = Some (Some e)"
proof (induction xs arbitrary: a)
  case Nil
  then show ?case by (subst chain_end.simps) auto
next
  case (Cons c xs)
  obtain x y where c: "c = (x, y)" by fastforce
  with Cons.prems obtain n where n: "x = a" "h a = Some (mk_cell y n)" "seg h n (xs @ [(e, d)]) NULL" by auto
  then obtain b where b: "n = Ptr b" by (cases n) auto
  with n Cons.IH have "chain_end h b = Some (Some e)" by blast
  with n b show ?case by (subst chain_end.simps) simp
qed

text \<open>A chain that leads back into itself has no end.\<close>

lemma chain_end_cycle:
  assumes "seg h (Ptr a) xs (Ptr a)" and "xs \<noteq> []"
  shows "chain_end h a = None"
proof -
  have step: "\<exists>c b. h x = Some c \<and> c_next c = Ptr b \<and> b \<in> set (addrs xs)" if "x \<in> set (addrs xs)" for x
  proof -
    from that obtain d where "(x, d) \<in> set xs" by auto
    then obtain pre suf where "xs = pre @ (x, d) # suf" by (meson split_list)
    with assms(1) obtain n where n: "h x = Some (mk_cell d n)" "seg h n suf (Ptr a)" by auto
    show ?thesis
    proof (cases suf)
      case Nil
      have "a \<in> set (addrs xs)" using assms by (cases xs) auto
      with n Nil show ?thesis by auto
    next
      case (Cons s suf')
      with n \<open>xs = pre @ (x, d) # suf\<close> show ?thesis by (cases s) auto
    qed
  qed
  have "chain_end h x = Some y \<Longrightarrow> x \<notin> set (addrs xs)" for x y
  proof (rule chain_end.raw_induct [of "\<lambda>h' x _. h' = h \<longrightarrow> x \<notin> set (addrs xs)", rule_format])
    fix f h' x y
    assume IH: "\<And>h' x y. f h' x = Some y \<Longrightarrow> h' = h \<Longrightarrow> x \<notin> set (addrs xs)"
      and "(case h' x of None \<Rightarrow> Some None | Some c \<Rightarrow> (case c_next c of NULL \<Rightarrow> Some (Some x) | Ptr b \<Rightarrow> f h' b)) = Some y" "h' = h"
    then show "x \<notin> set (addrs xs)" using step [of x] by fastforce
  qed auto
  moreover have "a \<in> set (addrs xs)" using assms by (cases xs) auto
  ultimately show ?thesis by fastforce
qed

subsection \<open>The members of a group\<close>

text \<open>
  \<open>named h devs ks ms\<close>: the keys \<open>ks\<close> name the records at \<open>ms\<close>. \<open>single h ms\<close>: these are different records
  with nothing chained behind them.
\<close>

abbreviation named :: "store \<Rightarrow> nat list \<Rightarrow> string list \<Rightarrow> nat list \<Rightarrow> bool" where
  "named h devs \<equiv> list_all2 (\<lambda>k m. search_base h devs (Ptr k) = Some (Some m))"

definition single :: "store \<Rightarrow> nat list \<Rightarrow> bool" where
  "single h ms \<longleftrightarrow> distinct ms \<and> (\<forall>m \<in> set ms. \<exists>c. h m = Some c \<and> c_next c = NULL)"

definition data_at :: "store \<Rightarrow> nat \<Rightarrow> MbusBase" where
  "data_at h a = c_data (the (h a))"

definition chain_of :: "store \<Rightarrow> nat list \<Rightarrow> (nat \<times> MbusBase) list" where
  "chain_of h as = map (\<lambda>a. (a, data_at h a)) as"

lemma single_Cons:
  "single h (m # ms) \<longleftrightarrow> m \<notin> set ms \<and> h m = Some (mk_cell (data_at h m) NULL) \<and> single h ms"
  by (auto simp: single_def data_at_def)

lemma single_frame: "single h ms \<Longrightarrow> e \<notin> set ms \<Longrightarrow> single (h(e := c)) ms"
  by (simp add: single_def)

lemma chain_of_frame: "e \<notin> set ms \<Longrightarrow> chain_of (h(e := c)) ms = chain_of h ms"
  by (simp add: chain_of_def data_at_def)

lemma named_set_next: "set_next h (Ptr e) p = Some h' \<Longrightarrow> named h' devs ks ms = named h devs ks ms"
  by (simp only: search_base_set_next)

lemma add_members_chain:
  assumes "seg h p (pre @ (a, d) # rest) NULL" and "distinct (addrs (pre @ (a, d) # rest))"
    and "named h devs ks ms" and "single h ms" and "set ms \<inter> set (addrs (pre @ (a, d) # rest)) = {}"
  shows "\<exists>h' e. add_members h devs (map Ptr ks @ tail) a = add_members h' devs tail e
    \<and> (\<forall>key. search_base h' devs key = search_base h devs key) \<and> seg h' p (pre @ (a, d) # rest @ chain_of h ms) NULL
    \<and> (\<forall>x. x \<notin> set (addrs (pre @ (a, d) # rest)) \<union> set ms \<longrightarrow> h' x = h x)"
  using assms
proof (induction ks arbitrary: h pre a d rest ms)
  case Nil
  then show ?case by (intro exI [of _ h] exI [of _ a]) (simp add: chain_of_def)
next
  case (Cons k ks h pre a d rest ns)
  then obtain m ms where ns: "ns = m # ms" and km: "search_base h devs (Ptr k) = Some (Some m)" and kms: "named h devs ks ms"
    by (auto simp: list_all2_Cons1)
  note prems = Cons.prems(1,2,4,5) [unfolded ns]
  let ?cells = "pre @ (a, d) # rest"
  obtain pre' e d' where last: "?cells = pre' @ [(e, d')]" by (metis append_is_Nil_conv list.distinct(1) rev_exhaust surj_pair)
  obtain mid where mid: "(a, d) # rest = mid @ [(e, d')]" using last
    by (metis append_butlast_last_id last_appendR last_snoc list.distinct(1))
  have "seg h (Ptr a) ((a, d) # rest) NULL" using prems(1) by auto
  then have ce: "chain_end h a = Some (Some e)" unfolding mid by (rule chain_end_seg)
  have he: "h e = Some (mk_cell d' NULL)" using prems(1) unfolding last by auto
  let ?h = "h(e \<mapsto> mk_cell d' (Ptr m))"
  have sn: "set_next h (Ptr e) (Ptr m) = Some ?h" by (simp add: set_next_def he)
  have e_in: "e \<in> set (addrs ?cells)" unfolding last by simp
  with prems have e_out: "e \<notin> set (m # ms)" by auto
  have m_out: "m \<notin> set (addrs ?cells)" using prems by auto
  have hm: "h m = Some (mk_cell (data_at h m) NULL)" "m \<notin> set ms" "single h ms" using prems by (simp_all add: single_Cons)
  have "seg ?h p (pre' @ (e, d') # [(m, data_at h m)]) NULL"
    using prems(1,2) hm e_out unfolding last by (auto simp: last)
  moreover have "distinct (addrs (pre' @ (e, d') # [(m, data_at h m)]))"
    using prems(2) m_out unfolding last by auto
  moreover have "named ?h devs ks ms" using kms unfolding named_set_next [OF sn] .
  moreover have "single ?h ms" using hm(3) e_out by (simp add: single_frame)
  moreover have "set ms \<inter> set (addrs (pre' @ (e, d') # [(m, data_at h m)])) = {}"
    using prems(4) hm(2) unfolding last by auto
  moreover note Cons.IH [of ?h pre' e d' "[(m, data_at h m)]"]
  ultimately obtain h' e' where h': "add_members ?h devs (map Ptr ks @ tail) e = add_members h' devs tail e'"
      "\<forall>key. search_base h' devs key = search_base ?h devs key"
      "seg h' p (pre' @ (e, d') # [(m, data_at h m)] @ chain_of ?h ms) NULL"
      "\<forall>x. x \<notin> set (addrs (pre' @ (e, d') # [(m, data_at h m)])) \<union> set ms \<longrightarrow> h' x = ?h x"
    by blast
  have "add_members h devs (map Ptr (k # ks) @ tail) a = add_members h' devs tail e'"
    using km ce sn h'(1) by (subst add_members.simps) simp
  moreover have "pre' @ (e, d') # [(m, data_at h m)] @ chain_of ?h ms = pre @ (a, d) # rest @ chain_of h (m # ms)"
    using arg_cong [OF last, of "\<lambda>ys. ys @ chain_of h (m # ms)"] e_out by (simp add: chain_of_frame) (simp add: chain_of_def)
  moreover have "\<forall>key. search_base h' devs key = search_base h devs key"
    using h'(2) search_base_set_next [OF sn] by simp
  ultimately show ?case using h'(3,4) e_in unfolding ns by (intro exI [of _ h'] exI [of _ e']) (simp add: last)
qed

text \<open>A key that names no device: the loop goes back to the same key.\<close>

lemma add_members_stuck:
  assumes "search_base h devs (Ptr k) = Some None"
  shows "add_members h devs (Ptr k # ks) a = None"
proof -
  have "add_members h devs (Ptr k # ks) a \<noteq> Some y" for y
  proof
    assume "add_members h devs (Ptr k # ks) a = Some y"
    then have "(h, devs, Ptr k # ks, a) = (h, devs, Ptr k # ks, a) \<longrightarrow> False"
    proof (rule add_members.raw_induct [of "\<lambda>h' devs' keys a' _. (h', devs', keys, a') = (h, devs, Ptr k # ks, a) \<longrightarrow> False", rotated])
      fix f h' devs' keys a' y
      assume IH: "\<And>h' devs' keys a' y. f h' devs' keys a' = Some y \<Longrightarrow> (h', devs', keys, a') = (h, devs, Ptr k # ks, a) \<longrightarrow> False"
        and "(case keys of [] \<Rightarrow> Some None
          | key # ks \<Rightarrow>
              if key = NULL then Some (Some h')
              else (case search_base h' devs' key of None \<Rightarrow> Some None
                    | Some None \<Rightarrow> f h' devs' keys a'
                    | Some (Some m) \<Rightarrow>
                        Option.bind (chain_end h' a') (\<lambda>e.
                          case e of None \<Rightarrow> Some None
                          | Some e \<Rightarrow> (case set_next h' (Ptr e) (Ptr m) of None \<Rightarrow> Some None | Some h \<Rightarrow> f h devs' ks e)))) = Some y"
      then show "(h', devs', keys, a') = (h, devs, Ptr k # ks, a) \<longrightarrow> False" using assms by (auto dest: IH)
    qed
    then show False by simp
  qed
  then show ?thesis by auto
qed

text \<open>
  A device that is named as a member of its own group closes the chain to a ring; the next
  member is never added.
\<close>

lemma own_member_hangs:
  assumes "search_base h devs (Ptr k) = Some (Some a)" and "search_base h devs (Ptr k') = Some (Some m)"
    and "h a = Some (mk_cell d NULL)"
  shows "add_members h devs (Ptr k # Ptr k' # ks) a = None"
proof -
  let ?h = "h(a \<mapsto> mk_cell d (Ptr a))"
  have sn: "set_next h (Ptr a) (Ptr a) = Some ?h" by (simp add: set_next_def assms(3))
  have ce: "chain_end h a = Some (Some a)" using chain_end_seg [of h a "[]" a d] assms(3) by simp
  have "chain_end ?h a = None" using chain_end_cycle [of ?h a "[(a, d)]"] by simp
  then have "add_members ?h devs (Ptr k' # ks) a = None"
    by (subst add_members.simps) (simp add: search_base_set_next [OF sn] assms(2))
  then show ?thesis using assms(1) ce sn by (subst add_members.simps) simp
qed

lemma key_u32_large:
  assumes "4 \<le> length s" and "CHR 0x00 \<notin> set s"
  shows "2 ^ 24 \<le> key_u32 s"
proof -
  have "text_u32 s = Some (key_u32 s)" using assms(1) by (simp add: text_u32_def key_u32_def Let_def nth_append)
  with text_u32_large [OF assms] show ?thesis by auto
qed

lemma key_u32_cong:
  assumes "take 4 s = take 4 s'" and "4 \<le> length s" and "4 \<le> length s'"
  shows "key_u32 s = key_u32 s'"
proof -
  have "s ! i = s' ! i" if "i < 4" for i using assms(1) that by (metis nth_take)
  moreover have "s \<noteq> []" "s' \<noteq> []" using assms(2,3) by auto
  ultimately show ?thesis using assms(2,3) by (simp add: key_u32_def Let_def nth_append)
qed

subsection \<open>Properties\<close>


text \<open>Three devices with the numbers that the texts of their keys stand for, and one with a small number.\<close>

definition with_id :: "u32 \<Rightarrow> MbusBase" where
  "with_id n = ex_mbase\<lparr>mb_element := (mb_element ex_mbase)\<lparr>el_devId := n\<rparr>\<rparr>"

definition sample_store :: store where
  "sample_store = [5 \<mapsto> mk_cell (with_id 0x31313131) NULL, 6 \<mapsto> mk_cell (with_id 0x32323232) NULL, 7 \<mapsto> mk_cell (with_id 0x33333333) NULL]"

definition sample_group :: "string cptr list \<Rightarrow> Group" where
  "sample_group ks = \<lparr>gr_groupId = 0, gr_deviceType = DEVICE_TYPE_MODBUS, gr_pPrimaryKey = Ptr ''1111'', gr_ppForeignKey = ks\<rparr>"

lemma sample_keys: "key_u32 ''1111'' = 0x31313131" "key_u32 ''2222'' = 0x32323232" "key_u32 ''3333'' = 0x33333333" "key_u32 ''4444'' = 0x34343434"
  by code_simp+

lemma sample_search:
  "search_base sample_store [5, 6, 7] (Ptr ''1111'') = Some (Some 5)" "search_base sample_store [5, 6, 7] (Ptr ''2222'') = Some (Some 6)"
  "search_base sample_store [5, 6, 7] (Ptr ''3333'') = Some (Some 7)" "search_base sample_store [5, 6, 7] (Ptr ''4444'') = Some None"
  by (simp_all add: search_base_def sample_keys sample_store_def with_id_def)

lemma sample_single: "single sample_store [5, 7, 6]"
  by (simp add: single_def sample_store_def)


text \<open>
  Claim C20. With the keys and the device numbers of a configuration no group is ever formed: the
  key of a group starts with the hexadecimal digits of the gateway's address, whose first four
  bytes, taken as a number, are larger than every device number below 16777216, so that the owner
  of the first group is not found and the function returns at once.
\<close>

theorem groups_never_formed:
  assumes "\<forall>a \<in> set devs. \<exists>c. h a = Some c \<and> el_devId (mb_element (c_data c)) < 2 ^ 24"
    and "gr_pPrimaryKey g = Ptr (make_key mac ty t)" and "length mac = 12" and "CHR 0x00 \<notin> set mac"
  shows "ModbusDevGroup h devs (g # gs) = Some (Some h)"
proof -
  have "key_u32 (make_key mac ty t) = key_u32 mac"
    using assms(3) by (intro key_u32_cong) (simp_all add: make_key_def DEVICE_ID_LENGTH_def)
  moreover have "2 ^ 24 \<le> key_u32 mac" using assms(3,4) by (intro key_u32_large) simp_all
  ultimately have "2 ^ 24 \<le> key_u32 (make_key mac ty t)" by simp
  then have "find_base h (key_u32 (make_key mac ty t)) devs = Some None" using assms(1) by (intro find_base_none) auto
  then show ?thesis by (simp add: search_base_def assms(2))
qed

theorem groups_never_formed_witness:
  "ModbusDevGroup [1 \<mapsto> mk_cell (with_id 205) NULL] [1]
     [(sample_group [NULL])\<lparr>gr_pPrimaryKey := Ptr (make_key ''0011223344AA'' DEVICE_TYPE_MODBUS ''205'')\<rparr>] =
   Some (Some [1 \<mapsto> mk_cell (with_id 205) NULL])"
  by (rule groups_never_formed [where mac = "''0011223344AA''"]) (simp_all add: with_id_def)

end
