(* ===== verification/License.thy ===== *)
theory License
  imports Config_Misc
begin

text \<open>
  The identity of the gateway: its network address (\<open>GetMac\<close> of \<open>source/hal_wired.c\<close>) and its licence
  (\<open>source/production_utils.c\<close>).

  \<^item> The address is an argument, as are the results of the system calls. Whether \<open>char\<close> is signed
    depends on the platform and is an argument too: \<open>printf\<close> widens a negative byte.
  \<^item> The two licence files are the state; shell and licence program are parameters. \<open>posix_shell\<close> is
    what the program relies on of the shell, for the commands that it runs.
  \<^item> \<open>fgets\<close> returns a line with its newline, or 254 characters of it.
\<close>

subsection \<open>Addresses\<close>

definition low_dig :: "nat \<Rightarrow> char" where
  "low_dig d = char_of (if d < 10 then 48 + d else 87 + d)"

definition x02 :: "u8 \<Rightarrow> string" where
  "x02 b = [low_dig (unat b div 16), low_dig (unat b mod 16)]"

definition print_byte :: "bool \<Rightarrow> u8 \<Rightarrow> string" where
  "print_byte sg b = (if sg \<and> 128 \<le> b then ''ffffff'' else []) @ x02 b"

definition GetMac :: "bool \<Rightarrow> bool \<Rightarrow> bool \<Rightarrow> bytes \<Rightarrow> string cptr \<Rightarrow> int \<times> string cptr" where
  "GetMac sg sock ioctl hw pMac =
     (case pMac of
        NULL \<Rightarrow> (- 1, NULL)
      | Ptr m \<Rightarrow>
          if \<not> sock then (- 1, Ptr m)
          else if \<not> ioctl then (- 1, Ptr m)
          else (0, Ptr (take 12 (concat (map (print_byte sg) (take 6 hw))))))"

text \<open>A random address: the source of random bytes is an argument.\<close>

definition generate_random_unicast_mac :: "bytes \<Rightarrow> bytes cptr \<Rightarrow> int \<times> bytes cptr" where
  "generate_random_unicast_mac rnd mac_addr =
     (case mac_addr of
        NULL \<Rightarrow> (- 1, NULL)
      | Ptr _ \<Rightarrow>
          (let m = take 6 rnd; b = (m ! 0) AND 0xFE; b = b OR 0x02 in (0, Ptr (m[0 := b]))))"

subsection \<open>Licences\<close>

definition GetUuid :: "bool \<Rightarrow> string cptr \<Rightarrow> string cptr" where
  "GetUuid al pJson =
     (case pJson of
        NULL \<Rightarrow> NULL
      | Ptr s \<Rightarrow>
          (case strstr ''uuid:'' s of
             None \<Rightarrow> NULL
           | Some i \<Rightarrow>
               (let rest = drop (i + 5) s in
                case strstr '' '' rest of
                  None \<Rightarrow> NULL
                | Some k \<Rightarrow> if al then Ptr (take k rest) else NULL)))"

text \<open>Always 32 bytes are copied into memory for what follows the word \<open>key:\<close>.\<close>

definition GetKey :: "bool \<Rightarrow> string cptr \<Rightarrow> string cptr exec" where
  "GetKey al pJson =
     (case pJson of
        NULL \<Rightarrow> Some NULL
      | Ptr s \<Rightarrow>
          (case strstr ''key:'' s of
             None \<Rightarrow> Some NULL
           | Some i \<Rightarrow>
               (let rest = drop (i + 4) s in
                if \<not> al then Some NULL
                else if length rest + 1 < 32 then None
                else Some (Ptr (take 32 rest)))))"

record lic_files =
  lf_tmp :: "string option"
  lf_stored :: "string option"

definition fgets_line :: "string \<Rightarrow> string" where
  "fgets_line s =
     take 254 (takeWhile (\<lambda>c. c \<noteq> CHR 0x0A) s @ (if CHR 0x0A \<in> set s then [CHR 0x0A] else []))"

fun colons :: "string list \<Rightarrow> string" where
  "colons [] = []"
| "colons [s] = s"
| "colons (s # ss) = s @ '':'' @ colons ss"

definition license_request :: "string \<Rightarrow> string" where
  "license_request mac =
     take 126 (''/opt/smarthome/bin/license '' @ colons (map x02 (take 6 (map of_char mac @ replicate 6 0))))"

definition echo_command :: "string \<Rightarrow> string" where
  "echo_command l = take 126 (''echo '' @ l @ '' > /tmp/license'')"

definition cp_command :: string where "cp_command = ''cp /tmp/license /opt/smarthome/tmp/''"
definition rm_tmp :: string where "rm_tmp = ''rm /tmp/license''"
definition rm_stored :: string where "rm_stored = ''rm /opt/smarthome/tmp/license''"

text \<open>Asking for a licence and storing it; \<^term>\<open>None\<close> when the program exits.\<close>

definition fetch_license ::
  "(string \<Rightarrow> lic_files \<Rightarrow> lic_files) \<Rightarrow> (string \<Rightarrow> string option) \<Rightarrow> string \<Rightarrow> lic_files \<Rightarrow> lic_files option" where
  "fetch_license sh tool mac f =
     (case tool (license_request mac) of
        None \<Rightarrow> None
      | Some out \<Rightarrow>
          (let l = fgets_line out in
           if l = [] then None
           else Some (sh ''sync'' (sh rm_tmp (sh cp_command (sh (echo_command l) f))))))"

definition GetLicenses ::
  "(string \<Rightarrow> lic_files \<Rightarrow> lic_files) \<Rightarrow> (string \<Rightarrow> string option) \<Rightarrow> bool \<Rightarrow> string \<Rightarrow> lic_files \<Rightarrow> gw_element
   \<Rightarrow> lic_files \<times> gw_element run" where
  "GetLicenses sh tool al mac f e =
     (case (if lf_stored f = None then fetch_license sh tool mac f else Some f) of
        None \<Rightarrow> (f, Exits)
      | Some f \<Rightarrow>
          (let l = (case lf_stored f of None \<Rightarrow> [] | Some t \<Rightarrow> fgets_line t);
               uuid = GetUuid al (Ptr l)
           in case GetKey al (Ptr l) of
                None \<Rightarrow> (f, Crash)
              | Some key \<Rightarrow>
                  if uuid = NULL \<or> key = NULL then (sh rm_stored f, Exits)
                  else (f, Done (e\<lparr>ge_szUUID := uuid, ge_szAuthKey := key\<rparr>))))"

subsection \<open>What the shell does\<close>

definition plain :: "string \<Rightarrow> bool" where
  "plain w \<longleftrightarrow> (\<forall>c \<in> set w. let n = of_char c :: nat in 48 \<le> n \<and> n \<le> 57 \<or> 65 \<le> n \<and> n \<le> 90 \<or> 97 \<le> n \<and> n \<le> 122)"

definition license_text :: "string \<Rightarrow> string \<Rightarrow> string" where
  "license_text u k = ''uuid:'' @ u @ '' key:'' @ k"

text \<open>
  \<open>echo\<close> writes its words and a newline into the file. A newline in front of the redirection ends
  the command: the words go to the output of the program, and the file is emptied.
\<close>

definition posix_shell :: "(string \<Rightarrow> lic_files \<Rightarrow> lic_files) \<Rightarrow> bool" where
  "posix_shell sh \<longleftrightarrow>
     (\<forall>u k f. plain u \<and> plain k \<longrightarrow>
        sh (''echo '' @ license_text u k @ '' > /tmp/license'') f = f\<lparr>lf_tmp := Some (license_text u k @ [CHR 0x0A])\<rparr> \<and>
        sh (''echo '' @ (license_text u k @ [CHR 0x0A]) @ '' > /tmp/license'') f = f\<lparr>lf_tmp := Some []\<rparr>) \<and>
     (\<forall>f t. lf_tmp f = Some t \<longrightarrow> sh cp_command f = f\<lparr>lf_stored := Some t\<rparr>) \<and>
     (\<forall>f. sh rm_tmp f = f\<lparr>lf_tmp := None\<rparr>) \<and> (\<forall>f. sh rm_stored f = f\<lparr>lf_stored := None\<rparr>) \<and> (\<forall>f. sh ''sync'' f = f)"

subsection \<open>Reading a licence\<close>

lemma plain_chars: "plain w \<Longrightarrow> CHR '':'' \<notin> set w \<and> CHR '' '' \<notin> set w \<and> CHR 0x0A \<notin> set w"
  by (auto simp: plain_def Let_def)

text \<open>A word whose last character occurs nowhere before is found where it stands.\<close>

lemma strstr_at: "c \<notin> set (pre @ w) \<Longrightarrow> strstr (w @ [c]) (pre @ w @ c # s) = Some (length pre)"
proof (induction pre)
  case Nil
  then show ?case by (cases w) simp_all
next
  case (Cons x pre)
  let ?t = "(x # pre) @ w @ c # s"
  have "?t ! length w = ((x # pre) @ w) ! length w" by (simp only: append_assoc [symmetric] nth_append) simp
  moreover have "((x # pre) @ w) ! length w \<in> set ((x # pre) @ w)" by (rule nth_mem) simp
  ultimately have "?t ! length w \<in> set ((x # pre) @ w)" by metis
  with Cons.prems have "?t ! length w \<noteq> c" by metis
  moreover have "take (length (w @ [c])) ?t = w @ [c] \<Longrightarrow> ?t ! length w = c"
    by (metis length_append_singleton lessI nth_append_length nth_take)
  ultimately have "take (length (w @ [c])) ?t \<noteq> w @ [c]" by blast
  with Cons show ?case by simp
qed

lemma GetUuid_text:
  assumes "plain u"
  shows "GetUuid True (Ptr (license_text u k @ s)) = Ptr u"
proof -
  have "strstr '' '' (u @ '' key:'' @ k @ s) = Some (length u)"
    using strstr_at [of "CHR '' ''" u "[]" "''key:'' @ k @ s"] plain_chars [OF assms] by simp
  then show ?thesis by (simp add: GetUuid_def license_text_def)
qed

lemma GetKey_text:
  assumes "plain u" and "length k = 32"
  shows "GetKey True (Ptr (license_text u k @ s)) = Some (Ptr k)"
proof -
  have "strstr ''key:'' (u @ '' key:'' @ k @ s) = Some (Suc (length u))"
    using strstr_at [of "CHR '':''" "u @ '' ''" "''key''" "k @ s"] plain_chars [OF assms(1)] by simp
  then have "strstr ''key:'' (license_text u k @ s) = Some (length u + 6)" by (simp add: license_text_def)
  moreover have "drop (length u + 6 + 4) (license_text u k @ s) = k @ s" by (simp add: license_text_def eval_nat_numeral)
  ultimately show ?thesis using assms(2) by (simp add: GetKey_def)
qed

lemma fgets_text:
  assumes "plain u" and "plain k" and "length u + length k \<le> 200"
  shows "fgets_line (license_text u k) = license_text u k"
    and "fgets_line (license_text u k @ [CHR 0x0A]) = license_text u k @ [CHR 0x0A]"
proof -
  have n: "CHR 0x0A \<notin> set (license_text u k)" using assms(1,2) plain_chars by (simp add: license_text_def)
  then have "takeWhile (\<lambda>c. c \<noteq> CHR 0x0A) (license_text u k) = license_text u k"
      "takeWhile (\<lambda>c. c \<noteq> CHR 0x0A) (license_text u k @ [CHR 0x0A]) = license_text u k"
    by (auto simp: takeWhile_eq_all_conv takeWhile_tail)
  moreover have "length (license_text u k) \<le> 253" using assms(3) by (simp add: license_text_def)
  ultimately show "fgets_line (license_text u k) = license_text u k"
    and "fgets_line (license_text u k @ [CHR 0x0A]) = license_text u k @ [CHR 0x0A]"
    using n by (simp_all add: fgets_line_def del: takeWhile_eq_all_conv)
qed

lemma echo_text:
  assumes "length u + length k \<le> 90" and "length s \<le> 1"
  shows "echo_command (license_text u k @ s) = ''echo '' @ (license_text u k @ s) @ '' > /tmp/license''"
  using assms by (simp add: echo_command_def license_text_def)

lemma license_text_not_Nil [simp]: "license_text u k \<noteq> []"
  by (simp add: license_text_def)

subsection \<open>Addresses as text\<close>

lemma of_low_dig: "d < 16 \<Longrightarrow> (of_char (low_dig d) :: nat) = (if d < 10 then 48 + d else 87 + d)"
  by (simp add: low_dig_def)

lemma low_dig_inj:
  assumes "low_dig d = low_dig d'" and "d < 16" and "d' < 16"
  shows "d = d'"
proof -
  have "(if d < 10 then 48 + d else 87 + d) = (if d' < 10 then 48 + d' else 87 + d')"
    using of_low_dig [OF assms(2)] of_low_dig [OF assms(3)] unfolding assms(1) by metis
  then show ?thesis by (simp split: if_splits)
qed

lemma low_dig_not_NUL:
  assumes "d < 16"
  shows "low_dig d \<noteq> CHR 0x00"
proof
  assume "low_dig d = CHR 0x00"
  with of_low_dig [OF assms] show False by (simp split: if_splits)
qed

lemma nibbles: "unat (b :: u8) div 16 < 16" "unat b mod 16 < 16"
proof -
  show "unat b div 16 < 16" by (rule less_mult_imp_div_less) simp
qed simp

lemma x02_inj: "x02 a = x02 b \<longleftrightarrow> a = b"
proof
  assume "x02 a = x02 b"
  then have "unat a div 16 = unat b div 16" "unat a mod 16 = unat b mod 16"
    using low_dig_inj nibbles by (simp_all add: x02_def)
  then have "unat a = unat b" by (metis mult_div_mod_eq)
  then show "a = b" by (simp add: word_unat_eq_iff)
qed simp

lemma length_x02 [simp]: "length (x02 b) = 2"
  by (simp add: x02_def)

lemma x02_chars: "c \<in> set (x02 b) \<Longrightarrow> c \<noteq> CHR 0x00"
  using low_dig_not_NUL [OF nibbles(1), of b] low_dig_not_NUL [OF nibbles(2), of b] by (auto simp: x02_def)

lemma print_unsigned [simp]: "print_byte False = x02"
  by (simp add: print_byte_def fun_eq_iff)

lemma GetMac_text:
  assumes "6 \<le> length hw"
  shows "GetMac False True True hw (Ptr m) = (0, Ptr (concat (map x02 (take 6 hw))))"
  using assms by (simp add: GetMac_def length_concat sum_list_triv comp_def)

lemma concat_x02_inj: "concat (map x02 as) = concat (map x02 bs) \<Longrightarrow> as = bs"
proof (induction as arbitrary: bs)
  case Nil
  then show ?case by (cases bs) (simp_all add: x02_def)
next
  case (Cons a as)
  then obtain b bs' where "bs = b # bs'" by (cases bs) (auto simp: x02_def)
  with Cons x02_inj [of a b] show ?case by (auto simp: x02_def)
qed

lemma concat_x02_length [simp]: "length (concat (map x02 as)) = 2 * length as"
  by (induction as) simp_all

lemma take_concat_x02: "take (2 * n) (concat (map x02 as)) = concat (map x02 (take n as))"
proof (induction as arbitrary: n)
  case (Cons a as)
  then show ?case by (cases n) (simp_all add: x02_def)
qed simp

lemma license_request_cong:
  assumes "take 6 m = take 6 m'" and "6 \<le> length m" and "6 \<le> length m'"
  shows "license_request m = license_request m'"
proof -
  have "take 6 (map of_char m @ replicate 6 (0 :: u8)) = map of_char (take 6 m)" if "6 \<le> length m" for m
    using that by (simp add: take_map)
  with assms show ?thesis by (simp add: license_request_def)
qed

text \<open>A platform with signed characters widens a byte with the sign bit; the rest of the address is cut off.\<close>

lemma signed_address: "GetMac True True True [0x80, 1, 2, 3, 4, 5] (Ptr []) = (0, Ptr ''ffffff800102'')"
  by code_simp

lemma random_address:
  assumes "6 \<le> length rnd"
  shows "\<exists>m. generate_random_unicast_mac rnd (Ptr a) = (0, Ptr m) \<and> length m = 6 \<and> \<not> bit (m ! 0) 0 \<and> bit (m ! 0) 1
    \<and> (\<forall>n. 1 < n \<longrightarrow> bit (m ! 0) n = bit (rnd ! 0) n) \<and> List.tl m = List.tl (take 6 rnd)"
proof -
  have low: "bit (0xFE :: u8) n \<longleftrightarrow> n < 8 \<and> n \<noteq> 0" for n
  proof -
    have "(0xFE :: u8) = NOT 1" by simp
    then show ?thesis by (auto simp only: bit_not_iff bit_1_iff possible_bit_word) simp_all
  qed
  have two: "bit (2 :: u8) n \<longleftrightarrow> n = 1" for n using bit_exp_iff [of 1 n, where ?'a = u8] by auto
  obtain b bs where rnd: "rnd = b # bs" using assms by (cases rnd) auto
  have "bit b n \<Longrightarrow> n < 8" for n using bit_imp_le_length [of b n] by simp
  then show ?thesis using assms unfolding rnd
    by (auto simp: generate_random_unicast_mac_def Let_def bit_and_iff bit_or_iff low two simp del: bit_numeral_word_iff)
qed

subsection \<open>Properties\<close>

text \<open>
  Claim C24. A gateway without a licence asks the licence program. When it answers \<open>uuid:U key:K\<close> with a
  key of 32 characters, the licence is stored and taken over, and the same is read at the next
  start. When the program ends its answer with a newline, the newline separates the command
  from its redirection: an empty licence is stored, found to be invalid and removed, and the
  gateway exits.
\<close>

theorem license_first_start:
  assumes "posix_shell sh" and "plain u" and "plain k" and "length k = 32" and "length u \<le> 50" and "lf_stored f = None"
    and "l = license_text u k"
  shows "(tool (license_request mac) = Some l \<longrightarrow>
      GetLicenses sh tool True mac f e = (f\<lparr>lf_tmp := None, lf_stored := Some (l @ [CHR 0x0A])\<rparr>, Done (e\<lparr>ge_szUUID := Ptr u, ge_szAuthKey := Ptr k\<rparr>))
      \<and> GetLicenses sh tool' True mac (f\<lparr>lf_stored := Some (l @ [CHR 0x0A])\<rparr>) e =
          (f\<lparr>lf_stored := Some (l @ [CHR 0x0A])\<rparr>, Done (e\<lparr>ge_szUUID := Ptr u, ge_szAuthKey := Ptr k\<rparr>)))
    \<and> (tool (license_request mac) = Some (l @ [CHR 0x0A]) \<longrightarrow>
      GetLicenses sh tool True mac f e = (f\<lparr>lf_tmp := None, lf_stored := None\<rparr>, Exits))"
proof -
  note fg = fgets_text [OF assms(2,3)]
  note ec = echo_text [of u k "[]"] echo_text [of u k "[CHR 0x0A]"]
  note gets = GetUuid_text [OF assms(2), of k "[CHR 0x0A]"] GetKey_text [OF assms(2,4), of "[CHR 0x0A]"]
  have sh: "sh (''echo '' @ l @ '' > /tmp/license'') g = g\<lparr>lf_tmp := Some (l @ [CHR 0x0A])\<rparr>"
      "sh (''echo '' @ (l @ [CHR 0x0A]) @ '' > /tmp/license'') g = g\<lparr>lf_tmp := Some []\<rparr>"
      "lf_tmp g = Some t \<Longrightarrow> sh cp_command g = g\<lparr>lf_stored := Some t\<rparr>"
      "sh rm_tmp g = g\<lparr>lf_tmp := None\<rparr>" "sh rm_stored g = g\<lparr>lf_stored := None\<rparr>" "sh ''sync'' g = g" for g t
    using assms(1-3,7) by (simp_all add: posix_shell_def)
  have stored: "GetLicenses sh tl True mac (g\<lparr>lf_stored := Some (l @ [CHR 0x0A])\<rparr>) e =
      (g\<lparr>lf_stored := Some (l @ [CHR 0x0A])\<rparr>, Done (e\<lparr>ge_szUUID := Ptr u, ge_szAuthKey := Ptr k\<rparr>))" for tl g
    using fg(2) gets assms(4,5,7) by (simp add: GetLicenses_def)
  have 1: "fetch_license sh tool mac f = Some (f\<lparr>lf_tmp := None, lf_stored := Some (l @ [CHR 0x0A])\<rparr>)"
    if "tool (license_request mac) = Some l"
    using that fg(1) ec(1) sh assms(4,5,7) by (simp add: fetch_license_def)
  have 2: "fetch_license sh tool mac f = Some (f\<lparr>lf_tmp := None, lf_stored := Some []\<rparr>)"
    if "tool (license_request mac) = Some (l @ [CHR 0x0A])"
    using that fg(2) ec(2) sh assms(4,5,7) by (simp add: fetch_license_def)
  show ?thesis
    using 1 2 stored [of tool "f\<lparr>lf_tmp := None\<rparr>"] stored [of tool' f] sh(5) assms(6)
    by (auto simp: GetLicenses_def fgets_line_def GetUuid_def GetKey_def)
qed

text \<open>A shell that does what is asked of it, for every command of the program.\<close>

definition sample_shell :: "string \<Rightarrow> lic_files \<Rightarrow> lic_files" where
  "sample_shell cmd f =
     (if cmd = cp_command then (case lf_tmp f of None \<Rightarrow> f | Some t \<Rightarrow> f\<lparr>lf_stored := Some t\<rparr>)
      else if cmd = rm_tmp then f\<lparr>lf_tmp := None\<rparr>
      else if cmd = rm_stored then f\<lparr>lf_stored := None\<rparr>
      else if take 5 cmd = ''echo '' then
        (let w = take (length cmd - 20) (drop 5 cmd) in
         f\<lparr>lf_tmp := Some (if CHR 0x0A \<in> set w then [] else w @ [CHR 0x0A])\<rparr>)
      else f)"

lemma sample_echo: "sample_shell (''echo '' @ w @ '' > /tmp/license'') f = f\<lparr>lf_tmp := Some (if CHR 0x0A \<in> set w then [] else w @ [CHR 0x0A])\<rparr>"
  by (simp add: sample_shell_def cp_command_def rm_tmp_def rm_stored_def)

lemma sample_shell_ok: "posix_shell sample_shell"
proof -
  have "CHR 0x0A \<notin> set (license_text u k)" if "plain u" "plain k" for u k
    using that plain_chars by (simp add: license_text_def)
  then have "\<forall>u k f. plain u \<and> plain k \<longrightarrow>
        sample_shell (''echo '' @ license_text u k @ '' > /tmp/license'') f = f\<lparr>lf_tmp := Some (license_text u k @ [CHR 0x0A])\<rparr> \<and>
        sample_shell (''echo '' @ (license_text u k @ [CHR 0x0A]) @ '' > /tmp/license'') f = f\<lparr>lf_tmp := Some []\<rparr>"
    by (simp only: sample_echo) simp
  then show ?thesis
    unfolding posix_shell_def by (simp add: sample_shell_def cp_command_def rm_tmp_def rm_stored_def)
qed

definition sample_key :: string where "sample_key = replicate 32 CHR ''k''"

lemma sample_plain: "plain ''u1''" "plain sample_key" "length sample_key = 32"
  by (simp_all add: plain_def sample_key_def Let_def)

theorem license_first_start_witness:
  "GetLicenses sample_shell (\<lambda>_. Some (license_text ''u1'' sample_key)) True ''0011223344aa'' \<lparr>lf_tmp = None, lf_stored = None\<rparr>
       \<lparr>ge_szUUID = NULL, ge_szAuthKey = NULL, ge_pProductId = NULL\<rparr> =
     (\<lparr>lf_tmp = None, lf_stored = Some (license_text ''u1'' sample_key @ [CHR 0x0A])\<rparr>,
      Done \<lparr>ge_szUUID = Ptr ''u1'', ge_szAuthKey = Ptr sample_key, ge_pProductId = NULL\<rparr>)
   \<and> GetLicenses sample_shell (\<lambda>_. Some (license_text ''u1'' sample_key @ [CHR 0x0A])) True ''0011223344aa'' \<lparr>lf_tmp = None, lf_stored = None\<rparr>
       \<lparr>ge_szUUID = NULL, ge_szAuthKey = NULL, ge_pProductId = NULL\<rparr> = (\<lparr>lf_tmp = None, lf_stored = None\<rparr>, Exits)"
  using license_first_start [OF sample_shell_ok sample_plain, of "\<lparr>lf_tmp = None, lf_stored = None\<rparr>"
      "license_text ''u1'' sample_key" "\<lambda>_. Some (license_text ''u1'' sample_key)"]
    license_first_start [OF sample_shell_ok sample_plain, of "\<lparr>lf_tmp = None, lf_stored = None\<rparr>"
      "license_text ''u1'' sample_key" "\<lambda>_. Some (license_text ''u1'' sample_key @ [CHR 0x0A])"]
  by simp



end
