(* ===== verification/Plugin_Load.thy ===== *)
theory Plugin_Load
  imports Config_Misc
begin

text \<open>
  The loading of the plugins, \<open>LoadZ3Plugin\<close>, \<open>LoadModbusPlugin\<close> and \<open>LoadKnxPlugin\<close> of \<open>source/main.c\<close>.

  \<^item> The dynamic linker is a parameter: which files can be executed, which can be opened, and
    the address of a symbol in a file. Opening and closing are entries of a log, so that the
    number of handles on a file can be counted.
  \<^item> A name is a C string. Its first 64 characters are copied for the symbol, which ends at the
    first dot; the path has room for 127 characters.
  \<^item> A Zigbee plugin is loaded without a test for a missing name; reading it is undefined.
\<close>

subsection \<open>Names\<close>

definition DEVICE_LIBRARY_PATH :: string where "DEVICE_LIBRARY_PATH = ''/opt/smarthome/plugin/''"
definition SHARED_LIBRARY_LENGTH :: nat where "SHARED_LIBRARY_LENGTH = 64"

definition plugin_path :: "string \<Rightarrow> string" where
  "plugin_path p =
     DEVICE_LIBRARY_PATH @ take (min (128 - length DEVICE_LIBRARY_PATH - 1) (length p)) p"

definition plugin_symbol :: "string \<Rightarrow> string option" where
  "plugin_symbol p =
     (let s = take (min SHARED_LIBRARY_LENGTH (length p)) p in
      if CHR ''.'' \<in> set s then Some (takeWhile (\<lambda>c. c \<noteq> CHR ''.'') s) else None)"

subsection \<open>Loading\<close>

record 'i linker =
  dl_access :: "string \<Rightarrow> bool"
  dl_opens :: "string \<Rightarrow> bool"
  dl_sym :: "string \<Rightarrow> string \<Rightarrow> 'i cptr"
  dl_init :: "string \<Rightarrow> string \<Rightarrow> bool"

datatype dl_event = DlOpen string | DlClose string | DlInit string string

text \<open>
  One device: what is stored in its interface pointer, if anything. \<open>full\<close> is the test for the
  functions of the interface; a library that fails it is closed, and the pointer stays.
\<close>

definition load_plugin ::
  "'i linker \<Rightarrow> bool \<Rightarrow> ('i \<Rightarrow> bool) \<Rightarrow> string \<Rightarrow> dl_event list \<Rightarrow> 'i cptr option \<times> dl_event list" where
  "load_plugin dl ini full p lg =
     (let path = plugin_path p in
      if \<not> dl_access dl path then (None, lg)
      else if \<not> dl_opens dl path then (None, lg)
      else
        (let lg = lg @ [DlOpen path] in
         case plugin_symbol p of
           None \<Rightarrow> (None, lg)
         | Some s \<Rightarrow>
             (case dl_sym dl path s of
                NULL \<Rightarrow> (Some NULL, lg @ [DlClose path])
              | Ptr i \<Rightarrow>
                  (let lg = (if ini \<and> dl_init dl path s then lg @ [DlInit path s] else lg) in
                   (Some (Ptr i), if full i then lg else lg @ [DlClose path])))))"

fun load_all ::
  "'i linker \<Rightarrow> bool \<Rightarrow> ('i \<Rightarrow> bool) \<Rightarrow> ('d \<Rightarrow> string cptr) \<Rightarrow> ('i cptr \<Rightarrow> 'd \<Rightarrow> 'd) \<Rightarrow> 'd list \<Rightarrow> dl_event list
   \<Rightarrow> 'd list \<times> dl_event list" where
  "load_all dl ini full nm put [] lg = ([], lg)"
| "load_all dl ini full nm put (d # ds) lg =
     (let (d, lg) =
        (case nm d of
           NULL \<Rightarrow> (d, lg)
         | Ptr p \<Rightarrow>
             (case load_plugin dl ini full p lg of
                (None, lg) \<Rightarrow> (d, lg)
              | (Some v, lg) \<Rightarrow> (put v d, lg)));
          (ds, lg) = load_all dl ini full nm put ds lg
      in (d # ds, lg))"

definition mbus_complete :: "MbusIf \<Rightarrow> bool" where
  "mbus_complete i \<longleftrightarrow> (mi_build i \<noteq> NULL \<or> mi_buildExt i \<noteq> NULL) \<and> (mi_parse i \<noteq> NULL \<or> mi_parseExt i \<noteq> NULL)"

definition knx_complete :: "KnxIf \<Rightarrow> bool" where
  "knx_complete i \<longleftrightarrow> if_control i \<noteq> NULL \<and> if_report i \<noteq> NULL"

definition put_mbus_if :: "MbusIf cptr \<Rightarrow> mconf \<Rightarrow> mconf" where
  "put_mbus_if v = upd_base (\<lambda>b. b\<lparr>mb_pIf := v\<rparr>)"

definition put_knx_if :: "KnxIf cptr \<Rightarrow> 'b kconf \<Rightarrow> 'b kconf" where
  "put_knx_if v c = c\<lparr>kc_base := (kc_base c)\<lparr>kb_pIf := v\<rparr>\<rparr>"

definition LoadModbusPlugin :: "MbusIf linker \<Rightarrow> mconf list cptr \<Rightarrow> dl_event list \<Rightarrow> int \<times> mconf list cptr \<times> dl_event list" where
  "LoadModbusPlugin dl pList lg =
     (case pList of
        NULL \<Rightarrow> (- 1, NULL, lg)
      | Ptr ds \<Rightarrow> (case load_all dl True mbus_complete mc_szPlugin put_mbus_if ds lg of (ds, lg) \<Rightarrow> (0, Ptr ds, lg)))"

definition LoadKnxPlugin :: "KnxIf linker \<Rightarrow> 'b kconf list cptr \<Rightarrow> dl_event list \<Rightarrow> int \<times> 'b kconf list cptr \<times> dl_event list" where
  "LoadKnxPlugin dl pList lg =
     (case pList of
        NULL \<Rightarrow> (- 1, NULL, lg)
      | Ptr ds \<Rightarrow> (case load_all dl False knx_complete kc_szPlugin put_knx_if ds lg of (ds, lg) \<Rightarrow> (0, Ptr ds, lg)))"

text \<open>Zigbee devices, with the interface that the list does not hold otherwise.\<close>

record 'i z3_loaded =
  zl_dev :: Z3Dev
  zl_pZ3 :: "'i cptr"

fun load_z3 :: "'i linker \<Rightarrow> 'i z3_loaded list \<Rightarrow> dl_event list \<Rightarrow> ('i z3_loaded list \<times> dl_event list) exec" where
  "load_z3 dl [] lg = Some ([], lg)"
| "load_z3 dl (d # ds) lg =
     (case z3_szPlugin (zl_dev d) of
        NULL \<Rightarrow> None
      | Ptr p \<Rightarrow>
          (case load_plugin dl False (\<lambda>_. True) p lg of
             (r, lg) \<Rightarrow> do {
               (ds, lg) \<leftarrow> load_z3 dl ds lg;
               Some ((case r of None \<Rightarrow> d | Some v \<Rightarrow> d\<lparr>zl_pZ3 := v\<rparr>) # ds, lg) }))"

definition LoadZ3Plugin :: "'i linker \<Rightarrow> 'i z3_loaded list cptr \<Rightarrow> dl_event list \<Rightarrow> (int \<times> 'i z3_loaded list cptr \<times> dl_event list) exec" where
  "LoadZ3Plugin dl pList lg =
     (case pList of
        NULL \<Rightarrow> Some (- 1, NULL, lg)
      | Ptr ds \<Rightarrow> do { (ds, lg) \<leftarrow> load_z3 dl ds lg; Some (0, Ptr ds, lg) })"

subsection \<open>What is loaded\<close>

text \<open>The pointer that a plugin name stands for, and the handles that a log leaves open on a file.\<close>

definition iface_of :: "'i linker \<Rightarrow> string \<Rightarrow> 'i cptr option" where
  "iface_of dl p =
     (if dl_access dl (plugin_path p) \<and> dl_opens dl (plugin_path p)
      then map_option (dl_sym dl (plugin_path p)) (plugin_symbol p) else None)"

definition handles :: "dl_event list \<Rightarrow> string \<Rightarrow> int" where
  "handles lg path = int (count_list lg (DlOpen path)) - int (count_list lg (DlClose path))"

text \<open>The names whose loading leaves one more handle open: a full interface, or a name without a dot.\<close>

definition keeps :: "'i linker \<Rightarrow> ('i \<Rightarrow> bool) \<Rightarrow> string \<Rightarrow> bool" where
  "keeps dl full p \<longleftrightarrow>
     dl_access dl (plugin_path p) \<and> dl_opens dl (plugin_path p) \<and>
     (case plugin_symbol p of
        None \<Rightarrow> True
      | Some s \<Rightarrow> (case dl_sym dl (plugin_path p) s of NULL \<Rightarrow> False | Ptr i \<Rightarrow> full i))"

lemma handles_simps [simp]:
  "handles (lg @ es) path = handles lg path + handles es path" "handles [] path = 0"
  "handles (DlOpen q # es) path = (if q = path then 1 else 0) + handles es path"
  "handles (DlClose q # es) path = handles es path - (if q = path then 1 else 0)"
  "handles (DlInit q s # es) path = handles es path"
  by (simp_all add: handles_def)

lemma load_plugin_iface: "fst (load_plugin dl ini full p lg) = iface_of dl p"
  by (simp add: load_plugin_def iface_of_def Let_def split: option.split cptr.split)

lemma load_plugin_handles:
  "handles (snd (load_plugin dl ini full p lg)) path = handles lg path + (if keeps dl full p \<and> plugin_path p = path then 1 else 0)"
  by (cases "plugin_path p = path"; cases "plugin_symbol p"; cases "dl_sym dl (plugin_path p) (the (plugin_symbol p))")
    (auto simp: load_plugin_def keeps_def Let_def)

text \<open>
  What a loader does with a list of devices follows from two facts about the pointer it sets:
  it does not change the name of the plugin.
\<close>

locale plugin_loader =
  fixes nm :: "'d \<Rightarrow> string cptr" and put :: "'i cptr \<Rightarrow> 'd \<Rightarrow> 'd" and get :: "'d \<Rightarrow> 'i cptr"
    and ini :: bool and full :: "'i \<Rightarrow> bool"
  assumes get_put: "get (put v d) = v" and nm_put: "nm (put v d) = nm d"
begin

lemma load_all_devices:
  "fst (load_all dl ini full nm put ds lg) =
     map (\<lambda>d. case nm d of NULL \<Rightarrow> d | Ptr p \<Rightarrow> (case iface_of dl p of None \<Rightarrow> d | Some v \<Rightarrow> put v d)) ds"
proof (induction ds arbitrary: lg)
  case (Cons d ds)
  show ?case
  proof (cases "nm d")
    case NULL
    then show ?thesis using Cons.IH by (simp add: case_prod_unfold Let_def)
  next
    case (Ptr p)
    obtain r lg' where r: "load_plugin dl ini full p lg = (r, lg')" by fastforce
    then have "iface_of dl p = r" by (metis fst_conv load_plugin_iface)
    with Ptr r Cons.IH show ?thesis by (cases r) (simp_all add: case_prod_unfold Let_def)
  qed
qed simp

lemma load_all_handles:
  "handles (snd (load_all dl ini full nm put ds lg)) path =
     handles lg path + int (length (filter (\<lambda>d. \<exists>p. nm d = Ptr p \<and> keeps dl full p \<and> plugin_path p = path) ds))"
proof (induction ds arbitrary: lg)
  case (Cons d ds)
  show ?case
  proof (cases "nm d")
    case NULL
    then show ?thesis using Cons.IH by (simp add: case_prod_unfold Let_def)
  next
    case (Ptr p)
    obtain r lg' where r: "load_plugin dl ini full p lg = (r, lg')" by fastforce
    then have "handles lg' path = handles lg path + (if keeps dl full p \<and> plugin_path p = path then 1 else 0)"
      by (metis snd_conv load_plugin_handles)
    with Ptr r Cons.IH show ?thesis by (cases r) (simp_all add: case_prod_unfold Let_def)
  qed
qed simp

text \<open>A device that got a full interface has a handle on its library.\<close>

lemma loaded_mapped:
  assumes "d \<in> set (fst (load_all dl ini full nm put ds lg))" and "\<forall>d \<in> set ds. get d = NULL" and "0 \<le> handles lg path"
    and "get d = Ptr i" and "full i" and "nm d = Ptr p" and "path = plugin_path p"
  shows "0 < handles (snd (load_all dl ini full nm put ds lg)) path"
proof -
  from assms(1) obtain d0 where d0: "d0 \<in> set ds"
      "d = (case nm d0 of NULL \<Rightarrow> d0 | Ptr p \<Rightarrow> (case iface_of dl p of None \<Rightarrow> d0 | Some v \<Rightarrow> put v d0))"
    unfolding load_all_devices by auto
  with assms(2) have "get d0 = NULL" by blast
  with d0(2) assms(4) obtain p' where p': "nm d0 = Ptr p'" "iface_of dl p' = Some (Ptr i)"
    by (auto simp: get_put split: cptr.splits option.splits)
  with d0(2) assms(6) have "p' = p" by (simp add: nm_put)
  with p'(2) assms(5) have "keeps dl full p" by (auto simp: iface_of_def keeps_def split: if_splits)
  with d0(1) p'(1) \<open>p' = p\<close> have "filter (\<lambda>d. \<exists>p. nm d = Ptr p \<and> keeps dl full p \<and> plugin_path p = path) ds \<noteq> []"
    using assms(7) by (auto simp: filter_empty_conv)
  then show ?thesis using assms(3) unfolding load_all_handles by (simp add: length_greater_0_conv [symmetric] del: length_greater_0_conv)
qed

end

interpretation mbus_loader: plugin_loader mc_szPlugin put_mbus_if "\<lambda>c. mb_pIf (md_base (mc_dev c))" True mbus_complete
  by unfold_locales (simp_all add: put_mbus_if_def upd_base_def)

interpretation knx_loader: plugin_loader kc_szPlugin put_knx_if "\<lambda>c. kb_pIf (kc_base c)" False knx_complete
  by unfold_locales (simp_all add: put_knx_if_def)

text \<open>The path stays within its buffer, and an ordinary file name gives its own path and symbol.\<close>

lemma plugin_path_fits: "length (plugin_path p) < 128"
  by (simp add: plugin_path_def DEVICE_LIBRARY_PATH_def)

lemma plugin_names:
  assumes "length s + 3 \<le> SHARED_LIBRARY_LENGTH" and "CHR ''.'' \<notin> set s"
  shows "plugin_path (s @ ''.so'') = DEVICE_LIBRARY_PATH @ s @ ''.so''" and "plugin_symbol (s @ ''.so'') = Some s"
proof -
  have "takeWhile (\<lambda>c. c \<noteq> CHR ''.'') (s @ ''.so'') = s"
    using assms(2) by (subst takeWhile_append2) auto
  then show "plugin_symbol (s @ ''.so'') = Some s" using assms(1) by (simp add: plugin_symbol_def)
  show "plugin_path (s @ ''.so'') = DEVICE_LIBRARY_PATH @ s @ ''.so''"
    using assms(1) by (simp add: plugin_path_def DEVICE_LIBRARY_PATH_def SHARED_LIBRARY_LENGTH_def)
qed

subsection \<open>Properties\<close>

text \<open>
  Claim C23. A Modbus device with a plugin \<open>s.so\<close> that can be opened gets the interface with the symbol
  \<open>s\<close>. If the interface is complete its library stays mapped. If it is not, and no device keeps a
  handle on the library, the device is left with a pointer into a library that has been closed.
\<close>

theorem plugins_loaded:
  assumes "LoadModbusPlugin dl (Ptr ds) [] = (ret, Ptr ds', lg)" and "j < length ds"
    and "mc_szPlugin (ds ! j) = Ptr (s @ ''.so'')" and "length s + 3 \<le> SHARED_LIBRARY_LENGTH" and "CHR ''.'' \<notin> set s"
    and "path = DEVICE_LIBRARY_PATH @ s @ ''.so''" and "dl_access dl path" and "dl_opens dl path" and "dl_sym dl path s = Ptr i"
  shows "length ds' = length ds \<and> mb_pIf (md_base (mc_dev (ds' ! j))) = Ptr i
    \<and> (mbus_complete i \<longrightarrow> 0 < handles lg path)
    \<and> (\<not> mbus_complete i \<and> (\<forall>d \<in> set ds. \<forall>p. mc_szPlugin d = Ptr p \<and> plugin_path p = path \<longrightarrow> p = s @ ''.so'') \<longrightarrow> handles lg path = 0)"
proof -
  let ?ld = "load_all dl True mbus_complete mc_szPlugin put_mbus_if ds []"
  have ds': "ds' = fst ?ld" "lg = snd ?ld" using assms(1) by (auto simp: LoadModbusPlugin_def split: prod.splits)
  note names = plugin_names [OF assms(4,5)]
  have iface: "iface_of dl (s @ ''.so'') = Some (Ptr i)"
    using assms(6-9) by (simp add: iface_of_def names)
  have keep: "keeps dl mbus_complete (s @ ''.so'') \<longleftrightarrow> mbus_complete i"
    using assms(6-9) by (simp add: keeps_def names)
  have "ds' ! j = put_mbus_if (Ptr i) (ds ! j)"
    using assms(2,3) iface by (simp add: ds' mbus_loader.load_all_devices)
  then have 1: "length ds' = length ds \<and> mb_pIf (md_base (mc_dev (ds' ! j))) = Ptr i"
    by (simp add: ds' mbus_loader.load_all_devices mbus_loader.get_put)
  have h: "handles lg path = int (length (filter (\<lambda>d. \<exists>p. mc_szPlugin d = Ptr p \<and> keeps dl mbus_complete p \<and> plugin_path p = path) ds))"
    unfolding ds' mbus_loader.load_all_handles by simp
  have "ds ! j \<in> set ds" using assms(2) by simp
  then have 2: "0 < handles lg path" if "mbus_complete i"
    using that assms(3,6) keep names(1) unfolding h by (simp add: filter_empty_conv) blast
  have 3: "handles lg path = 0"
    if "\<not> mbus_complete i" and "\<forall>d \<in> set ds. \<forall>p. mc_szPlugin d = Ptr p \<and> plugin_path p = path \<longrightarrow> p = s @ ''.so''"
    using that keep unfolding h by (auto simp: filter_empty_conv)
  from 1 2 3 show ?thesis by blast
qed

definition no_functions :: MbusIf where
  "no_functions = \<lparr>mi_build = NULL, mi_buildExt = NULL, mi_parse = NULL, mi_parseExt = NULL\<rparr>"

definition sample_linker :: "MbusIf linker" where
  "sample_linker = \<lparr>dl_access = (\<lambda>_. True), dl_opens = (\<lambda>_. True), dl_sym = (\<lambda>_ _. Ptr no_functions), dl_init = (\<lambda>_ _. False)\<rparr>"

text \<open>A plugin without functions: its device keeps the pointer, and no handle is left.\<close>

definition sample_mconf :: mconf where
  "sample_mconf = (new_mconf ''FloorHeating'' MODBUS_DEVICE_FLOORHEATING sample_line)\<lparr>mc_szPlugin := Ptr ''Mbus_Heat.so''\<rparr>"

theorem plugins_loaded_witness:
  "\<exists>ds' lg. LoadModbusPlugin sample_linker (Ptr [sample_mconf]) [] = (0, Ptr ds', lg)
    \<and> mb_pIf (md_base (mc_dev (ds' ! 0))) = Ptr no_functions \<and> handles lg (plugin_path ''Mbus_Heat.so'') = 0"
proof -
  obtain ds' lg where l: "LoadModbusPlugin sample_linker (Ptr [sample_mconf]) [] = (0, Ptr ds', lg)"
    unfolding LoadModbusPlugin_def by (cases "load_all sample_linker True mbus_complete mc_szPlugin put_mbus_if [sample_mconf] []") simp
  have "\<not> mbus_complete no_functions" by (simp add: mbus_complete_def no_functions_def)
  moreover have "plugin_path ''Mbus_Heat.so'' = DEVICE_LIBRARY_PATH @ ''Mbus_Heat'' @ ''.so''"
    by (simp add: plugin_path_def DEVICE_LIBRARY_PATH_def)
  ultimately show ?thesis
    using plugins_loaded [OF l, of 0 "''Mbus_Heat''" "plugin_path ''Mbus_Heat.so''" no_functions] l
    by (intro exI [of _ ds'] exI [of _ lg]) (simp add: sample_linker_def sample_mconf_def SHARED_LIBRARY_LENGTH_def)
qed

end
