(* ===== verification/Job_Pool.thy ===== *)
theory Job_Pool
  imports Linked_Heap "HOL-Library.Multiset" "HOL-Library.Sublist"
begin

text \<open>
  The thread pool \<open>source/thpool.c\<close>: the job queue, the binary semaphore that wakes the
  workers, and the workers themselves as a step relation over all interleavings.

  \<^item> A job (\<open>function\<close> and \<open>arg\<close>) is the data of a cell whose link is \<open>prev\<close>.
  \<^item> The semaphore is its value \<open>v\<close>; a worker that waits for it cannot move while \<open>v\<close> is 0.
  \<^item> A worker is its program counter in \<open>thread_do\<close> with the local variables that are live
    there. Each step is what happens under one lock; reading \<open>function\<close> and \<open>arg\<close> of the job
    just pulled, which no other thread can reach any more, belongs to the step of the pull.
  \<^item> \<open>p_submitted\<close>, \<open>p_started\<close> and \<open>p_executed\<close> are history: the jobs handed in, pulled and
    run, in the order in which this happened.
  \<^item> Pausing by signals (\<open>thpool_pause\<close>, \<open>thpool_resume\<close>, \<open>thread_hold\<close>) is in the theory \<open>Pool_Pause\<close>.
\<close>

subsection \<open>Job queue\<close>

record 'j jobqueue =
  jq_heap :: "'j heap"
  front :: "nat cptr"
  rear :: "nat cptr"
  jq_len :: int
  has_jobs :: int

text \<open>Allocation of the semaphore may fail.\<close>

definition jobqueue_init :: "bool \<Rightarrow> 'j heap \<Rightarrow> 'j jobqueue cptr" where
  "jobqueue_init al h =
     (if \<not> al then NULL
      else Ptr \<lparr>jq_heap = h, front = NULL, rear = NULL, jq_len = 0, has_jobs = 0\<rparr>)"

definition bsem_post :: "'j jobqueue \<Rightarrow> 'j jobqueue" where
  "bsem_post q = q\<lparr>has_jobs := 1\<rparr>"

definition bsem_reset :: "'j jobqueue \<Rightarrow> 'j jobqueue" where
  "bsem_reset q = q\<lparr>has_jobs := 0\<rparr>"

definition bsem_wait :: "'j jobqueue \<Rightarrow> 'j jobqueue outcome" where
  "bsem_wait q = (if has_jobs q \<noteq> 1 then Blocked else Returns (q\<lparr>has_jobs := 0\<rparr>))"

definition jobqueue_push :: "nat cptr \<Rightarrow> 'j jobqueue \<Rightarrow> 'j jobqueue exec" where
  "jobqueue_push newjob q = do {
     h \<leftarrow> set_next (jq_heap q) newjob NULL;
     q \<leftarrow>
       (if jq_len q = 0 then Some (q\<lparr>jq_heap := h, front := newjob, rear := newjob\<rparr>)
        else do {
          h \<leftarrow> set_next h (rear q) newjob;
          Some (q\<lparr>jq_heap := h, rear := newjob\<rparr>) });
     Some (bsem_post (q\<lparr>jq_len := jq_len q + 1\<rparr>)) }"

definition jobqueue_pull :: "'j jobqueue \<Rightarrow> (nat cptr \<times> 'j jobqueue) exec" where
  "jobqueue_pull q =
     (let job_p = front q in
      if jq_len q = 0 then Some (job_p, q)
      else if jq_len q = 1 then Some (job_p, q\<lparr>front := NULL, rear := NULL, jq_len := 0\<rparr>)
      else do {
        c \<leftarrow> deref (jq_heap q) job_p;
        Some (job_p, bsem_post (q\<lparr>front := c_next c, jq_len := jq_len q - 1\<rparr>)) })"

partial_function (option) clear_loop :: "'j jobqueue \<Rightarrow> 'j jobqueue option" where
  "clear_loop q =
     (if jq_len q = 0 then Some q
      else do {
        (job_p, q) \<leftarrow> jobqueue_pull q;
        h \<leftarrow> free_cell (jq_heap q) job_p;
        clear_loop (q\<lparr>jq_heap := h\<rparr>) })"

definition jobqueue_clear :: "'j jobqueue \<Rightarrow> 'j jobqueue exec" where
  "jobqueue_clear q = do {
     q \<leftarrow> clear_loop q;
     Some ((bsem_reset (q\<lparr>front := NULL, rear := NULL\<rparr>))\<lparr>jq_len := 0\<rparr>) }"

subsection \<open>Workers\<close>

datatype 'j wpc =
    Starting
  | Testing
  | Waiting
  | Woken
  | Counting
  | Pulling
  | Running nat 'j
  | Freeing nat
  | Finishing
  | Leaving
  | Dead

record 'j pool =
  p_queue :: "'j jobqueue"
  num_threads_alive :: int
  num_threads_working :: int
  threads_keepalive :: bool
  p_threads :: "'j wpc list"
  p_submitted :: "'j list"
  p_started :: "'j list"
  p_executed :: "'j list"

text \<open>
  Three allocations: the pool, the semaphore and the array of threads. The threads exist,
  but have not run yet. (When one of them cannot be created, the code waits for ever; the
  model starts after they have been created.)
\<close>

definition thpool_init :: "(nat \<Rightarrow> bool) \<Rightarrow> int \<Rightarrow> 'j pool cptr" where
  "thpool_init al num_threads =
     (if \<not> al 0 then NULL
      else case jobqueue_init (al 1) Map.empty of
        NULL \<Rightarrow> NULL
      | Ptr q \<Rightarrow>
          if \<not> al 2 then NULL
          else Ptr \<lparr>p_queue = q, num_threads_alive = 0, num_threads_working = 0,
            threads_keepalive = True, p_threads = replicate (nat num_threads) Starting,
            p_submitted = [], p_started = [], p_executed = []\<rparr>)"

definition thpool_add_work :: "nat cptr \<Rightarrow> 'j \<Rightarrow> 'j pool \<Rightarrow> (int \<times> 'j pool) exec" where
  "thpool_add_work mal job s =
     (case mal of
        NULL \<Rightarrow> Some (- 1, s)
      | Ptr a \<Rightarrow> do {
          let q = p_queue s;
          q \<leftarrow> jobqueue_push mal (q\<lparr>jq_heap := (jq_heap q)(a \<mapsto> mk_cell job NULL)\<rparr>);
          Some (0, s\<lparr>p_queue := q, p_submitted := p_submitted s @ [job]\<rparr>) })"

text \<open>One step of \<open>thread_do\<close> from each program counter.\<close>

definition thread_do :: "'j wpc \<Rightarrow> 'j pool \<Rightarrow> ('j wpc \<times> 'j pool) outcome exec" where
  "thread_do pc s =
     (case pc of
        Starting \<Rightarrow> Some (Returns (Testing, s\<lparr>num_threads_alive := num_threads_alive s + 1\<rparr>))
      | Testing \<Rightarrow> Some (Returns (if threads_keepalive s then Waiting else Leaving, s))
      | Waiting \<Rightarrow>
          Some (case bsem_wait (p_queue s) of
              Blocked \<Rightarrow> Blocked
            | Returns q \<Rightarrow> Returns (Woken, s\<lparr>p_queue := q\<rparr>))
      | Woken \<Rightarrow> Some (Returns (if threads_keepalive s then Counting else Testing, s))
      | Counting \<Rightarrow> Some (Returns (Pulling, s\<lparr>num_threads_working := num_threads_working s + 1\<rparr>))
      | Pulling \<Rightarrow> do {
          (job_p, q) \<leftarrow> jobqueue_pull (p_queue s);
          (case job_p of
             NULL \<Rightarrow> Some (Returns (Finishing, s\<lparr>p_queue := q\<rparr>))
           | Ptr a \<Rightarrow> do {
               c \<leftarrow> deref (jq_heap q) job_p;
               Some (Returns (Running a (c_data c),
                 s\<lparr>p_queue := q, p_started := p_started s @ [c_data c]\<rparr>)) }) }
      | Running a job \<Rightarrow> Some (Returns (Freeing a, s\<lparr>p_executed := p_executed s @ [job]\<rparr>))
      | Freeing a \<Rightarrow> do {
          h \<leftarrow> free_cell (jq_heap (p_queue s)) (Ptr a);
          Some (Returns (Finishing, s\<lparr>p_queue := (p_queue s)\<lparr>jq_heap := h\<rparr>\<rparr>)) }
      | Finishing \<Rightarrow> Some (Returns (Testing, s\<lparr>num_threads_working := num_threads_working s - 1\<rparr>))
      | Leaving \<Rightarrow> Some (Returns (Dead, s\<lparr>num_threads_alive := num_threads_alive s - 1\<rparr>))
      | Dead \<Rightarrow> Some Blocked)"

definition worker_step :: "nat \<Rightarrow> 'j pool \<Rightarrow> 'j pool outcome exec" where
  "worker_step i s =
     (if i < length (p_threads s) then do {
        r \<leftarrow> thread_do (p_threads s ! i) s;
        Some (case r of Blocked \<Rightarrow> Blocked
              | Returns (pc, s') \<Rightarrow> Returns (s'\<lparr>p_threads := (p_threads s)[i := pc]\<rparr>)) }
      else Some Blocked)"

text \<open>
  The beginning of \<open>thpool_destroy\<close>, the body of its two waiting loops and, once no thread
  is alive, its end. The owner of the pool gets it from \<open>thpool_init\<close>, which waits until
  all threads are alive.
\<close>

definition thpool_stop :: "'j pool \<Rightarrow> 'j pool" where
  "thpool_stop s = s\<lparr>threads_keepalive := False\<rparr>"

definition bsem_post_all :: "'j pool \<Rightarrow> 'j pool" where
  "bsem_post_all s = s\<lparr>p_queue := bsem_post (p_queue s)\<rparr>"

definition thpool_cleanup :: "'j pool \<Rightarrow> 'j jobqueue exec" where
  "thpool_cleanup s = jobqueue_clear (p_queue s)"

definition pool_ready :: "'j pool \<Rightarrow> bool" where
  "pool_ready s \<longleftrightarrow> Starting \<notin> set (p_threads s)"

inductive pool_step :: "'j pool \<Rightarrow> 'j pool \<Rightarrow> bool" where
  worker: "worker_step i s = Some (Returns s') \<Longrightarrow> pool_step s s'"
| submit: "pool_ready s \<Longrightarrow> threads_keepalive s \<Longrightarrow> jq_heap (p_queue s) a = None \<Longrightarrow>
    thpool_add_work (Ptr a) job s = Some (0, s') \<Longrightarrow> pool_step s s'"
| stop: "pool_ready s \<Longrightarrow> pool_step s (thpool_stop s)"
| post_all: "\<not> threads_keepalive s \<Longrightarrow> 0 < num_threads_alive s \<Longrightarrow> pool_step s (bsem_post_all s)"

inductive pool_reachable :: "int \<Rightarrow> 'j pool \<Rightarrow> bool" for n where
  init: "thpool_init al n = Ptr s \<Longrightarrow> pool_reachable n s"
| step: "pool_reachable n s \<Longrightarrow> pool_step s s' \<Longrightarrow> pool_reachable n s'"

inductive_cases pool_stepE: "pool_step s s'"

subsection \<open>The job queue as a list\<close>

definition jobq_rep :: "'j jobqueue \<Rightarrow> (nat \<times> 'j) list \<Rightarrow> bool" where
  "jobq_rep q cs \<longleftrightarrow>
     seg (jq_heap q) (front q) cs NULL \<and> distinct (addrs cs)
     \<and> rear q = (if cs = [] then NULL else Ptr (fst (last cs)))
     \<and> jq_len q = int (length cs)"

lemma jobq_rep_simps [simp]:
  "jobq_rep (q\<lparr>has_jobs := v\<rparr>) cs = jobq_rep q cs" "jobq_rep (bsem_post q) cs = jobq_rep q cs"
  by (simp_all add: jobq_rep_def bsem_post_def)

lemma bsem_post_simps [simp]:
  "jq_heap (bsem_post q) = jq_heap q" "jq_len (bsem_post q) = jq_len q" "has_jobs (bsem_post q) = 1"
  "front (bsem_post q) = front q" "rear (bsem_post q) = rear q"
  by (simp_all add: bsem_post_def)

lemma jobqueue_push_ok:
  assumes rep: "jobq_rep q cs" and a: "a \<notin> set (addrs cs)"
  shows "\<exists>q'. jobqueue_push (Ptr a) (q\<lparr>jq_heap := (jq_heap q)(a \<mapsto> mk_cell job NULL)\<rparr>) = Some q'
    \<and> jobq_rep q' (cs @ [(a, job)]) \<and> dom (jq_heap q') = insert a (dom (jq_heap q)) \<and> has_jobs q' = 1"
proof (cases cs rule: rev_cases)
  case Nil
  then show ?thesis
    using rep by (simp add: jobqueue_push_def heap_simps jobq_rep_def)
next
  case (snoc ds c)
  obtain s d where c: "c = (s, d)" by (cases c)
  with rep snoc a have s: "jq_heap q s = Some (mk_cell d NULL)" "rear q = Ptr s" "a \<noteq> s"
    by (auto simp: jobq_rep_def)
  have "seg ((jq_heap q)(a \<mapsto> mk_cell job NULL, s \<mapsto> mk_cell d (Ptr a))) (front q) (ds @ [(s, d), (a, job)]) NULL"
    using seg_insert [of "jq_heap q" "front q" ds s d "[]" a NULL job] rep a snoc c s(1)
    by (simp add: jobq_rep_def)
  with s snoc c rep a show ?thesis
    by (auto simp: jobqueue_push_def heap_simps jobq_rep_def insert_absorb dom_def)
qed

lemma jobqueue_pull_empty: "jobq_rep q [] \<Longrightarrow> jobqueue_pull q = Some (NULL, q)"
  by (simp add: jobqueue_pull_def jobq_rep_def)

lemma jobqueue_pull_Cons:
  assumes "jobq_rep q ((a, d) # cs)"
  shows "\<exists>q' n. jobqueue_pull q = Some (Ptr a, q') \<and> jobq_rep q' cs \<and> jq_heap q' = jq_heap q
    \<and> jq_heap q a = Some (mk_cell d n) \<and> a \<notin> set (addrs cs)
    \<and> has_jobs q' = (if cs = [] then has_jobs q else 1)"
proof -
  from assms obtain n where n: "front q = Ptr a" "jq_heap q a = Some (mk_cell d n)" "seg (jq_heap q) n cs NULL"
    by (auto simp: jobq_rep_def)
  with assms show ?thesis
    by (auto simp: jobqueue_pull_def heap_simps jobq_rep_def Let_def)
qed

lemma jobq_rep_free:
  "jobq_rep q cs \<Longrightarrow> a \<notin> set (addrs cs) \<Longrightarrow> h = jq_heap q \<Longrightarrow>
   jobq_rep (q\<lparr>jq_heap := h(a := None)\<rparr>) cs"
  by (simp add: jobq_rep_def)

text \<open>
  The pull of a worker together with the read and the free of the job, and a push of a
  freshly allocated job: the contract of a first-in first-out queue, up to the number of
  jobs the field \<open>len\<close> can count.
\<close>

definition push_step :: "nat \<Rightarrow> 'j \<Rightarrow> 'j jobqueue \<Rightarrow> 'j jobqueue exec" where
  "push_step a job q = jobqueue_push (Ptr a) (q\<lparr>jq_heap := (jq_heap q)(a \<mapsto> mk_cell job NULL)\<rparr>)"

definition pull_step :: "'j jobqueue \<Rightarrow> ('j cptr \<times> 'j jobqueue) exec" where
  "pull_step q = do {
     (job_p, q) \<leftarrow> jobqueue_pull q;
     (case job_p of NULL \<Rightarrow> Some (NULL, q)
      | Ptr a \<Rightarrow> do {
          c \<leftarrow> deref (jq_heap q) job_p;
          h \<leftarrow> free_cell (jq_heap q) job_p;
          Some (Ptr (c_data c), q\<lparr>jq_heap := h\<rparr>) }) }"

interpretation jq: fifo jobq_rep "\<lambda>_. 2 ^ 31 - 1" push_step pull_step
proof
  fix s :: "'j jobqueue" and cs a d
  assume "jobq_rep s cs" "a \<notin> set (addrs cs)"
  then show "safe (push_step a d s) (\<lambda>s'. jobq_rep s' (cs @ [(a, d)]) \<and> (2 ^ 31 - 1 :: nat) = 2 ^ 31 - 1)"
    using jobqueue_push_ok [of s cs a d] by (auto simp: push_step_def safe_def)
next
  fix s :: "'j jobqueue" and a d cs
  assume "jobq_rep s ((a, d) # cs)"
  from jobqueue_pull_Cons [OF this]
  show "safe (pull_step s) (\<lambda>(e, s'). e = Ptr d \<and> jobq_rep s' cs \<and> (2 ^ 31 - 1 :: nat) = 2 ^ 31 - 1)"
    by (auto simp: pull_step_def safe_def heap_simps jobq_rep_free)
next
  fix s :: "'j jobqueue"
  assume "jobq_rep s []"
  then show "safe (pull_step s) (\<lambda>(e, s'). e = NULL \<and> jobq_rep s' [] \<and> (2 ^ 31 - 1 :: nat) = 2 ^ 31 - 1)"
    by (simp add: pull_step_def safe_def jobqueue_pull_empty)
qed

text \<open>
  The queue of jobs hands every interleaving of pushes and pulls on as a list would, up to
  the largest number its length field can hold.
\<close>

lemma jobqueue_is_fifo:
  assumes "jobq_rep q cs" and "fits (2 ^ 31 - 1) ops (addrs cs)"
  shows "\<exists>q' cs'. impl_run push_step pull_step ops q [] = Some (q', snd (list_run ops (datas cs) []))
    \<and> jobq_rep q' cs' \<and> datas cs' = fst (list_run ops (datas cs) [])"
  using jq.run_refines [OF assms] by blast

lemma clear_loop_all:
  assumes "jobq_rep q cs"
  shows "\<exists>q'. clear_loop q = Some q' \<and> jq_heap q' = (\<lambda>a. if a \<in> set (addrs cs) then None else jq_heap q a)"
  using assms
proof (induction cs arbitrary: q)
  case Nil
  then show ?case
    by (subst clear_loop.simps) (simp add: jobq_rep_def)
next
  case (Cons c cs)
  obtain a d where c: "c = (a, d)" by (cases c)
  with Cons.prems jobqueue_pull_Cons [of q a d cs] obtain q1 n where
    q1: "jobqueue_pull q = Some (Ptr a, q1)" "jobq_rep q1 cs" "jq_heap q1 = jq_heap q"
      "jq_heap q a = Some (mk_cell d n)" "a \<notin> set (addrs cs)"
    by auto
  have "jq_len q \<noteq> 0" using Cons.prems by (simp add: jobq_rep_def)
  with q1 have "clear_loop q = clear_loop (q1\<lparr>jq_heap := (jq_heap q1)(a := None)\<rparr>)"
    by (subst clear_loop.simps) (simp add: heap_simps)
  moreover obtain q2 where "clear_loop (q1\<lparr>jq_heap := (jq_heap q1)(a := None)\<rparr>) = Some q2"
    "jq_heap q2 = (\<lambda>b. if b \<in> set (addrs cs) then None else ((jq_heap q1)(a := None)) b)"
    using Cons.IH [OF jobq_rep_free [OF q1(2,5) refl]] by (auto cong: if_cong)
  ultimately show ?case
    using q1(3) c by (auto simp: fun_eq_iff)
qed

subsection \<open>Invariant of the pool\<close>

definition pc_cells :: "'j wpc \<Rightarrow> nat list" where
  "pc_cells pc = (case pc of Running a _ \<Rightarrow> [a] | Freeing a \<Rightarrow> [a] | _ \<Rightarrow> [])"

definition pc_jobs :: "'j wpc \<Rightarrow> 'j list" where
  "pc_jobs pc = (case pc of Running _ d \<Rightarrow> [d] | _ \<Rightarrow> [])"

definition pc_works :: "'j wpc \<Rightarrow> bool" where
  "pc_works pc = (case pc of Pulling \<Rightarrow> True | Running _ _ \<Rightarrow> True | Freeing _ \<Rightarrow> True
     | Finishing \<Rightarrow> True | _ \<Rightarrow> False)"

definition pc_alive :: "'j wpc \<Rightarrow> bool" where
  "pc_alive pc \<longleftrightarrow> pc \<noteq> Starting \<and> pc \<noteq> Dead"

definition pc_pulls :: "'j wpc \<Rightarrow> bool" where
  "pc_pulls pc = (case pc of Woken \<Rightarrow> True | Counting \<Rightarrow> True | Pulling \<Rightarrow> True | _ \<Rightarrow> False)"

named_theorems pc_simps \<open>what a program counter holds\<close>

lemmas [pc_simps] = pc_cells_def pc_jobs_def pc_works_def pc_alive_def pc_pulls_def

text \<open>
  With the queue \<open>cs\<close>: the jobs handed in are the jobs pulled and then the queue; the cells
  in use are those of the queue and one for each worker that runs or frees a job; the jobs
  pulled are the jobs run and those about to be run; the two counters count; and as long as
  the pool is kept alive a waiting job has a set semaphore or a worker on its way to it.
\<close>

definition pool_inv :: "'j pool \<Rightarrow> (nat \<times> 'j) list \<Rightarrow> bool" where
  "pool_inv s cs \<longleftrightarrow>
     jobq_rep (p_queue s) cs \<and> p_submitted s = p_started s @ datas cs
     \<and> finite (dom (jq_heap (p_queue s)))
     \<and> mset_set (dom (jq_heap (p_queue s))) = mset (addrs cs) + mset (concat (map pc_cells (p_threads s)))
     \<and> mset (p_started s) = mset (p_executed s) + mset (concat (map pc_jobs (p_threads s)))
     \<and> num_threads_working s = int (length (filter pc_works (p_threads s)))
     \<and> num_threads_alive s = int (length (filter pc_alive (p_threads s)))
     \<and> (has_jobs (p_queue s) = 0 \<or> has_jobs (p_queue s) = 1)
     \<and> (threads_keepalive s \<and> cs \<noteq> [] \<longrightarrow> has_jobs (p_queue s) = 1 \<or> list_ex pc_pulls (p_threads s))"

lemma mset_concat_update:
  assumes "i < length xs"
  shows "mset (concat (map f (xs[i := y]))) + mset (f (xs ! i)) = mset (concat (map f xs)) + mset (f y)"
  using assms by (induction xs arbitrary: i) (auto simp: nth_Cons split: nat.split)

lemma length_filter_update:
  assumes "i < length xs"
  shows "int (length (filter P (xs[i := y]))) =
    int (length (filter P xs)) - (if P (xs ! i) then 1 else 0) + (if P y then 1 else 0)"
  using assms
proof (induction xs arbitrary: i)
  case (Cons x xs)
  show ?case
  proof (cases i)
    case (Suc k)
    then have "int (length (filter P (xs[k := y]))) =
        int (length (filter P xs)) - (if P (xs ! k) then 1 else 0) + (if P y then 1 else 0)"
      using Cons by simp
    with Suc show ?thesis by (auto split: if_splits)
  qed simp
qed simp

lemma list_ex_update:
  "i < length xs \<Longrightarrow> list_ex P (xs[i := y]) \<longleftrightarrow> P y \<or> (\<exists>j < length xs. j \<noteq> i \<and> P (xs ! j))"
  by (auto simp: list_ex_length nth_list_update)

lemma mset_set_distinct:
  assumes "finite A" and "mset_set A = mset xs"
  shows "set xs = A \<and> distinct xs"
proof -
  have "set xs = A"
    using assms(1) by (simp flip: set_mset_mset assms(2))
  moreover have "count (mset xs) a = (if a \<in> A then 1 else 0)" for a
    using assms by (simp flip: assms(2) add: count_mset_set')
  ultimately show ?thesis
    by (simp add: distinct_count_atmost_1)
qed

lemma pool_inv_init:
  assumes "thpool_init al n = Ptr s"
  shows "pool_inv s []"
  using assms
  by (auto simp: thpool_init_def jobqueue_init_def pool_inv_def jobq_rep_def pc_simps
      map_replicate_const concat_replicate_trivial split: if_splits)

lemma pool_inv_submit:
  assumes inv: "pool_inv s cs" and fresh: "jq_heap (p_queue s) a = None"
  shows "\<exists>s'. thpool_add_work (Ptr a) job s = Some (0, s') \<and> pool_inv s' (cs @ [(a, job)])
    \<and> p_started s' = p_started s \<and> p_submitted s' = p_submitted s @ [job]"
proof -
  have "set (addrs cs @ concat (map pc_cells (p_threads s))) = dom (jq_heap (p_queue s))"
    using inv mset_set_distinct [of "dom (jq_heap (p_queue s))" "addrs cs @ concat (map pc_cells (p_threads s))"]
    by (simp add: pool_inv_def)
  with fresh have a: "a \<notin> set (addrs cs)" by auto
  obtain q' where q': "jobqueue_push (Ptr a)
      ((p_queue s)\<lparr>jq_heap := (jq_heap (p_queue s))(a \<mapsto> mk_cell job NULL)\<rparr>) = Some q'"
    "jobq_rep q' (cs @ [(a, job)])" "dom (jq_heap q') = insert a (dom (jq_heap (p_queue s)))" "has_jobs q' = 1"
    using jobqueue_push_ok [of "p_queue s" cs a job] inv a by (auto simp: pool_inv_def)
  moreover have "mset_set (insert a (dom (jq_heap (p_queue s)))) = add_mset a (mset_set (dom (jq_heap (p_queue s))))"
    using fresh inv by (intro mset_set.insert) (auto simp: pool_inv_def)
  ultimately show ?thesis
    using inv by (simp add: thpool_add_work_def pool_inv_def)
qed

text \<open>
  What is left to do: a bound on the steps the workers can take on their own. A wait uses
  up the semaphore; only pulling a job from a longer queue sets it.
\<close>

definition pc_rank :: "'j wpc \<Rightarrow> nat" where
  "pc_rank pc = (case pc of Dead \<Rightarrow> 0 | Leaving \<Rightarrow> 1 | Waiting \<Rightarrow> 1 | Testing \<Rightarrow> 2 | Finishing \<Rightarrow> 3
     | Starting \<Rightarrow> 3 | Freeing _ \<Rightarrow> 4 | Running _ _ \<Rightarrow> 5 | Pulling \<Rightarrow> 6 | Counting \<Rightarrow> 7 | Woken \<Rightarrow> 8)"

definition pool_work :: "'j pool \<Rightarrow> nat" where
  "pool_work s = 8 * nat (jq_len (p_queue s)) + 8 * nat (has_jobs (p_queue s))
     + sum_list (map pc_rank (p_threads s))"

text \<open>How the parts of the invariant change with the program counter of worker \<open>i\<close>.\<close>

lemma pc_update:
  assumes "i < length pcs"
  shows "mset (concat (map pc_cells (pcs[i := pc]))) + mset (pc_cells (pcs ! i))
      = mset (concat (map pc_cells pcs)) + mset (pc_cells pc)"
    and "mset (concat (map pc_jobs (pcs[i := pc]))) + mset (pc_jobs (pcs ! i))
      = mset (concat (map pc_jobs pcs)) + mset (pc_jobs pc)"
    and "int (length (filter pc_works (pcs[i := pc]))) = int (length (filter pc_works pcs))
      - (if pc_works (pcs ! i) then 1 else 0) + (if pc_works pc then 1 else 0)"
    and "int (length (filter pc_alive (pcs[i := pc]))) = int (length (filter pc_alive pcs))
      - (if pc_alive (pcs ! i) then 1 else 0) + (if pc_alive pc then 1 else 0)"
    and "list_ex pc_pulls pcs \<longrightarrow> pc_pulls (pcs ! i) \<or> list_ex pc_pulls (pcs[i := pc])"
    and "pc_pulls pc \<longrightarrow> list_ex pc_pulls (pcs[i := pc])"
    and "sum_list (map pc_rank (pcs[i := pc])) + pc_rank (pcs ! i) = sum_list (map pc_rank pcs) + pc_rank pc"
proof -
  show "list_ex pc_pulls pcs \<longrightarrow> pc_pulls (pcs ! i) \<or> list_ex pc_pulls (pcs[i := pc])"
    using assms by (auto simp: list_ex_length nth_list_update)
  show "pc_pulls pc \<longrightarrow> list_ex pc_pulls (pcs[i := pc])"
    using assms by (auto simp: list_ex_length nth_list_update)
  have "pc_rank (pcs ! i) \<le> sum_list (map pc_rank pcs)"
    using assms by (simp add: member_le_sum_list)
  then show "sum_list (map pc_rank (pcs[i := pc])) + pc_rank (pcs ! i) = sum_list (map pc_rank pcs) + pc_rank pc"
    using assms by (simp add: map_update sum_list_update)
qed (use assms in \<open>simp_all add: mset_concat_update length_filter_update\<close>)

definition pool_progress :: "'j pool \<Rightarrow> 'j pool \<Rightarrow> bool" where
  "pool_progress s s' \<longleftrightarrow> (\<exists>cs'. pool_inv s' cs') \<and> prefix (p_started s) (p_started s')
     \<and> p_submitted s' = p_submitted s \<and> threads_keepalive s' = threads_keepalive s
     \<and> length (p_threads s') = length (p_threads s) \<and> pool_work s' < pool_work s"

text \<open>Steps that leave the queue alone.\<close>

lemma pool_progress_pc:
  assumes inv: "pool_inv s cs" and i: "i < length (p_threads s)"
    and "pc_cells pc = pc_cells (p_threads s ! i)" and "pc_jobs pc = pc_jobs (p_threads s ! i)"
    and "pc_rank pc < pc_rank (p_threads s ! i)"
    and "pc_pulls (p_threads s ! i) \<longrightarrow> pc_pulls pc \<or> \<not> threads_keepalive s"
    and "w = num_threads_working s - (if pc_works (p_threads s ! i) then 1 else 0) + (if pc_works pc then 1 else 0)"
    and "l = num_threads_alive s - (if pc_alive (p_threads s ! i) then 1 else 0) + (if pc_alive pc then 1 else 0)"
  shows "pool_progress s (s\<lparr>num_threads_working := w, num_threads_alive := l,
    p_threads := (p_threads s)[i := pc]\<rparr>)"
proof -
  let ?s = "s\<lparr>num_threads_working := w, num_threads_alive := l, p_threads := (p_threads s)[i := pc]\<rparr>"
  have "pool_inv ?s cs"
    using assms pc_update [OF i, of pc] by (auto simp: pool_inv_def)
  moreover have "pool_work ?s < pool_work s"
    using assms(5) pc_update(7) [OF i, of pc] by (simp add: pool_work_def)
  ultimately show ?thesis
    by (auto simp: pool_progress_def)
qed

lemma pool_progress_wait:
  assumes inv: "pool_inv s cs" and i: "i < length (p_threads s)" and pc: "p_threads s ! i = Waiting"
    and v: "has_jobs (p_queue s) = 1"
  shows "pool_progress s (s\<lparr>p_queue := (p_queue s)\<lparr>has_jobs := 0\<rparr>, p_threads := (p_threads s)[i := Woken]\<rparr>)"
    (is "pool_progress s ?s")
proof -
  note upd = pc_update [OF i, of Woken]
  have "pool_inv ?s cs"
    using inv upd pc by (auto simp: pool_inv_def pc_simps)
  moreover have "pool_work ?s < pool_work s"
    using v upd(7) pc by (simp add: pool_work_def pc_rank_def)
  ultimately show ?thesis
    by (auto simp: pool_progress_def)
qed

lemma pool_progress_pull:
  assumes inv: "pool_inv s ((a, d) # cs)" and i: "i < length (p_threads s)" and pc: "p_threads s ! i = Pulling"
    and q: "jobq_rep q cs" "jq_heap q = jq_heap (p_queue s)"
      "has_jobs q = (if cs = [] then has_jobs (p_queue s) else 1)"
  shows "pool_progress s (s\<lparr>p_queue := q, p_started := p_started s @ [d],
    p_threads := (p_threads s)[i := Running a d]\<rparr>)" (is "pool_progress s ?s")
proof -
  note upd = pc_update [OF i, of "Running a d"]
  have "pool_inv ?s cs"
    using inv upd pc q by (auto simp: pool_inv_def pc_simps)
  moreover have "pool_work ?s < pool_work s"
    using inv q upd(7) pc by (auto simp: pool_work_def pc_rank_def pool_inv_def jobq_rep_def)
  ultimately show ?thesis
    by (auto simp: pool_progress_def)
qed

lemma pool_progress_run:
  assumes inv: "pool_inv s cs" and i: "i < length (p_threads s)" and pc: "p_threads s ! i = Running a d"
  shows "pool_progress s (s\<lparr>p_executed := p_executed s @ [d], p_threads := (p_threads s)[i := Freeing a]\<rparr>)"
    (is "pool_progress s ?s")
proof -
  note upd = pc_update [OF i, of "Freeing a"]
  have "pool_inv ?s cs"
    using inv upd pc by (auto simp: pool_inv_def pc_simps)
  moreover have "pool_work ?s < pool_work s"
    using upd(7) pc by (simp add: pool_work_def pc_rank_def)
  ultimately show ?thesis
    by (auto simp: pool_progress_def)
qed

lemma pool_progress_free:
  assumes inv: "pool_inv s cs" and i: "i < length (p_threads s)" and pc: "p_threads s ! i = Freeing a"
  shows "jq_heap (p_queue s) a \<noteq> None
    \<and> pool_progress s (s\<lparr>p_queue := (p_queue s)\<lparr>jq_heap := (jq_heap (p_queue s))(a := None)\<rparr>,
        p_threads := (p_threads s)[i := Finishing]\<rparr>)" (is "_ \<and> pool_progress s ?s")
proof -
  note upd = pc_update [OF i, of Finishing]
  let ?h = "jq_heap (p_queue s)" and ?as = "addrs cs @ concat (map pc_cells (p_threads s))"
  have dist: "set ?as = dom ?h \<and> distinct ?as"
    using inv mset_set_distinct [of "dom ?h" ?as] by (simp add: pool_inv_def)
  have "a \<in> set (concat (map pc_cells (p_threads s)))"
    using i pc nth_mem [OF i] by (auto simp: pc_cells_def intro!: bexI [of _ "p_threads s ! i"])
  with dist have a: "a \<in> dom ?h" "a \<notin> set (addrs cs)" by auto
  have cells: "mset (concat (map pc_cells (p_threads s)))
      = add_mset a (mset (concat (map pc_cells ((p_threads s)[i := Finishing]))))"
    using upd(1) pc by (simp add: pc_cells_def)
  have "mset_set (dom ?h - {a}) = mset_set (dom ?h) - {#a#}"
    using a inv by (simp add: mset_set_Diff pool_inv_def)
  also have "\<dots> = mset (addrs cs) + mset (concat (map pc_cells ((p_threads s)[i := Finishing])))"
    using inv cells by (simp add: pool_inv_def)
  finally have "pool_inv ?s cs"
    using inv upd pc a by (auto simp: pool_inv_def pc_simps jobq_rep_def)
  moreover have "pool_work ?s < pool_work s"
    using upd(7) pc by (simp add: pool_work_def pc_rank_def)
  ultimately show ?thesis
    using a by (auto simp: pool_progress_def)
qed

lemma worker_progress:
  assumes inv: "pool_inv s cs"
  shows "\<exists>r. worker_step i s = Some r \<and> (\<forall>s'. r = Returns s' \<longrightarrow> pool_progress s s')"
proof (cases "i < length (p_threads s)")
  case i: True
  note step = pool_progress_pc [OF inv i, where w = "num_threads_working s" and l = "num_threads_alive s"]
  show ?thesis
  proof (cases "p_threads s ! i")
    case Starting
    then show ?thesis
      using pool_progress_pc [OF inv i, of Testing "num_threads_working s" "num_threads_alive s + 1"] i
      by (simp add: worker_step_def thread_do_def pc_simps pc_rank_def)
  next
    case Testing
    then show ?thesis
      using step [of Waiting] step [of Leaving] i
      by (simp add: worker_step_def thread_do_def pc_simps pc_rank_def)
  next
    case Waiting
    then show ?thesis
      using pool_progress_wait [OF inv i] i by (simp add: worker_step_def thread_do_def bsem_wait_def)
  next
    case Woken
    then show ?thesis
      using step [of Counting] step [of Testing] i
      by (simp add: worker_step_def thread_do_def pc_simps pc_rank_def)
  next
    case Counting
    then show ?thesis
      using pool_progress_pc [OF inv i, of Pulling "num_threads_working s + 1" "num_threads_alive s"] i
      by (simp add: worker_step_def thread_do_def pc_simps pc_rank_def)
  next
    case Pulling
    show ?thesis
    proof (cases cs)
      case Nil
      with inv have "jobqueue_pull (p_queue s) = Some (NULL, p_queue s)" "\<not> (threads_keepalive s \<and> cs \<noteq> [])"
        by (auto simp: pool_inv_def jobqueue_pull_empty)
      moreover have "pool_progress s (s\<lparr>p_threads := (p_threads s)[i := Finishing]\<rparr>)"
        using inv pc_update [OF i, of Finishing] Pulling Nil
        by (auto simp: pool_progress_def pool_inv_def pool_work_def pc_simps pc_rank_def intro!: exI [of _ "[]"])
      ultimately show ?thesis
        using Pulling i by (simp add: worker_step_def thread_do_def)
    next
      case (Cons c ds)
      obtain a d where c: "c = (a, d)" by (cases c)
      with inv Cons jobqueue_pull_Cons [of "p_queue s" a d ds] obtain q n where
        "jobqueue_pull (p_queue s) = Some (Ptr a, q)" "jobq_rep q ds" "jq_heap q = jq_heap (p_queue s)"
        "jq_heap (p_queue s) a = Some (mk_cell d n)"
        "has_jobs q = (if ds = [] then has_jobs (p_queue s) else 1)"
        by (auto simp: pool_inv_def)
      with pool_progress_pull [of s a d ds i q] inv i Pulling Cons c show ?thesis
        by (simp add: worker_step_def thread_do_def heap_simps)
    qed
  next
    case (Running a d)
    then show ?thesis
      using pool_progress_run [OF inv i] i by (simp add: worker_step_def thread_do_def)
  next
    case (Freeing a)
    then show ?thesis
      using pool_progress_free [OF inv i Freeing] i
      by (simp add: worker_step_def thread_do_def free_cell_def)
  next
    case Finishing
    then show ?thesis
      using pool_progress_pc [OF inv i, of Testing "num_threads_working s - 1" "num_threads_alive s"] i
      by (simp add: worker_step_def thread_do_def pc_simps pc_rank_def)
  next
    case Leaving
    then show ?thesis
      using pool_progress_pc [OF inv i, of Dead "num_threads_working s" "num_threads_alive s - 1"] i
      by (simp add: worker_step_def thread_do_def pc_simps pc_rank_def)
  next
    case Dead
    then show ?thesis
      using i by (simp add: worker_step_def thread_do_def)
  qed
next
  case False
  then show ?thesis by (simp add: worker_step_def)
qed

subsection \<open>Reachable states\<close>

lemma add_work_frame:
  "thpool_add_work (Ptr a) job s = Some (r, s') \<Longrightarrow> p_threads s' = p_threads s
    \<and> threads_keepalive s' = threads_keepalive s"
  by (auto simp: thpool_add_work_def Let_def bind_eq_Some_conv)

lemma thread_do_frame:
  assumes "thread_do pc s = Some (Returns (pc', s'))"
  shows "threads_keepalive s' = threads_keepalive s \<and> (pc' = Leaving \<longrightarrow> \<not> threads_keepalive s)
    \<and> (pc' = Dead \<longrightarrow> pc = Leaving)"
proof (cases pc)
  case Pulling
  with assms obtain jp q where "jobqueue_pull (p_queue s) = Some (jp, q)"
    by (auto simp: thread_do_def bind_eq_Some_conv)
  with assms Pulling show ?thesis
    by (cases jp) (auto simp: thread_do_def bind_eq_Some_conv)
qed (use assms in \<open>auto simp: thread_do_def bsem_wait_def bind_eq_Some_conv split: if_splits\<close>)

lemma thread_do_blocked:
  assumes "thread_do pc s = Some Blocked"
  shows "pc = Dead \<or> pc = Waiting \<and> has_jobs (p_queue s) \<noteq> 1"
proof (cases pc)
  case Pulling
  with assms obtain jp q where "jobqueue_pull (p_queue s) = Some (jp, q)"
    by (auto simp: thread_do_def bind_eq_Some_conv)
  with assms Pulling show ?thesis
    by (cases jp) (auto simp: thread_do_def bind_eq_Some_conv)
qed (use assms in \<open>auto simp: thread_do_def bsem_wait_def bind_eq_Some_conv split: if_splits\<close>)

lemma worker_step_blocked:
  assumes "worker_step i s = Some Blocked" and "i < length (p_threads s)"
  shows "p_threads s ! i = Dead \<or> p_threads s ! i = Waiting \<and> has_jobs (p_queue s) \<noteq> 1"
proof -
  from assms obtain r where r: "thread_do (p_threads s ! i) s = Some r"
    by (auto simp: worker_step_def bind_eq_Some_conv)
  with assms have "r = Blocked"
    by (cases r) (auto simp: worker_step_def)
  with r show ?thesis by (simp add: thread_do_blocked)
qed

lemma worker_step_cases:
  assumes "worker_step i s = Some (Returns s')"
  obtains pc s1 where "i < length (p_threads s)" "thread_do (p_threads s ! i) s = Some (Returns (pc, s1))"
    "s' = s1\<lparr>p_threads := (p_threads s)[i := pc]\<rparr>"
proof -
  from assms have i: "i < length (p_threads s)" by (auto simp: worker_step_def split: if_splits)
  with assms obtain r where r: "thread_do (p_threads s ! i) s = Some r"
    by (auto simp: worker_step_def bind_eq_Some_conv)
  with assms i that show thesis
    by (cases r) (auto simp: worker_step_def)
qed

lemma pool_inv_stop: "pool_inv s cs \<Longrightarrow> pool_inv (thpool_stop s) cs"
  by (simp add: pool_inv_def thpool_stop_def)

lemma pool_inv_post_all: "pool_inv s cs \<Longrightarrow> pool_inv (bsem_post_all s) cs"
  by (simp add: pool_inv_def bsem_post_all_def)

lemma pool_step_inv:
  assumes "pool_inv s cs" and "pool_step s s'"
  shows "(\<exists>cs'. pool_inv s' cs') \<and> prefix (p_started s) (p_started s')
    \<and> length (p_threads s') = length (p_threads s)"
  using assms(2)
proof cases
  case (worker i)
  then show ?thesis
    using worker_progress [OF assms(1), of i] by (auto simp: pool_progress_def)
next
  case (submit a job)
  then show ?thesis
    using pool_inv_submit [OF assms(1), of a job] add_work_frame [of a job s 0 s'] by auto
next
  case stop
  then show ?thesis
    using pool_inv_stop [OF assms(1)] by (auto simp: thpool_stop_def)
next
  case post_all
  then show ?thesis
    using pool_inv_post_all [OF assms(1)] by (auto simp: bsem_post_all_def)
qed

lemma pool_reachable_inv: "pool_reachable n s \<Longrightarrow> (\<exists>cs. pool_inv s cs) \<and> length (p_threads s) = nat n"
proof (induction rule: pool_reachable.induct)
  case (init al s)
  then show ?case
    using pool_inv_init [of al n s]
    by (auto simp: thpool_init_def jobqueue_init_def split: if_splits)
next
  case (step s s')
  then show ?case using pool_step_inv by metis
qed

text \<open>No worker leaves while the pool is kept alive.\<close>

lemma pool_nobody_leaves:
  "pool_reachable n s \<Longrightarrow> threads_keepalive s \<Longrightarrow> Leaving \<notin> set (p_threads s) \<and> Dead \<notin> set (p_threads s)"
proof (induction rule: pool_reachable.induct)
  case (init al s)
  then show ?case
    by (auto simp: thpool_init_def jobqueue_init_def split: if_splits)
next
  case (step s s')
  from step.hyps(2) show ?case
  proof cases
    case (worker i)
    then obtain pc s1 where *: "i < length (p_threads s)"
      "thread_do (p_threads s ! i) s = Some (Returns (pc, s1))" "s' = s1\<lparr>p_threads := (p_threads s)[i := pc]\<rparr>"
      by (rule worker_step_cases)
    have k: "threads_keepalive s" using thread_do_frame [OF *(2)] *(3) step.prems by simp
    then have "p_threads s ! i \<noteq> Leaving" using step.IH nth_mem [OF *(1)] by auto
    with thread_do_frame [OF *(2)] step.IH k *(3) show ?thesis
      by (auto dest!: subsetD [OF set_update_subset_insert])
  next
    case (submit a job)
    then show ?thesis
      using step.IH add_work_frame by metis
  next
    case stop
    then show ?thesis
      using step.prems by (simp add: thpool_stop_def)
  next
    case post_all
    then show ?thesis
      using step.prems by (simp add: bsem_post_all_def)
  qed
qed

lemma idle_no_jobs:
  assumes "pool_inv s cs" and "num_threads_working s = 0"
  shows "concat (map pc_jobs (p_threads s)) = [] \<and> concat (map pc_cells (p_threads s)) = []"
proof -
  have "\<not> pc_works pc" if "pc \<in> set (p_threads s)" for pc
    using assms that by (auto simp: pool_inv_def filter_empty_conv)
  moreover have "\<not> pc_works pc \<Longrightarrow> pc_jobs pc = [] \<and> pc_cells pc = []" for pc :: "'a wpc"
    by (cases pc) (auto simp: pc_simps)
  ultimately show ?thesis by simp
qed

subsection \<open>Schedules and a concrete pool\<close>

fun run_workers :: "nat list \<Rightarrow> 'j pool \<Rightarrow> 'j pool option" where
  "run_workers [] s = Some s"
| "run_workers (i # sched) s =
     (case worker_step i s of Some (Returns s') \<Rightarrow> run_workers sched s' | _ \<Rightarrow> None)"

lemma run_workers_reachable:
  "pool_reachable n s \<Longrightarrow> run_workers sched s = Some s' \<Longrightarrow> pool_reachable n s'"
proof (induction sched arbitrary: s)
  case (Cons i sched)
  then obtain s1 where "worker_step i s = Some (Returns s1)" "run_workers sched s1 = Some s'"
    by (auto split: option.splits outcome.splits)
  with Cons show ?case
    using pool_reachable.step [OF Cons.prems(1) pool_step.worker] by blast
qed simp

text \<open>One thread that waits, the same pool with one job, and the pool after that job.\<close>

definition idle_pool :: "string pool" where
  "idle_pool = \<lparr>p_queue = \<lparr>jq_heap = Map.empty, front = NULL, rear = NULL, jq_len = 0, has_jobs = 0\<rparr>,
     num_threads_alive = 1, num_threads_working = 0, threads_keepalive = True,
     p_threads = [Waiting], p_submitted = [], p_started = [], p_executed = []\<rparr>"

definition busy_pool :: "string pool" where
  "busy_pool = idle_pool\<lparr>p_queue := \<lparr>jq_heap = [1 \<mapsto> mk_cell ''job'' NULL], front = Ptr 1, rear = Ptr 1,
     jq_len = 1, has_jobs = 1\<rparr>, p_submitted := [''job'']\<rparr>"

definition done_pool :: "string pool" where
  "done_pool = idle_pool\<lparr>p_submitted := [''job''], p_started := [''job''], p_executed := [''job'']\<rparr>"

lemma idle_pool_reachable: "pool_reachable 1 idle_pool"
proof (rule run_workers_reachable [where sched = "[0, 0]"])
  let ?s = "idle_pool\<lparr>num_threads_alive := 0, p_threads := [Starting]\<rparr>"
  show "pool_reachable 1 ?s"
    by (rule pool_reachable.init [where al = "\<lambda>_. True"])
      (simp add: thpool_init_def jobqueue_init_def idle_pool_def)
  show "run_workers [0, 0] ?s = Some idle_pool"
    by (simp add: worker_step_def thread_do_def idle_pool_def)
qed

lemma busy_pool_step: "pool_step idle_pool busy_pool"
  by (rule pool_step.submit [where a = 1 and job = "''job''"])
    (simp_all add: pool_ready_def idle_pool_def busy_pool_def thpool_add_work_def jobqueue_push_def
      heap_simps bsem_post_def)

lemma busy_pool_reachable: "pool_reachable 1 busy_pool"
  using idle_pool_reachable busy_pool_step by (rule pool_reachable.step)

lemma done_pool_run: "run_workers [0, 0, 0, 0, 0, 0, 0, 0] busy_pool = Some done_pool"
  by (simp add: worker_step_def thread_do_def busy_pool_def done_pool_def idle_pool_def bsem_wait_def
      jobqueue_pull_def heap_simps)

lemma done_pool_reachable: "pool_reachable 1 done_pool"
  using busy_pool_reachable done_pool_run by (rule run_workers_reachable)

subsection \<open>Properties of the pool\<close>

text \<open>
  Claim C3. In every reachable state of the thread pool, for every interleaving of its
  workers, submitters and the destroyer: no worker can dereference or free a cell that is
  not its own; jobs are started in the order in which they were submitted; every job run
  has been started, each exactly once; and when the queue is empty and no thread is
  working, exactly the submitted jobs have been run and all their cells have been freed.
\<close>

theorem pool_runs_each_job_once:
  assumes "pool_reachable n s"
  shows "(\<forall>i. worker_step i s \<noteq> None)
    \<and> prefix (p_started s) (p_submitted s)
    \<and> mset (p_executed s) \<subseteq># mset (p_started s)
    \<and> (jq_len (p_queue s) = 0 \<and> num_threads_working s = 0 \<longrightarrow>
        mset (p_executed s) = mset (p_submitted s) \<and> jq_heap (p_queue s) = Map.empty)"
proof -
  from pool_reachable_inv [OF assms] obtain cs where inv: "pool_inv s cs" by blast
  have "worker_step i s \<noteq> None" for i
    using worker_progress [OF inv, of i] by auto
  moreover have "mset (p_executed s) = mset (p_submitted s) \<and> jq_heap (p_queue s) = Map.empty"
    if "jq_len (p_queue s) = 0" "num_threads_working s = 0"
    using inv that idle_no_jobs [OF inv that(2)] mset_set_empty_iff [of "dom (jq_heap (p_queue s))"]
    by (auto simp: pool_inv_def jobq_rep_def)
  ultimately show ?thesis
    using inv by (auto simp: pool_inv_def)
qed

theorem pool_runs_each_job_once_witness:
  "pool_reachable 1 done_pool \<and> jq_len (p_queue done_pool) = 0
    \<and> mset (p_executed done_pool) = {#''job''#} \<and> jq_heap (p_queue done_pool) = Map.empty"
  using pool_runs_each_job_once [OF done_pool_reachable] done_pool_reachable
  by (simp add: done_pool_def idle_pool_def)

lemma pool_steps_inv:
  assumes "pool_step\<^sup>*\<^sup>* s s'" and "pool_inv s cs"
  shows "(\<exists>cs'. pool_inv s' cs') \<and> prefix (p_started s) (p_started s')"
  using assms
proof (induction rule: rtranclp_induct)
  case (step s1 s2)
  then show ?case using pool_step_inv prefix_order.trans by metis
qed auto

text \<open>
  \<open>thpool_wait\<close> reads the length of the queue and, later, the number of working
  threads, without holding the lock of the queue. It is right all the same: when it finds
  the queue empty and afterwards no thread working, all jobs that had been submitted when
  it read the length have been run, whatever happened in between.
\<close>

lemma thpool_wait_correct:
  assumes "pool_reachable n s" and "jq_len (p_queue s) = 0"
    and "pool_step\<^sup>*\<^sup>* s s'" and "num_threads_working s' = 0"
  shows "mset (p_submitted s) \<subseteq># mset (p_executed s')"
proof -
  from pool_reachable_inv [OF assms(1)] obtain cs where inv: "pool_inv s cs" by blast
  with assms(2) have "p_submitted s = p_started s" by (auto simp: pool_inv_def jobq_rep_def)
  moreover obtain cs' where inv': "pool_inv s' cs'" and "prefix (p_started s) (p_started s')"
    using pool_steps_inv [OF assms(3) inv] by blast
  moreover have "mset (p_started s') = mset (p_executed s')"
    using inv' idle_no_jobs [OF inv' assms(4)] by (auto simp: pool_inv_def)
  ultimately show ?thesis
    by (auto simp: prefix_def) (metis mset_subset_eq_add_left)
qed

lemma thpool_wait_correct_example:
  "mset (p_submitted done_pool) \<subseteq># mset (p_executed done_pool) \<and> p_submitted done_pool = [''job'']"
  using thpool_wait_correct [OF done_pool_reachable _ rtranclp.rtrancl_refl]
  by (simp add: done_pool_def idle_pool_def)

lemma run_workers_bound:
  assumes "pool_inv s cs" and "run_workers sched s = Some s'"
  shows "length sched + pool_work s' \<le> pool_work s"
  using assms
proof (induction sched arbitrary: s cs)
  case (Cons i sched)
  then obtain s1 where s1: "worker_step i s = Some (Returns s1)" "run_workers sched s1 = Some s'"
    by (auto split: option.splits outcome.splits)
  with worker_progress [OF Cons.prems(1), of i] obtain cs1 where "pool_inv s1 cs1" "pool_work s1 < pool_work s"
    by (auto simp: pool_progress_def)
  with Cons.IH [OF _ s1(2)] show ?case by fastforce
qed simp

text \<open>
  Claim C6. The pool drains: while it is kept alive and has at least one thread, its
  workers can take only a bounded number of steps on their own under any schedule, and
  when none of them can move any more, the queue is empty and every submitted job has been
  run. No wake-up is ever lost.
\<close>

theorem pool_drains:
  assumes "pool_reachable n s" and "0 < n" and "threads_keepalive s"
  shows "(\<forall>sched s'. run_workers sched s = Some s' \<longrightarrow> length sched \<le> pool_work s)
    \<and> ((\<forall>i. worker_step i s = Some Blocked) \<longrightarrow>
        jq_len (p_queue s) = 0 \<and> mset (p_executed s) = mset (p_submitted s))"
proof -
  from pool_reachable_inv [OF assms(1)] obtain cs where inv: "pool_inv s cs"
    and len: "length (p_threads s) = nat n" by blast
  have "jq_len (p_queue s) = 0 \<and> mset (p_executed s) = mset (p_submitted s)"
    if blocked: "\<forall>i. worker_step i s = Some Blocked"
  proof -
    have waiting: "p_threads s ! i = Waiting \<and> has_jobs (p_queue s) \<noteq> 1" if "i < length (p_threads s)" for i
      using worker_step_blocked [OF _ that] blocked pool_nobody_leaves [OF assms(1,3)] nth_mem [OF that]
      by metis
    have "\<not> list_ex pc_pulls (p_threads s)" "\<not> list_ex pc_works (p_threads s)"
      using waiting by (auto simp: list_ex_length pc_simps)
    moreover have "has_jobs (p_queue s) \<noteq> 1" using waiting [of 0] len assms(2) by simp
    ultimately have "cs = []" "num_threads_working s = 0"
      using inv assms(3) by (auto simp: pool_inv_def list_ex_iff filter_empty_conv)
    with inv idle_no_jobs [OF inv] show ?thesis
      by (auto simp: pool_inv_def jobq_rep_def)
  qed
  then show ?thesis
    using run_workers_bound [OF inv] by fastforce
qed

theorem pool_drains_witness:
  "length [0, 0, 0, 0, 0, 0, 0, 0 :: nat] \<le> pool_work busy_pool"
proof -
  have "threads_keepalive busy_pool" by (simp add: busy_pool_def idle_pool_def)
  with pool_drains [OF busy_pool_reachable zero_less_one] done_pool_run show ?thesis by blast
qed

text \<open>
  Destroying the pool: once no thread is alive after the stop, the clean-up frees
  the cells of the jobs that were never started, and no cell is left; the jobs that were
  started have all been run.
\<close>

lemma thpool_destroy_frees_all:
  assumes "pool_reachable n s" and "num_threads_alive s = 0"
  shows "\<exists>q. thpool_cleanup s = Some q \<and> jq_heap q = Map.empty \<and> mset (p_executed s) = mset (p_started s)"
proof -
  from pool_reachable_inv [OF assms(1)] obtain cs where inv: "pool_inv s cs" by blast
  have "\<not> pc_alive pc" if "pc \<in> set (p_threads s)" for pc
    using inv assms(2) that by (auto simp: pool_inv_def filter_empty_conv)
  moreover have "\<not> pc_alive pc \<Longrightarrow> pc_jobs pc = [] \<and> pc_cells pc = []" for pc :: "'a wpc"
    by (cases pc) (auto simp: pc_simps)
  ultimately have "concat (map pc_jobs (p_threads s)) = [] \<and> concat (map pc_cells (p_threads s)) = []"
    by simp
  moreover obtain q where "clear_loop (p_queue s) = Some q"
    "jq_heap q = (\<lambda>a. if a \<in> set (addrs cs) then None else jq_heap (p_queue s) a)"
    using clear_loop_all inv by (auto simp: pool_inv_def)
  moreover have "dom (jq_heap (p_queue s)) = set (addrs cs)"
    using calculation(1) inv mset_set_distinct [of "dom (jq_heap (p_queue s))" "addrs cs"]
    by (auto simp: pool_inv_def)
  ultimately show ?thesis
    using inv by (auto simp: thpool_cleanup_def jobqueue_clear_def bsem_reset_def pool_inv_def fun_eq_iff)
qed

lemma thpool_destroy_frees_all_example:
  "\<exists>s q. run_workers [0, 0, 0, 0] (bsem_post_all (thpool_stop idle_pool)) = Some s
    \<and> thpool_cleanup s = Some q \<and> jq_heap q = Map.empty"
proof -
  let ?s = "idle_pool\<lparr>threads_keepalive := False, num_threads_alive := 0, p_threads := [Dead]\<rparr>"
  have run: "run_workers [0, 0, 0, 0] (bsem_post_all (thpool_stop idle_pool)) = Some ?s"
    by (simp add: worker_step_def thread_do_def idle_pool_def bsem_wait_def thpool_stop_def
        bsem_post_all_def bsem_post_def)
  have "pool_reachable 1 (thpool_stop idle_pool)"
    by (rule pool_reachable.step [OF idle_pool_reachable pool_step.stop])
      (simp add: pool_ready_def idle_pool_def)
  then have "pool_reachable 1 (bsem_post_all (thpool_stop idle_pool))"
    by (rule pool_reachable.step [OF _ pool_step.post_all])
      (simp_all add: thpool_stop_def idle_pool_def)
  then have "pool_reachable 1 ?s" using run by (rule run_workers_reachable)
  from thpool_destroy_frees_all [OF this] run show ?thesis by auto
qed

end
