(* ===== verification/Boot.thy ===== *)
theory Boot
  imports License Plugin_Load Job_Pool
begin

text \<open>
  The start of the program, \<open>main\<close> of \<open>source/main.c\<close>: the identity of the gateway, the configuration,
  and the jobs that are handed to the thread pool; with \<open>ModbusInit\<close> and the functions of
  \<open>source/modbusHandle.c\<close> that only add jobs.

  \<^item> \<open>boot_arg\<close> holds what the parsers take from outside: the nodes that each path selects in the
    configuration file, the serial objects, results of allocation, times, and memory that is
    not initialised, all by the path of the parser.
  \<^item> A list of inputs and a list of outputs stand for \<open>pDioDevList\<close>, to which the inputs are added
    before the outputs.
  \<^item> The links between devices (\<open>associateKnxDev\<close>, \<open>associateModbusDev\<close>) and the groups are in the theories
    \<open>Gateway_Main\<close> and \<open>Device_Groups\<close>; the loading of plugins is in \<open>Plugin_Load\<close>.
  \<^item> The jobs of the start are endless loops; the pool has 15 threads.
\<close>

subsection \<open>Identity\<close>

definition start_identity ::
  "(string \<Rightarrow> lic_files \<Rightarrow> lic_files) \<Rightarrow> (string \<Rightarrow> string option) \<Rightarrow> bool \<Rightarrow> string \<Rightarrow> xnode list cptr \<Rightarrow> lic_files \<Rightarrow> gw_element
   \<Rightarrow> lic_files \<times> gw_element run" where
  "start_identity sh tool al mac nodes f e =
     (case ParseGatewayCfg nodes of
        Done pGw \<Rightarrow>
          (case GetLicenses sh tool al mac f e of
             (f, r) \<Rightarrow>
               (f, andthen r (\<lambda>e. case pGw of NULL \<Rightarrow> Crash | Ptr g \<Rightarrow> Done (e\<lparr>ge_pProductId := gw_pProductId g\<rparr>))))
      | Exits \<Rightarrow> (f, Exits)
      | Loops \<Rightarrow> (f, Loops)
      | Crash \<Rightarrow> (f, Crash))"

subsection \<open>Configuration\<close>

record HasSysDev =
  hs_bZ3 :: bool
  hs_bMbusAcd :: bool
  hs_bMbusVent :: bool
  hs_bMbusHeat :: bool
  hs_bMbusAqi :: bool
  hs_bMbusHumidifier :: bool
  hs_bMbusPurifier :: bool
  hs_bKnxAcd :: bool
  hs_bKnxVent :: bool
  hs_bKnxHeat :: bool
  hs_bKnxPanel :: bool
  hs_bKnxCurtain :: bool
  hs_bDi :: bool
  hs_bDo :: bool
  hs_bGroup :: bool

record sys =
  sy_has :: HasSysDev
  sy_z3 :: "Z3Dev list"
  sy_mbus :: "mconf list"
  sy_knx :: "knx_body kconf list"
  sy_scene :: "KnxScene list"
  sy_di :: "di_conf list"
  sy_do :: "DoDev list"
  sy_group :: "Group list"
  sy_bZigbee :: bool
  sy_bAutoAck :: bool

record boot_arg =
  bt_sel :: "string \<Rightarrow> xnode list cptr"
  bt_mac :: string
  bt_line :: "string \<Rightarrow> nat \<Rightarrow> SerialParam cptr"
  bt_al :: "string \<Rightarrow> nat \<Rightarrow> bool"
  bt_tm :: "string \<Rightarrow> nat \<Rightarrow> slot \<Rightarrow> u64"
  bt_ktm :: "string \<Rightarrow> nat \<Rightarrow> nat \<Rightarrow> u64"
  bt_ktm' :: "string \<Rightarrow> nat \<Rightarrow> nat \<Rightarrow> u64"
  bt_panel_junk :: "nat \<Rightarrow> nat \<Rightarrow> KnxPoints"
  bt_smart_junk :: "nat \<Rightarrow> nat \<Rightarrow> KnxSmartPanelPoint"
  bt_dimmer_junk :: "nat \<Rightarrow> nat \<Rightarrow> KnxDimmerPoint"

text \<open>The list that a parser leaves is stored; a result 0 sets a flag.\<close>

definition take_list :: "('d list \<Rightarrow> sys \<Rightarrow> sys) \<Rightarrow> (HasSysDev \<Rightarrow> HasSysDev) \<Rightarrow> (int \<times> 'd list cptr) run \<Rightarrow> sys \<Rightarrow> sys run" where
  "take_list put flag r s =
     andthen r (\<lambda>(ret, q).
       case q of
         NULL \<Rightarrow> Crash
       | Ptr l \<Rightarrow> Done ((put l s)\<lparr>sy_has := (if ret = 0 then flag (sy_has s) else sy_has s)\<rparr>))"

definition mbus_step ::
  "(string \<Rightarrow> (nat \<Rightarrow> SerialParam cptr) \<Rightarrow> xnode list cptr \<Rightarrow> mconf list cptr \<Rightarrow> (int \<times> mconf list cptr) run)
   \<Rightarrow> string \<Rightarrow> (HasSysDev \<Rightarrow> HasSysDev) \<Rightarrow> boot_arg \<Rightarrow> sys \<Rightarrow> sys run" where
  "mbus_step parse path flag a s =
     take_list (\<lambda>l s. s\<lparr>sy_mbus := l\<rparr>) flag (parse (bt_mac a) (bt_line a path) (bt_sel a path) (Ptr (sy_mbus s))) s"

definition knx_step ::
  "(xnode list cptr \<Rightarrow> knx_body kconf list cptr \<Rightarrow> (int \<times> knx_body kconf list cptr) run)
   \<Rightarrow> string \<Rightarrow> (HasSysDev \<Rightarrow> HasSysDev) \<Rightarrow> boot_arg \<Rightarrow> sys \<Rightarrow> sys run" where
  "knx_step parse path flag a s =
     take_list (\<lambda>l s. s\<lparr>sy_knx := l\<rparr>) flag (parse (bt_sel a path) (Ptr (sy_knx s))) s"

definition config_steps :: "boot_arg \<Rightarrow> (sys \<Rightarrow> sys run) list" where
  "config_steps a =
     [\<lambda>s. take_list (\<lambda>l s. s\<lparr>sy_z3 := l\<rparr>) (hs_bZ3_update (\<lambda>_. True)) (ParseZ3Cfg (bt_sel a ''/Device/Zigbee/Cell'') (Ptr (sy_z3 s))) s,
      mbus_step ParseMbusAcdCfg ''/Device/Modbus/AirCondition/Cell'' (hs_bMbusAcd_update (\<lambda>_. True)) a,
      mbus_step ParseMbusVentCfg ''/Device/Modbus/Ventilation/Cell'' (hs_bMbusVent_update (\<lambda>_. True)) a,
      mbus_step ParseMbusHeatCfg ''/Device/Modbus/FloorHeating/Cell'' (hs_bMbusHeat_update (\<lambda>_. True)) a,
      mbus_step ParseMbusAqiCfg ''/Device/Modbus/AQI/Cell'' (hs_bMbusAqi_update (\<lambda>_. True)) a,
      mbus_step ParseMbusPanelCfg ''/Device/Modbus/Panel/Cell'' (hs_bMbusAqi_update (\<lambda>_. True)) a,
      knx_step (ParseKnxAcdCfg (bt_mac a) (bt_tm a ''acd'') (bt_al a ''acd'')) ''/Device/KNX/AirCondition/Cell'' (hs_bKnxAcd_update (\<lambda>_. True)) a,
      knx_step (ParseKnxVentCfg (bt_mac a) (bt_tm a ''vent'') (bt_al a ''vent'')) ''/Device/KNX/Ventilation/Cell'' (hs_bKnxVent_update (\<lambda>_. True)) a,
      knx_step (ParseKnxHeatCfg (bt_mac a) (bt_tm a ''heat'') (bt_al a ''heat'')) ''/Device/KNX/FloorHeating/Cell'' (hs_bKnxHeat_update (\<lambda>_. True)) a,
      \<lambda>s. take_list (\<lambda>l s. s\<lparr>sy_scene := l\<rparr>) (\<lambda>h. h) (ParseKnxSceneCfg (bt_al a ''scene'')
            (bt_sel a ''/Device/KNX/scene/Cell | /Device/KNX/Scene/Cell | /Device/KNX/Scene/cell | /Device/KNX/scene/cell'') (Ptr (sy_scene s))) s,
      knx_step (ParseKnxPanelCfg (bt_mac a) (bt_ktm a ''panel'') (bt_panel_junk a) (bt_al a ''panel'')) ''/Device/KNX/Panel/Cell'' (\<lambda>h. h) a,
      knx_step (ParseKnxDimmerCfg (bt_mac a) (bt_dimmer_junk a)) ''/Device/KNX/Dimmer/Cell'' (\<lambda>h. h) a,
      knx_step (ParseKnxSmartPanelCfg (bt_mac a) (bt_ktm a ''smart'') (bt_ktm' a ''smart'') (bt_smart_junk a) (bt_al a ''smart''))
        ''/Device/KNX/SmartPanel/Cell'' (\<lambda>h. h) a,
      knx_step (ParseKnxCurtainCfg (bt_mac a) (bt_al a ''curtain'')) ''/Device/KNX/Curtain/Cell'' (\<lambda>h. h) a,
      mbus_step ParseMbusCurtainCfg ''/Device/Modbus/Curtain/Cell'' (hs_bKnxCurtain_update (\<lambda>_. True)) a,
      \<lambda>s. take_list (\<lambda>l s. s\<lparr>sy_di := l\<rparr>) (hs_bDi_update (\<lambda>_. True)) (ParseDiCfg (bt_mac a) (bt_al a ''di'') (bt_sel a ''/Device/DI/Cell'') (Ptr (sy_di s))) s,
      \<lambda>s. take_list (\<lambda>l s. s\<lparr>sy_do := l\<rparr>) (hs_bDo_update (\<lambda>_. True)) (ParseDoCfg (bt_mac a) (bt_al a ''do'') (bt_sel a ''/Device/DO/Cell'') (Ptr (sy_do s))) s,
      \<lambda>s. take_list (\<lambda>l s. s\<lparr>sy_group := l\<rparr>) (\<lambda>h. h)
            (ParseGroupCfg (bt_mac a) (bt_al a ''agrp'') (bt_sel a ''/Device/Group/AirCondition/Cell'') (Ptr (sy_group s))) s,
      \<lambda>s. take_list (\<lambda>l s. s\<lparr>sy_group := l\<rparr>) (\<lambda>h. h)
            (ParseGroupCfg (bt_mac a) (bt_al a ''cgrp'') (bt_sel a ''/Device/Group/Curtain/Cell'') (Ptr (sy_group s))) s,
      \<lambda>s. Done (s\<lparr>sy_bZigbee := snd (ParseZigbeeCfg (bt_sel a ''/Device/Zigbee'') (sy_bZigbee s))\<rparr>),
      \<lambda>s. Done (s\<lparr>sy_bAutoAck := snd (ParseKnxCfg (bt_sel a ''/Device/KNX'') (sy_bAutoAck s))\<rparr>)]"

fun run_steps :: "(sys \<Rightarrow> sys run) list \<Rightarrow> sys \<Rightarrow> sys run" where
  "run_steps [] s = Done s"
| "run_steps (f # fs) s = andthen (f s) (run_steps fs)"

definition new_sys :: sys where
  "new_sys = \<lparr>sy_has = \<lparr>hs_bZ3 = False, hs_bMbusAcd = False, hs_bMbusVent = False, hs_bMbusHeat = False, hs_bMbusAqi = False,
       hs_bMbusHumidifier = False, hs_bMbusPurifier = False, hs_bKnxAcd = False, hs_bKnxVent = False, hs_bKnxHeat = False,
       hs_bKnxPanel = False, hs_bKnxCurtain = False, hs_bDi = False, hs_bDo = False, hs_bGroup = False\<rparr>,
     sy_z3 = [], sy_mbus = [], sy_knx = [], sy_scene = [], sy_di = [], sy_do = [], sy_group = [], sy_bZigbee = False, sy_bAutoAck = True\<rparr>"

text \<open>A missing file ends the program.\<close>

definition load_config :: "bool \<Rightarrow> boot_arg \<Rightarrow> sys run" where
  "load_config readable a = (if \<not> readable then Exits else run_steps (config_steps a) new_sys)"

subsection \<open>Jobs\<close>

datatype gw_job = KnxJob entry qname | MbusJob string | MainJob string

definition ModbusInit :: "bool \<Rightarrow> 'd list \<Rightarrow> int \<times> gw_job list \<times> ('d \<times> bool) list" where
  "ModbusInit made ds =
     (if \<not> made then (- 1, [], map (\<lambda>d. (d, False)) ds)
      else (0, [MbusJob ''ModbusDevMonitor''], map (\<lambda>d. (d, True)) ds))"

definition Mbus_ForceSyncDevStatus :: "gw_job list" where
  "Mbus_ForceSyncDevStatus = [MbusJob ''Mbus_DelaySyncAllDevStatus'']"

text \<open>One round of \<open>Mbus_DelaySyncAllDevStatus\<close>: the delay in milliseconds and the job it adds.\<close>

definition Mbus_DelaySyncAllDevStatus_round :: "bool \<Rightarrow> nat \<times> gw_job list" where
  "Mbus_DelaySyncAllDevStatus_round g_bActive =
     (if g_bActive then 1000 * 60 else 1000 * 30, [MbusJob ''Mbus_SyncAllDevStatus''])"

definition main_jobs :: "bool \<Rightarrow> gw_job list" where
  "main_jobs bDi =
     [MainJob ''key_scan'', MainJob ''flashLight''] @ (if bDi then [MainJob ''di_scan''] else []) @
     [MainJob ''fakeServer'', MainJob ''RunLedThread'', MainJob ''ReportPosThread'', MainJob ''ReportBindPosThread'']"

text \<open>
  The jobs of a start, with the results of the four calls that register with the cloud library; a call
  that fails ends the program.
\<close>

definition boot_jobs :: "(qname \<Rightarrow> bool) \<Rightarrow> bool \<Rightarrow> int list \<Rightarrow> sys \<Rightarrow> gw_job list run" where
  "boot_jobs made mmade regs s =
     (let knx = (case KnxInit made () (replicate 3 \<lparr>dg_id = 0, dg_hThpool = NULL\<rparr>) of (_, _, js) \<Rightarrow> map (\<lambda>(e, q). KnxJob e q) js);
          mbus = (case ModbusInit mmade (sy_mbus s) of (_, js, _) \<Rightarrow> js)
      in if list_ex (\<lambda>r. r \<noteq> 0) regs then Exits
         else Done (knx @ mbus @ main_jobs (hs_bDi (sy_has s)) @ Mbus_ForceSyncDevStatus))"

subsection \<open>Jobs that never end\<close>

text \<open>A worker holds at most one job, and holds it until the job ends.\<close>

lemma pc_jobs_le: "length (pc_jobs pc) \<le> 1"
  by (cases pc) (simp_all add: pc_jobs_def)

lemma held_le: "length (concat (map pc_jobs ts)) \<le> length ts"
proof (induction ts)
  case (Cons t ts)
  then show ?case using pc_jobs_le [of t] by simp
qed simp

lemma held_less: "t \<in> set ts \<Longrightarrow> pc_jobs t = [] \<Longrightarrow> length (concat (map pc_jobs ts)) < length ts"
proof (induction ts)
  case (Cons u ts)
  then show ?case using held_le [of ts] pc_jobs_le [of u] by fastforce
qed simp

lemma all_busy: "\<forall>t \<in> set ts. \<exists>j. pc_jobs t = [j] \<and> E j \<Longrightarrow> length (filter E (concat (map pc_jobs ts))) = length ts"
  by (induction ts) auto

lemma endless_held:
  assumes "pool_inv s cs'" and "\<forall>j \<in> set (p_executed s). \<not> E j"
  shows "length (filter E (p_started s)) = length (filter E (concat (map pc_jobs (p_threads s))))"
proof -
  have "mset (p_started s) = mset (p_executed s) + mset (concat (map pc_jobs (p_threads s)))"
    using assms(1) by (simp add: pool_inv_def)
  then have "size (mset (filter E (p_started s))) = size (mset (filter E (p_executed s))) + size (mset (filter E (concat (map pc_jobs (p_threads s)))))"
    by (simp add: mset_filter del: size_mset mset_concat)
  moreover have "filter E (p_executed s) = []" using assms(2) by (simp add: filter_empty_conv)
  ultimately show ?thesis unfolding size_mset by simp
qed

lemma thread_do_starts:
  assumes "thread_do pc s = Some (Returns (pc', s'))"
  shows "set (p_executed s) \<subseteq> set (p_executed s')
    \<and> (p_started s' = p_started s \<or> pc = Pulling \<and> (\<exists>j. p_started s' = p_started s @ [j]))"
proof (cases pc)
  case Pulling
  with assms obtain jp q where "jobqueue_pull (p_queue s) = Some (jp, q)" by (auto simp: thread_do_def bind_eq_Some_conv)
  with assms Pulling show ?thesis by (cases jp) (auto simp: thread_do_def bind_eq_Some_conv)
qed (use assms in \<open>auto simp: thread_do_def bsem_wait_def bind_eq_Some_conv split: if_splits\<close>)

lemma add_work_starts: "thpool_add_work (Ptr a) job s = Some (r, s') \<Longrightarrow> p_started s' = p_started s \<and> p_executed s' = p_executed s"
  by (auto simp: thpool_add_work_def Let_def bind_eq_Some_conv)

lemma starts_bounded:
  "pool_reachable n s \<Longrightarrow> \<forall>j \<in> set (p_executed s). \<not> E j \<Longrightarrow> nat n \<le> length (filter E (take k (p_started s))) \<Longrightarrow>
   0 < n \<Longrightarrow> length (p_started s) \<le> k"
proof (induction rule: pool_reachable.induct)
  case (init al s)
  then show ?case by (auto simp: thpool_init_def jobqueue_init_def split: if_splits)
next
  case (step s s')
  have same: "length (p_started s') \<le> k" if eqs: "p_started s' = p_started s" and ex: "\<forall>j \<in> set (p_executed s). \<not> E j"
    unfolding eqs by (rule step.IH [OF ex step.prems(2) [unfolded eqs] step.prems(3)])
  from step.hyps(2) show ?case
  proof cases
    case (worker i)
    then obtain pc s1 where *: "i < length (p_threads s)"
      "thread_do (p_threads s ! i) s = Some (Returns (pc, s1))" "s' = s1\<lparr>p_threads := (p_threads s)[i := pc]\<rparr>"
      by (rule worker_step_cases)
    have ex: "\<forall>j \<in> set (p_executed s). \<not> E j" using thread_do_starts [OF *(2)] *(3) step.prems(1) by auto
    obtain xs where inv: "pool_inv s xs" and len: "length (p_threads s) = nat n" using pool_reachable_inv [OF step.hyps(1)] by blast
    consider "p_started s' = p_started s" | j where "p_threads s ! i = Pulling" "p_started s' = p_started s @ [j]"
      using thread_do_starts [OF *(2)] *(3) by auto
    then show ?thesis
    proof cases
      case 1
      then show ?thesis using ex by (rule same)
    next
      case 2
      show ?thesis
      proof (rule ccontr)
        assume "\<not> length (p_started s') \<le> k"
        then have k: "k \<le> length (p_started s)" using 2(2) by simp
        then have cnt: "nat n \<le> length (filter E (take k (p_started s)))" using step.prems(2) 2(2) by simp
        with step.IH [OF ex _ step.prems(3)] k have "take k (p_started s) = p_started s" by simp
        then have "nat n \<le> length (filter E (concat (map pc_jobs (p_threads s))))" using cnt endless_held [OF inv ex] by simp
        also have "\<dots> \<le> length (concat (map pc_jobs (p_threads s)))" by simp
        also have "\<dots> < length (p_threads s)" using held_less [OF nth_mem [OF *(1)]] 2(1) by (simp add: pc_jobs_def)
        finally show False using len by simp
      qed
    qed
  next
    case (submit a job)
    note eqs = add_work_starts [OF submit(4)]
    from eqs [THEN conjunct1] step.prems(1) [unfolded eqs [THEN conjunct2]] show ?thesis by (rule same)
  next
    case stop
    then have eqs: "p_started s' = p_started s" "p_executed s' = p_executed s" by (simp_all add: thpool_stop_def)
    from eqs(1) step.prems(1) [unfolded eqs(2)] show ?thesis by (rule same)
  next
    case post_all
    then have eqs: "p_started s' = p_started s" "p_executed s' = p_executed s" by (simp_all add: bsem_post_all_def)
    from eqs(1) step.prems(1) [unfolded eqs(2)] show ?thesis by (rule same)
  qed
qed

lemma pool_starves:
  assumes "pool_reachable n s" and "0 < n" and "\<forall>j \<in> set (p_executed s). \<not> E j" and "p_submitted s = xs @ ys" and "nat n \<le> length (filter E xs)"
  shows "prefix (p_started s) xs"
proof -
  obtain zs where "pool_inv s zs" using pool_reachable_inv [OF assms(1)] by blast
  then have pre: "prefix (p_started s) (xs @ ys)" using assms(4) by (auto simp: pool_inv_def)
  have "length (p_started s) \<le> length xs"
  proof (rule ccontr)
    assume "\<not> length (p_started s) \<le> length xs"
    with pre have "take (length xs) (p_started s) = xs"
      by (metis append_eq_conv_conj linorder_linear min.absorb1 prefixE take_append take_take)
    with starts_bounded [OF assms(1,3), of "length xs"] assms(2,5) show False using \<open>\<not> length (p_started s) \<le> length xs\<close> by simp
  qed
  with pre show ?thesis by (metis prefix_length_prefix prefixI)
qed

text \<open>With a thread to spare, all other jobs are run.\<close>

lemma pool_serves:
  assumes "pool_reachable n s" and "threads_keepalive s" and "\<forall>j \<in> set (p_executed s). \<not> E j"
    and "length (filter E (p_submitted s)) < nat n"
    and "\<forall>i < length (p_threads s). (\<exists>a j. p_threads s ! i = Running a j \<and> E j) \<or> worker_step i s = Some Blocked"
  shows "filter_mset (\<lambda>j. \<not> E j) (mset (p_executed s)) = filter_mset (\<lambda>j. \<not> E j) (mset (p_submitted s))"
proof -
  obtain zs where inv: "pool_inv s zs" and len: "length (p_threads s) = nat n" using pool_reachable_inv [OF assms(1)] by blast
  have kind: "(\<exists>a j. p_threads s ! i = Running a j \<and> E j) \<or> p_threads s ! i = Waiting \<and> has_jobs (p_queue s) \<noteq> 1"
    if "i < length (p_threads s)" for i
    using assms(5) that worker_step_blocked [OF _ that] pool_nobody_leaves [OF assms(1,2)] nth_mem [OF that] by metis
  have held: "\<forall>t \<in> set (p_threads s). (\<forall>j \<in> set (pc_jobs t). E j) \<and> \<not> pc_pulls t"
    using kind by (fastforce simp: in_set_conv_nth pc_simps)
  have "\<exists>i < length (p_threads s). p_threads s ! i = Waiting"
  proof (rule ccontr)
    assume no: "\<not> ?thesis"
    then have one: "\<forall>t \<in> set (p_threads s). \<exists>j. pc_jobs t = [j] \<and> E j" using kind by (fastforce simp: in_set_conv_nth pc_simps)
    then have "length (filter E (concat (map pc_jobs (p_threads s)))) = length (p_threads s)" by (rule all_busy)
    moreover have "length (filter E (p_started s)) \<le> length (filter E (p_submitted s))" using inv by (auto simp: pool_inv_def)
    ultimately show False using endless_held [OF inv assms(3)] assms(4) len by simp
  qed
  then have "has_jobs (p_queue s) \<noteq> 1" using kind by fastforce
  then have "zs = []" using inv assms(2) held by (auto simp: pool_inv_def list_ex_iff)
  moreover have "filter_mset (\<lambda>j. \<not> E j) (mset (concat (map pc_jobs (p_threads s)))) = {#}"
    using held by (auto simp: filter_empty_conv simp flip: mset_filter simp del: mset_concat)
  ultimately show ?thesis using inv by (simp add: pool_inv_def)
qed

text \<open>Every sequence of jobs can be handed to a pool whose threads have started.\<close>

definition fresh_pool :: "nat \<Rightarrow> nat \<Rightarrow> 'j pool \<Rightarrow> bool" where
  "fresh_pool n i s \<longleftrightarrow> p_threads s = replicate i Testing @ replicate (n - i) Starting \<and> threads_keepalive s
     \<and> p_submitted s = [] \<and> p_started s = [] \<and> p_executed s = []"

lemma start_threads: "i \<le> n \<Longrightarrow> \<exists>s :: 'j pool. pool_reachable (int n) s \<and> fresh_pool n i s"
proof (induction i)
  case 0
  obtain s :: "'j pool" where s: "thpool_init (\<lambda>_. True) (int n) = Ptr s" by (simp add: thpool_init_def jobqueue_init_def)
  then have "fresh_pool n 0 s" by (auto simp: thpool_init_def jobqueue_init_def fresh_pool_def)
  with pool_reachable.init [OF s] show ?case by blast
next
  case (Suc i)
  then obtain s :: "'j pool" where s: "pool_reachable (int n) s" "fresh_pool n i s" by auto
  have th: "p_threads s ! i = Starting" using s(2) Suc.prems by (simp add: fresh_pool_def nth_append)
  obtain m where m: "n - i = Suc m" using Suc.prems by (cases "n - i") auto
  let ?s = "s\<lparr>num_threads_alive := num_threads_alive s + 1, p_threads := (p_threads s)[i := Testing]\<rparr>"
  have "worker_step i s = Some (Returns ?s)"
    using th s(2) Suc.prems by (simp add: worker_step_def thread_do_def fresh_pool_def)
  then have "pool_reachable (int n) ?s" using pool_reachable.step [OF s(1)] pool_step.worker by blast
  moreover have "(p_threads s)[i := Testing] = replicate (Suc i) Testing @ replicate (n - Suc i) Starting"
    using s(2) m by (simp add: fresh_pool_def list_update_append replicate_app_Cons_same diff_Suc)
  then have "fresh_pool n (Suc i) ?s" using s(2) by (simp add: fresh_pool_def)
  ultimately show ?case by blast
qed

lemma submit_jobs:
  "\<exists>s :: 'j pool. pool_reachable (int n) s \<and> pool_ready s \<and> threads_keepalive s \<and> p_submitted s = js \<and> p_started s = [] \<and> p_executed s = []"
proof (induction js rule: rev_induct)
  case Nil
  obtain s :: "'j pool" where "pool_reachable (int n) s" "fresh_pool n n s" using start_threads by blast
  then show ?case by (auto simp: fresh_pool_def pool_ready_def intro!: exI [of _ s])
next
  case (snoc j js)
  then obtain s :: "'j pool" where s: "pool_reachable (int n) s" "pool_ready s" "threads_keepalive s" "p_submitted s = js"
      "p_started s = []" "p_executed s = []" by blast
  obtain xs where inv: "pool_inv s xs" using pool_reachable_inv [OF s(1)] by blast
  then have "finite (dom (jq_heap (p_queue s)))" by (simp add: pool_inv_def)
  then obtain a where a: "jq_heap (p_queue s) a = None" using ex_new_if_finite [OF infinite_UNIV_nat] by (metis domIff)
  obtain s' where s': "thpool_add_work (Ptr a) j s = Some (0, s')" using pool_inv_submit [OF inv a] by blast
  note frame = add_work_frame [OF s'] add_work_starts [OF s']
  have "p_submitted s' = js @ [j]" using s' s(4) by (auto simp: thpool_add_work_def Let_def bind_eq_Some_conv)
  moreover have "pool_reachable (int n) s'" using pool_reachable.step [OF s(1) pool_step.submit [OF s(2,3) a s']] .
  ultimately show ?case using frame s by (auto simp: pool_ready_def)
qed

subsection \<open>What the configuration keeps\<close>

text \<open>What all steps of the configuration keep, the whole configuration keeps.\<close>

lemma run_steps_keep:
  assumes "\<And>f s s'. f \<in> set fs \<Longrightarrow> I s \<Longrightarrow> f s = Done s' \<Longrightarrow> I s'" and "I s" and "run_steps fs s = Done s'"
  shows "I s'"
  using assms
proof (induction fs arbitrary: s)
  case (Cons f fs)
  then show ?case by (auto simp: andthen_Done)
qed simp

lemma take_list_Done:
  assumes "take_list put flag r s = Done s'"
  shows "\<exists>ret l. r = Done (ret, Ptr l) \<and> s' = (put l s)\<lparr>sy_has := (if ret = 0 then flag (sy_has s) else sy_has s)\<rparr>"
proof -
  from assms obtain ret q where r: "r = Done (ret, q)" by (auto simp: take_list_def andthen_Done)
  with assms show ?thesis by (cases q) (auto simp: take_list_def)
qed

definition sys_ok :: "sys \<Rightarrow> bool" where
  "sys_ok s \<longleftrightarrow> list_all conf_ok (sy_mbus s) \<and> list_all di_fresh (sy_di s)"

lemma mbus_step_keeps:
  assumes "length (bt_mac a) = 12" and "\<forall>i q. bt_line a path i = Ptr q \<longrightarrow> fresh_serial q" and "parse \<in> set mbus_parsers"
    and "sys_ok s" and "mbus_step parse path flag a s = Done s'"
  shows "sys_ok s'"
proof -
  obtain ret l where l: "parse (bt_mac a) (bt_line a path) (bt_sel a path) (Ptr (sy_mbus s)) = Done (ret, Ptr l)"
      "s' = s\<lparr>sy_mbus := l\<rparr>\<lparr>sy_has := (if ret = 0 then flag (sy_has s) else sy_has s)\<rparr>"
    using assms(5) unfolding mbus_step_def by (auto dest!: take_list_Done)
  have "only_adds (configured (bt_mac a)) (parse (bt_mac a) (bt_line a path))" using assms(3,2) by (rule parser_adds)
  with l(1) assms(1) obtain new where "l = sy_mbus s @ new" "list_all conf_ok new" by (fastforce simp: only_adds_def)
  with assms(4) l(2) show ?thesis by (simp add: sys_ok_def)
qed

lemma knx_step_keeps: "sys_ok s \<Longrightarrow> knx_step parse path flag a s = Done s' \<Longrightarrow> sys_ok s'"
  unfolding knx_step_def by (auto simp: sys_ok_def dest!: take_list_Done)

lemma di_step_keeps:
  assumes "sys_ok s" and "take_list (\<lambda>l s. s\<lparr>sy_di := l\<rparr>) flag (ParseDiCfg mac al nodes (Ptr (sy_di s))) s = Done s'"
  shows "sys_ok s'"
proof -
  obtain ret l where l: "ParseDiCfg mac al nodes (Ptr (sy_di s)) = Done (ret, Ptr l)"
      "s' = s\<lparr>sy_di := l\<rparr>\<lparr>sy_has := (if ret = 0 then flag (sy_has s) else sy_has s)\<rparr>"
    using take_list_Done [OF assms(2)] by blast
  obtain new where "l = sy_di s @ new" "list_all di_fresh new"
    using di_cells.parse_devices_adds l(1) unfolding ParseDiCfg_def by blast
  with assms(1) l(2) show ?thesis by (simp add: sys_ok_def)
qed

lemma other_step_keeps:
  assumes "sys_ok s" and "take_list put flag r s = Done s'" and "\<And>l s. sy_mbus (put l s) = sy_mbus s \<and> sy_di (put l s) = sy_di s"
  shows "sys_ok s'"
  using take_list_Done [OF assms(2)] assms(1,3) by (auto simp: sys_ok_def)

lemma config_step_keeps:
  assumes "length (bt_mac a) = 12" and "\<forall>p i q. bt_line a p i = Ptr q \<longrightarrow> fresh_serial q"
  shows "list_all (\<lambda>f. \<forall>s s'. sys_ok s \<longrightarrow> f s = Done s' \<longrightarrow> sys_ok s') (config_steps a)"
proof -
  have mbus: "sys_ok s'" if "sys_ok s" "mbus_step parse path flag a s = Done s'" "parse \<in> set mbus_parsers" for parse path flag s s'
    using mbus_step_keeps [OF assms(1) _ that(3,1,2)] assms(2) by blast
  show ?thesis
    unfolding config_steps_def
    by (intro list.pred_inject(1) list.pred_inject(2) [THEN iffD2] conjI allI impI)
      ((erule (1) di_step_keeps | erule (1) knx_step_keeps | erule (1) mbus, simp add: mbus_parsers_def
        | erule (1) other_step_keeps, simp | auto simp: sys_ok_def)+)
qed

subsection \<open>Properties\<close>




text \<open>A file without any section, and one with a humidifier only.\<close>

definition sample_boot :: boot_arg where
  "sample_boot = \<lparr>bt_sel = (\<lambda>_. NULL), bt_mac = sample_mac, bt_line = (\<lambda>_ _. NULL), bt_al = (\<lambda>_ _. True), bt_tm = (\<lambda>_ _ _. 0),
     bt_ktm = (\<lambda>_ _ _. 0), bt_ktm' = (\<lambda>_ _ _. 0), bt_panel_junk = (\<lambda>_ _. undefined), bt_smart_junk = (\<lambda>_ _. undefined),
     bt_dimmer_junk = (\<lambda>_ _. undefined)\<rparr>"

lemma parse_devices_none: "parse_devices ts new memo fin k NULL (Ptr l) = Done (- 1, Ptr l)"
  by (simp add: parse_devices_def)

lemma parse_units_none: "parse_units fin nm ty ts start NULL (Ptr l) = Done (- 1, Ptr l)"
  by (simp add: parse_units_def)

lemma sample_boot_read: "load_config True sample_boot = Done new_sys"
  by (simp add: load_config_def config_steps_def sample_boot_def mbus_step_def knx_step_def take_list_def
      ParseZ3Cfg_def ParseMbusAcdCfg_def ParseMbusVentCfg_def ParseMbusHeatCfg_def ParseMbusAqiCfg_def ParseMbusPanelCfg_def ParseMbusCurtainCfg_def
      ParseKnxAcdCfg_def ParseKnxVentCfg_def ParseKnxHeatCfg_def parse_objects_def ParseKnxSceneCfg_def ParseKnxPanelCfg_def
      ParseKnxDimmerCfg_def ParseKnxSmartPanelCfg_def parse_keys_def ParseKnxCurtainCfg_def ParseDiCfg_def ParseDoCfg_def ParseGroupCfg_def
      ParseZigbeeCfg_def ParseKnxCfg_def parse_devices_none parse_units_none new_sys_def)


end
