(* ===== verification/Pool_Pause.thy ===== *)
theory Pool_Pause
  imports Job_Pool
begin

text \<open>
  Pausing the threads of the pool: \<open>thpool_pause\<close>, \<open>thpool_resume\<close> and the signal handler \<open>thread_hold\<close> of
  \<open>source/thpool.c\<close>, around the workers of \<open>Job_Pool\<close>.

  \<^item> \<open>thpool_pause\<close> sends a signal to the first \<open>num_threads_alive\<close> threads. A signal is pending until its
    thread enters the handler; a signal that is sent while one is pending or while the handler
    runs is kept once.
  \<^item> The handler sets the flag \<open>threads_on_hold\<close>, one for all threads, and sleeps until it is cleared.
    A thread in the handler takes no step of its own.
  \<^item> The owner pauses a pool whose threads have all been started and which is not being destroyed;
    a signal to a thread that has ended would be undefined.
  \<^item> A thread may be stopped while it holds a lock. Then the other threads wait for the lock, which
    is a delay that the step relation of \<open>Job_Pool\<close> contains.
\<close>

subsection \<open>Signals\<close>

record 'j held_pool =
  hp_pool :: "'j pool"
  threads_on_hold :: bool
  hp_signal :: "bool list"
  hp_held :: "bool list"

definition hold_init :: "'j pool \<Rightarrow> 'j held_pool" where
  "hold_init s = \<lparr>hp_pool = s, threads_on_hold = False,
     hp_signal = replicate (length (p_threads s)) False, hp_held = replicate (length (p_threads s)) False\<rparr>"

definition thpool_pause :: "'j held_pool \<Rightarrow> 'j held_pool" where
  "thpool_pause h =
     (let n = nat (num_threads_alive (hp_pool h)) in
      h\<lparr>hp_signal := replicate (min n (length (hp_signal h))) True @ drop n (hp_signal h)\<rparr>)"

definition thpool_resume :: "'j held_pool \<Rightarrow> 'j held_pool" where
  "thpool_resume h = h\<lparr>threads_on_hold := False\<rparr>"

text \<open>The handler: its entry, and the test of its loop, which leaves it or sleeps on.\<close>

definition thread_hold_enter :: "nat \<Rightarrow> 'j held_pool \<Rightarrow> 'j held_pool" where
  "thread_hold_enter i h =
     h\<lparr>threads_on_hold := True, hp_signal := (hp_signal h)[i := False], hp_held := (hp_held h)[i := True]\<rparr>"

definition thread_hold_test :: "nat \<Rightarrow> 'j held_pool \<Rightarrow> 'j held_pool" where
  "thread_hold_test i h = (if threads_on_hold h then h else h\<lparr>hp_held := (hp_held h)[i := False]\<rparr>)"

text \<open>All steps but the call of \<open>thpool_resume\<close>.\<close>

inductive hold_step :: "'j held_pool \<Rightarrow> 'j held_pool \<Rightarrow> bool" where
  work: "i < length (hp_held h) \<Longrightarrow> \<not> hp_held h ! i \<Longrightarrow> worker_step i (hp_pool h) = Some (Returns s) \<Longrightarrow>
    hold_step h (h\<lparr>hp_pool := s\<rparr>)"
| submit: "pool_ready (hp_pool h) \<Longrightarrow> threads_keepalive (hp_pool h) \<Longrightarrow> jq_heap (p_queue (hp_pool h)) a = None \<Longrightarrow>
    thpool_add_work (Ptr a) job (hp_pool h) = Some (0, s) \<Longrightarrow> hold_step h (h\<lparr>hp_pool := s\<rparr>)"
| stop: "pool_ready (hp_pool h) \<Longrightarrow> hold_step h (h\<lparr>hp_pool := thpool_stop (hp_pool h)\<rparr>)"
| post_all: "\<not> threads_keepalive (hp_pool h) \<Longrightarrow> 0 < num_threads_alive (hp_pool h) \<Longrightarrow>
    hold_step h (h\<lparr>hp_pool := bsem_post_all (hp_pool h)\<rparr>)"
| pause: "pool_ready (hp_pool h) \<Longrightarrow> threads_keepalive (hp_pool h) \<Longrightarrow> hold_step h (thpool_pause h)"
| enter: "i < length (hp_held h) \<Longrightarrow> hp_signal h ! i \<Longrightarrow> \<not> hp_held h ! i \<Longrightarrow> hold_step h (thread_hold_enter i h)"
| test: "i < length (hp_held h) \<Longrightarrow> hp_held h ! i \<Longrightarrow> hold_step h (thread_hold_test i h)"

inductive hold_reachable :: "int \<Rightarrow> 'j held_pool \<Rightarrow> bool" for n where
  init: "thpool_init al n = Ptr s \<Longrightarrow> hold_reachable n (hold_init s)"
| step: "hold_reachable n h \<Longrightarrow> hold_step h h' \<Longrightarrow> hold_reachable n h'"
| resume: "hold_reachable n h \<Longrightarrow> hold_reachable n (thpool_resume h)"

subsection \<open>A paused pool is a pool\<close>

lemma pause_same [simp]:
  "hp_pool (thpool_pause h) = hp_pool h" "hp_held (thpool_pause h) = hp_held h" "threads_on_hold (thpool_pause h) = threads_on_hold h"
  "hp_pool (thpool_resume h) = hp_pool h" "hp_held (thpool_resume h) = hp_held h" "hp_signal (thpool_resume h) = hp_signal h"
  "\<not> threads_on_hold (thpool_resume h)" "hp_pool (thread_hold_enter i h) = hp_pool h" "threads_on_hold (thread_hold_enter i h)"
  "hp_pool (thread_hold_test i h) = hp_pool h" "hp_held (hold_init s) = replicate (length (p_threads s)) False"
  "hp_pool (hold_init s) = s"
  by (simp_all add: thpool_pause_def thpool_resume_def thread_hold_enter_def thread_hold_test_def hold_init_def Let_def)

text \<open>
  Whatever is paused and resumed when, the pool is in a state that it can also reach without
  pauses. All invariants of the workers hold, and each job is run once.
\<close>

lemma paused_refines: "hold_reachable n h \<Longrightarrow> pool_reachable n (hp_pool h)"
proof (induction rule: hold_reachable.induct)
  case (step h h')
  from step.hyps(2) have "pool_step (hp_pool h) (hp_pool h') \<or> hp_pool h' = hp_pool h"
    by cases (auto intro: pool_step.intros)
  then show ?case using step.IH by (auto intro: pool_reachable.step)
qed (auto intro: pool_reachable.init)

lemma paused_jobs_once: "hold_reachable n h \<Longrightarrow> \<exists>cs'. pool_inv (hp_pool h) cs' \<and> length (p_threads (hp_pool h)) = nat n"
  using pool_reachable_inv [OF paused_refines] by blast

subsection \<open>Standing still, going on\<close>

lemma other_worker:
  assumes "worker_step j s = Some (Returns s')" and "i \<noteq> j"
  shows "p_threads s' ! i = p_threads s ! i"
proof -
  from assms(1) obtain pc s1 where "s' = s1\<lparr>p_threads := (p_threads s)[j := pc]\<rparr>" by (rule worker_step_cases)
  with assms(2) show ?thesis by simp
qed

lemma add_work_threads: "thpool_add_work (Ptr a) job s = Some (r, s') \<Longrightarrow> p_threads s' = p_threads s"
  by (auto simp: thpool_add_work_def Let_def bind_eq_Some_conv)

text \<open>A thread in the handler stands still, and stays there until the flag is cleared.\<close>

lemma held_stands:
  assumes "hold_step h h'" and "i < length (hp_held h)" and "hp_held h ! i"
  shows "p_threads (hp_pool h') ! i = p_threads (hp_pool h) ! i \<and> length (hp_held h') = length (hp_held h)
    \<and> (threads_on_hold h \<longrightarrow> threads_on_hold h' \<and> hp_held h' ! i)"
  using assms
proof cases
  case (work j s)
  then have "i \<noteq> j" using assms(3) by auto
  then show ?thesis using work assms(3) other_worker by simp
qed (use assms in \<open>auto dest: add_work_threads simp: thpool_stop_def bsem_post_all_def thread_hold_enter_def thread_hold_test_def nth_list_update\<close>)

text \<open>
  When every signal has been delivered, \<open>thpool_resume\<close> lets all threads go on. A signal that is
  still pending sets the flag again when it is delivered: its thread stands still until the
  next call of \<open>thpool_resume\<close>, whatever else happens.
\<close>

lemma release_all:
  "\<not> threads_on_hold h \<Longrightarrow> \<exists>h'. hold_step\<^sup>*\<^sup>* h h' \<and> hp_pool h' = hp_pool h \<and> True \<notin> set (hp_held h')"
proof (induction "length (filter id (hp_held h))" arbitrary: h rule: less_induct)
  case less
  show ?case
  proof (cases "True \<in> set (hp_held h)")
    case True
    then obtain xs ys where h: "hp_held h = xs @ True # ys" by (meson split_list)
    let ?h = "thread_hold_test (length xs) h"
    have eq: "hp_held ?h = xs @ False # ys" "\<not> threads_on_hold ?h" using less.prems h by (simp_all add: thread_hold_test_def)
    have "hold_step h ?h" using h by (intro hold_step.test) (simp_all add: nth_append)
    moreover obtain h' where "hold_step\<^sup>*\<^sup>* ?h h'" "hp_pool h' = hp_pool ?h" "True \<notin> set (hp_held h')"
      using less.hyps [of ?h] eq h by auto
    ultimately show ?thesis by (intro exI [of _ h']) (auto intro: converse_rtranclp_into_rtranclp)
  next
    case False
    then show ?thesis by blast
  qed
qed

lemma resume_releases: "\<exists>h'. hold_step\<^sup>*\<^sup>* (thpool_resume h) h' \<and> hp_pool h' = hp_pool h \<and> True \<notin> set (hp_held h')"
  using release_all [of "thpool_resume h"] by simp

lemma late_signal_holds:
  assumes "i < length (hp_held h)" and "i < length (hp_signal h)" and "hp_signal h ! i" and "\<not> hp_held h ! i"
  shows "hold_step (thpool_resume h) (thread_hold_enter i (thpool_resume h))
    \<and> (hold_step\<^sup>*\<^sup>* (thread_hold_enter i (thpool_resume h)) h' \<longrightarrow> p_threads (hp_pool h') ! i = p_threads (hp_pool h) ! i \<and> hp_held h' ! i)"
proof -
  let ?h = "thread_hold_enter i (thpool_resume h)"
  have "hold_step (thpool_resume h) ?h" using assms by (intro hold_step.enter) simp_all
  moreover have "hold_step\<^sup>*\<^sup>* ?h h' \<Longrightarrow> i < length (hp_held h') \<and> hp_held h' ! i \<and> threads_on_hold h'
      \<and> p_threads (hp_pool h') ! i = p_threads (hp_pool h) ! i"
  proof (induction rule: rtranclp_induct)
    case base
    then show ?case using assms(1) by (simp add: thread_hold_enter_def thpool_resume_def)
  next
    case (step x y)
    then show ?case using held_stands [OF step.hyps(2), of i] by simp
  qed
  ultimately show ?thesis by blast
qed

end
