(* ===== verification/Config_Update.thy ===== *)
theory Config_Update
  imports Config_Misc "HOL-Library.Sublist"
begin

text \<open>
  The functions of \<open>source/parseXML.c\<close> that change one node of the configuration file: \<open>XmlGetNode\<close>,
  \<open>XmlUpdateNode\<close> and the \<open>UpdateKnx\<close> functions. The handler of smart panels calls one of them when the
  cloud changes the mode of a channel, so that the mode is known after a restart.

  \<^item> A document is its root node; a place in it is the list of child indices that lead to it.
  \<^item> The evaluator of XPath expressions is a parameter: the places that an expression selects, in
    document order, or nothing when it cannot be evaluated.
  \<^item> The file is a document or cannot be read; \<open>save\<close> is what the file contains after a document was
    written to it.
  \<^item> The expression is printed into 128 bytes.
\<close>

subsection \<open>Places in a document\<close>

fun xnode_at :: "xnode \<Rightarrow> nat list \<Rightarrow> xnode option" where
  "xnode_at n [] = Some n"
| "xnode_at n (i # p) = (if i < length (x_kids n) then xnode_at (x_kids n ! i) p else None)"

fun put_kids :: "xnode list \<Rightarrow> xnode \<Rightarrow> xnode" where
  "put_kids ks (Elem nm as _) = Elem nm as ks"
| "put_kids ks (Leaf nm c) = Leaf nm c"

text \<open>\<open>xmlNodeSetContent\<close>: the children of an element are replaced by one text.\<close>

fun set_content :: "string \<Rightarrow> nat list \<Rightarrow> xnode \<Rightarrow> xnode" where
  "set_content v [] (Elem nm as _) = Elem nm as (if v = [] then [] else [Leaf ''text'' (Ptr v)])"
| "set_content v [] (Leaf nm _) = Leaf nm (Ptr v)"
| "set_content v (i # p) n =
     (if i < length (x_kids n) then put_kids ((x_kids n)[i := set_content v p (x_kids n ! i)]) n else n)"

subsection \<open>Updating\<close>

type_synonym xpath_eval = "xnode \<Rightarrow> string \<Rightarrow> nat list list option"

definition XmlGetNode :: "xpath_eval \<Rightarrow> xnode cptr \<Rightarrow> string cptr \<Rightarrow> nat list list cptr" where
  "XmlGetNode eval pDoc xpath =
     (case (pDoc, xpath) of
        (Ptr doc, Ptr path) \<Rightarrow>
          (case eval doc path of
             None \<Rightarrow> NULL
           | Some ps \<Rightarrow> if ps = [] then NULL else Ptr ps)
      | _ \<Rightarrow> NULL)"

definition XmlUpdateNode :: "nat list list cptr \<Rightarrow> string cptr \<Rightarrow> xnode \<Rightarrow> int \<times> xnode" where
  "XmlUpdateNode pXpathObj pValue doc =
     (case (pXpathObj, pValue) of
        (Ptr ps, Ptr v) \<Rightarrow> (case ps of [] \<Rightarrow> (- 1, doc) | p # _ \<Rightarrow> (0, set_content v p doc))
      | _ \<Rightarrow> (- 1, doc))"

definition update_file ::
  "xpath_eval \<Rightarrow> (xnode \<Rightarrow> xnode option) \<Rightarrow> string \<Rightarrow> string cptr \<Rightarrow> xnode option \<Rightarrow> int \<times> xnode option" where
  "update_file eval save path pValue f =
     (case f of
        None \<Rightarrow> (- 1, None)
      | Some doc \<Rightarrow>
          (case XmlGetNode eval (Ptr doc) (Ptr (take 127 path)) of
             NULL \<Rightarrow> (- 1, Some doc)
           | Ptr ps \<Rightarrow> (0, save (snd (XmlUpdateNode (Ptr ps) pValue doc)))))"

definition dec_int :: "int \<Rightarrow> string" where
  "dec_int n = (if n < 0 then CHR ''-'' # dec (nat (- n)) else dec (nat n))"

definition mode_path :: "int \<Rightarrow> int \<Rightarrow> string" where
  "mode_path priKey chl = ''/Device/KNX/SmartPanel/Cell[PrimaryKey='' @ dec_int priKey @ '']/channel['' @ dec_int chl @ '']/mode/select''"

definition UpdateKnxSmartPanelMode ::
  "xpath_eval \<Rightarrow> (xnode \<Rightarrow> xnode option) \<Rightarrow> int \<Rightarrow> int \<Rightarrow> string cptr \<Rightarrow> xnode option \<Rightarrow> int \<times> xnode option" where
  "UpdateKnxSmartPanelMode eval save priKey chl = update_file eval save (mode_path priKey chl)"

definition UpdateKnxVentSpeedCtrlGrp ::
  "xpath_eval \<Rightarrow> (xnode \<Rightarrow> xnode option) \<Rightarrow> string \<Rightarrow> string cptr \<Rightarrow> xnode option \<Rightarrow> int \<times> xnode option" where
  "UpdateKnxVentSpeedCtrlGrp eval save pValueOld =
     update_file eval save (''/Device/KNX/Ventilation/Cell/Speed[Ctrl='' @ [CHR 0x22] @ pValueOld @ [CHR 0x22] @ '']/Ctrl'')"

definition dimmer_path :: "int \<Rightarrow> string \<Rightarrow> string" where
  "dimmer_path priKey part = ''/Device/KNX/Dimmer/Cell[PrimaryKey='' @ dec_int priKey @ '']/channel/'' @ part"

definition UpdateKnxDimmerSwitchCtrlGrp ::
  "xpath_eval \<Rightarrow> (xnode \<Rightarrow> xnode option) \<Rightarrow> int \<Rightarrow> string cptr \<Rightarrow> xnode option \<Rightarrow> int \<times> xnode option" where
  "UpdateKnxDimmerSwitchCtrlGrp eval save priKey = update_file eval save (dimmer_path priKey ''Switch/Ctrl'')"

definition UpdateKnxDimmerSwitchStatusGrp ::
  "xpath_eval \<Rightarrow> (xnode \<Rightarrow> xnode option) \<Rightarrow> int \<Rightarrow> string cptr \<Rightarrow> xnode option \<Rightarrow> int \<times> xnode option" where
  "UpdateKnxDimmerSwitchStatusGrp eval save priKey = update_file eval save (dimmer_path priKey ''Switch/Status'')"

definition UpdateKnxDimmerBrightnessCtrlGrp ::
  "xpath_eval \<Rightarrow> (xnode \<Rightarrow> xnode option) \<Rightarrow> int \<Rightarrow> string cptr \<Rightarrow> xnode option \<Rightarrow> int \<times> xnode option" where
  "UpdateKnxDimmerBrightnessCtrlGrp eval save priKey = update_file eval save (dimmer_path priKey ''Brightness/Ctrl'')"

definition UpdateKnxDimmerBrightnessStatusGrp ::
  "xpath_eval \<Rightarrow> (xnode \<Rightarrow> xnode option) \<Rightarrow> int \<Rightarrow> string cptr \<Rightarrow> xnode option \<Rightarrow> int \<times> xnode option" where
  "UpdateKnxDimmerBrightnessStatusGrp eval save priKey = update_file eval save (dimmer_path priKey ''Brightness/Status'')"

definition UpdateKnxDimmerGrp ::
  "xpath_eval \<Rightarrow> (xnode \<Rightarrow> xnode option) \<Rightarrow> int \<Rightarrow> string cptr \<Rightarrow> string cptr \<Rightarrow> string cptr \<Rightarrow> string cptr
   \<Rightarrow> xnode option \<Rightarrow> int \<times> xnode option" where
  "UpdateKnxDimmerGrp eval save priKey sc ss bc bs f =
     (let f = snd (UpdateKnxDimmerSwitchCtrlGrp eval save priKey sc f);
          f = snd (UpdateKnxDimmerSwitchStatusGrp eval save priKey ss f);
          f = snd (UpdateKnxDimmerBrightnessCtrlGrp eval save priKey bc f);
          f = snd (UpdateKnxDimmerBrightnessStatusGrp eval save priKey bs f)
      in (0, f))"

text \<open>What the effects of a handler do to the file.\<close>

fun file_after :: "xpath_eval \<Rightarrow> (xnode \<Rightarrow> xnode option) \<Rightarrow> elog \<Rightarrow> xnode option \<Rightarrow> xnode option" where
  "file_after eval save [] f = f"
| "file_after eval save (e # es) f =
     file_after eval save es
       (case e of
          UpdateMode nr chl v \<Rightarrow> snd (UpdateKnxSmartPanelMode eval save nr (int chl) (Ptr v) f)
        | _ \<Rightarrow> f)"

subsection \<open>One node changes\<close>

lemma kids_put [simp]: "x_kids (put_kids ks (Elem nm as cs')) = ks" "x_name (put_kids ks n) = x_name n" "x_attrs (put_kids ks n) = x_attrs n"
  by (simp_all, (cases n; simp)+)

lemma set_content_name [simp]: "x_name (set_content v p n) = x_name n" "x_attrs (set_content v p n) = x_attrs n"
  by (cases "(v, p, n)" rule: set_content.cases; simp)+

lemma kids_set_content:
  "i < length (x_kids n) \<Longrightarrow> x_kids (set_content v (i # p) n) = (x_kids n)[i := set_content v p (x_kids n ! i)]"
  by (cases n) simp_all

lemma set_content_at: "xnode_at n p = Some (Elem nm as ks) \<Longrightarrow>
   xnode_at (set_content v p n) p = Some (Elem nm as (if v = [] then [] else [Leaf ''text'' (Ptr v)]))"
proof (induction p arbitrary: n)
  case (Cons i p)
  then show ?case by (auto simp: kids_set_content simp del: set_content.simps split: if_splits)
qed simp

text \<open>What is neither the changed node nor inside it is the same, but for the changed node inside it.\<close>

lemma set_content_elsewhere:
  "\<not> prefix p q \<Longrightarrow> \<not> prefix q p \<Longrightarrow> xnode_at (set_content v p n) q = xnode_at n q"
proof (induction p arbitrary: n q)
  case (Cons i p)
  then obtain j q' where q: "q = j # q'" by (cases q) auto
  show ?case
  proof (cases "i < length (x_kids n)")
    case True
    then show ?thesis using Cons by (auto simp: q kids_set_content nth_list_update simp del: set_content.simps)
  next
    case False
    then show ?thesis by (simp add: q)
  qed
qed simp

subsection \<open>The meaning of the path\<close>

text \<open>
  The places that a path of child steps selects, with the two predicates of \<open>mode_path\<close>: an element with
  a child \<open>PrimaryKey\<close> whose text is a number, and the \<open>k\<close>-th of the children with one name.
\<close>

definition kids_named :: "string \<Rightarrow> xnode \<Rightarrow> nat list" where
  "kids_named nm n = filter (\<lambda>i. case x_kids n ! i of Elem nm' _ _ \<Rightarrow> nm' = nm | Leaf _ _ \<Rightarrow> False) [0..<length (x_kids n)]"

definition step_to :: "string \<Rightarrow> xnode \<Rightarrow> nat list list \<Rightarrow> nat list list" where
  "step_to nm doc ps = concat (map (\<lambda>p. case xnode_at doc p of None \<Rightarrow> [] | Some n \<Rightarrow> map (\<lambda>i. p @ [i]) (kids_named nm n)) ps)"

definition step_nth :: "string \<Rightarrow> nat \<Rightarrow> xnode \<Rightarrow> nat list list \<Rightarrow> nat list list" where
  "step_nth nm k doc ps =
     concat (map (\<lambda>p. case xnode_at doc p of None \<Rightarrow> []
       | Some n \<Rightarrow> let is' = kids_named nm n in if 0 < k \<and> k \<le> length is' then [p @ [is' ! (k - 1)]] else []) ps)"

definition has_key :: "xnode \<Rightarrow> nat \<Rightarrow> nat list \<Rightarrow> bool" where
  "has_key doc key p =
     (case xnode_at doc p of None \<Rightarrow> False
      | Some n \<Rightarrow> list_ex (\<lambda>i. x_kids (x_kids n ! i) = [Leaf ''text'' (Ptr (dec key))]) (kids_named ''PrimaryKey'' n))"

definition panel_cells :: "xnode \<Rightarrow> nat list list" where
  "panel_cells doc =
     (if x_name doc = ''Device'' then step_to ''Cell'' doc (step_to ''SmartPanel'' doc (step_to ''KNX'' doc [[]])) else [])"

definition mode_nodes :: "xnode \<Rightarrow> nat \<Rightarrow> nat \<Rightarrow> nat list list" where
  "mode_nodes doc key chl =
     step_to ''select'' doc (step_to ''mode'' doc (step_nth ''channel'' chl doc (filter (has_key doc key) (panel_cells doc))))"

subsection \<open>A description of smart panels\<close>

record chan_desc =
  ch_ctrl :: string
  ch_status :: string
  ch_point :: nat
  ch_addr :: string
  ch_value :: nat
  ch_scene_point :: nat
  ch_scene :: bool
  ch_mode_point :: nat

type_synonym panel_desc = "nat \<times> chan_desc list"

definition mode_text :: "bool \<Rightarrow> string" where
  "mode_text b = (if b then ''scene'' else ''switch'')"

definition mode_el :: "chan_desc \<Rightarrow> xnode" where
  "mode_el c = Elem ''mode'' [] [text_el ''select'' (mode_text (ch_scene c)), text_el ''DataPoint'' (dec (ch_mode_point c))]"

definition chan_node :: "chan_desc \<Rightarrow> xnode" where
  "chan_node c = Elem ''channel'' []
     [Elem ''switch'' [] [text_el ''Ctrl'' (ch_ctrl c), text_el ''Status'' (ch_status c), text_el ''DataPoint'' (dec (ch_point c))],
      Elem ''scene'' [] [text_el ''addr'' (ch_addr c), text_el ''value'' (dec (ch_value c)), text_el ''DataPoint'' (dec (ch_scene_point c))],
      mode_el c]"

definition panel_node :: "panel_desc \<Rightarrow> xnode" where
  "panel_node d = Elem ''Cell'' [] (text_el ''PrimaryKey'' (dec (fst d)) # map chan_node (snd d))"

definition panels_doc :: "panel_desc list \<Rightarrow> xnode" where
  "panels_doc ds = Elem ''Device'' [] [Elem ''KNX'' [] [Elem ''SmartPanel'' [] (map panel_node ds)]]"

text \<open>The description with the mode of one channel changed.\<close>

definition set_mode :: "nat \<Rightarrow> nat \<Rightarrow> bool \<Rightarrow> panel_desc list \<Rightarrow> panel_desc list" where
  "set_mode j i b ds = ds[j := (fst (ds ! j), (snd (ds ! j))[i := (snd (ds ! j) ! i)\<lparr>ch_scene := b\<rparr>])]"

lemma x_kids_text [simp]: "x_kids (text_el nm s) = [Leaf ''text'' (Ptr s)]"
  by (simp add: text_el_def)

lemma panel_kids [simp]:
  "x_kids (panel_node d) = text_el ''PrimaryKey'' (dec (fst d)) # map chan_node (snd d)"
  "x_kids (chan_node c) ! 2 = mode_el c" "length (x_kids (chan_node c)) = 3" "x_kids (mode_el c) ! 0 = text_el ''select'' (mode_text (ch_scene c))"
  "length (x_kids (mode_el c)) = 2"
  by (simp_all add: panel_node_def chan_node_def mode_el_def)

lemma panels_at: "j < length ds \<Longrightarrow> xnode_at (panels_doc ds) [0, 0, j] = Some (panel_node (ds ! j))"
  by (simp add: panels_doc_def)

lemma chan_at: "j < length ds \<Longrightarrow> i < length (snd (ds ! j)) \<Longrightarrow> xnode_at (panels_doc ds) [0, 0, j, Suc i] = Some (chan_node (snd (ds ! j) ! i))"
  by (simp add: panels_doc_def)

lemma mode_at:
  "j < length ds \<Longrightarrow> i < length (snd (ds ! j)) \<Longrightarrow> xnode_at (panels_doc ds) [0, 0, j, Suc i, 2] = Some (mode_el (snd (ds ! j) ! i))"
  by (simp add: panels_doc_def)

lemma filter_one: "j < n \<Longrightarrow> filter (\<lambda>k. k = j) [0..<n] = [j]"
  by (induction n) (auto simp: filter_empty_conv less_Suc_eq)

lemma named_cells: "kids_named ''Cell'' (Elem nm as (map panel_node ds)) = [0..<length ds]"
  unfolding kids_named_def by (simp add: panel_node_def filter_id_conv)

lemma named_key: "kids_named ''PrimaryKey'' (panel_node d) = [0]"
proof -
  have "filter (\<lambda>i. case (text_el ''PrimaryKey'' (dec (fst d)) # map chan_node (snd d)) ! i of Elem nm' _ _ \<Rightarrow> nm' = ''PrimaryKey'' | Leaf _ _ \<Rightarrow> False)
      (map Suc [0..<length (snd d)]) = []"
    by (auto simp: filter_empty_conv chan_node_def)
  then show ?thesis unfolding kids_named_def by (simp add: upt_conv_Cons map_Suc_upt text_el_def del: upt_Suc)
qed

lemma named_channels: "kids_named ''channel'' (panel_node d) = map Suc [0..<length (snd d)]"
proof -
  have "filter (\<lambda>i. case (text_el ''PrimaryKey'' (dec (fst d)) # map chan_node (snd d)) ! i of Elem nm' _ _ \<Rightarrow> nm' = ''channel'' | Leaf _ _ \<Rightarrow> False)
      (map Suc [0..<length (snd d)]) = map Suc [0..<length (snd d)]"
    by (auto simp: filter_id_conv chan_node_def)
  then show ?thesis unfolding kids_named_def by (simp add: upt_conv_Cons map_Suc_upt text_el_def del: upt_Suc)
qed

lemma named_mode: "kids_named ''mode'' (chan_node c) = [2]" "kids_named ''select'' (mode_el c) = [0]"
  by (simp_all add: kids_named_def chan_node_def mode_el_def text_el_def upt_rec numeral_2_eq_2)

lemma panel_cells_doc: "panel_cells (panels_doc ds) = map (\<lambda>j. [0, 0, j]) [0..<length ds]"
proof -
  have "kids_named ''KNX'' (panels_doc ds) = [0]" "kids_named ''SmartPanel'' (Elem ''KNX'' [] [Elem ''SmartPanel'' [] (map panel_node ds)]) = [0]"
    by (simp_all add: kids_named_def panels_doc_def)
  then show ?thesis by (simp add: panel_cells_def step_to_def named_cells) (simp add: panels_doc_def named_cells)
qed

lemma dec_inject: "dec a = dec b \<longleftrightarrow> a = b"
  using num_val_dec by metis

lemma has_key_doc: "j < length ds \<Longrightarrow> has_key (panels_doc ds) key [0, 0, j] \<longleftrightarrow> fst (ds ! j) = key"
  using panels_at [of j ds] by (simp add: has_key_def named_key dec_inject)

lemma mode_nodes_doc:
  assumes "distinct (map fst ds)" and "j < length ds" and "i < length (snd (ds ! j))"
  shows "mode_nodes (panels_doc ds) (fst (ds ! j)) (Suc i) = [[0, 0, j, Suc i, 2, 0]]"
proof -
  have "filter (has_key (panels_doc ds) (fst (ds ! j))) (panel_cells (panels_doc ds)) = map (\<lambda>j. [0, 0, j]) (filter (\<lambda>k. fst (ds ! k) = fst (ds ! j)) [0..<length ds])"
    unfolding panel_cells_doc filter_map by (rule arg_cong [where f = "map _"], rule filter_cong) (simp_all add: has_key_doc)
  also have "filter (\<lambda>k. fst (ds ! k) = fst (ds ! j)) [0..<length ds] = filter (\<lambda>k. k = j) [0..<length ds]"
    using assms(1,2) by (intro filter_cong) (auto simp: distinct_conv_nth)
  also have "\<dots> = [j]" using assms(2) by (rule filter_one)
  finally have 1: "filter (has_key (panels_doc ds) (fst (ds ! j))) (panel_cells (panels_doc ds)) = [[0, 0, j]]" by simp
  have 2: "step_nth ''channel'' (Suc i) (panels_doc ds) [[0, 0, j]] = [[0, 0, j, Suc i]]"
    using panels_at [OF assms(2)] assms(3) by (simp add: step_nth_def named_channels)
  show ?thesis using chan_at [OF assms(2,3)] mode_at [OF assms(2,3)] unfolding mode_nodes_def 1 2 by (simp add: step_to_def named_mode)
qed

subsection \<open>Writing and reading a mode\<close>

lemma set_content_doc:
  assumes "j < length ds" and "i < length (snd (ds ! j))"
  shows "set_content (mode_text b) [0, 0, j, Suc i, 2, 0] (panels_doc ds) = panels_doc (set_mode j i b ds)"
proof -
  have "set_content (mode_text b) [2, 0] (chan_node c) = chan_node (c\<lparr>ch_scene := b\<rparr>)" for c
    by (simp add: chan_node_def mode_el_def text_el_def mode_text_def numeral_2_eq_2)
  then have "set_content (mode_text b) [Suc i, 2, 0] (panel_node (ds ! j)) = panel_node (set_mode j i b ds ! j)"
    using assms by (simp add: panel_node_def set_mode_def map_update)
  moreover have "(map panel_node ds)[j := panel_node (set_mode j i b ds ! j)] = map panel_node (set_mode j i b ds)"
    using assms(1) by (simp add: set_mode_def map_update)
  ultimately show ?thesis using assms(1) by (simp add: panels_doc_def)
qed

text \<open>One channel fills one key.\<close>

definition chan_key :: "chan_desc \<Rightarrow> u64 \<Rightarrow> u64 \<Rightarrow> KnxSmartPanelPoint \<Rightarrow> KnxSmartPanelPoint" where
  "chan_key c t t' k =
     Config_Panels.on_key (\<lambda>p. p\<lparr>kp_pCtrl := Ptr (take EIB_ADDR (ch_ctrl c)), kp_pFeedback := Ptr (take EIB_ADDR (ch_status c)),
         kp_timestamp := t, kp_id := of_nat (ch_point c)\<rparr>)
       (on_scene (\<lambda>p. (set_pv_u8 (of_nat (ch_value c)) (p\<lparr>kp_pCtrl := Ptr (take EIB_ADDR (ch_addr c)), kp_timestamp := t'\<rparr>))
           \<lparr>kp_id := of_nat (ch_scene_point c)\<rparr>)
         (on_mode (\<lambda>p. (set_pv_u8 (if ch_scene c then 1 else 0) p)\<lparr>kp_id := of_nat (ch_mode_point c)\<rparr>) k))"

definition chan_ok :: "chan_desc \<Rightarrow> bool" where
  "chan_ok c \<longleftrightarrow> ch_point c < 2 ^ 31 \<and> ch_value c < 2 ^ 31 \<and> ch_scene_point c < 2 ^ 31 \<and> ch_mode_point c < 2 ^ 31"

lemma upd_key_upd_key: "upd_key f (upd_key g c) = upd_key (\<lambda>k. f (g k)) c" "km_keySum (kc_body (upd_key f c)) = km_keySum (kc_body c)"
  by (simp_all add: upd_key_def Let_def)

lemma mode_select_text: "mode_select (text_el nm (mode_text b)) c = Done (upd_key (on_mode (set_pv_u8 (if b then 1 else 0))) c)"
  by (simp add: mode_select_def mode_text_def)

lemma chan_read:
  assumes "chan_ok c"
  shows "smart_channel tm tm' (chan_node c) k =
    Done (next_key (upd_key (chan_key c (tm (km_keySum (kc_body k))) (tm' (km_keySum (kc_body k)))) k))"
proof -
  have n: "num_of (dec (ch_point c)) = (int (ch_point c), False)" "num_of (dec (ch_value c)) = (int (ch_value c), False)"
      "num_of (dec (ch_scene_point c)) = (int (ch_scene_point c), False)" "num_of (dec (ch_mode_point c)) = (int (ch_mode_point c), False)"
    using assms by (simp_all add: chan_ok_def num_of_dec)
  have "upd_key f k = upd_key g k" if "\<And>x. f x = g x" for f g :: "KnxSmartPanelPoint \<Rightarrow> KnxSmartPanelPoint"
    using that by (simp add: upd_key_def)
  note ext = this
  show ?thesis
    unfolding smart_channel_def chan_node_def mode_el_def
    by (cases "ch_scene c"; simp add: nested_def ctrl_of_def timed_status_of_def timed_ctrl_of_def id_of_def scene_value_def
          num_tag_def n mode_select_text upd_key_upd_key;
        rule arg_cong [where f = next_key]; rule ext;
        simp add: chan_key_def Config_Panels.on_key_def on_scene_def on_mode_def set_pv_u8_def)
qed

text \<open>All channels of a panel, and all panels.\<close>

fun fill_keys :: "(nat \<Rightarrow> u64) \<Rightarrow> (nat \<Rightarrow> u64) \<Rightarrow> chan_desc list \<Rightarrow> KnxSmartPanelPoint keymem kconf \<Rightarrow> KnxSmartPanelPoint keymem kconf" where
  "fill_keys tm tm' [] k = k"
| "fill_keys tm tm' (c # chs) k =
     fill_keys tm tm' chs (next_key (upd_key (chan_key c (tm (km_keySum (kc_body k))) (tm' (km_keySum (kc_body k)))) k))"

lemma chans_read: "list_all chan_ok chs \<Longrightarrow> siblings (smart_tags tm tm') (map chan_node chs) k = Done (fill_keys tm tm' chs k)"
proof (induction chs arbitrary: k)
  case (Cons c chs)
  have "on_tag (smart_tags tm tm') (chan_node c) k = smart_channel tm tm' (chan_node c) k"
    by (simp add: smart_tags_def chan_node_def)
  with Cons show ?case by (simp add: chan_read)
qed simp

lemma fill_frame: "kc_base (fill_keys tm tm' chs k) = kc_base k \<and> kc_pPrimaryKey (fill_keys tm tm' chs k) = kc_pPrimaryKey k
    \<and> kc_pForeignKey (fill_keys tm tm' chs k) = kc_pForeignKey k"
  by (induction chs arbitrary: k) (simp_all add: next_key_def upd_key_def Let_def)

lemma fill_body:
  "km_keySum (kc_body (fill_keys tm tm' chs k)) = km_keySum (kc_body k) + length chs
    \<and> (\<forall>n. km_mem (kc_body (fill_keys tm tm' chs k)) n =
        (let s = km_keySum (kc_body k) in
         if s \<le> n \<and> n < s + length chs then chan_key (chs ! (n - s)) (tm n) (tm' n) (km_mem (kc_body k) n) else km_mem (kc_body k) n))"
proof (induction chs arbitrary: k)
  case (Cons c chs)
  show ?case
    unfolding fill_keys.simps using Cons.IH [of "next_key (upd_key (chan_key c (tm (km_keySum (kc_body k))) (tm' (km_keySum (kc_body k)))) k)"]
    by (auto simp: next_key_def upd_key_def Let_def nth_Cons' Suc_diff_le)
qed (auto simp: Let_def)

definition panel_dev ::
  "string \<Rightarrow> (nat \<Rightarrow> nat \<Rightarrow> u64) \<Rightarrow> (nat \<Rightarrow> nat \<Rightarrow> u64) \<Rightarrow> (nat \<Rightarrow> nat \<Rightarrow> KnxSmartPanelPoint) \<Rightarrow> nat \<Rightarrow> panel_desc \<Rightarrow> knx_body kconf" where
  "panel_dev mac tm tm' junk i d =
     (let k = fill_keys (tm i) (tm' i) (snd d)
            ((new_kconf ''Panel'' 0 False \<lparr>km_keySum = 0, km_mem = junk i\<rparr>)\<lparr>kc_pPrimaryKey := Ptr (dec (fst d)), kc_pForeignKey := NULL\<rparr>)
      in with_body (\<lambda>m. SmartPanel (key_list m))
           (set_key mac (dec (fst d))
             (upd_kel (\<lambda>e. e\<lparr>el_primaryType := device_code KNX_MISC_PANEL_ONE_KEY + length (snd d) - 1\<rparr>) k)))"

lemma panel_dev_body:
  "kc_body (panel_dev mac tm tm' junk i d) =
     SmartPanel (map (\<lambda>n. chan_key (snd d ! n) (tm i n) (tm' i n) (junk i n)) [0..<length (snd d)])"
  unfolding panel_dev_def Let_def
  by (simp add: with_body_def set_key_def upd_kel_def key_list_def fill_body new_kconf_def)

lemma panel_dev_key: "el_pPrimaryKey (kc_element (panel_dev mac tm tm' junk i d)) = make_key mac DEVICE_TYPE_KNX (dec (fst d))"
  unfolding panel_dev_def Let_def by (simp add: with_body_def set_key_def upd_kel_def fill_frame)

lemma panels_read:
  assumes "list_all (\<lambda>d. list_all chan_ok (snd d)) ds"
  shows "ParseKnxSmartPanelCfg mac tm tm' junk (\<lambda>_. True) (Ptr (map panel_node ds)) (Ptr lst)
    = Done (0, Ptr (lst @ map (\<lambda>(i, d). panel_dev mac tm tm' junk i d) (zip [0..<length ds] ds)))"
proof -
  let ?start = "\<lambda>i (pk, fk). Some ((new_kconf ''Panel'' 0 False \<lparr>km_keySum = 0, km_mem = junk i\<rparr>)\<lparr>kc_pPrimaryKey := pk, kc_pForeignKey := fk\<rparr>)"
  let ?carry = "\<lambda>c. (kc_pPrimaryKey c, kc_pForeignKey c)" and ?fin = "finish_keys mac KNX_MISC_PANEL_ONE_KEY SmartPanel"
  let ?dev = "\<lambda>(i, d). panel_dev mac tm tm' junk i d"
  have "read_devices (\<lambda>i. smart_tags (tm i) (tm' i)) ?start ?carry ?fin i (pk, NULL) (map panel_node ds) lst
      = Done (lst @ map ?dev (zip [i..<i + length ds] ds))" for i pk
    using assms
  proof (induction ds arbitrary: i pk lst)
    case (Cons d ds)
    let ?c = "\<lambda>pk. (new_kconf ''Panel'' 0 False \<lparr>km_keySum = 0, km_mem = junk i\<rparr>)\<lparr>kc_pPrimaryKey := pk, kc_pForeignKey := NULL\<rparr>"
    let ?k = "fill_keys (tm i) (tm' i) (snd d) (?c (Ptr (dec (fst d))))"
    have "siblings (smart_tags (tm i) (tm' i)) (x_kids (panel_node d)) (?c pk) = Done ?k"
      using Cons.prems by (simp add: chans_read) (simp add: smart_tags_def later_key_tag_def chans_read [unfolded smart_tags_def] new_kconf_def)
    moreover have "?fin ?k = Done (panel_dev mac tm tm' junk i d)"
      by (simp add: finish_keys_def Let_def fill_frame fill_body kfinish_foreign_def panel_dev_def set_key_def upd_kel_def with_body_def new_kconf_def)
    moreover have "zip [i..<i + length (d # ds)] (d # ds) = (i, d) # zip [Suc i..<Suc i + length ds] ds"
      by (simp add: upt_conv_Cons del: upt_Suc)
    ultimately show ?case using Cons by (simp add: fill_frame)
  qed simp
  from this [of 0 NULL] show ?thesis by (simp add: ParseKnxSmartPanelCfg_def parse_keys_def parse_devices_def)
qed

subsection \<open>Properties\<close>

text \<open>
  What the evaluator has to do on the documents of smart panels: a path selects what its steps
  select.
\<close>

definition cells_path :: string where "cells_path = ''/Device/KNX/SmartPanel/Cell''"

definition child_paths :: "xpath_eval \<Rightarrow> bool" where
  "child_paths eval \<longleftrightarrow>
     (\<forall>ds. eval (panels_doc ds) cells_path = Some (panel_cells (panels_doc ds)))
     \<and> (\<forall>ds key chl. eval (panels_doc ds) (mode_path (int key) (int chl)) = Some (mode_nodes (panels_doc ds) key chl))"

definition nodes_of :: "xnode \<Rightarrow> nat list list \<Rightarrow> xnode list" where
  "nodes_of doc ps = map (\<lambda>p. the (xnode_at doc p)) ps"

lemma nodes_doc: "nodes_of (panels_doc ds) (panel_cells (panels_doc ds)) = map panel_node ds"
  by (rule nth_equalityI) (simp_all add: nodes_of_def panel_cells_doc panels_at del: xnode_at.simps)

lemma update_mode_doc:
  assumes "child_paths eval" and "distinct (map fst ds)" and "j < length ds" and "i < length (snd (ds ! j))" and "i < 8" and "fst (ds ! j) < 2 ^ 31"
  shows "UpdateKnxSmartPanelMode eval save (int (fst (ds ! j))) (int (Suc i)) (Ptr (mode_text b)) (Some (panels_doc ds))
    = (0, save (panels_doc (set_mode j i b ds)))"
proof -
  have "length (dec (fst (ds ! j))) \<le> 10" "length (dec (Suc i)) \<le> 1"
    using assms(5,6) by (auto intro!: length_dec [of _ 9, simplified] length_dec [of _ 0, simplified])
  then have "take 127 (mode_path (int (fst (ds ! j))) (int (Suc i))) = mode_path (int (fst (ds ! j))) (int (Suc i))"
    by (simp add: mode_path_def dec_int_def nat_add_distrib)
  then show ?thesis
    using assms(1) mode_nodes_doc [OF assms(2-4)] set_content_doc [OF assms(3,4)]
    unfolding UpdateKnxSmartPanelMode_def update_file_def child_paths_def
    by (simp add: XmlGetNode_def XmlUpdateNode_def del: set_content.simps of_nat_Suc)
qed

lemma strtol_dec: "n < 2 ^ 31 \<Longrightarrow> strtol (dec n) = Some (int n, False)"
proof -
  assume n: "n < 2 ^ 31"
  obtain d ds where d: "dec n = dig_char d # ds" "d < 10" by (rule dec_head)
  then have "dropWhile is_space (dec n) = dec n" by simp
  moreover have "scan_num 10 (dec n) = Some (int n, length (dec n))" using scan_num_dec [of "[]" n] by simp
  ultimately show ?thesis using n by (simp add: strtol_def)
qed

lemma pv_set [simp]: "pv_u8 (set_pv_u8 v p) = v" "pv_u8 (p\<lparr>kp_id := n\<rparr>) = pv_u8 p"
proof -
  have m: "(0xFF :: u32) = mask 8" by (simp add: mask_eq_exp_minus_1)
  show "pv_u8 (set_pv_u8 v p) = v" unfolding pv_u8_def set_pv_u8_def m
    by (rule bit_word_eqI) (auto simp: bit_simps)
qed (simp add: pv_u8_def)

lemma hit_iff: "(ucast (x :: u16) :: u32) = ucast (y :: u8) \<longleftrightarrow> x = ucast y"
  by (simp add: word_uint_eq_iff uint_up_ucast is_up)

text \<open>A request for the mode of a channel.\<close>

lemma smart_key_mode:
  assumes "kp_id (KnxSmartPanelPoint.sp_key c) \<noteq> ucast (dpid (kw_obj kw))" and "kp_id (sp_scene c) \<noteq> ucast (dpid (kw_obj kw))"
    and "kp_id (sp_mode c) = ucast (dpid (kw_obj kw))" and "13 \<le> length key" and "drop 13 key = dec n" and "n < 2 ^ 31"
    and "b \<longleftrightarrow> (ucast (dp_raw (kw_obj kw)) :: u8) \<noteq> 0"
  shows "\<exists>c' r. smart_key ev key kw i c ret lg
    = Some (Returned, c', 0, lg @ [UpdateMode (int n) (Suc i) (mode_text b), CloudReport (kw_pPrimaryKey kw) r])"
  using assms strtol_dec [OF assms(6)]
  by (simp add: smart_key_def hit_iff cloud_report_def Let_def mode_text_def)


text \<open>An evaluator that reads the two numbers of the path and follows its steps.\<close>

definition sample_eval :: xpath_eval where
  "sample_eval doc path =
     (if path = cells_path then Some (panel_cells doc)
      else
        (let r = drop 39 path;
             key = takeWhile (\<lambda>c. c \<noteq> CHR '']'') r;
             chl = takeWhile (\<lambda>c. c \<noteq> CHR '']'') (drop (length key + 10) r)
         in Some (mode_nodes doc (num_val 10 key) (num_val 10 chl))))"

lemma take_dec: "takeWhile (\<lambda>c. c \<noteq> CHR '']'') (dec n @ CHR '']'' # s) = dec n"
proof -
  have "dig_char d \<noteq> CHR '']''" if "d < 10" for d
  proof
    assume "dig_char d = CHR '']''"
    then have "of_char (dig_char d) = (93 :: nat)" by simp
    with that show False by (simp add: of_dig_char)
  qed
  then have "\<forall>c \<in> set (dec n). c \<noteq> CHR '']''" using dec_digits [of n] by fastforce
  then show ?thesis by (simp add: takeWhile_append2)
qed

lemma sample_eval_ok: "child_paths sample_eval"
proof -
  have "mode_path (int key) (int chl) \<noteq> cells_path" for key chl by (simp add: mode_path_def cells_path_def)
  moreover have "drop 39 (mode_path (int key) (int chl)) = dec key @ CHR '']'' # ''/channel['' @ dec chl @ CHR '']'' # ''/mode/select''" for key chl
    by (simp add: mode_path_def dec_int_def)
  ultimately show ?thesis unfolding child_paths_def sample_eval_def Let_def by (simp add: take_dec)
qed

definition sample_chan :: chan_desc where
  "sample_chan = \<lparr>ch_ctrl = ''1/0/1'', ch_status = ''2/0/1'', ch_point = 1, ch_addr = ''3/0/1'', ch_value = 4, ch_scene_point = 2,
     ch_scene = False, ch_mode_point = 3\<rparr>"


end
