(* ===== verification/Upgrade.thy ===== *)
theory Upgrade
  imports Gateway_Prelude
begin

text \<open>
  The upgrade of the program with two slots, \<open>source/upgrade.c\<close>.

  \<^item> The program and its plugins are in \<open>bin_A\<close>, \<open>plugin_A\<close> or \<open>bin_B\<close>, \<open>plugin_B\<close> under \<open>/opt/smarthome\<close>; the links
    \<open>bin\<close> and \<open>plugin\<close> say which are in use. A directory maps file names to contents.
  \<^item> Each call of \<open>system\<close> is one step on the file system. A power failure leaves the file system
    as it is after some number of steps.
  \<^item> The archive program and the new program are parameters: what an image contains, or that it
    cannot be extracted, and which contents of \<open>smarthome\<close> run with \<open>-v\<close> and pass the test \<open>-t\<close>.
  \<^item> \<open>ln -sfn\<close> replaces a link; on a directory it makes a link inside the directory, which stays
    in use.
\<close>

subsection \<open>The file system\<close>

datatype slot_name = SlotA | SlotB

fun other_slot :: "slot_name \<Rightarrow> slot_name" where
  "other_slot SlotA = SlotB" | "other_slot SlotB = SlotA"

type_synonym dir = "string \<rightharpoonup> string"

datatype fs_entry = LinkTo slot_name | LinkElsewhere | Directory dir

record fs =
  fs_bin :: fs_entry
  fs_plugin :: fs_entry
  fs_slot_bin :: "slot_name \<Rightarrow> dir"
  fs_slot_plugin :: "slot_name \<Rightarrow> dir"
  fs_upgrade_bin :: dir
  fs_upgrade_plugin :: dir
  fs_flag :: bool

record upgrade_env =
  ue_tar :: "string \<Rightarrow> (dir \<times> dir) option"
  ue_version :: "string \<Rightarrow> bool"
  ue_test :: "string \<Rightarrow> bool"

definition ln_sfn :: "slot_name \<Rightarrow> fs_entry \<Rightarrow> fs_entry" where
  "ln_sfn s e = (case e of Directory d \<Rightarrow> Directory d | _ \<Rightarrow> LinkTo s)"

text \<open>The static variable \<open>slot\<close> keeps its value when the link says nothing.\<close>

definition get_active_slot :: "slot_name \<Rightarrow> fs \<Rightarrow> slot_name" where
  "get_active_slot slot f = (case fs_bin f of LinkTo s \<Rightarrow> s | LinkElsewhere \<Rightarrow> slot | Directory _ \<Rightarrow> slot)"

definition link_bin :: "slot_name \<Rightarrow> fs \<Rightarrow> fs" where
  "link_bin s f = f\<lparr>fs_bin := ln_sfn s (fs_bin f)\<rparr>"

definition link_plugin :: "slot_name \<Rightarrow> fs \<Rightarrow> fs" where
  "link_plugin s f = f\<lparr>fs_plugin := ln_sfn s (fs_plugin f)\<rparr>"

definition rollback_to_previous :: "fs \<Rightarrow> fs" where
  "rollback_to_previous f =
     (case fs_bin f of
        Directory _ \<Rightarrow> f
      | LinkTo SlotA \<Rightarrow> link_plugin SlotB (link_bin SlotB f)
      | _ \<Rightarrow> link_plugin SlotA (link_bin SlotA f))"

definition bin_dir :: "fs \<Rightarrow> dir" where
  "bin_dir f = (case fs_bin f of LinkTo s \<Rightarrow> fs_slot_bin f s | LinkElsewhere \<Rightarrow> Map.empty | Directory d \<Rightarrow> d)"

definition runs :: "(string \<Rightarrow> bool) \<Rightarrow> dir \<Rightarrow> bool" where
  "runs ok d = (case d ''smarthome'' of None \<Rightarrow> False | Some c \<Rightarrow> ok c)"

definition self_check_ok :: "upgrade_env \<Rightarrow> fs \<Rightarrow> bool" where
  "self_check_ok u f = runs (ue_test u) (bin_dir f)"

text \<open>The result tells whether the gateway is rebooted.\<close>

definition check_rollback :: "upgrade_env \<Rightarrow> fs \<Rightarrow> bool \<times> fs" where
  "check_rollback u f =
     (if \<not> fs_flag f then (False, f)
      else if \<not> self_check_ok u f then (True, (rollback_to_previous f)\<lparr>fs_flag := False\<rparr>)
      else (False, f\<lparr>fs_flag := False\<rparr>))"

subsection \<open>The upgrade\<close>

text \<open>A step that fails (\<^term>\<open>None\<close>) makes the callback return.\<close>

definition clean_slot :: "slot_name \<Rightarrow> fs \<Rightarrow> fs option" where
  "clean_slot t f = Some (f\<lparr>fs_slot_bin := (fs_slot_bin f)(t := Map.empty), fs_slot_plugin := (fs_slot_plugin f)(t := Map.empty)\<rparr>)"

definition extract_image :: "upgrade_env \<Rightarrow> string \<Rightarrow> fs \<Rightarrow> fs option" where
  "extract_image u img f =
     (case ue_tar u img of
        None \<Rightarrow> None
      | Some (b, p) \<Rightarrow> Some (f\<lparr>fs_upgrade_bin := fs_upgrade_bin f ++ b, fs_upgrade_plugin := fs_upgrade_plugin f ++ p\<rparr>))"

definition copy_bin :: "slot_name \<Rightarrow> fs \<Rightarrow> fs option" where
  "copy_bin t f = Some (f\<lparr>fs_slot_bin := (fs_slot_bin f)(t := fs_slot_bin f t ++ fs_upgrade_bin f)\<rparr>)"

definition copy_plugin :: "slot_name \<Rightarrow> fs \<Rightarrow> fs option" where
  "copy_plugin t f = Some (f\<lparr>fs_slot_plugin := (fs_slot_plugin f)(t := fs_slot_plugin f t ++ fs_upgrade_plugin f)\<rparr>)"

definition verify_new :: "upgrade_env \<Rightarrow> slot_name \<Rightarrow> fs \<Rightarrow> fs option" where
  "verify_new u t f = (if runs (ue_version u) (fs_slot_bin f t) then Some f else None)"

definition upgrade_steps :: "upgrade_env \<Rightarrow> slot_name \<Rightarrow> string \<Rightarrow> (fs \<Rightarrow> fs option) list" where
  "upgrade_steps u active img =
     (let t = (if active = SlotA then SlotB else SlotA)
      in [clean_slot t, extract_image u img, copy_bin t, copy_plugin t, verify_new u t,
          \<lambda>f. Some (link_bin SlotA f), \<lambda>f. Some (link_plugin SlotA f), \<lambda>f. Some (link_bin t f), \<lambda>f. Some (link_plugin t f),
          \<lambda>f. Some (f\<lparr>fs_flag := True\<rparr>)])"

text \<open>The steps up to the first that fails; the flag tells whether all were made.\<close>

fun run_upgrade :: "(fs \<Rightarrow> fs option) list \<Rightarrow> fs \<Rightarrow> bool \<times> fs" where
  "run_upgrade [] f = (True, f)"
| "run_upgrade (x # xs) f = (case x f of None \<Rightarrow> (False, f) | Some f \<Rightarrow> run_upgrade xs f)"

definition gw_upgrade_cb :: "upgrade_env \<Rightarrow> slot_name \<Rightarrow> string \<Rightarrow> fs \<Rightarrow> bool \<times> fs" where
  "gw_upgrade_cb u slot img f = run_upgrade (upgrade_steps u (get_active_slot slot f) img) f"

text \<open>The file system when the power fails after \<open>k\<close> steps.\<close>

definition interrupted :: "upgrade_env \<Rightarrow> slot_name \<Rightarrow> string \<Rightarrow> nat \<Rightarrow> fs \<Rightarrow> fs" where
  "interrupted u slot img k f = snd (run_upgrade (take k (upgrade_steps u (get_active_slot slot f) img)) f)"

subsection \<open>What every step keeps\<close>

text \<open>
  Seen from the slot \<open>s\<close> that was in use: its directories are as they were, and \<open>bin\<close> leads to it or,
  once the new program was verified, to the other slot, whose program runs.
\<close>

definition slot_kept :: "upgrade_env \<Rightarrow> slot_name \<Rightarrow> fs \<Rightarrow> fs \<Rightarrow> bool" where
  "slot_kept u s f f' \<longleftrightarrow> fs_slot_bin f' s = fs_slot_bin f s \<and> fs_slot_plugin f' s = fs_slot_plugin f s
     \<and> (\<exists>p. fs_plugin f' = LinkTo p)
     \<and> (fs_bin f' = LinkTo s \<or> fs_bin f' = LinkTo (other_slot s) \<and> runs (ue_version u) (fs_slot_bin f' (other_slot s)))"

lemma run_upgrade_append:
  "run_upgrade (xs @ ys) f = (case run_upgrade xs f of (True, f) \<Rightarrow> run_upgrade ys f | (False, f) \<Rightarrow> (False, f))"
  by (induction xs arbitrary: f) (auto split: option.splits)

lemma run_upgrade_keeps:
  assumes "\<And>x g g'. x \<in> set xs \<Longrightarrow> I g \<Longrightarrow> x g = Some g' \<Longrightarrow> I g'" and "I f" and "run_upgrade xs f = (b, f')"
  shows "I f'"
  using assms
proof (induction xs arbitrary: f)
  case (Cons x xs)
  show ?case
  proof (cases "x f")
    case None
    then show ?thesis using Cons.prems by simp
  next
    case (Some f1)
    show ?thesis
    proof (rule Cons.IH)
      show "I f1" by (rule Cons.prems(1) [of x f]) (simp_all add: Cons.prems(2) Some)
      show "run_upgrade xs f1 = (b, f')" using Cons.prems(3) Some by simp
      show "I g'" if "y \<in> set xs" "I g" "y g = Some g'" for y g g'
        by (rule Cons.prems(1) [of y g]) (simp_all add: that)
    qed
  qed
qed simp

text \<open>The steps before the switch do not touch the links; those of the switch touch nothing else.\<close>

definition prepare :: "upgrade_env \<Rightarrow> slot_name \<Rightarrow> string \<Rightarrow> (fs \<Rightarrow> fs option) list" where
  "prepare u t img = [clean_slot t, extract_image u img, copy_bin t, copy_plugin t, verify_new u t]"

definition switch :: "slot_name \<Rightarrow> (fs \<Rightarrow> fs option) list" where
  "switch t = [\<lambda>f. Some (link_bin SlotA f), \<lambda>f. Some (link_plugin SlotA f), \<lambda>f. Some (link_bin t f), \<lambda>f. Some (link_plugin t f),
     \<lambda>f. Some (f\<lparr>fs_flag := True\<rparr>)]"

lemma upgrade_parts: "upgrade_steps u s img = prepare u (other_slot s) img @ switch (other_slot s)"
  by (cases s) (simp_all add: upgrade_steps_def prepare_def switch_def)

lemma other_slot_neq [simp]: "other_slot s \<noteq> s" "s \<noteq> other_slot s" "other_slot (other_slot s) = s"
  by (cases s; simp)+

lemma prepare_step:
  assumes "x \<in> set (prepare u t img)" and "x f = Some f'" and "t \<noteq> s"
  shows "fs_bin f' = fs_bin f \<and> fs_plugin f' = fs_plugin f \<and> fs_flag f' = fs_flag f \<and> fs_slot_bin f' s = fs_slot_bin f s
    \<and> fs_slot_plugin f' s = fs_slot_plugin f s"
  using assms
  by (auto simp: prepare_def clean_slot_def extract_image_def copy_bin_def copy_plugin_def verify_new_def split: option.splits if_splits)

lemma run_prepare:
  assumes "set xs \<subseteq> set (prepare u t img)" and "run_upgrade xs f = (b, f')" and "t \<noteq> s"
  shows "fs_bin f' = fs_bin f \<and> fs_plugin f' = fs_plugin f \<and> fs_flag f' = fs_flag f \<and> fs_slot_bin f' s = fs_slot_bin f s
    \<and> fs_slot_plugin f' s = fs_slot_plugin f s"
  using assms(1,2)
proof (induction xs arbitrary: f)
  case (Cons x xs)
  then show ?case using prepare_step [OF _ _ assms(3), of x u img f] by (cases "x f") auto
qed simp

lemma prepared_runs:
  assumes "run_upgrade (prepare u t img) f = (True, f')"
  shows "runs (ue_version u) (fs_slot_bin f' t)"
  using assms by (auto simp: prepare_def clean_slot_def extract_image_def copy_bin_def copy_plugin_def verify_new_def split: option.splits if_splits)

lemma switch_step:
  assumes "x \<in> set (switch t)" and "x f = Some f'"
  shows "fs_slot_bin f' = fs_slot_bin f \<and> fs_slot_plugin f' = fs_slot_plugin f"
  using assms by (auto simp: switch_def link_bin_def link_plugin_def)

lemma ln_link [simp]: "ln_sfn s (LinkTo t) = LinkTo s"
  by (simp add: ln_sfn_def)

lemma run_switch:
  assumes "set xs \<subseteq> set (switch (other_slot s))" and "runs (ue_version u) (fs_slot_bin f (other_slot s))"
    and "slot_kept u s f0 f" and "run_upgrade xs f = (b, f')"
  shows "slot_kept u s f0 f'"
  using assms
proof (induction xs arbitrary: f)
  case (Cons x xs)
  then obtain f1 where f1: "x f = Some f1" by (cases "x f") (auto simp: switch_def)
  note same = switch_step [of x "other_slot s" f f1, OF _ f1]
  have "slot_kept u s f0 f1"
    using Cons.prems f1 by (cases s) (auto simp: switch_def slot_kept_def link_bin_def link_plugin_def)
  then show ?case using Cons.IH [of f1] Cons.prems f1 same by auto
qed simp

subsection \<open>Properties\<close>

lemma take_parts: "take k (xs @ ys) = take k xs \<or> (\<exists>m. take k (xs @ ys) = xs @ take m ys)"
  by (cases "k \<le> length xs") (auto intro: exI [of _ "k - length xs"])

lemma interrupted_keeps:
  assumes "fs_bin f = LinkTo s" and "fs_plugin f = LinkTo s"
  shows "slot_kept u s f (interrupted u slot img k f)"
proof -
  let ?t = "other_slot s"
  have act: "get_active_slot slot f = s" using assms(1) by (simp add: get_active_slot_def)
  have kept: "slot_kept u s f f'" if "run_upgrade (take n (prepare u ?t img)) f = (b, f')" for n b f'
    using run_prepare [OF set_take_subset that, of s] assms by (simp add: slot_kept_def)
  consider "take k (upgrade_steps u s img) = take k (prepare u ?t img)"
    | m where "take k (upgrade_steps u s img) = prepare u ?t img @ take m (switch ?t)"
    unfolding upgrade_parts using take_parts by blast
  then show ?thesis
  proof cases
    case 1
    then show ?thesis unfolding interrupted_def act by (metis kept prod.collapse)
  next
    case 2
    obtain b f1 where f1: "run_upgrade (prepare u ?t img) f = (b, f1)" by fastforce
    have k1: "slot_kept u s f f1" using kept [of "length (prepare u ?t img)"] f1 by simp
    show ?thesis
    proof (cases b)
      case True
      obtain b2 f2 where f2: "run_upgrade (take m (switch ?t)) f1 = (b2, f2)" by fastforce
      have "slot_kept u s f f2" using run_switch [OF set_take_subset _ k1 f2] prepared_runs f1 True by simp
      then show ?thesis using 2 f1 f2 True by (simp add: interrupted_def act run_upgrade_append)
    next
      case False
      then show ?thesis using 2 f1 k1 by (simp add: interrupted_def act run_upgrade_append)
    qed
  qed
qed


definition sample_fs :: fs where
  "sample_fs = \<lparr>fs_bin = LinkTo SlotA, fs_plugin = LinkTo SlotA, fs_slot_bin = (\<lambda>_. [''smarthome'' \<mapsto> ''old'']), fs_slot_plugin = (\<lambda>_. Map.empty),
     fs_upgrade_bin = Map.empty, fs_upgrade_plugin = Map.empty, fs_flag = False\<rparr>"

definition sample_upgrade :: upgrade_env where
  "sample_upgrade = \<lparr>ue_tar = (\<lambda>_. Some ([''smarthome'' \<mapsto> ''new''], Map.empty)), ue_version = (\<lambda>_. True), ue_test = (\<lambda>c. c = ''old'')\<rparr>"


text \<open>
  Between the two last links the new program is used with the old plugins, and a directory in the
  place of \<open>bin\<close> is never replaced: the upgrade is made to its end without an effect.
\<close>

lemma plugins_behind:
  "fs_bin (interrupted sample_upgrade SlotA ''img'' 8 sample_fs) = LinkTo SlotB \<and> fs_plugin (interrupted sample_upgrade SlotA ''img'' 8 sample_fs) = LinkTo SlotA
    \<and> \<not> fs_flag (interrupted sample_upgrade SlotA ''img'' 8 sample_fs)"
  by (simp add: interrupted_def upgrade_steps_def get_active_slot_def sample_fs_def sample_upgrade_def clean_slot_def extract_image_def
      copy_bin_def copy_plugin_def verify_new_def runs_def link_bin_def link_plugin_def)

lemma directory_not_upgraded:
  assumes "fs_bin f = Directory d" and "gw_upgrade_cb u slot img f = (b, f')"
  shows "fs_bin f' = Directory d"
proof -
  have "fs_bin g' = Directory d" if "x \<in> set (upgrade_steps u s img)" "fs_bin g = Directory d" "x g = Some g'" for x g g' s
    using that by (auto simp: upgrade_steps_def clean_slot_def extract_image_def copy_bin_def copy_plugin_def verify_new_def link_bin_def
        link_plugin_def ln_sfn_def Let_def split: option.splits if_splits)
  then show ?thesis
    using run_upgrade_keeps [of "upgrade_steps u (get_active_slot slot f) img" "\<lambda>g. fs_bin g = Directory d" f b f'] assms
    unfolding gw_upgrade_cb_def by blast
qed

text \<open>Files of an earlier image that the new one does not have are installed with it.\<close>

lemma leftovers_installed:
  assumes "gw_upgrade_cb u slot img f = (True, f')" and "ue_tar u img = Some (b, p)"
  shows "fs_slot_plugin f' (other_slot (get_active_slot slot f)) = fs_upgrade_plugin f ++ p"
proof -
  let ?t = "other_slot (get_active_slot slot f)"
  obtain f1 where f1: "run_upgrade (prepare u ?t img) f = (True, f1)" "run_upgrade (switch ?t) f1 = (True, f')"
    using assms(1) by (auto simp: gw_upgrade_cb_def upgrade_parts run_upgrade_append split: prod.splits bool.splits)
  have "fs_slot_plugin f1 ?t = fs_upgrade_plugin f ++ p"
    using f1(1) assms(2) by (auto simp: prepare_def clean_slot_def extract_image_def copy_bin_def copy_plugin_def verify_new_def split: if_splits)
  moreover have "fs_slot_plugin f' = fs_slot_plugin f1" using f1(2) by (auto simp: switch_def link_bin_def link_plugin_def)
  ultimately show ?thesis by simp
qed

end
