(* ===== verification/Spec2Isabelle.thy ===== *)
theory Spec2Isabelle
  imports Mbus_Acd Mbus_Curtain Knx_Float Dl_List Modbus_Roundtrip Device_Groups Boot Pool_Pause Config_Update Upgrade
begin

text \<open>
  Verification of the HiMax smart-home gateway, a C program that connects Modbus and KNX
  devices of a home to a cloud service.

  \<^bold>\<open>The program.\<close> A cloud request arrives as a data point (\<open>ty_obj_dp_s\<close>). For a Modbus
  device the gateway (\<open>source/modbusHandle.c\<close>) calls the \<open>build\<close> function of the device's
  plugin (\<open>plugin/compile/Mbus_*.c\<close>, \<open>Modbus_*.c\<close>), a shared library, and sends the frame
  it returns over a serial line (\<open>source/serialHandle.c\<close>); the bytes that come back go to the
  plugin's \<open>parse\<close>, and the objects it returns go through a message queue
  (\<open>source/queue.c\<close>) to the thread that reports them to the cloud. For a KNX device the
  gateway (\<open>source/knxHandle.c\<close>) calls the \<open>knx_dev_control\<close> and \<open>knx_dev_report\<close> functions of
  a plugin (\<open>plugin/compile/KNX_*.c\<close>, \<open>knx_*.c\<close>), which translate between cloud values and
  bus values; telegrams from the bus go to a message queue at once or, for configured
  groups, through a debouncing table (\<open>source/point.c\<close>). All long-running tasks are jobs of
  a thread pool (\<open>source/thpool.c\<close>).

  \<^bold>\<open>The theories.\<close>
  \<^item> \<open>Gateway_Prelude\<close>: machine integers, loads and stores on byte buffers, undefined
    behaviour as \<^term>\<open>None\<close>, partial (\<open>post\<close>) and total (\<open>safe\<close>) correctness of steps, and
    the collections of rewrite rules the components use.
  \<^item> \<open>Checksum\<close>: \<open>source/crc16.c\<close>. The table-driven CRC is the bitwise Modbus CRC; it
    detects every change of one byte; the sum and the exclusive or.
  \<^item> \<open>Device_Points\<close>: the enumerations of \<open>source/point.h\<close> and \<open>source/device.h\<close> and their
    names from \<open>source/enum2str.c\<close>.
  \<^item> \<open>Plugin_Api\<close>: the records between gateway and plugins, the helpers of
    \<open>plugin/utils.c\<close>, the idioms all plugins share (allocate a message, append a CRC, search
    the device key in a buffer), and the contracts of plugins as locales: \<open>crc_builder\<close> (what
    is sent ends in its CRC, so that a changed byte is detected), \<open>total_crc_builder\<close> (and
    no run is undefined), \<open>crc_parser\<close> (a corrupted frame is rejected).
  \<^item> \<open>Mbus_Acd\<close>, \<open>Mbus_Climate\<close>, \<open>Mbus_Vent\<close>, \<open>Mbus_Curtain\<close>: the 23 Modbus plugins, one
    definition per \<open>build\<close>, \<open>parse\<close> and validation function, named after the plugin. The
    static caches of a plugin are explicit state. The theorems are round trips (the
    acknowledged frame of a request is parsed as that request), frame formats, memory safety
    of parsers, and the cases in which the code does not do this.
  \<^item> \<open>Knx_Plugins\<close>: ten KNX plugins; modes, speeds and temperatures survive the way to the
    bus and back (locale \<open>knx_codec\<close> for the translation tables), except for negative
    temperatures.
  \<^item> \<open>Knx_Float\<close>: the floor heating \<open>KNX_FloorHeating_STEC.c\<close>, with floating-point operations rounded to
    \<open>float\<close> and \<open>double\<close>; an operation gives a nearest number of its format, and half degrees
    survive the way to the bus and back.
  \<^item> \<open>Linked_Heap\<close>: singly linked cells in an explicit heap, and the contract \<open>fifo\<close> of a
    first-in first-out queue with the lemma that every interleaving of writers and readers
    refines the same interleaving on a list.
  \<^item> \<open>Msg_Queue\<close>: \<open>source/queue.c\<close> and \<open>source/queue_internal.c\<close>, every operation on the
    explicit heap; refinement to lists, capacity, sorted insertion, waiting, release of
    memory, and the dangling pointer that a filtered removal leaves behind.
  \<^item> \<open>Job_Pool\<close>: \<open>source/thpool.c\<close>, the job queue and the workers as a step relation; in
    every interleaving each job runs exactly once, \<open>thpool_wait\<close> is right, no wake-up is
    lost, and the pool drains.
  \<^item> \<open>Pool_Pause\<close>: pausing and resuming the threads by signals; a paused pool only reaches states of
    the pool, and a signal that arrives after the resumption stops its thread.
  \<^item> \<open>Knx_Debounce\<close>: \<open>source/point.c\<close> and the dispatch of telegrams in \<open>knxHandle.c\<close>: a burst
    of telegrams is handed on once, with its last value (locale \<open>group_table\<close>).
  \<^item> \<open>Dl_List\<close>: \<open>source/list.c\<close>, every operation on an explicit heap of nodes; sequences of
    edits refine edits of a list (locale \<open>simulation\<close>), iteration with deletion ends, indexing,
    searching and duplication.
  \<^item> \<open>Knx_Telegram\<close>: the addresses and the parser of monitor lines in \<open>source/knxHandle.c\<close>, with the
    part of \<open>sscanf\<close>, \<open>strstr\<close> and \<open>memcpy\<close> they use; round trips of addresses and lines, and the
    lines on which the parser leaves its objects.
  \<^item> \<open>Knx_Devices\<close>: the devices of the KNX bus and the handlers that carry out a request
    (\<open>Knx_AirconditionCtrl\<close> to \<open>Knx_CurtainCtrl\<close>, \<open>KNX_DevWriteEntry\<close>, \<open>KnxGroupWrite\<close>). What a handler does
    outside is a log of effects; the results of the bus daemon and the cloud are an environment
    that depends on the log. Relations between logs are proved once in the locale \<open>handler_log\<close>.
  \<^item> \<open>Knx_Reports\<close>: the handlers that take a telegram (\<open>Knx_AcdReport\<close> to \<open>Knx_CurtainReport\<close>,
    \<open>KNX_DevMonitorEntry\<close>, \<open>KNX_BusMonitorEntry\<close>): what is stored and what is passed on to the cloud or
    to a Modbus device.
  \<^item> \<open>Knx_Service\<close>: reading groups, synchronisation, heartbeats, start and watchdog of the threads;
    no connection to the daemon is left open but by reading a group.
  \<^item> \<open>Modbus_Handle\<close>: \<open>source/modbusHandle.c\<close>, writing a data point, the monitor with its change
    detection, heartbeats and polling; what is sent, what is passed on and how often, and that
    serial ports are given back.
  \<^item> \<open>Serial_Port\<close>: \<open>source/serialHandle.c\<close>, the attributes of a line, the mutexes of the lines as a
    step relation over all port objects, and the receiving thread.
  \<^item> \<open>Modbus_Roundtrip\<close>: a request of the cloud from the plugin over the line and back to the cloud,
    for every plugin that satisfies the contract \<open>confirming_plugin\<close>.
  \<^item> \<open>Di_Scan\<close>: the scan of the digital inputs in \<open>source/main.c\<close>; the counter that debounces an input
    stays in its range, a steady level sets the status with one report, a short disturbance
    does nothing.
  \<^item> \<open>Gateway_Main\<close>: the callbacks of the cloud in \<open>source/main.c\<close> (commands, adding and deleting
    devices, confirmed bindings, heartbeats, reset), the key of the gateway, the reports of
    positions and the links between Modbus and KNX devices. The cloud library is a parameter;
    what binding and deleting make it know follows for all six loops from the locale
    \<open>device_walk\<close>.
  \<^item> \<open>Config_Xml\<close>, \<open>Config_Mbus\<close>: the parsers of Modbus devices in \<open>source/parseXML.c\<close> as tables of
    tags over a tree of nodes. A run returns, leaves the program, hangs or crashes. The locales
    \<open>tag_invariant\<close>, \<open>cell_parser\<close> and \<open>unit_parser\<close> carry a property of devices from the tags to the
    whole parser; every table interprets them.
  \<^item> \<open>Config_Roundtrip\<close>: a description of air conditioners written as nodes is read back; every
    parsed Modbus device is well formed; the objects that the cells of a unit copy; the nodes on
    which the parsers crash and hang.
  \<^item> \<open>Config_Knx\<close>: the parsers of KNX air conditioners, ventilation and floor heating, as tables of
    tags again. What every parsed device satisfies follows from the locale \<open>device_reader\<close>; the
    objects of a device have the point of their place, an address and a data point in range.
  \<^item> \<open>Config_Panels\<close>: panels, smart panels, dimmers and curtains. The memory that \<open>realloc\<close> adds is
    an argument; the key pointers that the parsers keep from one node to the next are explicit
    state (locale \<open>key_cells\<close>).
  \<^item> \<open>Config_Misc\<close>: digital inputs and outputs, scenes, groups, the gateway, Zigbee devices and the
    switches of the two buses; parsed inputs can be scanned, parsed groups fit their arrays.
  \<^item> \<open>Config_Update\<close>: the functions of \<open>source/parseXML.c\<close> that rewrite one node of the file. The evaluator
    of XPath expressions is a parameter; the mode of a smart panel survives a restart.
  \<^item> \<open>Device_Groups\<close>: the grouping of Modbus devices in \<open>source/main.c\<close>, which chains records that
    several lists share, over an explicit store; when it returns and what it chains, and why it
    finds no group of a configuration.
  \<^item> \<open>Plugin_Load\<close>: the loading of plugins in \<open>source/main.c\<close>, with the dynamic linker as a parameter;
    which interface a device gets and which libraries stay open (locale \<open>plugin_loader\<close>).
  \<^item> \<open>License\<close>: the address of the gateway (\<open>source/hal_wired.c\<close>) and its licence
    (\<open>source/production_utils.c\<close>), with the shell and the licence program as parameters.
  \<^item> \<open>Boot\<close>: the start in \<open>source/main.c\<close>: the identity, all parsers in their order over one
    state, and the jobs that are handed to the thread pool; what the configuration keeps, and
    how many threads the endless jobs leave.
  \<^item> \<open>Upgrade\<close>: \<open>source/upgrade.c\<close>, the upgrade with two slots as steps on the file system; it can be
    interrupted at any point, and a failing program is rolled back.
  \<^item> This theory: the properties of all CRC plugins together.

  \<^bold>\<open>Bounds and parameters.\<close> Allocation results, lock results, wake-ups of condition
  variables, the clock and uninitialised memory are arguments, so that the theorems hold for
  all of them or name the ones they need. Loops over buffers are structural recursions with
  the C bound; loops over linked cells are partial functions into \<open>option\<close>, and the theorems
  show that they return. No definition uses fuel except the encoding loop of the KNX
  temperature, whose sixteen rounds are the bound of the C loop. Floating-point arithmetic is
  exact in \<open>Knx_Plugins\<close>, where the operands make it exact (the theory gives the argument), and
  rounded after every operation in \<open>Knx_Float\<close>.

  \<^bold>\<open>Not modelled.\<close> The Zigbee callbacks of \<open>source/main.c\<close>, which use list nodes as device records and so
  read memory that belongs to no object of the model; the command line, the lights and the
  message queue for debugging; \<open>source/common.c\<close> (clock and sleep calls, whose results are arguments
  of the models that use them); the network adapters except the address of the gateway, which
  are system calls; the test servers; headers of the vendor and of third parties.
\<close>

section \<open>Requests on the serial line\<close>

text \<open>
  The plugins whose requests carry a Modbus CRC, with the static data each of them keeps
  between calls as arguments: the ones that never leave the memory of their objects, the
  ones that index a static array with the device address, and the curtain plugins, which
  have 16-bit device addresses.
\<close>

definition total_builders ::
  "u8 \<Rightarrow> broan_cache \<Rightarrow> vent_node cptr \<Rightarrow> ((nat \<Rightarrow> bool) \<Rightarrow> request \<Rightarrow> built) list" where
  "total_builders hc bc node =
     [honeywell_builder, panel_builder, towwire_builder, humidifier_builder hc,
      dpurat_builder, tuoli_builder, broan_builder bc node, dtouch_builder node, erdh_builder node]"

definition table_builders ::
  "daikin_cache \<Rightarrow> tg_cache \<Rightarrow> dvent_cache \<Rightarrow> ((nat \<Rightarrow> bool) \<Rightarrow> request \<Rightarrow> built) list" where
  "table_builders dc tc vc = [daikin_builder dc, tg_builder tc, dvent_builder vc]"

definition curtain_builders :: "((nat \<Rightarrow> bool) \<Rightarrow> request16 \<Rightarrow> built) list" where
  "curtain_builders = [cm_builder 0xAA, cm_builder 0x55, dooya_builder]"

lemma builders_satisfy_contract:
  "bld \<in> set (total_builders hc bc node) \<Longrightarrow> total_crc_builder bld"
  "bld' \<in> set (table_builders dc tc vc) \<Longrightarrow> crc_builder bld'"
  "bld'' \<in> set curtain_builders \<Longrightarrow> total_crc_builder bld''"
  using honeywell.total_crc_builder_axioms panel.total_crc_builder_axioms
    towwire.total_crc_builder_axioms humidifier.total_crc_builder_axioms
    dpurat.total_crc_builder_axioms tuoli.total_crc_builder_axioms broan.total_crc_builder_axioms
    dtouch.total_crc_builder_axioms erdh.total_crc_builder_axioms
    daikin.crc_builder_axioms tg.crc_builder_axioms dvent.crc_builder_axioms
    cm.total_crc_builder_axioms dooya.total_crc_builder_axioms
  by (auto simp: total_builders_def table_builders_def curtain_builders_def)

lemma builder_contracts:
  assumes "bld \<in> set (total_builders hc bc node) \<union> set (table_builders dc tc vc)"
  shows "crc_builder bld"
  using assms builders_satisfy_contract(1,2) total_crc_builder.axioms(1) by (metis Un_iff)

lemma requests_framed:
  assumes "(\<exists>bld \<in> set (total_builders hc bc node) \<union> set (table_builders dc tc vc).
        bld al x = Some (Ptr m))
      \<or> (\<exists>bld \<in> set curtain_builders. bld al y = Some (Ptr m))"
  shows "crc_framed (sent m) \<and> msg_len m = length (sent m)"
  using assms
proof
  assume "\<exists>bld \<in> set (total_builders hc bc node) \<union> set (table_builders dc tc vc). bld al x = Some (Ptr m)"
  then show ?thesis
    using crc_builder.bld_framed builder_contracts by metis
next
  assume "\<exists>bld \<in> set curtain_builders. bld al y = Some (Ptr m)"
  then show ?thesis
    using crc_builder.bld_framed total_crc_builder.axioms(1) builders_satisfy_contract(3) by metis
qed

text \<open>
  Claim C36. Whatever a plugin that uses the Modbus CRC is asked to send, and whatever its
  static data holds: if the line changes one byte of the request, the device sees a frame
  whose CRC does not match.
\<close>

theorem requests_detect_corruption:
  assumes "(\<exists>bld \<in> set (total_builders hc bc node) \<union> set (table_builders dc tc vc).
        bld al x = Some (Ptr m))
      \<or> (\<exists>bld \<in> set curtain_builders. bld al y = Some (Ptr m))"
    and "i < msg_len m" and "b \<noteq> sent m ! i"
  shows "crc_framed (sent m) \<and> \<not> crc_framed ((sent m)[i := b])"
  using requests_framed [OF assms(1)] assms(2,3) crc_framed_corrupt [of "sent m" i b] by auto

theorem requests_detect_corruption_witness:
  "\<exists>m. honeywell_builder (\<lambda>_. True) (1, 0, 0, NULL) = Some (Ptr m) \<and> 2 < msg_len m
     \<and> crc_framed (sent m) \<and> \<not> crc_framed ((sent m)[2 := sent m ! 2 + 1])"
proof -
  obtain m where m: "honeywell_builder (\<lambda>_. True) (1, 0, 0, NULL) = Some (Ptr m)" "msg_len m = 8"
    by (simp add: honeywell_builder_def Honeywell_build_def new_msg_def frame_simps crc_msg_Some)
  then show ?thesis
    using requests_detect_corruption
      [of 0 undefined undefined undefined undefined undefined "\<lambda>_. True" "(1, 0, 0, NULL)" m
        undefined 2 "sent m ! 2 + 1"]
    by (auto simp: total_builders_def)
qed

text \<open>
  Building a request never leaves the memory of its objects, for any device
  address, data point and static data, in the plugins of \<open>total_builders\<close> and the curtain
  plugins: the call returns, either reporting failure or with a frame that is exactly as
  long as it says and ends in its CRC.
\<close>

lemma requests_total:
  "(\<forall>bld \<in> set (total_builders hc bc node). bld al x = Some NULL
      \<or> (\<exists>m. bld al x = Some (Ptr m) \<and> crc_framed (sent m) \<and> msg_len m = length (sent m)))
   \<and> (\<forall>bld \<in> set curtain_builders. bld al y = Some NULL
      \<or> (\<exists>m. bld al y = Some (Ptr m) \<and> crc_framed (sent m) \<and> msg_len m = length (sent m)))"
  by (intro conjI ballI total_crc_builder.frame_or_failure)
    (auto intro: builders_satisfy_contract)

lemma requests_total_example:
  "\<exists>m. dooya_builder (\<lambda>_. True) (0x1234, 0, 0, NULL) = Some (Ptr m) \<and> crc_framed (sent m)"
proof -
  have "dooya_builder (\<lambda>_. True) (0x1234, 0, 0, NULL) \<noteq> Some NULL"
    by (simp add: dooya_builder_def Dooya_buildExt_def new_msg_def frame_simps crc_msg_Some)
  then show ?thesis
    using requests_total [of 0 undefined undefined "\<lambda>_. True" undefined "(0x1234, 0, 0, NULL)"]
    by (auto simp: curtain_builders_def)
qed

end
